(* ===== verification/Avr_Prelude.thy ===== *)
theory Avr_Prelude
  imports Main "HOL-Library.Word"
begin

text \<open>
  Shared vocabulary of the simulavr development.

  \<^item> \<open>byte\<close>, \<open>word16\<close> and \<open>word32\<close> name the machine integers of
    \<^verbatim>\<open>src/src/types.h\<close> (\<open>byte\<close>, \<open>word\<close>) and C's \<open>unsigned int\<close>.
  \<^item> \<open>sim_error\<close> lists the ways in which the simulator gives up: every
    \<open>avr_error\<close>, every failing \<open>assert\<close> and every place in which the C++ code has
    undefined behaviour; \<open>LoopBound\<close> marks the end of the fuel of a bounded loop.
  \<^item> \<open>('s, 'a) sim\<close> is explicit state passing with such an error as a value. C++
    statements become \<open>bnd\<close> and \<open>sq\<close> (the semicolon), reads become \<open>gets\<close>, writes
    become \<open>modify\<close>, \<open>assert\<close> becomes \<open>assertM\<close>.
  \<^item> The lemmas about words (which bit is which half of the number line, masks that
    partition a word) carry the decoder and ALU proofs.
\<close>

unbundle bit_operations_syntax

type_synonym byte = "8 word"
type_synonym word16 = "16 word"
type_synonym word32 = "32 word"

section \<open>Errors and state passing\<close>

datatype sim_error =
    IllegalOpcode
  | OutOfFlash
  | FlashLocked
  | InvalidAccess
  | UndefinedResult
  | NoByteStack
  | AssertionFailed
  | UndefinedBehaviour
  | WrongMultiplexValue
  | LineNotFound
  | LoopBound

type_synonym ('s, 'a) sim = "'s \<Rightarrow> sim_error + ('a \<times> 's)"

definition ret :: "'a \<Rightarrow> ('s, 'a) sim" where
  "ret x = (\<lambda>s. Inr (x, s))"

definition fail :: "sim_error \<Rightarrow> ('s, 'a) sim" where
  "fail e = (\<lambda>s. Inl e)"

definition bnd :: "('s, 'a) sim \<Rightarrow> ('a \<Rightarrow> ('s, 'b) sim) \<Rightarrow> ('s, 'b) sim" where
  "bnd m f = (\<lambda>s. case m s of Inl e \<Rightarrow> Inl e | Inr (x, s') \<Rightarrow> f x s')"

definition sq :: "('s, 'a) sim \<Rightarrow> ('s, 'b) sim \<Rightarrow> ('s, 'b) sim" where
  "sq m n = bnd m (\<lambda>_. n)"

definition gets :: "('s \<Rightarrow> 'a) \<Rightarrow> ('s, 'a) sim" where
  "gets f = (\<lambda>s. Inr (f s, s))"

definition modify :: "('s \<Rightarrow> 's) \<Rightarrow> ('s, unit) sim" where
  "modify f = (\<lambda>s. Inr ((), f s))"

definition assertM :: "bool \<Rightarrow> ('s, unit) sim" where
  "assertM b = (if b then ret () else fail AssertionFailed)"

definition whenM :: "bool \<Rightarrow> ('s, unit) sim \<Rightarrow> ('s, unit) sim" where
  "whenM b m = (if b then m else ret ())"

named_theorems sim_simps \<open>one-step evaluation of the state-passing combinators\<close>

lemma ret_run [simp, sim_simps]: "ret x s = Inr (x, s)"
  by (simp add: ret_def)

lemma fail_run [simp, sim_simps]: "fail e s = Inl e"
  by (simp add: fail_def)

lemma gets_run [simp, sim_simps]: "gets f s = Inr (f s, s)"
  by (simp add: gets_def)

lemma modify_run [simp, sim_simps]: "modify f s = Inr ((), f s)"
  by (simp add: modify_def)

lemma assertM_run [simp, sim_simps]: "assertM b s = (if b then Inr ((), s) else Inl AssertionFailed)"
  by (simp add: assertM_def)

lemma bnd_Inr [simp, sim_simps]: "m s = Inr (x, s') \<Longrightarrow> bnd m f s = f x s'"
  by (simp add: bnd_def)

lemma bnd_Inl [simp, sim_simps]: "m s = Inl e \<Longrightarrow> bnd m f s = Inl e"
  by (simp add: bnd_def)

lemma sq_Inr [simp, sim_simps]: "m s = Inr (x, s') \<Longrightarrow> sq m n s = n s'"
  by (simp add: sq_def)

lemma sq_Inl [simp, sim_simps]: "m s = Inl e \<Longrightarrow> sq m n s = Inl e"
  by (simp add: sq_def)

lemma whenM_run [simp, sim_simps]: "whenM b m s = (if b then m s else Inr ((), s))"
  by (simp add: whenM_def)

text \<open>Running a sequence whose first part is one of the primitives.\<close>

lemma seq_run [simp, sim_simps]:
  "bnd (ret x) f s = f x s"
  "bnd (fail e) f s = Inl e"
  "bnd (gets g) f s = f (g s) s"
  "bnd (modify h) f' s = f' () (h s)"
  "sq (ret x) n s = n s"
  "sq (fail e) n s = Inl e"
  "sq (gets g) n s = n s"
  "sq (modify h) n s = n (h s)"
  "sq (assertM b) n s = (if b then n s else Inl AssertionFailed)"
  "sq (whenM b m) n s = (if b then sq m n s else n s)"
  "sq (if b then m1 else m2) n s = (if b then sq m1 n s else sq m2 n s)"
  "bnd (if b then m3 else m4) f s = (if b then bnd m3 f s else bnd m4 f s)"
  by (simp_all add: bnd_def sq_def assertM_def whenM_def)

lemma seq_assoc [simp, sim_simps]:
  "sq (sq a b) c = sq a (sq b c)"
  "bnd (sq a b) f = sq a (bnd b f)"
  "sq (bnd a g) c = bnd a (\<lambda>x. sq (g x) c)"
  "bnd (bnd a g) f = bnd a (\<lambda>x. bnd (g x) f)"
  by (auto simp: bnd_def sq_def fun_eq_iff split: sum.splits)

lemma bnd_eq_InrE:
  assumes "bnd m f s = Inr (y, t)"
  obtains x s' where "m s = Inr (x, s')" and "f x s' = Inr (y, t)"
  using assms by (auto simp: bnd_def split: sum.splits)

lemma sq_eq_InrE:
  assumes "sq m n s = Inr (y, t)"
  obtains x s' where "m s = Inr (x, s')" and "n s' = Inr (y, t)"
  using assms by (auto simp: sq_def elim: bnd_eq_InrE)

text \<open>
  \<open>keeps P m\<close>: whenever \<open>m\<close> ends without an error, it ends in a state that satisfies
  \<open>P\<close> if it started in one. The rules follow the combinators.
\<close>

definition keeps :: "('s \<Rightarrow> bool) \<Rightarrow> ('s, 'a) sim \<Rightarrow> bool" where
  "keeps P m \<longleftrightarrow> (\<forall>s x t. P s \<longrightarrow> m s = Inr (x, t) \<longrightarrow> P t)"

named_theorems keeps_intros \<open>structural rules for preservation\<close>

lemma keepsI: "(\<And>s x t. P s \<Longrightarrow> m s = Inr (x, t) \<Longrightarrow> P t) \<Longrightarrow> keeps P m"
  by (auto simp: keeps_def)

lemma keepsD: "keeps P m \<Longrightarrow> P s \<Longrightarrow> m s = Inr (x, t) \<Longrightarrow> P t"
  by (auto simp: keeps_def)

lemma keeps_ret [keeps_intros]: "keeps P (ret x)"
  by (simp add: keeps_def)

lemma keeps_fail [keeps_intros]: "keeps P (fail e)"
  by (simp add: keeps_def)

lemma keeps_gets [keeps_intros]: "keeps P (gets f)"
  by (simp add: keeps_def)

lemma keeps_assertM [keeps_intros]: "keeps P (assertM b)"
  by (simp add: keeps_def)

lemma keeps_modify [keeps_intros]: "(\<And>s. P s \<Longrightarrow> P (f s)) \<Longrightarrow> keeps P (modify f)"
  by (simp add: keeps_def)

lemma keeps_bnd [keeps_intros]:
  assumes "keeps P m" and "\<And>x. keeps P (f x)"
  shows "keeps P (bnd m f)"
proof (rule keepsI)
  fix s x t
  assume "P s" and "bnd m f s = Inr (x, t)"
  from this(2) obtain y u where "m s = Inr (y, u)" and "f y u = Inr (x, t)"
    by (rule bnd_eq_InrE)
  with \<open>P s\<close> show "P t" using assms by (blast dest: keepsD)
qed

lemma keeps_sq [keeps_intros]: "keeps P m \<Longrightarrow> keeps P n \<Longrightarrow> keeps P (sq m n)"
  by (auto simp: sq_def intro: keeps_bnd)

lemma keeps_whenM [keeps_intros]: "keeps P m \<Longrightarrow> keeps P (whenM b m)"
  by (auto simp: whenM_def intro: keeps_ret)

lemma keeps_if [keeps_intros]:
  "(b \<Longrightarrow> keeps P m) \<Longrightarrow> (\<not> b \<Longrightarrow> keeps P n) \<Longrightarrow> keeps P (if b then m else n)"
  by simp

lemma keeps_let [keeps_intros]: "keeps P (f x) \<Longrightarrow> keeps P (let y = x in f y)"
  by simp

lemma keeps_option [keeps_intros]:
  "(x = None \<Longrightarrow> keeps P m) \<Longrightarrow> (\<And>y. x = Some y \<Longrightarrow> keeps P (f y)) \<Longrightarrow>
   keeps P (case x of None \<Rightarrow> m | Some y \<Rightarrow> f y)"
  by (cases x) auto

primrec mapS :: "('a \<Rightarrow> ('s, 'b) sim) \<Rightarrow> 'a list \<Rightarrow> ('s, 'b list) sim" where
  "mapS f [] = ret []"
| "mapS f (x # xs) = bnd (f x) (\<lambda>y. bnd (mapS f xs) (\<lambda>ys. ret (y # ys)))"

primrec forS :: "('a \<Rightarrow> ('s, unit) sim) \<Rightarrow> 'a list \<Rightarrow> ('s, unit) sim" where
  "forS f [] = ret ()"
| "forS f (x # xs) = sq (f x) (forS f xs)"

lemma keeps_mapS [keeps_intros]: "(\<And>x. keeps P (f x)) \<Longrightarrow> keeps P (mapS f xs)"
  by (induction xs) (auto simp only: mapS.simps intro: keeps_intros)

lemma keeps_forS [keeps_intros]: "(\<And>x. keeps P (f x)) \<Longrightarrow> keeps P (forS f xs)"
  by (induction xs) (auto simp only: forS.simps intro: keeps_intros)

text \<open>Running an operation of a component on its part of a larger state.\<close>

definition zoom :: "('d \<Rightarrow> 's) \<Rightarrow> ('s \<Rightarrow> 'd \<Rightarrow> 'd) \<Rightarrow> ('s, 'a) sim \<Rightarrow> ('d, 'a) sim" where
  "zoom get put m = (\<lambda>d. case m (get d) of Inl e \<Rightarrow> Inl e | Inr (x, s) \<Rightarrow> Inr (x, put s d))"

text \<open>A read that may fail.\<close>

definition asks :: "('s \<Rightarrow> sim_error + 'a) \<Rightarrow> ('s, 'a) sim" where
  "asks f = (\<lambda>s. case f s of Inl e \<Rightarrow> Inl e | Inr x \<Rightarrow> Inr (x, s))"

lemma zoom_Inr [simp, sim_simps]: "m (get d) = Inr (x, s) \<Longrightarrow> zoom get put m d = Inr (x, put s d)"
  by (simp add: zoom_def)

lemma zoom_Inl [simp, sim_simps]: "m (get d) = Inl e \<Longrightarrow> zoom get put m d = Inl e"
  by (simp add: zoom_def)

lemma asks_Inr [simp, sim_simps]: "f s = Inr x \<Longrightarrow> asks f s = Inr (x, s)"
  by (simp add: asks_def)

lemma asks_Inl [simp, sim_simps]: "f s = Inl e \<Longrightarrow> asks f s = Inl e"
  by (simp add: asks_def)

lemma keeps_asks [keeps_intros]: "keeps P (asks f)"
  by (auto simp: keeps_def asks_def split: sum.splits)

lemma keeps_zoom:
  assumes "keeps Q m" and "\<And>d. P d \<Longrightarrow> Q (get d)" and "\<And>d s. P d \<Longrightarrow> Q s \<Longrightarrow> P (put s d)"
  shows "keeps P (zoom get put m)"
  using assms by (fastforce simp: keeps_def zoom_def split: sum.splits)

text \<open>
  \<open>wp m Q s\<close>: from \<open>s\<close>, \<open>m\<close> ends without an error, with a result and in a state that satisfy
  \<open>Q\<close>. The equations follow the combinators.
\<close>

definition wp :: "('s, 'a) sim \<Rightarrow> ('a \<Rightarrow> 's \<Rightarrow> bool) \<Rightarrow> 's \<Rightarrow> bool" where
  "wp m Q s \<longleftrightarrow> (\<exists>x t. m s = Inr (x, t) \<and> Q x t)"

named_theorems wp_simps \<open>total correctness of the state-passing combinators\<close>

lemma wp_basic [wp_simps]:
  "wp (ret x) Q = Q x" "wp (fail e) Q = (\<lambda>s. False)" "wp (gets f) Q = (\<lambda>s. Q (f s) s)"
  "wp (modify g) Q' = (\<lambda>s. Q' () (g s))" "wp (assertM b) Q' = (\<lambda>s. b \<and> Q' () s)"
  by (auto simp: wp_def fun_eq_iff)

lemma wp_bnd [wp_simps]: "wp (bnd m f) Q = wp m (\<lambda>x. wp (f x) Q)"
  by (auto simp: wp_def bnd_def fun_eq_iff split: sum.splits)

lemma wp_sq [wp_simps]: "wp (sq m n) Q = wp m (\<lambda>x. wp n Q)"
  by (simp add: sq_def wp_bnd)

lemma wp_whenM [wp_simps]: "wp (whenM b m) Q = (if b then wp m Q else Q ())"
  by (simp add: whenM_def wp_simps)

lemma wp_zoom [wp_simps]: "wp (zoom get put m) Q = (\<lambda>d. wp m (\<lambda>x s. Q x (put s d)) (get d))"
  by (auto simp: wp_def zoom_def fun_eq_iff split: sum.splits)

lemma wp_forS [wp_simps]:
  "wp (forS f []) Q = Q ()" "wp (forS f (x # xs)) Q = wp (f x) (\<lambda>_. wp (forS f xs) Q)"
  by (simp_all add: wp_simps)

lemma wp_whenI: "(b \<Longrightarrow> wp m Q s) \<Longrightarrow> (\<not> b \<Longrightarrow> Q () s) \<Longrightarrow> wp (whenM b m) Q s"
  by (simp add: wp_whenM)

lemma wp_sqI: "wp m (\<lambda>_. wp n Q) s \<Longrightarrow> wp (sq m n) Q s"
  by (simp add: wp_sq)

lemma wp_getsI: "wp (g (f s)) Q s \<Longrightarrow> wp (bnd (gets f) g) Q s"
  by (simp add: wp_bnd wp_basic)

lemma wpI: "m s = Inr (x, t) \<Longrightarrow> Q x t \<Longrightarrow> wp m Q s"
  by (auto simp: wp_def)

lemma wp_mono: "wp m Q s \<Longrightarrow> (\<And>x t. Q x t \<Longrightarrow> R x t) \<Longrightarrow> wp m R s"
  by (auto simp: wp_def)

lemma wpE: "wp m Q s \<Longrightarrow> (\<And>x t. m s = Inr (x, t) \<Longrightarrow> Q x t \<Longrightarrow> thesis) \<Longrightarrow> thesis"
  by (auto simp: wp_def)

section \<open>Words\<close>

lemma bit_unat_iff: "bit (x :: 'a::len word) n \<longleftrightarrow> odd (unat x div 2 ^ n)"
proof -
  have "bit x n \<longleftrightarrow> bit (unat x) n" by (simp add: bit_unsigned_iff)
  then show ?thesis by (simp add: bit_iff_odd)
qed

lemma unat_byte_less: "unat (x :: byte) < 256"
  using unsigned_less [of x] by simp

lemma unat_word16_less: "unat (x :: word16) < 65536"
  using unsigned_less [of x] by simp

lemma odd_div_half_iff: "u < 2 * h \<Longrightarrow> odd (u div h) \<longleftrightarrow> h \<le> u" for u h :: nat
proof (cases "h \<le> u")
  case True
  assume "u < 2 * h"
  with True have "u div h = 1" by (intro div_nat_eqI) auto
  with True show ?thesis by simp
qed simp

lemma bit7_iff: "bit (x :: byte) 7 \<longleftrightarrow> 128 \<le> unat x"
  using odd_div_half_iff [of "unat x" 128] unat_byte_less [of x] by (simp add: bit_unat_iff)

lemma bit3_iff: "bit (x :: byte) 3 \<longleftrightarrow> 8 \<le> unat x mod 16"
proof -
  have "bit x 3 \<longleftrightarrow> bit (take_bit 4 (unat x)) 3" by (simp add: bit_take_bit_iff bit_unsigned_iff)
  also have "\<dots> \<longleftrightarrow> odd (unat x mod 16 div 8)" by (simp add: take_bit_eq_mod bit_iff_odd)
  also have "\<dots> \<longleftrightarrow> 8 \<le> unat x mod 16" by (rule odd_div_half_iff) simp
  finally show ?thesis .
qed

lemma bit15_iff: "bit (x :: word16) 15 \<longleftrightarrow> 32768 \<le> unat x"
  using odd_div_half_iff [of "unat x" 32768] unat_word16_less [of x] by (simp add: bit_unat_iff)

lemma sint_byte_eq:
  "sint (x :: byte) = (if 128 \<le> unat x then int (unat x) - 256 else int (unat x))"
proof -
  have "uint x < 256" using uint_bounded [of x] by simp
  then have "take_bit 8 (uint x) = uint x" by (simp add: take_bit_int_eq_self)
  then have "sint x = uint x - 256 * of_bool (bit x 7)"
    by (simp add: sint_uint signed_take_bit_eq_take_bit_minus bit_unsigned_iff)
  then show ?thesis by (simp add: bit7_iff)
qed

text \<open>A word is the disjoint union of the bits inside and outside of a mask.\<close>

lemma and_not_mask_split: "(x AND NOT m) OR (x AND m) = (x :: 'a::len word)"
  by (rule bit_word_eqI) (auto simp: bit_simps)

text \<open>Equality of opcodes, bit by bit.\<close>

lemma less_16_cases:
  fixes n :: nat
  assumes "n < 16"
  obtains "n = 0" | "n = 1" | "n = 2" | "n = 3" | "n = 4" | "n = 5" | "n = 6" | "n = 7"
    | "n = 8" | "n = 9" | "n = 10" | "n = 11" | "n = 12" | "n = 13" | "n = 14" | "n = 15"
  using assms by (auto simp: less_Suc_eq numeral_eq_Suc)

lemma word16_eq_iff_bits:
  "(x :: word16) = y \<longleftrightarrow>
     (bit x 0 \<longleftrightarrow> bit y 0) \<and> (bit x 1 \<longleftrightarrow> bit y 1) \<and> (bit x 2 \<longleftrightarrow> bit y 2) \<and> (bit x 3 \<longleftrightarrow> bit y 3) \<and>
     (bit x 4 \<longleftrightarrow> bit y 4) \<and> (bit x 5 \<longleftrightarrow> bit y 5) \<and> (bit x 6 \<longleftrightarrow> bit y 6) \<and> (bit x 7 \<longleftrightarrow> bit y 7) \<and>
     (bit x 8 \<longleftrightarrow> bit y 8) \<and> (bit x 9 \<longleftrightarrow> bit y 9) \<and> (bit x 10 \<longleftrightarrow> bit y 10) \<and> (bit x 11 \<longleftrightarrow> bit y 11) \<and>
     (bit x 12 \<longleftrightarrow> bit y 12) \<and> (bit x 13 \<longleftrightarrow> bit y 13) \<and> (bit x 14 \<longleftrightarrow> bit y 14) \<and> (bit x 15 \<longleftrightarrow> bit y 15)"
  (is "_ \<longleftrightarrow> ?bits")
proof
  assume ?bits
  have "bit x n \<longleftrightarrow> bit y n" if "n < 16" for n
    using that \<open>?bits\<close> by (cases rule: less_16_cases) auto
  then show "x = y" by (intro bit_word_eqI) simp
qed simp

section \<open>Fields and masks\<close>

lemma disjoint_add_eq_or: "(x :: word16) AND y = 0 \<Longrightarrow> x + y = x OR y"
  by (simp add: disjunctive_add_eq_or)

lemma unat_less_iff_uint: "unat (x :: 'a::len word) < n \<longleftrightarrow> uint x < int n"
  by (metis of_nat_less_iff of_nat_unat)

lemma unat_take_bit_less: "unat (take_bit n (w :: 'a::len word)) < 2 ^ n"
  by (simp add: unsigned_take_bit_eq)

lemma uint_take_bit_less: "uint (take_bit n (w :: 'a::len word)) < 2 ^ n"
  by (simp add: unsigned_take_bit_eq)

lemma sint_word_of_int_small:
  "- (2 ^ (LENGTH('a) - 1)) \<le> k \<Longrightarrow> k < 2 ^ (LENGTH('a) - 1) \<Longrightarrow> sint (word_of_int k :: 'a::len word) = k"
  by (simp add: signed_of_int signed_take_bit_int_eq_self)

lemma bit_top_iff_uint:
  assumes "0 < n" and "uint (x :: 'a::len word) < 2 ^ n"
  shows "bit x (n - 1) \<longleftrightarrow> 2 ^ (n - 1) \<le> uint x"
proof -
  have "(2::nat) ^ n = 2 * 2 ^ (n - 1)" using assms(1) by (cases n) auto
  moreover have "unat x < 2 ^ n" using assms(2) by (simp add: unat_less_iff_uint)
  ultimately have "bit x (n - 1) \<longleftrightarrow> 2 ^ (n - 1) \<le> unat x"
    using odd_div_half_iff [of "unat x" "2 ^ (n - 1)"] by (simp add: bit_unat_iff)
  then show ?thesis using unat_less_iff_uint [of x "2 ^ (n - 1)"] by (simp add: not_less [symmetric])
qed

lemma bit_less_iff_uint:
  assumes "uint (x :: 'a::len word) < 2 ^ n" and "bit x k"
  shows "k < n"
proof (rule ccontr)
  assume "\<not> k < n"
  then have "(2::nat) ^ n \<le> 2 ^ k" by (intro power_increasing) auto
  moreover have "unat x < 2 ^ n" using assms(1) by (simp add: unat_less_iff_uint)
  ultimately have "unat x div 2 ^ k = 0" by (intro div_less) linarith
  with assms(2) show False by (simp add: bit_unat_iff)
qed

lemma less_8_cases:
  fixes n :: nat
  assumes "n < 8"
  obtains "n = 0" | "n = 1" | "n = 2" | "n = 3" | "n = 4" | "n = 5" | "n = 6" | "n = 7"
  using assms by (auto simp: less_Suc_eq numeral_eq_Suc)

lemma unat_less_by_bits:
  assumes "list_all (\<lambda>k. \<not> bit w k) [n..<LENGTH('a)]"
  shows "unat (w :: 'a::len word) < 2 ^ n"
proof -
  have "w = take_bit n w"
    using assms by (intro bit_word_eqI) (auto simp: bit_simps list_all_iff not_less)
  then show ?thesis using unat_take_bit_less [of n w] by simp
qed

lemma or_mask_eq: "op AND NOT m = c \<Longrightarrow> c OR (op AND m) = (op :: word16)"
  using and_not_mask_split [of op m] by simp

lemma and_or_masks: "(op AND m) OR (op AND n) = (op :: word16) AND (m OR n)"
  by (rule bit_word_eqI) (auto simp: bit_simps)

lemma or_two_masks_eq:
  "op AND NOT (m OR n) = b \<Longrightarrow> b OR (op AND m) OR (op AND n) = (op :: word16)"
  using or_mask_eq [of op "m OR n" b] and_or_masks [of op m n] by (simp add: or.assoc)

lemma push_bit_one_byte: "b < 8 \<Longrightarrow> push_bit b (1 :: byte) \<in> {1, 2, 4, 8, 16, 32, 64, 128}"
  by (erule less_8_cases) simp_all

end
