(* ===== verification/Avr_Decoder.thy ===== *)
theory Avr_Decoder
  imports Avr_Prelude
begin

text \<open>
  The instruction decoder: \<^verbatim>\<open>src/src/decoder.h\<close> and the second half of
  \<^verbatim>\<open>src/src/decoder.cpp\<close>.

  \<^item> \<open>instr\<close> has one value shape per class derived from \<open>DecodedInstruction\<close>, with the
    operand members that the class stores (the pointers to the core and to SREG are the
    device state and not operands).
  \<^item> \<open>get_rd_5\<close> \<dots> \<open>get_A_6\<close> extract operand fields from an opcode.
  \<^item> \<open>core_flags\<close> are the members of \<open>AvrDevice\<close> that say which instructions exist.
  \<^item> \<open>lookup_opcode\<close> is the cascade of \<open>switch\<close> statements, one \<open>decode_\<dots>\<close> function per
    \<open>switch\<close>: \<open>Some\<close> is a \<open>return\<close>, \<open>None\<close> falls through to the next one.

  The documented bit patterns and the theorems that relate the decoder to them are in
  \<open>Avr_Encoding\<close>.
\<close>

section \<open>Operand fields\<close>

abbreviation mask_Rd_2 :: word16 where "mask_Rd_2 \<equiv> 0x0030"
abbreviation mask_Rd_3 :: word16 where "mask_Rd_3 \<equiv> 0x0070"
abbreviation mask_Rd_4 :: word16 where "mask_Rd_4 \<equiv> 0x00f0"
abbreviation mask_Rd_5 :: word16 where "mask_Rd_5 \<equiv> 0x01f0"
abbreviation mask_Rr_3 :: word16 where "mask_Rr_3 \<equiv> 0x0007"
abbreviation mask_Rr_4 :: word16 where "mask_Rr_4 \<equiv> 0x000f"
abbreviation mask_Rr_5 :: word16 where "mask_Rr_5 \<equiv> 0x020f"
abbreviation mask_K_8 :: word16 where "mask_K_8 \<equiv> 0x0F0F"
abbreviation mask_K_6 :: word16 where "mask_K_6 \<equiv> 0x00CF"
abbreviation mask_k_7 :: word16 where "mask_k_7 \<equiv> 0x03F8"
abbreviation mask_k_12 :: word16 where "mask_k_12 \<equiv> 0x0FFF"
abbreviation mask_k_22 :: word16 where "mask_k_22 \<equiv> 0x01F1"
abbreviation mask_reg_bit :: word16 where "mask_reg_bit \<equiv> 0x0007"
abbreviation mask_sreg_bit :: word16 where "mask_sreg_bit \<equiv> 0x0070"
abbreviation mask_q_displ :: word16 where "mask_q_displ \<equiv> 0x2C07"
abbreviation mask_A_5 :: word16 where "mask_A_5 \<equiv> 0x00F8"
abbreviation mask_A_6 :: word16 where "mask_A_6 \<equiv> 0x060F"

definition get_rd_2 :: "word16 \<Rightarrow> nat" where
  "get_rd_2 opcode = unat (drop_bit 4 (opcode AND mask_Rd_2) AND 0x3) * 2 + 24"

definition get_rd_3 :: "word16 \<Rightarrow> nat" where
  "get_rd_3 opcode = unat (drop_bit 4 (opcode AND mask_Rd_3) AND 0x7) + 16"

definition get_rd_4 :: "word16 \<Rightarrow> nat" where
  "get_rd_4 opcode = unat (drop_bit 4 (opcode AND mask_Rd_4) AND 0xf) + 16"

definition get_rd_5 :: "word16 \<Rightarrow> nat" where
  "get_rd_5 opcode = unat (drop_bit 4 (opcode AND mask_Rd_5) AND 0x1f)"

definition get_rr_3 :: "word16 \<Rightarrow> nat" where
  "get_rr_3 opcode = unat (opcode AND mask_Rr_3) + 16"

definition get_rr_4 :: "word16 \<Rightarrow> nat" where
  "get_rr_4 opcode = unat (opcode AND mask_Rr_4) + 16"

definition get_rr_5 :: "word16 \<Rightarrow> nat" where
  "get_rr_5 opcode =
     (let reg = opcode AND mask_Rr_5 in unat ((reg AND 0xf) + (drop_bit 5 reg AND 0x10)))"

definition get_K_8 :: "word16 \<Rightarrow> byte" where
  "get_K_8 opcode = (let K = opcode AND mask_K_8 in ucast ((drop_bit 4 K AND 0xf0) + (K AND 0xf)))"

definition get_K_6 :: "word16 \<Rightarrow> byte" where
  "get_K_6 opcode = (let K = opcode AND mask_K_6 in ucast ((drop_bit 2 K AND 0x0030) + (K AND 0xf)))"

definition get_k_7 :: "word16 \<Rightarrow> word32" where
  "get_k_7 opcode = ucast (drop_bit 3 (opcode AND mask_k_7) AND 0x7f)"

definition get_k_12 :: "word16 \<Rightarrow> word32" where
  "get_k_12 opcode = ucast (opcode AND mask_k_12)"

definition get_k_22 :: "word16 \<Rightarrow> nat" where
  "get_k_22 opcode =
     (let k = opcode AND mask_k_22 in unat ((drop_bit 3 k AND 0x003e) + (k AND 0x1)))"

definition get_reg_bit :: "word16 \<Rightarrow> nat" where
  "get_reg_bit opcode = unat (opcode AND mask_reg_bit)"

definition get_sreg_bit :: "word16 \<Rightarrow> nat" where
  "get_sreg_bit opcode = unat (drop_bit 4 (opcode AND mask_sreg_bit))"

definition get_q :: "word16 \<Rightarrow> nat" where
  "get_q opcode =
     (let q = opcode AND mask_q_displ;
          qq = drop_bit 7 ((drop_bit 1 q AND 0x1000) + (q AND 0x0c00))
      in unat ((qq AND 0x0038) + (q AND 0x7)))"

definition get_A_5 :: "word16 \<Rightarrow> nat" where
  "get_A_5 opcode = unat (drop_bit 3 (opcode AND mask_A_5))"

definition get_A_6 :: "word16 \<Rightarrow> nat" where
  "get_A_6 opcode = (let A = opcode AND mask_A_6 in unat ((drop_bit 5 A AND 0x0030) + (A AND 0xf)))"

text \<open>
  \<open>-1 * ((~val & mask) + 1)\<close> is computed in \<open>unsigned int\<close> and converted to \<open>int\<close>.
\<close>

definition n_bit_unsigned_to_signed :: "word32 \<Rightarrow> nat \<Rightarrow> int" where
  "n_bit_unsigned_to_signed val n =
     (if val AND push_bit (n - 1) 1 = 0 then sint val
      else let m = push_bit n 1 - 1 in sint ((- 1 :: word32) * ((NOT val AND m) + 1)))"

section \<open>Instructions\<close>

text \<open>
  A class \<open>avr_op_X\<close> is an operation name \<open>X\<close> together with the operands it stores. The
  names are grouped by operand shape, which is how \<open>lookup_opcode\<close> groups them too.
  Register numbers, bit numbers, I/O addresses and displacements are \<open>nat\<close>, constants
  \<open>byte\<close>, branch offsets \<open>int\<close> (\<open>signed char\<close> and \<open>signed int\<close> in the classes).
\<close>

datatype op_plain =
    EICALL | EIJMP | ELPM | ESPM | ICALL | IJMP | LPM | NOP | RET | RETI | SLEEP | SPM | WDR
  | BREAK | ILLEGAL

datatype op_rr =
    ADC | ADD | AND_op | CP | CPC | CPSE | EOR | MOV | MUL | OR_op | SBC | SUB
  | MOVW | MULS | MULSU | FMUL | FMULS | FMULSU

datatype op_r =
    ASR | COM | DEC | ELPM_Z | ELPM_Z_incr | INC | LDS | LD_X | LD_X_decr | LD_X_incr
  | LD_Y_decr | LD_Y_incr | LD_Z_decr | LD_Z_incr | LPM_Z | LPM_Z_incr | LSR | NEG | POP | PUSH
  | ROR | STS | ST_X | ST_X_decr | ST_X_incr | ST_Y_decr | ST_Y_incr | ST_Z_decr | ST_Z_incr | SWAP

datatype op_rk = ANDI | CPI | LDI | ORI | SBCI | SUBI | SBIW

datatype op_rb = BLD | BST | SBRC | SBRS

datatype op_br = BRBC | BRBS

datatype op_rq = LDD_Y | LDD_Z | STD_Y | STD_Z

datatype op_k22 = CALL | JMP

datatype op_s = BCLR | BSET

datatype op_ab = CBI | SBI | SBIC | SBIS

datatype op_io = IN_op | OUT

datatype op_k12 = RCALL | RJMP

datatype instr =
    Plain op_plain
  | RR op_rr nat nat      \<comment> \<open>R1/Rd, R2/Rr/Rs\<close>
  | R op_r nat            \<comment> \<open>R1 or Rd\<close>
  | RK op_rk nat byte     \<comment> \<open>R1, K\<close>
  | ADIW nat nat byte     \<comment> \<open>Rl, Rh, K\<close>
  | RB op_rb nat nat      \<comment> \<open>R1, Kbit\<close>
  | BR op_br byte int     \<comment> \<open>bitmask, offset\<close>
  | RQ op_rq nat nat      \<comment> \<open>Rd, K\<close>
  | K22 op_k22 nat        \<comment> \<open>KH or K\<close>
  | SB op_s nat           \<comment> \<open>Kbit\<close>
  | AB op_ab nat nat      \<comment> \<open>ioreg, Kbit\<close>
  | IOR op_io nat nat     \<comment> \<open>R1, ioreg\<close>
  | K12 op_k12 int        \<comment> \<open>K\<close>

text \<open>\<open>size2Word\<close>: the classes that pass \<open>true\<close> to the base constructor.\<close>

definition IsInstruction2Words :: "instr \<Rightarrow> bool" where
  "IsInstruction2Words i =
     (case i of K22 op k \<Rightarrow> True | R op rd \<Rightarrow> op = LDS \<or> op = STS | _ \<Rightarrow> False)"

text \<open>
  \<open>GetModifiedR\<close> and \<open>GetModifiedRHi\<close>: the base class returns \<open>-1\<close>, which is 255 as
  \<open>unsigned char\<close>; only the classes below override it.
\<close>

definition GetModifiedR :: "instr \<Rightarrow> nat" where
  "GetModifiedR i =
     (case i of
        RR op R1 R2 \<Rightarrow> if op \<in> {ADC, ADD, SBC, SUB} then R1 else 255
      | ADIW Rl Rh K \<Rightarrow> Rl
      | RK op R1 K \<Rightarrow> if op \<in> {LDI, SBCI, SBIW, SUBI} then R1 else 255
      | _ \<Rightarrow> 255)"

definition GetModifiedRHi :: "instr \<Rightarrow> nat" where
  "GetModifiedRHi i =
     (case i of
        ADIW Rl Rh K \<Rightarrow> Rh
      | RK op R1 K \<Rightarrow> if op = SBIW then R1 + 1 else 255
      | _ \<Rightarrow> 255)"

record core_flags =
  flagIWInstructions :: bool
  flagJMPInstructions :: bool
  flagIJMPInstructions :: bool
  flagEIJMPInstructions :: bool
  flagLPMInstructions :: bool
  flagELPMInstructions :: bool
  flagMULInstructions :: bool
  flagMOVWInstruction :: bool
  flagTiny10 :: bool
  flagTiny1x :: bool
  flagXMega :: bool

text \<open>The defaults of the \<open>AvrDevice\<close> constructor.\<close>

definition default_flags :: core_flags where
  "default_flags = \<lparr>
     flagIWInstructions = True, flagJMPInstructions = True, flagIJMPInstructions = True,
     flagEIJMPInstructions = False, flagLPMInstructions = True, flagELPMInstructions = False,
     flagMULInstructions = True, flagMOVWInstruction = True, flagTiny10 = False,
     flagTiny1x = False, flagXMega = False \<rparr>"

section \<open>lookup_opcode\<close>

definition onlyif :: "bool \<Rightarrow> instr \<Rightarrow> instr" where
  "onlyif f i = (if f then i else Plain ILLEGAL)"

definition decode_fixed :: "core_flags \<Rightarrow> word16 \<Rightarrow> instr option" where
  "decode_fixed c opcode =
     (if opcode = 0x9519 then Some (onlyif (flagEIJMPInstructions c) (Plain EICALL))
      else if opcode = 0x9419 then Some (onlyif (flagEIJMPInstructions c) (Plain EIJMP))
      else if opcode = 0x95D8 then Some (onlyif (flagELPMInstructions c) (Plain ELPM))
      else if opcode = 0x95F8 then Some (onlyif (flagLPMInstructions c) (Plain ESPM))
      else if opcode = 0x9509 then Some (onlyif (flagIJMPInstructions c) (Plain ICALL))
      else if opcode = 0x9409 then Some (onlyif (flagIJMPInstructions c) (Plain IJMP))
      else if opcode = 0x95C8 then Some (onlyif (\<not> flagTiny10 c) (Plain LPM))
      else if opcode = 0x0000 then Some (Plain NOP)
      else if opcode = 0x9508 then Some (Plain RET)
      else if opcode = 0x9518 then Some (Plain RETI)
      else if opcode = 0x9588 then Some (Plain SLEEP)
      else if opcode = 0x95E8 then Some (onlyif (flagLPMInstructions c) (Plain SPM))
      else if opcode = 0x95A8 then Some (Plain WDR)
      else if opcode = 0x9598 then Some (Plain BREAK)
      else None)"

definition decode_Rd5_Rr5 :: "core_flags \<Rightarrow> word16 \<Rightarrow> instr option" where
  "decode_Rd5_Rr5 c opcode =
     (let decode = opcode AND NOT (mask_Rd_5 OR mask_Rr_5);
          rd = get_rd_5 opcode; rr = get_rr_5 opcode
      in if decode = 0x1C00 then Some (RR ADC rd rr)
      else if decode = 0x0C00 then Some (RR ADD rd rr)
      else if decode = 0x2000 then Some (RR AND_op rd rr)
      else if decode = 0x1400 then Some (RR CP rd rr)
      else if decode = 0x0400 then Some (RR CPC rd rr)
      else if decode = 0x1000 then Some (RR CPSE rd rr)
      else if decode = 0x2400 then Some (RR EOR rd rr)
      else if decode = 0x2C00 then Some (RR MOV rd rr)
      else if decode = 0x9C00 then Some (onlyif (flagMULInstructions c) (RR MUL rd rr))
      else if decode = 0x2800 then Some (RR OR_op rd rr)
      else if decode = 0x0800 then Some (RR SBC rd rr)
      else if decode = 0x1800 then Some (RR SUB rd rr)
      else None)"

text \<open>
  \<open>case 0x920C\<close> has no \<open>else\<close>: on a tiny1x it falls through to \<open>case 0x920E\<close>, which
  returns ILLEGAL there.
\<close>

definition decode_Rd5 :: "core_flags \<Rightarrow> word16 \<Rightarrow> instr option" where
  "decode_Rd5 c opcode =
     (let decode = opcode AND NOT mask_Rd_5; rd = get_rd_5 opcode; n1x = \<not> flagTiny1x c
      in if decode = 0x9405 then Some (R ASR rd)
      else if decode = 0x9400 then Some (R COM rd)
      else if decode = 0x940A then Some (R DEC rd)
      else if decode = 0x9006 then Some (onlyif (flagELPMInstructions c) (R ELPM_Z rd))
      else if decode = 0x9007 then Some (onlyif (flagELPMInstructions c) (R ELPM_Z_incr rd))
      else if decode = 0x9403 then Some (R INC rd)
      else if decode = 0x9000 then Some (R LDS rd)
      else if decode = 0x900C then Some (onlyif n1x (R LD_X rd))
      else if decode = 0x900E then Some (onlyif n1x (R LD_X_decr rd))
      else if decode = 0x900D then Some (onlyif n1x (R LD_X_incr rd))
      else if decode = 0x8008 then Some (onlyif n1x (RQ LDD_Y rd (get_q opcode)))
      else if decode = 0x900A then Some (onlyif n1x (R LD_Y_decr rd))
      else if decode = 0x9009 then Some (onlyif n1x (R LD_Y_incr rd))
      else if decode = 0x8000 then Some (RQ LDD_Z rd (get_q opcode))
      else if decode = 0x9002 then Some (onlyif n1x (R LD_Z_decr rd))
      else if decode = 0x9001 then Some (onlyif n1x (R LD_Z_incr rd))
      else if decode = 0x9004 then Some (onlyif (flagLPMInstructions c) (R LPM_Z rd))
      else if decode = 0x9005 then Some (onlyif (flagLPMInstructions c) (R LPM_Z_incr rd))
      else if decode = 0x9406 then Some (R LSR rd)
      else if decode = 0x9401 then Some (R NEG rd)
      else if decode = 0x900F then Some (onlyif n1x (R POP rd))
      else if decode = 0x920F then Some (onlyif n1x (R PUSH rd))
      else if decode = 0x9407 then Some (R ROR rd)
      else if decode = 0x9200 then Some (R STS rd)
      else if decode = 0x920C then Some (onlyif n1x (R ST_X rd))
      else if decode = 0x920E then Some (onlyif n1x (R ST_X_decr rd))
      else if decode = 0x920D then Some (onlyif n1x (R ST_X_incr rd))
      else if decode = 0x8208 then Some (onlyif n1x (RQ STD_Y rd (get_q opcode)))
      else if decode = 0x920A then Some (onlyif n1x (R ST_Y_decr rd))
      else if decode = 0x9209 then Some (onlyif n1x (R ST_Y_incr rd))
      else if decode = 0x8200 then Some (RQ STD_Z rd (get_q opcode))
      else if decode = 0x9202 then Some (onlyif n1x (R ST_Z_decr rd))
      else if decode = 0x9201 then Some (onlyif n1x (R ST_Z_incr rd))
      else if decode = 0x9402 then Some (R SWAP rd)
      else None)"

definition decode_Rd4_K8 :: "word16 \<Rightarrow> instr option" where
  "decode_Rd4_K8 opcode =
     (let decode = opcode AND NOT (mask_Rd_4 OR mask_K_8); rd = get_rd_4 opcode; K = get_K_8 opcode
      in if decode = 0x7000 then Some (RK ANDI rd K)
      else if decode = 0x3000 then Some (RK CPI rd K)
      else if decode = 0xE000 then Some (RK LDI rd K)
      else if decode = 0x6000 then Some (RK ORI rd K)
      else if decode = 0x4000 then Some (RK SBCI rd K)
      else if decode = 0x5000 then Some (RK SUBI rd K)
      else None)"

definition decode_Rd5_bit :: "word16 \<Rightarrow> instr option" where
  "decode_Rd5_bit opcode =
     (let decode = opcode AND NOT (mask_Rd_5 OR mask_reg_bit);
          rd = get_rd_5 opcode; b = get_reg_bit opcode
      in if decode = 0xF800 then Some (RB BLD rd b)
      else if decode = 0xFA00 then Some (RB BST rd b)
      else if decode = 0xFC00 then Some (RB SBRC rd b)
      else if decode = 0xFE00 then Some (RB SBRS rd b)
      else None)"

text \<open>\<open>offset\<close> is a \<open>signed char\<close>; a 7-bit displacement fits.\<close>

definition decode_k7_bit :: "word16 \<Rightarrow> instr option" where
  "decode_k7_bit opcode =
     (let decode = opcode AND NOT (mask_k_7 OR mask_reg_bit);
          bitmask = push_bit (get_reg_bit opcode) 1;
          offset = sint (word_of_int (n_bit_unsigned_to_signed (get_k_7 opcode) 7) :: byte)
      in if decode = 0xF400 then Some (BR BRBC bitmask offset)
      else if decode = 0xF000 then Some (BR BRBS bitmask offset)
      else None)"

definition decode_q_Rd5 :: "core_flags \<Rightarrow> word16 \<Rightarrow> instr option" where
  "decode_q_Rd5 c opcode =
     (if \<not> flagTiny10 c \<and> \<not> flagTiny1x c then
        (let decode = opcode AND NOT (mask_Rd_5 OR mask_q_displ);
             rd = get_rd_5 opcode; q = get_q opcode
         in if decode = 0x8008 then Some (RQ LDD_Y rd q)
         else if decode = 0x8000 then Some (RQ LDD_Z rd q)
         else if decode = 0x8208 then Some (RQ STD_Y rd q)
         else if decode = 0x8200 then Some (RQ STD_Z rd q)
         else None)
      else None)"

definition decode_k22 :: "core_flags \<Rightarrow> word16 \<Rightarrow> instr option" where
  "decode_k22 c opcode =
     (let decode = opcode AND NOT mask_k_22; k = get_k_22 opcode
      in if decode = 0x940E then Some (onlyif (flagJMPInstructions c) (K22 CALL k))
      else if decode = 0x940C then Some (onlyif (flagJMPInstructions c) (K22 JMP k))
      else None)"

definition decode_sreg_bit :: "word16 \<Rightarrow> instr option" where
  "decode_sreg_bit opcode =
     (let decode = opcode AND NOT mask_sreg_bit; s = get_sreg_bit opcode
      in if decode = 0x9488 then Some (SB BCLR s)
      else if decode = 0x9408 then Some (SB BSET s)
      else None)"

definition decode_K6_Rd2 :: "core_flags \<Rightarrow> word16 \<Rightarrow> instr option" where
  "decode_K6_Rd2 c opcode =
     (let decode = opcode AND NOT (mask_K_6 OR mask_Rd_2); rd = get_rd_2 opcode; K = get_K_6 opcode
      in if decode = 0x9600 then Some (onlyif (flagIWInstructions c) (ADIW rd (rd + 1) K))
      else if decode = 0x9700 then Some (onlyif (flagIWInstructions c) (RK SBIW rd K))
      else None)"

definition decode_A5_bit :: "word16 \<Rightarrow> instr option" where
  "decode_A5_bit opcode =
     (let decode = opcode AND NOT (mask_A_5 OR mask_reg_bit);
          A = get_A_5 opcode; b = get_reg_bit opcode
      in if decode = 0x9800 then Some (AB CBI A b)
      else if decode = 0x9A00 then Some (AB SBI A b)
      else if decode = 0x9900 then Some (AB SBIC A b)
      else if decode = 0x9B00 then Some (AB SBIS A b)
      else None)"

definition decode_A6_Rd5 :: "word16 \<Rightarrow> instr option" where
  "decode_A6_Rd5 opcode =
     (let decode = opcode AND NOT (mask_A_6 OR mask_Rd_5); A = get_A_6 opcode; rd = get_rd_5 opcode
      in if decode = 0xB000 then Some (IOR IN_op rd A)
      else if decode = 0xB800 then Some (IOR OUT rd A)
      else None)"

definition decode_k12 :: "word16 \<Rightarrow> instr option" where
  "decode_k12 opcode =
     (let decode = opcode AND NOT mask_k_12; K = n_bit_unsigned_to_signed (get_k_12 opcode) 12
      in if decode = 0xD000 then Some (K12 RCALL K)
      else if decode = 0xC000 then Some (K12 RJMP K)
      else None)"

definition decode_Rd4_Rr4 :: "core_flags \<Rightarrow> word16 \<Rightarrow> instr option" where
  "decode_Rd4_Rr4 c opcode =
     (let decode = opcode AND NOT (mask_Rd_4 OR mask_Rr_4); rd = get_rd_4 opcode; rr = get_rr_4 opcode
      in if decode = 0x0100 then
           Some (onlyif (flagMOVWInstruction c) (RR MOVW ((rd - 16) * 2) ((rr - 16) * 2)))
      else if decode = 0x0200 then Some (onlyif (flagMULInstructions c) (RR MULS rd rr))
      else None)"

definition decode_Rd3_Rr3 :: "core_flags \<Rightarrow> word16 \<Rightarrow> instr option" where
  "decode_Rd3_Rr3 c opcode =
     (let decode = opcode AND NOT (mask_Rd_3 OR mask_Rr_3); rd = get_rd_3 opcode; rr = get_rr_3 opcode;
          m = flagMULInstructions c
      in if decode = 0x0300 then Some (onlyif m (RR MULSU rd rr))
      else if decode = 0x0308 then Some (onlyif m (RR FMUL rd rr))
      else if decode = 0x0380 then Some (onlyif m (RR FMULS rd rr))
      else if decode = 0x0388 then Some (onlyif m (RR FMULSU rd rr))
      else None)"

text \<open>The switches in the order of the source; the first \<open>return\<close> wins.\<close>

fun first_of :: "'a option list \<Rightarrow> 'a \<Rightarrow> 'a" where
  "first_of [] d = d"
| "first_of (None # xs) d = first_of xs d"
| "first_of (Some x # xs) d = x"

definition lookup_opcode :: "core_flags \<Rightarrow> word16 \<Rightarrow> instr" where
  "lookup_opcode c opcode = first_of
     [decode_fixed c opcode, decode_Rd5_Rr5 c opcode, decode_Rd5 c opcode, decode_Rd4_K8 opcode,
      decode_Rd5_bit opcode, decode_k7_bit opcode, decode_q_Rd5 c opcode, decode_k22 c opcode,
      decode_sreg_bit opcode, decode_K6_Rd2 c opcode, decode_A5_bit opcode, decode_A6_Rd5 opcode,
      decode_k12 opcode, decode_Rd4_Rr4 c opcode, decode_Rd3_Rr3 c opcode] (Plain ILLEGAL)"

end
