(* ===== verification/Avr_Encoding.thy ===== *)
theory Avr_Encoding
  imports Avr_Decoder
begin

text \<open>
  The AVR instruction encoding as the comments of \<^verbatim>\<open>src/src/decoder.h\<close> document it
  (for instance \<open>0001 11rd dddd rrrr\<close>) and the correctness of \<open>lookup_opcode\<close> against it.

  \<^item> \<open>encode\<close> writes an instruction's operands into the bits the pattern names;
    \<open>wf_instr\<close> says which operands fit, \<open>available\<close> which instructions a core has.
  \<^item> \<open>lookup_opcode_encode\<close>: whatever is decoded re-encodes to the opcode it came from.
  \<^item> \<open>lookup_opcode_wf\<close>: decoded operands are in range.
  \<^item> \<open>lookup_encode\<close>: every instruction the core has is decoded from its encoding.
\<close>

section \<open>The documented encoding\<close>

text \<open>Where each operand goes in the 16 bits of the (first) opcode word.\<close>

definition enc_rd_2 :: "nat \<Rightarrow> word16" where
  "enc_rd_2 r = push_bit 4 (word_of_nat ((r - 24) div 2) AND 0x3)"

definition enc_rd_3 :: "nat \<Rightarrow> word16" where
  "enc_rd_3 r = push_bit 4 (word_of_nat (r - 16) AND 0x7)"

definition enc_rd_4 :: "nat \<Rightarrow> word16" where
  "enc_rd_4 r = push_bit 4 (word_of_nat (r - 16) AND 0xf)"

definition enc_rd_5 :: "nat \<Rightarrow> word16" where
  "enc_rd_5 r = push_bit 4 (word_of_nat r AND 0x1f)"

definition enc_rr_3 :: "nat \<Rightarrow> word16" where
  "enc_rr_3 r = word_of_nat (r - 16) AND 0x7"

definition enc_rr_4 :: "nat \<Rightarrow> word16" where
  "enc_rr_4 r = word_of_nat (r - 16) AND 0xf"

definition enc_rr_5 :: "nat \<Rightarrow> word16" where
  "enc_rr_5 r = (word_of_nat r AND 0xf) OR push_bit 5 (word_of_nat r AND 0x10)"

definition enc_K_8 :: "byte \<Rightarrow> word16" where
  "enc_K_8 K = push_bit 4 (ucast K AND 0xf0) OR (ucast K AND 0xf)"

definition enc_K_6 :: "byte \<Rightarrow> word16" where
  "enc_K_6 K = push_bit 2 (ucast K AND 0x30) OR (ucast K AND 0xf)"

definition enc_k_7 :: "int \<Rightarrow> word16" where
  "enc_k_7 k = push_bit 3 (word_of_int k AND 0x7f)"

definition enc_k_12 :: "int \<Rightarrow> word16" where
  "enc_k_12 k = word_of_int k AND 0xfff"

definition enc_k_22 :: "nat \<Rightarrow> word16" where
  "enc_k_22 k = push_bit 3 (word_of_nat k AND 0x3e) OR (word_of_nat k AND 0x1)"

definition enc_reg_bit :: "nat \<Rightarrow> word16" where
  "enc_reg_bit b = word_of_nat b AND 0x7"

definition enc_sreg_bit :: "nat \<Rightarrow> word16" where
  "enc_sreg_bit b = push_bit 4 (word_of_nat b AND 0x7)"

definition enc_q :: "nat \<Rightarrow> word16" where
  "enc_q q = push_bit 8 (word_of_nat q AND 0x20) OR push_bit 7 (word_of_nat q AND 0x18) OR (word_of_nat q AND 0x7)"

definition enc_A_5 :: "nat \<Rightarrow> word16" where
  "enc_A_5 A = push_bit 3 (word_of_nat A AND 0x1f)"

definition enc_A_6 :: "nat \<Rightarrow> word16" where
  "enc_A_6 A = push_bit 5 (word_of_nat A AND 0x30) OR (word_of_nat A AND 0xf)"

lemmas enc_defs =
  enc_rd_2_def enc_rd_3_def enc_rd_4_def enc_rd_5_def enc_rr_3_def enc_rr_4_def enc_rr_5_def
  enc_K_8_def enc_K_6_def enc_k_7_def enc_k_12_def enc_k_22_def enc_reg_bit_def
  enc_sreg_bit_def enc_q_def enc_A_5_def enc_A_6_def

text \<open>The number of the bit that is set in a branch's \<open>bitmask\<close>.\<close>

definition bit_of_mask :: "byte \<Rightarrow> nat" where
  "bit_of_mask m =
     (if m = 1 then 0 else if m = 2 then 1 else if m = 4 then 2 else if m = 8 then 3
      else if m = 16 then 4 else if m = 32 then 5 else if m = 64 then 6 else 7)"

fun base_plain :: "op_plain \<Rightarrow> word16" where
  "base_plain EICALL = 0x9519"
| "base_plain EIJMP = 0x9419"
| "base_plain ELPM = 0x95D8"
| "base_plain ESPM = 0x95F8"
| "base_plain ICALL = 0x9509"
| "base_plain IJMP = 0x9409"
| "base_plain LPM = 0x95C8"
| "base_plain NOP = 0x0000"
| "base_plain RET = 0x9508"
| "base_plain RETI = 0x9518"
| "base_plain SLEEP = 0x9588"
| "base_plain SPM = 0x95E8"
| "base_plain WDR = 0x95A8"
| "base_plain BREAK = 0x9598"
| "base_plain ILLEGAL = 0xFFFF"

fun base_rr :: "op_rr \<Rightarrow> word16" where
  "base_rr ADC = 0x1C00"
| "base_rr ADD = 0x0C00"
| "base_rr AND_op = 0x2000"
| "base_rr CP = 0x1400"
| "base_rr CPC = 0x0400"
| "base_rr CPSE = 0x1000"
| "base_rr EOR = 0x2400"
| "base_rr MOV = 0x2C00"
| "base_rr MUL = 0x9C00"
| "base_rr OR_op = 0x2800"
| "base_rr SBC = 0x0800"
| "base_rr SUB = 0x1800"
| "base_rr MOVW = 0x0100"
| "base_rr MULS = 0x0200"
| "base_rr MULSU = 0x0300"
| "base_rr FMUL = 0x0308"
| "base_rr FMULS = 0x0380"
| "base_rr FMULSU = 0x0388"

definition fields_rr :: "op_rr \<Rightarrow> nat \<Rightarrow> nat \<Rightarrow> word16" where
  "fields_rr q d r =
     (if q = MOVW then enc_rd_4 (d div 2 + 16) OR enc_rr_4 (r div 2 + 16)
      else if q = MULS then enc_rd_4 d OR enc_rr_4 r
      else if q \<in> {MULSU, FMUL, FMULS, FMULSU} then enc_rd_3 d OR enc_rr_3 r
      else enc_rd_5 d OR enc_rr_5 r)"

fun base_r :: "op_r \<Rightarrow> word16" where
  "base_r ASR = 0x9405"
| "base_r COM = 0x9400"
| "base_r DEC = 0x940A"
| "base_r ELPM_Z = 0x9006"
| "base_r ELPM_Z_incr = 0x9007"
| "base_r INC = 0x9403"
| "base_r LDS = 0x9000"
| "base_r LD_X = 0x900C"
| "base_r LD_X_decr = 0x900E"
| "base_r LD_X_incr = 0x900D"
| "base_r LD_Y_decr = 0x900A"
| "base_r LD_Y_incr = 0x9009"
| "base_r LD_Z_decr = 0x9002"
| "base_r LD_Z_incr = 0x9001"
| "base_r LPM_Z = 0x9004"
| "base_r LPM_Z_incr = 0x9005"
| "base_r LSR = 0x9406"
| "base_r NEG = 0x9401"
| "base_r POP = 0x900F"
| "base_r PUSH = 0x920F"
| "base_r ROR = 0x9407"
| "base_r STS = 0x9200"
| "base_r ST_X = 0x920C"
| "base_r ST_X_decr = 0x920E"
| "base_r ST_X_incr = 0x920D"
| "base_r ST_Y_decr = 0x920A"
| "base_r ST_Y_incr = 0x9209"
| "base_r ST_Z_decr = 0x9202"
| "base_r ST_Z_incr = 0x9201"
| "base_r SWAP = 0x9402"

fun base_rk :: "op_rk \<Rightarrow> word16" where
  "base_rk ANDI = 0x7000"
| "base_rk CPI = 0x3000"
| "base_rk LDI = 0xE000"
| "base_rk ORI = 0x6000"
| "base_rk SBCI = 0x4000"
| "base_rk SUBI = 0x5000"
| "base_rk SBIW = 0x9700"

definition fields_rk :: "op_rk \<Rightarrow> nat \<Rightarrow> byte \<Rightarrow> word16" where
  "fields_rk q d K = (if q = SBIW then enc_rd_2 d OR enc_K_6 K else enc_rd_4 d OR enc_K_8 K)"

fun base_rb :: "op_rb \<Rightarrow> word16" where
  "base_rb BLD = 0xF800" | "base_rb BST = 0xFA00" | "base_rb SBRC = 0xFC00" | "base_rb SBRS = 0xFE00"

fun base_br :: "op_br \<Rightarrow> word16" where
  "base_br BRBC = 0xF400" | "base_br BRBS = 0xF000"

fun base_rq :: "op_rq \<Rightarrow> word16" where
  "base_rq LDD_Y = 0x8008" | "base_rq LDD_Z = 0x8000" | "base_rq STD_Y = 0x8208" | "base_rq STD_Z = 0x8200"

fun base_k22 :: "op_k22 \<Rightarrow> word16" where
  "base_k22 CALL = 0x940E" | "base_k22 JMP = 0x940C"

fun base_s :: "op_s \<Rightarrow> word16" where
  "base_s BCLR = 0x9488" | "base_s BSET = 0x9408"

fun base_ab :: "op_ab \<Rightarrow> word16" where
  "base_ab CBI = 0x9800" | "base_ab SBI = 0x9A00" | "base_ab SBIC = 0x9900" | "base_ab SBIS = 0x9B00"

fun base_io :: "op_io \<Rightarrow> word16" where
  "base_io IN_op = 0xB000" | "base_io OUT = 0xB800"

fun base_k12 :: "op_k12 \<Rightarrow> word16" where
  "base_k12 RCALL = 0xD000" | "base_k12 RJMP = 0xC000"

fun encode :: "instr \<Rightarrow> word16" where
  "encode (Plain p) = base_plain p"
| "encode (RR q d r) = base_rr q OR fields_rr q d r"
| "encode (R q d) = base_r q OR enc_rd_5 d"
| "encode (RK q d K) = base_rk q OR fields_rk q d K"
| "encode (ADIW l h K) = 0x9600 OR enc_rd_2 l OR enc_K_6 K"
| "encode (RB q d b) = base_rb q OR enc_rd_5 d OR enc_reg_bit b"
| "encode (BR q m k) = base_br q OR enc_k_7 k OR enc_reg_bit (bit_of_mask m)"
| "encode (RQ q d k) = base_rq q OR enc_rd_5 d OR enc_q k"
| "encode (K22 q k) = base_k22 q OR enc_k_22 k"
| "encode (SB q s) = base_s q OR enc_sreg_bit s"
| "encode (AB q A b) = base_ab q OR enc_A_5 A OR enc_reg_bit b"
| "encode (IOR q d A) = base_io q OR enc_A_6 A OR enc_rd_5 d"
| "encode (K12 q k) = base_k12 q OR enc_k_12 k"

section \<open>Operand ranges and availability\<close>

text \<open>
  The operands a class can hold: \<open>Rd5\<close> registers are below 32, \<open>Rd4\<close> are R16\<dots>R31,
  \<open>Rd3\<close> R16\<dots>R23, \<open>Rd2\<close> R24, R26, R28, R30, \<open>MOVW\<close> takes even registers.
\<close>

definition wf_rr :: "op_rr \<Rightarrow> nat \<Rightarrow> nat \<Rightarrow> bool" where
  "wf_rr q d r =
     (if q = MOVW then d < 32 \<and> r < 32 \<and> even d \<and> even r
      else if q = MULS then 16 \<le> d \<and> d < 32 \<and> 16 \<le> r \<and> r < 32
      else if q \<in> {MULSU, FMUL, FMULS, FMULSU} then 16 \<le> d \<and> d < 24 \<and> 16 \<le> r \<and> r < 24
      else d < 32 \<and> r < 32)"

definition wf_rk :: "op_rk \<Rightarrow> nat \<Rightarrow> byte \<Rightarrow> bool" where
  "wf_rk q d K = (if q = SBIW then d \<in> {24, 26, 28, 30} \<and> unat K < 64 else 16 \<le> d \<and> d < 32)"

fun wf_instr :: "instr \<Rightarrow> bool" where
  "wf_instr (Plain p) = True"
| "wf_instr (RR q d r) = wf_rr q d r"
| "wf_instr (R q d) = (d < 32)"
| "wf_instr (RK q d K) = wf_rk q d K"
| "wf_instr (ADIW l h K) = (l \<in> {24, 26, 28, 30} \<and> h = l + 1 \<and> unat K < 64)"
| "wf_instr (RB q d b) = (d < 32 \<and> b < 8)"
| "wf_instr (BR q m k) = (m \<in> {1, 2, 4, 8, 16, 32, 64, 128} \<and> -64 \<le> k \<and> k < 64)"
| "wf_instr (RQ q d k) = (d < 32 \<and> k < 64)"
| "wf_instr (K22 q k) = (k < 64)"
| "wf_instr (SB q s) = (s < 8)"
| "wf_instr (AB q A b) = (A < 32 \<and> b < 8)"
| "wf_instr (IOR q d A) = (d < 32 \<and> A < 64)"
| "wf_instr (K12 q k) = (-2048 \<le> k \<and> k < 2048)"

text \<open>Which instructions a core has, as the flags' comments in \<^verbatim>\<open>avrdevice.h\<close> say.\<close>

fun available :: "core_flags \<Rightarrow> instr \<Rightarrow> bool" where
  "available c (Plain p) =
     (if p \<in> {EICALL, EIJMP} then flagEIJMPInstructions c
      else if p = ELPM then flagELPMInstructions c
      else if p \<in> {ESPM, SPM} then flagLPMInstructions c
      else if p \<in> {ICALL, IJMP} then flagIJMPInstructions c
      else if p = LPM then \<not> flagTiny10 c
      else p \<noteq> ILLEGAL)"
| "available c (RR q d r) =
     (if q \<in> {MUL, MULS, MULSU, FMUL, FMULS, FMULSU} then flagMULInstructions c
      else if q = MOVW then flagMOVWInstruction c else True)"
| "available c (R q d) =
     (if q \<in> {ELPM_Z, ELPM_Z_incr} then flagELPMInstructions c
      else if q \<in> {LPM_Z, LPM_Z_incr} then flagLPMInstructions c
      else if q \<in> {ASR, COM, DEC, INC, LDS, LSR, NEG, ROR, STS, SWAP} then True
      else \<not> flagTiny1x c)"
| "available c (RK q d K) = (q = SBIW \<longrightarrow> flagIWInstructions c)"
| "available c (ADIW l h K) = flagIWInstructions c"
| "available c (RQ q d k) =
     (if k = 0 then q \<in> {LDD_Z, STD_Z} \<or> \<not> flagTiny1x c else \<not> flagTiny10 c \<and> \<not> flagTiny1x c)"
| "available c (K22 q k) = flagJMPInstructions c"
| "available c _ = True"

section \<open>Fields\<close>

lemma get_rr_5_or:
  "get_rr_5 op = unat (((op AND mask_Rr_5) AND 0xf) OR (drop_bit 5 (op AND mask_Rr_5) AND 0x10))"
  unfolding get_rr_5_def Let_def
  by (subst disjoint_add_eq_or) (simp only: word16_eq_iff_bits, simp add: bit_simps, rule refl)

lemma get_K_8_or:
  "get_K_8 op = ucast ((drop_bit 4 (op AND mask_K_8) AND 0xf0) OR ((op AND mask_K_8) AND 0xf))"
  unfolding get_K_8_def Let_def
  by (subst disjoint_add_eq_or) (simp only: word16_eq_iff_bits, simp add: bit_simps, rule refl)

lemma get_K_6_or:
  "get_K_6 op = ucast ((drop_bit 2 (op AND mask_K_6) AND 0x30) OR ((op AND mask_K_6) AND 0xf))"
  unfolding get_K_6_def Let_def
  by (subst disjoint_add_eq_or) (simp only: word16_eq_iff_bits, simp add: bit_simps, rule refl)

lemma get_k_22_or:
  "get_k_22 op = unat ((drop_bit 3 (op AND mask_k_22) AND 0x3e) OR ((op AND mask_k_22) AND 1))"
  unfolding get_k_22_def Let_def
  by (subst disjoint_add_eq_or) (simp only: word16_eq_iff_bits, simp add: bit_simps, rule refl)

lemma get_A_6_or:
  "get_A_6 op = unat ((drop_bit 5 (op AND mask_A_6) AND 0x30) OR ((op AND mask_A_6) AND 0xf))"
  unfolding get_A_6_def Let_def
  by (subst disjoint_add_eq_or) (simp only: word16_eq_iff_bits, simp add: bit_simps, rule refl)

lemma get_q_or:
  "get_q op = (let q = op AND mask_q_displ in
     unat ((drop_bit 7 ((drop_bit 1 q AND 0x1000) OR (q AND 0x0c00)) AND 0x38) OR (q AND 7)))"
proof -
  let ?q = "op AND mask_q_displ"
  have "(drop_bit 1 ?q AND 0x1000) + (?q AND 0x0c00) = (drop_bit 1 ?q AND 0x1000) OR (?q AND 0x0c00)"
    by (rule disjoint_add_eq_or) (simp only: word16_eq_iff_bits, simp add: bit_simps)
  moreover have "(x AND 0x38) + (?q AND 7) = (x AND 0x38) OR (?q AND 7)" for x
    by (rule disjoint_add_eq_or) (simp only: word16_eq_iff_bits, simp add: bit_simps)
  ultimately show ?thesis unfolding get_q_def Let_def by simp
qed

lemmas get_or_defs = get_rr_5_or get_K_8_or get_K_6_or get_k_22_or get_A_6_or get_q_or
  get_rd_2_def get_rd_3_def get_rd_4_def get_rd_5_def get_rr_3_def get_rr_4_def
  get_reg_bit_def get_sreg_bit_def get_A_5_def

named_theorems field_simps16 \<open>encoding a decoded field gives back its bits\<close>

lemma enc_get_rd [field_simps16]:
  "enc_rd_5 (get_rd_5 op) = op AND mask_Rd_5"
  "enc_rd_4 (get_rd_4 op) = op AND mask_Rd_4"
  "enc_rd_3 (get_rd_3 op) = op AND mask_Rd_3"
  "enc_rd_2 (get_rd_2 op) = op AND mask_Rd_2"
  by (simp_all add: enc_defs get_or_defs word16_eq_iff_bits bit_simps)

lemma enc_get_rr [field_simps16]:
  "enc_rr_5 (get_rr_5 op) = op AND mask_Rr_5"
  "enc_rr_4 (get_rr_4 op) = op AND mask_Rr_4"
  "enc_rr_3 (get_rr_3 op) = op AND mask_Rr_3"
  by (simp_all add: enc_defs get_or_defs word16_eq_iff_bits bit_simps)

lemma enc_get_const [field_simps16]:
  "enc_K_8 (get_K_8 op) = op AND mask_K_8"
  "enc_K_6 (get_K_6 op) = op AND mask_K_6"
  "enc_k_22 (get_k_22 op) = op AND mask_k_22"
  "enc_q (get_q op) = op AND mask_q_displ"
  by (simp_all add: enc_defs get_or_defs Let_def word16_eq_iff_bits bit_simps)

lemma enc_get_bits [field_simps16]:
  "enc_reg_bit (get_reg_bit op) = op AND mask_reg_bit"
  "enc_sreg_bit (get_sreg_bit op) = op AND mask_sreg_bit"
  "enc_A_5 (get_A_5 op) = op AND mask_A_5"
  "enc_A_6 (get_A_6 op) = op AND mask_A_6"
  by (simp_all add: enc_defs get_or_defs word16_eq_iff_bits bit_simps)

lemma n_bit_unsigned_to_signed_eq:
  assumes n: "0 < n" "n < 31" and v: "uint val < 2 ^ n"
  shows "n_bit_unsigned_to_signed val n =
    (if uint val < 2 ^ (n - 1) then uint val else uint val - 2 ^ n)"
proof -
  have "(2::int) ^ n \<le> 2 ^ 30" using n by (intro power_increasing) auto
  then have le: "(2::int) ^ n \<le> 1073741824" by simp
  have top: "val AND push_bit (n - 1) 1 = 0 \<longleftrightarrow> uint val < 2 ^ (n - 1)"
    using bit_top_iff_uint [OF n(1) v] by (simp add: and_exp_eq_0_iff_not_bit not_le)
  have "mask n - val = mask n AND NOT val"
    by (rule disjunctive_diff_eq_and_not, rule bit_word_eqI)
       (auto simp: bit_simps dest: bit_less_iff_uint [OF v])
  then have "NOT val AND (push_bit n 1 - 1) = mask n - val"
    by (simp add: mask_eq_exp_minus_1 and.commute)
  then have "(- 1 :: word32) * ((NOT val AND (push_bit n 1 - 1)) + 1) = word_of_int (uint val - 2 ^ n)"
    by (simp add: mask_eq_exp_minus_1)
  moreover have "- 2147483648 \<le> uint val - 2 ^ n" and "uint val - 2 ^ n < 2147483648"
    using le v uint_ge_0 [of val] by linarith+
  ultimately have neg: "sint ((- 1 :: word32) * ((NOT val AND (push_bit n 1 - 1)) + 1)) = uint val - 2 ^ n"
    by (simp only:) (rule sint_word_of_int_small, simp_all)
  have "- 2147483648 \<le> uint val" and "uint val < 2147483648"
    using le v uint_ge_0 [of val] by linarith+
  then have pos: "sint val = uint val"
    using sint_word_of_int_small [of "uint val", where 'a = 32] by simp
  show ?thesis
    by (simp only: n_bit_unsigned_to_signed_def top Let_def neg pos)
qed

lemma get_k_7_less: "uint (get_k_7 op) < 128"
proof -
  have "get_k_7 op = take_bit 7 (get_k_7 op)"
    unfolding get_k_7_def
    by (rule bit_word_eqI; simp add: bit_simps; auto simp: less_Suc_eq numeral_eq_Suc)
  then show ?thesis using uint_take_bit_less [of 7 "get_k_7 op"] by simp
qed

lemma get_k_12_less: "uint (get_k_12 op) < 4096"
proof -
  have "get_k_12 op = take_bit 12 (get_k_12 op)"
    unfolding get_k_12_def
    by (rule bit_word_eqI; simp add: bit_simps; auto simp: less_Suc_eq numeral_eq_Suc)
  then show ?thesis using uint_take_bit_less [of 12 "get_k_12 op"] by simp
qed

lemma word_of_int_and_7f: "(word_of_int k :: word16) AND 0x7f = word_of_int (k mod 128)"
  and word_of_int_and_fff: "(word_of_int k :: word16) AND 0xfff = word_of_int (k mod 4096)"
proof -
  have "(word_of_int k :: word16) AND mask n = word_of_int (take_bit n k)" if "n \<le> 16" for n
    using that by (intro bit_word_eqI) (auto simp: bit_simps)
  from this [of 7] this [of 12]
  show "(word_of_int k :: word16) AND 0x7f = word_of_int (k mod 128)"
    and "(word_of_int k :: word16) AND 0xfff = word_of_int (k mod 4096)"
    by (simp_all add: mask_eq_exp_minus_1 take_bit_eq_mod)
qed

lemma signed_k_12:
  "n_bit_unsigned_to_signed (get_k_12 op) 12 =
     (if uint (get_k_12 op) < 2048 then uint (get_k_12 op) else uint (get_k_12 op) - 4096)"
  using n_bit_unsigned_to_signed_eq [of 12 "get_k_12 op"] get_k_12_less [of op] by simp

lemma offset_k_7:
  "sint (word_of_int (n_bit_unsigned_to_signed (get_k_7 op) 7) :: byte) =
     (if uint (get_k_7 op) < 64 then uint (get_k_7 op) else uint (get_k_7 op) - 128)"
proof -
  have k: "n_bit_unsigned_to_signed (get_k_7 op) 7 =
     (if uint (get_k_7 op) < 64 then uint (get_k_7 op) else uint (get_k_7 op) - 128)"
    using n_bit_unsigned_to_signed_eq [of 7 "get_k_7 op"] get_k_7_less [of op] by simp
  have "sint (word_of_int (n_bit_unsigned_to_signed (get_k_7 op) 7) :: byte) =
      n_bit_unsigned_to_signed (get_k_7 op) 7"
  proof (rule sint_word_of_int_small)
    show "- (2 ^ (LENGTH(8) - 1)) \<le> n_bit_unsigned_to_signed (get_k_7 op) 7"
      unfolding k by (auto intro: order_trans [OF _ uint_ge_0])
    show "n_bit_unsigned_to_signed (get_k_7 op) 7 < 2 ^ (LENGTH(8) - 1)"
      using get_k_7_less [of op] unfolding k by simp
  qed
  then show ?thesis unfolding k .
qed

lemma enc_get_k_7 [field_simps16]:
  "enc_k_7 (if uint (get_k_7 op) < 64 then uint (get_k_7 op) else uint (get_k_7 op) - 128) = op AND mask_k_7"
  (is "enc_k_7 ?k = _")
proof -
  have "?k mod 128 = uint (get_k_7 op)"
    using get_k_7_less [of op] by auto
  then have "enc_k_7 ?k = push_bit 3 (ucast (get_k_7 op))"
    by (simp only: enc_k_7_def word_of_int_and_7f) simp
  also have "\<dots> = op AND mask_k_7"
    by (simp add: get_k_7_def word16_eq_iff_bits bit_simps)
  finally show ?thesis .
qed

lemma enc_get_k_12 [field_simps16]:
  "enc_k_12 (if uint (get_k_12 op) < 2048 then uint (get_k_12 op) else uint (get_k_12 op) - 4096) = op AND mask_k_12"
  (is "enc_k_12 ?k = _")
proof -
  have "?k mod 4096 = uint (get_k_12 op)"
    using get_k_12_less [of op] by auto
  then have "enc_k_12 ?k = ucast (get_k_12 op)"
    by (simp only: enc_k_12_def word_of_int_and_fff) simp
  also have "\<dots> = op AND mask_k_12"
    by (simp add: get_k_12_def word16_eq_iff_bits bit_simps)
  finally show ?thesis .
qed
lemma bit_of_mask_push [simp]: "b < 8 \<Longrightarrow> bit_of_mask (push_bit b 1) = b"
  by (erule less_8_cases) (simp_all add: bit_of_mask_def)

lemma get_ranges [simp]:
  "get_rd_5 op < 32" "get_rr_5 op < 32"
  "get_reg_bit op < 8" "get_sreg_bit op < 8" "get_q op < 64" "get_k_22 op < 64" "get_A_5 op < 32"
  "get_A_6 op < 64" "unat (get_K_6 op) < 64"
  unfolding get_or_defs Let_def
  by (rule unat_less_by_bits [where n = 5, simplified] unat_less_by_bits [where n = 3, simplified]
        unat_less_by_bits [where n = 6, simplified],
      simp add: bit_simps)+

lemma get_ranges_16 [simp]:
  "16 \<le> get_rd_4 op" "16 \<le> get_rr_4 op" "16 \<le> get_rd_3 op" "16 \<le> get_rr_3 op"
  "get_rd_4 op < 32" "get_rr_4 op < 32" "get_rd_3 op < 24" "get_rr_3 op < 24"
proof -
  have "unat (drop_bit 4 (op AND mask_Rd_4) AND 0xf) < 16" "unat (op AND mask_Rr_4) < 16"
    by (rule unat_less_by_bits [where n = 4, simplified], simp add: bit_simps)+
  moreover have "unat (drop_bit 4 (op AND mask_Rd_3) AND 7) < 8" "unat (op AND mask_Rr_3) < 8"
    by (rule unat_less_by_bits [where n = 3, simplified], simp add: bit_simps)+
  ultimately show "get_rd_4 op < 32" "get_rr_4 op < 32" "get_rd_3 op < 24" "get_rr_3 op < 24"
    by (simp_all add: get_rd_4_def get_rr_4_def get_rd_3_def get_rr_3_def)
qed (simp_all add: get_rd_4_def get_rr_4_def get_rd_3_def get_rr_3_def)

lemma get_rd_2_cases: "get_rd_2 op \<in> {24, 26, 28, 30}"
proof -
  have "unat (drop_bit 4 (op AND mask_Rd_2) AND 3) < 4"
    by (rule unat_less_by_bits [where n = 2, simplified]) (simp add: bit_simps)
  then show ?thesis by (auto simp: get_rd_2_def less_Suc_eq numeral_eq_Suc)
qed

lemmas decode_defs = decode_fixed_def decode_Rd5_Rr5_def decode_Rd5_def decode_Rd4_K8_def
  decode_Rd5_bit_def decode_k7_bit_def decode_q_Rd5_def decode_k22_def decode_sreg_bit_def
  decode_K6_Rd2_def decode_A5_bit_def decode_A6_Rd5_def decode_k12_def decode_Rd4_Rr4_def
  decode_Rd3_Rr3_def onlyif_def Let_def

lemma decode_fixed_encode: "decode_fixed c op = Some i \<Longrightarrow> i \<noteq> Plain ILLEGAL \<Longrightarrow> encode i = op"
  by (auto simp: decode_fixed_def onlyif_def split: if_splits)

lemma decode_Rd5_Rr5_encode: "decode_Rd5_Rr5 c op = Some i \<Longrightarrow> i \<noteq> Plain ILLEGAL \<Longrightarrow> encode i = op"
  by (auto simp: decode_Rd5_Rr5_def onlyif_def Let_def fields_rr_def field_simps16 and_or_masks split: if_splits
      intro: or_mask_eq [of _ 1023, simplified])

lemma decode_Rd5_encode: "decode_Rd5 c op = Some i \<Longrightarrow> i \<noteq> Plain ILLEGAL \<Longrightarrow> encode i = op"
  by (auto simp: decode_Rd5_def onlyif_def Let_def field_simps16 and_or_masks split: if_splits)
     (simp_all add: word16_eq_iff_bits bit_simps)

lemma decode_Rd4_K8_encode: "decode_Rd4_K8 op = Some i \<Longrightarrow> encode i = op"
  by (auto simp: decode_Rd4_K8_def Let_def fields_rk_def field_simps16 split: if_splits)
     (simp_all add: word16_eq_iff_bits bit_simps)

lemma decode_Rd5_bit_encode: "decode_Rd5_bit op = Some i \<Longrightarrow> encode i = op"
  by (auto simp: decode_Rd5_bit_def Let_def field_simps16 split: if_splits)
     (simp_all add: word16_eq_iff_bits bit_simps)

lemma decode_k7_bit_encode:
  assumes "decode_k7_bit op = Some i"
  shows "encode i = op"
proof -
  let ?k = "if uint (get_k_7 op) < 64 then uint (get_k_7 op) else uint (get_k_7 op) - 128"
  obtain q where i: "i = BR q (push_bit (get_reg_bit op) 1) ?k"
    and q: "op AND NOT (mask_k_7 OR mask_reg_bit) = base_br q"
    using assms unfolding decode_k7_bit_def Let_def offset_k_7
    by (metis base_br.simps option.distinct(1) option.inject)
  have "encode i = base_br q OR (op AND mask_k_7) OR (op AND mask_reg_bit)"
    by (simp only: i encode.simps bit_of_mask_push get_ranges field_simps16)
  also have "\<dots> = op" by (rule or_two_masks_eq) (rule q)
  finally show ?thesis .
qed

lemma decode_q_Rd5_encode: "decode_q_Rd5 c op = Some i \<Longrightarrow> encode i = op"
  by (auto simp: decode_q_Rd5_def Let_def field_simps16 split: if_splits)
     (simp_all add: word16_eq_iff_bits bit_simps)

lemma decode_k22_encode: "decode_k22 c op = Some i \<Longrightarrow> i \<noteq> Plain ILLEGAL \<Longrightarrow> encode i = op"
  by (auto simp: decode_k22_def onlyif_def Let_def field_simps16 split: if_splits)
     (simp_all add: word16_eq_iff_bits bit_simps)

lemma decode_sreg_bit_encode: "decode_sreg_bit op = Some i \<Longrightarrow> encode i = op"
  by (auto simp: decode_sreg_bit_def Let_def field_simps16 split: if_splits)
     (simp_all add: word16_eq_iff_bits bit_simps)

lemma decode_K6_Rd2_encode: "decode_K6_Rd2 c op = Some i \<Longrightarrow> i \<noteq> Plain ILLEGAL \<Longrightarrow> encode i = op"
  by (auto simp: decode_K6_Rd2_def onlyif_def Let_def fields_rk_def field_simps16 split: if_splits)
     (simp_all add: word16_eq_iff_bits bit_simps)

lemma decode_A5_bit_encode: "decode_A5_bit op = Some i \<Longrightarrow> encode i = op"
  by (auto simp: decode_A5_bit_def Let_def field_simps16 split: if_splits)
     (simp_all add: word16_eq_iff_bits bit_simps)

lemma decode_A6_Rd5_encode: "decode_A6_Rd5 op = Some i \<Longrightarrow> encode i = op"
  by (auto simp: decode_A6_Rd5_def Let_def field_simps16 split: if_splits)
     (simp_all add: word16_eq_iff_bits bit_simps)

lemma decode_k12_encode:
  assumes "decode_k12 op = Some i"
  shows "encode i = op"
proof -
  let ?k = "if uint (get_k_12 op) < 2048 then uint (get_k_12 op) else uint (get_k_12 op) - 4096"
  obtain q where i: "i = K12 q ?k" and q: "op AND NOT mask_k_12 = base_k12 q"
    using assms unfolding decode_k12_def Let_def signed_k_12
    by (metis base_k12.simps option.distinct(1) option.inject)
  have "encode i = base_k12 q OR (op AND mask_k_12)"
    by (simp only: i encode.simps field_simps16)
  also have "\<dots> = op" by (rule or_mask_eq) (rule q)
  finally show ?thesis .
qed

lemma decode_Rd4_Rr4_encode: "decode_Rd4_Rr4 c op = Some i \<Longrightarrow> i \<noteq> Plain ILLEGAL \<Longrightarrow> encode i = op"
  by (auto simp: decode_Rd4_Rr4_def onlyif_def Let_def fields_rr_def field_simps16 split: if_splits)
     (simp_all add: word16_eq_iff_bits bit_simps)

lemma decode_Rd3_Rr3_encode: "decode_Rd3_Rr3 c op = Some i \<Longrightarrow> i \<noteq> Plain ILLEGAL \<Longrightarrow> encode i = op"
  by (auto simp: decode_Rd3_Rr3_def onlyif_def Let_def fields_rr_def field_simps16 split: if_splits)
     (simp_all add: word16_eq_iff_bits bit_simps)

lemma first_of_cases:
  assumes "first_of xs d \<noteq> d"
  shows "Some (first_of xs d) \<in> set xs"
  using assms by (induction xs d rule: first_of.induct) auto

lemmas decode_encode = decode_fixed_encode decode_Rd5_Rr5_encode decode_Rd5_encode
  decode_Rd4_K8_encode decode_Rd5_bit_encode decode_k7_bit_encode decode_q_Rd5_encode
  decode_k22_encode decode_sreg_bit_encode decode_K6_Rd2_encode decode_A5_bit_encode
  decode_A6_Rd5_encode decode_k12_encode decode_Rd4_Rr4_encode decode_Rd3_Rr3_encode

lemma encode_lookup:
  assumes "lookup_opcode c op \<noteq> Plain ILLEGAL"
  shows "encode (lookup_opcode c op) = op"
  using first_of_cases [OF assms [unfolded lookup_opcode_def]] assms
  unfolding lookup_opcode_def [symmetric]
  by (auto dest: decode_encode [OF sym])

text \<open>
  C5. Whatever \<open>lookup_opcode\<close> decodes re-encodes, by the documented bit pattern, to
  exactly the opcode it was decoded from: no two opcodes are confused and no operand bit is
  lost.
\<close>

theorem lookup_opcode_encode:
  assumes "lookup_opcode c op \<noteq> Plain ILLEGAL"
  shows "encode (lookup_opcode c op) = op"
  using assms by (rule encode_lookup)

lemma decode_wf:
  "decode_fixed c op = Some i \<Longrightarrow> wf_instr i"
  "decode_Rd5_Rr5 c op = Some i \<Longrightarrow> wf_instr i"
  "decode_Rd5 c op = Some i \<Longrightarrow> wf_instr i"
  "decode_Rd4_K8 op = Some i \<Longrightarrow> wf_instr i"
  "decode_Rd5_bit op = Some i \<Longrightarrow> wf_instr i"
  "decode_q_Rd5 c op = Some i \<Longrightarrow> wf_instr i"
  "decode_k22 c op = Some i \<Longrightarrow> wf_instr i"
  "decode_sreg_bit op = Some i \<Longrightarrow> wf_instr i"
  "decode_A5_bit op = Some i \<Longrightarrow> wf_instr i"
  "decode_A6_Rd5 op = Some i \<Longrightarrow> wf_instr i"
  "decode_Rd3_Rr3 c op = Some i \<Longrightarrow> wf_instr i"
  by (auto simp: decode_defs wf_rr_def wf_rk_def split: if_splits)

lemma k_offsets_ge:
  "- 64 \<le> (if uint (get_k_7 op) < 64 then uint (get_k_7 op) else uint (get_k_7 op) - 128)"
  "- 2048 \<le> (if uint (get_k_12 op) < 2048 then uint (get_k_12 op) else uint (get_k_12 op) - 4096)"
  by (auto intro: order_trans [OF _ uint_ge_0])

lemma k_offsets_less:
  "(if uint (get_k_7 op) < 64 then uint (get_k_7 op) else uint (get_k_7 op) - 128) < 64"
  "(if uint (get_k_12 op) < 2048 then uint (get_k_12 op) else uint (get_k_12 op) - 4096) < 2048"
  using get_k_7_less [of op] get_k_12_less [of op] by auto

lemma decode_k7_bit_wf:
  assumes "decode_k7_bit op = Some i"
  shows "wf_instr i"
proof -
  let ?k = "if uint (get_k_7 op) < 64 then uint (get_k_7 op) else uint (get_k_7 op) - 128"
  obtain q where "i = BR q (push_bit (get_reg_bit op) 1) ?k"
    using assms unfolding decode_k7_bit_def Let_def offset_k_7
    by (metis option.distinct(1) option.inject)
  then show ?thesis
    using push_bit_one_byte [OF get_ranges(3) [of op]] k_offsets_ge(1) [of op] k_offsets_less(1) [of op]
    by (simp only: wf_instr.simps simp_thms)
qed

lemma decode_k12_wf:
  assumes "decode_k12 op = Some i"
  shows "wf_instr i"
proof -
  let ?k = "if uint (get_k_12 op) < 2048 then uint (get_k_12 op) else uint (get_k_12 op) - 4096"
  obtain q where "i = K12 q ?k"
    using assms unfolding decode_k12_def Let_def signed_k_12
    by (metis option.distinct(1) option.inject)
  then show ?thesis
    using k_offsets_ge(2) [of op] k_offsets_less(2) [of op]
    by (simp only: wf_instr.simps simp_thms)
qed

lemma decode_K6_Rd2_wf: "decode_K6_Rd2 c op = Some i \<Longrightarrow> wf_instr i"
  using get_rd_2_cases [of op] get_ranges(9) [of op]
  by (auto simp: decode_K6_Rd2_def onlyif_def Let_def wf_rk_def split: if_splits)

lemma get_r4_minus [simp]: "get_rd_4 op - 16 < 16" "get_rr_4 op - 16 < 16"
  using get_ranges_16(5,6) [of op] by linarith+

lemma decode_Rd4_Rr4_wf: "decode_Rd4_Rr4 c op = Some i \<Longrightarrow> wf_instr i"
  by (auto simp: decode_Rd4_Rr4_def onlyif_def Let_def wf_rr_def split: if_splits)

lemma first_of_mem: "first_of xs d \<in> insert d {x. Some x \<in> set xs}"
  by (induction xs d rule: first_of.induct) auto

text \<open>
  C40. Operands of a decoded instruction are in range for every opcode and every core: register
  numbers below 32 (and in the half or the pairs the encoding allows), bit numbers below 8,
  I/O addresses below 64, branch offsets in their signed range.
\<close>

theorem lookup_opcode_wf: "wf_instr (lookup_opcode c op)"
  using first_of_mem [of "[decode_fixed c op, decode_Rd5_Rr5 c op, decode_Rd5 c op, decode_Rd4_K8 op,
      decode_Rd5_bit op, decode_k7_bit op, decode_q_Rd5 c op, decode_k22 c op,
      decode_sreg_bit op, decode_K6_Rd2 c op, decode_A5_bit op, decode_A6_Rd5 op,
      decode_k12 op, decode_Rd4_Rr4 c op, decode_Rd3_Rr3 c op]" "Plain ILLEGAL"]
  unfolding lookup_opcode_def [symmetric]
  by (auto dest: decode_wf [OF sym] decode_k7_bit_wf [OF sym] decode_k12_wf [OF sym]
      decode_K6_Rd2_wf [OF sym] decode_Rd4_Rr4_wf [OF sym])

section \<open>Decoding an encoding\<close>

lemma unat_field: "n \<le> 16 \<Longrightarrow> k < 2 ^ n \<Longrightarrow> unat ((word_of_nat k :: word16) AND mask n) = k"
proof -
  assume n: "n \<le> 16" and k: "k < 2 ^ n"
  have "(2::nat) ^ n \<le> 2 ^ 16" using n by (intro power_increasing) auto
  with k show ?thesis
    by (simp add: take_bit_eq_mask [symmetric] unsigned_take_bit_eq unsigned_of_nat take_bit_nat_eq_self)
qed

lemma unat_fields:
  "k < 4 \<Longrightarrow> unat ((word_of_nat k :: word16) AND 3) = k"
  "k < 8 \<Longrightarrow> unat ((word_of_nat k :: word16) AND 7) = k"
  "k < 16 \<Longrightarrow> unat ((word_of_nat k :: word16) AND 0xf) = k"
  "k < 32 \<Longrightarrow> unat ((word_of_nat k :: word16) AND 0x1f) = k"
  "k < 64 \<Longrightarrow> unat ((word_of_nat k :: word16) AND 0x3f) = k"
  using unat_field [of 2 k] unat_field [of 3 k] unat_field [of 4 k] unat_field [of 5 k]
    unat_field [of 6 k] by (simp_all add: mask_eq_exp_minus_1)

text \<open>Reading a field back from the word it was written to.\<close>

lemma get_enc_rd:
  "d < 32 \<Longrightarrow> op AND mask_Rd_5 = enc_rd_5 d \<Longrightarrow> get_rd_5 op = d"
  "16 \<le> d \<Longrightarrow> d < 32 \<Longrightarrow> op AND mask_Rd_4 = enc_rd_4 d \<Longrightarrow> get_rd_4 op = d"
  "16 \<le> d \<Longrightarrow> d < 24 \<Longrightarrow> op AND mask_Rd_3 = enc_rd_3 d \<Longrightarrow> get_rd_3 op = d"
proof -
  have w: "drop_bit 4 (push_bit 4 (w AND 0x1f)) AND 0x1f = (w :: word16) AND 0x1f"
    "drop_bit 4 (push_bit 4 (w AND 0xf)) AND 0xf = (w :: word16) AND 0xf"
    "drop_bit 4 (push_bit 4 (w AND 7)) AND 7 = (w :: word16) AND 7" for w
    by (simp_all add: word16_eq_iff_bits bit_simps)
  show "d < 32 \<Longrightarrow> op AND mask_Rd_5 = enc_rd_5 d \<Longrightarrow> get_rd_5 op = d"
    by (simp only: get_rd_5_def enc_rd_5_def w unat_fields)
  show "16 \<le> d \<Longrightarrow> d < 32 \<Longrightarrow> op AND mask_Rd_4 = enc_rd_4 d \<Longrightarrow> get_rd_4 op = d"
    using unat_fields(3) [of "d - 16"] by (simp only: get_rd_4_def enc_rd_4_def w)
  show "16 \<le> d \<Longrightarrow> d < 24 \<Longrightarrow> op AND mask_Rd_3 = enc_rd_3 d \<Longrightarrow> get_rd_3 op = d"
    using unat_fields(2) [of "d - 16"] by (simp only: get_rd_3_def enc_rd_3_def w)
qed

lemma get_enc_rd_2:
  assumes "d \<in> {24, 26, 28, 30}" "op AND mask_Rd_2 = enc_rd_2 d" shows "get_rd_2 op = d"
proof -
  have w: "drop_bit 4 (push_bit 4 (w AND 3)) AND 3 = (w :: word16) AND 3" for w
    by (simp add: word16_eq_iff_bits bit_simps)
  have "(d - 24) div 2 < 4" "(d - 24) div 2 * 2 + 24 = d" using assms(1) by auto
  then show ?thesis using unat_fields(1) [of "(d - 24) div 2"]
    by (simp only: get_rd_2_def assms(2) enc_rd_2_def w)
qed

lemma get_enc_rr:
  "16 \<le> d \<Longrightarrow> d < 32 \<Longrightarrow> op AND mask_Rr_4 = enc_rr_4 d \<Longrightarrow> get_rr_4 op = d"
  "16 \<le> d \<Longrightarrow> d < 24 \<Longrightarrow> op AND mask_Rr_3 = enc_rr_3 d \<Longrightarrow> get_rr_3 op = d"
  "d < 32 \<Longrightarrow> op AND mask_Rr_5 = enc_rr_5 d \<Longrightarrow> get_rr_5 op = d"
proof -
  show "16 \<le> d \<Longrightarrow> d < 32 \<Longrightarrow> op AND mask_Rr_4 = enc_rr_4 d \<Longrightarrow> get_rr_4 op = d"
    using unat_fields(3) [of "d - 16"] by (simp only: get_rr_4_def enc_rr_4_def)
  show "16 \<le> d \<Longrightarrow> d < 24 \<Longrightarrow> op AND mask_Rr_3 = enc_rr_3 d \<Longrightarrow> get_rr_3 op = d"
    using unat_fields(2) [of "d - 16"] by (simp only: get_rr_3_def enc_rr_3_def)
  have w: "((e AND 0xf) OR (drop_bit 5 e AND 0x10)) = w AND 0x1f"
    if "e = (w AND 0xf) OR push_bit 5 (w AND 0x10)" for e w :: word16
    unfolding that by (simp add: word16_eq_iff_bits bit_simps)
  show "d < 32 \<Longrightarrow> op AND mask_Rr_5 = enc_rr_5 d \<Longrightarrow> get_rr_5 op = d"
    by (simp only: get_rr_5_or enc_rr_5_def w [OF refl] unat_fields)
qed

lemma get_enc_consts:
  "k < 64 \<Longrightarrow> op AND mask_k_22 = enc_k_22 k \<Longrightarrow> get_k_22 op = k"
  "k < 64 \<Longrightarrow> op AND mask_q_displ = enc_q k \<Longrightarrow> get_q op = k"
  "k < 8 \<Longrightarrow> op AND mask_reg_bit = enc_reg_bit k \<Longrightarrow> get_reg_bit op = k"
  "k < 8 \<Longrightarrow> op AND mask_sreg_bit = enc_sreg_bit k \<Longrightarrow> get_sreg_bit op = k"
  "k < 32 \<Longrightarrow> op AND mask_A_5 = enc_A_5 k \<Longrightarrow> get_A_5 op = k"
  "k < 64 \<Longrightarrow> op AND mask_A_6 = enc_A_6 k \<Longrightarrow> get_A_6 op = k"
proof -
  have w1: "(drop_bit 3 (push_bit 3 (w AND 0x3e) OR (w AND 1)) AND 0x3e) OR
      ((push_bit 3 (w AND 0x3e) OR (w AND 1)) AND 1) = (w :: word16) AND 0x3f" for w
    by (simp add: word16_eq_iff_bits bit_simps)
  show "k < 64 \<Longrightarrow> op AND mask_k_22 = enc_k_22 k \<Longrightarrow> get_k_22 op = k"
    by (simp only: get_k_22_or enc_k_22_def w1 unat_fields)
  have w2: "(let q = push_bit 8 (w AND 0x20) OR push_bit 7 (w AND 0x18) OR (w AND 7) in
     (drop_bit 7 ((drop_bit 1 q AND 0x1000) OR (q AND 0x0c00)) AND 0x38) OR (q AND 7)) = (w :: word16) AND 0x3f" for w
    by (simp add: word16_eq_iff_bits bit_simps)
  show "k < 64 \<Longrightarrow> op AND mask_q_displ = enc_q k \<Longrightarrow> get_q op = k"
    by (simp only: get_q_or Let_def enc_q_def w2 [unfolded Let_def] unat_fields)
  show "k < 8 \<Longrightarrow> op AND mask_reg_bit = enc_reg_bit k \<Longrightarrow> get_reg_bit op = k"
    by (simp only: get_reg_bit_def enc_reg_bit_def unat_fields)
  have w3: "drop_bit 4 (push_bit 4 (w AND 7)) = (w :: word16) AND 7"
    "drop_bit 3 (push_bit 3 (w AND 0x1f)) = (w :: word16) AND 0x1f" for w
    by (simp_all add: word16_eq_iff_bits bit_simps)
  show "k < 8 \<Longrightarrow> op AND mask_sreg_bit = enc_sreg_bit k \<Longrightarrow> get_sreg_bit op = k"
    by (simp only: get_sreg_bit_def enc_sreg_bit_def w3 unat_fields)
  show "k < 32 \<Longrightarrow> op AND mask_A_5 = enc_A_5 k \<Longrightarrow> get_A_5 op = k"
    by (simp only: get_A_5_def enc_A_5_def w3 unat_fields)
  have w4: "(drop_bit 5 (push_bit 5 (w AND 0x30) OR (w AND 0xf)) AND 0x30) OR
      ((push_bit 5 (w AND 0x30) OR (w AND 0xf)) AND 0xf) = (w :: word16) AND 0x3f" for w
    by (simp add: word16_eq_iff_bits bit_simps)
  show "k < 64 \<Longrightarrow> op AND mask_A_6 = enc_A_6 k \<Longrightarrow> get_A_6 op = k"
    by (simp only: get_A_6_or enc_A_6_def w4 unat_fields)
qed

lemma get_enc_K_8: "op AND mask_K_8 = enc_K_8 K \<Longrightarrow> get_K_8 op = K"
  by (simp only: get_K_8_or enc_K_8_def)
     (rule bit_word_eqI, simp add: bit_simps, auto elim!: less_8_cases)

lemma get_enc_K_6:
  assumes "unat K < 64" and "op AND mask_K_6 = enc_K_6 K"
  shows "get_K_6 op = K"
proof -
  have "uint K < 2 ^ 6" using assms(1) by (simp add: unat_less_iff_uint)
  then have "\<not> bit K 6" "\<not> bit K 7" using bit_less_iff_uint [of K 6] by fastforce+
  with assms(2) show ?thesis
    by (simp only: get_K_6_or enc_K_6_def)
       (rule bit_word_eqI, simp add: bit_simps, auto elim!: less_8_cases)
qed

lemma uint_k_enc:
  "op AND mask_k_7 = enc_k_7 k \<Longrightarrow> uint (get_k_7 op) = k mod 128"
  "op AND mask_k_12 = enc_k_12 k \<Longrightarrow> uint (get_k_12 op) = k mod 4096"
proof -
  have w: "drop_bit 3 (push_bit 3 (w AND 0x7f)) AND 0x7f = (w :: word16) AND 0x7f" for w
    by (simp add: word16_eq_iff_bits bit_simps)
  have u: "uint (ucast (word_of_int (k mod m) :: word16) :: word32) = k mod m" if "m \<in> {128, 4096}" for m
    using that by (auto simp: unsigned_ucast_eq uint_word_of_int mod_mod_cancel take_bit_int_eq_self mod_pos_pos_trivial pos_mod_bound [THEN less_trans])
  show "op AND mask_k_7 = enc_k_7 k \<Longrightarrow> uint (get_k_7 op) = k mod 128"
    unfolding get_k_7_def enc_k_7_def by (simp only: w) (simp only: word_of_int_and_7f u insert_iff simp_thms)
  show "op AND mask_k_12 = enc_k_12 k \<Longrightarrow> uint (get_k_12 op) = k mod 4096"
    unfolding get_k_12_def enc_k_12_def by (simp only: word_of_int_and_fff) (simp only: u insert_iff simp_thms)
qed

lemma mod_half_cases:
  fixes k m :: int
  assumes "- m \<le> k" "k < m" "0 < m"
  shows "(if k mod (2 * m) < m then k mod (2 * m) else k mod (2 * m) - 2 * m) = k"
proof (cases "0 \<le> k")
  case True
  with assms have "k mod (2 * m) = k" by (intro mod_pos_pos_trivial) auto
  with assms show ?thesis by simp
next
  case False
  have "k mod (2 * m) = (k + 2 * m) mod (2 * m)" by simp
  also have "\<dots> = k + 2 * m" using False assms by (intro mod_pos_pos_trivial) auto
  finally show ?thesis using False assms by simp
qed

lemma get_enc_offsets:
  "- 64 \<le> k \<Longrightarrow> k < 64 \<Longrightarrow> op AND mask_k_7 = enc_k_7 k \<Longrightarrow>
     sint (word_of_int (n_bit_unsigned_to_signed (get_k_7 op) 7) :: byte) = k"
  "- 2048 \<le> k \<Longrightarrow> k < 2048 \<Longrightarrow> op AND mask_k_12 = enc_k_12 k \<Longrightarrow>
     n_bit_unsigned_to_signed (get_k_12 op) 12 = k"
  using mod_half_cases [of 64 k] mod_half_cases [of 2048 k]
  unfolding offset_k_7 signed_k_12 by (simp_all add: uint_k_enc split: if_splits)

text \<open>What each group of opcodes decodes to.\<close>

lemma lookup_plain: "available c (Plain p) \<Longrightarrow> lookup_opcode c (base_plain p) = Plain p"
  by (cases p) (simp_all add: lookup_opcode_def decode_fixed_def onlyif_def)


text \<open>Evaluation of the cascade switch by switch: the later ones are not looked at.\<close>

definition orelse :: "instr option \<Rightarrow> instr \<Rightarrow> instr" where
  "orelse x y = (case x of Some i \<Rightarrow> i | None \<Rightarrow> y)"

lemma orelse_simps [simp]: "orelse (Some i) y = i" "orelse None y = y"
  by (simp_all add: orelse_def)

lemma orelse_cong: "x = x' \<Longrightarrow> orelse x y = orelse x' y"
  by simp

lemma first_of_orelse: "first_of (x # xs) d = orelse x (first_of xs d)"
  by (cases x) simp_all

lemma lookup_lazy:
  "lookup_opcode c op =
     orelse (decode_fixed c op) (orelse (decode_Rd5_Rr5 c op) (orelse (decode_Rd5 c op)
     (orelse (decode_Rd4_K8 op) (orelse (decode_Rd5_bit op) (orelse (decode_k7_bit op)
     (orelse (decode_q_Rd5 c op) (orelse (decode_k22 c op) (orelse (decode_sreg_bit op)
     (orelse (decode_K6_Rd2 c op) (orelse (decode_A5_bit op) (orelse (decode_A6_Rd5 op)
     (orelse (decode_k12 op) (orelse (decode_Rd4_Rr4 c op) (orelse (decode_Rd3_Rr3 c op)
       (Plain ILLEGAL)))))))))))))))"
  by (simp only: lookup_opcode_def first_of_orelse first_of.simps(1))

text \<open>
  Knowing some bits of an opcode refutes comparisons of other bits with constants.
\<close>

lemma masked_neq:
  "op AND a = x \<Longrightarrow>
   (\<forall>b y. x AND b \<noteq> y AND a \<longrightarrow> op AND b \<noteq> y) \<and> (\<forall>y. x \<noteq> y AND a \<longrightarrow> op \<noteq> (y :: word16))"
  by (auto simp: and.assoc and.commute [of a])

lemmas lookup_eval = lookup_lazy decode_defs

lemma lookup_R:
  "available c (R q d) \<Longrightarrow> op AND NOT mask_Rd_5 = base_r q \<Longrightarrow> lookup_opcode c op = R q (get_rd_5 op)"
  by (frule masked_neq, cases q; simp add: lookup_eval cong: orelse_cong)

lemma lookup_RR5:
  "available c (RR q d r) \<Longrightarrow> q \<notin> {MOVW, MULS, MULSU, FMUL, FMULS, FMULSU} \<Longrightarrow>
   op AND NOT (mask_Rd_5 OR mask_Rr_5) = base_rr q \<Longrightarrow>
   lookup_opcode c op = RR q (get_rd_5 op) (get_rr_5 op)"
  by (frule masked_neq, cases q; simp add: lookup_eval cong: orelse_cong)

lemma lookup_RR3:
  "available c (RR q d r) \<Longrightarrow> q \<in> {MULSU, FMUL, FMULS, FMULSU} \<Longrightarrow>
   op AND NOT (mask_Rd_3 OR mask_Rr_3) = base_rr q \<Longrightarrow>
   lookup_opcode c op = RR q (get_rd_3 op) (get_rr_3 op)"
  by (frule masked_neq, cases q; simp add: lookup_eval cong: orelse_cong)

lemma lookup_RR4:
  "available c (RR MULS d r) \<Longrightarrow> op AND NOT (mask_Rd_4 OR mask_Rr_4) = base_rr MULS \<Longrightarrow>
   lookup_opcode c op = RR MULS (get_rd_4 op) (get_rr_4 op)"
  "available c (RR MOVW d r) \<Longrightarrow> op AND NOT (mask_Rd_4 OR mask_Rr_4) = base_rr MOVW \<Longrightarrow>
   lookup_opcode c op = RR MOVW ((get_rd_4 op - 16) * 2) ((get_rr_4 op - 16) * 2)"
  by (frule masked_neq; simp add: lookup_eval cong: orelse_cong)+

lemma lookup_RK:
  "q \<noteq> SBIW \<Longrightarrow> op AND NOT (mask_Rd_4 OR mask_K_8) = base_rk q \<Longrightarrow>
   lookup_opcode c op = RK q (get_rd_4 op) (get_K_8 op)"
  by (frule masked_neq, cases q; simp add: lookup_eval cong: orelse_cong)

lemma lookup_IW:
  "flagIWInstructions c \<Longrightarrow> op AND NOT (mask_K_6 OR mask_Rd_2) = 0x9700 \<Longrightarrow>
   lookup_opcode c op = RK SBIW (get_rd_2 op) (get_K_6 op)"
  "flagIWInstructions c \<Longrightarrow> op AND NOT (mask_K_6 OR mask_Rd_2) = 0x9600 \<Longrightarrow>
   lookup_opcode c op = ADIW (get_rd_2 op) (get_rd_2 op + 1) (get_K_6 op)"
  by (frule masked_neq; simp add: lookup_eval cong: orelse_cong)+

lemma lookup_RB:
  "op AND NOT (mask_Rd_5 OR mask_reg_bit) = base_rb q \<Longrightarrow>
   lookup_opcode c op = RB q (get_rd_5 op) (get_reg_bit op)"
  by (frule masked_neq, cases q; simp add: lookup_eval cong: orelse_cong)

lemma lookup_BR:
  "op AND NOT (mask_k_7 OR mask_reg_bit) = base_br q \<Longrightarrow>
   lookup_opcode c op = BR q (push_bit (get_reg_bit op) 1)
     (sint (word_of_int (n_bit_unsigned_to_signed (get_k_7 op) 7) :: byte))"
  by (frule masked_neq, cases q; simp add: lookup_eval cong: orelse_cong)

lemma lookup_K22:
  "flagJMPInstructions c \<Longrightarrow> op AND NOT mask_k_22 = base_k22 q \<Longrightarrow> lookup_opcode c op = K22 q (get_k_22 op)"
  by (frule masked_neq, cases q; simp add: lookup_eval cong: orelse_cong)

lemma lookup_SB:
  "op AND NOT mask_sreg_bit = base_s q \<Longrightarrow> lookup_opcode c op = SB q (get_sreg_bit op)"
  by (frule masked_neq, cases q; simp add: lookup_eval cong: orelse_cong)

lemma lookup_AB:
  "op AND NOT (mask_A_5 OR mask_reg_bit) = base_ab q \<Longrightarrow>
   lookup_opcode c op = AB q (get_A_5 op) (get_reg_bit op)"
  by (frule masked_neq, cases q; simp add: lookup_eval cong: orelse_cong)

lemma lookup_IOR:
  "op AND NOT (mask_A_6 OR mask_Rd_5) = base_io q \<Longrightarrow>
   lookup_opcode c op = IOR q (get_rd_5 op) (get_A_6 op)"
  by (frule masked_neq, cases q; simp add: lookup_eval cong: orelse_cong)

lemma lookup_K12:
  "op AND NOT mask_k_12 = base_k12 q \<Longrightarrow>
   lookup_opcode c op = K12 q (n_bit_unsigned_to_signed (get_k_12 op) 12)"
  by (frule masked_neq, cases q; simp add: lookup_eval cong: orelse_cong)

lemma lookup_RQ:
  "\<not> flagTiny10 c \<Longrightarrow> \<not> flagTiny1x c \<Longrightarrow> op AND NOT (mask_Rd_5 OR mask_q_displ) = base_rq q \<Longrightarrow>
   lookup_opcode c op = RQ q (get_rd_5 op) (get_q op)"
  by (frule masked_neq, cases q; simp add: lookup_eval cong: orelse_cong)

lemma lookup_RQ0:
  "q \<in> {LDD_Z, STD_Z} \<or> \<not> flagTiny1x c \<Longrightarrow> op AND NOT mask_Rd_5 = base_rq q \<Longrightarrow>
   lookup_opcode c op = RQ q (get_rd_5 op) (get_q op)"
  by (frule masked_neq, cases q; simp add: lookup_eval cong: orelse_cong)

text \<open>An opcode with two disjoint fields, and with one.\<close>

lemma two_fields:
  fixes b x y m n :: word16
  assumes "b AND (m OR n) = 0" "x AND m = x" "y AND n = y" "m AND n = 0"
  shows "(b OR x OR y) AND NOT (m OR n) = b" "(b OR x OR y) AND m = x" "(b OR x OR y) AND n = y"
  using assms by (auto simp: bit_eq_iff bit_simps)

lemma one_field:
  fixes b x m :: word16
  assumes "b AND m = 0" "x AND m = x"
  shows "(b OR x) AND NOT m = b" "(b OR x) AND m = x"
  using assms by (auto simp: bit_eq_iff bit_simps)

lemma enc_in_mask:
  "enc_rd_2 d AND mask_Rd_2 = enc_rd_2 d" "enc_rd_3 d AND mask_Rd_3 = enc_rd_3 d"
  "enc_rd_4 d AND mask_Rd_4 = enc_rd_4 d" "enc_rd_5 d AND mask_Rd_5 = enc_rd_5 d"
  "enc_rr_3 d AND mask_Rr_3 = enc_rr_3 d" "enc_rr_4 d AND mask_Rr_4 = enc_rr_4 d"
  "enc_rr_5 d AND mask_Rr_5 = enc_rr_5 d" "enc_K_8 K AND mask_K_8 = enc_K_8 K"
  "enc_K_6 K AND mask_K_6 = enc_K_6 K" "enc_k_7 k AND mask_k_7 = enc_k_7 k"
  "enc_k_12 k AND mask_k_12 = enc_k_12 k" "enc_k_22 d AND mask_k_22 = enc_k_22 d"
  "enc_reg_bit d AND mask_reg_bit = enc_reg_bit d" "enc_sreg_bit d AND mask_sreg_bit = enc_sreg_bit d"
  "enc_q d AND mask_q_displ = enc_q d" "enc_A_5 d AND mask_A_5 = enc_A_5 d" "enc_A_6 d AND mask_A_6 = enc_A_6 d"
  by (simp_all add: enc_defs word16_eq_iff_bits bit_simps)

lemma lookup_enc_R: 
  assumes "available c (R q d)" "d < 32" shows "lookup_opcode c (encode (R q d)) = R q d"
proof -
  have "base_r q AND mask_Rd_5 = 0" by (cases q) simp_all
  note f = one_field [OF this enc_in_mask(4) [of d]]
  show ?thesis using lookup_R [OF assms(1) f(1)] get_enc_rd(1) [OF assms(2) f(2)] by simp
qed

lemma lookup_enc_RR5:
  assumes "available c (RR q d r)" "d < 32" "r < 32" "q \<notin> {MOVW, MULS, MULSU, FMUL, FMULS, FMULSU}"
  shows "lookup_opcode c (encode (RR q d r)) = RR q d r"
proof -
  have "base_rr q AND (mask_Rd_5 OR mask_Rr_5) = 0" using assms(4) by (cases q) simp_all
  note f = two_fields [OF this enc_in_mask(4) [of d] enc_in_mask(7) [of r], simplified]
  have e: "encode (RR q d r) = base_rr q OR enc_rd_5 d OR enc_rr_5 r"
    using assms(4) by (simp add: fields_rr_def)
  show ?thesis unfolding e using lookup_RR5 [OF assms(1,4)] get_enc_rd(1) [OF assms(2) f(2)]
     get_enc_rr(3) [OF assms(3) f(3)] f(1) by simp
qed

lemma lookup_enc_RR3:
  assumes "available c (RR q d r)" "16 \<le> d" "d < 24" "16 \<le> r" "r < 24" "q \<in> {MULSU, FMUL, FMULS, FMULSU}"
  shows "lookup_opcode c (encode (RR q d r)) = RR q d r"
proof -
  have "base_rr q AND (mask_Rd_3 OR mask_Rr_3) = 0" using assms(6) by (cases q) simp_all
  note f = two_fields [OF this enc_in_mask(2) [of d] enc_in_mask(5) [of r], simplified]
  have e: "encode (RR q d r) = base_rr q OR enc_rd_3 d OR enc_rr_3 r"
    using assms(6) by (auto simp: fields_rr_def)
  show ?thesis unfolding e using lookup_RR3 [OF assms(1,6)] get_enc_rd(3) [OF assms(2,3) f(2)]
     get_enc_rr(2) [OF assms(4,5) f(3)] f(1) by simp
qed

lemma lookup_enc_MULS:
  assumes "available c (RR MULS d r)" "16 \<le> d" "d < 32" "16 \<le> r" "r < 32"
  shows "lookup_opcode c (encode (RR MULS d r)) = RR MULS d r"
proof -
  have "base_rr MULS AND (mask_Rd_4 OR mask_Rr_4) = 0" by simp
  note f = two_fields [OF this enc_in_mask(3) [of d] enc_in_mask(6) [of r], simplified]
  show ?thesis using lookup_RR4(1) [OF assms(1)] get_enc_rd(2) [OF assms(2,3) f(2)]
     get_enc_rr(1) [OF assms(4,5) f(3)] f(1) by (simp add: fields_rr_def)
qed

lemma lookup_enc_MOVW:
  assumes "available c (RR MOVW d r)" "d < 32" "r < 32" "even d" "even r"
  shows "lookup_opcode c (encode (RR MOVW d r)) = RR MOVW d r"
proof -
  have "base_rr MOVW AND (mask_Rd_4 OR mask_Rr_4) = 0" by simp
  note f = two_fields [OF this enc_in_mask(3) [of "d div 2 + 16"] enc_in_mask(6) [of "r div 2 + 16"], simplified]
  show ?thesis using lookup_RR4(2) [OF assms(1)] get_enc_rd(2) [OF _ _ f(2)]
     get_enc_rr(1) [OF _ _ f(3)] f(1) assms by (simp add: fields_rr_def)
qed

lemma lookup_enc_RK:
  assumes "q \<noteq> SBIW" "16 \<le> d" "d < 32" shows "lookup_opcode c (encode (RK q d K)) = RK q d K"
proof -
  have "base_rk q AND (mask_Rd_4 OR mask_K_8) = 0" using assms(1) by (cases q) simp_all
  note f = two_fields [OF this enc_in_mask(3) [of d] enc_in_mask(8) [of K], simplified]
  show ?thesis using lookup_RK [OF assms(1)] get_enc_rd(2) [OF assms(2,3) f(2)]
     get_enc_K_8 [OF f(3)] f(1) assms(1) by (simp add: fields_rk_def)
qed

lemma lookup_enc_IW:
  assumes "flagIWInstructions c" "d \<in> {24, 26, 28, 30}" "unat K < 64"
  shows "lookup_opcode c (encode (RK SBIW d K)) = RK SBIW d K"
    and "lookup_opcode c (encode (ADIW d (d + 1) K)) = ADIW d (d + 1) K"
proof -
  have b: "0x9700 AND (mask_K_6 OR mask_Rd_2) = 0" "0x9600 AND (mask_K_6 OR mask_Rd_2) = 0" by simp_all
  note f = two_fields [OF b(1) enc_in_mask(9) [of K] enc_in_mask(1) [of d], simplified]
  note g = two_fields [OF b(2) enc_in_mask(9) [of K] enc_in_mask(1) [of d], simplified]
  show "lookup_opcode c (encode (RK SBIW d K)) = RK SBIW d K"
    using lookup_IW(1) [OF assms(1)] get_enc_rd_2 [OF assms(2) f(3)] get_enc_K_6 [OF assms(3) f(2)] f(1)
    by (simp add: fields_rk_def or.commute)
  show "lookup_opcode c (encode (ADIW d (d + 1) K)) = ADIW d (d + 1) K"
    using lookup_IW(2) [OF assms(1)] get_enc_rd_2 [OF assms(2) g(3)] get_enc_K_6 [OF assms(3) g(2)] g(1)
    by (simp add: or.commute)
qed

lemma lookup_enc_RB:
  assumes "d < 32" "b < 8" shows "lookup_opcode c (encode (RB q d b)) = RB q d b"
proof -
  have "base_rb q AND (mask_Rd_5 OR mask_reg_bit) = 0" by (cases q) simp_all
  note f = two_fields [OF this enc_in_mask(4) [of d] enc_in_mask(13) [of b], simplified]
  show ?thesis using lookup_RB get_enc_rd(1) [OF assms(1) f(2)] get_enc_consts(3) [OF assms(2) f(3)] f(1)
    by simp
qed

lemma lookup_enc_BR:
  assumes "m \<in> {1, 2, 4, 8, 16, 32, 64, 128}" "- 64 \<le> k" "k < 64"
  shows "lookup_opcode c (encode (BR q m k)) = BR q m k"
proof -
  have m: "bit_of_mask m < 8" "push_bit (bit_of_mask m) 1 = m" using assms(1) by (auto simp: bit_of_mask_def)
  have "base_br q AND (mask_k_7 OR mask_reg_bit) = 0" by (cases q) simp_all
  note f = two_fields [OF this enc_in_mask(10) [of k] enc_in_mask(13) [of "bit_of_mask m"], simplified]
  show ?thesis using lookup_BR [of _ q c] get_enc_offsets(1) [OF assms(2,3) f(2)]
    get_enc_consts(3) [OF m(1) f(3)] f(1) m by simp
qed

lemma lookup_enc_RQ:
  assumes "available c (RQ q d k)" "d < 32" "k < 64"
  shows "lookup_opcode c (encode (RQ q d k)) = RQ q d k"
proof -
  have b: "base_rq q AND (mask_Rd_5 OR mask_q_displ) = 0" "base_rq q AND mask_Rd_5 = 0" by (cases q; simp)+
  note f = two_fields [OF b(1) enc_in_mask(4) [of d] enc_in_mask(15) [of k], simplified]
  have z: "k = 0 \<Longrightarrow> enc_q k = 0" by (simp add: enc_q_def)
  have "lookup_opcode c (encode (RQ q d k)) = RQ q (get_rd_5 (encode (RQ q d k))) (get_q (encode (RQ q d k)))"
    using assms(1) lookup_RQ0 [of q c] lookup_RQ [of c _ q] f(1) z one_field [OF b(2) enc_in_mask(4) [of d]]
    by (cases "k = 0") auto
  then show ?thesis using get_enc_rd(1) [OF assms(2) f(2)] get_enc_consts(2) [OF assms(3) f(3)] by simp
qed

lemma lookup_enc_AB:
  assumes "A < 32" "b < 8" shows "lookup_opcode c (encode (AB q A b)) = AB q A b"
proof -
  have "base_ab q AND (mask_A_5 OR mask_reg_bit) = 0" by (cases q) simp_all
  note f = two_fields [OF this enc_in_mask(16) [of A] enc_in_mask(13) [of b], simplified]
  show ?thesis using lookup_AB get_enc_consts(5) [OF assms(1) f(2)] get_enc_consts(3) [OF assms(2) f(3)] f(1)
    by simp
qed

lemma lookup_enc_IOR:
  assumes "d < 32" "A < 64" shows "lookup_opcode c (encode (IOR q d A)) = IOR q d A"
proof -
  have "base_io q AND (mask_A_6 OR mask_Rd_5) = 0" by (cases q) simp_all
  note f = two_fields [OF this enc_in_mask(17) [of A] enc_in_mask(4) [of d], simplified]
  show ?thesis using lookup_IOR get_enc_consts(6) [OF assms(2) f(2)] get_enc_rd(1) [OF assms(1) f(3)] f(1)
    by simp
qed

lemma lookup_enc_one:
  "available c (K22 q k) \<Longrightarrow> k < 64 \<Longrightarrow> lookup_opcode c (encode (K22 q k)) = K22 q k"
  "s < 8 \<Longrightarrow> lookup_opcode c (encode (SB p s)) = SB p s"
  "- 2048 \<le> j \<Longrightarrow> j < 2048 \<Longrightarrow> lookup_opcode c (encode (K12 r j)) = K12 r j"
proof -
  have b: "base_k22 q AND mask_k_22 = 0" "base_s p AND mask_sreg_bit = 0" "base_k12 r AND mask_k_12 = 0"
    by (cases q; cases p; cases r; simp)+
  note f = one_field [OF b(1) enc_in_mask(12) [of k]]
  show "available c (K22 q k) \<Longrightarrow> k < 64 \<Longrightarrow> lookup_opcode c (encode (K22 q k)) = K22 q k"
    using lookup_K22 [OF _ f(1)] get_enc_consts(1) [OF _ f(2)] by simp
  note g = one_field [OF b(2) enc_in_mask(14) [of s]]
  show "s < 8 \<Longrightarrow> lookup_opcode c (encode (SB p s)) = SB p s"
    using lookup_SB [OF g(1)] get_enc_consts(4) [OF _ g(2)] by simp
  note h = one_field [OF b(3) enc_in_mask(11) [of j]]
  show "- 2048 \<le> j \<Longrightarrow> j < 2048 \<Longrightarrow> lookup_opcode c (encode (K12 r j)) = K12 r j"
    using lookup_K12 [OF h(1)] get_enc_offsets(2) [OF _ _ h(2)] by simp
qed

text \<open>
  Every instruction with operands in range that the core has is decoded from its documented
  encoding: the cascade of switches never shadows an available instruction.
\<close>

theorem lookup_encode:
  assumes "wf_instr i" and "available c i"
  shows "lookup_opcode c (encode i) = i"
proof (cases i)
  case (RR q d r)
  then have wf: "wf_rr q d r" and av: "available c (RR q d r)" using assms by simp_all
  consider "q = MOVW" | "q = MULS" | "q \<in> {MULSU, FMUL, FMULS, FMULSU}"
    | "q \<notin> {MOVW, MULS, MULSU, FMUL, FMULS, FMULSU}" by blast
  then show ?thesis unfolding RR
  proof cases
    case 1
    with wf av show "lookup_opcode c (encode (RR q d r)) = RR q d r"
      by (simp only:) (rule lookup_enc_MOVW, simp_all add: wf_rr_def)
  next
    case 2
    with wf av show "lookup_opcode c (encode (RR q d r)) = RR q d r"
      by (simp only:) (rule lookup_enc_MULS, simp_all add: wf_rr_def)
  next
    case 3
    with wf have "16 \<le> d" "d < 24" "16 \<le> r" "r < 24" by (auto simp: wf_rr_def)
    with av 3 show "lookup_opcode c (encode (RR q d r)) = RR q d r" by (intro lookup_enc_RR3)
  next
    case 4
    with wf have "d < 32" "r < 32" by (auto simp: wf_rr_def)
    with av 4 show "lookup_opcode c (encode (RR q d r)) = RR q d r" by (intro lookup_enc_RR5)
  qed
next
  case (RK q d K)
  then show ?thesis using assms lookup_enc_RK lookup_enc_IW(1)
    by (cases "q = SBIW") (auto simp: wf_rk_def)
next
  case (Plain p)
  then show ?thesis using assms lookup_plain by simp
next
  case (ADIW l h K)
  then show ?thesis using assms lookup_enc_IW(2) by simp
qed (use assms lookup_enc_R lookup_enc_RB lookup_enc_BR lookup_enc_RQ lookup_enc_AB lookup_enc_IOR
      lookup_enc_one in auto)

theorem lookup_opcode_encode_witness:
  "lookup_opcode default_flags 0x1C3F \<noteq> Plain ILLEGAL \<and>
   encode (lookup_opcode default_flags 0x1C3F) = 0x1C3F"
proof
  show "lookup_opcode default_flags 0x1C3F \<noteq> Plain ILLEGAL"
    by (simp add: lookup_opcode_def decode_fixed_def decode_Rd5_Rr5_def)
  then show "encode (lookup_opcode default_flags 0x1C3F) = 0x1C3F"
    by (rule lookup_opcode_encode)
qed

theorem lookup_encode_witness:
  "wf_instr (BR BRBS 2 (- 5)) \<and> available default_flags (BR BRBS 2 (- 5)) \<and>
   lookup_opcode default_flags (encode (BR BRBS 2 (- 5))) = BR BRBS 2 (- 5)"
  using lookup_encode [of "BR BRBS 2 (- 5)" default_flags] by simp

end
