(* ===== verification/Avr_MinHeap.thy ===== *)
theory Avr_MinHeap
  imports Avr_Prelude "HOL-Library.Multiset"
begin

text \<open>
  \<open>MinHeap\<close> of \<^verbatim>\<open>src/src/systemclock.h\<close> and \<^verbatim>\<open>src/src/systemclock.cpp\<close>: a binary
  heap in a vector of (key, value) pairs.

  The vector is a list; positions are 0-based in \<open>RemoveAtPosition\<dots>\<close> and 1-based in the two
  loops, as in the source. \<open>InsertInternal\<close> (sift up) and \<open>sift_down\<close> (the loop of
  \<open>RemoveAtPositionAndInsertInternal\<close>) move entries into a hole and write the new entry last.

  The contract of a priority queue is the locale \<open>min_queue\<close>; its interpretation shows that
  the heap implements it. The lemmas inside the locale are what \<open>SystemClock\<close> relies on.
\<close>

section \<open>Operations\<close>

type_synonym ('k, 'v) heap = "('k \<times> 'v) list"

function InsertInternal :: "'k::linorder \<Rightarrow> 'v \<Rightarrow> nat \<Rightarrow> ('k, 'v) heap \<Rightarrow> ('k, 'v) heap" where
  "InsertInternal k v i h =
     (let parent = i div 2 in
      if parent = 0 \<or> fst (h ! (parent - 1)) \<le> k then h[i - 1 := (k, v)]
      else InsertInternal k v parent (h[i - 1 := h ! (parent - 1)]))"
  by pat_completeness auto
termination
  by (relation "measure (\<lambda>(k, v, i, h). i)") auto

declare InsertInternal.simps [simp del]

definition smallest_child :: "'k::linorder \<Rightarrow> nat \<Rightarrow> ('k, 'v) heap \<Rightarrow> nat" where
  "smallest_child k i h =
     (let left = 2 * i; right = 2 * i + 1;
          smallest = (if left - 1 < length h \<and> fst (h ! (left - 1)) < k then left else i)
      in if right - 1 < length h \<and> fst (h ! (right - 1)) < k
            \<and> fst (h ! (right - 1)) < fst (h ! (left - 1)) then right else smallest)"

function sift_down :: "'k::linorder \<Rightarrow> 'v \<Rightarrow> nat \<Rightarrow> ('k, 'v) heap \<Rightarrow> ('k, 'v) heap" where
  "sift_down k v i h =
     (let smallest = smallest_child k i h in
      if smallest = i then h[smallest - 1 := (k, v)]
      else sift_down k v smallest (h[i - 1 := h ! (smallest - 1)]))"
  by pat_completeness auto
termination
  by (relation "measure (\<lambda>(k, v, i, h). 2 * length h + 1 - i)")
     (auto simp: smallest_child_def Let_def split: if_splits)

declare sift_down.simps [simp del]

definition RemoveAtPositionAndInsertInternal ::
  "'k::linorder \<Rightarrow> 'v \<Rightarrow> nat \<Rightarrow> ('k, 'v) heap \<Rightarrow> sim_error + ('k, 'v) heap" where
  "RemoveAtPositionAndInsertInternal k v pos h =
     (if pos < length h then Inr (sift_down k v (pos + 1) h) else Inl AssertionFailed)"

text \<open>\<open>resize\<close> appends a value-initialised entry, which the loop overwrites.\<close>

definition Insert :: "'k::{linorder, zero} \<Rightarrow> 'v \<Rightarrow> ('k, 'v) heap \<Rightarrow> ('k, 'v) heap" where
  "Insert k v h = (let h' = h @ [(0, undefined)] in InsertInternal k v (length h') h')"

definition RemoveMinimumAndInsert ::
  "'k::linorder \<Rightarrow> 'v \<Rightarrow> ('k, 'v) heap \<Rightarrow> sim_error + ('k, 'v) heap" where
  "RemoveMinimumAndInsert k v h = RemoveAtPositionAndInsertInternal k v 0 h"

definition RemoveMinimum :: "('k::linorder, 'v) heap \<Rightarrow> sim_error + ('k, 'v) heap" where
  "RemoveMinimum h =
     (if h = [] then Inl AssertionFailed
      else case RemoveMinimumAndInsert (fst (last h)) (snd (last h)) h of
             Inl e \<Rightarrow> Inl e
           | Inr h' \<Rightarrow> Inr (butlast h'))"

definition ContainsValue :: "'v \<Rightarrow> ('k, 'v) heap \<Rightarrow> bool" where
  "ContainsValue v h = list_ex (\<lambda>item. snd item = v) h"

definition GetMinimumKey :: "('k, 'v) heap \<Rightarrow> 'k" where
  "GetMinimumKey h = fst (hd h)"

definition GetMinimumValue :: "('k, 'v) heap \<Rightarrow> 'v" where
  "GetMinimumValue h = snd (hd h)"

text \<open>
  \<open>(*this)[pos-1]\<close> with \<open>pos\<close> unsigned is out of range for \<open>pos = 0\<close> and for \<open>pos\<close> beyond
  the end.
\<close>

definition RemoveAtPositionAndInsert ::
  "'k::linorder \<Rightarrow> 'v \<Rightarrow> nat \<Rightarrow> ('k, 'v) heap \<Rightarrow> sim_error + ('k, 'v) heap" where
  "RemoveAtPositionAndInsert k v pos h =
     (if pos = 0 \<or> length h < pos then Inl UndefinedBehaviour
      else if k < fst (h ! (pos - 1)) then Inr (InsertInternal k v pos h)
      else RemoveAtPositionAndInsertInternal k v pos h)"

section \<open>The heap invariant\<close>

declare One_nat_def [simp del]

text \<open>The key at 1-based position \<open>j\<close>.\<close>

definition key :: "('k, 'v) heap \<Rightarrow> nat \<Rightarrow> 'k" where
  "key h j = fst (h ! (j - 1))"

definition is_heap :: "('k::linorder, 'v) heap \<Rightarrow> bool" where
  "is_heap h \<longleftrightarrow> (\<forall>j \<in> {2..length h}. key h (j div 2) \<le> key h j)"

text \<open>
  The heap condition everywhere but at the hole \<open>i\<close>: children of the hole are above the
  parent of the hole.
\<close>

definition heap_hole :: "nat \<Rightarrow> ('k::linorder, 'v) heap \<Rightarrow> bool" where
  "heap_hole i h \<longleftrightarrow>
     (\<forall>j \<in> {2..length h}. j \<noteq> i \<longrightarrow> j div 2 \<noteq> i \<longrightarrow> key h (j div 2) \<le> key h j) \<and>
     (\<forall>j \<in> {2..length h}. j div 2 = i \<longrightarrow> 2 \<le> i \<longrightarrow> key h (i div 2) \<le> key h j)"

lemma heap_holeD:
  "heap_hole i h \<Longrightarrow> 2 \<le> j \<Longrightarrow> j \<le> length h \<Longrightarrow> j \<noteq> i \<Longrightarrow> j div 2 \<noteq> i \<Longrightarrow> key h (j div 2) \<le> key h j"
  "heap_hole i h \<Longrightarrow> 2 \<le> j \<Longrightarrow> j \<le> length h \<Longrightarrow> j div 2 = i \<Longrightarrow> 2 \<le> i \<Longrightarrow> key h (i div 2) \<le> key h j"
  by (auto simp: heap_hole_def)

lemma is_heapD: "is_heap h \<Longrightarrow> 2 \<le> j \<Longrightarrow> j \<le> length h \<Longrightarrow> key h (j div 2) \<le> key h j"
  by (auto simp: is_heap_def)

lemma is_heap_hole: "is_heap h \<Longrightarrow> i \<le> length h \<Longrightarrow> heap_hole i h"
  unfolding heap_hole_def by (auto intro: is_heapD order_trans [OF is_heapD is_heapD])

lemma key_update:
  "1 \<le> i \<Longrightarrow> i \<le> length h \<Longrightarrow> 1 \<le> j \<Longrightarrow> key (h[i - 1 := x]) j = (if j = i then fst x else key h j)"
  by (auto simp: key_def nth_list_update)

lemma length_InsertInternal [simp]: "length (InsertInternal k v i h) = length h"
proof (induction k v i h rule: InsertInternal.induct)
  case (1 k v i h)
  then show ?case by (subst InsertInternal.simps) (auto simp: Let_def)
qed

lemma length_sift_down [simp]: "length (sift_down k v i h) = length h"
proof (induction k v i h rule: sift_down.induct)
  case (1 k v i h)
  then show ?case by (subst sift_down.simps) (auto simp: Let_def)
qed

lemma mset_move_hole:
  assumes "i < length h" "p < length h" "i \<noteq> p"
  shows "mset (h[i := h ! p, p := x]) = mset (h[i := x])"
proof -
  have "h[i := h ! p, p := x] = (h[i := x])[i := h[i := x] ! p, p := h[i := x] ! i]"
    using assms by (simp add: list_update_swap)
  then show ?thesis using assms mset_swap [of p "h[i := x]" i] by simp
qed

lemma is_heap_fill:
  assumes hole: "heap_hole i h" and i: "1 \<le> i" "i \<le> length h"
    and up: "2 \<le> i \<Longrightarrow> key h (i div 2) \<le> k"
    and down: "\<And>j. 2 \<le> j \<Longrightarrow> j \<le> length h \<Longrightarrow> j div 2 = i \<Longrightarrow> k \<le> key h j"
  shows "is_heap (h[i - 1 := (k, v)])"
  unfolding is_heap_def
proof
  fix j assume "j \<in> {2..length (h[i - 1 := (k, v)])}"
  then have j: "2 \<le> j" "j \<le> length h" "1 \<le> j" "1 \<le> j div 2" "j div 2 \<noteq> j" by auto
  show "key (h[i - 1 := (k, v)]) (j div 2) \<le> key (h[i - 1 := (k, v)]) j"
    using heap_holeD(1) [OF hole j(1,2)] up down [OF j(1,2)] j
    by (auto simp: key_update [OF i])
qed

section \<open>Sifting up\<close>

lemma InsertInternal_stop:
  "i div 2 = 0 \<or> key h (i div 2) \<le> k \<Longrightarrow> InsertInternal k v i h = h[i - 1 := (k, v)]"
  by (subst InsertInternal.simps) (auto simp: key_def Let_def)

lemma InsertInternal_move:
  "\<not> (i div 2 = 0 \<or> key h (i div 2) \<le> k) \<Longrightarrow>
   InsertInternal k v i h = InsertInternal k v (i div 2) (h[i - 1 := h ! (i div 2 - 1)])"
  by (subst InsertInternal.simps) (auto simp: key_def Let_def)

lemma InsertInternal_ind [case_names stop move]:
  assumes "\<And>i h. i div 2 = 0 \<or> key h (i div 2) \<le> k \<Longrightarrow> P i h"
    and "\<And>i h. 1 \<le> i div 2 \<Longrightarrow> k < key h (i div 2) \<Longrightarrow>
      P (i div 2) (h[i - 1 := h ! (i div 2 - 1)]) \<Longrightarrow> P i h"
  shows "P i (h :: ('k::linorder, 'v) heap)"
proof (induction i arbitrary: h rule: less_induct)
  case (less i)
  show ?case
  proof (cases "i div 2 = 0 \<or> key h (i div 2) \<le> k")
    case False
    then have "i div 2 < i" "1 \<le> i div 2" "k < key h (i div 2)" by auto
    from assms(2) [OF this(2,3) less.IH [OF this(1)]] show ?thesis .
  qed (rule assms(1))
qed

lemma mset_InsertInternal:
  "1 \<le> i \<Longrightarrow> i \<le> length h \<Longrightarrow> mset (InsertInternal k v i h) = mset (h[i - 1 := (k, v)])"
proof (induction i h rule: InsertInternal_ind [where k = k])
  case (move i h)
  have "mset (InsertInternal k v i h) = mset (h[i - 1 := h ! (i div 2 - 1), i div 2 - 1 := (k, v)])"
    using move by (subst InsertInternal_move) auto
  also have "\<dots> = mset (h[i - 1 := (k, v)])"
  proof (rule mset_move_hole)
    show "i div 2 - 1 < length h" "i - 1 < length h" "i - 1 \<noteq> i div 2 - 1" using move.hyps move.prems by auto
  qed
  finally show ?case .
qed (simp add: InsertInternal_stop)

lemma heap_hole_up:
  assumes hole: "heap_hole i h" and i: "2 \<le> i" "i \<le> length h"
  shows "heap_hole (i div 2) (h[i - 1 := h ! (i div 2 - 1)])"
proof -
  let ?p = "i div 2" and ?h = "h[i - 1 := h ! (i div 2 - 1)]"
  have p: "1 \<le> ?p" "?p < i" "?p \<le> length h" using i by auto
  have key: "key ?h j = (if j = i then key h ?p else key h j)" if "1 \<le> j" for j
    using key_update [of i h j "h ! (?p - 1)"] that i by (simp add: key_def)
  have grand: "2 \<le> ?p \<Longrightarrow> key h (?p div 2) \<le> key h ?p"
    using heap_holeD(1) [OF hole, of ?p] p by auto
  show ?thesis unfolding heap_hole_def
  proof (intro conjI ballI impI)
    fix j assume j: "j \<in> {2..length ?h}" "j \<noteq> ?p" "j div 2 \<noteq> ?p"
    then have "1 \<le> j" "1 \<le> j div 2" "j \<noteq> i" by auto
    then show "key ?h (j div 2) \<le> key ?h j"
      using heap_holeD(1) [OF hole, of j] heap_holeD(2) [OF hole, of j] j i by (auto simp: key)
  next
    fix j assume j: "j \<in> {2..length ?h}" "j div 2 = ?p" "2 \<le> ?p"
    then have "1 \<le> j" "1 \<le> ?p div 2" "?p div 2 \<noteq> i" by auto
    moreover have "j \<noteq> i \<Longrightarrow> key h ?p \<le> key h j"
      using heap_holeD(1) [OF hole, of j] j p by auto
    ultimately show "key ?h (?p div 2) \<le> key ?h j"
      using grand j by (auto simp: key intro: order_trans)
  qed
qed

lemma is_heap_InsertInternal:
  "heap_hole i h \<Longrightarrow> 1 \<le> i \<Longrightarrow> i \<le> length h \<Longrightarrow>
   (\<And>j. 2 \<le> j \<Longrightarrow> j \<le> length h \<Longrightarrow> j div 2 = i \<Longrightarrow> k \<le> key h j) \<Longrightarrow>
   is_heap (InsertInternal k v i h)"
proof (induction i h rule: InsertInternal_ind [where k = k])
  case (stop i h)
  then show ?case by (subst InsertInternal_stop) (auto intro!: is_heap_fill)
next
  case (move i h)
  let ?h = "h[i - 1 := h ! (i div 2 - 1)]"
  have "is_heap (InsertInternal k v (i div 2) ?h)"
  proof (rule move.IH)
    fix j assume j: "2 \<le> j" "j \<le> length ?h" "j div 2 = i div 2"
    have "j \<noteq> i \<Longrightarrow> key h (i div 2) \<le> key h j"
      using heap_holeD(1) [OF move.prems(1), of j] j by auto
    with j move show "k \<le> key ?h j"
      using key_update [of i h j "h ! (i div 2 - 1)"] by (auto simp: key_def [of h "i div 2", symmetric])
  qed (use move in \<open>auto intro!: heap_hole_up\<close>)
  with move show ?case by (subst InsertInternal_move) auto
qed

section \<open>Sifting down\<close>

lemma smallest_child_cases:
  assumes "1 \<le> i"
  obtains (leaf) "smallest_child k i h = i"
      "\<And>j. 2 \<le> j \<Longrightarrow> j \<le> length h \<Longrightarrow> j div 2 = i \<Longrightarrow> k \<le> key h j"
    | (child) c where "smallest_child k i h = c" "c div 2 = i" "2 \<le> c" "c \<le> length h" "key h c < k"
      "\<And>j. 2 \<le> j \<Longrightarrow> j \<le> length h \<Longrightarrow> j div 2 = i \<Longrightarrow> key h c \<le> key h j"
proof -
  have lr: "j = 2 * i \<or> j = 2 * i + 1" if "j div 2 = i" for j using that by auto
  have sc: "smallest_child k i h =
    (if 2 * i + 1 \<le> length h \<and> key h (2 * i + 1) < k \<and> key h (2 * i + 1) < key h (2 * i) then 2 * i + 1
     else if 2 * i \<le> length h \<and> key h (2 * i) < k then 2 * i else i)"
    using assms by (auto simp: smallest_child_def key_def Let_def)
  consider "2 * i + 1 \<le> length h \<and> key h (2 * i + 1) < k \<and> key h (2 * i + 1) < key h (2 * i)"
    | "\<not> (2 * i + 1 \<le> length h \<and> key h (2 * i + 1) < k \<and> key h (2 * i + 1) < key h (2 * i))"
      "2 * i \<le> length h \<and> key h (2 * i) < k"
    | "\<not> (2 * i + 1 \<le> length h \<and> key h (2 * i + 1) < k \<and> key h (2 * i + 1) < key h (2 * i))"
      "\<not> (2 * i \<le> length h \<and> key h (2 * i) < k)" by blast
  then show thesis
  proof cases
    case 1
    have "key h (2 * i + 1) \<le> key h j" if "j div 2 = i" for j using lr [OF that] 1 by auto
    with 1 assms show ?thesis by (intro child [of "2 * i + 1"]) (auto simp: sc)
  next
    case 2
    have "key h (2 * i) \<le> key h j" if "j \<le> length h" "j div 2 = i" for j
      using lr [OF that(2)] 2 that(1) by (auto simp: not_less)
    with 2 assms show ?thesis by (intro child [of "2 * i"]) (auto simp: sc)
  next
    case 3
    have "k \<le> key h j" if j: "j \<le> length h" "j div 2 = i" for j
      using lr [OF j(2)] 3 j(1) by (auto simp: not_less)
    with 3 show ?thesis by (intro leaf) (auto simp: sc)
  qed
qed

lemma sift_down_stop: "smallest_child k i h = i \<Longrightarrow> sift_down k v i h = h[i - 1 := (k, v)]"
  by (subst sift_down.simps) (simp add: Let_def)

lemma sift_down_move:
  "smallest_child k i h = c \<Longrightarrow> c \<noteq> i \<Longrightarrow> sift_down k v i h = sift_down k v c (h[i - 1 := h ! (c - 1)])"
  by (subst sift_down.simps) (simp add: Let_def)

lemma sift_down_ind [consumes 2, case_names stop move]:
  assumes "1 \<le> i" "i \<le> length h"
    and stop: "\<And>i h. 1 \<le> i \<Longrightarrow> i \<le> length h \<Longrightarrow> smallest_child k i h = i \<Longrightarrow>
      (\<And>j. 2 \<le> j \<Longrightarrow> j \<le> length h \<Longrightarrow> j div 2 = i \<Longrightarrow> k \<le> key h j) \<Longrightarrow> P i h"
    and move: "\<And>i h c. 1 \<le> i \<Longrightarrow> i \<le> length h \<Longrightarrow> smallest_child k i h = c \<Longrightarrow> c div 2 = i \<Longrightarrow> 2 \<le> c \<Longrightarrow>
      c \<le> length h \<Longrightarrow> key h c < k \<Longrightarrow>
      (\<And>j. 2 \<le> j \<Longrightarrow> j \<le> length h \<Longrightarrow> j div 2 = i \<Longrightarrow> key h c \<le> key h j) \<Longrightarrow>
      P c (h[i - 1 := h ! (c - 1)]) \<Longrightarrow> P i h"
  shows "P i (h :: ('k::linorder, 'v) heap)"
  using assms(1,2)
proof (induction "length h - i" arbitrary: i h rule: less_induct)
  case less
  from \<open>1 \<le> i\<close> show ?case
  proof (cases rule: smallest_child_cases [of i k h])
    case leaf
    with less.prems show ?thesis by (intro stop)
  next
    case (child c)
    then have "i < c" using less.prems by auto
    with child less.prems have "P c (h[i - 1 := h ! (c - 1)])" by (intro less.hyps) auto
    with child less.prems show ?thesis using move [of i h c] by blast
  qed
qed

lemma mset_sift_down:
  assumes "1 \<le> i" "i \<le> length h"
  shows "mset (sift_down k v i h) = mset (h[i - 1 := (k, v)])"
  using assms
proof (induction i h rule: sift_down_ind [where k = k])
  case (move i h c)
  then have c: "i - 1 < length h" "c - 1 < length h" "i - 1 \<noteq> c - 1" "c \<noteq> i" by auto
  have "mset (sift_down k v i h) = mset (h[i - 1 := h ! (c - 1), c - 1 := (k, v)])"
    using move.IH sift_down_move [OF move.hyps(3) c(4)] by simp
  also have "\<dots> = mset (h[i - 1 := (k, v)])" using c(1-3) by (rule mset_move_hole)
  finally show ?case .
qed (simp add: sift_down_stop)

lemma heap_hole_down:
  assumes hole: "heap_hole i h" and c: "c div 2 = i" "2 \<le> c" "c \<le> length h"
    and min: "\<And>j. 2 \<le> j \<Longrightarrow> j \<le> length h \<Longrightarrow> j div 2 = i \<Longrightarrow> key h c \<le> key h j"
  shows "heap_hole c (h[i - 1 := h ! (c - 1)])"
proof -
  let ?h = "h[i - 1 := h ! (c - 1)]"
  have i: "1 \<le> i" "i < c" "i \<le> length h" using c by auto
  have key: "key ?h j = (if j = i then key h c else key h j)" if "1 \<le> j" for j
    using key_update [OF i(1,3) that, of "h ! (c - 1)"] by (simp add: key_def)
  show ?thesis unfolding heap_hole_def
  proof (intro conjI ballI impI)
    fix j assume "j \<in> {2..length ?h}" "j \<noteq> c" "j div 2 \<noteq> c"
    then have j: "2 \<le> j" "j \<le> length h" "1 \<le> j" "1 \<le> j div 2" "j div 2 \<noteq> j" "j \<noteq> c" by auto
    show "key ?h (j div 2) \<le> key ?h j"
      using heap_holeD(1) [OF hole j(1,2)] heap_holeD(2) [OF hole c(2,3,1)] min [OF j(1,2)] j
      by (auto simp: key)
  next
    fix j assume j: "j \<in> {2..length ?h}" "j div 2 = c" "2 \<le> c"
    then have "1 \<le> j" "j \<noteq> i" using i by auto
    then show "key ?h (c div 2) \<le> key ?h j"
      using heap_holeD(1) [OF hole, of j] j c i by (auto simp: key)
  qed
qed

lemma is_heap_sift_down:
  assumes "1 \<le> i" "i \<le> length h"
  shows "heap_hole i h \<Longrightarrow> (2 \<le> i \<Longrightarrow> key h (i div 2) \<le> k) \<Longrightarrow> is_heap (sift_down k v i h)"
  using assms
proof (induction i h rule: sift_down_ind [where k = k])
  case (stop i h)
  then show ?case by (simp add: sift_down_stop is_heap_fill)
next
  case (move i h c)
  let ?h = "h[i - 1 := h ! (c - 1)]"
  have "c \<noteq> i" using move.hyps by auto
  have "is_heap (sift_down k v c ?h)"
  proof (rule move.IH)
    show "heap_hole c ?h" using move by (intro heap_hole_down) auto
    have "key ?h i = key h c" using move.hyps by (simp add: key_update key_def [of h c])
    with move.hyps show "key ?h (c div 2) \<le> k" by simp
  qed
  then show ?case by (simp add: sift_down_move [OF move.hyps(3) \<open>c \<noteq> i\<close>])
qed

text \<open>An entry with the inserted key is not moved (it is never smaller).\<close>

lemma sift_down_last:
  assumes "1 \<le> i" "i \<le> length h"
  shows "i \<noteq> n \<Longrightarrow> 1 \<le> n \<Longrightarrow> key h n = k \<Longrightarrow> sift_down k v i h ! (n - 1) = h ! (n - 1)"
  using assms
proof (induction i h rule: sift_down_ind [where k = k])
  case (stop i h)
  then show ?case by (simp add: sift_down_stop)
next
  case (move i h c)
  have c: "c \<noteq> i" "c \<noteq> n" using move.hyps move.prems by auto
  have "key (h[i - 1 := h ! (c - 1)]) n = k" using move by (simp add: key_update)
  with move.IH [OF c(2) move.prems(2)] move.hyps move.prems show ?case
    by (simp add: sift_down_move [OF move.hyps(3) c(1)])
qed

section \<open>Insert and RemoveMinimum\<close>

lemma key_append: "1 \<le> j \<Longrightarrow> j \<le> length h \<Longrightarrow> key (h @ xs) j = key h j"
  by (auto simp: key_def nth_append)

lemma heap_hole_append: "is_heap h \<Longrightarrow> heap_hole (length h + 1) (h @ [x])"
  using is_heapD [of h] by (auto simp: heap_hole_def key_append)

lemma is_heap_Insert: "is_heap h \<Longrightarrow> is_heap (Insert k v h)"
  unfolding Insert_def Let_def
  using heap_hole_append [of h] by (intro is_heap_InsertInternal) (auto simp: Suc_eq_plus1)

lemma mset_Insert: "mset (Insert k v h) = add_mset (k, v) (mset h)"
  by (simp add: Insert_def Let_def mset_InsertInternal)

lemma is_heap_root_le:
  assumes "is_heap h" "1 \<le> j" "j \<le> length h"
  shows "key h 1 \<le> key h j"
  using assms(2,3)
proof (induction j rule: less_induct)
  case (less j)
  show ?case
  proof (cases "j = 1")
    case False
    then have j: "2 \<le> j" "1 \<le> j div 2" "j div 2 < j" using less.prems by auto
    with less have "key h 1 \<le> key h (j div 2)" by auto
    also have "\<dots> \<le> key h j" using is_heapD [OF assms(1)] j less.prems by auto
    finally show ?thesis .
  qed simp
qed

lemma GetMinimumKey_eq: "h \<noteq> [] \<Longrightarrow> GetMinimumKey h = key h 1"
  by (simp add: GetMinimumKey_def key_def hd_conv_nth)

lemma is_heap_butlast: "is_heap h \<Longrightarrow> is_heap (butlast h)"
proof -
  assume h: "is_heap h"
  have "key (butlast h) j = key h j" if "1 \<le> j" "j \<le> length (butlast h)" for j
    using that by (simp add: key_def nth_butlast)
  then show ?thesis using is_heapD [OF h] unfolding is_heap_def by auto
qed

lemma mset_head_replaced: "h \<noteq> [] \<Longrightarrow> mset (h[0 := x]) = add_mset x (mset h - {#hd h#})"
  by (cases h) simp_all

lemma RemoveMinimum_correct:
  assumes "is_heap h" "h \<noteq> []"
  obtains h' where "RemoveMinimum h = Inr h'" "is_heap h'" "mset h' = mset h - {#hd h#}"
proof -
  let ?n = "length h" and ?k = "fst (last h)" and ?v = "snd (last h)"
  let ?d = "sift_down ?k ?v 1 h"
  have n: "1 \<le> ?n" using assms(2) by (cases h) auto
  have last: "last ?d = last h"
  proof (cases "?n = 1")
    case True
    then obtain x where "h = [x]" by (auto simp: length_Suc_conv One_nat_def)
    then show ?thesis by (subst sift_down_stop) (auto simp: smallest_child_def Let_def)
  next
    case False
    have "key h ?n = ?k" using assms(2) by (simp add: key_def last_conv_nth)
    then have "?d ! (?n - 1) = h ! (?n - 1)" using False n by (intro sift_down_last) auto
    moreover have "?d \<noteq> []" using n length_sift_down [of ?k ?v 1 h] by (metis length_0_conv not_one_le_zero)
    ultimately show ?thesis using assms(2) by (simp add: last_conv_nth)
  qed
  have "?d \<noteq> []" using n length_sift_down [of ?k ?v 1 h] by (metis length_0_conv not_one_le_zero)
  then have "mset ?d = add_mset (last h) (mset (butlast ?d))"
    using last append_butlast_last_id [of ?d] by (metis add.commute mset.simps mset_append union_mset_add_mset_left add_mset_add_single)
  moreover have "mset ?d = mset (h[0 := last h])" using mset_sift_down [of 1 h ?k ?v] n by simp
  ultimately have bag: "mset (butlast ?d) = mset h - {#hd h#}"
    using mset_head_replaced [OF assms(2), of "last h"] by simp
  have "is_heap ?d" using assms n by (intro is_heap_sift_down is_heap_hole) auto
  then have "is_heap (butlast ?d)" by (rule is_heap_butlast)
  moreover have "RemoveMinimum h = Inr (butlast ?d)"
    using assms(2) n by (simp add: RemoveMinimum_def RemoveMinimumAndInsert_def RemoveAtPositionAndInsertInternal_def)
  ultimately show thesis using bag that by blast
qed

section \<open>Replacement\<close>

lemma is_heap_sift_down_iff:
  assumes h: "is_heap h" and i: "1 \<le> i" "i \<le> length h"
  shows "is_heap (sift_down k v i h) \<longleftrightarrow> (2 \<le> i \<longrightarrow> key h (i div 2) \<le> k)"
proof
  show "is_heap (sift_down k v i h)" if "2 \<le> i \<longrightarrow> key h (i div 2) \<le> k"
    using that i by (intro is_heap_sift_down is_heap_hole h) simp_all
next
  assume down: "is_heap (sift_down k v i h)"
  show "2 \<le> i \<longrightarrow> key h (i div 2) \<le> k"
  proof
    assume i2: "2 \<le> i"
    from i(1) show "key h (i div 2) \<le> k"
    proof (cases rule: smallest_child_cases [of i k h])
      case leaf
      have "is_heap (h[i - 1 := (k, v)])" using down by (simp add: sift_down_stop [OF leaf(1)])
      moreover have "i div 2 \<noteq> i" using i2 by simp
      ultimately show ?thesis using is_heapD [of "h[i - 1 := (k, v)]" i] i i2 by (simp add: key_update)
    next
      case (child c)
      have "key h (i div 2) \<le> key h i" by (rule is_heapD [OF h i2 i(2)])
      also have "\<dots> \<le> key h c" using is_heapD [OF h child(3,4)] child(2) by simp
      finally show ?thesis using child(5) by simp
    qed
  qed
qed

lemma RemoveAtPositionAndInsertInternal_correct:
  assumes "is_heap h" "pos < length h"
  obtains h' where "RemoveAtPositionAndInsertInternal k v pos h = Inr h'" "mset h' = mset (h[pos := (k, v)])"
    "is_heap h' \<longleftrightarrow> (0 < pos \<longrightarrow> fst (h ! ((pos - 1) div 2)) \<le> k)"
proof
  show "RemoveAtPositionAndInsertInternal k v pos h = Inr (sift_down k v (pos + 1) h)"
    using assms(2) by (simp add: RemoveAtPositionAndInsertInternal_def)
  show "mset (sift_down k v (pos + 1) h) = mset (h[pos := (k, v)])"
    using assms(2) by (subst mset_sift_down) simp_all
  have "(pos + 1) div 2 - 1 = (pos - 1) div 2" if "0 < pos" using that by auto
  then show "is_heap (sift_down k v (pos + 1) h) \<longleftrightarrow> (0 < pos \<longrightarrow> fst (h ! ((pos - 1) div 2)) \<le> k)"
    using is_heap_sift_down_iff [OF assms(1), of "pos + 1" k v] assms(2) by (auto simp: key_def)
qed

lemma RemoveMinimumAndInsert_correct:
  assumes "is_heap h" "h \<noteq> []"
  obtains h' where "RemoveMinimumAndInsert k v h = Inr h'" "is_heap h'" "mset h' = add_mset (k, v) (mset h - {#hd h#})"
proof -
  have "0 < length h" using assms(2) by simp
  from RemoveAtPositionAndInsertInternal_correct [OF assms(1) this, of k v] show thesis
    using that mset_head_replaced [OF assms(2), of "(k, v)"] by (auto simp: RemoveMinimumAndInsert_def)
qed

text \<open>A smaller key at position \<open>pos\<close>, counted from 1.\<close>

lemma InsertInternal_replace:
  assumes "is_heap h" "1 \<le> pos" "pos \<le> length h" "k < fst (h ! (pos - 1))"
  shows "is_heap (InsertInternal k v pos h)" "mset (InsertInternal k v pos h) = mset (h[pos - 1 := (k, v)])"
proof -
  show "is_heap (InsertInternal k v pos h)"
  proof (rule is_heap_InsertInternal)
    show "heap_hole pos h" using assms by (intro is_heap_hole)
    fix j assume j: "2 \<le> j" "j \<le> length h" "j div 2 = pos"
    have "key h pos \<le> key h j" using is_heapD [OF assms(1) j(1,2)] j(3) by simp
    with assms(4) show "k \<le> key h j" by (simp add: key_def [of h pos])
  qed (use assms in simp_all)
qed (use assms in \<open>simp add: mset_InsertInternal\<close>)

declare One_nat_def [simp]

section \<open>The priority queue contract\<close>

locale min_queue =
  fixes ins :: "'k::linorder \<Rightarrow> 'v \<Rightarrow> 'q \<Rightarrow> 'q"
    and rmin :: "'q \<Rightarrow> sim_error + 'q"
    and minkey :: "'q \<Rightarrow> 'k"
    and minval :: "'q \<Rightarrow> 'v"
    and invar :: "'q \<Rightarrow> bool"
    and bag :: "'q \<Rightarrow> ('k \<times> 'v) multiset"
  assumes ins_inv: "invar q \<Longrightarrow> invar (ins k v q)"
    and ins_bag: "invar q \<Longrightarrow> bag (ins k v q) = add_mset (k, v) (bag q)"
    and min_mem: "invar q \<Longrightarrow> bag q \<noteq> {#} \<Longrightarrow> (minkey q, minval q) \<in># bag q"
    and min_le: "invar q \<Longrightarrow> (k, v) \<in># bag q \<Longrightarrow> minkey q \<le> k"
    and rmin_ex: "invar q \<Longrightarrow> bag q \<noteq> {#} \<Longrightarrow>
      \<exists>q'. rmin q = Inr q' \<and> invar q' \<and> bag q' = bag q - {#(minkey q, minval q)#}"
begin

text \<open>What is left after taking the minimum is not earlier than the minimum.\<close>

lemma rmin_later:
  assumes "invar q" "bag q \<noteq> {#}"
  obtains q' where "rmin q = Inr q'" "invar q'" "bag q' = bag q - {#(minkey q, minval q)#}"
    "\<And>k v. (k, v) \<in># bag q' \<Longrightarrow> minkey q \<le> k"
  using rmin_ex [OF assms] min_le [OF assms(1)] by (metis in_diffD)

lemma requeue_bag:
  assumes "invar q" "bag q \<noteq> {#}" "rmin q = Inr q'"
  shows "bag (ins k v q') = add_mset (k, v) (bag q - {#(minkey q, minval q)#})"
  using rmin_ex [OF assms(1,2)] assms(3) ins_bag by auto

text \<open>Taking the minimum and putting the value back at a later key moves no entry below it.\<close>

lemma requeue_later:
  assumes "invar q" "bag q \<noteq> {#}" "rmin q = Inr q'" "minkey q \<le> k" "(l, w) \<in># bag (ins k v q')"
  shows "minkey q \<le> l"
  using assms(5) requeue_bag [OF assms(1-3)] assms(4) min_le [OF assms(1)] by (auto dest: in_diffD)

end

text \<open>A queue with an operation that replaces its minimum.\<close>

locale replace_queue = min_queue where ins = ins
  for ins :: "'k::linorder \<Rightarrow> 'v \<Rightarrow> 'q \<Rightarrow> 'q" +
  fixes rep :: "'k \<Rightarrow> 'v \<Rightarrow> 'q \<Rightarrow> sim_error + 'q"
  assumes rep_ex: "invar q \<Longrightarrow> bag q \<noteq> {#} \<Longrightarrow>
      \<exists>q'. rep k v q = Inr q' \<and> invar q' \<and> bag q' = add_mset (k, v) (bag q - {#(minkey q, minval q)#})"
begin

text \<open>Replacing the minimum is taking it out and inserting: the queues hold the same entries and the same minimum.\<close>

lemma rep_requeue:
  assumes "invar q" "bag q \<noteq> {#}" "rmin q = Inr q1" "rep k v q = Inr q2"
  shows "bag q2 = bag (ins k v q1)" "minkey q2 = minkey (ins k v q1)"
proof -
  have q1: "invar (ins k v q1)" using rmin_ex [OF assms(1,2)] assms(3) ins_inv by auto
  have q2: "invar q2" using rep_ex [OF assms(1,2), of k v] assms(4) by auto
  show b: "bag q2 = bag (ins k v q1)"
    using rep_ex [OF assms(1,2), of k v] assms(4) requeue_bag [OF assms(1-3)] by auto
  have "bag q2 \<noteq> {#}" using rep_ex [OF assms(1,2), of k v] assms(4) by auto
  then show "minkey q2 = minkey (ins k v q1)"
    using min_le [OF q1] min_le [OF q2] min_mem [OF q1] min_mem [OF q2] b by (metis antisym)
qed

end

interpretation heapq: min_queue Insert RemoveMinimum GetMinimumKey GetMinimumValue is_heap mset
proof
  fix q :: "('k::{linorder, zero}, 'v) heap" and k v
  show "is_heap q \<Longrightarrow> is_heap (Insert k v q)" by (rule is_heap_Insert)
  show "mset (Insert k v q) = add_mset (k, v) (mset q)" by (rule mset_Insert)
  show "mset q \<noteq> {#} \<Longrightarrow> (GetMinimumKey q, GetMinimumValue q) \<in># mset q"
    by (cases q) (simp_all add: GetMinimumKey_def GetMinimumValue_def)
  show "GetMinimumKey q \<le> k" if "is_heap q" "(k, v) \<in># mset q"
  proof -
    from that(2) obtain j where "j < length q" "q ! j = (k, v)" by (auto simp: in_set_conv_nth)
    then show ?thesis
      using is_heap_root_le [OF that(1), of "j + 1"] GetMinimumKey_eq [of q] by (cases q) (auto simp: key_def)
  qed
  show "\<exists>q'. RemoveMinimum q = Inr q' \<and> is_heap q' \<and>
      mset q' = mset q - {#(GetMinimumKey q, GetMinimumValue q)#}" if "is_heap q" "mset q \<noteq> {#}"
    using RemoveMinimum_correct [OF that(1)] that(2)
    by (metis GetMinimumKey_def GetMinimumValue_def mset_zero_iff prod.collapse)
qed

interpretation heapr: replace_queue RemoveMinimum GetMinimumKey GetMinimumValue is_heap mset Insert RemoveMinimumAndInsert
proof
  fix q :: "('k::{linorder, zero}, 'v) heap" and k v
  assume "is_heap q" "mset q \<noteq> {#}"
  then show "\<exists>q'. RemoveMinimumAndInsert k v q = Inr q' \<and> is_heap q' \<and>
      mset q' = add_mset (k, v) (mset q - {#(GetMinimumKey q, GetMinimumValue q)#})"
    using RemoveMinimumAndInsert_correct [of q k v]
    by (metis GetMinimumKey_def GetMinimumValue_def mset_zero_iff prod.collapse)
qed

lemma RemoveAtPositionAndInsert_below:
  assumes "is_heap h"
  shows "0 < pos \<and> pos \<le> length h \<and> k < fst (h ! (pos - 1)) \<longrightarrow>
      (\<exists>r. RemoveAtPositionAndInsert k v pos h = Inr r \<and> is_heap r \<and> mset r = mset (h[pos - 1 := (k, v)]))"
proof (intro impI; elim conjE)
  assume p: "0 < pos" "pos \<le> length h" and less: "k < fst (h ! (pos - 1))"
  with assms InsertInternal_replace [OF assms _ _ less, of v]
  show "\<exists>r. RemoveAtPositionAndInsert k v pos h = Inr r \<and> is_heap r \<and> mset r = mset (h[pos - 1 := (k, v)])"
    by (simp add: RemoveAtPositionAndInsert_def)
qed

lemma RemoveAtPositionAndInsert_above:
  assumes "is_heap h"
  shows "0 < pos \<and> pos \<le> length h \<and> \<not> k < fst (h ! (pos - 1)) \<longrightarrow>
      (if pos = length h then RemoveAtPositionAndInsert k v pos h = Inl AssertionFailed
       else \<exists>r. RemoveAtPositionAndInsert k v pos h = Inr r \<and> mset r = mset (h[pos := (k, v)]) \<and>
         (is_heap r \<longleftrightarrow> fst (h ! ((pos - 1) div 2)) \<le> k))"
proof (intro impI; elim conjE)
  assume p: "0 < pos" "pos \<le> length h" "\<not> k < fst (h ! (pos - 1))"
  moreover have "\<exists>r. RemoveAtPositionAndInsertInternal k v pos h = Inr r \<and> mset r = mset (h[pos := (k, v)]) \<and>
         (is_heap r \<longleftrightarrow> fst (h ! ((pos - 1) div 2)) \<le> k)" if "pos < length h"
    using RemoveAtPositionAndInsertInternal_correct [OF assms that, of k v] p(1) by auto
  ultimately show "if pos = length h then RemoveAtPositionAndInsert k v pos h = Inl AssertionFailed
       else \<exists>r. RemoveAtPositionAndInsert k v pos h = Inr r \<and> mset r = mset (h[pos := (k, v)]) \<and>
         (is_heap r \<longleftrightarrow> fst (h ! ((pos - 1) div 2)) \<le> k)"
    by (auto simp: RemoveAtPositionAndInsert_def RemoveAtPositionAndInsertInternal_def [of k v "length h"])
qed

text \<open>
  C6. \<open>MinHeap\<close> implements a priority queue over the multiset of its entries. Each of \<open>Insert\<close>, \<open>RemoveMinimum\<close> and
  \<open>RemoveMinimumAndInsert\<close> keeps the heap shape and adds, takes out or replaces exactly one entry; the entry
  taken out or replaced is one with the smallest key, and on an empty heap the two hit the assertion.
  \<open>RemoveAtPositionAndInsertInternal\<close> replaces the entry at \<open>pos\<close> and keeps the heap shape exactly if the new key
  is not below the parent's. \<open>RemoveAtPositionAndInsert\<close> mixes two ways of counting: with a
  key below that of entry \<open>pos - 1\<close> it replaces that entry and keeps the heap shape; otherwise it replaces entry
  \<open>pos\<close>, and then the heap shape is lost if the new key is below the parent's, or it hits the assertion
  if there is no such entry. At \<open>pos = 0\<close> it reads in front of the vector.
\<close>

theorem MinHeap_refines:
  assumes "is_heap h"
  shows "is_heap (Insert k v h) \<and> mset (Insert k v h) = add_mset (k, v) (mset h) \<and>
    (h = [] \<longrightarrow> RemoveMinimum h = Inl AssertionFailed \<and> RemoveMinimumAndInsert k v h = Inl AssertionFailed) \<and>
    (h \<noteq> [] \<longrightarrow> (\<exists>h'. RemoveMinimum h = Inr h' \<and> is_heap h' \<and>
       mset h = add_mset (GetMinimumKey h, GetMinimumValue h) (mset h') \<and>
       (\<forall>(k', v') \<in> set h'. GetMinimumKey h \<le> k') \<and>
       (\<exists>r. RemoveMinimumAndInsert k v h = Inr r \<and> is_heap r \<and> mset r = add_mset (k, v) (mset h')))) \<and>
    (pos < length h \<longrightarrow> (\<exists>r. RemoveAtPositionAndInsertInternal k v pos h = Inr r \<and> mset r = mset (h[pos := (k, v)]) \<and>
       (is_heap r \<longleftrightarrow> (0 < pos \<longrightarrow> fst (h ! ((pos - 1) div 2)) \<le> k)))) \<and>
    (0 < pos \<and> pos \<le> length h \<and> k < fst (h ! (pos - 1)) \<longrightarrow>
       (\<exists>r. RemoveAtPositionAndInsert k v pos h = Inr r \<and> is_heap r \<and> mset r = mset (h[pos - 1 := (k, v)]))) \<and>
    (0 < pos \<and> pos \<le> length h \<and> \<not> k < fst (h ! (pos - 1)) \<longrightarrow>
       (if pos = length h then RemoveAtPositionAndInsert k v pos h = Inl AssertionFailed
        else \<exists>r. RemoveAtPositionAndInsert k v pos h = Inr r \<and> mset r = mset (h[pos := (k, v)]) \<and>
          (is_heap r \<longleftrightarrow> fst (h ! ((pos - 1) div 2)) \<le> k))) \<and>
    RemoveAtPositionAndInsert k v 0 h = Inl UndefinedBehaviour"
proof -
  have "h \<noteq> [] \<longrightarrow> (\<exists>h'. RemoveMinimum h = Inr h' \<and> is_heap h' \<and>
       mset h = add_mset (GetMinimumKey h, GetMinimumValue h) (mset h') \<and>
       (\<forall>(k', v') \<in> set h'. GetMinimumKey h \<le> k') \<and>
       (\<exists>r. RemoveMinimumAndInsert k v h = Inr r \<and> is_heap r \<and> mset r = add_mset (k, v) (mset h')))"
  proof
    assume "h \<noteq> []"
    then have ne: "mset h \<noteq> {#}" by simp
    from heapq.rmin_later [OF assms ne] obtain h' where h': "RemoveMinimum h = Inr h'" "is_heap h'"
      "mset h' = mset h - {#(GetMinimumKey h, GetMinimumValue h)#}"
      and le: "\<And>k v. (k, v) \<in># mset h' \<Longrightarrow> GetMinimumKey h \<le> k" by blast
    have "\<forall>(k', v') \<in> set h'. GetMinimumKey h \<le> k'" using le by auto
    moreover have "mset h = add_mset (GetMinimumKey h, GetMinimumValue h) (mset h')"
      using h'(3) heapq.min_mem [OF assms ne] by auto
    ultimately show "\<exists>h'. RemoveMinimum h = Inr h' \<and> is_heap h' \<and>
       mset h = add_mset (GetMinimumKey h, GetMinimumValue h) (mset h') \<and>
       (\<forall>(k', v') \<in> set h'. GetMinimumKey h \<le> k') \<and>
       (\<exists>r. RemoveMinimumAndInsert k v h = Inr r \<and> is_heap r \<and> mset r = add_mset (k, v) (mset h'))"
      using h' heapr.rep_ex [OF assms ne, of k v] by auto
  qed
  moreover have "pos < length h \<longrightarrow> (\<exists>r. RemoveAtPositionAndInsertInternal k v pos h = Inr r \<and> mset r = mset (h[pos := (k, v)]) \<and>
       (is_heap r \<longleftrightarrow> (0 < pos \<longrightarrow> fst (h ! ((pos - 1) div 2)) \<le> k)))"
    using RemoveAtPositionAndInsertInternal_correct [OF assms, of pos k v] by blast
  moreover have "h = [] \<longrightarrow> RemoveMinimum h = Inl AssertionFailed \<and> RemoveMinimumAndInsert k v h = Inl AssertionFailed"
    by (simp add: RemoveMinimum_def RemoveMinimumAndInsert_def RemoveAtPositionAndInsertInternal_def)
  moreover have "RemoveAtPositionAndInsert k v 0 h = Inl UndefinedBehaviour" by (simp add: RemoveAtPositionAndInsert_def)
  ultimately show ?thesis
    using heapq.ins_inv [OF assms] heapq.ins_bag [OF assms]
      RemoveAtPositionAndInsert_below [OF assms, of pos k v] RemoveAtPositionAndInsert_above [OF assms, of pos k v]
    by (intro conjI) assumption+
qed

theorem MinHeap_refines_witness:
  "is_heap [(3 :: int, ''avr''), (7, ''gdb''), (5, ''ui'')] \<and>
   (\<exists>h'. RemoveMinimum [(3 :: int, ''avr''), (7, ''gdb''), (5, ''ui'')] = Inr h' \<and>
      mset h' = {#(7, ''gdb''), (5, ''ui'')#}) \<and>
   (\<exists>r. RemoveAtPositionAndInsert (6 :: int) ''ui'' 2 [(3 :: int, ''avr''), (7, ''gdb''), (5, ''ui'')] = Inr r \<and>
      mset r = {#(3, ''avr''), (6, ''ui''), (5, ''ui'')#})"
proof -
  let ?h = "[(3 :: int, ''avr''), (7, ''gdb''), (5, ''ui'')]"
  have "{2..length ?h} = {2, 3}" by auto
  then have h: "is_heap ?h" unfolding is_heap_def by (simp add: key_def)
  obtain h' where "RemoveMinimum ?h = Inr h'" "mset ?h = add_mset (GetMinimumKey ?h, GetMinimumValue ?h) (mset h')"
    using MinHeap_refines [OF h, of 6 "''ui''" 2] by blast
  moreover obtain r where "RemoveAtPositionAndInsert 6 ''ui'' 2 ?h = Inr r" "mset r = {#(3, ''avr''), (6, ''ui''), (5, ''ui'')#}"
    using MinHeap_refines [OF h, of 6 "''ui''" 2] by (auto simp: add_mset_commute)
  ultimately show ?thesis using h by (auto simp: GetMinimumKey_def GetMinimumValue_def add_mset_commute)
qed

end
