(* ===== verification/Avr_SystemClock.thy ===== *)
theory Avr_SystemClock
  imports Avr_MinHeap
begin

text \<open>
  \<open>SystemClock\<close> of \<^verbatim>\<open>src/src/systemclock.cpp\<close>: the time table of simulation members.

  \<open>SimulationMember::Step\<close> is a virtual method; here it is the argument \<open>ms\<close>: it is given the
  member, \<open>untilCoreStepFinished\<close> and the value behind the pointer \<open>timeToNextStepIn_ns\<close>
  (\<open>None\<close> for a null pointer), may change the whole clock (a member may call \<open>Add\<close> or
  \<open>Stop\<close>) and the rest of the simulation, \<open>world\<close>, and returns the return code, the flag
  and the time to the next step. Time is in nanoseconds (\<open>long long\<close>) and modelled as \<open>int\<close>.

  The loops \<open>Run\<close>, \<open>RunTimeRange\<close> and \<open>Endless\<close> need not end: \<open>None\<close> is not returning.
\<close>

section \<open>State and operations\<close>

record ('m, 'w) clock =
  currentTime :: int
  syncMembers :: "(int, 'm) heap"
  asyncMembers :: "'m list"
  breakMessage :: bool
  world :: 'w

type_synonym ('m, 'w) member_step =
  "'m \<Rightarrow> bool \<Rightarrow> int option \<Rightarrow> (('m, 'w) clock, int \<times> bool \<times> int) sim"

definition SetCurrentTime :: "int \<Rightarrow> ('m, 'w) clock \<Rightarrow> ('m, 'w) clock" where
  "SetCurrentTime t c = c\<lparr>currentTime := t\<rparr>"

definition IncrTime :: "int \<Rightarrow> ('m, 'w) clock \<Rightarrow> ('m, 'w) clock" where
  "IncrTime t c = c\<lparr>currentTime := currentTime c + t\<rparr>"

definition Add :: "'m \<Rightarrow> ('m, 'w) clock \<Rightarrow> ('m, 'w) clock" where
  "Add dev c = c\<lparr>syncMembers := Insert (currentTime c) dev (syncMembers c)\<rparr>"

definition AddAsyncMember :: "'m \<Rightarrow> ('m, 'w) clock \<Rightarrow> ('m, 'w) clock" where
  "AddAsyncMember dev c = c\<lparr>asyncMembers := asyncMembers c @ [dev]\<rparr>"

definition Stop :: "('m, 'w) clock \<Rightarrow> ('m, 'w) clock" where
  "Stop c = c\<lparr>breakMessage := True\<rparr>"

definition ResetClock :: "('m, 'w) clock \<Rightarrow> ('m, 'w) clock" where
  "ResetClock c = c\<lparr>breakMessage := False, asyncMembers := [], syncMembers := [], currentTime := 0\<rparr>"

definition liftq ::
  "((int, 'm) heap \<Rightarrow> sim_error + (int, 'm) heap) \<Rightarrow> (('m, 'w) clock, unit) sim" where
  "liftq f = (\<lambda>c. case f (syncMembers c) of
                     Inl e \<Rightarrow> Inl e
                   | Inr q \<Rightarrow> Inr ((), c\<lparr>syncMembers := q\<rparr>))"

text \<open>
  The loop over the asynchronous members walks an iterator over the vector; a member that
  changes the vector invalidates it.
\<close>

primrec async_loop :: "('m, 'w) member_step \<Rightarrow> 'm list \<Rightarrow> (('m, 'w) clock, unit) sim" where
  "async_loop ms [] = ret ()"
| "async_loop ms (m # rest) =
     bnd (gets asyncMembers) (\<lambda>before.
     sq (ms m False None)
     (bnd (gets asyncMembers) (\<lambda>after.
      if after = before then async_loop ms rest else fail UndefinedBehaviour)))"

definition next_time :: "int \<Rightarrow> ('m, 'w) clock \<Rightarrow> int" where
  "next_time nextStepIn_ns c =
     (if nextStepIn_ns = 0 then
        1 + (if syncMembers c = [] then currentTime c else fst (hd (syncMembers c)))
      else if nextStepIn_ns > 0 then nextStepIn_ns + currentTime c
      else nextStepIn_ns)"

definition Step_core :: "('m, 'w) member_step \<Rightarrow> 'm \<Rightarrow> bool \<Rightarrow> (('m, 'w) clock, int \<times> bool) sim" where
  "Step_core ms core untilCoreStepFinished =
     bnd (ms core untilCoreStepFinished (Some (- 1))) (\<lambda>(rc, u, nextStepIn_ns).
     bnd (gets (next_time nextStepIn_ns)) (\<lambda>nx.
     sq (whenM (nx > 0) (modify (\<lambda>c. c\<lparr>syncMembers := Insert nx core (syncMembers c)\<rparr>)))
     (sq (bnd (gets asyncMembers) (async_loop ms))
     (ret (rc, u)))))"

definition Step_members :: "('m, 'w) member_step \<Rightarrow> bool \<Rightarrow> (('m, 'w) clock, int \<times> bool) sim" where
  "Step_members ms untilCoreStepFinished =
     bnd (gets syncMembers) (\<lambda>q.
     if q = [] then ret (0, untilCoreStepFinished)
     else
       sq (modify (\<lambda>c. c\<lparr>currentTime := GetMinimumKey q\<rparr>))
       (sq (liftq RemoveMinimum)
       (Step_core ms (GetMinimumValue q) untilCoreStepFinished)))"

definition Step :: "('m, 'w) member_step \<Rightarrow> bool \<Rightarrow> (('m, 'w) clock, int \<times> bool) sim" where
  "Step ms untilCoreStepFinished =
     bnd (Step_members ms untilCoreStepFinished) (\<lambda>(res, u).
     bnd (gets breakMessage) (\<lambda>b. ret (if b then 1 else res, u)))"

fun index_of :: "'m \<Rightarrow> (int, 'm) heap \<Rightarrow> nat option" where
  "index_of m [] = None"
| "index_of m ((k, v) # h) = (if v = m then Some 0 else map_option Suc (index_of m h))"

definition Reschedule :: "'m \<Rightarrow> int \<Rightarrow> (('m, 'w) clock, unit) sim" where
  "Reschedule sm newTime =
     bnd (gets (\<lambda>c. newTime + currentTime c + 1)) (\<lambda>t.
     bnd (gets (\<lambda>c. index_of sm (syncMembers c))) (\<lambda>i.
     case i of
       Some i \<Rightarrow> liftq (RemoveAtPositionAndInsert t sm i)
     | None \<Rightarrow> modify (\<lambda>c. c\<lparr>syncMembers := Insert t sm (syncMembers c)\<rparr>)))"

type_synonym ('m, 'w) run_result = "(sim_error + (nat \<times> ('m, 'w) clock)) option"

partial_function (option) Run_loop ::
  "('m, 'w) member_step \<Rightarrow> int \<Rightarrow> nat \<Rightarrow> ('m, 'w) clock \<Rightarrow> ('m, 'w) run_result" where
  "Run_loop ms maxRunTime steps c =
     (if \<not> breakMessage c \<and> currentTime c < maxRunTime then
        (case Step ms False c of
           Inl e \<Rightarrow> Some (Inl e)
         | Inr (r, c') \<Rightarrow> Run_loop ms maxRunTime (steps + 1) c')
      else Some (Inr (steps, c)))"

definition Run :: "('m, 'w) member_step \<Rightarrow> int \<Rightarrow> ('m, 'w) clock \<Rightarrow> ('m, 'w) run_result" where
  "Run ms maxRunTime c = Run_loop ms maxRunTime 0 (c\<lparr>breakMessage := False\<rparr>)"

partial_function (option) Endless_loop ::
  "('m, 'w) member_step \<Rightarrow> nat \<Rightarrow> ('m, 'w) clock \<Rightarrow> ('m, 'w) run_result" where
  "Endless_loop ms steps c =
     (if \<not> breakMessage c then
        (case Step ms False c of
           Inl e \<Rightarrow> Some (Inl e)
         | Inr (r, c') \<Rightarrow> Endless_loop ms (steps + 1) c')
      else Some (Inr (steps, c)))"

definition Endless :: "('m, 'w) member_step \<Rightarrow> ('m, 'w) clock \<Rightarrow> ('m, 'w) run_result" where
  "Endless ms c = Endless_loop ms 0 (c\<lparr>breakMessage := False\<rparr>)"

partial_function (option) RunTimeRange_loop ::
  "('m, 'w) member_step \<Rightarrow> int \<Rightarrow> nat \<Rightarrow> ('m, 'w) clock \<Rightarrow> ('m, 'w) run_result" where
  "RunTimeRange_loop ms timeRange steps c =
     (if \<not> breakMessage c \<and> currentTime c < timeRange then
        (case Step ms False c of
           Inl e \<Rightarrow> Some (Inl e)
         | Inr ((res, u), c') \<Rightarrow>
             if res \<noteq> 0 then Some (Inr (steps, c')) else RunTimeRange_loop ms timeRange (steps + 1) c')
      else Some (Inr (steps, c)))"

definition RunTimeRange :: "('m, 'w) member_step \<Rightarrow> int \<Rightarrow> ('m, 'w) clock \<Rightarrow> ('m, 'w) run_result" where
  "RunTimeRange ms timeRange c =
     RunTimeRange_loop ms (timeRange + currentTime c) 0 (c\<lparr>breakMessage := False\<rparr>)"

section \<open>The time table stays ordered and time does not go back\<close>

text \<open>
  The invariant: the table is a heap and nothing is scheduled in the past.
\<close>

definition clock_ok :: "('m, 'w) clock \<Rightarrow> bool" where
  "clock_ok c \<longleftrightarrow> is_heap (syncMembers c) \<and> 0 \<le> currentTime c \<and>
     (\<forall>(k, m) \<in> set (syncMembers c). currentTime c \<le> k)"

text \<open>
  What the clock expects of a member: whatever it does to the clock (\<open>Add\<close>, \<open>Stop\<close>) keeps
  the table ordered and does not move the time.
\<close>

definition well_behaved :: "('m, 'w) member_step \<Rightarrow> bool" where
  "well_behaved ms \<longleftrightarrow> (\<forall>t m u n. keeps (\<lambda>c. clock_ok c \<and> currentTime c = t) (ms m u n))"

lemma well_behavedD: "well_behaved ms \<Longrightarrow> keeps (\<lambda>c. clock_ok c \<and> currentTime c = t) (ms m u n)"
  by (auto simp: well_behaved_def)

lemma clock_ok_Insert:
  "clock_ok c \<Longrightarrow> currentTime c \<le> k \<Longrightarrow> clock_ok (c\<lparr>syncMembers := Insert k m (syncMembers c)\<rparr>)"
  using heapq.ins_bag [of "syncMembers c" k m]
  by (auto simp: clock_ok_def heapq.ins_inv simp flip: set_mset_mset)

lemma clock_ok_Add: "clock_ok c \<Longrightarrow> clock_ok (Add m c) \<and> currentTime (Add m c) = currentTime c"
  by (simp add: Add_def clock_ok_Insert)

lemma clock_ok_Stop: "clock_ok c \<Longrightarrow> clock_ok (Stop c) \<and> currentTime (Stop c) = currentTime c"
  by (simp add: Stop_def clock_ok_def)

lemma clock_ok_ResetClock: "clock_ok (ResetClock c)"
  by (simp add: ResetClock_def clock_ok_def is_heap_def)

lemma next_time_ge: "clock_ok c \<Longrightarrow> 0 < next_time n c \<Longrightarrow> currentTime c \<le> next_time n c"
  by (cases "syncMembers c") (auto simp: clock_ok_def next_time_def split: if_splits)

lemma clock_ok_take_first:
  assumes "clock_ok c" "syncMembers c \<noteq> []"
  obtains q where "RemoveMinimum (syncMembers c) = Inr q"
    "clock_ok (c\<lparr>currentTime := GetMinimumKey (syncMembers c), syncMembers := q\<rparr>)"
    "currentTime c \<le> GetMinimumKey (syncMembers c)"
    "mset q = mset (syncMembers c) - {#(GetMinimumKey (syncMembers c), GetMinimumValue (syncMembers c))#}"
proof -
  have h: "is_heap (syncMembers c)" "mset (syncMembers c) \<noteq> {#}" using assms by (auto simp: clock_ok_def)
  have le: "currentTime c \<le> GetMinimumKey (syncMembers c)"
    using heapq.min_mem [OF h] assms by (auto simp: clock_ok_def)
  from h show thesis
  proof (rule heapq.rmin_later)
    fix q assume q: "RemoveMinimum (syncMembers c) = Inr q" "is_heap q"
      "mset q = mset (syncMembers c) - {#(GetMinimumKey (syncMembers c), GetMinimumValue (syncMembers c))#}"
      "\<And>k v. (k, v) \<in># mset q \<Longrightarrow> GetMinimumKey (syncMembers c) \<le> k"
    have "clock_ok (c\<lparr>currentTime := GetMinimumKey (syncMembers c), syncMembers := q\<rparr>)"
      using q(2,4) le assms by (auto simp: clock_ok_def)
    then show thesis using that q le by blast
  qed
qed

lemma keeps_async_loop:
  assumes "well_behaved ms"
  shows "keeps (\<lambda>c. clock_ok c \<and> currentTime c = t) (async_loop ms xs)"
proof (induction xs)
  case (Cons m xs)
  then show ?case unfolding async_loop.simps
    by (intro keeps_intros well_behavedD [OF assms])
qed (simp only: async_loop.simps keeps_ret)

lemma keeps_Step_core:
  assumes "well_behaved ms"
  shows "keeps (\<lambda>c. clock_ok c \<and> currentTime c = t) (Step_core ms core u)" (is "keeps ?P _")
  unfolding Step_core_def
proof (rule keeps_bnd [OF well_behavedD [OF assms]])
  fix x :: "int \<times> bool \<times> int"
  obtain rc u n where x: "x = (rc, u, n)" by (cases x)
  let ?r = "sq (bnd (gets asyncMembers) (async_loop ms)) (ret (rc, u)) :: (_, int \<times> bool) sim"
  let ?m = "\<lambda>nx. whenM (nx > 0) (modify (\<lambda>c. c\<lparr>syncMembers := Insert nx core (syncMembers c)\<rparr>))"
  have "keeps ?P (bnd (gets (next_time n)) (\<lambda>nx. sq (?m nx) ?r))"
  proof (rule keepsI)
    fix c y c'
    assume c: "?P c" and "bnd (gets (next_time n)) (\<lambda>nx. sq (?m nx) ?r) c = Inr (y, c')"
    then obtain d where d: "?m (next_time n c) c = Inr ((), d)" "?r d = Inr (y, c')"
      by (auto split: if_splits)
    have "?P d" using c d(1) next_time_ge [of c n] by (auto split: if_splits intro: clock_ok_Insert)
    moreover have "keeps ?P ?r" by (intro keeps_intros keeps_async_loop [OF assms])
    ultimately show "?P c'" using d(2) by (blast dest: keepsD)
  qed
  then show "keeps ?P (case x of (rc, u, n) \<Rightarrow> bnd (gets (next_time n)) (\<lambda>nx. sq (?m nx)
      (sq (bnd (gets asyncMembers) (async_loop ms)) (ret (rc, u)))))"
    by (simp add: x)
qed

lemma Step_members_run:
  assumes "RemoveMinimum (syncMembers c) = Inr q" "syncMembers c \<noteq> []"
  shows "Step_members ms u c =
    Step_core ms (GetMinimumValue (syncMembers c)) u
      (c\<lparr>currentTime := GetMinimumKey (syncMembers c), syncMembers := q\<rparr>)"
  using assms by (simp add: Step_members_def liftq_def)

text \<open>
  A step of the simulation clock keeps the time table a heap in which nothing is
  scheduled before the current time, and the simulation time never goes back; when the table
  is not empty the time becomes exactly the earliest time in it.
\<close>

theorem Step_time_monotone:
  assumes "clock_ok c" "well_behaved ms" "Step ms u c = Inr (r, c')"
  shows "clock_ok c' \<and> currentTime c \<le> currentTime c' \<and>
    (syncMembers c \<noteq> [] \<longrightarrow> (\<forall>(k, m) \<in> set (syncMembers c). currentTime c' \<le> k) \<and>
      currentTime c' \<in> fst ` set (syncMembers c))"
proof (cases "syncMembers c = []")
  case True
  with assms show ?thesis by (auto simp: Step_def Step_members_def bnd_def)
next
  case False
  let ?q = "syncMembers c"
  from assms(1) False obtain q where q: "RemoveMinimum ?q = Inr q"
    "clock_ok (c\<lparr>currentTime := GetMinimumKey ?q, syncMembers := q\<rparr>)" "currentTime c \<le> GetMinimumKey ?q"
    by (rule clock_ok_take_first)
  let ?c = "c\<lparr>currentTime := GetMinimumKey ?q, syncMembers := q\<rparr>"
  from assms(3) obtain y where "Step_core ms (GetMinimumValue ?q) u ?c = Inr (y, c')"
    using False q(1) by (auto simp: Step_def Step_members_run elim!: bnd_eq_InrE)
  with keepsD [OF keeps_Step_core [OF assms(2)]] q(2)
  have "clock_ok c' \<and> currentTime c' = GetMinimumKey ?q" by fastforce
  moreover have "is_heap ?q" "mset ?q \<noteq> {#}" using assms(1) False by (auto simp: clock_ok_def)
  ultimately show ?thesis
    using q(3) heapq.min_le [of ?q] heapq.min_mem [of ?q] by (force simp: image_iff)
qed

section \<open>Run comes back\<close>

text \<open>
  A member that always asks to be called again, leaves the clock alone and does not fail.
\<close>

definition busy :: "('m, 'w) member_step \<Rightarrow> bool" where
  "busy ms \<longleftrightarrow> (\<forall>m u n c. clock_ok c \<longrightarrow> (\<exists>rc u' nx c'. ms m u n c = Inr ((rc, u', nx), c') \<and> 0 \<le> nx \<and>
     syncMembers c' = syncMembers c \<and> asyncMembers c' = asyncMembers c \<and> currentTime c' = currentTime c))"

lemma busyE:
  assumes "busy ms" "clock_ok c"
  obtains rc u' nx c' where "ms m u n c = Inr ((rc, u', nx), c')" "0 \<le> nx"
    "syncMembers c' = syncMembers c" "asyncMembers c' = asyncMembers c" "currentTime c' = currentTime c"
  using assms unfolding busy_def by blast

lemma clock_ok_cong:
  "syncMembers c' = syncMembers c \<Longrightarrow> currentTime c' = currentTime c \<Longrightarrow> clock_ok c' = clock_ok c"
  by (simp add: clock_ok_def)

lemma async_loop_busy:
  assumes "busy ms" "clock_ok c"
  shows "\<exists>c'. async_loop ms xs c = Inr ((), c') \<and> syncMembers c' = syncMembers c \<and>
    asyncMembers c' = asyncMembers c \<and> currentTime c' = currentTime c"
  using assms(2)
proof (induction xs arbitrary: c)
  case (Cons m xs)
  from assms(1) Cons.prems obtain rc u' nx d where d: "ms m False None c = Inr ((rc, u', nx), d)"
    "syncMembers d = syncMembers c" "asyncMembers d = asyncMembers c" "currentTime d = currentTime c"
    by (rule busyE)
  then have "clock_ok d" using Cons.prems clock_ok_cong by blast
  from Cons.IH [OF this] obtain c' where "async_loop ms xs d = Inr ((), c')" "syncMembers c' = syncMembers d"
    "asyncMembers c' = asyncMembers d" "currentTime c' = currentTime d" by blast
  then show ?case using d by simp
qed simp

lemma next_time_later:
  "clock_ok c \<Longrightarrow> 0 \<le> n \<Longrightarrow> currentTime c < next_time n c"
  by (cases "syncMembers c") (auto simp: clock_ok_def next_time_def)

lemma Step_core_busy:
  assumes "busy ms" "clock_ok c"
  shows "\<exists>r c' k. Step_core ms m u c = Inr (r, c') \<and> clock_ok c' \<and> currentTime c' = currentTime c \<and>
    currentTime c < k \<and> mset (syncMembers c') = add_mset (k, m) (mset (syncMembers c))"
proof -
  from assms obtain rc u' nx d where d: "ms m u (Some (- 1)) c = Inr ((rc, u', nx), d)" "0 \<le> nx"
    "syncMembers d = syncMembers c" "asyncMembers d = asyncMembers c" "currentTime d = currentTime c"
    by (rule busyE)
  let ?k = "next_time nx d"
  let ?d = "d\<lparr>syncMembers := Insert ?k m (syncMembers d)\<rparr>"
  have okd: "clock_ok d" using assms(2) d clock_ok_cong by blast
  have k: "currentTime c < ?k" "0 < ?k"
    using next_time_later [OF okd d(2)] d(5) okd by (auto simp: clock_ok_def)
  have ok: "clock_ok ?d" using okd k d(5) by (intro clock_ok_Insert) auto
  from async_loop_busy [OF assms(1) ok, of "asyncMembers d"] obtain e where
    e: "async_loop ms (asyncMembers d) ?d = Inr ((), e)" "syncMembers e = syncMembers ?d"
      "currentTime e = currentTime ?d" by auto
  have "Step_core ms m u c = Inr ((rc, u'), e)"
    using d(1) k(2) e(1) by (simp add: Step_core_def)
  moreover have "clock_ok e" using ok e(2,3) clock_ok_cong by blast
  moreover have "mset (syncMembers e) = add_mset (?k, m) (mset (syncMembers c))"
    using e(2) d(3) by (simp add: mset_Insert)
  ultimately show ?thesis using e(3) d(5) k(1) by auto
qed

text \<open>How much there is to do before \<open>maxRunTime\<close>.\<close>

definition pending :: "int \<Rightarrow> (int, 'm) heap \<Rightarrow> nat" where
  "pending maxRunTime h = (\<Sum>x \<in># mset h. nat (maxRunTime - fst x))"

lemma Step_busy:
  assumes "busy ms" "clock_ok c" "syncMembers c \<noteq> []"
  obtains r c' where "Step ms u c = Inr (r, c')" "clock_ok c'" "syncMembers c' \<noteq> []"
    "maxRunTime \<le> currentTime c' \<or> pending maxRunTime (syncMembers c') < pending maxRunTime (syncMembers c)"
proof -
  let ?q = "syncMembers c" and ?t = "GetMinimumKey (syncMembers c)" and ?m = "GetMinimumValue (syncMembers c)"
  from assms(2,3) obtain q where q: "RemoveMinimum ?q = Inr q" "clock_ok (c\<lparr>currentTime := ?t, syncMembers := q\<rparr>)"
    "mset q = mset ?q - {#(?t, ?m)#}" by (rule clock_ok_take_first)
  from Step_core_busy [OF assms(1) q(2), of ?m u] obtain r c' k where
    s: "Step_core ms ?m u (c\<lparr>currentTime := ?t, syncMembers := q\<rparr>) = Inr (r, c')" "clock_ok c'"
      "currentTime c' = ?t" "?t < k" "mset (syncMembers c') = add_mset (k, ?m) (mset q)" by auto
  have "(?t, ?m) \<in># mset ?q" using assms by (intro heapq.min_mem) (auto simp: clock_ok_def)
  then have "mset ?q = add_mset (?t, ?m) (mset q)" using q(3) by simp
  then have "pending maxRunTime ?q = nat (maxRunTime - ?t) + (\<Sum>x \<in># mset q. nat (maxRunTime - fst x))"
    by (simp add: pending_def)
  moreover have "pending maxRunTime (syncMembers c') = nat (maxRunTime - k) + (\<Sum>x \<in># mset q. nat (maxRunTime - fst x))"
    using s(5) by (simp add: pending_def)
  ultimately have "maxRunTime \<le> currentTime c' \<or> pending maxRunTime (syncMembers c') < pending maxRunTime ?q"
    using s(3,4) by auto
  moreover have "syncMembers c' \<noteq> []" using s(5) by auto
  moreover have "\<exists>r'. Step ms u c = Inr (r', c')"
    using s(1) assms(3) q(1) by (cases r) (simp add: Step_def Step_members_run)
  ultimately show thesis using that s(2) by blast
qed

theorem Step_time_monotone_witness:
  "let c = \<lparr>currentTime = 5, syncMembers = [(10, 1), (12, 2)], asyncMembers = [], breakMessage = False,
       world = ()\<rparr> :: (nat, unit) clock;
       ms = (\<lambda>m u n. ret (0, u, 4)) :: (nat, unit) member_step
   in clock_ok c \<and> well_behaved ms \<and>
      (\<exists>r c'. Step ms False c = Inr (r, c') \<and> clock_ok c' \<and> currentTime c' = 10)"
proof -
  let ?c = "\<lparr>currentTime = 5, syncMembers = [(10, 1), (12, 2)], asyncMembers = [], breakMessage = False,
       world = ()\<rparr> :: (nat, unit) clock"
  let ?ms = "(\<lambda>m u n. ret (0, u, 4)) :: (nat, unit) member_step"
  have ok: "clock_ok ?c" by (auto simp: clock_ok_def is_heap_def key_def numeral_2_eq_2 le_Suc_eq)
  have wb: "well_behaved ?ms" unfolding well_behaved_def by (intro allI keeps_ret)
  have "busy ?ms" by (simp add: busy_def)
  then obtain r c' where run: "Step ?ms False ?c = Inr (r, c')" by (rule Step_busy [OF _ ok]) simp
  then show ?thesis
    using Step_time_monotone [OF ok wb run] ok wb by (auto simp: Let_def)
qed

lemma Run_loop_returns:
  assumes "busy ms" "clock_ok c" "syncMembers c \<noteq> []"
  shows "\<exists>n c'. Run_loop ms maxRunTime k c = Some (Inr (n, c')) \<and>
    (breakMessage c' \<or> maxRunTime \<le> currentTime c') \<and> clock_ok c'"
  using assms(2,3)
proof (induction "pending maxRunTime (syncMembers c)" arbitrary: c k rule: less_induct)
  case less
  show ?case
  proof (cases "\<not> breakMessage c \<and> currentTime c < maxRunTime")
    case True
    from assms(1) less.prems obtain r c' where s: "Step ms False c = Inr (r, c')" "clock_ok c'"
      "syncMembers c' \<noteq> []"
      "maxRunTime \<le> currentTime c' \<or> pending maxRunTime (syncMembers c') < pending maxRunTime (syncMembers c)"
      by (rule Step_busy [where maxRunTime = maxRunTime and u = False])
    have step: "Run_loop ms maxRunTime k c = Run_loop ms maxRunTime (k + 1) c'"
      using True s(1) by (subst Run_loop.simps) simp
    show ?thesis
    proof (cases "maxRunTime \<le> currentTime c'")
      case True
      then have "Run_loop ms maxRunTime (k + 1) c' = Some (Inr (k + 1, c'))" by (subst Run_loop.simps) auto
      then show ?thesis using step s(2) True by auto
    next
      case False
      then show ?thesis unfolding step using s less.hyps [of c' "k + 1"] by auto
    qed
  next
    case False
    then have "Run_loop ms maxRunTime k c = Some (Inr (k, c))" by (subst Run_loop.simps) auto
    then show ?thesis using False less.prems by auto
  qed
qed

text \<open>
  C34. \<open>SystemClock::Run\<close> returns, and only when the requested time is reached or a stop was
  requested, for a non-empty table of members that keep asking to be called again, even if
  they ask with a time of zero.
\<close>

theorem Run_returns:
  assumes "busy ms" "clock_ok c" "syncMembers c \<noteq> []"
  shows "\<exists>n c'. Run ms maxRunTime c = Some (Inr (n, c')) \<and>
    (breakMessage c' \<or> maxRunTime \<le> currentTime c') \<and> clock_ok c'"
  unfolding Run_def using assms by (intro Run_loop_returns) (auto simp: clock_ok_def)

theorem Run_returns_witness:
  "let c = \<lparr>currentTime = 0, syncMembers = [(0, 1), (0, 2)], asyncMembers = [3], breakMessage = False,
       world = ()\<rparr> :: (nat, unit) clock;
       ms = (\<lambda>m u n. ret (0, u, 0)) :: (nat, unit) member_step
   in busy ms \<and> clock_ok c \<and> (\<exists>n c'. Run ms 1000 c = Some (Inr (n, c')) \<and>
        (breakMessage c' \<or> 1000 \<le> currentTime c'))"
proof -
  let ?c = "\<lparr>currentTime = 0, syncMembers = [(0, 1), (0, 2)], asyncMembers = [3], breakMessage = False,
       world = ()\<rparr> :: (nat, unit) clock"
  let ?ms = "(\<lambda>m u n. ret (0, u, 0)) :: (nat, unit) member_step"
  have ok: "clock_ok ?c" by (auto simp: clock_ok_def is_heap_def key_def numeral_2_eq_2 le_Suc_eq)
  have b: "busy ?ms" by (simp add: busy_def)
  show ?thesis using Run_returns [OF b ok, of 1000] ok b by (auto simp: Let_def)
qed

section \<open>Reschedule\<close>

text \<open>
  \<open>Reschedule\<close> of a member that is not in the table inserts it; of the member that is
  due next it reads in front of the vector, because \<open>RemoveAtPositionAndInsert\<close> subtracts
  one from a position that is already 0-based.
\<close>

theorem Reschedule_cases:
  "(index_of m (syncMembers c) = None \<longrightarrow>
      Reschedule m t c = Inr ((), c\<lparr>syncMembers := Insert (t + currentTime c + 1) m (syncMembers c)\<rparr>)) \<and>
   (syncMembers c \<noteq> [] \<longrightarrow> m = GetMinimumValue (syncMembers c) \<longrightarrow>
      Reschedule m t c = Inl UndefinedBehaviour)"
  by (cases "syncMembers c")
     (auto simp: Reschedule_def GetMinimumValue_def liftq_def RemoveAtPositionAndInsert_def)

theorem Reschedule_cases_witness:
  "let c = \<lparr>currentTime = 5, syncMembers = [(10, 1), (12, 2)], asyncMembers = [], breakMessage = False,
       world = ()\<rparr> :: (nat, unit) clock
   in Reschedule 1 7 c = Inl UndefinedBehaviour \<and>
      Reschedule 3 7 c = Inr ((), c\<lparr>syncMembers := Insert 13 3 [(10, 1), (12, 2)]\<rparr>)"
  using Reschedule_cases [of 1 "\<lparr>currentTime = 5, syncMembers = [(10, 1), (12, 2)], asyncMembers = [],
       breakMessage = False, world = ()\<rparr> :: (nat, unit) clock" 7]
    Reschedule_cases [of 3 "\<lparr>currentTime = 5, syncMembers = [(10, 1), (12, 2)], asyncMembers = [],
       breakMessage = False, world = ()\<rparr> :: (nat, unit) clock" 7]
  by (simp add: GetMinimumValue_def)

end
