(* ===== verification/Avr_Sreg.thy ===== *)
theory Avr_Sreg
  imports Avr_Prelude
begin

text \<open>
  The status register, \<^verbatim>\<open>src/src/hwsreg.h\<close> and \<^verbatim>\<open>src/src/hwsreg.cpp\<close>: eight booleans
  with a conversion to and from the byte that the program sees at I/O address 0x3f.
\<close>

record hwsreg =
  sr_I :: bool
  sr_T :: bool
  sr_H :: bool
  sr_S :: bool
  sr_V :: bool
  sr_N :: bool
  sr_Z :: bool
  sr_C :: bool

text \<open>\<open>HWSreg_bool::operator int\<close>, read as a byte by \<open>RWSreg::get\<close>.\<close>

definition sreg_to_int :: "hwsreg \<Rightarrow> int" where
  "sreg_to_int s =
     of_bool (sr_C s) + push_bit 1 (of_bool (sr_Z s)) + push_bit 2 (of_bool (sr_N s))
     + push_bit 3 (of_bool (sr_V s)) + push_bit 4 (of_bool (sr_S s)) + push_bit 5 (of_bool (sr_H s))
     + push_bit 6 (of_bool (sr_T s)) + push_bit 7 (of_bool (sr_I s))"

text \<open>\<open>HWSreg::operator=\<close> (and the converting constructor, which has the same body).\<close>

definition sreg_of_int :: "int \<Rightarrow> hwsreg" where
  "sreg_of_int i = \<lparr>
     sr_I = (i AND 0x80) > 7, sr_T = (i AND 0x40) > 6, sr_H = (i AND 0x20) > 5,
     sr_S = (i AND 0x10) > 4, sr_V = (i AND 0x08) > 3, sr_N = (i AND 0x04) > 2,
     sr_Z = (i AND 0x02) > 1, sr_C = (i AND 0x01) \<noteq> 0 \<rparr>"

text \<open>\<open>RWSreg::get\<close> and \<open>RWSreg::set\<close>.\<close>

definition RWSreg_get :: "hwsreg \<Rightarrow> byte" where
  "RWSreg_get s = word_of_int (sreg_to_int s)"

definition RWSreg_set :: "byte \<Rightarrow> hwsreg" where
  "RWSreg_set val = sreg_of_int (uint val)"

section \<open>Bits and flags\<close>

lemma and_exp_greater_iff:
  fixes i :: int
  assumes "0 \<le> k" "k < 2 ^ n"
  shows "i AND 2 ^ n > k \<longleftrightarrow> bit i n"
proof -
  have "i AND 2 ^ n = (if bit i n then 2 ^ n else 0)"
    by (rule bit_eqI) (auto simp: bit_and_iff bit_exp_iff)
  then show ?thesis using assms by auto
qed

lemma sreg_of_int_bits:
  "sreg_of_int i = \<lparr>sr_I = bit i 7, sr_T = bit i 6, sr_H = bit i 5, sr_S = bit i 4,
     sr_V = bit i 3, sr_N = bit i 2, sr_Z = bit i 1, sr_C = bit i 0\<rparr>"
  using and_exp_greater_iff [of 7 7 i] and_exp_greater_iff [of 6 6 i] and_exp_greater_iff [of 5 5 i]
    and_exp_greater_iff [of 4 4 i] and_exp_greater_iff [of 3 3 i] and_exp_greater_iff [of 2 2 i]
    and_exp_greater_iff [of 1 1 i]
  by (simp add: sreg_of_int_def bit_0 odd_iff_mod_2_eq_one and_one_eq)

lemma sreg_of_to_int [simp]: "sreg_of_int (sreg_to_int s) = s"
proof (cases s)
  case (fields I T H S V N Z C)
  show ?thesis unfolding fields
    by (cases I; cases T; cases H; cases S; cases V; cases N; cases Z; cases C;
        simp add: sreg_to_int_def sreg_of_int_def)
qed

lemma sreg_to_int_range: "0 \<le> sreg_to_int s" "sreg_to_int s < 256"
  by (auto simp: sreg_to_int_def)

lemma RWSreg_get_bits:
  "bit (RWSreg_get s) 0 = sr_C s" "bit (RWSreg_get s) 1 = sr_Z s" "bit (RWSreg_get s) 2 = sr_N s"
  "bit (RWSreg_get s) 3 = sr_V s" "bit (RWSreg_get s) 4 = sr_S s" "bit (RWSreg_get s) 5 = sr_H s"
  "bit (RWSreg_get s) 6 = sr_T s" "bit (RWSreg_get s) 7 = sr_I s"
proof -
  have "sreg_of_int (sreg_to_int s) = s" by simp
  then have "s = \<lparr>sr_I = bit (sreg_to_int s) 7, sr_T = bit (sreg_to_int s) 6, sr_H = bit (sreg_to_int s) 5,
     sr_S = bit (sreg_to_int s) 4, sr_V = bit (sreg_to_int s) 3, sr_N = bit (sreg_to_int s) 2,
     sr_Z = bit (sreg_to_int s) 1, sr_C = bit (sreg_to_int s) 0\<rparr>"
    by (simp add: sreg_of_int_bits)
  then show "bit (RWSreg_get s) 0 = sr_C s" "bit (RWSreg_get s) 1 = sr_Z s" "bit (RWSreg_get s) 2 = sr_N s"
    "bit (RWSreg_get s) 3 = sr_V s" "bit (RWSreg_get s) 4 = sr_S s" "bit (RWSreg_get s) 5 = sr_H s"
    "bit (RWSreg_get s) 6 = sr_T s" "bit (RWSreg_get s) 7 = sr_I s"
    unfolding RWSreg_get_def by (simp_all add: bit_simps) (metis hwsreg.select_convs)+
qed

lemma RWSreg_set_get: "RWSreg_set (RWSreg_get s) = s"
  using sreg_to_int_range [of s]
  by (simp add: RWSreg_set_def RWSreg_get_def uint_word_of_int take_bit_int_eq_self mod_pos_pos_trivial)

lemma RWSreg_get_set: "RWSreg_get (RWSreg_set b) = b"
proof (rule bit_word_eqI)
  fix n assume "n < LENGTH(8)"
  then have "n < 8" by simp
  then show "bit (RWSreg_get (RWSreg_set b)) n = bit b n"
    by (cases rule: less_8_cases)
       (simp_all only: RWSreg_get_bits, simp_all add: RWSreg_set_def sreg_of_int_bits bit_simps)
qed

text \<open>
  Reading SREG as a byte and writing it back changes no flag, and writing a byte and reading
  it back gives the byte: the eight flags and the eight bits of the register correspond one to
  one.
\<close>

theorem SREG_roundtrip: "RWSreg_set (RWSreg_get s) = s \<and> RWSreg_get (RWSreg_set b) = b"
  by (simp add: RWSreg_set_get RWSreg_get_set)

end
