(* ===== verification/Avr_Alu.thy ===== *)
theory Avr_Alu
  imports Avr_Sreg
begin

text \<open>
  The flag arithmetic of \<^verbatim>\<open>src/src/decoder.cpp\<close>: the carry and overflow helpers at the end
  of the file and the blocks of flag assignments that the instructions share (one definition
  per block). The helpers work on single bits promoted to \<open>int\<close>, with \<open>~\<close> the complement of
  an \<open>int\<close>, and so they do here.

  The lemmas say what the bit formulas mean: carry, half carry, signed overflow and sign of
  the exact sum or difference.
\<close>

section \<open>Bit formulas\<close>

definition bitb :: "byte \<Rightarrow> nat \<Rightarrow> int" where
  "bitb x b = drop_bit b (uint x) AND 1"

definition get_add_carry :: "byte \<Rightarrow> byte \<Rightarrow> byte \<Rightarrow> nat \<Rightarrow> int" where
  "get_add_carry res rd rr b =
     (let resb = bitb res b; rdb = bitb rd b; rrb = bitb rr b
      in (rdb AND rrb) OR (rrb AND NOT resb) OR (NOT resb AND rdb))"

definition get_add_overflow :: "byte \<Rightarrow> byte \<Rightarrow> byte \<Rightarrow> int" where
  "get_add_overflow res rd rr =
     (let res7 = bitb res 7; rd7 = bitb rd 7; rr7 = bitb rr 7
      in (rd7 AND rr7 AND NOT res7) OR (NOT rd7 AND NOT rr7 AND res7))"

definition get_sub_carry :: "byte \<Rightarrow> byte \<Rightarrow> byte \<Rightarrow> nat \<Rightarrow> int" where
  "get_sub_carry res rd rr b =
     (let resb = bitb res b; rdb = bitb rd b; rrb = bitb rr b
      in (NOT rdb AND rrb) OR (rrb AND resb) OR (resb AND NOT rdb))"

definition get_sub_overflow :: "byte \<Rightarrow> byte \<Rightarrow> byte \<Rightarrow> int" where
  "get_sub_overflow res rd rr =
     (let res7 = bitb res 7; rd7 = bitb rd 7; rr7 = bitb rr 7
      in (rd7 AND NOT rr7 AND NOT res7) OR (NOT rd7 AND rr7 AND res7))"

definition get_compare_carry :: "byte \<Rightarrow> byte \<Rightarrow> byte \<Rightarrow> nat \<Rightarrow> int" where
  "get_compare_carry res rd rr b =
     (let resb = bitb res b; rdb = bitb rd b; rrb = bitb rr b
      in (NOT rdb AND rrb) OR (rrb AND resb) OR (resb AND NOT rdb))"

definition get_compare_overflow :: "byte \<Rightarrow> byte \<Rightarrow> byte \<Rightarrow> int" where
  "get_compare_overflow res rd rr =
     (let res7 = bitb res 7; rd7 = bitb rd 7; rr7 = bitb rr 7
      in (rd7 AND NOT rr7 AND NOT res7) OR (NOT rd7 AND rr7 AND res7))"

text \<open>\<open>status->N = (res >> 7) & 0x1; status->S = status->N ^ status->V\<close>\<close>

definition set_NS :: "byte \<Rightarrow> hwsreg \<Rightarrow> hwsreg" where
  "set_NS res s = (let n = bitb res 7 \<noteq> 0 in s\<lparr>sr_N := n, sr_S := (n \<noteq> sr_V s)\<rparr>)"

text \<open>The flag assignments of ADC and ADD.\<close>

definition add_flags :: "byte \<Rightarrow> byte \<Rightarrow> byte \<Rightarrow> hwsreg \<Rightarrow> hwsreg" where
  "add_flags res rd rr s =
     (set_NS res (s\<lparr>sr_H := get_add_carry res rd rr 3 \<noteq> 0, sr_V := get_add_overflow res rd rr \<noteq> 0\<rparr>))
       \<lparr>sr_Z := (res AND 0xff = 0), sr_C := get_add_carry res rd rr 7 \<noteq> 0\<rparr>"

text \<open>The flag assignments of SUB and SUBI.\<close>

definition sub_flags :: "byte \<Rightarrow> byte \<Rightarrow> byte \<Rightarrow> hwsreg \<Rightarrow> hwsreg" where
  "sub_flags res rd rr s =
     (set_NS res (s\<lparr>sr_H := get_sub_carry res rd rr 3 \<noteq> 0, sr_V := get_sub_overflow res rd rr \<noteq> 0\<rparr>))
       \<lparr>sr_Z := (res AND 0xff = 0), sr_C := get_sub_carry res rd rr 7 \<noteq> 0\<rparr>"

text \<open>The flag assignments of SBC and SBCI: Z is only ever cleared.\<close>

definition sbc_flags :: "byte \<Rightarrow> byte \<Rightarrow> byte \<Rightarrow> hwsreg \<Rightarrow> hwsreg" where
  "sbc_flags res rd rr s =
     (let t = (set_NS res (s\<lparr>sr_H := get_sub_carry res rd rr 3 \<noteq> 0,
                 sr_V := get_sub_overflow res rd rr \<noteq> 0\<rparr>))\<lparr>sr_C := get_sub_carry res rd rr 7 \<noteq> 0\<rparr>
      in if res AND 0xff \<noteq> 0 then t\<lparr>sr_Z := False\<rparr> else t)"

text \<open>The flag assignments of CP and CPI.\<close>

definition cp_flags :: "byte \<Rightarrow> byte \<Rightarrow> byte \<Rightarrow> hwsreg \<Rightarrow> hwsreg" where
  "cp_flags res rd rr s =
     (set_NS res (s\<lparr>sr_H := get_compare_carry res rd rr 3 \<noteq> 0, sr_V := get_compare_overflow res rd rr \<noteq> 0\<rparr>))
       \<lparr>sr_Z := (res AND 0xff = 0), sr_C := get_compare_carry res rd rr 7 \<noteq> 0\<rparr>"

text \<open>The flag assignments of CPC: \<open>Z && prev_Z\<close>.\<close>

definition cpc_flags :: "byte \<Rightarrow> byte \<Rightarrow> byte \<Rightarrow> hwsreg \<Rightarrow> hwsreg" where
  "cpc_flags res rd rr s =
     (let t = (set_NS res (s\<lparr>sr_H := get_compare_carry res rd rr 3 \<noteq> 0,
                 sr_V := get_compare_overflow res rd rr \<noteq> 0\<rparr>))\<lparr>sr_C := get_compare_carry res rd rr 7 \<noteq> 0\<rparr>
      in t\<lparr>sr_Z := (res AND 0xff = 0) \<and> sr_Z t\<rparr>)"

text \<open>The flag assignments of AND, ANDI, EOR, OR and ORI.\<close>

definition logic_flags :: "byte \<Rightarrow> hwsreg \<Rightarrow> hwsreg" where
  "logic_flags res s = (set_NS res (s\<lparr>sr_V := False\<rparr>))\<lparr>sr_Z := (res AND 0xff = 0)\<rparr>"

section \<open>What the formulas mean\<close>

lemma bitb_eq: "bitb x b = of_bool (bit x b)"
proof -
  have "odd (uint x div 2 ^ b) = bit x b" by (simp add: bit_iff_odd [symmetric] bit_unsigned_iff)
  then show ?thesis by (simp add: bitb_def drop_bit_eq_div and_one_eq mod_2_eq_odd)
qed

lemma get_carry_iff:
  "get_add_carry res rd rr b \<noteq> 0 \<longleftrightarrow>
     (bit rd b \<and> bit rr b) \<or> (bit rr b \<and> \<not> bit res b) \<or> (\<not> bit res b \<and> bit rd b)"
  "get_sub_carry res rd rr b \<noteq> 0 \<longleftrightarrow>
     (\<not> bit rd b \<and> bit rr b) \<or> (bit rr b \<and> bit res b) \<or> (bit res b \<and> \<not> bit rd b)"
  "get_compare_carry res rd rr b \<noteq> 0 \<longleftrightarrow>
     (\<not> bit rd b \<and> bit rr b) \<or> (bit rr b \<and> bit res b) \<or> (bit res b \<and> \<not> bit rd b)"
  by (cases "bit rd b"; cases "bit rr b"; cases "bit res b";
      simp add: get_add_carry_def get_sub_carry_def get_compare_carry_def bitb_eq)+

lemma get_overflow_iff:
  "get_add_overflow res rd rr \<noteq> 0 \<longleftrightarrow>
     (bit rd 7 \<and> bit rr 7 \<and> \<not> bit res 7) \<or> (\<not> bit rd 7 \<and> \<not> bit rr 7 \<and> bit res 7)"
  "get_sub_overflow res rd rr \<noteq> 0 \<longleftrightarrow>
     (bit rd 7 \<and> \<not> bit rr 7 \<and> \<not> bit res 7) \<or> (\<not> bit rd 7 \<and> bit rr 7 \<and> bit res 7)"
  "get_compare_overflow res rd rr \<noteq> 0 \<longleftrightarrow>
     (bit rd 7 \<and> \<not> bit rr 7 \<and> \<not> bit res 7) \<or> (\<not> bit rd 7 \<and> bit rr 7 \<and> bit res 7)"
  by (cases "bit rd 7"; cases "bit rr 7"; cases "bit res 7";
      simp add: get_add_overflow_def get_sub_overflow_def get_compare_overflow_def bitb_eq)+

lemma byte_and_ff [simp]: "(x :: byte) AND 0xff = x"
  by (rule bit_word_eqI) (auto simp: bit_simps elim!: less_8_cases)

text \<open>From here on bytes are integers between 0 and 255.\<close>

lemma uint_byte_bounds: "0 \<le> uint (x :: byte)" "uint (x :: byte) < 256"
  using uint_bounded [of x] by simp_all

lemma bit7_uint: "bit (x :: byte) 7 \<longleftrightarrow> 128 \<le> uint x"
  using bit_top_iff_uint [of 8 x] uint_byte_bounds [of x] by simp

lemma bit3_uint: "bit (x :: byte) 3 \<longleftrightarrow> 8 \<le> uint x mod 16"
proof -
  have "int (unat x mod 16) = uint x mod 16" by (simp add: of_nat_mod)
  then have "8 \<le> unat x mod 16 \<longleftrightarrow> 8 \<le> uint x mod 16" by linarith
  then show ?thesis unfolding bit3_iff .
qed

lemma sint_byte: "sint (x :: byte) = (if 128 \<le> uint x then uint x - 256 else uint x)"
  using sint_byte_eq [of x] unat_less_iff_uint [of x 128] by (simp add: not_less [symmetric])

lemma mod_256_wrap:
  fixes k :: int
  assumes "- 256 \<le> k" "k < 512"
  shows "k mod 256 = (if k < 0 then k + 256 else if k < 256 then k else k - 256)"
proof -
  have shift: "k mod 256 = k + j * 256" if "0 \<le> k + j * 256" "k + j * 256 < 256" for j
    using that mod_mult_self1 [of k j 256] mod_pos_pos_trivial [of "k + j * 256" 256] by (simp only:)
  show ?thesis using assms shift [of 1] shift [of 0] shift [of "- 1"] by simp
qed

lemma mod_16_wrap:
  fixes k :: int
  assumes "- 16 \<le> k" "k < 32"
  shows "k mod 16 = (if k < 0 then k + 16 else if k < 16 then k else k - 16)"
proof -
  have shift: "k mod 16 = k + j * 16" if "0 \<le> k + j * 16" "k + j * 16 < 16" for j
    using that mod_mult_self1 [of k j 16] mod_pos_pos_trivial [of "k + j * 16" 16] by (simp only:)
  show ?thesis using assms shift [of 1] shift [of 0] shift [of "- 1"] by simp
qed

lemma uint_byte_add: "uint (x + y + of_bool c :: byte) = (uint x + uint y + of_bool c) mod 256"
  by (cases c) (simp_all add: uint_word_ariths mod_simps)

lemma uint_byte_sub: "uint (x - y - of_bool c :: byte) = (uint x - uint y - of_bool c) mod 256"
  by (cases c) (simp_all add: uint_word_ariths mod_simps)

text \<open>The same over integers, where linear arithmetic decides it.\<close>

definition sg :: "int \<Rightarrow> int" where
  "sg u = (if 128 \<le> u then u - 256 else u)"

lemma add_int:
  fixes u v k r :: int
  assumes "0 \<le> u" "u < 256" "0 \<le> v" "v < 256" "0 \<le> k" "k \<le> 1" "r = (u + v + k) mod 256"
  shows "((128 \<le> u \<and> 128 \<le> v) \<or> (128 \<le> v \<and> \<not> 128 \<le> r) \<or> (\<not> 128 \<le> r \<and> 128 \<le> u)) \<longleftrightarrow> 256 \<le> u + v + k"
    and "((128 \<le> u \<and> 128 \<le> v \<and> \<not> 128 \<le> r) \<or> (\<not> 128 \<le> u \<and> \<not> 128 \<le> v \<and> 128 \<le> r)) \<longleftrightarrow>
      \<not> (- 128 \<le> sg u + sg v + k \<and> sg u + sg v + k < 128)"
    and "((128 \<le> r) \<noteq> ((128 \<le> u \<and> 128 \<le> v \<and> \<not> 128 \<le> r) \<or> (\<not> 128 \<le> u \<and> \<not> 128 \<le> v \<and> 128 \<le> r))) \<longleftrightarrow>
      sg u + sg v + k < 0"
proof -
  have r: "r = (if u + v + k < 256 then u + v + k else u + v + k - 256)"
    using assms by (subst assms(7), subst mod_256_wrap) auto
  show "((128 \<le> u \<and> 128 \<le> v) \<or> (128 \<le> v \<and> \<not> 128 \<le> r) \<or> (\<not> 128 \<le> r \<and> 128 \<le> u)) \<longleftrightarrow> 256 \<le> u + v + k"
    using assms(1-6) unfolding r by auto
  show "((128 \<le> u \<and> 128 \<le> v \<and> \<not> 128 \<le> r) \<or> (\<not> 128 \<le> u \<and> \<not> 128 \<le> v \<and> 128 \<le> r)) \<longleftrightarrow>
      \<not> (- 128 \<le> sg u + sg v + k \<and> sg u + sg v + k < 128)"
    using assms(1-6) unfolding r sg_def by auto
  show "((128 \<le> r) \<noteq> ((128 \<le> u \<and> 128 \<le> v \<and> \<not> 128 \<le> r) \<or> (\<not> 128 \<le> u \<and> \<not> 128 \<le> v \<and> 128 \<le> r))) \<longleftrightarrow>
      sg u + sg v + k < 0"
    using assms(1-6) unfolding r sg_def by auto
qed

lemma sub_int:
  fixes u v k r :: int
  assumes "0 \<le> u" "u < 256" "0 \<le> v" "v < 256" "0 \<le> k" "k \<le> 1" "r = (u - v - k) mod 256"
  shows "((\<not> 128 \<le> u \<and> 128 \<le> v) \<or> (128 \<le> v \<and> 128 \<le> r) \<or> (128 \<le> r \<and> \<not> 128 \<le> u)) \<longleftrightarrow> u < v + k"
    and "((128 \<le> u \<and> \<not> 128 \<le> v \<and> \<not> 128 \<le> r) \<or> (\<not> 128 \<le> u \<and> 128 \<le> v \<and> 128 \<le> r)) \<longleftrightarrow>
      \<not> (- 128 \<le> sg u - sg v - k \<and> sg u - sg v - k < 128)"
    and "((128 \<le> r) \<noteq> ((128 \<le> u \<and> \<not> 128 \<le> v \<and> \<not> 128 \<le> r) \<or> (\<not> 128 \<le> u \<and> 128 \<le> v \<and> 128 \<le> r))) \<longleftrightarrow>
      sg u - sg v - k < 0"
proof -
  have r: "r = (if u < v + k then u - v - k + 256 else u - v - k)"
    using assms by (subst assms(7), subst mod_256_wrap) auto
  show "((\<not> 128 \<le> u \<and> 128 \<le> v) \<or> (128 \<le> v \<and> 128 \<le> r) \<or> (128 \<le> r \<and> \<not> 128 \<le> u)) \<longleftrightarrow> u < v + k"
    using assms(1-6) unfolding r by auto
  show "((128 \<le> u \<and> \<not> 128 \<le> v \<and> \<not> 128 \<le> r) \<or> (\<not> 128 \<le> u \<and> 128 \<le> v \<and> 128 \<le> r)) \<longleftrightarrow>
      \<not> (- 128 \<le> sg u - sg v - k \<and> sg u - sg v - k < 128)"
    using assms(1-6) unfolding r sg_def by auto
  show "((128 \<le> r) \<noteq> ((128 \<le> u \<and> \<not> 128 \<le> v \<and> \<not> 128 \<le> r) \<or> (\<not> 128 \<le> u \<and> 128 \<le> v \<and> 128 \<le> r))) \<longleftrightarrow>
      sg u - sg v - k < 0"
    using assms(1-6) unfolding r sg_def by auto
qed

lemma half_int:
  fixes u v k :: int
  assumes "0 \<le> u" "u < 16" "0 \<le> v" "v < 16" "0 \<le> k" "k \<le> 1"
  shows "r = (u + v + k) mod 16 \<Longrightarrow>
      ((8 \<le> u \<and> 8 \<le> v) \<or> (8 \<le> v \<and> \<not> 8 \<le> r) \<or> (\<not> 8 \<le> r \<and> 8 \<le> u)) \<longleftrightarrow> 16 \<le> u + v + k"
    and "r = (u - v - k) mod 16 \<Longrightarrow>
      ((\<not> 8 \<le> u \<and> 8 \<le> v) \<or> (8 \<le> v \<and> 8 \<le> r) \<or> (8 \<le> r \<and> \<not> 8 \<le> u)) \<longleftrightarrow> u < v + k"
proof -
  have 1: "(u + v + k) mod 16 = (if u + v + k < 16 then u + v + k else u + v + k - 16)"
    using assms by (subst mod_16_wrap) auto
  show "r = (u + v + k) mod 16 \<Longrightarrow>
      ((8 \<le> u \<and> 8 \<le> v) \<or> (8 \<le> v \<and> \<not> 8 \<le> r) \<or> (\<not> 8 \<le> r \<and> 8 \<le> u)) \<longleftrightarrow> 16 \<le> u + v + k"
    using assms unfolding 1 by auto
  have 2: "(u - v - k) mod 16 = (if u < v + k then u - v - k + 16 else u - v - k)"
    using assms by (subst mod_16_wrap) auto
  show "r = (u - v - k) mod 16 \<Longrightarrow>
      ((\<not> 8 \<le> u \<and> 8 \<le> v) \<or> (8 \<le> v \<and> 8 \<le> r) \<or> (8 \<le> r \<and> \<not> 8 \<le> u)) \<longleftrightarrow> u < v + k"
    using assms unfolding 2 by auto
qed

lemma of_bool_bounds: "0 \<le> (of_bool c :: int)" "(of_bool c :: int) \<le> 1"
  by (cases c; simp)+

lemma sint_sg: "sint (x :: byte) = sg (uint x)"
  by (simp add: sint_byte sg_def)

text \<open>Addition with carry, \<open>res = rd + rr + C\<close>.\<close>

lemma add_iffs:
  assumes "res = rd + rr + of_bool c"
  shows "get_add_carry res rd rr 7 \<noteq> 0 \<longleftrightarrow> 256 \<le> uint rd + uint rr + of_bool c"
    and "get_add_overflow res rd rr \<noteq> 0 \<longleftrightarrow>
      \<not> (- 128 \<le> sint rd + sint rr + of_bool c \<and> sint rd + sint rr + of_bool c < 128)"
    and "(bit res 7 \<noteq> (get_add_overflow res rd rr \<noteq> 0)) \<longleftrightarrow> sint rd + sint rr + of_bool c < 0"
proof -
  have "uint res = (uint rd + uint rr + of_bool c) mod 256" unfolding assms by (rule uint_byte_add)
  note i = add_int [OF uint_byte_bounds [of rd] uint_byte_bounds [of rr] of_bool_bounds [of c] this]
  show "get_add_carry res rd rr 7 \<noteq> 0 \<longleftrightarrow> 256 \<le> uint rd + uint rr + of_bool c"
    unfolding get_carry_iff bit7_uint by (rule i(1))
  show "get_add_overflow res rd rr \<noteq> 0 \<longleftrightarrow>
      \<not> (- 128 \<le> sint rd + sint rr + of_bool c \<and> sint rd + sint rr + of_bool c < 128)"
    unfolding get_overflow_iff bit7_uint sint_sg by (rule i(2))
  show "(bit res 7 \<noteq> (get_add_overflow res rd rr \<noteq> 0)) \<longleftrightarrow> sint rd + sint rr + of_bool c < 0"
    unfolding get_overflow_iff bit7_uint sint_sg by (rule i(3))
qed

lemma add_half_iff:
  assumes "res = rd + rr + of_bool c"
  shows "get_add_carry res rd rr 3 \<noteq> 0 \<longleftrightarrow> 16 \<le> uint rd mod 16 + uint rr mod 16 + of_bool c"
proof -
  have "uint res mod 16 = (uint rd + uint rr + of_bool c) mod 16"
    unfolding assms uint_byte_add by (simp add: mod_mod_cancel)
  also have "\<dots> = (uint rd mod 16 + uint rr mod 16 + of_bool c) mod 16"
    by (metis mod_add_eq mod_add_left_eq)
  finally show ?thesis unfolding get_carry_iff bit3_uint
    by (intro half_int(1) of_bool_bounds) simp_all
qed

text \<open>Subtraction with borrow, \<open>res = rd - rr - C\<close>.\<close>

lemma sub_iffs:
  assumes "res = rd - rr - of_bool c"
  shows "get_sub_carry res rd rr 7 \<noteq> 0 \<longleftrightarrow> uint rd < uint rr + of_bool c"
    and "get_sub_overflow res rd rr \<noteq> 0 \<longleftrightarrow>
      \<not> (- 128 \<le> sint rd - sint rr - of_bool c \<and> sint rd - sint rr - of_bool c < 128)"
    and "(bit res 7 \<noteq> (get_sub_overflow res rd rr \<noteq> 0)) \<longleftrightarrow> sint rd - sint rr - of_bool c < 0"
proof -
  have "uint res = (uint rd - uint rr - of_bool c) mod 256" unfolding assms by (rule uint_byte_sub)
  note i = sub_int [OF uint_byte_bounds [of rd] uint_byte_bounds [of rr] of_bool_bounds [of c] this]
  show "get_sub_carry res rd rr 7 \<noteq> 0 \<longleftrightarrow> uint rd < uint rr + of_bool c"
    unfolding get_carry_iff bit7_uint by (rule i(1))
  show "get_sub_overflow res rd rr \<noteq> 0 \<longleftrightarrow>
      \<not> (- 128 \<le> sint rd - sint rr - of_bool c \<and> sint rd - sint rr - of_bool c < 128)"
    unfolding get_overflow_iff bit7_uint sint_sg by (rule i(2))
  show "(bit res 7 \<noteq> (get_sub_overflow res rd rr \<noteq> 0)) \<longleftrightarrow> sint rd - sint rr - of_bool c < 0"
    unfolding get_overflow_iff bit7_uint sint_sg by (rule i(3))
qed

lemma sub_half_iff:
  assumes "res = rd - rr - of_bool c"
  shows "get_sub_carry res rd rr 3 \<noteq> 0 \<longleftrightarrow> uint rd mod 16 < uint rr mod 16 + of_bool c"
proof -
  have "uint res mod 16 = (uint rd - uint rr - of_bool c) mod 16"
    unfolding assms uint_byte_sub by (simp add: mod_mod_cancel)
  also have "\<dots> = (uint rd mod 16 - uint rr mod 16 - of_bool c) mod 16"
    by (metis mod_diff_eq mod_diff_left_eq)
  finally show ?thesis unfolding get_carry_iff bit3_uint
    by (intro half_int(2) of_bool_bounds) simp_all
qed

lemma compare_eq_sub:
  "get_compare_carry = get_sub_carry" "get_compare_overflow = get_sub_overflow"
  by (simp_all add: fun_eq_iff get_compare_carry_def get_sub_carry_def get_compare_overflow_def
      get_sub_overflow_def)

section \<open>The blocks of flag assignments\<close>

text \<open>The flags of an addition as arithmetic says they should be.\<close>

definition add_spec :: "byte \<Rightarrow> byte \<Rightarrow> bool \<Rightarrow> hwsreg \<Rightarrow> hwsreg" where
  "add_spec rd rr c s =
     (let sum = sint rd + sint rr + of_bool c; res = rd + rr + of_bool c in
      s\<lparr>sr_H := 16 \<le> uint rd mod 16 + uint rr mod 16 + of_bool c,
        sr_S := sum < 0, sr_V := \<not> (- 128 \<le> sum \<and> sum < 128), sr_N := sint res < 0,
        sr_Z := (res = 0), sr_C := 256 \<le> uint rd + uint rr + of_bool c\<rparr>)"

text \<open>The flags of a subtraction; \<open>z\<close> is the zero flag.\<close>

definition sub_spec :: "bool \<Rightarrow> byte \<Rightarrow> byte \<Rightarrow> bool \<Rightarrow> hwsreg \<Rightarrow> hwsreg" where
  "sub_spec z rd rr c s =
     (let dif = sint rd - sint rr - of_bool c; res = rd - rr - of_bool c in
      s\<lparr>sr_H := uint rd mod 16 < uint rr mod 16 + of_bool c,
        sr_S := dif < 0, sr_V := \<not> (- 128 \<le> dif \<and> dif < 128), sr_N := sint res < 0,
        sr_Z := z, sr_C := uint rd < uint rr + of_bool c\<rparr>)"

lemma sint_neg_iff: "sint (x :: byte) < 0 \<longleftrightarrow> bit x 7"
  using uint_byte_bounds [of x] by (auto simp: sint_byte bit7_uint)

lemma flags_alt:
  "add_flags res rd rr s =
     s\<lparr>sr_H := get_add_carry res rd rr 3 \<noteq> 0, sr_S := (bit res 7 \<noteq> (get_add_overflow res rd rr \<noteq> 0)),
       sr_V := get_add_overflow res rd rr \<noteq> 0, sr_N := bit res 7, sr_Z := (res = 0),
       sr_C := get_add_carry res rd rr 7 \<noteq> 0\<rparr>"
  "sub_flags res rd rr s =
     s\<lparr>sr_H := get_sub_carry res rd rr 3 \<noteq> 0, sr_S := (bit res 7 \<noteq> (get_sub_overflow res rd rr \<noteq> 0)),
       sr_V := get_sub_overflow res rd rr \<noteq> 0, sr_N := bit res 7, sr_Z := (res = 0),
       sr_C := get_sub_carry res rd rr 7 \<noteq> 0\<rparr>"
  "sbc_flags res rd rr s =
     s\<lparr>sr_H := get_sub_carry res rd rr 3 \<noteq> 0, sr_S := (bit res 7 \<noteq> (get_sub_overflow res rd rr \<noteq> 0)),
       sr_V := get_sub_overflow res rd rr \<noteq> 0, sr_N := bit res 7, sr_Z := (res = 0 \<and> sr_Z s),
       sr_C := get_sub_carry res rd rr 7 \<noteq> 0\<rparr>"
  by (simp_all add: add_flags_def sub_flags_def sbc_flags_def set_NS_def bitb_eq Let_def)

lemma flags_compare: "cp_flags = sub_flags" "cpc_flags = sbc_flags"
  by (simp_all add: fun_eq_iff cp_flags_def sub_flags_def cpc_flags_def sbc_flags_def compare_eq_sub
      set_NS_def Let_def)

lemma add_flags_eq: "add_flags (rd + rr + of_bool c) rd rr s = add_spec rd rr c s"
  unfolding flags_alt add_iffs(3) [OF refl]
  unfolding add_iffs(1,2) [OF refl] add_half_iff [OF refl] add_spec_def Let_def sint_neg_iff ..

lemma sub_flags_eq:
  "sub_flags (rd - rr - of_bool c) rd rr s = sub_spec (rd - rr - of_bool c = 0) rd rr c s"
  unfolding flags_alt sub_iffs(3) [OF refl]
  unfolding sub_iffs(1,2) [OF refl] sub_half_iff [OF refl] sub_spec_def Let_def sint_neg_iff ..

lemma sbc_flags_eq:
  "sbc_flags (rd - rr - of_bool c) rd rr s = sub_spec (rd - rr - of_bool c = 0 \<and> sr_Z s) rd rr c s"
  unfolding flags_alt sub_iffs(3) [OF refl]
  unfolding sub_iffs(1,2) [OF refl] sub_half_iff [OF refl] sub_spec_def Let_def sint_neg_iff ..

lemmas flags_eq = add_flags_eq sub_flags_eq sbc_flags_eq
  add_flags_eq [where c = False, simplified] sub_flags_eq [where c = False, simplified]

end
