(* ===== verification/Avr_Irq.thy ===== *)
theory Avr_Irq
  imports Avr_Prelude
begin

text \<open>
  The interrupt system, \<^verbatim>\<open>src/src/irqsystem.h\<close> and \<^verbatim>\<open>src/src/irqsystem.cpp\<close>, without
  \<open>GetNewPc\<close> (it calls back into the hardware and is in \<open>Avr_Device\<close>).

  \<open>irqPartnerList\<close>, a \<open>std::map\<close> from vector numbers to the hardware that raised them, is a
  list of pairs in strictly increasing order of the vectors: iteration goes from the smallest
  vector, which has the highest priority. The contract of such a table is the locale
  \<open>ordered_table\<close>.

  The statistic (\<open>IrqStatisticEntry\<close>, \<open>IrqStatisticPerVector\<close>) records times in ns; \<open>now\<close> is
  \<open>SystemClock::Instance().GetCurrentTime()\<close>. Trace output is left out, but an index into
  \<open>irqTrace\<close> beyond the table is \<open>UndefinedBehaviour\<close>.
\<close>

section \<open>Statistics\<close>

record irq_entry =
  flagSet :: int
  flagCleared :: int
  handlerStarted :: int
  handlerFinished :: int
  setClear :: int
  setStarted :: int
  setFinished :: int
  startedFinished :: int

definition IrqStatisticEntry :: irq_entry where
  "IrqStatisticEntry = \<lparr>flagSet = 0, flagCleared = 0, handlerStarted = 0, handlerFinished = 0,
     setClear = 0, setStarted = 0, setFinished = 0, startedFinished = 0\<rparr>"

definition CalcDiffs :: "irq_entry \<Rightarrow> irq_entry" where
  "CalcDiffs e = e\<lparr>
     setClear := flagCleared e - flagSet e,
     setStarted := handlerStarted e - flagSet e,
     setFinished := handlerFinished e - flagSet e,
     startedFinished := handlerFinished e - handlerStarted e\<rparr>"

record irq_vector_stat =
  long_SetClear :: irq_entry
  short_SetClear :: irq_entry
  long_SetStarted :: irq_entry
  short_SetStarted :: irq_entry
  long_SetFinished :: irq_entry
  short_SetFinished :: irq_entry
  long_StartedFinished :: irq_entry
  short_StartedFinished :: irq_entry
  actual :: irq_entry

definition IrqStatisticPerVector :: irq_vector_stat where
  "IrqStatisticPerVector =
     (let longDummy = IrqStatisticEntry\<lparr>setClear := 0xffffffffffff, setStarted := 0xffffffffffff,
            setFinished := 0xffffffffffff, startedFinished := 0xffffffffffff\<rparr>;
          shortDummy = IrqStatisticEntry
      in \<lparr>long_SetClear = shortDummy, short_SetClear = longDummy,
          long_SetStarted = shortDummy, short_SetStarted = longDummy,
          long_SetFinished = shortDummy, short_SetFinished = longDummy,
          long_StartedFinished = shortDummy, short_StartedFinished = longDummy,
          actual = IrqStatisticEntry\<rparr>)"

definition CalculateStatistic :: "irq_vector_stat \<Rightarrow> irq_vector_stat" where
  "CalculateStatistic p =
     (let a = CalcDiffs (actual p) in
      p\<lparr>actual := a,
        short_SetClear := if setClear a < setClear (short_SetClear p) then a else short_SetClear p,
        long_SetClear := if setClear a > setClear (long_SetClear p) then a else long_SetClear p,
        short_SetStarted := if setStarted a < setStarted (short_SetStarted p) then a else short_SetStarted p,
        long_SetStarted := if setStarted a > setStarted (long_SetStarted p) then a else long_SetStarted p,
        short_SetFinished := if setFinished a < setFinished (short_SetFinished p) then a else short_SetFinished p,
        long_SetFinished := if setFinished a > setFinished (long_SetFinished p) then a else long_SetFinished p,
        short_StartedFinished :=
          if startedFinished a < startedFinished (short_StartedFinished p) then a else short_StartedFinished p,
        long_StartedFinished :=
          if startedFinished a > startedFinished (long_StartedFinished p) then a else long_StartedFinished p\<rparr>)"

definition CheckComplete :: "irq_vector_stat \<Rightarrow> irq_vector_stat" where
  "CheckComplete p =
     (if flagSet (actual p) \<noteq> 0 \<and> flagCleared (actual p) \<noteq> 0 \<and> handlerStarted (actual p) \<noteq> 0
         \<and> handlerFinished (actual p) \<noteq> 0
      then (CalculateStatistic p)\<lparr>actual := IrqStatisticEntry\<rparr> else p)"

section \<open>The table of pending interrupts\<close>

fun table_put :: "nat \<Rightarrow> 'a \<Rightarrow> (nat \<times> 'a) list \<Rightarrow> (nat \<times> 'a) list" where
  "table_put k v [] = [(k, v)]"
| "table_put k v ((k', v') # t) =
     (if k < k' then (k, v) # (k', v') # t
      else if k = k' then (k, v) # t
      else (k', v') # table_put k v t)"

definition table_erase :: "nat \<Rightarrow> (nat \<times> 'a) list \<Rightarrow> (nat \<times> 'a) list" where
  "table_erase k t = filter (\<lambda>(k', v). k' \<noteq> k) t"

text \<open>\<open>ii++\<close>: the first entry behind \<open>k\<close>.\<close>

definition table_next :: "nat \<Rightarrow> (nat \<times> 'a) list \<Rightarrow> nat option" where
  "table_next k t = map_option fst (List.find (\<lambda>(k', v). k < k') t)"

definition table_ok :: "(nat \<times> 'a) list \<Rightarrow> bool" where
  "table_ok t \<longleftrightarrow> sorted_wrt (<) (map fst t)"

locale ordered_table =
  fixes put :: "nat \<Rightarrow> 'a \<Rightarrow> 't \<Rightarrow> 't"
    and del :: "nat \<Rightarrow> 't \<Rightarrow> 't"
    and look :: "'t \<Rightarrow> nat \<Rightarrow> 'a option"
    and first :: "'t \<Rightarrow> nat option"
    and ok :: "'t \<Rightarrow> bool"
  assumes put_ok: "ok t \<Longrightarrow> ok (put k v t)"
    and del_ok: "ok t \<Longrightarrow> ok (del k t)"
    and look_put: "ok t \<Longrightarrow> look (put k v t) = (look t)(k \<mapsto> v)"
    and look_del: "ok t \<Longrightarrow> look (del k t) = (look t)(k := None)"
    and first_None: "ok t \<Longrightarrow> first t = None \<longleftrightarrow> look t = Map.empty"
    and first_Some: "ok t \<Longrightarrow> first t = Some k \<Longrightarrow> k \<in> dom (look t) \<and> (\<forall>j \<in> dom (look t). k \<le> j)"
begin

text \<open>A new entry is first exactly if it is smaller than all others.\<close>

lemma first_put:
  assumes "ok t"
  shows "first (put k v t) = Some (case first t of None \<Rightarrow> k | Some j \<Rightarrow> min k j)"
proof -
  have "first (put k v t) \<noteq> None"
    using first_None [OF put_ok [OF assms]] look_put [OF assms] by (metis fun_upd_same option.distinct(1))
  then obtain i where i: "first (put k v t) = Some i" by blast
  from first_Some [OF put_ok [OF assms] i] look_put [OF assms]
  have i': "i \<in> insert k (dom (look t))" "\<forall>j \<in> insert k (dom (look t)). i \<le> j" by auto
  show ?thesis
  proof (cases "first t")
    case None
    then show ?thesis using i i' first_None [OF assms] by auto
  next
    case (Some j)
    from first_Some [OF assms this] have "j \<in> dom (look t)" "\<forall>l \<in> dom (look t). j \<le> l" by auto
    then have "i = min k j" using i' by (metis insert_iff le_antisym min_def nle_le)
    then show ?thesis using Some i by simp
  qed
qed

end

lemma table_put_keys: "fst ` set (table_put k v t) = insert k (fst ` set t)"
  by (induction k v t rule: table_put.induct) auto

lemma table_ok_Cons: "table_ok ((k, v) # t) \<longleftrightarrow> (\<forall>j \<in> fst ` set t. k < j) \<and> table_ok t"
  by (auto simp: table_ok_def)

lemma table_put_ok: "table_ok t \<Longrightarrow> table_ok (table_put k v t)"
  by (induction k v t rule: table_put.induct)
     (auto simp: table_ok_Cons table_put_keys table_ok_def [of "[]"] dest: less_trans)

lemma table_put_lookup: "table_ok t \<Longrightarrow> map_of (table_put k v t) = (map_of t)(k \<mapsto> v)"
  by (induction k v t rule: table_put.induct) (auto simp: table_ok_Cons)

lemma table_erase_ok: "table_ok t \<Longrightarrow> table_ok (table_erase k t)"
  unfolding table_ok_def table_erase_def
  by (induction t) (auto simp: sorted_wrt_map intro: sorted_wrt_filter)

lemma table_erase_lookup: "map_of (table_erase k t) = (map_of t)(k := None)"
  by (induction t) (auto simp: table_erase_def fun_eq_iff)

definition table_first :: "(nat \<times> 'a) list \<Rightarrow> nat option" where
  "table_first t = (case t of [] \<Rightarrow> None | e # _ \<Rightarrow> Some (fst e))"

interpretation irqtab: ordered_table table_put table_erase map_of table_first table_ok
proof
  fix t :: "(nat \<times> 'a) list" and k :: nat and v :: 'a
  show "table_ok t \<Longrightarrow> table_ok (table_put k v t)" by (rule table_put_ok)
  show "table_ok t \<Longrightarrow> table_ok (table_erase k t)" by (rule table_erase_ok)
  show "table_ok t \<Longrightarrow> map_of (table_put k v t) = (map_of t)(k \<mapsto> v)" by (rule table_put_lookup)
  show "map_of (table_erase k t) = (map_of t)(k := None)" by (rule table_erase_lookup)
  show "table_first t = None \<longleftrightarrow> map_of t = Map.empty" by (cases t) (auto simp: table_first_def)
  show "k \<in> dom (map_of t) \<and> (\<forall>j \<in> dom (map_of t). k \<le> j)"
    if t: "table_ok t" "table_first t = Some k"
  proof -
    obtain w u where "t = (k, w) # u" using t(2) by (cases t) (auto simp: table_first_def)
    moreover have "k \<le> j" if "j \<in> insert k (fst ` set u)" for j
      using that t(1) \<open>t = (k, w) # u\<close> by (auto simp: table_ok_Cons intro: less_imp_le)
    ultimately show ?thesis unfolding dom_map_of_conv_image_fst by simp
  qed
qed

section \<open>HWIrqSystem\<close>

record 'hw irq_system =
  bytesPerVector :: nat
  vectorTableSize :: nat
  irqPartnerList :: "(nat \<times> 'hw) list"
  irqEntries :: "nat \<Rightarrow> irq_vector_stat"
  debugInterruptTable :: "'hw option list"

definition HWIrqSystem :: "nat \<Rightarrow> nat \<Rightarrow> 'hw irq_system" where
  "HWIrqSystem bytes tblsize = \<lparr>bytesPerVector = bytes, vectorTableSize = tblsize,
     irqPartnerList = [], irqEntries = (\<lambda>v. IrqStatisticPerVector),
     debugInterruptTable = replicate tblsize None\<rparr>"

definition upd_stat :: "nat \<Rightarrow> (irq_vector_stat \<Rightarrow> irq_vector_stat) \<Rightarrow> 'hw irq_system \<Rightarrow> 'hw irq_system" where
  "upd_stat vector f q = q\<lparr>irqEntries := (irqEntries q)(vector := f (irqEntries q vector))\<rparr>"

definition SetIrqFlag :: "int \<Rightarrow> 'hw \<Rightarrow> nat \<Rightarrow> ('hw irq_system, unit) sim" where
  "SetIrqFlag now hwp vector =
     bnd (gets vectorTableSize) (\<lambda>n.
     sq (assertM (vector < n))
     (modify (\<lambda>q. upd_stat vector
        (\<lambda>p. if flagSet (actual p) = 0 then p\<lparr>actual := (actual p)\<lparr>flagSet := now\<rparr>\<rparr> else p)
        (q\<lparr>irqPartnerList := table_put vector hwp (irqPartnerList q)\<rparr>))))"

definition ClearIrqFlag :: "int \<Rightarrow> nat \<Rightarrow> ('hw irq_system, unit) sim" where
  "ClearIrqFlag now vector =
     modify (\<lambda>q. upd_stat vector
       (\<lambda>p. CheckComplete (if flagCleared (actual p) = 0
                           then p\<lparr>actual := (actual p)\<lparr>flagCleared := now\<rparr>\<rparr> else p))
       (q\<lparr>irqPartnerList := table_erase vector (irqPartnerList q)\<rparr>))"

definition irqTrace_change :: "nat \<Rightarrow> ('hw irq_system, unit) sim" where
  "irqTrace_change vector =
     bnd (gets vectorTableSize) (\<lambda>n. if vector < n then ret () else fail UndefinedBehaviour)"

definition IrqHandlerStarted :: "int \<Rightarrow> nat \<Rightarrow> ('hw irq_system, unit) sim" where
  "IrqHandlerStarted now vector =
     sq (irqTrace_change vector)
     (modify (upd_stat vector
       (\<lambda>p. CheckComplete (if handlerStarted (actual p) = 0
                           then p\<lparr>actual := (actual p)\<lparr>handlerStarted := now\<rparr>\<rparr> else p))))"

definition IrqHandlerFinished :: "int \<Rightarrow> nat \<Rightarrow> ('hw irq_system, unit) sim" where
  "IrqHandlerFinished now vector =
     sq (irqTrace_change vector)
     (modify (upd_stat vector
       (\<lambda>p. CheckComplete (if handlerFinished (actual p) = 0
                           then p\<lparr>actual := (actual p)\<lparr>handlerFinished := now\<rparr>\<rparr> else p))))"

definition DebugVerifyInterruptVector :: "nat \<Rightarrow> 'hw \<Rightarrow> ('hw irq_system, unit) sim" where
  "DebugVerifyInterruptVector vector source =
     bnd (gets vectorTableSize) (\<lambda>n.
     sq (assertM (vector < n))
     (bnd (gets (\<lambda>q. debugInterruptTable q ! vector)) (\<lambda>existing.
      case existing of
        None \<Rightarrow> modify (\<lambda>q. q\<lparr>debugInterruptTable := (debugInterruptTable q)[vector := Some source]\<rparr>)
      | Some e \<Rightarrow> assertM (e = source))))"

section \<open>Invariant\<close>

definition irq_ok :: "'hw irq_system \<Rightarrow> bool" where
  "irq_ok q \<longleftrightarrow> table_ok (irqPartnerList q) \<and> (\<forall>v \<in> dom (map_of (irqPartnerList q)). v < vectorTableSize q)"

lemma upd_stat_simps [simp]:
  "irqPartnerList (upd_stat v f q) = irqPartnerList q"
  "vectorTableSize (upd_stat v f q) = vectorTableSize q"
  "bytesPerVector (upd_stat v f q) = bytesPerVector q"
  by (simp_all add: upd_stat_def)

lemma irq_ok_upd_stat [simp]: "irq_ok (upd_stat v f q) = irq_ok q"
  by (simp add: irq_ok_def)

lemma keeps_SetIrqFlag: "keeps irq_ok (SetIrqFlag now hwp v)"
  by (rule keepsI)
     (auto simp: SetIrqFlag_def irq_ok_def irqtab.put_ok irqtab.look_put split: if_splits)

lemma keeps_ClearIrqFlag: "keeps irq_ok (ClearIrqFlag now v)"
  by (rule keepsI)
     (auto simp: ClearIrqFlag_def irq_ok_def irqtab.del_ok irqtab.look_del split: if_splits)

lemma keeps_IrqHandler: "keeps irq_ok (IrqHandlerStarted now v)" "keeps irq_ok (IrqHandlerFinished now v)"
  unfolding IrqHandlerStarted_def IrqHandlerFinished_def irqTrace_change_def
  by (intro keeps_intros; simp)+

text \<open>
  The reported extremes bracket every completed interrupt: a measured difference between the
  shortest and the longest one recorded.
\<close>

lemma CalculateStatistic_brackets:
  fixes p :: irq_vector_stat
  defines "a \<equiv> CalcDiffs (actual p)" and "q \<equiv> CalculateStatistic p"
  shows "setClear (short_SetClear q) \<le> setClear a \<and> setClear a \<le> setClear (long_SetClear q)"
    "setStarted (short_SetStarted q) \<le> setStarted a \<and> setStarted a \<le> setStarted (long_SetStarted q)"
    "setFinished (short_SetFinished q) \<le> setFinished a \<and> setFinished a \<le> setFinished (long_SetFinished q)"
    "startedFinished (short_StartedFinished q) \<le> startedFinished a \<and>
     startedFinished a \<le> startedFinished (long_StartedFinished q)"
  by (auto simp: a_def q_def CalculateStatistic_def Let_def)

lemma SetIrqFlag_run:
  assumes "irq_ok q" "v < vectorTableSize q"
  shows "\<exists>q'. SetIrqFlag now this v q = Inr ((), q') \<and> irq_ok q' \<and> vectorTableSize q' = vectorTableSize q \<and>
     map_of (irqPartnerList q') = (map_of (irqPartnerList q))(v \<mapsto> this)"
  using assms by (auto simp: SetIrqFlag_def irq_ok_def irqtab.put_ok irqtab.look_put)

lemma ClearIrqFlag_run:
  assumes "irq_ok q"
  shows "\<exists>q'. ClearIrqFlag now v q = Inr ((), q') \<and> irq_ok q' \<and> vectorTableSize q' = vectorTableSize q \<and>
     map_of (irqPartnerList q') = (map_of (irqPartnerList q))(v := None)"
  using assms by (auto simp: ClearIrqFlag_def irq_ok_def irqtab.del_ok irqtab.look_del)

end
