(* ===== verification/Avr_Flash.thy ===== *)
theory Avr_Flash
  imports Avr_Decoder
begin

text \<open>
  Program memory, \<^verbatim>\<open>src/src/flash.h\<close> and \<^verbatim>\<open>src/src/flash.cpp\<close>.

  \<open>AvrFlash\<close> keeps the bytes (high byte of each opcode first) and, for speed, one decoded
  instruction per word. \<open>DecodedMem\<close> has as many slots as there are bytes; the upper half
  stays \<open>NULL\<close> (here \<open>None\<close>). Reading outside of the two arrays or following a null pointer is
  \<open>UndefinedBehaviour\<close>.

  The cache is right (\<open>flash_ok\<close>) when every decoded instruction is what \<open>lookup_opcode\<close> says
  of the bytes; the theorems show which operations keep it right.
\<close>

section \<open>State and operations\<close>

record avr_flash =
  myMemory :: "byte list"
  DecodedMem :: "instr option list"
  rww_lock :: nat
  flashLoaded :: bool

abbreviation flash_size :: "avr_flash \<Rightarrow> nat" where
  "flash_size f \<equiv> length (myMemory f)"

definition word_at :: "byte list \<Rightarrow> nat \<Rightarrow> word16" where
  "word_at m addr = push_bit 8 (ucast (m ! addr)) + ucast (m ! (addr + 1))"

definition IsRWWLock :: "nat \<Rightarrow> avr_flash \<Rightarrow> bool" where
  "IsRWWLock addr f = (addr < rww_lock f)"

definition SetRWWLock :: "nat \<Rightarrow> avr_flash \<Rightarrow> avr_flash" where
  "SetRWWLock addr f = f\<lparr>rww_lock := addr\<rparr>"

definition Decode_at :: "core_flags \<Rightarrow> nat \<Rightarrow> (avr_flash, unit) sim" where
  "Decode_at c addr =
     (\<lambda>f. if \<not> addr < flash_size f \<or> addr mod 2 \<noteq> 0 then Inl AssertionFailed
          else if \<not> addr + 1 < flash_size f \<or> \<not> addr div 2 < length (DecodedMem f) then Inl UndefinedBehaviour
          else Inr ((), f\<lparr>DecodedMem :=
                  (DecodedMem f)[addr div 2 := Some (lookup_opcode c (word_at (myMemory f) addr))]\<rparr>))"

function Decode_range :: "core_flags \<Rightarrow> nat \<Rightarrow> nat \<Rightarrow> (avr_flash, unit) sim" where
  "Decode_range c offset secSize =
     (if secSize = 0 then ret ()
      else bnd (gets flash_size) (\<lambda>size.
           if offset < size then sq (Decode_at c offset) (Decode_range c (offset + 2) (secSize - 2))
           else ret ()))"
  by pat_completeness auto
termination
  by (relation "measure (\<lambda>(c, offset, secSize). secSize)") auto

declare Decode_range.simps [simp del]

definition Decode_all :: "core_flags \<Rightarrow> (avr_flash, unit) sim" where
  "Decode_all c = bnd (gets flash_size) (Decode_range c 0)"

definition new_flash :: "nat \<Rightarrow> avr_flash" where
  "new_flash n = \<lparr>myMemory = replicate n 0xff, DecodedMem = replicate n None, rww_lock = 0,
                  flashLoaded = False\<rparr>"

text \<open>The constructor: all bytes 0xff, which decode as illegal, then \<open>Decode()\<close>.\<close>

definition AvrFlash :: "core_flags \<Rightarrow> nat \<Rightarrow> sim_error + avr_flash" where
  "AvrFlash c n = map_sum id snd (Decode_all c (new_flash n))"

text \<open>The loop of \<open>WriteMem\<close>: the two bytes of each word are swapped.\<close>

function WriteMem_loop :: "byte list \<Rightarrow> nat \<Rightarrow> nat \<Rightarrow> nat \<Rightarrow> (avr_flash, unit) sim" where
  "WriteMem_loop src offset secSize tt =
     (if tt < secSize then
        bnd (gets flash_size) (\<lambda>size.
        sq (if tt + offset < size then
              (if \<not> tt + offset + 1 < size then fail AssertionFailed
               else if \<not> tt + 1 < length src then fail UndefinedBehaviour
               else modify (\<lambda>f. f\<lparr>myMemory :=
                      (myMemory f)[tt + offset := src ! (tt + 1), tt + 1 + offset := src ! tt]\<rparr>))
            else ret ())
        (WriteMem_loop src offset secSize (tt + 2)))
      else ret ())"
  by pat_completeness auto
termination
  by (relation "measure (\<lambda>(src, offset, secSize, tt). secSize - tt)") auto

declare WriteMem_loop.simps [simp del]

definition WriteMem :: "core_flags \<Rightarrow> byte list \<Rightarrow> nat \<Rightarrow> nat \<Rightarrow> (avr_flash, unit) sim" where
  "WriteMem c src offset secSize =
     sq (WriteMem_loop src offset secSize 0)
     (sq (Decode_range c offset secSize)
     (modify (\<lambda>f. f\<lparr>flashLoaded := True\<rparr>)))"

definition WriteMemByte :: "byte \<Rightarrow> nat \<Rightarrow> (avr_flash, unit) sim" where
  "WriteMemByte val offset =
     bnd (gets flash_size) (\<lambda>size.
     sq (assertM (offset < size))
     (modify (\<lambda>f. f\<lparr>myMemory := (myMemory f)[offset := val], flashLoaded := True\<rparr>)))"

definition decoded_at :: "nat \<Rightarrow> avr_flash \<Rightarrow> sim_error + instr" where
  "decoded_at i f =
     (if i < length (DecodedMem f) then
        (case DecodedMem f ! i of Some d \<Rightarrow> Inr d | None \<Rightarrow> Inl UndefinedBehaviour)
      else Inl UndefinedBehaviour)"

definition GetInstruction :: "nat \<Rightarrow> avr_flash \<Rightarrow> sim_error + instr" where
  "GetInstruction pc f = (if IsRWWLock (pc * 2) f then Inl FlashLocked else decoded_at pc f)"

definition GetOpcode :: "nat \<Rightarrow> avr_flash \<Rightarrow> sim_error + word16" where
  "GetOpcode pc f =
     (if IsRWWLock (pc * 2) f then Inl FlashLocked
      else if pc * 2 + 1 < flash_size f then Inr (word_at (myMemory f) (pc * 2))
      else Inl UndefinedBehaviour)"

definition ReadMem :: "nat \<Rightarrow> avr_flash \<Rightarrow> sim_error + byte" where
  "ReadMem offset f =
     (if IsRWWLock offset f then Inr 0
      else if offset < flash_size f then Inr (myMemory f ! offset)
      else Inl UndefinedBehaviour)"

definition ReadMemWord :: "nat \<Rightarrow> avr_flash \<Rightarrow> sim_error + word16" where
  "ReadMemWord offset f =
     (if \<not> offset < flash_size f then Inl AssertionFailed
      else if IsRWWLock offset f then Inr 0
      else if offset + 1 < flash_size f then Inr (word_at (myMemory f) offset)
      else Inl UndefinedBehaviour)"

definition ReadMemRaw :: "nat \<Rightarrow> avr_flash \<Rightarrow> sim_error + byte" where
  "ReadMemRaw addr f = (if addr < flash_size f then Inr (myMemory f ! addr) else Inl UndefinedBehaviour)"

text \<open>
  \<open>LooksLikeContextSwitch\<close>: the instruction writes the stack pointer and none of the (up to)
  seven instructions before it modifies the register it is written from.
\<close>

primrec no_frame_setup :: "avr_flash \<Rightarrow> nat \<Rightarrow> bool \<Rightarrow> nat \<Rightarrow> nat list \<Rightarrow> sim_error + bool" where
  "no_frame_setup f index is_SPH out_R [] = Inr True"
| "no_frame_setup f index is_SPH out_R (i # is) =
     (if i \<le> index then
        (case decoded_at (index - i) f of
           Inl e \<Rightarrow> Inl e
         | Inr d \<Rightarrow> if out_R = GetModifiedR d \<or> is_SPH \<and> out_R = GetModifiedRHi d then Inr False
                    else no_frame_setup f index is_SPH out_R is)
      else Inr True)"

definition LooksLikeContextSwitch :: "nat \<Rightarrow> avr_flash \<Rightarrow> sim_error + bool" where
  "LooksLikeContextSwitch addr f =
     (if \<not> addr < flash_size f then Inl AssertionFailed
      else let index = unat (word_of_nat (addr div 2) :: word16) in
        if \<not> index < length (DecodedMem f) then Inl UndefinedBehaviour
        else case DecodedMem f ! index of
               Some (IOR OUT R1 ioreg) \<Rightarrow>
                 (let is_SPL = (ioreg = 0x3d); is_SPH = (ioreg = 0x3e)
                  in if \<not> is_SPH \<and> \<not> is_SPL then Inr False
                     else no_frame_setup f index is_SPH R1 [1, 2, 3, 4, 5, 6, 7])
             | _ \<Rightarrow> Inr False)"

section \<open>The decoded instructions agree with the bytes\<close>

definition flash_wf :: "avr_flash \<Rightarrow> bool" where
  "flash_wf f \<longleftrightarrow> even (flash_size f) \<and> length (DecodedMem f) = flash_size f"

definition cached :: "core_flags \<Rightarrow> nat \<Rightarrow> avr_flash \<Rightarrow> bool" where
  "cached c i f \<longleftrightarrow> DecodedMem f ! i = Some (lookup_opcode c (word_at (myMemory f) (2 * i)))"

definition flash_ok :: "core_flags \<Rightarrow> avr_flash \<Rightarrow> bool" where
  "flash_ok c f \<longleftrightarrow> flash_wf f \<and> (\<forall>i < flash_size f div 2. cached c i f)"

lemma Decode_at_run:
  assumes "flash_wf f" "addr < flash_size f" "even addr"
  shows "\<exists>f'. Decode_at c addr f = Inr ((), f') \<and> flash_wf f' \<and> myMemory f' = myMemory f \<and>
    rww_lock f' = rww_lock f \<and> flashLoaded f' = flashLoaded f \<and>
    cached c (addr div 2) f' \<and> (\<forall>i. i \<noteq> addr div 2 \<longrightarrow> cached c i f' = cached c i f)"
proof -
  have "addr + 1 < flash_size f" "addr div 2 < flash_size f"
    using assms by (auto simp: flash_wf_def elim!: evenE)
  then show ?thesis using assms
    by (auto simp: Decode_at_def flash_wf_def cached_def nth_list_update)
qed

text \<open>Decoding a range makes the cache right there and leaves the rest alone.\<close>

lemma Decode_range_run:
  assumes "flash_wf f" "even offset"
  shows "\<exists>f'. Decode_range c offset n f = Inr ((), f') \<and> flash_wf f' \<and> myMemory f' = myMemory f \<and>
    rww_lock f' = rww_lock f \<and> flashLoaded f' = flashLoaded f \<and>
    (\<forall>i < flash_size f div 2. cached c i f' \<longleftrightarrow> cached c i f \<or> offset \<le> 2 * i \<and> 2 * i < offset + n)"
  using assms
proof (induction n arbitrary: offset f rule: less_induct)
  case (less n)
  show ?case
  proof (cases "n \<noteq> 0 \<and> offset < flash_size f")
    case False
    have "i < flash_size f div 2 \<Longrightarrow> offset \<le> 2 * i \<Longrightarrow> 2 * i < offset + n \<Longrightarrow> False" for i
      using False by auto
    then show ?thesis using False less.prems by (subst Decode_range.simps) auto
  next
    case True
    obtain f1 where f1: "Decode_at c offset f = Inr ((), f1)" "flash_wf f1" "myMemory f1 = myMemory f"
      "rww_lock f1 = rww_lock f" "flashLoaded f1 = flashLoaded f" "cached c (offset div 2) f1"
      "\<And>i. i \<noteq> offset div 2 \<Longrightarrow> cached c i f1 = cached c i f"
      using Decode_at_run [OF less.prems(1) _ less.prems(2)] True by blast
    have "even (offset + 2)" "n - 2 < n" using less.prems True by auto
    with less.IH [OF \<open>n - 2 < n\<close> f1(2) \<open>even (offset + 2)\<close>] obtain f2 where
      f2: "Decode_range c (offset + 2) (n - 2) f1 = Inr ((), f2)" "flash_wf f2" "myMemory f2 = myMemory f1"
      "rww_lock f2 = rww_lock f1" "flashLoaded f2 = flashLoaded f1"
      "\<And>i. i < flash_size f1 div 2 \<Longrightarrow>
        cached c i f2 \<longleftrightarrow> cached c i f1 \<or> offset + 2 \<le> 2 * i \<and> 2 * i < offset + 2 + (n - 2)" by blast
    have run: "Decode_range c offset n f = Inr ((), f2)"
      using True f1(1) f2(1) by (subst Decode_range.simps) simp
    have "cached c i f2 \<longleftrightarrow> cached c i f \<or> offset \<le> 2 * i \<and> 2 * i < offset + n"
      if i: "i < flash_size f div 2" for i
    proof (cases "i = offset div 2")
      case True
      then show ?thesis using f2(6) [of i] f1(3,6) i less.prems \<open>n - 2 < n\<close> by auto
    next
      case False
      have "(offset + 2 \<le> 2 * i \<and> 2 * i < offset + 2 + (n - 2)) = (offset \<le> 2 * i \<and> 2 * i < offset + n)"
        using False less.prems(2) by presburger
      then show ?thesis using f2(6) [of i] f1(3) f1(7) [OF False] i by simp
    qed
    then show ?thesis using run f2 f1 by auto
  qed
qed

lemma Decode_all_run:
  assumes "flash_wf f"
  shows "\<exists>f'. Decode_all c f = Inr ((), f') \<and> flash_ok c f' \<and> myMemory f' = myMemory f"
  using Decode_range_run [OF assms, of 0 c "flash_size f"] by (auto simp: Decode_all_def flash_ok_def)

text \<open>The byte that \<open>WriteMem\<close> puts \<open>k\<close> bytes behind \<open>offset\<close>.\<close>

definition swapped :: "byte list \<Rightarrow> nat \<Rightarrow> byte" where
  "swapped src k = (if even k then src ! (k + 1) else src ! (k - 1))"

lemma WriteMem_loop_run:
  assumes "flash_wf f" "even offset" "even n" "n \<le> length src" "even tt"
  shows "\<exists>f'. WriteMem_loop src offset n tt f = Inr ((), f') \<and> DecodedMem f' = DecodedMem f \<and>
    flash_size f' = flash_size f \<and> rww_lock f' = rww_lock f \<and>
    (\<forall>a < flash_size f. myMemory f' ! a =
       (if offset + tt \<le> a \<and> a < offset + n then swapped src (a - offset) else myMemory f ! a))"
  using assms(1,5)
proof (induction "n - tt" arbitrary: tt f rule: less_induct)
  case less
  show ?case
  proof (cases "tt < n")
    case False
    then show ?thesis using less.prems by (subst WriteMem_loop.simps) auto
  next
    case True
    then have tt: "tt + 1 < n" "even (tt + 2)" "n - (tt + 2) < n - tt" using assms(3) less.prems(2) by auto presburger
    let ?f = "if tt + offset < flash_size f then f\<lparr>myMemory := (myMemory f)[tt + offset := src ! (tt + 1),
        tt + 1 + offset := src ! tt]\<rparr> else f"
    have "tt + offset < flash_size f \<Longrightarrow> tt + offset + 1 < flash_size f"
      using less.prems assms(2) unfolding flash_wf_def by presburger
    then have run: "WriteMem_loop src offset n tt f = WriteMem_loop src offset n (tt + 2) ?f"
      using True tt(1) assms(4) by (subst WriteMem_loop.simps) auto
    have wf: "flash_wf ?f" using less.prems by (auto simp: flash_wf_def)
    from less.hyps [OF tt(3) wf tt(2)] obtain f' where
      f': "WriteMem_loop src offset n (tt + 2) ?f = Inr ((), f')" "DecodedMem f' = DecodedMem ?f"
      "flash_size f' = flash_size ?f" "rww_lock f' = rww_lock ?f"
      "\<And>a. a < flash_size ?f \<Longrightarrow> myMemory f' ! a =
         (if offset + (tt + 2) \<le> a \<and> a < offset + n then swapped src (a - offset) else myMemory ?f ! a)"
      by blast
    have "myMemory f' ! a =
        (if offset + tt \<le> a \<and> a < offset + n then swapped src (a - offset) else myMemory f ! a)"
      if a: "a < flash_size f" for a
    proof -
      have sz: "flash_size ?f = flash_size f" by simp
      consider "a = offset + tt" | "a = offset + tt + 1" | "a < offset + tt \<or> offset + (tt + 2) \<le> a"
        by linarith
      then show ?thesis
        using f'(5) [unfolded sz, OF a] a tt(1) less.prems(2)
        by cases (auto simp: swapped_def nth_list_update)
    qed
    then show ?thesis using run f' by (auto split: if_splits)
  qed
qed

lemma word_at_eqI: "m ! a = m' ! a \<Longrightarrow> m ! (a + 1) = m' ! (a + 1) \<Longrightarrow> word_at m a = word_at m' a"
  by (simp add: word_at_def)

lemma WriteMem_run:
  assumes "flash_ok c f" "even offset" "even n" "n \<le> length src"
  shows "\<exists>f'. WriteMem c src offset n f = Inr ((), f') \<and> flash_ok c f' \<and> flashLoaded f' \<and>
    flash_size f' = flash_size f \<and> rww_lock f' = rww_lock f \<and>
    (\<forall>a < flash_size f. myMemory f' ! a =
       (if offset \<le> a \<and> a < offset + n then swapped src (a - offset) else myMemory f ! a))"
proof -
  have wf: "flash_wf f" using assms(1) by (simp add: flash_ok_def)
  from WriteMem_loop_run [OF wf assms(2-4), of 0] obtain f1 where
    f1: "WriteMem_loop src offset n 0 f = Inr ((), f1)" "DecodedMem f1 = DecodedMem f"
      "flash_size f1 = flash_size f" "rww_lock f1 = rww_lock f"
      "\<And>a. a < flash_size f \<Longrightarrow> myMemory f1 ! a =
        (if offset \<le> a \<and> a < offset + n then swapped src (a - offset) else myMemory f ! a)" by auto
  have wf1: "flash_wf f1" using wf f1 by (simp add: flash_wf_def)
  from Decode_range_run [OF wf1 assms(2), of c n] obtain f2 where
    f2: "Decode_range c offset n f1 = Inr ((), f2)" "flash_wf f2" "myMemory f2 = myMemory f1"
      "rww_lock f2 = rww_lock f1"
      "\<And>i. i < flash_size f1 div 2 \<Longrightarrow> cached c i f2 \<longleftrightarrow> cached c i f1 \<or> offset \<le> 2 * i \<and> 2 * i < offset + n"
    by blast
  have "cached c i f1" if "i < flash_size f div 2" "\<not> (offset \<le> 2 * i \<and> 2 * i < offset + n)" for i
  proof -
    have i: "2 * i < flash_size f" "2 * i + 1 < flash_size f"
      "\<not> (offset \<le> 2 * i + 1 \<and> 2 * i + 1 < offset + n)" using that assms(2,3) by (auto elim!: evenE)
    have "word_at (myMemory f1) (2 * i) = word_at (myMemory f) (2 * i)"
      using f1(5) [OF i(1)] f1(5) [OF i(2)] that(2) i(3) by (intro word_at_eqI) auto
    then show ?thesis using assms(1) that(1) f1(2) by (simp add: flash_ok_def cached_def)
  qed
  then have "\<forall>i < flash_size f div 2. cached c i f2" using f2(5) f1(3) by auto
  then have ok: "flash_ok c f2" using f2(2,3) f1(3) by (simp add: flash_ok_def)
  let ?g = "f2\<lparr>flashLoaded := True\<rparr>"
  have "WriteMem c src offset n f = Inr ((), ?g)" using f1(1) f2(1) by (simp add: WriteMem_def)
  moreover have "flash_ok c ?g" using ok by (simp add: flash_ok_def flash_wf_def cached_def)
  ultimately show ?thesis using f2(3,4) f1(3-5) by auto
qed

text \<open>
  C7. Writing program memory keeps the decoded instructions in step with the bytes: after
  \<open>WriteMem\<close> of an even number of bytes at an even address every word of the flash is decoded
  from what the flash now holds, the bytes are the source's with the two bytes of each word
  swapped, nothing outside of the range has changed, and what does not fit is dropped.
\<close>

theorem WriteMem_keeps_cache:
  assumes "flash_ok c f" "even offset" "even n" "n \<le> length src"
  shows "\<exists>f'. WriteMem c src offset n f = Inr ((), f') \<and> flash_ok c f' \<and> flashLoaded f' \<and>
    flash_size f' = flash_size f \<and> rww_lock f' = rww_lock f \<and>
    (\<forall>a < flash_size f. myMemory f' ! a =
       (if offset \<le> a \<and> a < offset + n then swapped src (a - offset) else myMemory f ! a))"
  using assms by (rule WriteMem_run)

lemma AvrFlash_ok: "even n \<Longrightarrow> \<exists>f. AvrFlash c n = Inr f \<and> flash_ok c f \<and> myMemory f = replicate n 0xff"
  using Decode_all_run [of "new_flash n" c] by (auto simp: AvrFlash_def new_flash_def flash_wf_def)

theorem WriteMem_keeps_cache_witness:
  "\<exists>f f'. AvrFlash default_flags 8 = Inr f \<and> flash_ok default_flags f \<and>
     WriteMem default_flags [0x0f, 0xe5] 2 2 f = Inr ((), f') \<and> flash_ok default_flags f' \<and>
     myMemory f' ! 2 = 0xe5 \<and> myMemory f' ! 3 = 0x0f \<and> myMemory f' ! 4 = 0xff"
proof -
  obtain f where f: "AvrFlash default_flags 8 = Inr f" "flash_ok default_flags f" "myMemory f = replicate 8 0xff"
    using AvrFlash_ok [of 8 default_flags] by auto
  show ?thesis
    using WriteMem_keeps_cache [OF f(2), of 2 2 "[0x0f, 0xe5]"] f by (auto simp: swapped_def)
qed

lemma GetInstruction_eq:
  assumes "flash_ok c f" "2 * pc + 1 < flash_size f"
  shows "GetInstruction pc f =
    (if 2 * pc < rww_lock f then Inl FlashLocked
     else Inr (lookup_opcode c (word_at (myMemory f) (2 * pc))))"
proof -
  have "pc < flash_size f div 2" using assms(2) by linarith
  then have "cached c pc f" "pc < length (DecodedMem f)"
    using assms by (auto simp: flash_ok_def flash_wf_def)
  then show ?thesis by (simp add: GetInstruction_def decoded_at_def cached_def IsRWWLock_def mult.commute)
qed

text \<open>
  An instruction fetch returns the decoding of the little-endian word stored at the program
  counter, for every word of a flash whose cache is right and that is not locked; a fetch from
  the locked read-while-write section is an error.
\<close>

theorem GetInstruction_correct:
  assumes "flash_ok c f" "2 * pc + 1 < flash_size f"
  shows "GetInstruction pc f =
    (if 2 * pc < rww_lock f then Inl FlashLocked
     else Inr (lookup_opcode c (word_at (myMemory f) (2 * pc))))"
  using assms by (rule GetInstruction_eq)

theorem GetInstruction_correct_witness:
  "\<exists>f. AvrFlash default_flags 4 = Inr f \<and> GetInstruction 1 f = Inr (lookup_opcode default_flags 0xffff)"
proof -
  obtain f where f: "AvrFlash default_flags 4 = Inr f" "flash_ok default_flags f" "myMemory f = replicate 4 0xff"
    and l: "rww_lock f = 0"
    using AvrFlash_ok [of 4 default_flags] Decode_range_run [of "new_flash 4" 0 default_flags 4]
    by (auto simp: AvrFlash_def Decode_all_def new_flash_def flash_wf_def)
  then show ?thesis using GetInstruction_correct [OF f(2), of 1] by (simp add: word_at_def)
qed

end
