(* ===== verification/Avr_FlashProg.thy ===== *)
theory Avr_FlashProg
  imports Avr_Flash
begin

text \<open>
  Self programming, \<^verbatim>\<open>src/src/flashprog.h\<close> and \<^verbatim>\<open>src/src/flashprog.cpp\<close>: the SPM engine
  (\<open>FlashProgramming\<close>), fuses (\<open>AvrFuses\<close>) and lock bits (\<open>AvrLockBits\<close>).

  The SPM engine is a state machine over \<open>action\<close>: writing SPMCR with SPMEN arms an operation
  for four CPU cycles (\<open>SPM_ACTION_PREPARE\<close>), an SPM instruction inside that window performs
  it, and erase and write then hold the CPU until \<open>timeout\<close> (\<open>SPM_ACTION_LOCKCPU\<close>). Its
  operations work on the pair of its own state and the flash; \<open>now\<close> is the simulation time.
\<close>

section \<open>The SPM engine\<close>

datatype spm_action = SPM_ACTION_NOOP | SPM_ACTION_PREPARE | SPM_ACTION_LOCKCPU | SPM_ACTION_WAIT

datatype spm_ops = SPM_OPS_NOOP | SPM_OPS_STOREBUFFER | SPM_OPS_WRITEBUFFER | SPM_OPS_ERASE
  | SPM_OPS_LOCKBITS | SPM_OPS_UNLOCKRWW | SPM_OPS_CLEARBUFFER | SPM_OPS_READSIG

record spm_state =
  pageSize :: nat
  nrww_addr :: nat
  spmcr_val :: byte
  spmcr_opr_bits :: byte
  spmcr_valid_bits :: byte
  opr_enable_count :: nat
  action :: spm_action
  spm_opr :: spm_ops
  timeout :: int
  tempBuffer :: "byte list"
  isATMega :: bool

definition SPM_TIMEOUT :: int where
  "SPM_TIMEOUT = 4000000"

definition ClearOperationBits :: "spm_state \<Rightarrow> spm_state" where
  "ClearOperationBits p = p\<lparr>spmcr_val := spmcr_val p AND NOT (spmcr_opr_bits p),
     action := SPM_ACTION_NOOP, spm_opr := SPM_OPS_NOOP\<rparr>"

definition Spm_SetRWWLock :: "nat \<Rightarrow> spm_state \<times> avr_flash \<Rightarrow> spm_state \<times> avr_flash" where
  "Spm_SetRWWLock addr = (\<lambda>(p, f).
     if \<not> isATMega p then (p, f)
     else if addr < nrww_addr p * 2 then
       (p\<lparr>spmcr_val := spmcr_val p OR 0x40\<rparr>, SetRWWLock (nrww_addr p * 2) f)
     else (p, f))"

definition Spm_Reset :: "spm_state \<Rightarrow> spm_state" where
  "Spm_Reset p = p\<lparr>spmcr_val := 0, opr_enable_count := 0, action := SPM_ACTION_NOOP,
     spm_opr := SPM_OPS_NOOP, timeout := 0\<rparr>"

text \<open>\<open>mode\<close>: bit 0 is \<open>SPM_MEGA_MODE\<close>, bit 1 is \<open>SPM_SIG_OPR\<close>.\<close>

definition FlashProgramming :: "nat \<Rightarrow> nat \<Rightarrow> byte \<Rightarrow> spm_state" where
  "FlashProgramming pgsz nrww mode =
     (let mega = (mode AND 1 = 1);
          opr = (if mode AND 2 = 2 then 0x1f OR 0x20 else 0x1f);
          valid = (if mega then opr OR 0x80 else opr)
      in Spm_Reset \<lparr>pageSize = pgsz, nrww_addr = nrww, spmcr_val = 0, spmcr_opr_bits = opr,
           spmcr_valid_bits = valid, opr_enable_count = 0, action = SPM_ACTION_NOOP,
           spm_opr = SPM_OPS_NOOP, timeout = 0, tempBuffer = replicate (pgsz * 2) 0xff,
           isATMega = mega\<rparr>)"

definition Spm_CpuCycle :: "int \<Rightarrow> spm_state \<Rightarrow> nat \<times> spm_state" where
  "Spm_CpuCycle now p =
     (let p1 = (if opr_enable_count p > 0 then
                  (let q = p\<lparr>opr_enable_count := opr_enable_count p - 1\<rparr>
                   in if opr_enable_count q = 0 then ClearOperationBits q else q)
                else p)
      in if action p1 = SPM_ACTION_LOCKCPU then
           (if now < timeout p1 then (1, p1) else (0, ClearOperationBits p1))
         else (0, p1))"

definition page_addr :: "nat \<Rightarrow> word32 \<Rightarrow> word32" where
  "page_addr pgsz addr = addr AND NOT (word_of_nat (pgsz * 2) - 1)"

definition buffer_offset :: "nat \<Rightarrow> word32 \<Rightarrow> nat" where
  "buffer_offset pgsz addr = unat ((addr AND 0xfffe) AND (word_of_nat (pgsz * 2) - 1))"

definition Spm_WritePage :: "core_flags \<Rightarrow> int \<Rightarrow> word32 \<Rightarrow> (spm_state \<times> avr_flash, int) sim" where
  "Spm_WritePage c now addr =
     bnd (gets fst) (\<lambda>p.
     let a = unat (page_addr (pageSize p) addr) in
     sq (zoom snd (\<lambda>f (p, _). (p, f)) (WriteMem c (tempBuffer p) a (pageSize p * 2)))
     (sq (modify (\<lambda>(p, f). (p\<lparr>timeout := now + SPM_TIMEOUT, action := SPM_ACTION_LOCKCPU\<rparr>, f)))
     (sq (modify (Spm_SetRWWLock a))
     (ret 0))))"

definition SPM_action ::
  "core_flags \<Rightarrow> int \<Rightarrow> nat \<Rightarrow> word32 \<Rightarrow> word32 \<Rightarrow> word32 \<Rightarrow> (spm_state \<times> avr_flash, int) sim" where
  "SPM_action c now pc data xaddr addr0 =
     bnd (gets fst) (\<lambda>p.
     if pc < nrww_addr p then ret 0
     else let addr = (addr0 AND 0xffff) + push_bit 16 xaddr in
     if action p = SPM_ACTION_PREPARE then
       sq (modify (\<lambda>(p, f). (p\<lparr>opr_enable_count := 0\<rparr>, f)))
       (if spm_opr p = SPM_OPS_UNLOCKRWW then
          sq (modify (\<lambda>(p, f). (let q = ClearOperationBits p in q\<lparr>spmcr_val := spmcr_val q AND NOT 0x40\<rparr>,
                                SetRWWLock 0 f)))
          (ret 0)
        else if spm_opr p = SPM_OPS_STOREBUFFER then
          (let a = buffer_offset (pageSize p) addr in
           if a + 1 < length (tempBuffer p) then
             sq (modify (\<lambda>(p, f). (ClearOperationBits (p\<lparr>tempBuffer :=
                   (tempBuffer p)[a := ucast (data AND 0xff), a + 1 := ucast (drop_bit 8 data AND 0xff)]\<rparr>), f)))
             (ret 2)
           else fail UndefinedBehaviour)
        else if spm_opr p = SPM_OPS_WRITEBUFFER then Spm_WritePage c now addr
        else if spm_opr p = SPM_OPS_ERASE then
          sq (modify (\<lambda>(p, f). (p\<lparr>tempBuffer := replicate (pageSize p * 2) 0xff\<rparr>, f)))
          (Spm_WritePage c now addr)
        else sq (modify (\<lambda>(p, f). (ClearOperationBits p, f))) (ret 0))
     else ret 0)"

definition spm_operation :: "bool \<Rightarrow> byte \<Rightarrow> spm_ops option" where
  "spm_operation mega v =
     (if v = 0x1 then Some SPM_OPS_STOREBUFFER
      else if v = 0x3 then Some SPM_OPS_ERASE
      else if v = 0x5 then Some SPM_OPS_WRITEBUFFER
      else if v = 0x9 then Some SPM_OPS_LOCKBITS
      else if v = 0x11 then Some (if mega then SPM_OPS_UNLOCKRWW else SPM_OPS_CLEARBUFFER)
      else if v = 0x21 then Some SPM_OPS_READSIG
      else None)"

definition SetSpmcr :: "byte \<Rightarrow> spm_state \<Rightarrow> spm_state" where
  "SetSpmcr v p0 =
     (let p = p0\<lparr>spmcr_val := (spmcr_val p0 AND NOT (spmcr_valid_bits p0)) + (v AND spmcr_valid_bits p0)\<rparr>
      in if action p = SPM_ACTION_NOOP then
           (case spm_operation (isATMega p) (spmcr_val p AND spmcr_opr_bits p) of
              Some opr \<Rightarrow> p\<lparr>opr_enable_count := 4, action := SPM_ACTION_PREPARE, spm_opr := opr\<rparr>
            | None \<Rightarrow>
                if spmcr_val p AND 0x1 = 0
                then p\<lparr>spm_opr := SPM_OPS_NOOP, opr_enable_count := 0, action := SPM_ACTION_NOOP\<rparr>
                else p\<lparr>spm_opr := SPM_OPS_NOOP, opr_enable_count := 4, action := SPM_ACTION_PREPARE\<rparr>)
         else p)"

section \<open>Fuses and lock bits\<close>

record avr_fuses =
  fuseBitsSize :: int
  fuseBits :: nat
  nrwwAddr :: nat
  nrwwSize :: nat
  bitPosBOOTSZ :: int
  bitPosBOOTRST :: int
  flagBOOTRST :: bool
  valueBOOTSZ :: nat

definition AvrFuses :: avr_fuses where
  "AvrFuses = \<lparr>fuseBitsSize = 2, fuseBits = 0xfffffffd, nrwwAddr = 0, nrwwSize = 0,
     bitPosBOOTSZ = - 1, bitPosBOOTRST = - 1, flagBOOTRST = True, valueBOOTSZ = 0\<rparr>"

definition SetFuseConfiguration :: "int \<Rightarrow> nat \<Rightarrow> avr_fuses \<Rightarrow> avr_fuses" where
  "SetFuseConfiguration sz defvalue u = u\<lparr>fuseBitsSize := sz, fuseBits := defvalue\<rparr>"

text \<open>The loop of \<open>LoadFuses\<close> from the last byte to the first.\<close>

definition fuse_value :: "byte list \<Rightarrow> nat" where
  "fuse_value buffer = foldr (\<lambda>b acc. push_bit 8 acc OR unat b) buffer 0"

definition LoadFuses :: "byte list \<Rightarrow> avr_fuses \<Rightarrow> bool \<times> avr_fuses" where
  "LoadFuses buffer u =
     (if (fuseBitsSize u - 1) div 8 + 1 \<noteq> int (length buffer) then (False, u)
      else let bits = fuse_value buffer;
               u1 = u\<lparr>fuseBits := bits\<rparr>;
               u2 = (if bitPosBOOTRST u \<noteq> - 1 \<and> bitPosBOOTRST u < fuseBitsSize u
                     then u1\<lparr>flagBOOTRST := (drop_bit (nat (bitPosBOOTRST u)) bits AND 1 = 1)\<rparr> else u1);
               u3 = (if bitPosBOOTSZ u \<noteq> - 1 \<and> bitPosBOOTSZ u < fuseBitsSize u
                     then u2\<lparr>valueBOOTSZ := drop_bit (nat (bitPosBOOTSZ u)) bits AND 3\<rparr> else u2)
           in (True, u3))"

definition GetFuseByte :: "nat \<Rightarrow> avr_fuses \<Rightarrow> byte" where
  "GetFuseByte index u = word_of_nat (drop_bit (index * 8) (fuseBits u) AND 0xff)"

definition GetFuseBit :: "nat \<Rightarrow> avr_fuses \<Rightarrow> bool" where
  "GetFuseBit index u = (drop_bit index (fuseBits u) AND 1 = 0)"

definition GetFuseByteSize :: "avr_fuses \<Rightarrow> int" where
  "GetFuseByteSize u = fuseBitsSize u div 8 + 1"

definition SetBootloaderConfig :: "nat \<Rightarrow> nat \<Rightarrow> int \<Rightarrow> int \<Rightarrow> avr_fuses \<Rightarrow> avr_fuses" where
  "SetBootloaderConfig addr sz bPosBOOTSZ bPosBOOTRST u =
     u\<lparr>nrwwAddr := addr, nrwwSize := sz, bitPosBOOTSZ := bPosBOOTSZ, bitPosBOOTRST := bPosBOOTRST\<rparr>"

definition GetBLSStart :: "avr_fuses \<Rightarrow> nat" where
  "GetBLSStart u =
     (let addr = nrwwAddr u; sz = nrwwSize u in
      if addr = 0 then 0
      else if valueBOOTSZ u = 0 then addr
      else let size1 = drop_bit 1 sz; addr1 = addr + size1 in
      if valueBOOTSZ u = 1 then addr1
      else let size2 = drop_bit 1 size1; addr2 = addr1 + size2 in
      if valueBOOTSZ u = 2 then addr2
      else addr2 + drop_bit 1 size2)"

definition GetResetAddr :: "avr_fuses \<Rightarrow> nat" where
  "GetResetAddr u = (if flagBOOTRST u then 0 else GetBLSStart u)"

record avr_lockbits =
  lockBitsSize :: nat
  lockBits :: byte

definition AvrLockBits :: avr_lockbits where
  "AvrLockBits = \<lparr>lockBitsSize = 2, lockBits = 0xff\<rparr>"

definition SetLockBitsConfiguration :: "nat \<Rightarrow> avr_lockbits \<Rightarrow> avr_lockbits" where
  "SetLockBitsConfiguration sz l = l\<lparr>lockBitsSize := sz\<rparr>"

definition LoadLockBits :: "byte list \<Rightarrow> avr_lockbits \<Rightarrow> bool \<times> avr_lockbits" where
  "LoadLockBits buffer l =
     (if length buffer \<noteq> 1 then (False, l) else (True, l\<lparr>lockBits := buffer ! 0\<rparr>))"

definition SetLockBits :: "byte \<Rightarrow> avr_lockbits \<Rightarrow> avr_lockbits" where
  "SetLockBits bits l =
     l\<lparr>lockBits := (lockBits l AND bits) OR NOT (push_bit (lockBitsSize l) 1 - 1)\<rparr>"

section \<open>The four cycle window\<close>

definition spm_tick :: "int \<Rightarrow> spm_state \<Rightarrow> spm_state" where
  "spm_tick now p = snd (Spm_CpuCycle now p)"

lemma spm_tick_counting:
  "action p = SPM_ACTION_PREPARE \<Longrightarrow> 1 < opr_enable_count p \<Longrightarrow>
   spm_tick now p = p\<lparr>opr_enable_count := opr_enable_count p - 1\<rparr>"
  by (simp add: spm_tick_def Spm_CpuCycle_def Let_def)

lemma spm_tick_last:
  "opr_enable_count p = 1 \<Longrightarrow>
   spm_tick now p = ClearOperationBits (p\<lparr>opr_enable_count := 0\<rparr>)"
  by (simp add: spm_tick_def Spm_CpuCycle_def Let_def ClearOperationBits_def)

lemma SetSpmcr_arms:
  assumes "action p = SPM_ACTION_NOOP"
    and "spm_operation (isATMega p) (spmcr_val (SetSpmcr v p) AND spmcr_opr_bits p) = Some opr"
  shows "opr_enable_count (SetSpmcr v p) = 4 \<and> action (SetSpmcr v p) = SPM_ACTION_PREPARE \<and>
    spm_opr (SetSpmcr v p) = opr \<and> spmcr_opr_bits (SetSpmcr v p) = spmcr_opr_bits p"
  using assms by (auto simp: SetSpmcr_def Let_def split: option.splits if_splits)

lemma spm_ticks:
  assumes "action q = SPM_ACTION_PREPARE" "k < opr_enable_count q"
  shows "(spm_tick now ^^ k) q = q\<lparr>opr_enable_count := opr_enable_count q - k\<rparr>"
  using assms(2) by (induction k) (simp_all add: spm_tick_counting assms(1))

text \<open>
  C14. Writing SPMCR arms the SPM engine for exactly four CPU cycles: for the first three
  the selected operation stays prepared, with the fourth it is dropped and the operation bits
  of SPMCR read as zero again, so that a later SPM does nothing.
\<close>

theorem SPM_window:
  assumes "action p = SPM_ACTION_NOOP"
    and "spm_operation (isATMega p) (spmcr_val (SetSpmcr v p) AND spmcr_opr_bits p) = Some opr"
  shows "(\<forall>k < 4. action ((spm_tick now ^^ k) (SetSpmcr v p)) = SPM_ACTION_PREPARE \<and>
      spm_opr ((spm_tick now ^^ k) (SetSpmcr v p)) = opr) \<and>
    action ((spm_tick now ^^ 4) (SetSpmcr v p)) = SPM_ACTION_NOOP \<and>
    spmcr_val ((spm_tick now ^^ 4) (SetSpmcr v p)) AND spmcr_opr_bits p = 0"
proof -
  let ?q = "SetSpmcr v p"
  have q: "opr_enable_count ?q = 4" "action ?q = SPM_ACTION_PREPARE" "spm_opr ?q = opr"
    "spmcr_opr_bits ?q = spmcr_opr_bits p" using SetSpmcr_arms [OF assms] by auto
  have "(spm_tick now ^^ 4) ?q = spm_tick now ((spm_tick now ^^ 3) ?q)" by (simp add: numeral_eq_Suc)
  also have "\<dots> = ClearOperationBits (?q\<lparr>opr_enable_count := 0\<rparr>)"
    using spm_ticks [of ?q 3 now] q by (simp add: spm_tick_last)
  finally have "(spm_tick now ^^ 4) ?q = ClearOperationBits (?q\<lparr>opr_enable_count := 0\<rparr>)" .
  then show ?thesis using spm_ticks [of ?q _ now] q
    by (auto simp: ClearOperationBits_def bit_eq_iff bit_simps)
qed

theorem SPM_window_witness:
  "let p = FlashProgramming 64 0x1800 3 in
     action p = SPM_ACTION_NOOP \<and>
     spm_operation (isATMega p) (spmcr_val (SetSpmcr 5 p) AND spmcr_opr_bits p) = Some SPM_OPS_WRITEBUFFER \<and>
     action ((spm_tick 0 ^^ 4) (SetSpmcr 5 p)) = SPM_ACTION_NOOP"
proof -
  let ?p = "FlashProgramming 64 0x1800 3"
  have "action ?p = SPM_ACTION_NOOP"
    "spm_operation (isATMega ?p) (spmcr_val (SetSpmcr 5 ?p) AND spmcr_opr_bits ?p) = Some SPM_OPS_WRITEBUFFER"
    by (simp_all add: FlashProgramming_def Spm_Reset_def SetSpmcr_def spm_operation_def Let_def)
  then show ?thesis using SPM_window [of ?p 5 SPM_OPS_WRITEBUFFER 0] by (simp add: Let_def)
qed

section \<open>Page writes\<close>

definition spm_ok :: "spm_state \<Rightarrow> bool" where
  "spm_ok p \<longleftrightarrow> length (tempBuffer p) = pageSize p * 2 \<and> 0 < pageSize p \<and> pageSize p * 2 < 2 ^ 32"

lemma bit_page_mask: "0 < n \<Longrightarrow> n * 2 < 2 ^ 32 \<Longrightarrow> bit (word_of_nat (n * 2) - 1 :: word32) 0"
  by (simp add: bit_0)

lemma page_addr_even: "0 < n \<Longrightarrow> n * 2 < 2 ^ 32 \<Longrightarrow> even (unat (page_addr n addr))"
proof -
  assume "0 < n" "n * 2 < 2 ^ 32"
  then have "\<not> bit (page_addr n addr) 0" using bit_page_mask [of n] by (simp add: page_addr_def bit_simps)
  then show ?thesis by (simp add: bit_unat_iff)
qed

lemma Spm_WritePage_run:
  assumes "flash_ok c f" "spm_ok p"
  shows "\<exists>p' f'. Spm_WritePage c now addr (p, f) = Inr (0, (p', f')) \<and> flash_ok c f' \<and>
    action p' = SPM_ACTION_LOCKCPU \<and> timeout p' = now + SPM_TIMEOUT \<and> flash_size f' = flash_size f \<and>
    (\<forall>a < flash_size f. myMemory f' ! a =
       (let page = unat (page_addr (pageSize p) addr) in
        if page \<le> a \<and> a < page + pageSize p * 2 then swapped (tempBuffer p) (a - page) else myMemory f ! a)) \<and>
    rww_lock f' = (if isATMega p \<and> unat (page_addr (pageSize p) addr) < nrww_addr p * 2
                   then nrww_addr p * 2 else rww_lock f)"
proof -
  let ?a = "unat (page_addr (pageSize p) addr)"
  have "even ?a" "even (pageSize p * 2)" "pageSize p * 2 \<le> length (tempBuffer p)"
    using assms(2) page_addr_even [of "pageSize p" addr] by (auto simp: spm_ok_def)
  from WriteMem_run [OF assms(1) this] obtain f' where
    f': "WriteMem c (tempBuffer p) ?a (pageSize p * 2) f = Inr ((), f')" "flash_ok c f'"
      "flash_size f' = flash_size f" "rww_lock f' = rww_lock f"
      "\<forall>a < flash_size f. myMemory f' ! a =
        (if ?a \<le> a \<and> a < ?a + pageSize p * 2 then swapped (tempBuffer p) (a - ?a) else myMemory f ! a)"
    by blast
  have lock: "flash_ok c (SetRWWLock n f') = flash_ok c f'" for n
    by (simp add: flash_ok_def flash_wf_def cached_def SetRWWLock_def)
  show ?thesis
    using f' lock [of "nrww_addr p * 2"]
    by (simp add: Spm_WritePage_def Spm_SetRWWLock_def Let_def SetRWWLock_def)
qed

text \<open>
  C13. An SPM page write executed from the non-RWW section while it is armed copies the
  temporary buffer to the addressed page (low byte first in each word) and nothing else, keeps
  the decoded instructions right, halts the CPU for the programming time, and locks the RWW
  section if the page lies in it.
\<close>

theorem SPM_page_write:
  assumes "flash_ok c f" "spm_ok p" "action p = SPM_ACTION_PREPARE" "spm_opr p = SPM_OPS_WRITEBUFFER"
    and "nrww_addr p \<le> pc"
  shows "\<exists>p' f'. SPM_action c now pc data xaddr addr (p, f) = Inr (0, (p', f')) \<and> flash_ok c f' \<and>
    action p' = SPM_ACTION_LOCKCPU \<and> timeout p' = now + SPM_TIMEOUT \<and> flash_size f' = flash_size f \<and>
    (\<forall>a < flash_size f. myMemory f' ! a =
       (let page = unat (page_addr (pageSize p) ((addr AND 0xffff) + push_bit 16 xaddr)) in
        if page \<le> a \<and> a < page + pageSize p * 2 then swapped (tempBuffer p) (a - page) else myMemory f ! a)) \<and>
    rww_lock f' = (if isATMega p \<and>
        unat (page_addr (pageSize p) ((addr AND 0xffff) + push_bit 16 xaddr)) < nrww_addr p * 2
      then nrww_addr p * 2 else rww_lock f)"
proof -
  have "spm_ok (p\<lparr>opr_enable_count := 0\<rparr>)" using assms(2) by (simp add: spm_ok_def)
  moreover have "SPM_action c now pc data xaddr addr (p, f) =
      Spm_WritePage c now ((addr AND 0xffff) + push_bit 16 xaddr) (p\<lparr>opr_enable_count := 0\<rparr>, f)"
    using assms(3-5) by (simp add: SPM_action_def)
  ultimately show ?thesis
    using Spm_WritePage_run [OF assms(1), of "p\<lparr>opr_enable_count := 0\<rparr>" now "(addr AND 0xffff) + push_bit 16 xaddr"]
    by (simp split del: if_split cong: if_cong)
qed

theorem SPM_page_write_witness:
  "\<exists>f p' f'. AvrFlash default_flags 256 = Inr f \<and>
     SPM_action default_flags 7 0 0 0 0x40 (SetSpmcr 5 (FlashProgramming 32 0 3), f) = Inr (0, (p', f')) \<and>
     flash_ok default_flags f' \<and> timeout p' = 4000007"
proof -
  obtain f where f: "AvrFlash default_flags 256 = Inr f" "flash_ok default_flags f"
    using AvrFlash_ok [of 256 default_flags] by auto
  have "spm_ok (SetSpmcr 5 (FlashProgramming 32 0 3))" "action (SetSpmcr 5 (FlashProgramming 32 0 3)) = SPM_ACTION_PREPARE"
    "spm_opr (SetSpmcr 5 (FlashProgramming 32 0 3)) = SPM_OPS_WRITEBUFFER"
    "nrww_addr (SetSpmcr 5 (FlashProgramming 32 0 3)) \<le> 0"
    by (simp_all add: spm_ok_def FlashProgramming_def Spm_Reset_def SetSpmcr_def spm_operation_def Let_def)
  from SPM_page_write [OF f(2) this, of 7 0 0 "0x40"] f(1) show ?thesis
    by (auto simp: SPM_TIMEOUT_def)
qed

section \<open>Fuses and lock bits\<close>

lemma fuse_value_byte:
  "i < length buffer \<Longrightarrow> word_of_nat (drop_bit (i * 8) (fuse_value buffer) AND 0xff) = buffer ! i"
proof (induction buffer arbitrary: i)
  case (Cons b buffer)
  have f: "fuse_value (b # buffer) = push_bit 8 (fuse_value buffer) OR unat b"
    by (simp add: fuse_value_def)
  have ff: "(n :: nat) AND 0xff = take_bit 8 n" for n
    by (simp add: take_bit_eq_mask mask_eq_exp_minus_1)
  show ?case
  proof (cases i)
    case 0
    have "take_bit 8 (push_bit 8 (fuse_value buffer) OR unat b) = unat b"
      by (rule bit_eqI) (auto simp: bit_simps dest: bit_imp_le_length)
    then show ?thesis using 0 by (simp add: f ff)
  next
    case (Suc j)
    have "drop_bit 8 (push_bit 8 (fuse_value buffer) OR unat b) = fuse_value buffer"
      by (rule bit_eqI) (auto simp: bit_simps dest: bit_imp_le_length)
    moreover have "drop_bit (i * 8) (fuse_value (b # buffer)) = drop_bit (j * 8) (drop_bit 8 (fuse_value (b # buffer)))"
      by (simp only: drop_bit_drop_bit Suc mult_Suc add.commute)
    ultimately have "drop_bit (i * 8) (fuse_value (b # buffer)) = drop_bit (j * 8) (fuse_value buffer)"
      by (simp only: f)
    then show ?thesis using Cons Suc by simp
  qed
qed simp

text \<open>
  Fuse bytes loaded from an image are the bytes read back, and an image of the wrong
  size is refused and changes nothing.
\<close>

theorem LoadFuses_roundtrip:
  "if (fuseBitsSize u - 1) div 8 + 1 = int (length buffer)
   then fst (LoadFuses buffer u) \<and> (\<forall>i < length buffer. GetFuseByte i (snd (LoadFuses buffer u)) = buffer ! i)
   else LoadFuses buffer u = (False, u)"
  using fuse_value_byte [of _ buffer] by (auto simp: LoadFuses_def GetFuseByte_def Let_def)

theorem LoadFuses_roundtrip_witness:
  "let u = snd (LoadFuses [0x62, 0xdf] (SetFuseConfiguration 16 0xffff AvrFuses))
   in GetFuseByte 0 u = 0x62 \<and> GetFuseByte 1 u = 0xdf"
proof -
  have "(fuseBitsSize (SetFuseConfiguration 16 0xffff AvrFuses) - 1) div 8 + 1 = int (length [0x62, 0xdf :: byte])"
    by (simp add: SetFuseConfiguration_def)
  then show ?thesis
    using LoadFuses_roundtrip [of "SetFuseConfiguration 16 0xffff AvrFuses" "[0x62, 0xdf]"]
    by (auto simp: Let_def dest: spec [of _ 0] spec [of _ 1])
qed

lemma lockbits_only_cleared:
  "bit (lockBits (SetLockBits bits l)) n \<Longrightarrow> n < lockBitsSize l \<Longrightarrow> lockBitsSize l \<le> 8 \<Longrightarrow>
   bit (lockBits l) n \<and> bit bits n"
  by (auto simp: SetLockBits_def bit_simps simp flip: mask_eq_exp_minus_1)

end
