(* ===== verification/Avr_Device.thy ===== *)
theory Avr_Device
  imports Avr_Alu Avr_Irq Avr_FlashProg
begin

text \<open>
  The device: \<^verbatim>\<open>src/src/avrdevice.h\<close>, \<^verbatim>\<open>avrdevice.cpp\<close> (state and memory access),
  \<^verbatim>\<open>rwmem.cpp\<close> (memory cells), \<^verbatim>\<open>hwstack.cpp\<close> (stacks and thread detection),
  \<^verbatim>\<open>ioregs.h\<close>, \<^verbatim>\<open>hwwado.cpp\<close>, and \<open>GetNewPc\<close> of \<^verbatim>\<open>irqsystem.cpp\<close>.

  \<^item> \<open>avr_device\<close> has the members of \<open>AvrDevice\<close> that instructions can see. \<open>rw\<close> maps each data
    address to its cell; a cell is a value of \<open>rwcell\<close>, one constructor per class derived from
    \<open>RWMemoryMember\<close>, with the byte it stores if it stores one. Registers that belong to a
    component (SREG, SPL, SPH, RAMPZ, EIND, SPMCR, WDTCR) refer to its state.
  \<^item> Virtual methods of peripherals that are not part of the core are the record \<open>hardware\<close>:
    \<open>IOCell n\<close> and \<open>HwOther n\<close> are dispatched to it. Peripherals keep their state in \<open>hw\<close>
    and may change the whole device, as they can in the source.
  \<^item> \<open>sysTime\<close> is \<open>SystemClock::Instance().GetCurrentTime()\<close> and \<open>stopRequested\<close> is set by
    \<open>SystemClock::Instance().Stop()\<close>. Tracing (\<open>trace_on\<close>, \<open>TraceValue\<close>, \<open>dumpManager\<close>) and
    warnings are left out: they change none of this state.
\<close>

section \<open>State\<close>

datatype hwid = HwWado | HwSpm | HwRampz | HwEind | HwReg nat | HwOther nat

datatype rwcell =
    RAM byte
  | InvalidMem
  | NotSimulatedRegister
  | GPIORegister byte
  | XDIVRegister byte
  | OSCCALRegister nat byte   \<comment> \<open>\<open>cal_type\<close>, \<open>value\<close>\<close>
  | RWSregCell
  | SphReg
  | SplReg
  | RampzReg
  | EindReg
  | SpmcrReg
  | WdtcrReg
  | IOCell nat

record ext_register =
  reg_val :: byte
  reg_mask :: byte

record wado_state =
  wdtcr :: byte
  cntWde :: byte
  timeOutAt :: int

record thread =
  m_sp :: int
  m_ip :: int
  m_alive :: bool
  registers :: "byte list option"

datatype switch_phase = eNormal | eReaded | eWritten | eWritten2

record thread_list =
  m_threads :: "thread list"
  m_phase_of_switch :: switch_phase
  m_last_SP_read :: int
  m_last_SP_writen :: int
  m_on_call_sp :: "int option"
  m_on_call_ip :: int
  m_cur_thread :: nat

text \<open>
  The two kinds of stack: in data memory with \<open>stackCeil\<close> and \<open>initRAMEND\<close>, or three levels
  of return addresses.
\<close>

datatype stack_kind = HWStackSram nat bool | ThreeLevelStack nat nat nat

record hwstack =
  stackPointer :: word32
  lowestStackPointer :: word32
  returnPointList :: "(nat \<times> nat) list"
  kind :: stack_kind

record dev_config =
  flags :: core_flags
  ioSpaceSize :: nat
  iRamSize :: nat
  eRamSize :: nat
  clockFreq :: int
  abortOnInvalidAccess :: bool

record 'h avr_device =
  PC :: word16
  cPC :: word16
  PC_size :: int
  cpuCycles :: int
  conf :: dev_config
  rw :: "nat \<Rightarrow> rwcell"
  status :: hwsreg
  flash :: avr_flash
  stack :: hwstack
  threads :: thread_list
  irq :: "hwid irq_system"
  rampz :: "ext_register option"
  eind :: "ext_register option"
  spmRegister :: "spm_state option"
  wado :: "wado_state option"
  deferIrq :: bool
  newIrqPc :: word32
  actualIrqVector :: nat
  recentJumps :: "int list"
  recentJumpsIndex :: nat
  hwResetList :: "hwid list"
  hwCycleList :: "hwid list"
  BP :: "nat list"
  EP :: "nat list"
  sysTime :: int
  stopRequested :: bool
  hw :: 'h

record 'h hardware =
  hw_CpuCycle :: "nat \<Rightarrow> ('h avr_device, nat) sim"
  hw_Reset :: "nat \<Rightarrow> ('h avr_device, unit) sim"
  hw_ClearIrqFlag :: "nat \<Rightarrow> nat \<Rightarrow> ('h avr_device, unit) sim"
  hw_IsLevelInterrupt :: "nat \<Rightarrow> nat \<Rightarrow> ('h avr_device, bool) sim"
  hw_LevelInterruptPending :: "nat \<Rightarrow> nat \<Rightarrow> ('h avr_device, bool) sim"
  cell_get :: "nat \<Rightarrow> ('h avr_device, byte) sim"
  cell_set :: "nat \<Rightarrow> byte \<Rightarrow> ('h avr_device, unit) sim"

definition registerSpaceSize :: nat where
  "registerSpaceSize = 32"

definition totalIoSpace :: nat where
  "totalIoSpace = 0x10000"

abbreviation upd_status :: "(hwsreg \<Rightarrow> hwsreg) \<Rightarrow> ('h avr_device, unit) sim" where
  "upd_status f \<equiv> modify (\<lambda>d. d\<lparr>status := f (status d)\<rparr>)"

abbreviation on_irq :: "(hwid irq_system, 'a) sim \<Rightarrow> ('h avr_device, 'a) sim" where
  "on_irq \<equiv> zoom irq (\<lambda>q d. d\<lparr>irq := q\<rparr>)"

section \<open>Lists of parts\<close>

definition AddToResetList :: "hwid \<Rightarrow> 'h avr_device \<Rightarrow> 'h avr_device" where
  "AddToResetList p d = (if p \<in> set (hwResetList d) then d else d\<lparr>hwResetList := hwResetList d @ [p]\<rparr>)"

definition AddToCycleList :: "hwid \<Rightarrow> 'h avr_device \<Rightarrow> 'h avr_device" where
  "AddToCycleList p d = (if p \<in> set (hwCycleList d) then d else d\<lparr>hwCycleList := hwCycleList d @ [p]\<rparr>)"

definition RemoveFromCycleList :: "hwid \<Rightarrow> 'h avr_device \<Rightarrow> 'h avr_device" where
  "RemoveFromCycleList p d = d\<lparr>hwCycleList := remove1 p (hwCycleList d)\<rparr>"

definition DeleteAllBreakpoints :: "'h avr_device \<Rightarrow> 'h avr_device" where
  "DeleteAllBreakpoints d = d\<lparr>BP := []\<rparr>"

section \<open>Thread detection\<close>

definition ThreadList :: thread_list where
  "ThreadList = \<lparr>m_threads = [\<lparr>m_sp = 0, m_ip = 0, m_alive = True, registers = None\<rparr>],
     m_phase_of_switch = eNormal, m_last_SP_read = 0, m_last_SP_writen = 0, m_on_call_sp = None,
     m_on_call_ip = 0, m_cur_thread = 0\<rparr>"

definition upd_threads :: "(thread_list \<Rightarrow> thread_list) \<Rightarrow> ('h avr_device, unit) sim" where
  "upd_threads f = modify (\<lambda>d. d\<lparr>threads := f (threads d)\<rparr>)"

definition OnSPRead :: "int \<Rightarrow> ('h avr_device, unit) sim" where
  "OnSPRead SP_value =
     sq (assertM (0 \<le> SP_value \<and> SP_value \<le> 0xFFFF))
     (sq (assertM (SP_value \<noteq> 0))
     (upd_threads (\<lambda>t. t\<lparr>m_phase_of_switch := eReaded, m_last_SP_read := SP_value\<rparr>)))"

definition OnSPWrite :: "int \<Rightarrow> ('h avr_device, unit) sim" where
  "OnSPWrite new_SP =
     bnd (asks (\<lambda>d. LooksLikeContextSwitch (unat (PC d) * 2) (flash d))) (\<lambda>sw.
     if \<not> sw then ret ()
     else upd_threads (\<lambda>t. t\<lparr>m_phase_of_switch :=
            (if m_phase_of_switch t = eWritten then eWritten2 else eWritten), m_last_SP_writen := new_SP\<rparr>))"

definition OnPush :: "('h avr_device, unit) sim" where
  "OnPush = upd_threads (\<lambda>t. t\<lparr>m_phase_of_switch := eNormal, m_last_SP_read := 0, m_last_SP_writen := 0\<rparr>)"

fun GetThreadBySP :: "int \<Rightarrow> thread list \<Rightarrow> nat option" where
  "GetThreadBySP sp [] = None"
| "GetThreadBySP sp (p # ps) = (if m_sp p = sp then Some 0 else map_option Suc (GetThreadBySP sp ps))"

text \<open>The switch itself, once \<open>OnPop\<close> has recognised it.\<close>

definition switch_thread :: "int \<Rightarrow> thread_list \<Rightarrow> thread_list" where
  "switch_thread call_sp t =
     (let old = (m_threads t ! m_cur_thread t)\<lparr>m_sp := call_sp, m_ip := m_on_call_ip t, m_alive := True\<rparr>;
          ths = (m_threads t)[m_cur_thread t := old];
          (n, ths') = (case GetThreadBySP (m_last_SP_writen t) ths of
             Some n \<Rightarrow> (n, ths)
           | None \<Rightarrow> (length ths, ths @ [\<lparr>m_sp = 0, m_ip = 0, m_alive = True, registers = None\<rparr>]))
      in t\<lparr>m_phase_of_switch := eNormal,
           m_threads := ths'[n := (ths' ! n)\<lparr>m_sp := 0, m_ip := 0, m_alive := True\<rparr>],
           m_cur_thread := n\<rparr>)"

definition OnPop :: "('h avr_device, unit) sim" where
  "OnPop =
     bnd (gets threads) (\<lambda>t.
     if m_phase_of_switch t \<noteq> eWritten2 then OnPush
     else sq (assertM (m_cur_thread t < length (m_threads t)))
       (case m_on_call_sp t of
          None \<Rightarrow> fail UndefinedBehaviour
        | Some sp \<Rightarrow> sq (assertM (sp \<noteq> 0)) (upd_threads (switch_thread sp))))"

section \<open>Return points\<close>

text \<open>
  The only functor ever registered calls \<open>HWIrqSystem::IrqHandlerFinished\<close>; it is represented by
  its vector.
\<close>

definition CheckReturnPoints :: "('h avr_device, unit) sim" where
  "CheckReturnPoints =
     bnd (gets (\<lambda>d. (unat (stackPointer (stack d)), returnPointList (stack d), sysTime d))) (\<lambda>(sp, l, now).
     sq (forS (\<lambda>(k, v). on_irq (IrqHandlerFinished now v)) (filter (\<lambda>(k, v). k = sp) l))
     (modify (\<lambda>d. d\<lparr>stack := (stack d)\<lparr>returnPointList := filter (\<lambda>(k, v). k \<noteq> sp) l\<rparr>\<rparr>)))"

definition SetReturnPoint :: "nat \<Rightarrow> nat \<Rightarrow> 'h avr_device \<Rightarrow> 'h avr_device" where
  "SetReturnPoint sp vector d =
     d\<lparr>stack := (stack d)\<lparr>returnPointList := returnPointList (stack d) @ [(sp, vector)]\<rparr>\<rparr>"

section \<open>The stack pointer registers\<close>

definition upd_sp :: "(word32 \<Rightarrow> word32) \<Rightarrow> 'h avr_device \<Rightarrow> 'h avr_device" where
  "upd_sp f d = d\<lparr>stack := (stack d)\<lparr>stackPointer := f (stackPointer (stack d))\<rparr>\<rparr>"

text \<open>\<open>stackPointer %= stackCeil\<close>; the ceiling is at least 1.\<close>

definition mod_ceil :: "nat \<Rightarrow> word32 \<Rightarrow> word32" where
  "mod_ceil ceil sp = word_of_nat (unat sp mod ceil)"

definition stackCeil :: "'h avr_device \<Rightarrow> nat" where
  "stackCeil d = (case kind (stack d) of HWStackSram c b \<Rightarrow> c | ThreeLevelStack a b c \<Rightarrow> 0)"

definition set_sp_part :: "word32 \<Rightarrow> word32 \<Rightarrow> ('h avr_device, unit) sim" where
  "set_sp_part m v =
     bnd (gets (\<lambda>d. (stackPointer (stack d), stackCeil d))) (\<lambda>(oldSP, ceil).
     sq (modify (upd_sp (\<lambda>sp. mod_ceil ceil ((sp AND NOT m) + v))))
     (bnd (gets (\<lambda>d. stackPointer (stack d))) (\<lambda>sp.
     sq (whenM (oldSP \<noteq> sp) (OnSPWrite (sint sp)))
     CheckReturnPoints)))"

definition SetSpl :: "byte \<Rightarrow> ('h avr_device, unit) sim" where
  "SetSpl val = set_sp_part 0xff (ucast val)"

definition SetSph :: "byte \<Rightarrow> ('h avr_device, unit) sim" where
  "SetSph val = set_sp_part 0xff00 (push_bit 8 (ucast val))"

definition GetSph :: "('h avr_device, byte) sim" where
  "GetSph =
     bnd (gets (\<lambda>d. stackPointer (stack d))) (\<lambda>sp.
     sq (OnSPRead (sint sp)) (ret (ucast (drop_bit 8 (sp AND 0xff00)))))"

definition GetSpl :: "('h avr_device, byte) sim" where
  "GetSpl =
     bnd (gets (\<lambda>d. stackPointer (stack d))) (\<lambda>sp.
     sq (OnSPRead (sint sp)) (ret (ucast (sp AND 0xff))))"

section \<open>The watchdog timer and the address extension registers\<close>

text \<open>
  The comparisons \<open>newWDE == 1\<close>, \<open>oldWDTOE == 1\<close> and \<open>(val & WDTOE) == 1\<close> are kept as they
  are written: the masks are 0x08 and 0x10.
\<close>

definition SetWdtcr :: "byte \<Rightarrow> wado_state \<Rightarrow> wado_state" where
  "SetWdtcr val w =
     (let oldWDTOE = wdtcr w AND 0x10; newWDE = val AND 0x08;
          w1 = (if newWDE = 1 then w\<lparr>wdtcr := val\<rparr>
                else if oldWDTOE = 1 then w\<lparr>wdtcr := val\<rparr> else w)
      in if val AND 0x10 = 1 then w1\<lparr>cntWde := 4\<rparr> else w1)"

definition Wado_Reset :: "wado_state \<Rightarrow> wado_state" where
  "Wado_Reset w = w\<lparr>timeOutAt := 0, wdtcr := 0\<rparr>"

definition Wdr :: "int \<Rightarrow> wado_state \<Rightarrow> wado_state" where
  "Wdr now w =
     (let s = wdtcr w AND 0x7 in
      w\<lparr>timeOutAt := now +
         (if s = 0 then 47000000 else if s = 1 then 94000000 else if s = 2 then 190000000
          else if s = 3 then 380000000 else if s = 4 then 750000000 else if s = 5 then 1500000000
          else if s = 6 then 3000000000 else 6000000000)\<rparr>)"

text \<open>The counter part of \<open>HWWado::CpuCycle\<close>; the second component says that \<open>core->Reset()\<close> is called.\<close>

definition Wado_tick :: "int \<Rightarrow> wado_state \<Rightarrow> wado_state \<times> bool" where
  "Wado_tick now w =
     (let w1 = (if cntWde w > 0 then w\<lparr>cntWde := cntWde w - 1\<rparr> else w);
          w2 = (if cntWde w1 = 0 then w1\<lparr>wdtcr := wdtcr w1 AND (0xff - 0x10)\<rparr> else w1)
      in (w2, wdtcr w2 AND 0x08 \<noteq> 0 \<and> timeOutAt w2 < now))"

definition SetRegVal :: "byte \<Rightarrow> ext_register \<Rightarrow> ext_register" where
  "SetRegVal val r = r\<lparr>reg_val := val AND reg_mask r\<rparr>"

definition AddressExtensionRegister :: "nat \<Rightarrow> ext_register" where
  "AddressExtensionRegister bitsize = \<lparr>reg_val = 0, reg_mask = push_bit bitsize 1 - 1\<rparr>"

section \<open>Memory cells\<close>

definition deref :: "'a option \<Rightarrow> ('s, 'a) sim" where
  "deref x = (case x of Some y \<Rightarrow> ret y | None \<Rightarrow> fail UndefinedBehaviour)"

text \<open>\<open>RWMemoryMember::operator unsigned char\<close>: the virtual \<open>get\<close> of the cell.\<close>

definition mem_get :: "'h hardware \<Rightarrow> nat \<Rightarrow> ('h avr_device, byte) sim" where
  "mem_get H addr =
     bnd (gets (\<lambda>d. rw d addr)) (\<lambda>cell.
     case cell of
       RAM v \<Rightarrow> ret v
     | InvalidMem \<Rightarrow> bnd (gets (\<lambda>d. abortOnInvalidAccess (conf d))) (\<lambda>ab. if ab then fail InvalidAccess else ret 0)
     | NotSimulatedRegister \<Rightarrow> ret 0
     | GPIORegister v \<Rightarrow> ret v
     | XDIVRegister v \<Rightarrow> ret v
     | OSCCALRegister t v \<Rightarrow> ret v
     | RWSregCell \<Rightarrow> gets (\<lambda>d. RWSreg_get (status d))
     | SphReg \<Rightarrow> GetSph
     | SplReg \<Rightarrow> GetSpl
     | RampzReg \<Rightarrow> bnd (gets rampz) (\<lambda>r. bnd (deref r) (\<lambda>r. ret (reg_val r)))
     | EindReg \<Rightarrow> bnd (gets eind) (\<lambda>r. bnd (deref r) (\<lambda>r. ret (reg_val r)))
     | SpmcrReg \<Rightarrow> bnd (gets spmRegister) (\<lambda>p. bnd (deref p) (\<lambda>p. ret (spmcr_val p)))
     | WdtcrReg \<Rightarrow> bnd (gets wado) (\<lambda>w. bnd (deref w) (\<lambda>w. ret (wdtcr w)))
     | IOCell n \<Rightarrow> cell_get H n)"

definition set_cell :: "nat \<Rightarrow> rwcell \<Rightarrow> ('h avr_device, unit) sim" where
  "set_cell addr cell = modify (\<lambda>d. d\<lparr>rw := (rw d)(addr := cell)\<rparr>)"

definition XDIV_set :: "byte \<Rightarrow> byte \<Rightarrow> byte" where
  "XDIV_set old v =
     (let old_enbl = (old AND 0x80 = 0x80); new_enbl = (v AND 0x80 = 0x80)
      in if new_enbl then (if \<not> old_enbl then v else old) else v)"

definition OSCCAL_set :: "nat \<Rightarrow> byte \<Rightarrow> byte" where
  "OSCCAL_set cal_type v = (if cal_type = 1 then v AND 0x7f else v)"

text \<open>\<open>RWMemoryMember::operator=\<close>: the virtual \<open>set\<close> of the cell.\<close>

definition mem_set :: "'h hardware \<Rightarrow> nat \<Rightarrow> byte \<Rightarrow> ('h avr_device, unit) sim" where
  "mem_set H addr val =
     bnd (gets (\<lambda>d. rw d addr)) (\<lambda>cell.
     case cell of
       RAM v \<Rightarrow> set_cell addr (RAM val)
     | InvalidMem \<Rightarrow> bnd (gets (\<lambda>d. abortOnInvalidAccess (conf d))) (\<lambda>ab. if ab then fail InvalidAccess else ret ())
     | NotSimulatedRegister \<Rightarrow> ret ()
     | GPIORegister v \<Rightarrow> set_cell addr (GPIORegister val)
     | XDIVRegister v \<Rightarrow> set_cell addr (XDIVRegister (XDIV_set v val))
     | OSCCALRegister t v \<Rightarrow> set_cell addr (OSCCALRegister t (OSCCAL_set t val))
     | RWSregCell \<Rightarrow> modify (\<lambda>d. d\<lparr>status := RWSreg_set val\<rparr>)
     | SphReg \<Rightarrow> SetSph val
     | SplReg \<Rightarrow> SetSpl val
     | RampzReg \<Rightarrow> modify (\<lambda>d. d\<lparr>rampz := map_option (SetRegVal val) (rampz d)\<rparr>)
     | EindReg \<Rightarrow> modify (\<lambda>d. d\<lparr>eind := map_option (SetRegVal val) (eind d)\<rparr>)
     | SpmcrReg \<Rightarrow> modify (\<lambda>d. d\<lparr>spmRegister := map_option (SetSpmcr val) (spmRegister d)\<rparr>)
     | WdtcrReg \<Rightarrow> modify (\<lambda>d. d\<lparr>wado := map_option (SetWdtcr val) (wado d)\<rparr>)
     | IOCell n \<Rightarrow> cell_set H n val)"

definition GetRWMem :: "'h hardware \<Rightarrow> nat \<Rightarrow> ('h avr_device, byte) sim" where
  "GetRWMem H addr = (if addr \<ge> totalIoSpace then ret 0 else mem_get H addr)"

definition SetRWMem :: "'h hardware \<Rightarrow> nat \<Rightarrow> byte \<Rightarrow> ('h avr_device, bool) sim" where
  "SetRWMem H addr val =
     (if addr \<ge> totalIoSpace then ret False else sq (mem_set H addr val) (ret True))"

definition GetCoreReg :: "'h hardware \<Rightarrow> nat \<Rightarrow> ('h avr_device, byte) sim" where
  "GetCoreReg H addr = sq (assertM (addr < registerSpaceSize)) (mem_get H addr)"

definition SetCoreReg :: "'h hardware \<Rightarrow> nat \<Rightarrow> byte \<Rightarrow> ('h avr_device, unit) sim" where
  "SetCoreReg H addr val = sq (assertM (addr < registerSpaceSize)) (mem_set H addr val)"

definition GetIOReg :: "'h hardware \<Rightarrow> nat \<Rightarrow> ('h avr_device, byte) sim" where
  "GetIOReg H addr =
     bnd (gets (\<lambda>d. ioSpaceSize (conf d))) (\<lambda>n.
     sq (assertM (addr < n)) (mem_get H (addr + registerSpaceSize)))"

definition SetIOReg :: "'h hardware \<Rightarrow> nat \<Rightarrow> byte \<Rightarrow> ('h avr_device, unit) sim" where
  "SetIOReg H addr val =
     bnd (gets (\<lambda>d. ioSpaceSize (conf d))) (\<lambda>n.
     sq (assertM (addr < n)) (mem_set H (addr + registerSpaceSize) val))"

definition SetIORegBit :: "'h hardware \<Rightarrow> nat \<Rightarrow> nat \<Rightarrow> bool \<Rightarrow> ('h avr_device, unit) sim" where
  "SetIORegBit H addr bitaddr bval =
     sq (assertM (addr < 0x20))
     (bnd (mem_get H (addr + registerSpaceSize)) (\<lambda>val.
      mem_set H (addr + registerSpaceSize)
        (if bval then val OR push_bit bitaddr 1 else val AND NOT (push_bit bitaddr 1))))"

definition reg_pair :: "'h hardware \<Rightarrow> nat \<Rightarrow> ('h avr_device, word16) sim" where
  "reg_pair H lo =
     bnd (mem_get H (lo + 1)) (\<lambda>h. bnd (mem_get H lo) (\<lambda>l. ret (push_bit 8 (ucast h) + ucast l)))"

definition GetRegX :: "'h hardware \<Rightarrow> ('h avr_device, word16) sim" where
  "GetRegX H = reg_pair H 26"

definition GetRegY :: "'h hardware \<Rightarrow> ('h avr_device, word16) sim" where
  "GetRegY H = reg_pair H 28"

definition GetRegZ :: "'h hardware \<Rightarrow> ('h avr_device, word16) sim" where
  "GetRegZ H = reg_pair H 30"

definition ReplaceIoRegister :: "nat \<Rightarrow> rwcell \<Rightarrow> ('h avr_device, unit) sim" where
  "ReplaceIoRegister offset cell =
     bnd (gets (\<lambda>d. ioSpaceSize (conf d))) (\<lambda>n.
     if offset \<ge> n + registerSpaceSize then fail InvalidAccess else set_cell offset cell)"

definition ReplaceMemRegister :: "nat \<Rightarrow> rwcell \<Rightarrow> ('h avr_device, bool) sim" where
  "ReplaceMemRegister offset cell =
     (if offset < totalIoSpace then sq (set_cell offset cell) (ret True) else ret False)"

definition DebugOnJump :: "('h avr_device, unit) sim" where
  "DebugOnJump = modify (\<lambda>d.
     let i = (recentJumpsIndex d + 1) mod 20; nxt = (i + 1) mod 20
     in d\<lparr>recentJumpsIndex := i, recentJumps := (recentJumps d)[i := int (unat (PC d)) * 2, nxt := - 1]\<rparr>)"

text \<open>The memory that the constructor builds.\<close>

definition init_rw :: "nat \<Rightarrow> nat \<Rightarrow> nat \<Rightarrow> nat \<Rightarrow> rwcell" where
  "init_rw ioSize iram eram addr =
     (if addr < registerSpaceSize then RAM 0xaa
      else if addr < registerSpaceSize + ioSize then InvalidMem
      else if addr < registerSpaceSize + ioSize + iram then RAM 0xaa
      else if addr < registerSpaceSize + ioSize + iram + eram then RAM 0xaa
      else InvalidMem)"

section \<open>The stacks\<close>

definition OnCall :: "'h hardware \<Rightarrow> ('h avr_device, unit) sim" where
  "OnCall H =
     bnd (gets (\<lambda>d. sint (stackPointer (stack d)))) (\<lambda>sp.
     sq (upd_threads (\<lambda>t. t\<lparr>m_on_call_sp := Some sp\<rparr>))
     (sq (assertM (sp \<noteq> 0))
     (sq (modify (\<lambda>d. d\<lparr>threads := (threads d)\<lparr>m_on_call_ip := int (unat (PC d)) * 2\<rparr>\<rparr>))
     (bnd (gets threads) (\<lambda>t.
      if \<not> m_cur_thread t < length (m_threads t) then fail UndefinedBehaviour
      else bnd (mapS (GetCoreReg H) [0..<32]) (\<lambda>regs.
        upd_threads (\<lambda>t. t\<lparr>m_threads := (m_threads t)[m_cur_thread t :=
          (m_threads t ! m_cur_thread t)\<lparr>registers := Some regs\<rparr>]\<rparr>)))))))"

definition Push :: "'h hardware \<Rightarrow> byte \<Rightarrow> ('h avr_device, unit) sim" where
  "Push H val =
     bnd (gets (\<lambda>d. kind (stack d))) (\<lambda>k.
     case k of
       ThreeLevelStack a b c \<Rightarrow> fail NoByteStack
     | HWStackSram ceil initRE \<Rightarrow>
         bnd (gets (\<lambda>d. unat (stackPointer (stack d)))) (\<lambda>sp.
         sq (SetRWMem H sp val)
         (sq (modify (upd_sp (\<lambda>sp. mod_ceil ceil (sp - 1))))
         (sq OnPush
         (sq CheckReturnPoints
         (modify (\<lambda>d. d\<lparr>stack := (stack d)\<lparr>lowestStackPointer :=
            (if lowestStackPointer (stack d) > stackPointer (stack d)
             then stackPointer (stack d) else lowestStackPointer (stack d))\<rparr>\<rparr>)))))))"

definition Pop :: "'h hardware \<Rightarrow> ('h avr_device, byte) sim" where
  "Pop H =
     bnd (gets (\<lambda>d. kind (stack d))) (\<lambda>k.
     case k of
       ThreeLevelStack a b c \<Rightarrow> fail NoByteStack
     | HWStackSram ceil initRE \<Rightarrow>
         sq (modify (upd_sp (\<lambda>sp. mod_ceil ceil (sp + 1))))
         (sq OnPop
         (sq CheckReturnPoints
         (bnd (gets (\<lambda>d. unat (stackPointer (stack d)))) (\<lambda>sp. GetRWMem H sp)))))"

definition low_byte :: "nat \<Rightarrow> byte" where
  "low_byte n = word_of_nat (n mod 256)"

definition PushAddr :: "'h hardware \<Rightarrow> nat \<Rightarrow> ('h avr_device, unit) sim" where
  "PushAddr H addr =
     bnd (gets (\<lambda>d. (kind (stack d), PC_size d))) (\<lambda>(k, pcs).
     case k of
       HWStackSram ceil initRE \<Rightarrow>
         sq (Push H (low_byte addr))
         (sq (Push H (low_byte (addr div 256)))
         (whenM (pcs = 3) (Push H (low_byte (addr div 65536)))))
     | ThreeLevelStack a b c \<Rightarrow>
         modify (\<lambda>d. let sp = stackPointer (stack d);
                         sp' = (if sp > 0 then sp - 1 else sp)
                     in d\<lparr>stack := (stack d)\<lparr>kind := ThreeLevelStack addr a b, stackPointer := sp',
                          lowestStackPointer := (if lowestStackPointer (stack d) > sp' then sp'
                            else lowestStackPointer (stack d))\<rparr>\<rparr>))"

definition PopAddr :: "'h hardware \<Rightarrow> ('h avr_device, nat) sim" where
  "PopAddr H =
     bnd (gets (\<lambda>d. (kind (stack d), PC_size d))) (\<lambda>(k, pcs).
     case k of
       HWStackSram ceil initRE \<Rightarrow>
         bnd (Pop H) (\<lambda>h. bnd (Pop H) (\<lambda>l.
         let val = unat h * 256 + unat l in
         if pcs = 3 then bnd (Pop H) (\<lambda>m. ret (val * 256 + unat m)) else ret val))
     | ThreeLevelStack a b c \<Rightarrow>
         sq (modify (\<lambda>d. let sp = stackPointer (stack d) + 1
                         in d\<lparr>stack := (stack d)\<lparr>kind := ThreeLevelStack b c c,
                              stackPointer := (if sp > 3 then 3 else sp)\<rparr>\<rparr>))
         (ret a))"

definition Stack_Reset :: "'h avr_device \<Rightarrow> 'h avr_device" where
  "Stack_Reset d =
     (let sp = (case kind (stack d) of
                  HWStackSram ceil initRAMEND \<Rightarrow>
                    (if initRAMEND then word_of_nat (iRamSize (conf d) + ioSpaceSize (conf d) + registerSpaceSize - 1)
                     else 0)
                | ThreeLevelStack a b c \<Rightarrow> 3)
      in d\<lparr>stack := (stack d)\<lparr>returnPointList := [], stackPointer := sp, lowestStackPointer := sp\<rparr>\<rparr>)"

text \<open>
  A device as its constructors leave it: \<open>AvrDevice::AvrDevice\<close> (memory, flash, status register,
  defaults) with the stack and the interrupt system that the constructor of the device type adds
  before it calls \<open>Reset\<close>. Further parts are attached to the result.
\<close>

definition AvrDevice ::
  "dev_config \<Rightarrow> avr_flash \<Rightarrow> stack_kind \<Rightarrow> hwid irq_system \<Rightarrow> 'h \<Rightarrow> 'h avr_device" where
  "AvrDevice c f k q h = Stack_Reset
     \<lparr>PC = 0, cPC = 0, PC_size = 2, cpuCycles = 0, conf = c,
      rw = init_rw (ioSpaceSize c) (iRamSize c) (eRamSize c), status = sreg_of_int 0, flash = f,
      stack = \<lparr>stackPointer = 0, lowestStackPointer = 0, returnPointList = [], kind = k\<rparr>,
      threads = ThreadList, irq = q, rampz = None, eind = None, spmRegister = None, wado = None,
      deferIrq = False, newIrqPc = 0xffffffff, actualIrqVector = 0, recentJumps = replicate 20 0,
      recentJumpsIndex = 0, hwResetList = [], hwCycleList = [], BP = [], EP = [], sysTime = 0,
      stopRequested = False, hw = h\<rparr>"

section \<open>The parts of the device\<close>

definition OSCCAL_Reset :: "nat \<Rightarrow> byte" where
  "OSCCAL_Reset cal_type = (if cal_type = 0 then 85 else 42)"

text \<open>\<open>Hardware::Reset\<close> of each part.\<close>

definition Hardware_Reset :: "'h hardware \<Rightarrow> hwid \<Rightarrow> ('h avr_device, unit) sim" where
  "Hardware_Reset H p =
     (case p of
        HwWado \<Rightarrow> modify (\<lambda>d. d\<lparr>wado := map_option Wado_Reset (wado d)\<rparr>)
      | HwSpm \<Rightarrow> modify (\<lambda>d. d\<lparr>spmRegister := map_option Spm_Reset (spmRegister d)\<rparr>)
      | HwRampz \<Rightarrow> modify (\<lambda>d. d\<lparr>rampz := map_option (\<lambda>r. r\<lparr>reg_val := 0\<rparr>) (rampz d)\<rparr>)
      | HwEind \<Rightarrow> modify (\<lambda>d. d\<lparr>eind := map_option (\<lambda>r. r\<lparr>reg_val := 0\<rparr>) (eind d)\<rparr>)
      | HwReg a \<Rightarrow> bnd (gets (\<lambda>d. rw d a)) (\<lambda>cell.
          case cell of
            GPIORegister v \<Rightarrow> set_cell a (GPIORegister 0)
          | XDIVRegister v \<Rightarrow> set_cell a (XDIVRegister 0)
          | OSCCALRegister t v \<Rightarrow> set_cell a (OSCCALRegister t (OSCCAL_Reset t))
          | _ \<Rightarrow> ret ())
      | HwOther n \<Rightarrow> hw_Reset H n)"

text \<open>\<open>AvrDevice::Reset\<close>; the stack is not a \<open>Hardware\<close> and keeps its state.\<close>

definition Reset :: "'h hardware \<Rightarrow> ('h avr_device, unit) sim" where
  "Reset H =
     sq (modify (\<lambda>d. d\<lparr>PC_size := 2, PC := 0\<rparr>))
     (bnd (gets hwResetList) (\<lambda>l.
     sq (forS (Hardware_Reset H) l)
     (modify (\<lambda>d. d\<lparr>PC := 0, cPC := 0, status := sreg_of_int 0, cpuCycles := 0\<rparr>))))"

text \<open>\<open>Hardware::CpuCycle\<close> of each part.\<close>

definition Hardware_CpuCycle :: "'h hardware \<Rightarrow> hwid \<Rightarrow> ('h avr_device, nat) sim" where
  "Hardware_CpuCycle H p =
     (case p of
        HwWado \<Rightarrow> bnd (gets (\<lambda>d. (wado d, sysTime d))) (\<lambda>(w, now).
          bnd (deref w) (\<lambda>w. let (w', expired) = Wado_tick now w in
            sq (modify (\<lambda>d. d\<lparr>wado := Some w'\<rparr>))
            (sq (whenM expired (Reset H)) (ret 0))))
      | HwSpm \<Rightarrow> bnd (gets (\<lambda>d. (spmRegister d, sysTime d))) (\<lambda>(p, now).
          bnd (deref p) (\<lambda>p. let (r, p') = Spm_CpuCycle now p in
            sq (modify (\<lambda>d. d\<lparr>spmRegister := Some p'\<rparr>)) (ret r)))
      | HwOther n \<Rightarrow> hw_CpuCycle H n
      | _ \<Rightarrow> ret 0)"

text \<open>The interrupt methods; only the other parts override them.\<close>

definition Hardware_ClearIrqFlag :: "'h hardware \<Rightarrow> hwid \<Rightarrow> nat \<Rightarrow> ('h avr_device, unit) sim" where
  "Hardware_ClearIrqFlag H p v = (case p of HwOther n \<Rightarrow> hw_ClearIrqFlag H n v | _ \<Rightarrow> ret ())"

definition Hardware_IsLevelInterrupt :: "'h hardware \<Rightarrow> hwid \<Rightarrow> nat \<Rightarrow> ('h avr_device, bool) sim" where
  "Hardware_IsLevelInterrupt H p v = (case p of HwOther n \<Rightarrow> hw_IsLevelInterrupt H n v | _ \<Rightarrow> ret False)"

definition Hardware_LevelInterruptPending :: "'h hardware \<Rightarrow> hwid \<Rightarrow> nat \<Rightarrow> ('h avr_device, bool) sim" where
  "Hardware_LevelInterruptPending H p v = (case p of HwOther n \<Rightarrow> hw_LevelInterruptPending H n v | _ \<Rightarrow> ret False)"

section \<open>Choosing an interrupt\<close>

text \<open>
  \<open>HWIrqSystem::GetNewPc\<close>, the loop from the entry of vector \<open>k\<close> on (\<open>n\<close> is the constant
  \<open>vectorTableSize\<close>). \<open>None\<close> is the end of the table. Advancing the iterator when
  \<open>ClearIrqFlag\<close> has erased its entry is undefined behaviour; otherwise \<open>ii++\<close> leads to a larger
  vector.
\<close>

function irq_scan :: "'h hardware \<Rightarrow> nat \<Rightarrow> nat \<Rightarrow> ('h avr_device, nat option) sim" where
  "irq_scan H n k =
     (if \<not> k < n then fail AssertionFailed
      else bnd (gets (\<lambda>d. map_of (irqPartnerList (irq d)) k)) (\<lambda>entry.
        bnd (deref entry) (\<lambda>second.
        bnd (Hardware_IsLevelInterrupt H second k) (\<lambda>level.
        sq (Hardware_ClearIrqFlag H second k)
        (if \<not> level then ret (Some k)
         else bnd (Hardware_LevelInterruptPending H second k) (\<lambda>pending.
           if pending then ret (Some k)
           else bnd (gets (\<lambda>d. irqPartnerList (irq d))) (\<lambda>t.
             if map_of t k = None then fail UndefinedBehaviour
             else case table_next k t of
                    None \<Rightarrow> ret None
                  | Some k' \<Rightarrow> if k < k' then irq_scan H n k' else fail UndefinedBehaviour)))))))"
  by pat_completeness auto
termination
  by (relation "measure (\<lambda>(H, n, k). n - k)") auto

declare irq_scan.simps [simp del]

definition no_irq :: word32 where
  "no_irq = 0xffffffff"

definition GetNewPc :: "'h hardware \<Rightarrow> ('h avr_device, word32) sim" where
  "GetNewPc H =
     bnd (gets irq) (\<lambda>q.
     case table_first (irqPartnerList q) of
       None \<Rightarrow> ret no_irq
     | Some k \<Rightarrow> bnd (irq_scan H (vectorTableSize q) k) (\<lambda>r.
         case r of
           None \<Rightarrow> ret no_irq
         | Some v \<Rightarrow> sq (modify (\<lambda>d. d\<lparr>actualIrqVector := v\<rparr>))
                      (ret (word_of_nat (v * (bytesPerVector q div 2))))))"

section \<open>Registers\<close>

text \<open>The registers are RAM cells in every device.\<close>

definition regs_ok :: "'h avr_device \<Rightarrow> bool" where
  "regs_ok d \<longleftrightarrow> (\<forall>i < 32. \<exists>v. rw d i = RAM v)"

definition reg :: "'h avr_device \<Rightarrow> nat \<Rightarrow> byte" where
  "reg d i = (case rw d i of RAM v \<Rightarrow> v | _ \<Rightarrow> 0)"

definition set_reg :: "nat \<Rightarrow> byte \<Rightarrow> 'h avr_device \<Rightarrow> 'h avr_device" where
  "set_reg i v d = d\<lparr>rw := (rw d)(i := RAM v)\<rparr>"

definition pair :: "'h avr_device \<Rightarrow> nat \<Rightarrow> word16" where
  "pair d lo = push_bit 8 (ucast (reg d (lo + 1))) + ucast (reg d lo)"

lemma regs_okD: "regs_ok d \<Longrightarrow> i < 32 \<Longrightarrow> rw d i = RAM (reg d i)"
  by (auto simp: regs_ok_def reg_def)

lemma regs_ok_set_reg [simp]: "regs_ok d \<Longrightarrow> regs_ok (set_reg i v d)"
  by (auto simp: regs_ok_def set_reg_def)

lemma regs_ok_cong: "rw d = rw d' \<Longrightarrow> regs_ok d = regs_ok d'"
  by (simp add: regs_ok_def)

lemma reg_set_reg [simp]: "reg (set_reg i v d) j = (if j = i then v else reg d j)"
  by (simp add: reg_def set_reg_def)

lemma set_reg_simps [simp]:
  "PC (set_reg i v d) = PC d" "status (set_reg i v d) = status d" "conf (set_reg i v d) = conf d"
  "flash (set_reg i v d) = flash d" "stack (set_reg i v d) = stack d" "irq (set_reg i v d) = irq d"
  "threads (set_reg i v d) = threads d" "PC_size (set_reg i v d) = PC_size d"
  "rw (set_reg i v d) = (rw d)(i := RAM v)"
  "spmRegister (set_reg i v d) = spmRegister d" "rampz (set_reg i v d) = rampz d"
  by (simp_all add: set_reg_def)

lemma mem_get_RAM: "rw d a = RAM v \<Longrightarrow> mem_get H a d = Inr (v, d)"
  by (simp add: mem_get_def)

lemma mem_set_RAM: "rw d a = RAM v \<Longrightarrow> mem_set H a w d = Inr ((), set_reg a w d)"
  by (simp add: mem_set_def set_cell_def set_reg_def)

lemma GetCoreReg_run [simp]: "regs_ok d \<Longrightarrow> i < 32 \<Longrightarrow> GetCoreReg H i d = Inr (reg d i, d)"
  by (simp add: GetCoreReg_def registerSpaceSize_def mem_get_RAM regs_okD)

lemma SetCoreReg_run [simp]: "regs_ok d \<Longrightarrow> i < 32 \<Longrightarrow> SetCoreReg H i v d = Inr ((), set_reg i v d)"
  by (simp add: SetCoreReg_def registerSpaceSize_def mem_set_RAM regs_okD)

lemma reg_pair_run [simp]: "regs_ok d \<Longrightarrow> lo < 31 \<Longrightarrow> reg_pair H lo d = Inr (pair d lo, d)"
  by (simp add: reg_pair_def pair_def mem_get_RAM regs_okD)

end
