(* ===== verification/Avr_Exec.thy ===== *)
theory Avr_Exec
  imports Avr_Device
begin

text \<open>
  The instructions: the \<open>operator()\<close> of every class \<open>avr_op_\<dots>\<close> in
  \<^verbatim>\<open>src/src/decoder.cpp\<close>, in the order of the file, and their dispatch (\<open>exec\<close>, the virtual
  call \<open>(*de)()\<close> of \<open>AvrDevice::Step\<close>).

  Each returns the number of clock cycles. \<open>Step\<close> adds one to \<open>PC\<close> afterwards, so that a jump
  stores its target minus one. \<open>PC\<close> is a 16 bit \<open>word\<close> and wraps; addresses computed from it
  are \<open>int\<close> in C++ and do not.
\<close>

section \<open>Shared pieces\<close>

abbreviation get_flags :: "('h avr_device, core_flags) sim" where
  "get_flags \<equiv> gets (\<lambda>d. flags (conf d))"

definition set_PC :: "int \<Rightarrow> ('h avr_device, unit) sim" where
  "set_PC n = modify (\<lambda>d. d\<lparr>PC := word_of_int n\<rparr>)"

definition add_PC :: "int \<Rightarrow> ('h avr_device, unit) sim" where
  "add_PC n = modify (\<lambda>d. d\<lparr>PC := PC d + word_of_int n\<rparr>)"

text \<open>\<open>SetCoreReg(lo, v & 0xff); SetCoreReg(lo + 1, (v >> 8) & 0xff)\<close>\<close>

definition set_pair :: "'h hardware \<Rightarrow> nat \<Rightarrow> word16 \<Rightarrow> ('h avr_device, unit) sim" where
  "set_pair H lo v =
     sq (SetCoreReg H lo (ucast (v AND 0xff))) (SetCoreReg H (lo + 1) (ucast (drop_bit 8 v AND 0xff)))"

text \<open>The second word of the instruction: \<open>Flash->ReadMemWord((PC + 1) * 2)\<close>.\<close>

definition second_word :: "('h avr_device, word16) sim" where
  "second_word = asks (\<lambda>d. ReadMemWord ((unat (PC d) + 1) * 2) (flash d))"

text \<open>
  The skip instructions look at the next instruction first:
  \<open>Flash->DecodedMem[PC + 1]->IsInstruction2Words()\<close>.
\<close>

definition skip_words :: "('h avr_device, int) sim" where
  "skip_words =
     bnd (asks (\<lambda>d. decoded_at (unat (PC d) + 1) (flash d))) (\<lambda>next_instr.
     ret (if IsInstruction2Words next_instr then 3 else 2))"

definition skip_if :: "bool \<Rightarrow> int \<Rightarrow> ('h avr_device, int) sim" where
  "skip_if cond skip =
     (if cond then sq DebugOnJump (sq (add_PC (skip - 1)) (ret skip)) else ret 1)"

definition rampz_val :: "('h avr_device, byte) sim" where
  "rampz_val = gets (\<lambda>d. case rampz d of None \<Rightarrow> 0 | Some r \<Rightarrow> reg_val r)"

definition set_rampz :: "byte \<Rightarrow> ('h avr_device, unit) sim" where
  "set_rampz v = modify (\<lambda>d. d\<lparr>rampz := map_option (SetRegVal v) (rampz d)\<rparr>)"

section \<open>Arithmetic, logic and bits\<close>

definition avr_op_ADC :: "'h hardware \<Rightarrow> nat \<Rightarrow> nat \<Rightarrow> ('h avr_device, int) sim" where
  "avr_op_ADC H R1 R2 =
     bnd (GetCoreReg H R1) (\<lambda>rd. bnd (GetCoreReg H R2) (\<lambda>rr.
     bnd (gets (\<lambda>d. sr_C (status d))) (\<lambda>c.
     let res = rd + rr + of_bool c in
     sq (upd_status (add_flags res rd rr)) (sq (SetCoreReg H R1 res) (ret 1)))))"

definition avr_op_ADD :: "'h hardware \<Rightarrow> nat \<Rightarrow> nat \<Rightarrow> ('h avr_device, int) sim" where
  "avr_op_ADD H R1 R2 =
     bnd (GetCoreReg H R1) (\<lambda>rd. bnd (GetCoreReg H R2) (\<lambda>rr.
     let res = rd + rr in
     sq (upd_status (add_flags res rd rr)) (sq (SetCoreReg H R1 res) (ret 1))))"

definition adiw_flags :: "word16 \<Rightarrow> byte \<Rightarrow> hwsreg \<Rightarrow> hwsreg" where
  "adiw_flags res rdh s =
     (let v = (NOT (bitb rdh 7) AND (drop_bit 15 (uint res) AND 1)) \<noteq> 0;
          n = drop_bit 15 (uint res) AND 1 \<noteq> 0
      in s\<lparr>sr_V := v, sr_N := n, sr_S := (n \<noteq> v), sr_Z := (res AND 0xffff = 0),
           sr_C := (NOT (drop_bit 15 (uint res) AND 1) AND bitb rdh 7) \<noteq> 0\<rparr>)"

definition avr_op_ADIW :: "'h hardware \<Rightarrow> nat \<Rightarrow> nat \<Rightarrow> byte \<Rightarrow> ('h avr_device, int) sim" where
  "avr_op_ADIW H Rl Rh K =
     bnd (GetCoreReg H Rh) (\<lambda>rdh. bnd (GetCoreReg H Rl) (\<lambda>rdl.
     let rd = push_bit 8 (ucast rdh) + ucast rdl; res = rd + ucast K in
     sq (upd_status (adiw_flags res rdh))
     (sq (SetCoreReg H Rl (ucast (res AND 0xff)))
     (sq (SetCoreReg H Rh (ucast (drop_bit 8 res))) (ret 2)))))"

definition avr_op_AND :: "'h hardware \<Rightarrow> nat \<Rightarrow> nat \<Rightarrow> ('h avr_device, int) sim" where
  "avr_op_AND H R1 R2 =
     bnd (GetCoreReg H R1) (\<lambda>rd. bnd (GetCoreReg H R2) (\<lambda>rr.
     let res = rd AND rr in
     sq (upd_status (logic_flags res)) (sq (SetCoreReg H R1 res) (ret 1))))"

definition avr_op_ANDI :: "'h hardware \<Rightarrow> nat \<Rightarrow> byte \<Rightarrow> ('h avr_device, int) sim" where
  "avr_op_ANDI H R1 K =
     bnd (GetCoreReg H R1) (\<lambda>rd.
     let res = rd AND K in
     sq (upd_status (logic_flags res)) (sq (SetCoreReg H R1 res) (ret 1)))"

text \<open>The flags of the right shifts, from the carry, the sign and the result.\<close>

definition shift_flags :: "bool \<Rightarrow> bool \<Rightarrow> byte \<Rightarrow> hwsreg \<Rightarrow> hwsreg" where
  "shift_flags c n res s =
     (let v = (n \<noteq> c) in s\<lparr>sr_N := n, sr_C := c, sr_V := v, sr_S := (n \<noteq> v), sr_Z := (res AND 0xff = 0)\<rparr>)"

definition avr_op_ASR :: "'h hardware \<Rightarrow> nat \<Rightarrow> ('h avr_device, int) sim" where
  "avr_op_ASR H R1 =
     bnd (GetCoreReg H R1) (\<lambda>rd.
     let res = drop_bit 1 rd + (rd AND 0x80) in
     sq (upd_status (shift_flags (rd AND 1 \<noteq> 0) (bitb res 7 \<noteq> 0) res))
     (sq (SetCoreReg H R1 res) (ret 1)))"

definition avr_op_BCLR :: "nat \<Rightarrow> ('h avr_device, int) sim" where
  "avr_op_BCLR Kbit =
     sq (upd_status (\<lambda>s. sreg_of_int (sreg_to_int s AND NOT (push_bit Kbit 1)))) (ret 1)"

definition avr_op_BLD :: "'h hardware \<Rightarrow> nat \<Rightarrow> nat \<Rightarrow> ('h avr_device, int) sim" where
  "avr_op_BLD H R1 Kbit =
     bnd (GetCoreReg H R1) (\<lambda>rd.
     bnd (gets (\<lambda>d. sr_T (status d))) (\<lambda>T.
     let res = (if \<not> T then rd AND NOT (push_bit Kbit 1) else rd OR push_bit Kbit 1) in
     sq (SetCoreReg H R1 res) (ret 1)))"

definition avr_op_BRBC :: "byte \<Rightarrow> int \<Rightarrow> ('h avr_device, int) sim" where
  "avr_op_BRBC bitmask offset =
     bnd (gets (\<lambda>d. sreg_to_int (status d))) (\<lambda>s.
     if uint bitmask AND s = 0 then sq DebugOnJump (sq (add_PC offset) (ret 2)) else ret 1)"

definition avr_op_BRBS :: "byte \<Rightarrow> int \<Rightarrow> ('h avr_device, int) sim" where
  "avr_op_BRBS bitmask offset =
     bnd (gets (\<lambda>d. sreg_to_int (status d))) (\<lambda>s.
     if uint bitmask AND s \<noteq> 0 then sq DebugOnJump (sq (add_PC offset) (ret 2)) else ret 1)"

definition avr_op_BSET :: "nat \<Rightarrow> ('h avr_device, int) sim" where
  "avr_op_BSET Kbit =
     sq (upd_status (\<lambda>s. sreg_of_int (sreg_to_int s OR push_bit Kbit 1))) (ret 1)"

definition avr_op_BST :: "'h hardware \<Rightarrow> nat \<Rightarrow> nat \<Rightarrow> ('h avr_device, int) sim" where
  "avr_op_BST H R1 Kbit =
     bnd (GetCoreReg H R1) (\<lambda>rd.
     sq (upd_status (\<lambda>s. s\<lparr>sr_T := (rd AND push_bit Kbit 1 \<noteq> 0)\<rparr>)) (ret 1))"

definition avr_op_CALL :: "'h hardware \<Rightarrow> nat \<Rightarrow> ('h avr_device, int) sim" where
  "avr_op_CALL H KH =
     bnd second_word (\<lambda>K_lsb.
     let k = int KH * 65536 + uint K_lsb in
     bnd get_flags (\<lambda>fl.
     sq (OnCall H)
     (bnd (gets PC) (\<lambda>pc.
     sq (PushAddr H (unat pc + 2))
     (sq DebugOnJump
     (sq (set_PC (k - 1))
     (bnd (gets PC_size) (\<lambda>pcs. ret (pcs + (if flagXMega fl then 1 else 2))))))))))"

definition avr_op_CBI :: "'h hardware \<Rightarrow> nat \<Rightarrow> nat \<Rightarrow> ('h avr_device, int) sim" where
  "avr_op_CBI H ioreg Kbit =
     bnd get_flags (\<lambda>fl.
     sq (SetIORegBit H ioreg Kbit False)
     (ret (if flagXMega fl \<or> flagTiny10 fl then 1 else 2)))"

definition avr_op_COM :: "'h hardware \<Rightarrow> nat \<Rightarrow> ('h avr_device, int) sim" where
  "avr_op_COM H R1 =
     bnd (GetCoreReg H R1) (\<lambda>rd.
     let res = 0xff - rd in
     sq (upd_status (\<lambda>s. (set_NS res (s\<lparr>sr_C := True, sr_V := False\<rparr>))\<lparr>sr_Z := (res AND 0xff = 0)\<rparr>))
     (sq (SetCoreReg H R1 res) (ret 1)))"

definition avr_op_CP :: "'h hardware \<Rightarrow> nat \<Rightarrow> nat \<Rightarrow> ('h avr_device, int) sim" where
  "avr_op_CP H R1 R2 =
     bnd (GetCoreReg H R1) (\<lambda>rd. bnd (GetCoreReg H R2) (\<lambda>rr.
     sq (upd_status (cp_flags (rd - rr) rd rr)) (ret 1)))"

definition avr_op_CPC :: "'h hardware \<Rightarrow> nat \<Rightarrow> nat \<Rightarrow> ('h avr_device, int) sim" where
  "avr_op_CPC H R1 R2 =
     bnd (GetCoreReg H R1) (\<lambda>rd. bnd (GetCoreReg H R2) (\<lambda>rr.
     bnd (gets (\<lambda>d. sr_C (status d))) (\<lambda>c.
     sq (upd_status (cpc_flags (rd - rr - of_bool c) rd rr)) (ret 1))))"

definition avr_op_CPI :: "'h hardware \<Rightarrow> nat \<Rightarrow> byte \<Rightarrow> ('h avr_device, int) sim" where
  "avr_op_CPI H R1 K =
     bnd (GetCoreReg H R1) (\<lambda>rd. sq (upd_status (cp_flags (rd - K) rd K)) (ret 1))"

definition avr_op_CPSE :: "'h hardware \<Rightarrow> nat \<Rightarrow> nat \<Rightarrow> ('h avr_device, int) sim" where
  "avr_op_CPSE H R1 R2 =
     bnd (GetCoreReg H R1) (\<lambda>rd. bnd (GetCoreReg H R2) (\<lambda>rr.
     bnd skip_words (\<lambda>skip. skip_if (rd = rr) skip)))"

definition avr_op_DEC :: "'h hardware \<Rightarrow> nat \<Rightarrow> ('h avr_device, int) sim" where
  "avr_op_DEC H R1 =
     bnd (GetCoreReg H R1) (\<lambda>rd.
     let res = rd - 1 in
     sq (upd_status (\<lambda>s. (set_NS res (s\<lparr>sr_V := (res = 0x7f)\<rparr>))\<lparr>sr_Z := (res AND 0xff = 0)\<rparr>))
     (sq (SetCoreReg H R1 res) (ret 1)))"

definition avr_op_EICALL :: "'h hardware \<Rightarrow> ('h avr_device, int) sim" where
  "avr_op_EICALL H =
     bnd (GetRegZ H) (\<lambda>Z. bnd (gets eind) (\<lambda>e. bnd (deref e) (\<lambda>e.
     let new_PC = uint Z + uint (reg_val e) * 65536 in
     sq (OnCall H)
     (bnd (gets PC) (\<lambda>pc.
     sq (PushAddr H (unat pc + 1))
     (sq DebugOnJump
     (sq (set_PC new_PC)
     (bnd get_flags (\<lambda>fl. ret (if flagXMega fl then 3 else 4))))))))))"

definition avr_op_EIJMP :: "'h hardware \<Rightarrow> ('h avr_device, int) sim" where
  "avr_op_EIJMP H =
     sq DebugOnJump
     (bnd (gets eind) (\<lambda>e. bnd (deref e) (\<lambda>e. bnd (GetRegZ H) (\<lambda>Z.
     sq (set_PC (uint (reg_val e) * 65536 + uint Z)) (ret 2)))))"

text \<open>\<open>(rampz << 16) + GetRegZ()\<close>, 0 for RAMPZ in a device that has none.\<close>

definition rampz_Z :: "'h hardware \<Rightarrow> ('h avr_device, word32) sim" where
  "rampz_Z H =
     bnd rampz_val (\<lambda>r. bnd (GetRegZ H) (\<lambda>Z. ret (push_bit 16 (ucast r) + ucast Z)))"

definition read_flash :: "nat \<Rightarrow> ('h avr_device, byte) sim" where
  "read_flash addr = asks (\<lambda>d. ReadMem addr (flash d))"

definition avr_op_ELPM_Z :: "'h hardware \<Rightarrow> nat \<Rightarrow> ('h avr_device, int) sim" where
  "avr_op_ELPM_Z H R1 =
     bnd (rampz_Z H) (\<lambda>Z. bnd (read_flash (unat (Z XOR 1))) (\<lambda>v.
     sq (SetCoreReg H R1 v) (ret 3)))"

definition avr_op_ELPM_Z_incr :: "'h hardware \<Rightarrow> nat \<Rightarrow> ('h avr_device, int) sim" where
  "avr_op_ELPM_Z_incr H R1 =
     bnd (rampz_Z H) (\<lambda>Z. bnd (read_flash (unat (Z XOR 1))) (\<lambda>v.
     sq (SetCoreReg H R1 v)
     (let Z' = Z + 1 in
      sq (set_rampz (ucast (drop_bit 16 Z')))
      (sq (SetCoreReg H 30 (ucast (Z' AND 0xff)))
      (sq (SetCoreReg H 31 (ucast (drop_bit 8 Z' AND 0xff))) (ret 3))))))"

definition avr_op_ELPM :: "'h hardware \<Rightarrow> ('h avr_device, int) sim" where
  "avr_op_ELPM H =
     bnd (rampz_Z H) (\<lambda>Z. bnd (read_flash (unat (Z XOR 1))) (\<lambda>v.
     sq (SetCoreReg H 0 v) (ret 3)))"

definition avr_op_EOR :: "'h hardware \<Rightarrow> nat \<Rightarrow> nat \<Rightarrow> ('h avr_device, int) sim" where
  "avr_op_EOR H R1 R2 =
     bnd (GetCoreReg H R1) (\<lambda>rd. bnd (GetCoreReg H R2) (\<lambda>rr.
     let res = rd XOR rr in
     sq (upd_status (logic_flags res)) (sq (SetCoreReg H R1 res) (ret 1))))"

text \<open>
  \<open>spmRegister->SPM_action(D, xaddr, Z)\<close> works on the SPM engine and the flash; it reads the
  program counter of the core.
\<close>

definition call_SPM_action :: "word32 \<Rightarrow> byte \<Rightarrow> word16 \<Rightarrow> ('h avr_device, int) sim" where
  "call_SPM_action D xaddr Z =
     bnd (gets (\<lambda>d. (spmRegister d, flags (conf d), sysTime d, unat (PC d)))) (\<lambda>(p, fl, now, pc).
     bnd (deref p) (\<lambda>p.
     zoom (\<lambda>d. (p, flash d)) (\<lambda>(p', f') d. d\<lparr>spmRegister := Some p', flash := f'\<rparr>)
       (SPM_action fl now pc D (ucast xaddr) (ucast Z))))"

definition spm_data :: "'h hardware \<Rightarrow> ('h avr_device, word32) sim" where
  "spm_data H = bnd (GetCoreReg H 0) (\<lambda>r0. bnd (GetCoreReg H 1) (\<lambda>r1. ret (ucast r0 + push_bit 8 (ucast r1))))"

definition avr_op_ESPM :: "'h hardware \<Rightarrow> ('h avr_device, int) sim" where
  "avr_op_ESPM H =
     bnd rampz_val (\<lambda>xaddr.
     bnd (gets spmRegister) (\<lambda>p.
     if p = None then ret 1
     else bnd (GetRegZ H) (\<lambda>Z. bnd (spm_data H) (\<lambda>D.
       bnd (call_SPM_action D xaddr Z) (\<lambda>cycles.
       let Z' = ucast Z + (1 :: word32) in
       sq (SetCoreReg H 30 (ucast (Z' AND 0xff)))
       (sq (SetCoreReg H 31 (ucast (drop_bit 8 Z' AND 0xff)))
       (sq (set_rampz (ucast (drop_bit 16 Z')))
       (ret (1 + cycles)))))))))"

text \<open>The multiplications put a 16 bit product into R1:R0.\<close>

definition mul_result :: "'h hardware \<Rightarrow> bool \<Rightarrow> word16 \<Rightarrow> ('h avr_device, int) sim" where
  "mul_result H c res =
     sq (upd_status (\<lambda>s. s\<lparr>sr_Z := (res AND 0xffff = 0), sr_C := c\<rparr>))
     (sq (set_pair H 0 res) (ret 2))"

definition avr_op_FMUL :: "'h hardware \<Rightarrow> nat \<Rightarrow> nat \<Rightarrow> ('h avr_device, int) sim" where
  "avr_op_FMUL H Rd Rr =
     bnd (GetCoreReg H Rd) (\<lambda>rd. bnd (GetCoreReg H Rr) (\<lambda>rr.
     let resp = word_of_int (uint rd * uint rr) in
     mul_result H (drop_bit 15 resp AND 1 \<noteq> 0) (push_bit 1 resp)))"

definition avr_op_FMULS :: "'h hardware \<Rightarrow> nat \<Rightarrow> nat \<Rightarrow> ('h avr_device, int) sim" where
  "avr_op_FMULS H Rd Rr =
     bnd (GetCoreReg H Rd) (\<lambda>rd. bnd (GetCoreReg H Rr) (\<lambda>rr.
     let resp = word_of_int (sint rd * sint rr) in
     mul_result H (drop_bit 15 resp AND 1 \<noteq> 0) (push_bit 1 resp)))"

definition avr_op_FMULSU :: "'h hardware \<Rightarrow> nat \<Rightarrow> nat \<Rightarrow> ('h avr_device, int) sim" where
  "avr_op_FMULSU H Rd Rr =
     bnd (GetCoreReg H Rd) (\<lambda>rd. bnd (GetCoreReg H Rr) (\<lambda>rr.
     let resp = word_of_int (sint rd * uint rr) in
     mul_result H (drop_bit 15 resp AND 1 \<noteq> 0) (push_bit 1 resp)))"

definition avr_op_ICALL :: "'h hardware \<Rightarrow> ('h avr_device, int) sim" where
  "avr_op_ICALL H =
     bnd (gets PC) (\<lambda>pc. bnd (GetRegZ H) (\<lambda>new_pc.
     sq (OnCall H)
     (sq (PushAddr H (unat pc + 1))
     (sq DebugOnJump
     (sq (set_PC (uint new_pc - 1))
     (bnd (gets (\<lambda>d. (PC_size d, flags (conf d)))) (\<lambda>(pcs, fl).
      ret (pcs + (if flagXMega fl then 0 else 1)))))))))"

definition avr_op_IJMP :: "'h hardware \<Rightarrow> ('h avr_device, int) sim" where
  "avr_op_IJMP H =
     bnd (GetRegZ H) (\<lambda>new_pc. sq DebugOnJump (sq (set_PC (uint new_pc - 1)) (ret 2)))"

definition avr_op_IN :: "'h hardware \<Rightarrow> nat \<Rightarrow> nat \<Rightarrow> ('h avr_device, int) sim" where
  "avr_op_IN H R1 ioreg = bnd (GetIOReg H ioreg) (\<lambda>v. sq (SetCoreReg H R1 v) (ret 1))"

definition avr_op_INC :: "'h hardware \<Rightarrow> nat \<Rightarrow> ('h avr_device, int) sim" where
  "avr_op_INC H R1 =
     bnd (GetCoreReg H R1) (\<lambda>rd.
     let res = rd + 1 in
     sq (upd_status (\<lambda>s. (set_NS res (s\<lparr>sr_V := (rd = 0x7f)\<rparr>))\<lparr>sr_Z := (res AND 0xff = 0)\<rparr>))
     (sq (SetCoreReg H R1 res) (ret 1)))"

definition avr_op_JMP :: "nat \<Rightarrow> ('h avr_device, int) sim" where
  "avr_op_JMP K =
     bnd second_word (\<lambda>K_lsb.
     sq DebugOnJump (sq (set_PC (int K * 65536 + uint K_lsb - 1)) (ret 3)))"

section \<open>Loads\<close>

abbreviation displ_clocks :: "core_flags \<Rightarrow> nat \<Rightarrow> int" where
  "displ_clocks fl K \<equiv> (if (flagXMega fl \<or> flagTiny10 fl) \<and> K = 0 then 1 else 2)"

definition avr_op_LDD_Y :: "'h hardware \<Rightarrow> nat \<Rightarrow> nat \<Rightarrow> ('h avr_device, int) sim" where
  "avr_op_LDD_Y H Rd K =
     bnd (GetRegY H) (\<lambda>Y. bnd (GetRWMem H (unat Y + K)) (\<lambda>v.
     sq (SetCoreReg H Rd v) (bnd get_flags (\<lambda>fl. ret (displ_clocks fl K)))))"

definition avr_op_LDD_Z :: "'h hardware \<Rightarrow> nat \<Rightarrow> nat \<Rightarrow> ('h avr_device, int) sim" where
  "avr_op_LDD_Z H Rd K =
     bnd (GetRegZ H) (\<lambda>Z. bnd (GetRWMem H (unat Z + K)) (\<lambda>v.
     sq (SetCoreReg H Rd v) (bnd get_flags (\<lambda>fl. ret (displ_clocks fl K)))))"

definition avr_op_LDI :: "'h hardware \<Rightarrow> nat \<Rightarrow> byte \<Rightarrow> ('h avr_device, int) sim" where
  "avr_op_LDI H R1 K = sq (SetCoreReg H R1 K) (ret 1)"

definition avr_op_LDS :: "'h hardware \<Rightarrow> nat \<Rightarrow> ('h avr_device, int) sim" where
  "avr_op_LDS H R1 =
     bnd second_word (\<lambda>offset. bnd (GetRWMem H (unat offset)) (\<lambda>v.
     sq (SetCoreReg H R1 v) (sq (add_PC 1) (ret 2))))"

definition avr_op_LD_X :: "'h hardware \<Rightarrow> nat \<Rightarrow> ('h avr_device, int) sim" where
  "avr_op_LD_X H Rd =
     bnd (GetRegX H) (\<lambda>X. bnd (GetRWMem H (unat X)) (\<lambda>v.
     sq (SetCoreReg H Rd v)
     (bnd get_flags (\<lambda>fl. ret (if flagXMega fl \<or> flagTiny10 fl then 1 else 2)))))"

text \<open>
  The bodies that LD -X, LD -Y and LD -Z (LD X+, Y+, Z+) share; \<open>lo\<close> is the low register of the
  pointer: 26, 28 or 30.
\<close>

definition ld_decr :: "'h hardware \<Rightarrow> nat \<Rightarrow> ('h avr_device, word16) sim \<Rightarrow> nat \<Rightarrow> ('h avr_device, int) sim" where
  "ld_decr H lo getp Rd =
     bnd getp (\<lambda>p.
     if Rd = lo \<or> Rd = lo + 1 then fail UndefinedResult
     else let p' = p - 1 in
       bnd (GetRWMem H (unat p')) (\<lambda>v.
       sq (SetCoreReg H Rd v) (sq (set_pair H lo p')
       (bnd get_flags (\<lambda>fl. ret (if flagTiny10 fl then 3 else 2))))))"

definition ld_incr :: "'h hardware \<Rightarrow> nat \<Rightarrow> ('h avr_device, word16) sim \<Rightarrow> nat \<Rightarrow> ('h avr_device, int) sim" where
  "ld_incr H lo getp Rd =
     bnd getp (\<lambda>p.
     if Rd = lo \<or> Rd = lo + 1 then fail UndefinedResult
     else bnd (GetRWMem H (unat p)) (\<lambda>v.
       sq (SetCoreReg H Rd v) (sq (set_pair H lo (p + 1))
       (bnd get_flags (\<lambda>fl. ret (if flagXMega fl then 1 else 2))))))"

definition avr_op_LD_X_decr :: "'h hardware \<Rightarrow> nat \<Rightarrow> ('h avr_device, int) sim" where
  "avr_op_LD_X_decr H Rd = ld_decr H 26 (GetRegX H) Rd"

definition avr_op_LD_X_incr :: "'h hardware \<Rightarrow> nat \<Rightarrow> ('h avr_device, int) sim" where
  "avr_op_LD_X_incr H Rd = ld_incr H 26 (GetRegX H) Rd"

definition avr_op_LD_Y_decr :: "'h hardware \<Rightarrow> nat \<Rightarrow> ('h avr_device, int) sim" where
  "avr_op_LD_Y_decr H Rd = ld_decr H 28 (GetRegY H) Rd"

definition avr_op_LD_Y_incr :: "'h hardware \<Rightarrow> nat \<Rightarrow> ('h avr_device, int) sim" where
  "avr_op_LD_Y_incr H Rd = ld_incr H 28 (GetRegY H) Rd"

definition avr_op_LD_Z_incr :: "'h hardware \<Rightarrow> nat \<Rightarrow> ('h avr_device, int) sim" where
  "avr_op_LD_Z_incr H Rd = ld_incr H 30 (GetRegZ H) Rd"

definition avr_op_LD_Z_decr :: "'h hardware \<Rightarrow> nat \<Rightarrow> ('h avr_device, int) sim" where
  "avr_op_LD_Z_decr H Rd = ld_decr H 30 (GetRegZ H) Rd"

definition avr_op_LPM_Z :: "'h hardware \<Rightarrow> nat \<Rightarrow> ('h avr_device, int) sim" where
  "avr_op_LPM_Z H Rd =
     bnd (GetRegZ H) (\<lambda>Z. bnd (read_flash (unat (Z XOR 1))) (\<lambda>v. sq (SetCoreReg H Rd v) (ret 3)))"

definition avr_op_LPM :: "'h hardware \<Rightarrow> ('h avr_device, int) sim" where
  "avr_op_LPM H =
     bnd (GetRegZ H) (\<lambda>Z. bnd (read_flash (unat (Z XOR 1))) (\<lambda>v. sq (SetCoreReg H 0 v) (ret 3)))"

definition avr_op_LPM_Z_incr :: "'h hardware \<Rightarrow> nat \<Rightarrow> ('h avr_device, int) sim" where
  "avr_op_LPM_Z_incr H Rd =
     bnd (GetRegZ H) (\<lambda>Z. bnd (read_flash (unat (Z XOR 1))) (\<lambda>v.
     sq (SetCoreReg H Rd v) (sq (set_pair H 30 (Z + 1)) (ret 3))))"

section \<open>Shifts, moves and products\<close>

definition avr_op_LSR :: "'h hardware \<Rightarrow> nat \<Rightarrow> ('h avr_device, int) sim" where
  "avr_op_LSR H Rd =
     bnd (GetCoreReg H Rd) (\<lambda>rd.
     let res = drop_bit 1 rd AND 0x7f in
     sq (upd_status (shift_flags (rd AND 1 \<noteq> 0) False res)) (sq (SetCoreReg H Rd res) (ret 1)))"

definition avr_op_MOV :: "'h hardware \<Rightarrow> nat \<Rightarrow> nat \<Rightarrow> ('h avr_device, int) sim" where
  "avr_op_MOV H R1 R2 = bnd (GetCoreReg H R2) (\<lambda>v. sq (SetCoreReg H R1 v) (ret 1))"

definition avr_op_MOVW :: "'h hardware \<Rightarrow> nat \<Rightarrow> nat \<Rightarrow> ('h avr_device, int) sim" where
  "avr_op_MOVW H Rd Rs =
     bnd (GetCoreReg H Rs) (\<lambda>v. sq (SetCoreReg H Rd v)
     (bnd (GetCoreReg H (Rs + 1)) (\<lambda>v. sq (SetCoreReg H (Rd + 1) v) (ret 1))))"

definition avr_op_MUL :: "'h hardware \<Rightarrow> nat \<Rightarrow> nat \<Rightarrow> ('h avr_device, int) sim" where
  "avr_op_MUL H Rd Rr =
     bnd (GetCoreReg H Rd) (\<lambda>rd. bnd (GetCoreReg H Rr) (\<lambda>rr.
     let res = word_of_int (uint rd * uint rr) in mul_result H (drop_bit 15 res AND 1 \<noteq> 0) res))"

definition avr_op_MULS :: "'h hardware \<Rightarrow> nat \<Rightarrow> nat \<Rightarrow> ('h avr_device, int) sim" where
  "avr_op_MULS H Rd Rr =
     bnd (GetCoreReg H Rd) (\<lambda>rd. bnd (GetCoreReg H Rr) (\<lambda>rr.
     let res = word_of_int (sint rd * sint rr) in mul_result H (drop_bit 15 res AND 1 \<noteq> 0) res))"

definition avr_op_MULSU :: "'h hardware \<Rightarrow> nat \<Rightarrow> nat \<Rightarrow> ('h avr_device, int) sim" where
  "avr_op_MULSU H Rd Rr =
     bnd (GetCoreReg H Rd) (\<lambda>rd. bnd (GetCoreReg H Rr) (\<lambda>rr.
     let res = word_of_int (sint rd * uint rr) in mul_result H (drop_bit 15 res AND 1 \<noteq> 0) res))"

definition avr_op_NEG :: "'h hardware \<Rightarrow> nat \<Rightarrow> ('h avr_device, int) sim" where
  "avr_op_NEG H Rd =
     bnd (GetCoreReg H Rd) (\<lambda>rd.
     let res = (0 - rd) AND 0xff in
     sq (upd_status (\<lambda>s. (set_NS res (s\<lparr>sr_H := ((drop_bit 3 res OR drop_bit 3 rd) AND 1 \<noteq> 0),
           sr_V := (res = 0x80)\<rparr>))\<lparr>sr_Z := (res = 0), sr_C := (res \<noteq> 0)\<rparr>))
     (sq (SetCoreReg H Rd res) (ret 1)))"

definition avr_op_NOP :: "('h avr_device, int) sim" where
  "avr_op_NOP = ret 1"

definition avr_op_OR :: "'h hardware \<Rightarrow> nat \<Rightarrow> nat \<Rightarrow> ('h avr_device, int) sim" where
  "avr_op_OR H Rd Rr =
     bnd (GetCoreReg H Rd) (\<lambda>rd. bnd (GetCoreReg H Rr) (\<lambda>rr.
     let res = rd OR rr in
     sq (upd_status (logic_flags res)) (sq (SetCoreReg H Rd res) (ret 1))))"

definition avr_op_ORI :: "'h hardware \<Rightarrow> nat \<Rightarrow> byte \<Rightarrow> ('h avr_device, int) sim" where
  "avr_op_ORI H R1 K =
     bnd (GetCoreReg H R1) (\<lambda>rd.
     let res = rd OR K in
     sq (upd_status (logic_flags res)) (sq (SetCoreReg H R1 res) (ret 1)))"

definition avr_op_OUT :: "'h hardware \<Rightarrow> nat \<Rightarrow> nat \<Rightarrow> ('h avr_device, int) sim" where
  "avr_op_OUT H R1 ioreg = bnd (GetCoreReg H R1) (\<lambda>v. sq (SetIOReg H ioreg v) (ret 1))"

definition avr_op_POP :: "'h hardware \<Rightarrow> nat \<Rightarrow> ('h avr_device, int) sim" where
  "avr_op_POP H R1 = bnd (Pop H) (\<lambda>v. sq (SetCoreReg H R1 v) (ret 2))"

definition avr_op_PUSH :: "'h hardware \<Rightarrow> nat \<Rightarrow> ('h avr_device, int) sim" where
  "avr_op_PUSH H R1 =
     bnd (GetCoreReg H R1) (\<lambda>v. sq (Push H v)
     (bnd get_flags (\<lambda>fl. ret (if flagXMega fl then 1 else 2))))"

section \<open>Calls, returns, jumps and skips\<close>

text \<open>\<open>PC += K; PC &= (Flash->GetSize() - 1) >> 1;\<close>\<close>

definition jump_relative :: "int \<Rightarrow> ('h avr_device, unit) sim" where
  "jump_relative K =
     sq (add_PC K)
     (modify (\<lambda>d. d\<lparr>PC := PC d AND ucast (drop_bit 1 (word_of_nat (flash_size (flash d)) - 1 :: word32))\<rparr>))"

definition avr_op_RCALL :: "'h hardware \<Rightarrow> int \<Rightarrow> ('h avr_device, int) sim" where
  "avr_op_RCALL H K =
     bnd (gets PC) (\<lambda>pc.
     sq (PushAddr H (unat pc + 1))
     (sq (OnCall H)
     (sq DebugOnJump
     (sq (jump_relative K)
     (bnd (gets (\<lambda>d. (PC_size d, flags (conf d)))) (\<lambda>(pcs, fl).
      if flagTiny10 fl then ret 4 else ret (pcs + (if flagXMega fl then 0 else 1))))))))"

definition avr_op_RET :: "'h hardware \<Rightarrow> ('h avr_device, int) sim" where
  "avr_op_RET H =
     bnd (PopAddr H) (\<lambda>a. sq (set_PC (int a - 1)) (bnd (gets PC_size) (\<lambda>pcs. ret (pcs + 2))))"

definition avr_op_RETI :: "'h hardware \<Rightarrow> ('h avr_device, int) sim" where
  "avr_op_RETI H =
     bnd (PopAddr H) (\<lambda>a. sq (set_PC (int a - 1))
     (sq (upd_status (\<lambda>s. s\<lparr>sr_I := True\<rparr>)) (bnd (gets PC_size) (\<lambda>pcs. ret (pcs + 2)))))"

definition avr_op_RJMP :: "int \<Rightarrow> ('h avr_device, int) sim" where
  "avr_op_RJMP K = sq DebugOnJump (sq (jump_relative K) (ret 2))"

definition avr_op_ROR :: "'h hardware \<Rightarrow> nat \<Rightarrow> ('h avr_device, int) sim" where
  "avr_op_ROR H R1 =
     bnd (GetCoreReg H R1) (\<lambda>rd. bnd (gets (\<lambda>d. sr_C (status d))) (\<lambda>c.
     let res = drop_bit 1 rd OR (push_bit 7 (of_bool c) AND 0x80) in
     sq (upd_status (shift_flags (rd AND 1 \<noteq> 0) (bitb res 7 \<noteq> 0) res))
     (sq (SetCoreReg H R1 res) (ret 1))))"

definition avr_op_SBC :: "'h hardware \<Rightarrow> nat \<Rightarrow> nat \<Rightarrow> ('h avr_device, int) sim" where
  "avr_op_SBC H R1 R2 =
     bnd (GetCoreReg H R1) (\<lambda>rd. bnd (GetCoreReg H R2) (\<lambda>rr.
     bnd (gets (\<lambda>d. sr_C (status d))) (\<lambda>c.
     let res = rd - rr - of_bool c in
     sq (upd_status (sbc_flags res rd rr)) (sq (SetCoreReg H R1 res) (ret 1)))))"

definition avr_op_SBCI :: "'h hardware \<Rightarrow> nat \<Rightarrow> byte \<Rightarrow> ('h avr_device, int) sim" where
  "avr_op_SBCI H R1 K =
     bnd (GetCoreReg H R1) (\<lambda>rd. bnd (gets (\<lambda>d. sr_C (status d))) (\<lambda>c.
     let res = rd - K - of_bool c in
     sq (upd_status (sbc_flags res rd K)) (sq (SetCoreReg H R1 res) (ret 1))))"

definition avr_op_SBI :: "'h hardware \<Rightarrow> nat \<Rightarrow> nat \<Rightarrow> ('h avr_device, int) sim" where
  "avr_op_SBI H ioreg Kbit =
     bnd get_flags (\<lambda>fl.
     sq (SetIORegBit H ioreg Kbit True)
     (ret (if flagXMega fl \<or> flagTiny10 fl then 1 else 2)))"

definition avr_op_SBIC :: "'h hardware \<Rightarrow> nat \<Rightarrow> nat \<Rightarrow> ('h avr_device, int) sim" where
  "avr_op_SBIC H ioreg Kbit =
     bnd skip_words (\<lambda>skip. bnd (GetIOReg H ioreg) (\<lambda>v.
     bnd (skip_if (v AND push_bit Kbit 1 = 0) skip) (\<lambda>clks.
     bnd get_flags (\<lambda>fl. ret (if flagXMega fl then clks + 1 else clks)))))"

definition avr_op_SBIS :: "'h hardware \<Rightarrow> nat \<Rightarrow> nat \<Rightarrow> ('h avr_device, int) sim" where
  "avr_op_SBIS H ioreg Kbit =
     bnd skip_words (\<lambda>skip. bnd (GetIOReg H ioreg) (\<lambda>v.
     bnd (skip_if (v AND push_bit Kbit 1 \<noteq> 0) skip) (\<lambda>clks.
     bnd get_flags (\<lambda>fl. ret (if flagXMega fl then clks + 1 else clks)))))"

definition sbiw_flags :: "word16 \<Rightarrow> byte \<Rightarrow> hwsreg \<Rightarrow> hwsreg" where
  "sbiw_flags res rdh s =
     (let v = (bitb rdh 7 AND NOT (drop_bit 15 (uint res) AND 1)) \<noteq> 0;
          n = drop_bit 15 (uint res) AND 1 \<noteq> 0
      in s\<lparr>sr_V := v, sr_N := n, sr_S := (n \<noteq> v), sr_Z := (res AND 0xffff = 0),
           sr_C := ((drop_bit 15 (uint res) AND 1) AND NOT (bitb rdh 7)) \<noteq> 0\<rparr>)"

definition avr_op_SBIW :: "'h hardware \<Rightarrow> nat \<Rightarrow> byte \<Rightarrow> ('h avr_device, int) sim" where
  "avr_op_SBIW H R1 K =
     bnd (GetCoreReg H R1) (\<lambda>rdl. bnd (GetCoreReg H (R1 + 1)) (\<lambda>rdh.
     let rd = push_bit 8 (ucast rdh) + ucast rdl; res = rd - ucast K in
     sq (upd_status (sbiw_flags res rdh)) (sq (set_pair H R1 res) (ret 2))))"

definition avr_op_SBRC :: "'h hardware \<Rightarrow> nat \<Rightarrow> nat \<Rightarrow> ('h avr_device, int) sim" where
  "avr_op_SBRC H R1 Kbit =
     bnd skip_words (\<lambda>skip. bnd (GetCoreReg H R1) (\<lambda>v. skip_if (v AND push_bit Kbit 1 = 0) skip))"

definition avr_op_SBRS :: "'h hardware \<Rightarrow> nat \<Rightarrow> nat \<Rightarrow> ('h avr_device, int) sim" where
  "avr_op_SBRS H R1 Kbit =
     bnd skip_words (\<lambda>skip. bnd (GetCoreReg H R1) (\<lambda>v. skip_if (v AND push_bit Kbit 1 \<noteq> 0) skip))"

definition avr_op_SLEEP :: "('h avr_device, int) sim" where
  "avr_op_SLEEP = ret 1"

definition avr_op_SPM :: "'h hardware \<Rightarrow> ('h avr_device, int) sim" where
  "avr_op_SPM H =
     bnd rampz_val (\<lambda>xaddr.
     bnd (gets spmRegister) (\<lambda>p.
     if p = None then ret 1
     else bnd (GetRegZ H) (\<lambda>Z. bnd (spm_data H) (\<lambda>D.
       bnd (call_SPM_action D xaddr Z) (\<lambda>cycles. ret (1 + cycles))))))"

section \<open>Stores\<close>

definition avr_op_STD_Y :: "'h hardware \<Rightarrow> nat \<Rightarrow> nat \<Rightarrow> ('h avr_device, int) sim" where
  "avr_op_STD_Y H R1 K =
     bnd (GetRegY H) (\<lambda>Y. bnd (GetCoreReg H R1) (\<lambda>v.
     sq (SetRWMem H (unat Y + K) v) (bnd get_flags (\<lambda>fl. ret (displ_clocks fl K)))))"

definition avr_op_STD_Z :: "'h hardware \<Rightarrow> nat \<Rightarrow> nat \<Rightarrow> ('h avr_device, int) sim" where
  "avr_op_STD_Z H R1 K =
     bnd (GetRegZ H) (\<lambda>Z. bnd (GetCoreReg H R1) (\<lambda>v.
     sq (SetRWMem H (unat Z + K) v) (bnd get_flags (\<lambda>fl. ret (displ_clocks fl K)))))"

definition avr_op_STS :: "'h hardware \<Rightarrow> nat \<Rightarrow> ('h avr_device, int) sim" where
  "avr_op_STS H R1 =
     bnd second_word (\<lambda>k. bnd (GetCoreReg H R1) (\<lambda>v.
     sq (SetRWMem H (unat k) v) (sq (add_PC 1) (ret 2))))"

definition avr_op_ST_X :: "'h hardware \<Rightarrow> nat \<Rightarrow> ('h avr_device, int) sim" where
  "avr_op_ST_X H R1 =
     bnd (GetRegX H) (\<lambda>X. bnd (GetCoreReg H R1) (\<lambda>v.
     sq (SetRWMem H (unat X) v)
     (bnd get_flags (\<lambda>fl. ret (if flagXMega fl \<or> flagTiny10 fl then 1 else 2)))))"

text \<open>The bodies that ST -X, -Y, -Z (ST X+, Y+, Z+) share.\<close>

definition st_decr :: "'h hardware \<Rightarrow> nat \<Rightarrow> ('h avr_device, word16) sim \<Rightarrow> nat \<Rightarrow> ('h avr_device, int) sim" where
  "st_decr H lo getp R1 =
     bnd getp (\<lambda>p.
     if R1 = lo \<or> R1 = lo + 1 then fail UndefinedResult
     else let p' = p - 1 in
       sq (set_pair H lo p') (bnd (GetCoreReg H R1) (\<lambda>v.
       sq (SetRWMem H (unat p') v) (ret 2))))"

definition st_incr :: "'h hardware \<Rightarrow> nat \<Rightarrow> ('h avr_device, word16) sim \<Rightarrow> nat \<Rightarrow> ('h avr_device, int) sim" where
  "st_incr H lo getp R1 =
     bnd getp (\<lambda>p.
     if R1 = lo \<or> R1 = lo + 1 then fail UndefinedResult
     else bnd (GetCoreReg H R1) (\<lambda>v.
       sq (SetRWMem H (unat p) v) (sq (set_pair H lo (p + 1))
       (bnd get_flags (\<lambda>fl. ret (if flagXMega fl \<or> flagTiny10 fl then 1 else 2))))))"

definition avr_op_ST_X_decr :: "'h hardware \<Rightarrow> nat \<Rightarrow> ('h avr_device, int) sim" where
  "avr_op_ST_X_decr H R1 = st_decr H 26 (GetRegX H) R1"

definition avr_op_ST_X_incr :: "'h hardware \<Rightarrow> nat \<Rightarrow> ('h avr_device, int) sim" where
  "avr_op_ST_X_incr H R1 = st_incr H 26 (GetRegX H) R1"

definition avr_op_ST_Y_decr :: "'h hardware \<Rightarrow> nat \<Rightarrow> ('h avr_device, int) sim" where
  "avr_op_ST_Y_decr H R1 = st_decr H 28 (GetRegY H) R1"

definition avr_op_ST_Y_incr :: "'h hardware \<Rightarrow> nat \<Rightarrow> ('h avr_device, int) sim" where
  "avr_op_ST_Y_incr H R1 = st_incr H 28 (GetRegY H) R1"

definition avr_op_ST_Z_decr :: "'h hardware \<Rightarrow> nat \<Rightarrow> ('h avr_device, int) sim" where
  "avr_op_ST_Z_decr H R1 = st_decr H 30 (GetRegZ H) R1"

definition avr_op_ST_Z_incr :: "'h hardware \<Rightarrow> nat \<Rightarrow> ('h avr_device, int) sim" where
  "avr_op_ST_Z_incr H R1 = st_incr H 30 (GetRegZ H) R1"

section \<open>The remaining instructions\<close>

definition avr_op_SUB :: "'h hardware \<Rightarrow> nat \<Rightarrow> nat \<Rightarrow> ('h avr_device, int) sim" where
  "avr_op_SUB H R1 R2 =
     bnd (GetCoreReg H R1) (\<lambda>rd. bnd (GetCoreReg H R2) (\<lambda>rr.
     let res = rd - rr in
     sq (upd_status (sub_flags res rd rr)) (sq (SetCoreReg H R1 res) (ret 1))))"

definition avr_op_SUBI :: "'h hardware \<Rightarrow> nat \<Rightarrow> byte \<Rightarrow> ('h avr_device, int) sim" where
  "avr_op_SUBI H R1 K =
     bnd (GetCoreReg H R1) (\<lambda>rd.
     let res = rd - K in
     sq (upd_status (sub_flags res rd K)) (sq (SetCoreReg H R1 res) (ret 1)))"

definition avr_op_SWAP :: "'h hardware \<Rightarrow> nat \<Rightarrow> ('h avr_device, int) sim" where
  "avr_op_SWAP H R1 =
     bnd (GetCoreReg H R1) (\<lambda>rd.
     let res = (push_bit 4 rd AND 0xf0) OR (drop_bit 4 rd AND 0x0f) in
     sq (SetCoreReg H R1 res) (ret 1))"

definition avr_op_WDR :: "('h avr_device, int) sim" where
  "avr_op_WDR = sq (modify (\<lambda>d. d\<lparr>wado := map_option (Wdr (sysTime d)) (wado d)\<rparr>)) (ret 1)"

definition BREAK_POINT :: int where
  "BREAK_POINT = - 2"

definition avr_op_BREAK :: "('h avr_device, int) sim" where
  "avr_op_BREAK = ret (BREAK_POINT + 1)"

definition avr_op_ILLEGAL :: "('h avr_device, int) sim" where
  "avr_op_ILLEGAL = fail IllegalOpcode"

section \<open>Dispatch\<close>

definition exec_plain :: "'h hardware \<Rightarrow> op_plain \<Rightarrow> ('h avr_device, int) sim" where
  "exec_plain H op =
     (case op of
        EICALL \<Rightarrow> avr_op_EICALL H | EIJMP \<Rightarrow> avr_op_EIJMP H | ELPM \<Rightarrow> avr_op_ELPM H
      | ESPM \<Rightarrow> avr_op_ESPM H | ICALL \<Rightarrow> avr_op_ICALL H | IJMP \<Rightarrow> avr_op_IJMP H
      | LPM \<Rightarrow> avr_op_LPM H | NOP \<Rightarrow> avr_op_NOP | RET \<Rightarrow> avr_op_RET H | RETI \<Rightarrow> avr_op_RETI H
      | SLEEP \<Rightarrow> avr_op_SLEEP | SPM \<Rightarrow> avr_op_SPM H | WDR \<Rightarrow> avr_op_WDR
      | BREAK \<Rightarrow> avr_op_BREAK | ILLEGAL \<Rightarrow> avr_op_ILLEGAL)"

definition exec_rr :: "'h hardware \<Rightarrow> op_rr \<Rightarrow> nat \<Rightarrow> nat \<Rightarrow> ('h avr_device, int) sim" where
  "exec_rr H op =
     (case op of
        ADC \<Rightarrow> avr_op_ADC H | ADD \<Rightarrow> avr_op_ADD H | AND_op \<Rightarrow> avr_op_AND H | CP \<Rightarrow> avr_op_CP H
      | CPC \<Rightarrow> avr_op_CPC H | CPSE \<Rightarrow> avr_op_CPSE H | EOR \<Rightarrow> avr_op_EOR H | MOV \<Rightarrow> avr_op_MOV H
      | MUL \<Rightarrow> avr_op_MUL H | OR_op \<Rightarrow> avr_op_OR H | SBC \<Rightarrow> avr_op_SBC H | SUB \<Rightarrow> avr_op_SUB H
      | MOVW \<Rightarrow> avr_op_MOVW H | MULS \<Rightarrow> avr_op_MULS H | MULSU \<Rightarrow> avr_op_MULSU H
      | FMUL \<Rightarrow> avr_op_FMUL H | FMULS \<Rightarrow> avr_op_FMULS H | FMULSU \<Rightarrow> avr_op_FMULSU H)"

definition exec_r :: "'h hardware \<Rightarrow> op_r \<Rightarrow> nat \<Rightarrow> ('h avr_device, int) sim" where
  "exec_r H op =
     (case op of
        ASR \<Rightarrow> avr_op_ASR H | COM \<Rightarrow> avr_op_COM H | DEC \<Rightarrow> avr_op_DEC H
      | ELPM_Z \<Rightarrow> avr_op_ELPM_Z H | ELPM_Z_incr \<Rightarrow> avr_op_ELPM_Z_incr H | INC \<Rightarrow> avr_op_INC H
      | LDS \<Rightarrow> avr_op_LDS H | LD_X \<Rightarrow> avr_op_LD_X H | LD_X_decr \<Rightarrow> avr_op_LD_X_decr H
      | LD_X_incr \<Rightarrow> avr_op_LD_X_incr H | LD_Y_decr \<Rightarrow> avr_op_LD_Y_decr H
      | LD_Y_incr \<Rightarrow> avr_op_LD_Y_incr H | LD_Z_decr \<Rightarrow> avr_op_LD_Z_decr H
      | LD_Z_incr \<Rightarrow> avr_op_LD_Z_incr H | LPM_Z \<Rightarrow> avr_op_LPM_Z H | LPM_Z_incr \<Rightarrow> avr_op_LPM_Z_incr H
      | LSR \<Rightarrow> avr_op_LSR H | NEG \<Rightarrow> avr_op_NEG H | POP \<Rightarrow> avr_op_POP H | PUSH \<Rightarrow> avr_op_PUSH H
      | ROR \<Rightarrow> avr_op_ROR H | STS \<Rightarrow> avr_op_STS H | ST_X \<Rightarrow> avr_op_ST_X H
      | ST_X_decr \<Rightarrow> avr_op_ST_X_decr H | ST_X_incr \<Rightarrow> avr_op_ST_X_incr H
      | ST_Y_decr \<Rightarrow> avr_op_ST_Y_decr H | ST_Y_incr \<Rightarrow> avr_op_ST_Y_incr H
      | ST_Z_decr \<Rightarrow> avr_op_ST_Z_decr H | ST_Z_incr \<Rightarrow> avr_op_ST_Z_incr H | SWAP \<Rightarrow> avr_op_SWAP H)"

definition exec_rk :: "'h hardware \<Rightarrow> op_rk \<Rightarrow> nat \<Rightarrow> byte \<Rightarrow> ('h avr_device, int) sim" where
  "exec_rk H op =
     (case op of
        ANDI \<Rightarrow> avr_op_ANDI H | CPI \<Rightarrow> avr_op_CPI H | LDI \<Rightarrow> avr_op_LDI H | ORI \<Rightarrow> avr_op_ORI H
      | SBCI \<Rightarrow> avr_op_SBCI H | SUBI \<Rightarrow> avr_op_SUBI H | SBIW \<Rightarrow> avr_op_SBIW H)"

definition exec :: "'h hardware \<Rightarrow> instr \<Rightarrow> ('h avr_device, int) sim" where
  "exec H i =
     (case i of
        Plain op \<Rightarrow> exec_plain H op
      | RR op R1 R2 \<Rightarrow> exec_rr H op R1 R2
      | R op R1 \<Rightarrow> exec_r H op R1
      | RK op R1 K \<Rightarrow> exec_rk H op R1 K
      | ADIW Rl Rh K \<Rightarrow> avr_op_ADIW H Rl Rh K
      | RB op R1 Kbit \<Rightarrow>
          (case op of BLD \<Rightarrow> avr_op_BLD H R1 Kbit | BST \<Rightarrow> avr_op_BST H R1 Kbit
           | SBRC \<Rightarrow> avr_op_SBRC H R1 Kbit | SBRS \<Rightarrow> avr_op_SBRS H R1 Kbit)
      | BR op bitmask offset \<Rightarrow>
          (case op of BRBC \<Rightarrow> avr_op_BRBC bitmask offset | BRBS \<Rightarrow> avr_op_BRBS bitmask offset)
      | RQ op Rd K \<Rightarrow>
          (case op of LDD_Y \<Rightarrow> avr_op_LDD_Y H Rd K | LDD_Z \<Rightarrow> avr_op_LDD_Z H Rd K
           | STD_Y \<Rightarrow> avr_op_STD_Y H Rd K | STD_Z \<Rightarrow> avr_op_STD_Z H Rd K)
      | K22 op k \<Rightarrow> (case op of CALL \<Rightarrow> avr_op_CALL H k | JMP \<Rightarrow> avr_op_JMP k)
      | SB op Kbit \<Rightarrow> (case op of BCLR \<Rightarrow> avr_op_BCLR Kbit | BSET \<Rightarrow> avr_op_BSET Kbit)
      | AB op ioreg Kbit \<Rightarrow>
          (case op of CBI \<Rightarrow> avr_op_CBI H ioreg Kbit | SBI \<Rightarrow> avr_op_SBI H ioreg Kbit
           | SBIC \<Rightarrow> avr_op_SBIC H ioreg Kbit | SBIS \<Rightarrow> avr_op_SBIS H ioreg Kbit)
      | IOR op R1 ioreg \<Rightarrow> (case op of IN_op \<Rightarrow> avr_op_IN H R1 ioreg | OUT \<Rightarrow> avr_op_OUT H R1 ioreg)
      | K12 op K \<Rightarrow> (case op of RCALL \<Rightarrow> avr_op_RCALL H K | RJMP \<Rightarrow> avr_op_RJMP K))"

end
