(* ===== verification/Avr_Step.thy ===== *)
theory Avr_Step
  imports Avr_Exec
begin

text \<open>
  One clock cycle of the core: \<open>AvrDevice::opIsCli\<close> and \<open>AvrDevice::Step\<close> of
  \<^verbatim>\<open>src/src/avrdevice.cpp\<close>.

  \<open>Step\<close> first clocks every part in \<open>hwCycleList\<close>. Unless one of them holds the CPU or an
  instruction is still in its wait states, it then handles breakpoints and termination points,
  enters a prepared interrupt or prepares one, executes an instruction, and advances \<open>PC\<close>. Its
  out-parameters are part of the result: \<open>finished\<close> is \<open>untilCoreStepFinished\<close> (\<open>None\<close>: not
  assigned) and \<open>nextIn\<close> is \<open>*nextStepIn_ns\<close> (\<open>None\<close>: not assigned).
\<close>

section \<open>The step function\<close>

record step_result =
  finished :: "bool option"
  nextIn :: "int option"
  result :: int

definition opIsCli :: "'h hardware \<Rightarrow> word16 \<Rightarrow> ('h avr_device, bool) sim" where
  "opIsCli H opcode =
     (if opcode = 0x94f8 then ret True
      else if opcode AND 0xb800 = 0xb800 then
        let addr = unat ((drop_bit 5 opcode AND 0x0030) OR (opcode AND 0x000f)) in
        bnd (gets (\<lambda>d. rw d (registerSpaceSize + addr))) (\<lambda>cell.
        if cell = RWSregCell then
          bnd (GetCoreReg H (unat (drop_bit 4 opcode AND 0x001f))) (\<lambda>v. ret (v AND 0x80 = 0))
        else ret False)
      else ret False)"

text \<open>
  The loop over \<open>hwCycleList\<close> goes by index and compares with the current size of the list. The
  fuel is a bound on the number of iterations; each part that adds itself while it is clocked
  would need one more.
\<close>

primrec cycle_loop :: "'h hardware \<Rightarrow> nat \<Rightarrow> nat \<Rightarrow> bool \<Rightarrow> ('h avr_device, bool) sim" where
  "cycle_loop H 0 i hwWait = fail LoopBound"
| "cycle_loop H (Suc fuel) i hwWait =
     bnd (gets hwCycleList) (\<lambda>l.
     if i < length l then
       bnd (Hardware_CpuCycle H (l ! i)) (\<lambda>r. cycle_loop H fuel (i + 1) (r > 0 \<or> hwWait))
     else ret hwWait)"

definition clock_parts :: "'h hardware \<Rightarrow> ('h avr_device, bool) sim" where
  "clock_parts H =
     bnd (gets (\<lambda>d. length (hwResetList d) + length (hwCycleList d) + 1)) (\<lambda>fuel.
     cycle_loop H fuel 0 False)"

text \<open>The entry into a prepared interrupt.\<close>

definition enter_irq :: "'h hardware \<Rightarrow> ('h avr_device, unit) sim" where
  "enter_irq H =
     sq (modify (\<lambda>d. d\<lparr>deferIrq := False\<rparr>))
     (bnd (gets (\<lambda>d. (actualIrqVector d, sysTime d))) (\<lambda>(v, now).
     sq (on_irq (IrqHandlerStarted now v))
     (sq (modify (\<lambda>d. SetReturnPoint (unat (stackPointer (stack d))) v d))
     (bnd (gets PC) (\<lambda>pc.
     sq (PushAddr H (unat pc))
     (modify (\<lambda>d. d\<lparr>cpuCycles := 4, status := (status d)\<lparr>sr_I := False\<rparr>,
                    PC := ucast (newIrqPc d - 1)\<rparr>)))))))"

definition prepare_irq :: "'h hardware \<Rightarrow> ('h avr_device, unit) sim" where
  "prepare_irq H =
     bnd (gets (\<lambda>d. sr_I (status d))) (\<lambda>i.
     if \<not> i then ret ()
     else bnd (asks (\<lambda>d. GetOpcode (unat (PC d)) (flash d))) (\<lambda>opcode.
       bnd (opIsCli H opcode) (\<lambda>cli.
       if cli then ret ()
       else bnd (GetNewPc H) (\<lambda>pc.
         modify (\<lambda>d. d\<lparr>newIrqPc := pc, deferIrq := (pc \<noteq> no_irq \<or> deferIrq d)\<rparr>)))))"

text \<open>Fetching and executing one instruction.\<close>

definition execute :: "'h hardware \<Rightarrow> ('h avr_device, unit) sim" where
  "execute H =
     bnd (gets (\<lambda>d. unat (PC d) * 2 \<ge> flash_size (flash d))) (\<lambda>out.
     if out then fail OutOfFlash
     else bnd (asks (\<lambda>d. GetInstruction (unat (PC d)) (flash d))) (\<lambda>de.
       bnd (exec H de) (\<lambda>clks. modify (\<lambda>d. d\<lparr>cpuCycles := clks\<rparr>))))"

text \<open>The branch in which the CPU is neither held nor waiting.\<close>

definition core_step :: "'h hardware \<Rightarrow> ('h avr_device, unit) sim" where
  "core_step H =
     bnd (gets (\<lambda>d. deferIrq d \<and> newIrqPc d \<noteq> no_irq)) (\<lambda>pending.
     sq (if pending then enter_irq H else prepare_irq H)
     (bnd (gets cpuCycles) (\<lambda>c.
     sq (whenM (c \<le> 0) (execute H))
     (modify (\<lambda>d. d\<lparr>PC := PC d + 1, cpuCycles := cpuCycles d - 1\<rparr>)))))"

definition Step_end :: "bool \<Rightarrow> ('h avr_device, step_result) sim" where
  "Step_end hwWait =
     gets (\<lambda>d. \<lparr>finished = Some (\<not> (cpuCycles d > 0 \<or> hwWait)), nextIn = Some (clockFreq (conf d)),
                result = (if cpuCycles d < 0 then cpuCycles d else 0)\<rparr>)"

definition AvrDevice_Step :: "'h hardware \<Rightarrow> ('h avr_device, step_result) sim" where
  "AvrDevice_Step H =
     sq (modify (\<lambda>d. if cpuCycles d \<le> 0 then d\<lparr>cPC := PC d\<rparr> else d))
     (bnd (clock_parts H) (\<lambda>hwWait.
      bnd (gets cpuCycles) (\<lambda>c.
      if hwWait then Step_end True
      else if c \<le> 0 then
        bnd (gets (\<lambda>d. (unat (PC d) \<in> set (BP d), unat (PC d) \<in> set (EP d)))) (\<lambda>(bp, ep).
        if bp then gets (\<lambda>d. \<lparr>finished = Some (\<not> (cpuCycles d > 0)), nextIn = Some (clockFreq (conf d)),
                              result = BREAK_POINT\<rparr>)
        else if ep then
          sq (modify (\<lambda>d. d\<lparr>stopRequested := True\<rparr>)) (ret \<lparr>finished = None, nextIn = None, result = 0\<rparr>)
        else sq (core_step H) (Step_end False))
      else sq (modify (\<lambda>d. d\<lparr>cpuCycles := cpuCycles d - 1\<rparr>)) (Step_end False))))"

end
