(* ===== verification/Avr_Invariant.thy ===== *)
theory Avr_Invariant
  imports Avr_Step
begin

text \<open>
  The device invariant and the contract of peripherals.

  \<open>dev_ok\<close> says that the device is built as the constructors build it and stays so: registers
  are RAM, the decoded flash agrees with the flash bytes, the interrupt tables are ordered and
  refer to existing vectors, the SPM buffer has the size of a page, the current thread exists.
  The locale \<open>peripherals\<close> states what the core relies on when it calls a peripheral; inside it
  every instruction, \<open>Reset\<close> and \<open>AvrDevice_Step\<close> keep the invariant.
\<close>

section \<open>Invariant\<close>

definition stack_ok :: "nat \<Rightarrow> hwstack \<Rightarrow> bool" where
  "stack_ok n s \<longleftrightarrow> (\<forall>v \<in> snd ` set (returnPointList s). v < n)"

definition dev_ok :: "nat \<Rightarrow> 'h avr_device \<Rightarrow> bool" where
  "dev_ok N d \<longleftrightarrow>
     regs_ok d \<and>
     flash_ok (flags (conf d)) (flash d) \<and>
     irq_ok (irq d) \<and> vectorTableSize (irq d) = N \<and>
     stack_ok N (stack d) \<and>
     (\<forall>p. spmRegister d = Some p \<longrightarrow> spm_ok p) \<and>
     m_cur_thread (threads d) < length (m_threads (threads d)) \<and>
     (deferIrq d \<and> newIrqPc d \<noteq> no_irq \<longrightarrow> actualIrqVector d < N)"

lemma dev_ok_simps [simp]:
  "dev_ok N (d\<lparr>PC := x1\<rparr>) = dev_ok N d"
  "dev_ok N (d\<lparr>cPC := x1\<rparr>) = dev_ok N d"
  "dev_ok N (d\<lparr>PC_size := x2\<rparr>) = dev_ok N d"
  "dev_ok N (d\<lparr>cpuCycles := x3\<rparr>) = dev_ok N d"
  "dev_ok N (d\<lparr>status := x4\<rparr>) = dev_ok N d"
  "dev_ok N (d\<lparr>rampz := x5\<rparr>) = dev_ok N d"
  "dev_ok N (d\<lparr>eind := x5\<rparr>) = dev_ok N d"
  "dev_ok N (d\<lparr>wado := x6\<rparr>) = dev_ok N d"
  "dev_ok N (d\<lparr>recentJumps := x7\<rparr>) = dev_ok N d"
  "dev_ok N (d\<lparr>recentJumpsIndex := x8\<rparr>) = dev_ok N d"
  "dev_ok N (d\<lparr>hwResetList := x9\<rparr>) = dev_ok N d"
  "dev_ok N (d\<lparr>hwCycleList := x9\<rparr>) = dev_ok N d"
  "dev_ok N (d\<lparr>BP := x10\<rparr>) = dev_ok N d"
  "dev_ok N (d\<lparr>EP := x10\<rparr>) = dev_ok N d"
  "dev_ok N (d\<lparr>sysTime := x11\<rparr>) = dev_ok N d"
  "dev_ok N (d\<lparr>stopRequested := x12\<rparr>) = dev_ok N d"
  "dev_ok N (d\<lparr>hw := x13\<rparr>) = dev_ok N d"
  by (simp_all add: dev_ok_def regs_ok_def)

named_theorems dev_keeps \<open>operations that keep the device invariant\<close>

lemma keeps_prod [keeps_intros]:
  "(\<And>a b. x = (a, b) \<Longrightarrow> keeps P (f a b)) \<Longrightarrow> keeps P (case x of (a, b) \<Rightarrow> f a b)"
  by (cases x) auto

lemma keeps_rwcell:
  assumes "\<And>v. keeps P (f1 v)" "keeps P m2" "keeps P m3" "\<And>v. keeps P (f4 v)" "\<And>v. keeps P (f5 v)"
    "\<And>t v. keeps P (f6 t v)" "keeps P m7" "keeps P m8" "keeps P m9" "keeps P m10" "keeps P m11"
    "keeps P m12" "keeps P m13" "\<And>n. keeps P (f14 n)"
  shows "keeps P (case c of RAM v \<Rightarrow> f1 v | InvalidMem \<Rightarrow> m2 | NotSimulatedRegister \<Rightarrow> m3
     | GPIORegister v \<Rightarrow> f4 v | XDIVRegister v \<Rightarrow> f5 v | OSCCALRegister t v \<Rightarrow> f6 t v
     | RWSregCell \<Rightarrow> m7 | SphReg \<Rightarrow> m8 | SplReg \<Rightarrow> m9 | RampzReg \<Rightarrow> m10 | EindReg \<Rightarrow> m11
     | SpmcrReg \<Rightarrow> m12 | WdtcrReg \<Rightarrow> m13 | IOCell n \<Rightarrow> f14 n)"
  using assms by (cases c) auto

lemma keeps_stack_kind [keeps_intros]:
  "(\<And>c b. k = HWStackSram c b \<Longrightarrow> keeps P (f c b)) \<Longrightarrow>
   (\<And>x y z. k = ThreeLevelStack x y z \<Longrightarrow> keeps P (g x y z)) \<Longrightarrow>
   keeps P (case k of HWStackSram c b \<Rightarrow> f c b | ThreeLevelStack x y z \<Rightarrow> g x y z)"
  by (cases k) auto

lemma keeps_deref [keeps_intros]: "keeps P (deref x)"
  unfolding deref_def by (intro keeps_intros)

section \<open>Stack, threads and interrupt statistics\<close>

lemma dev_ok_threads:
  "dev_ok N d \<Longrightarrow> m_cur_thread t < length (m_threads t) \<Longrightarrow> dev_ok N (d\<lparr>threads := t\<rparr>)"
  by (simp add: dev_ok_def regs_ok_def)

lemma dev_ok_cur: "dev_ok N d \<Longrightarrow> m_cur_thread (threads d) < length (m_threads (threads d))"
  by (simp add: dev_ok_def)

lemma dev_ok_stack:
  "dev_ok N d \<Longrightarrow> stack_ok N s \<Longrightarrow> dev_ok N (d\<lparr>stack := s\<rparr>)"
  by (simp add: dev_ok_def regs_ok_def)

lemma dev_ok_stack_ok: "dev_ok N d \<Longrightarrow> stack_ok N (stack d)"
  by (simp add: dev_ok_def)

lemma dev_ok_stack_same:
  "dev_ok N d \<Longrightarrow> set (returnPointList s) \<subseteq> set (returnPointList (stack d)) \<Longrightarrow> dev_ok N (d\<lparr>stack := s\<rparr>)"
proof (rule dev_ok_stack)
  assume d: "dev_ok N d" and "set (returnPointList s) \<subseteq> set (returnPointList (stack d))"
  then have "snd ` set (returnPointList s) \<subseteq> snd ` set (returnPointList (stack d))" by (intro image_mono)
  with dev_ok_stack_ok [OF d] show "stack_ok N s" unfolding stack_ok_def by blast
qed

lemma dev_ok_irq:
  "dev_ok N d \<Longrightarrow> irq_ok q \<Longrightarrow> vectorTableSize q = vectorTableSize (irq d) \<Longrightarrow> dev_ok N (d\<lparr>irq := q\<rparr>)"
  by (simp add: dev_ok_def regs_ok_def)

lemma keeps_upd_threads:
  "(\<And>t. m_cur_thread t < length (m_threads t) \<Longrightarrow> m_cur_thread (f t) < length (m_threads (f t))) \<Longrightarrow>
   keeps (dev_ok N) (upd_threads f)"
  unfolding upd_threads_def by (intro keeps_modify dev_ok_threads) (simp_all add: dev_ok_cur)

lemma keeps_OnSP [dev_keeps]:
  "keeps (dev_ok N) (OnSPRead n)" "keeps (dev_ok N) (OnSPWrite n)" "keeps (dev_ok N) OnPush"
  unfolding OnSPRead_def OnSPWrite_def OnPush_def
  by (intro keeps_intros keeps_upd_threads; simp)+

lemma GetThreadBySP_less: "GetThreadBySP sp ts = Some n \<Longrightarrow> n < length ts"
  by (induction ts arbitrary: n) (auto split: if_splits)

lemma switch_thread_cur:
  "m_cur_thread (switch_thread sp t) < length (m_threads (switch_thread sp t))"
  by (auto simp: switch_thread_def Let_def split: option.splits dest: GetThreadBySP_less)

lemma keeps_OnPop [dev_keeps]: "keeps (dev_ok N) OnPop"
  unfolding OnPop_def
  by (intro keeps_intros keeps_upd_threads dev_keeps switch_thread_cur)

lemma IrqHandler_size:
  "IrqHandlerStarted now v q = Inr (x, q') \<Longrightarrow> vectorTableSize q' = vectorTableSize q \<and> v < vectorTableSize q"
  "IrqHandlerFinished now v q = Inr (x, q') \<Longrightarrow> vectorTableSize q' = vectorTableSize q \<and> v < vectorTableSize q"
  by (auto simp: IrqHandlerStarted_def IrqHandlerFinished_def irqTrace_change_def split: if_splits)

lemma keeps_on_irq:
  assumes "keeps irq_ok m" and "\<And>q x q'. m q = Inr (x, q') \<Longrightarrow> vectorTableSize q' = vectorTableSize q"
  shows "keeps (dev_ok N) (on_irq m)"
proof (rule keepsI)
  fix d x t assume "dev_ok N d" and t: "on_irq m d = Inr (x, t)"
  then obtain q where "m (irq d) = Inr (x, q)" "t = d\<lparr>irq := q\<rparr>" by (auto simp: zoom_def split: sum.splits)
  moreover have "irq_ok (irq d)" using \<open>dev_ok N d\<close> by (simp add: dev_ok_def)
  ultimately show "dev_ok N t" using assms \<open>dev_ok N d\<close> by (auto intro: dev_ok_irq dest: keepsD)
qed

lemma keeps_IrqHandler_dev [dev_keeps]:
  "keeps (dev_ok N) (on_irq (IrqHandlerStarted now v))" "keeps (dev_ok N) (on_irq (IrqHandlerFinished now v))"
  by (auto intro!: keeps_on_irq keeps_IrqHandler dest: IrqHandler_size)

lemma keeps_CheckReturnPoints [dev_keeps]: "keeps (dev_ok N) CheckReturnPoints"
proof (rule keepsI)
  fix d :: "'h avr_device" and x t
  assume d: "dev_ok N d" and t: "CheckReturnPoints d = Inr (x, t)"
  let ?sp = "unat (stackPointer (stack d))" and ?l = "returnPointList (stack d)"
  let ?m = "forS (\<lambda>(k, v). on_irq (IrqHandlerFinished (sysTime d) v)) (filter (\<lambda>(k, v). k = ?sp) ?l)"
  obtain u where u: "?m d = Inr ((), u)"
    and t': "t = u\<lparr>stack := (stack u)\<lparr>returnPointList := filter (\<lambda>(k, v). k \<noteq> ?sp) ?l\<rparr>\<rparr>"
    using t by (auto simp: CheckReturnPoints_def elim!: sq_eq_InrE)
  let ?P = "\<lambda>e. dev_ok N e \<and> stack e = stack d"
  have "keeps ?P ?m"
  proof (intro keeps_intros)
    fix k v :: nat
    show "keeps ?P (on_irq (IrqHandlerFinished (sysTime d) v))"
      using keeps_IrqHandler_dev(2) by (fastforce simp: keeps_def zoom_def split: sum.splits)
  qed
  from keepsD [OF this _ u] d have "?P u" by simp
  then show "dev_ok N t" unfolding t' by (intro dev_ok_stack_same) auto
qed

lemma keeps_upd_sp [dev_keeps]: "keeps (dev_ok N) (modify (upd_sp f))"
  by (intro keeps_modify) (simp add: upd_sp_def dev_ok_stack_same)

lemma keeps_SP [dev_keeps]:
  "keeps (dev_ok N) (SetSpl v)" "keeps (dev_ok N) (SetSph v)" "keeps (dev_ok N) GetSph" "keeps (dev_ok N) GetSpl"
  unfolding SetSpl_def SetSph_def set_sp_part_def GetSph_def GetSpl_def
  by (intro keeps_intros dev_keeps)+

section \<open>Cells, flash and the SPM engine\<close>

lemma dev_ok_set_cell:
  "dev_ok N d \<Longrightarrow> 32 \<le> a \<or> (\<exists>v. c = RAM v) \<Longrightarrow> dev_ok N (d\<lparr>rw := (rw d)(a := c)\<rparr>)"
  by (auto simp: dev_ok_def regs_ok_def)

lemma dev_ok_regs [simp]: "dev_ok N d \<Longrightarrow> regs_ok d"
  by (simp add: dev_ok_def)

lemma keeps_set_cell: "32 \<le> a \<or> (\<exists>v. c = RAM v) \<Longrightarrow> keeps (dev_ok N) (set_cell a c)"
  unfolding set_cell_def by (intro keeps_modify dev_ok_set_cell)

lemma dev_ok_spm:
  "dev_ok N d \<Longrightarrow> (\<And>p. q = Some p \<Longrightarrow> spm_ok p) \<Longrightarrow> dev_ok N (d\<lparr>spmRegister := q\<rparr>)"
  by (simp add: dev_ok_def regs_ok_def)

lemma dev_ok_spmD: "dev_ok N d \<Longrightarrow> spmRegister d = Some p \<Longrightarrow> spm_ok p"
  by (simp add: dev_ok_def)

lemma spm_ok_ops [simp]:
  "spm_ok (ClearOperationBits p) = spm_ok p" "spm_ok (Spm_Reset p) = spm_ok p"
  "spm_ok (SetSpmcr v p) = spm_ok p" "spm_ok (snd (Spm_CpuCycle now p)) = spm_ok p"
  by (auto simp: ClearOperationBits_def Spm_Reset_def SetSpmcr_def Spm_CpuCycle_def spm_ok_def Let_def
      split: option.splits)

lemma dev_ok_spm_map:
  "dev_ok N d \<Longrightarrow> (\<And>p. spm_ok p \<Longrightarrow> spm_ok (f p)) \<Longrightarrow> dev_ok N (d\<lparr>spmRegister := map_option f (spmRegister d)\<rparr>)"
  by (rule dev_ok_spm) (auto dest: dev_ok_spmD)

text \<open>What an SPM instruction does to the engine and the flash.\<close>

lemma flash_ok_lock [simp]: "flash_ok c (SetRWWLock n f) = flash_ok c f"
  by (simp add: flash_ok_def flash_wf_def cached_def SetRWWLock_def)

definition spm_flash_ok :: "core_flags \<Rightarrow> spm_state \<times> avr_flash \<Rightarrow> bool" where
  "spm_flash_ok c = (\<lambda>(p, f). spm_ok p \<and> flash_ok c f)"

lemma keeps_Spm_WritePage: "keeps (spm_flash_ok c) (Spm_WritePage c now addr)"
proof (rule keepsI)
  fix s x t assume s: "spm_flash_ok c s" and t: "Spm_WritePage c now addr s = Inr (x, t)"
  obtain p f where pf: "s = (p, f)" "spm_ok p" "flash_ok c f" using s by (auto simp: spm_flash_ok_def)
  let ?a = "unat (page_addr (pageSize p) addr)"
  have "even ?a" "even (pageSize p * 2)" "pageSize p * 2 \<le> length (tempBuffer p)"
    using pf(2) page_addr_even [of "pageSize p" addr] by (auto simp: spm_ok_def)
  from WriteMem_run [OF pf(3) this] obtain f' where
    "WriteMem c (tempBuffer p) ?a (pageSize p * 2) f = Inr ((), f')" "flash_ok c f'" by blast
  then show "spm_flash_ok c t"
    using t pf by (auto simp: Spm_WritePage_def Spm_SetRWWLock_def spm_flash_ok_def spm_ok_def Let_def
        split: if_splits)
qed

lemma keeps_SPM_action: "keeps (spm_flash_ok c) (SPM_action c now pc data xaddr addr)"
  unfolding SPM_action_def Let_def
  by (intro keeps_intros keeps_Spm_WritePage) (auto simp: spm_flash_ok_def spm_ok_def ClearOperationBits_def)

lemma keeps_call_SPM_action [dev_keeps]: "keeps (dev_ok N) (call_SPM_action D xaddr Z)"
proof (rule keepsI)
  fix d :: "'h avr_device" and x t
  assume d: "dev_ok N d" and t: "call_SPM_action D xaddr Z d = Inr (x, t)"
  let ?m = "SPM_action (flags (conf d)) (sysTime d) (unat (PC d)) D (ucast xaddr) (ucast Z)"
  obtain p where p: "spmRegister d = Some p"
    using t by (cases "spmRegister d") (auto simp: call_SPM_action_def deref_def)
  with t obtain p' f' where r: "?m (p, flash d) = Inr (x, (p', f'))"
    and t': "t = d\<lparr>spmRegister := Some p', flash := f'\<rparr>"
    by (auto simp: call_SPM_action_def deref_def zoom_def split: sum.splits)
  have "spm_flash_ok (flags (conf d)) (p, flash d)" using d p by (simp add: spm_flash_ok_def dev_ok_def)
  from keepsD [OF keeps_SPM_action this r] d show "dev_ok N t"
    by (simp add: t' spm_flash_ok_def dev_ok_def regs_ok_def)
qed

section \<open>The contract of peripherals\<close>

text \<open>
  What the core relies on when it calls a part that is not built in: every virtual method leaves
  a device that satisfies the invariant.
\<close>

locale peripherals =
  fixes H :: "'h hardware" and N :: nat
  assumes keeps_hw_CpuCycle [dev_keeps]: "keeps (dev_ok N) (hw_CpuCycle H n)"
    and keeps_hw_Reset [dev_keeps]: "keeps (dev_ok N) (hw_Reset H n)"
    and keeps_hw_ClearIrqFlag [dev_keeps]: "keeps (dev_ok N) (hw_ClearIrqFlag H n v)"
    and keeps_hw_IsLevelInterrupt [dev_keeps]: "keeps (dev_ok N) (hw_IsLevelInterrupt H n v)"
    and keeps_hw_LevelInterruptPending [dev_keeps]: "keeps (dev_ok N) (hw_LevelInterruptPending H n v)"
    and keeps_cell_get [dev_keeps]: "keeps (dev_ok N) (cell_get H n)"
    and keeps_cell_set [dev_keeps]: "keeps (dev_ok N) (cell_set H n b)"
begin

lemma keeps_mem_get [dev_keeps]: "keeps (dev_ok N) (mem_get H a)"
  unfolding mem_get_def by (intro keeps_bnd keeps_gets keeps_rwcell keeps_intros dev_keeps)

lemma keeps_mem_set [dev_keeps]: "keeps (dev_ok N) (mem_set H a v)"
proof (rule keepsI)
  fix d x t assume d: "dev_ok N d" and t: "mem_set H a v d = Inr (x, t)"
  have "32 \<le> a \<or> (\<exists>v. rw d a = RAM v)"
    using d by (cases "a < 32") (auto simp: dev_ok_def regs_ok_def)
  then show "dev_ok N t" using d t
    by (cases "rw d a")
       (auto simp: mem_set_def set_cell_def dev_ok_set_cell split: if_splits
         dest: keepsD [OF keeps_SP(1)] keepsD [OF keeps_SP(2)] keepsD [OF keeps_cell_set] intro!: dev_ok_spm_map)
qed

lemma keeps_memory [dev_keeps]:
  "keeps (dev_ok N) (GetRWMem H a)" "keeps (dev_ok N) (SetRWMem H a v)" "keeps (dev_ok N) (GetCoreReg H a)"
  "keeps (dev_ok N) (SetCoreReg H a v)" "keeps (dev_ok N) (GetIOReg H a)" "keeps (dev_ok N) (SetIOReg H a v)"
  "keeps (dev_ok N) (SetIORegBit H a k b)" "keeps (dev_ok N) (reg_pair H lo)"
  "keeps (dev_ok N) (GetRegX H)" "keeps (dev_ok N) (GetRegY H)" "keeps (dev_ok N) (GetRegZ H)"
  unfolding GetRWMem_def SetRWMem_def GetCoreReg_def SetCoreReg_def GetIOReg_def SetIOReg_def
    SetIORegBit_def reg_pair_def GetRegX_def GetRegY_def GetRegZ_def
  by (intro keeps_intros dev_keeps)+

lemma keeps_OnCall [dev_keeps]: "keeps (dev_ok N) (OnCall H)"
  unfolding OnCall_def
  by (intro keeps_intros dev_keeps keeps_upd_threads dev_ok_threads; simp add: dev_ok_cur)

lemma keeps_lowest [dev_keeps]:
  "keeps (dev_ok N) (modify (\<lambda>d. d\<lparr>stack := (stack d)\<lparr>lowestStackPointer := f d\<rparr>\<rparr>))"
  by (intro keeps_modify dev_ok_stack_same) auto

lemma keeps_stack [dev_keeps]:
  "keeps (dev_ok N) (Push H v)" "keeps (dev_ok N) (Pop H)"
  unfolding Push_def Pop_def by (intro keeps_intros dev_keeps)+

lemma keeps_addr_stack [dev_keeps]:
  "keeps (dev_ok N) (PushAddr H n)" "keeps (dev_ok N) (PopAddr H)"
  unfolding PushAddr_def PopAddr_def
  by (intro keeps_bnd keeps_gets keeps_prod keeps_stack_kind keeps_sq keeps_whenM keeps_let keeps_if keeps_ret
       keeps_modify dev_keeps; auto simp: Let_def intro: dev_ok_stack_same)+

section \<open>Instructions\<close>

lemma keeps_DebugOnJump [dev_keeps]: "keeps (dev_ok N) DebugOnJump"
  unfolding DebugOnJump_def by (intro keeps_modify) (simp add: Let_def)

lemma keeps_pieces [dev_keeps]:
  "keeps (dev_ok N) (set_PC n)" "keeps (dev_ok N) (add_PC n)" "keeps (dev_ok N) (set_pair H lo w)"
  "keeps (dev_ok N) second_word" "keeps (dev_ok N) skip_words" "keeps (dev_ok N) rampz_val" "keeps (dev_ok N) (set_rampz v)"
  "keeps (dev_ok N) (rampz_Z H)" "keeps (dev_ok N) (read_flash a)" "keeps (dev_ok N) (spm_data H)"
  "keeps (dev_ok N) (upd_status f)" "keeps (dev_ok N) (jump_relative K)"
  unfolding set_PC_def add_PC_def set_pair_def second_word_def skip_words_def rampz_val_def set_rampz_def
    rampz_Z_def read_flash_def spm_data_def jump_relative_def
  by (intro keeps_intros dev_keeps; simp)+

lemma keeps_skip_if [dev_keeps]: "keeps (dev_ok N) (skip_if b n)"
  unfolding skip_if_def by (intro keeps_intros dev_keeps)

lemma keeps_mul_result [dev_keeps]: "keeps (dev_ok N) (mul_result H c w)"
  unfolding mul_result_def by (intro keeps_sq keeps_ret dev_keeps)

lemma keeps_exec_plain [dev_keeps]: "keeps (dev_ok N) (exec_plain H op)"
  by (cases op; simp only: exec_plain_def op_plain.case;
      unfold avr_op_EICALL_def avr_op_EIJMP_def avr_op_ELPM_def avr_op_ESPM_def avr_op_ICALL_def avr_op_IJMP_def
        avr_op_LPM_def avr_op_NOP_def avr_op_RET_def avr_op_RETI_def avr_op_SLEEP_def avr_op_SPM_def
        avr_op_WDR_def avr_op_BREAK_def avr_op_ILLEGAL_def;
      intro keeps_intros dev_keeps; simp)

lemma keeps_exec_rr [dev_keeps]: "keeps (dev_ok N) (exec_rr H op r1 r2)"
  by (cases op; simp only: exec_rr_def op_rr.case;
      unfold avr_op_ADC_def avr_op_ADD_def avr_op_AND_def avr_op_CP_def avr_op_CPC_def avr_op_CPSE_def
        avr_op_EOR_def avr_op_MOV_def avr_op_MUL_def avr_op_OR_def avr_op_SBC_def avr_op_SUB_def
        avr_op_MOVW_def avr_op_MULS_def avr_op_MULSU_def avr_op_FMUL_def avr_op_FMULS_def avr_op_FMULSU_def;
      intro keeps_intros dev_keeps; simp)

lemma keeps_ld_st [dev_keeps]:
  "keeps (dev_ok N) getp \<Longrightarrow> keeps (dev_ok N) (ld_decr H lo getp rd)"
  "keeps (dev_ok N) getp \<Longrightarrow> keeps (dev_ok N) (ld_incr H lo getp rd)"
  "keeps (dev_ok N) getp \<Longrightarrow> keeps (dev_ok N) (st_decr H lo getp rd)"
  "keeps (dev_ok N) getp \<Longrightarrow> keeps (dev_ok N) (st_incr H lo getp rd)"
  unfolding ld_decr_def ld_incr_def st_decr_def st_incr_def
  by (intro keeps_intros dev_keeps; assumption)+

lemma keeps_exec_r [dev_keeps]: "keeps (dev_ok N) (exec_r H op r1)"
  by (cases op; simp only: exec_r_def op_r.case;
      unfold avr_op_ASR_def avr_op_COM_def avr_op_DEC_def avr_op_ELPM_Z_def avr_op_ELPM_Z_incr_def
        avr_op_INC_def avr_op_LDS_def avr_op_LD_X_def avr_op_LD_X_decr_def avr_op_LD_X_incr_def
        avr_op_LD_Y_decr_def avr_op_LD_Y_incr_def avr_op_LD_Z_decr_def avr_op_LD_Z_incr_def
        avr_op_LPM_Z_def avr_op_LPM_Z_incr_def avr_op_LSR_def avr_op_NEG_def avr_op_POP_def
        avr_op_PUSH_def avr_op_ROR_def avr_op_STS_def avr_op_ST_X_def avr_op_ST_X_decr_def
        avr_op_ST_X_incr_def avr_op_ST_Y_decr_def avr_op_ST_Y_incr_def avr_op_ST_Z_decr_def
        avr_op_ST_Z_incr_def avr_op_SWAP_def;
      intro keeps_intros dev_keeps; simp)

lemma keeps_exec_rk [dev_keeps]: "keeps (dev_ok N) (exec_rk H op r1 k)"
  by (cases op; simp only: exec_rk_def op_rk.case;
      unfold avr_op_ANDI_def avr_op_CPI_def avr_op_LDI_def avr_op_ORI_def avr_op_SBCI_def avr_op_SUBI_def
        avr_op_SBIW_def;
      intro keeps_intros dev_keeps; simp)

lemma keeps_ops [dev_keeps]:
  "keeps (dev_ok N) (avr_op_ADIW H lo hi K)" "keeps (dev_ok N) (avr_op_BLD H r1 b)" "keeps (dev_ok N) (avr_op_BST H r1 b)"
  "keeps (dev_ok N) (avr_op_SBRC H r1 b)" "keeps (dev_ok N) (avr_op_SBRS H r1 b)"
  "keeps (dev_ok N) (avr_op_BRBC m off)" "keeps (dev_ok N) (avr_op_BRBS m off)"
  "keeps (dev_ok N) (avr_op_LDD_Y H r1 q)" "keeps (dev_ok N) (avr_op_LDD_Z H r1 q)"
  "keeps (dev_ok N) (avr_op_STD_Y H r1 q)" "keeps (dev_ok N) (avr_op_STD_Z H r1 q)"
  "keeps (dev_ok N) (avr_op_CALL H q)" "keeps (dev_ok N) (avr_op_JMP q)"
  "keeps (dev_ok N) (avr_op_BCLR b)" "keeps (dev_ok N) (avr_op_BSET b)"
  "keeps (dev_ok N) (avr_op_CBI H a b)" "keeps (dev_ok N) (avr_op_SBI H a b)"
  "keeps (dev_ok N) (avr_op_SBIC H a b)" "keeps (dev_ok N) (avr_op_SBIS H a b)"
  "keeps (dev_ok N) (avr_op_IN H r1 a)" "keeps (dev_ok N) (avr_op_OUT H r1 a)"
  "keeps (dev_ok N) (avr_op_RCALL H off)" "keeps (dev_ok N) (avr_op_RJMP off)"
  unfolding avr_op_ADIW_def avr_op_BLD_def avr_op_BST_def avr_op_SBRC_def avr_op_SBRS_def avr_op_BRBC_def
    avr_op_BRBS_def avr_op_LDD_Y_def avr_op_LDD_Z_def avr_op_STD_Y_def avr_op_STD_Z_def avr_op_CALL_def
    avr_op_JMP_def avr_op_BCLR_def avr_op_BSET_def avr_op_CBI_def avr_op_SBI_def avr_op_SBIC_def
    avr_op_SBIS_def avr_op_IN_def avr_op_OUT_def avr_op_RCALL_def avr_op_RJMP_def
  by (intro keeps_intros dev_keeps; simp)+

lemma keeps_exec [dev_keeps]: "keeps (dev_ok N) (exec H i)"
  by (cases i) (auto simp: exec_def intro: dev_keeps
      split: op_rb.split op_br.split op_rq.split op_k22.split op_s.split op_ab.split op_io.split op_k12.split)

section \<open>Clock cycles\<close>

lemma keeps_Hardware_Reset [dev_keeps]: "keeps (dev_ok N) (Hardware_Reset H p)"
proof (cases p)
  case (HwReg a)
  show ?thesis
  proof (rule keepsI)
    fix d x t assume d: "dev_ok N d" and t: "Hardware_Reset H p d = Inr (x, t)"
    have "32 \<le> a \<or> (\<exists>v. rw d a = RAM v)" using d by (cases "a < 32") (auto simp: dev_ok_def regs_ok_def)
    then show "dev_ok N t" using d t HwReg
      by (cases "rw d a") (auto simp: Hardware_Reset_def set_cell_def dev_ok_set_cell)
  qed
qed (auto simp: Hardware_Reset_def intro!: keeps_modify dev_keeps dev_ok_spm_map)

lemma keeps_Reset [dev_keeps]: "keeps (dev_ok N) (Reset H)"
  unfolding Reset_def by (intro keeps_intros dev_keeps; simp)

lemma keeps_Hardware_CpuCycle [dev_keeps]: "keeps (dev_ok N) (Hardware_CpuCycle H p)"
proof (cases p)
  case HwWado
  show ?thesis unfolding HwWado Hardware_CpuCycle_def hwid.case by (intro keeps_intros dev_keeps; simp)
next
  case HwSpm
  show ?thesis
  proof (rule keepsI)
    fix d x t assume "dev_ok N d" "Hardware_CpuCycle H p d = Inr (x, t)"
    moreover from this obtain q where "spmRegister d = Some q"
      by (cases "spmRegister d") (auto simp: HwSpm Hardware_CpuCycle_def deref_def)
    ultimately show "dev_ok N t" using dev_ok_spmD [of N d q] spm_ok_ops(4) [of "sysTime d" q]
      by (cases "Spm_CpuCycle (sysTime d) q") (auto simp: HwSpm Hardware_CpuCycle_def deref_def intro!: dev_ok_spm)
  qed
qed (auto simp: Hardware_CpuCycle_def intro: keeps_intros dev_keeps)

lemma keeps_irq_methods [dev_keeps]:
  "keeps (dev_ok N) (Hardware_ClearIrqFlag H p v)" "keeps (dev_ok N) (Hardware_IsLevelInterrupt H p v)"
  "keeps (dev_ok N) (Hardware_LevelInterruptPending H p v)"
  by (cases p; simp only: Hardware_ClearIrqFlag_def Hardware_IsLevelInterrupt_def
        Hardware_LevelInterruptPending_def hwid.case; intro keeps_intros dev_keeps)+

lemma keeps_irq_scan [dev_keeps]: "keeps (dev_ok N) (irq_scan H n k)"
proof (induction "n - k" arbitrary: k rule: less_induct)
  case less
  show ?case unfolding irq_scan.simps [of H n k]
    by (intro keeps_intros dev_keeps) (rule less; simp)
qed

lemma irq_scan_less: "irq_scan H n k d = Inr (Some v, t) \<Longrightarrow> v < n"
proof (induction "n - k" arbitrary: k d rule: less_induct)
  case less
  from less.prems show ?case unfolding irq_scan.simps [of H n k]
    by (auto elim!: bnd_eq_InrE sq_eq_InrE split: if_splits option.splits)
       (rule less.hyps; simp)
qed

text \<open>\<open>GetNewPc\<close> returns a program counter only together with an existing vector.\<close>

lemma GetNewPc_ok:
  assumes "dev_ok N d" "GetNewPc H d = Inr (pc, t)"
  shows "dev_ok N t \<and> (pc \<noteq> no_irq \<longrightarrow> actualIrqVector t < N)"
proof (cases "table_first (irqPartnerList (irq d))")
  case None
  then show ?thesis using assms by (simp add: GetNewPc_def)
next
  case (Some k)
  have n: "vectorTableSize (irq d) = N" using assms(1) by (simp add: dev_ok_def)
  obtain r u where scan: "irq_scan H N k d = Inr (r, u)"
    and t: "(case r of None \<Rightarrow> ret no_irq | Some v \<Rightarrow> sq (modify (\<lambda>d. d\<lparr>actualIrqVector := v\<rparr>))
              (ret (word_of_nat (v * (bytesPerVector (irq d) div 2))))) u = Inr (pc, t)"
    using assms(2) Some n by (auto simp: GetNewPc_def simp del: of_nat_mult elim!: bnd_eq_InrE)
  have u: "dev_ok N u" using keepsD [OF keeps_irq_scan assms(1) scan] .
  show ?thesis
  proof (cases r)
    case None
    then show ?thesis using t u by simp
  next
    case (Some v)
    then have "v < N" using irq_scan_less scan by simp
    then show ?thesis using t u Some by (auto simp: dev_ok_def regs_ok_def)
  qed
qed

lemma keeps_opIsCli [dev_keeps]: "keeps (dev_ok N) (opIsCli H opc)"
  unfolding opIsCli_def by (intro keeps_intros dev_keeps)

lemma dev_ok_newIrqPc:
  "dev_ok N d \<Longrightarrow> (x \<noteq> no_irq \<Longrightarrow> actualIrqVector d < N) \<Longrightarrow> dev_ok N (d\<lparr>newIrqPc := x, deferIrq := b\<rparr>)"
  by (simp add: dev_ok_def regs_ok_def)

lemma keeps_prepare_irq [dev_keeps]: "keeps (dev_ok N) (prepare_irq H)"
proof -
  have k: "keeps (dev_ok N) (bnd (GetNewPc H) (\<lambda>pc.
      modify (\<lambda>d. d\<lparr>newIrqPc := pc, deferIrq := (pc \<noteq> no_irq \<or> deferIrq d)\<rparr>)))"
  proof (rule keepsI)
    fix d x t assume "dev_ok N d"
      and t: "bnd (GetNewPc H) (\<lambda>pc. modify (\<lambda>d. d\<lparr>newIrqPc := pc, deferIrq := (pc \<noteq> no_irq \<or> deferIrq d)\<rparr>)) d
        = Inr (x, t)"
    from t obtain pc u where u: "GetNewPc H d = Inr (pc, u)"
      and t': "t = u\<lparr>newIrqPc := pc, deferIrq := (pc \<noteq> no_irq \<or> deferIrq u)\<rparr>" by (auto elim: bnd_eq_InrE)
    show "dev_ok N t" unfolding t' using GetNewPc_ok [OF \<open>dev_ok N d\<close> u] by (intro dev_ok_newIrqPc) auto
  qed
  show ?thesis unfolding prepare_irq_def
    by (rule k keeps_if keeps_ret keeps_gets keeps_asks keeps_opIsCli keeps_bnd)+
qed

lemma keeps_enter_irq [dev_keeps]: "keeps (dev_ok N) (enter_irq H)"
proof (rule keepsI)
  fix d x t assume d: "dev_ok N d" and t: "enter_irq H d = Inr (x, t)"
  let ?d = "d\<lparr>deferIrq := False\<rparr>"
  from d have d1: "dev_ok N ?d" by (simp add: dev_ok_def regs_ok_def)
  from t obtain u w where u: "on_irq (IrqHandlerStarted (sysTime d) (actualIrqVector d)) ?d = Inr ((), u)"
    and w: "PushAddr H (unat (PC u)) (SetReturnPoint (unat (stackPointer (stack u))) (actualIrqVector d) u) = Inr ((), w)"
    and t': "t = w\<lparr>cpuCycles := 4, status := (status w)\<lparr>sr_I := False\<rparr>, PC := ucast (newIrqPc w - 1)\<rparr>"
    by (auto simp: enter_irq_def SetReturnPoint_def elim!: bnd_eq_InrE sq_eq_InrE)
  have u_ok: "dev_ok N u" using keepsD [OF keeps_IrqHandler_dev(1) d1 u] .
  have "actualIrqVector d < N" using u d
    by (auto simp: zoom_def dev_ok_def split: sum.splits dest: IrqHandler_size)
  then have "dev_ok N (SetReturnPoint (unat (stackPointer (stack u))) (actualIrqVector d) u)"
    unfolding SetReturnPoint_def using u_ok dev_ok_stack_ok [OF u_ok]
    by (intro dev_ok_stack) (auto simp: stack_ok_def)
  from keepsD [OF keeps_addr_stack(1) this w] show "dev_ok N t" by (simp add: t')
qed

lemma keeps_execute [dev_keeps]: "keeps (dev_ok N) (execute H)"
  unfolding execute_def by (intro keeps_intros dev_keeps; simp)

lemma keeps_core_step [dev_keeps]: "keeps (dev_ok N) (core_step H)"
  unfolding core_step_def by (intro keeps_intros dev_keeps; simp)

lemma keeps_cycle_loop [dev_keeps]: "keeps (dev_ok N) (cycle_loop H fuel i w)"
proof (induction fuel arbitrary: i w)
  case 0
  show ?case unfolding cycle_loop.simps by (rule keeps_fail)
next
  case (Suc fuel)
  show ?case unfolding cycle_loop.simps by (intro keeps_intros dev_keeps Suc)
qed

lemma keeps_Step: "keeps (dev_ok N) (AvrDevice_Step H)"
  unfolding AvrDevice_Step_def clock_parts_def Step_end_def
  by (intro keeps_intros dev_keeps; simp)

end

end
