(* ===== verification/Avr_Stack.thy ===== *)
theory Avr_Stack
  imports Avr_Invariant
begin

text \<open>
  What the stacks of \<^verbatim>\<open>src/src/hwstack.cpp\<close> promise to the instructions and to the interrupt
  logic: the locale \<open>return_stack\<close> states the contract of \<open>PushAddr\<close> and \<open>PopAddr\<close> (the virtual
  methods of \<open>HWStack\<close>), and both implementations, the stack in data memory and the three level
  hardware stack, satisfy it.
\<close>

section \<open>The contract\<close>

text \<open>
  \<open>holds n as s\<close>: the return addresses \<open>as\<close> (the last one first) are on the stack, and \<open>n\<close> more
  fit. \<open>addr_ok\<close> are the addresses that can be stored.
\<close>

locale return_stack =
  fixes push :: "nat \<Rightarrow> ('s, unit) sim"
    and pop :: "('s, nat) sim"
    and holds :: "nat \<Rightarrow> nat list \<Rightarrow> 's \<Rightarrow> bool"
    and addr_ok :: "nat \<Rightarrow> bool"
  assumes push_holds: "holds (Suc n) as s \<Longrightarrow> addr_ok a \<Longrightarrow> \<exists>t. push a s = Inr ((), t) \<and> holds n (a # as) t"
    and pop_holds: "holds n (a # as) s \<Longrightarrow> \<exists>t. pop s = Inr (a, t) \<and> holds (Suc n) as t"
begin

lemma push_list:
  assumes "holds (length bs + n) as s" "list_all addr_ok bs"
  shows "\<exists>t. forS push bs s = Inr ((), t) \<and> holds n (rev bs @ as) t"
  using assms
proof (induction bs arbitrary: as s)
  case (Cons b bs)
  from Cons.prems obtain u where u: "push b s = Inr ((), u)" "holds (length bs + n) (b # as) u"
    using push_holds [of "length bs + n" as s b] by auto
  from Cons.IH [OF u(2)] Cons.prems(2) obtain t where "forS push bs u = Inr ((), t)" "holds n (rev bs @ b # as) t"
    by auto
  then show ?case using u(1) by simp
qed simp

lemma pop_list:
  assumes "holds n (cs @ as) s"
  shows "\<exists>t. mapS (\<lambda>_. pop) cs s = Inr (cs, t) \<and> holds (length cs + n) as t"
  using assms
proof (induction cs arbitrary: n s)
  case (Cons c cs)
  from Cons.prems obtain u where u: "pop s = Inr (c, u)" "holds (Suc n) (cs @ as) u"
    using pop_holds [of n c "cs @ as" s] by auto
  from Cons.IH [OF u(2)] obtain t where "mapS (\<lambda>_. pop) cs u = Inr (cs, t)" "holds (length cs + Suc n) as t"
    by auto
  then show ?case using u(1) by simp
qed simp

text \<open>Nested calls return in reverse order and leave what was there before.\<close>

lemma lifo:
  assumes "holds (length bs + n) as s" "list_all addr_ok bs"
  shows "\<exists>t. sq (forS push bs) (mapS (\<lambda>_. pop) bs) s = Inr (rev bs, t) \<and> holds (length bs + n) as t"
proof -
  obtain u where u: "forS push bs s = Inr ((), u)" "holds n (rev bs @ as) u"
    using push_list [OF assms] by blast
  from pop_list [OF u(2)] obtain t where
    "mapS (\<lambda>_. pop) (rev bs) u = Inr (rev bs, t)" "holds (length bs + n) as t" by auto
  moreover have "mapS (\<lambda>_. pop) xs = mapS (\<lambda>_. pop) ys" if "length xs = length ys" for xs ys :: "nat list"
    using that by (induction xs ys rule: list_induct2) auto
  from this [of "rev bs" bs] have "mapS (\<lambda>_. pop) bs = mapS (\<lambda>_. pop) (rev bs)" by simp
  ultimately show ?thesis using u(1) by simp
qed

end

section \<open>Single bytes on the stack in data memory\<close>

abbreviation spn :: "'h avr_device \<Rightarrow> nat" where
  "spn d \<equiv> unat (stackPointer (stack d))"

text \<open>What stack operations may touch.\<close>

definition stack_frame :: "'h avr_device \<Rightarrow> 'h avr_device \<Rightarrow> bool" where
  "stack_frame d t \<longleftrightarrow> t = d\<lparr>irq := irq t, threads := threads t, stack := stack t, rw := rw t\<rparr> \<and>
     irqPartnerList (irq t) = irqPartnerList (irq d) \<and> vectorTableSize (irq t) = vectorTableSize (irq d) \<and>
     m_threads (threads t) = m_threads (threads d) \<and> m_cur_thread (threads t) = m_cur_thread (threads d)"

lemma stack_frame_trans: "stack_frame d e \<Longrightarrow> stack_frame e t \<Longrightarrow> stack_frame d t"
  by (cases d; cases e; cases t) (auto simp: stack_frame_def)

lemma stack_frameD:
  assumes "stack_frame d t"
  shows "PC t = PC d" "PC_size t = PC_size d" "status t = status d" "conf t = conf d" "flash t = flash d"
    "sysTime t = sysTime d" "spmRegister t = spmRegister d" "deferIrq t = deferIrq d" "newIrqPc t = newIrqPc d"
    "cpuCycles t = cpuCycles d" "actualIrqVector t = actualIrqVector d" "eind t = eind d" "rampz t = rampz d"
    "m_threads (threads t) = m_threads (threads d)" "m_cur_thread (threads t) = m_cur_thread (threads d)"
  using assms by (cases d; cases t; auto simp: stack_frame_def)+

text \<open>A device with a stack in memory and no context switch in progress.\<close>

definition sram :: "nat \<Rightarrow> 'h avr_device \<Rightarrow> bool" where
  "sram ceil d \<longleftrightarrow> (\<exists>re. kind (stack d) = HWStackSram ceil re) \<and> ceil \<le> 2 ^ 32 \<and>
     stack_ok (vectorTableSize (irq d)) (stack d) \<and> m_phase_of_switch (threads d) \<noteq> eWritten2"

lemma finish_irqs:
  assumes "\<forall>v \<in> snd ` set l. v < vectorTableSize (irq d)"
  shows "\<exists>q. forS (\<lambda>(k, v). on_irq (IrqHandlerFinished now v)) l d = Inr ((), d\<lparr>irq := q\<rparr>) \<and>
    irqPartnerList q = irqPartnerList (irq d) \<and> vectorTableSize q = vectorTableSize (irq d)"
  using assms
proof (induction l arbitrary: d)
  case Nil
  show ?case by (intro exI [of _ "irq d"]) simp
next
  case (Cons e l)
  obtain k v where e: "e = (k, v)" by (cases e)
  define q where "q = upd_stat v (\<lambda>p. CheckComplete (if handlerFinished (actual p) = 0
    then p\<lparr>actual := (actual p)\<lparr>handlerFinished := now\<rparr>\<rparr> else p)) (irq d)"
  have "IrqHandlerFinished now v (irq d) = Inr ((), q)"
    using Cons.prems e by (simp add: IrqHandlerFinished_def irqTrace_change_def q_def)
  moreover have "irqPartnerList q = irqPartnerList (irq d)" "vectorTableSize q = vectorTableSize (irq d)"
    by (simp_all add: q_def)
  ultimately show ?case using Cons.IH [of "d\<lparr>irq := q\<rparr>"] Cons.prems e by auto
qed

lemma CheckReturnPoints_run:
  assumes "stack_ok (vectorTableSize (irq d)) (stack d)"
  shows "\<exists>t. CheckReturnPoints d = Inr ((), t) \<and> stack_frame d t \<and> rw t = rw d \<and> threads t = threads d \<and>
    stack t = (stack d)\<lparr>returnPointList := filter (\<lambda>(k, v). k \<noteq> spn d) (returnPointList (stack d))\<rparr>"
proof -
  have "\<forall>v \<in> snd ` set (filter (\<lambda>(k, v). k = spn d) (returnPointList (stack d))). v < vectorTableSize (irq d)"
    using assms by (auto simp: stack_ok_def)
  from finish_irqs [OF this, of "sysTime d"] show ?thesis
    by (auto simp: CheckReturnPoints_def stack_frame_def)
qed

lemma stack_ok_filter: "stack_ok n s \<Longrightarrow> stack_ok n (s\<lparr>returnPointList := filter P (returnPointList s)\<rparr>)"
  by (auto simp: stack_ok_def)

lemma mod_ceil_dec: "0 < unat sp \<Longrightarrow> unat sp < ceil \<Longrightarrow> unat (mod_ceil ceil (sp - 1)) = unat sp - 1"
proof -
  assume sp: "0 < unat sp" "unat sp < ceil"
  then have "sp \<noteq> 0" by auto
  then have m: "unat (sp - 1) = unat sp - 1" by (simp add: unat_minus_one)
  have "unat sp < 2 ^ 32" using unsigned_less [of sp] by simp
  then have "unat sp - 1 < 2 ^ 32" by linarith
  then show ?thesis using sp m by (simp add: mod_ceil_def unat_of_nat)
qed

lemma mod_ceil_inc: "unat sp + 1 < ceil \<Longrightarrow> ceil \<le> 2 ^ 32 \<Longrightarrow> unat (mod_ceil ceil (sp + 1)) = unat sp + 1"
  by (simp add: mod_ceil_def unat_word_ariths unat_of_nat)

text \<open>Pushing a byte stores it under the stack pointer and decrements the stack pointer.\<close>

lemma Push_step:
  assumes "sram ceil d" "0 < spn d" "spn d < ceil" "spn d < 65536" "rw d (spn d) = RAM v"
  shows "\<exists>t. Push H val d = Inr ((), t) \<and> sram ceil t \<and> spn t = spn d - 1 \<and>
    rw t = (rw d)(spn d := RAM val) \<and> stack_frame d t"
proof -
  obtain re where k: "kind (stack d) = HWStackSram ceil re" using assms(1) by (auto simp: sram_def)
  define e where "e = (upd_sp (\<lambda>sp. mod_ceil ceil (sp - 1)) (set_reg (spn d) val d))
    \<lparr>threads := (threads d)\<lparr>m_phase_of_switch := eNormal, m_last_SP_read := 0, m_last_SP_writen := 0\<rparr>\<rparr>"
  have spe: "stackPointer (stack e) = mod_ceil ceil (stackPointer (stack d) - 1)" by (simp add: e_def upd_sp_def)
  have ok: "stack_ok (vectorTableSize (irq e)) (stack e)" using assms(1)
    by (simp add: e_def upd_sp_def sram_def stack_ok_def)
  then obtain u where u: "CheckReturnPoints e = Inr ((), u)" "stack_frame e u" "rw u = rw e"
      "threads u = threads e" "stack u = (stack e)\<lparr>returnPointList := filter (\<lambda>(k, v). k \<noteq> spn e) (returnPointList (stack e))\<rparr>"
    using CheckReturnPoints_run by blast
  define t where "t = u\<lparr>stack := (stack u)\<lparr>lowestStackPointer :=
      (if lowestStackPointer (stack u) > stackPointer (stack u) then stackPointer (stack u)
       else lowestStackPointer (stack u))\<rparr>\<rparr>"
  have "Push H val d = Inr ((), t)"
    using assms(4,5) k u(1)
    by (simp add: Push_def SetRWMem_def totalIoSpace_def mem_set_RAM OnPush_def upd_threads_def e_def upd_sp_def t_def)
  moreover have "sram ceil t"
    using assms(1) ok u(2,4,5) stack_ok_filter [OF ok]
    by (auto simp: t_def sram_def e_def upd_sp_def stack_frame_def stack_ok_def)
  moreover have "spn t = spn d - 1"
    using assms(2,3) by (simp add: t_def u(5) spe mod_ceil_dec)
  moreover have "rw t = (rw d)(spn d := RAM val)" by (simp add: t_def u(3) e_def upd_sp_def)
  moreover have "stack_frame d t"
  proof -
    have "stack_frame d e" by (simp add: stack_frame_def e_def upd_sp_def set_reg_def)
    moreover have "stack_frame u t" by (simp add: stack_frame_def t_def)
    ultimately show ?thesis using u(2) stack_frame_trans by blast
  qed
  ultimately show ?thesis by blast
qed

lemma Pop_step:
  assumes "sram ceil d" "spn d + 1 < ceil" "spn d + 1 < 65536" "rw d (spn d + 1) = RAM v"
  shows "\<exists>t. Pop H d = Inr (v, t) \<and> sram ceil t \<and> spn t = spn d + 1 \<and> rw t = rw d \<and> stack_frame d t"
proof -
  obtain re where k: "kind (stack d) = HWStackSram ceil re" using assms(1) by (auto simp: sram_def)
  define e where "e = (upd_sp (\<lambda>sp. mod_ceil ceil (sp + 1)) d)
    \<lparr>threads := (threads d)\<lparr>m_phase_of_switch := eNormal, m_last_SP_read := 0, m_last_SP_writen := 0\<rparr>\<rparr>"
  have spe: "spn e = spn d + 1"
    using assms(1,2) mod_ceil_inc [of "stackPointer (stack d)" ceil] by (simp add: e_def upd_sp_def sram_def)
  have ok: "stack_ok (vectorTableSize (irq e)) (stack e)" using assms(1)
    by (simp add: e_def upd_sp_def sram_def stack_ok_def)
  then obtain t where t: "CheckReturnPoints e = Inr ((), t)" "stack_frame e t" "rw t = rw e"
      "threads t = threads e" "stack t = (stack e)\<lparr>returnPointList := filter (\<lambda>(k, v). k \<noteq> spn e) (returnPointList (stack e))\<rparr>"
    using CheckReturnPoints_run by blast
  have spt: "spn t = spn d + 1" by (simp add: t(5) spe)
  have rwt: "rw t = rw d" by (simp add: t(3) e_def upd_sp_def)
  have "OnPop (upd_sp (\<lambda>sp. mod_ceil ceil (sp + 1)) d) = Inr ((), e)"
    using assms(1) by (simp add: OnPop_def OnPush_def upd_threads_def e_def upd_sp_def sram_def)
  then have "Pop H d = GetRWMem H (spn t) t" using k t(1) by (simp add: Pop_def)
  then have "Pop H d = Inr (v, t)"
    using assms(3,4) by (simp add: spt GetRWMem_def totalIoSpace_def mem_get_RAM rwt)
  moreover have "sram ceil t"
    using assms(1) ok t(2,4,5) stack_ok_filter [OF ok]
    by (auto simp: sram_def e_def upd_sp_def stack_frame_def stack_ok_def)
  moreover have "stack_frame d t"
  proof -
    have "stack_frame d e" by (simp add: stack_frame_def e_def upd_sp_def)
    then show ?thesis using t(2) stack_frame_trans by blast
  qed
  ultimately show ?thesis using spt rwt by blast
qed

section \<open>Return addresses on the stack in data memory\<close>

text \<open>The number of bytes of a return address and where they are.\<close>

definition pc_bytes :: "'h avr_device \<Rightarrow> nat" where
  "pc_bytes d = (if PC_size d = 3 then 3 else 2)"

definition stored :: "nat \<Rightarrow> (nat \<Rightarrow> rwcell) \<Rightarrow> nat \<Rightarrow> nat \<Rightarrow> bool" where
  "stored w m p a \<longleftrightarrow>
     (if w = 3 then m (p + 1) = RAM (low_byte (a div 65536)) \<and> m (p + 2) = RAM (low_byte (a div 256)) \<and>
        m (p + 3) = RAM (low_byte a)
      else m (p + 1) = RAM (low_byte (a div 256)) \<and> m (p + 2) = RAM (low_byte a))"

fun stored_all :: "nat \<Rightarrow> (nat \<Rightarrow> rwcell) \<Rightarrow> nat \<Rightarrow> nat list \<Rightarrow> bool" where
  "stored_all w m p [] = True"
| "stored_all w m p (a # as) = (stored w m p a \<and> stored_all w m (p + w) as)"

text \<open>\<open>n\<close> free slots of RAM below the stack pointer, the addresses \<open>as\<close> above it.\<close>

definition sram_holds :: "nat \<Rightarrow> nat \<Rightarrow> nat list \<Rightarrow> 'h avr_device \<Rightarrow> bool" where
  "sram_holds ceil n as d \<longleftrightarrow> sram ceil d \<and> pc_bytes d * n \<le> spn d \<and>
     spn d + pc_bytes d * length as < ceil \<and> spn d + pc_bytes d * length as < 65536 \<and>
     (\<forall>p. spn d < p + pc_bytes d * n \<and> p \<le> spn d \<longrightarrow> (\<exists>v. rw d p = RAM v)) \<and>
     list_all (\<lambda>a. a < 256 ^ pc_bytes d) as \<and> stored_all (pc_bytes d) (rw d) (spn d) as"

lemma stored_all_upd: "q \<le> p \<Longrightarrow> stored_all w (m(q := c)) p as = stored_all w m p as"
  by (induction as arbitrary: p) (auto simp: stored_def)

lemma unat_low_byte: "unat (low_byte n) = n mod 256"
  by (simp add: low_byte_def unat_of_nat)

lemma addr_split3: "a < 16777216 \<Longrightarrow> (a div 65536 * 256 + a div 256 mod 256) * 256 + a mod 256 = (a :: nat)"
proof -
  have "a div 65536 * 256 + a div 256 mod 256 = a div 256"
    using div_mult_mod_eq [of "a div 256" 256] by (simp add: div_mult2_eq [symmetric])
  then show ?thesis by simp
qed

lemma add3_Suc: "n + 3 = Suc (Suc (Suc n))" for n :: nat
  by simp

lemma le_Suc_Suc_cases: "p \<le> Suc (Suc s) \<Longrightarrow> p \<le> s \<or> p = Suc s \<or> p = Suc (Suc s)"
  by arith

lemma Push_at:
  assumes "sram ceil e" "stack_frame d e" "spn e = Suc s" "Suc s < ceil" "Suc s < 65536" "rw e (Suc s) = RAM v"
  shows "\<exists>t. Push H val e = Inr ((), t) \<and> sram ceil t \<and> spn t = s \<and>
    rw t = (rw e)(Suc s := RAM val) \<and> stack_frame d t"
  using Push_step [of ceil e v H val] assms stack_frame_trans [OF assms(2)] by auto

lemma Push_at2:
  assumes "sram ceil d" "spn d = Suc (Suc b)" "spn d < ceil" "spn d < 65536"
    and "rw d (Suc (Suc b)) = RAM v1" "rw d (Suc b) = RAM v2"
  shows "\<exists>t. sq (Push H x1) (Push H x2) d = Inr ((), t) \<and> sram ceil t \<and> spn t = b \<and>
    rw t = (rw d)(Suc (Suc b) := RAM x1, Suc b := RAM x2) \<and> stack_frame d t"
proof -
  have "stack_frame d d" by (simp add: stack_frame_def)
  from Push_at [OF assms(1) this assms(2), of v1 H x1] assms obtain t1 where
    t1: "Push H x1 d = Inr ((), t1)" "sram ceil t1" "spn t1 = Suc b" "rw t1 = (rw d)(Suc (Suc b) := RAM x1)"
      "stack_frame d t1" by auto
  from Push_at [OF t1(2,5,3), of v2 H x2] assms t1 show ?thesis by auto
qed

lemma PushAddr_step2:
  assumes "sram_holds ceil (Suc n) as d" "PC_size d \<noteq> 3" "a < 65536"
  shows "\<exists>t. PushAddr H a d = Inr ((), t) \<and> sram_holds ceil n (a # as) t \<and> stack_frame d t \<and>
    spn t + 2 = spn d \<and> (\<forall>p. p \<le> spn t \<or> spn d < p \<longrightarrow> rw t p = rw d p)"
proof -
  from assms have d: "sram ceil d" "pc_bytes d = 2" "2 * Suc n \<le> spn d" "spn d < ceil" "spn d < 65536"
    and ram: "\<And>p. spn d < p + 2 * Suc n \<Longrightarrow> p \<le> spn d \<Longrightarrow> \<exists>v. rw d p = RAM v"
    by (auto simp: sram_holds_def pc_bytes_def)
  from d(3) obtain b where b: "spn d = Suc (Suc b)" by (metis add_2_eq_Suc le_Suc_ex mult_2 add_Suc_right add_Suc)
  obtain v1 v2 where v: "rw d (Suc (Suc b)) = RAM v1" "rw d (Suc b) = RAM v2"
    using ram [of "Suc (Suc b)"] ram [of "Suc b"] b by auto
  obtain re where k: "kind (stack d) = HWStackSram ceil re" using d by (auto simp: sram_def)
  from Push_at2 [OF d(1) b d(4,5) v, of H "low_byte a" "low_byte (a div 256)"] obtain t where
    t: "sq (Push H (low_byte a)) (Push H (low_byte (a div 256))) d = Inr ((), t)" "sram ceil t" "spn t = b"
      "rw t = (rw d)(Suc (Suc b) := RAM (low_byte a), Suc b := RAM (low_byte (a div 256)))" "stack_frame d t"
    by blast
  have "PushAddr H a d = Inr ((), t)" using assms(2) k t(1) by (auto simp: PushAddr_def elim!: sq_eq_InrE)
  moreover have "pc_bytes t = 2" using d(2) stack_frameD(2) [OF t(5)] by (simp add: pc_bytes_def split: if_splits)
  ultimately show ?thesis using assms d(2) t b
    by (auto simp: sram_holds_def stored_def stored_all_upd)
qed

lemma PushAddr_step3:
  assumes "sram_holds ceil (Suc n) as d" "PC_size d = 3" "a < 16777216"
  shows "\<exists>t. PushAddr H a d = Inr ((), t) \<and> sram_holds ceil n (a # as) t \<and> stack_frame d t \<and>
    spn t + 3 = spn d \<and> (\<forall>p. p \<le> spn t \<or> spn d < p \<longrightarrow> rw t p = rw d p)"
proof -
  from assms have d: "sram ceil d" "pc_bytes d = 3" "3 * Suc n \<le> spn d" "spn d < ceil" "spn d < 65536"
    and ram: "\<And>p. spn d < p + 3 * Suc n \<Longrightarrow> p \<le> spn d \<Longrightarrow> \<exists>v. rw d p = RAM v"
    by (auto simp: sram_holds_def pc_bytes_def)
  from d(3) have "spn d = Suc (Suc (Suc (spn d - 3)))" by arith
  then obtain b where b: "spn d = Suc (Suc (Suc b))" by blast
  obtain v1 v2 v3 where v: "rw d (Suc (Suc (Suc b))) = RAM v1" "rw d (Suc (Suc b)) = RAM v2" "rw d (Suc b) = RAM v3"
    using ram [of "Suc (Suc (Suc b))"] ram [of "Suc (Suc b)"] ram [of "Suc b"] b by auto
  obtain re where k: "kind (stack d) = HWStackSram ceil re" using d by (auto simp: sram_def)
  from Push_at2 [OF d(1) b d(4,5) v(1,2), of H "low_byte a" "low_byte (a div 256)"] obtain u where
    u: "sq (Push H (low_byte a)) (Push H (low_byte (a div 256))) d = Inr ((), u)" "sram ceil u" "spn u = Suc b"
      "rw u = (rw d)(Suc (Suc (Suc b)) := RAM (low_byte a), Suc (Suc b) := RAM (low_byte (a div 256)))"
      "stack_frame d u" by blast
  from Push_at [OF u(2,5,3), of v3 H "low_byte (a div 65536)"] u(4) v(3) b d(4,5) obtain t where
    t: "Push H (low_byte (a div 65536)) u = Inr ((), t)" "sram ceil t" "spn t = b"
      "rw t = (rw u)(Suc b := RAM (low_byte (a div 65536)))" "stack_frame d t" by auto
  have "PushAddr H a d = Inr ((), t)" using assms(2) k u(1) t(1)
    by (auto simp: PushAddr_def elim!: sq_eq_InrE)
  moreover have "pc_bytes t = 3" using d(2) stack_frameD(2) [OF t(5)] by (simp add: pc_bytes_def split: if_splits)
  ultimately show ?thesis using assms d(2) t u(4) b
    by (auto simp: sram_holds_def stored_def stored_all_upd add3_Suc)
qed

lemma Pop_at:
  assumes "sram ceil e" "stack_frame d e" "spn e = s" "Suc s < ceil" "Suc s < 65536" "rw e (Suc s) = RAM v"
  shows "\<exists>t. Pop H e = Inr (v, t) \<and> sram ceil t \<and> spn t = Suc s \<and> rw t = rw e \<and> stack_frame d t"
  using Pop_step [of ceil e v H] assms stack_frame_trans [OF assms(2)] by auto

lemma Pop_at2:
  assumes "sram ceil d" "spn d = s" "Suc (Suc s) < ceil" "Suc (Suc s) < 65536"
    and "rw d (Suc s) = RAM v1" "rw d (Suc (Suc s)) = RAM v2"
  shows "\<exists>e t. Pop H d = Inr (v1, e) \<and> Pop H e = Inr (v2, t) \<and> sram ceil t \<and> spn t = Suc (Suc s) \<and>
    rw t = rw d \<and> stack_frame d t"
proof -
  have "stack_frame d d" by (simp add: stack_frame_def)
  from Pop_at [OF assms(1) this assms(2), of v1 H] assms obtain e where
    e: "Pop H d = Inr (v1, e)" "sram ceil e" "spn e = Suc s" "rw e = rw d" "stack_frame d e" by auto
  from Pop_at [OF e(2,5,3), of v2 H] assms e show ?thesis by auto
qed

lemma PopAddr_step2:
  assumes "sram_holds ceil n (a # as) d" "PC_size d \<noteq> 3"
  shows "\<exists>t. PopAddr H d = Inr (a, t) \<and> sram_holds ceil (Suc n) as t \<and> stack_frame d t \<and>
    spn t = spn d + 2 \<and> rw t = rw d"
proof -
  from assms have d: "sram ceil d" "pc_bytes d = 2" "Suc (Suc (spn d)) < ceil" "Suc (Suc (spn d)) < 65536" "a < 65536"
    and v: "rw d (Suc (spn d)) = RAM (low_byte (a div 256))" "rw d (Suc (Suc (spn d))) = RAM (low_byte a)"
    by (auto simp: sram_holds_def pc_bytes_def stored_def)
  obtain re where k: "kind (stack d) = HWStackSram ceil re" using d by (auto simp: sram_def)
  from Pop_at2 [OF d(1) refl d(3,4) v, of H] obtain e t where
    e: "Pop H d = Inr (low_byte (a div 256), e)" "Pop H e = Inr (low_byte a, t)"
    and t: "sram ceil t" "spn t = Suc (Suc (spn d))" "rw t = rw d" "stack_frame d t" by blast
  have "PopAddr H d = Inr (a, t)" using assms(2) k e d(5) by (simp add: PopAddr_def Let_def unat_low_byte)
  moreover have "pc_bytes t = 2" using d(2) stack_frameD(2) [OF t(4)] by (simp add: pc_bytes_def split: if_splits)
  moreover have "\<exists>v. rw d p = RAM v" if p: "spn t < p + 2 * Suc n" "p \<le> spn t" for p
  proof -
    consider "p \<le> spn d" | "p = Suc (spn d)" | "p = Suc (Suc (spn d))"
      using p(2) t(2) le_Suc_Suc_cases by auto
    then show ?thesis
    proof cases
      case 1
      then show ?thesis using assms(1) p d(2) t(2) by (auto simp: sram_holds_def)
    qed (use v in auto)
  qed
  ultimately show ?thesis using assms d(2) t by (auto simp: sram_holds_def)
qed

lemma PopAddr_step3:
  assumes "sram_holds ceil n (a # as) d" "PC_size d = 3"
  shows "\<exists>t. PopAddr H d = Inr (a, t) \<and> sram_holds ceil (Suc n) as t \<and> stack_frame d t \<and>
    spn t = spn d + 3 \<and> rw t = rw d"
proof -
  from assms have d: "sram ceil d" "pc_bytes d = 3" "Suc (Suc (Suc (spn d))) < ceil" "Suc (Suc (Suc (spn d))) < 65536"
      "a < 16777216"
    and v: "rw d (Suc (spn d)) = RAM (low_byte (a div 65536))" "rw d (Suc (Suc (spn d))) = RAM (low_byte (a div 256))"
      "rw d (Suc (Suc (Suc (spn d)))) = RAM (low_byte a)"
    by (auto simp: sram_holds_def pc_bytes_def stored_def add3_Suc)
  obtain re where k: "kind (stack d) = HWStackSram ceil re" using d by (auto simp: sram_def)
  from Pop_at2 [OF d(1) refl _ _ v(1,2), of H] d(3,4) obtain e u where
    e: "Pop H d = Inr (low_byte (a div 65536), e)" "Pop H e = Inr (low_byte (a div 256), u)"
    and u: "sram ceil u" "spn u = Suc (Suc (spn d))" "rw u = rw d" "stack_frame d u" by auto
  from Pop_at [OF u(1,4,2), of "low_byte a" H] d(3,4) v(3) u(3) obtain t where
    t: "Pop H u = Inr (low_byte a, t)" "sram ceil t" "spn t = Suc (Suc (Suc (spn d)))" "rw t = rw d" "stack_frame d t"
    by auto
  have "a div 65536 < 256" using d(5) by (simp add: less_mult_imp_div_less)
  then have "PopAddr H d = Inr (a, t)" using assms(2) k e t(1) addr_split3 [OF d(5)]
    by (simp add: PopAddr_def Let_def unat_low_byte)
  moreover have "pc_bytes t = 3" using d(2) stack_frameD(2) [OF t(5)] by (simp add: pc_bytes_def split: if_splits)
  moreover have "\<exists>v. rw d p = RAM v" if p: "spn t < p + 3 * Suc n" "p \<le> spn t" for p
  proof -
    consider "p \<le> spn d" | "p = Suc (spn d)" | "p = Suc (Suc (spn d))" | "p = Suc (Suc (Suc (spn d)))"
      using p(2) t(3) le_Suc_Suc_cases [of p "spn d"] le_Suc_eq by auto
    then show ?thesis
    proof cases
      case 1
      then show ?thesis using assms(1) p d(2) t(3) by (auto simp: sram_holds_def)
    qed (use v in auto)
  qed
  ultimately show ?thesis using assms d(2) t by (auto simp: sram_holds_def add3_Suc)
qed

section \<open>The implementations\<close>

definition holds2 :: "nat \<Rightarrow> nat \<Rightarrow> nat list \<Rightarrow> 'h avr_device \<Rightarrow> bool" where
  "holds2 ceil n as d \<longleftrightarrow> sram_holds ceil n as d \<and> PC_size d \<noteq> 3"

definition holds3 :: "nat \<Rightarrow> nat \<Rightarrow> nat list \<Rightarrow> 'h avr_device \<Rightarrow> bool" where
  "holds3 ceil n as d \<longleftrightarrow> sram_holds ceil n as d \<and> PC_size d = 3"

text \<open>The three level stack.\<close>

definition holds_hw :: "nat \<Rightarrow> nat list \<Rightarrow> 'h avr_device \<Rightarrow> bool" where
  "holds_hw n as d \<longleftrightarrow> n + length as \<le> 3 \<and>
     (\<exists>a b c. kind (stack d) = ThreeLevelStack a b c \<and> as = take (length as) [a, b, c])"

interpretation sram2: return_stack "PushAddr H" "PopAddr H" "holds2 ceil" "\<lambda>a. a < 65536" for H ceil
proof
  fix n as and d :: "'a avr_device" and a :: nat
  assume "holds2 ceil (Suc n) as d" "a < 65536"
  then show "\<exists>t. PushAddr H a d = Inr ((), t) \<and> holds2 ceil n (a # as) t"
    using PushAddr_step2 [of ceil n as d a H] by (auto simp: holds2_def dest: stack_frameD)
next
  fix n a as and d :: "'a avr_device"
  assume "holds2 ceil n (a # as) d"
  then show "\<exists>t. PopAddr H d = Inr (a, t) \<and> holds2 ceil (Suc n) as t"
    using PopAddr_step2 [of ceil n a as d H] by (auto simp: holds2_def dest: stack_frameD)
qed

interpretation sram3: return_stack "PushAddr H" "PopAddr H" "holds3 ceil" "\<lambda>a. a < 16777216" for H ceil
proof
  fix n as and d :: "'a avr_device" and a :: nat
  assume "holds3 ceil (Suc n) as d" "a < 16777216"
  then show "\<exists>t. PushAddr H a d = Inr ((), t) \<and> holds3 ceil n (a # as) t"
    using PushAddr_step3 [of ceil n as d a H] by (auto simp: holds3_def dest: stack_frameD)
next
  fix n a as and d :: "'a avr_device"
  assume "holds3 ceil n (a # as) d"
  then show "\<exists>t. PopAddr H d = Inr (a, t) \<and> holds3 ceil (Suc n) as t"
    using PopAddr_step3 [of ceil n a as d H] by (auto simp: holds3_def dest: stack_frameD)
qed

lemma take3_init: "length as \<le> 2 \<Longrightarrow> as = take (length as) [a, b, c] \<Longrightarrow> as = take (length as) [a, b]"
  by (cases as; cases "tl as"; cases "tl (tl as)") auto

lemma take3_tail: "length as \<le> 2 \<Longrightarrow> x # as = take (Suc (length as)) [a, b, c] \<Longrightarrow> x = a \<and> as = take (length as) [b, c, c]"
  by (cases as; cases "tl as"; cases "tl (tl as)") auto

interpretation hw3: return_stack "PushAddr H" "PopAddr H" holds_hw "\<lambda>a. True" for H
proof
  fix n as and d :: "'a avr_device" and x
  assume "holds_hw (Suc n) as d"
  then obtain a b c where k: "kind (stack d) = ThreeLevelStack a b c" "as = take (length as) [a, b, c]"
    and l: "n + Suc (length as) \<le> 3" by (auto simp: holds_hw_def)
  then have "as = take (length as) [a, b]" using take3_init [OF _ k(2)] by auto
  then show "\<exists>t. PushAddr H x d = Inr ((), t) \<and> holds_hw n (x # as) t"
    using k(1) l by (auto simp: holds_hw_def PushAddr_def Let_def)
next
  fix n x as and d :: "'a avr_device"
  assume h: "holds_hw n (x # as) d"
  then obtain a b c where k: "kind (stack d) = ThreeLevelStack a b c" "x # as = take (Suc (length as)) [a, b, c]"
    and l: "n + Suc (length as) \<le> 3" by (auto simp: holds_hw_def)
  have "x = a" "as = take (length as) [b, c, c]" using take3_tail [OF _ k(2)] l by auto
  then show "\<exists>t. PopAddr H d = Inr (x, t) \<and> holds_hw (Suc n) as t"
    using k l by (auto simp: holds_hw_def PopAddr_def Let_def)
qed

section \<open>Properties\<close>

text \<open>A device whose RAM is empty and whose stack pointer is at the end of the RAM.\<close>

definition stack_device :: "unit avr_device" where
  "stack_device = AvrDevice
     \<lparr>flags = default_flags, ioSpaceSize = 64, iRamSize = 512, eRamSize = 0, clockFreq = 250, abortOnInvalidAccess = False\<rparr>
     (new_flash 8192) (HWStackSram 1024 True) (HWIrqSystem 2 16) ()"

lemma stack_device_holds: "holds2 1024 n [] stack_device" if "n \<le> 256"
proof -
  have "word_of_nat (512 + 64 + registerSpaceSize - 1) = (0x25f :: word32)" by (simp add: registerSpaceSize_def)
  then have sp: "spn stack_device = 607" by (simp add: stack_device_def AvrDevice_def Stack_Reset_def Let_def)
  have "\<exists>v. rw stack_device p = RAM v" if "607 < p + 2 * n" "p \<le> 607" for p
    using that \<open>n \<le> 256\<close> by (auto simp: stack_device_def AvrDevice_def Stack_Reset_def init_rw_def registerSpaceSize_def Let_def)
  moreover have "sram 1024 stack_device" "PC_size stack_device = 2"
    by (auto simp: sram_def stack_device_def AvrDevice_def Stack_Reset_def stack_ok_def ThreadList_def Let_def)
  ultimately show ?thesis using that sp by (simp add: holds2_def sram_holds_def pc_bytes_def)
qed

text \<open>
  C33. Return addresses come back in the reverse order: on a stack in data memory with enough
  RAM below the stack pointer, pushing any list of 16 bit addresses and popping as many yields
  them last in first out, without errors, and leaves the room that was there before.
\<close>

theorem sram_stack_lifo:
  assumes "holds2 ceil (length bs) [] d" "list_all (\<lambda>a. a < 65536) bs"
  shows "\<exists>t. sq (forS (PushAddr H) bs) (mapS (\<lambda>_. PopAddr H) bs) d = Inr (rev bs, t) \<and> holds2 ceil (length bs) [] t"
  using sram2.lifo [of ceil bs 0 "[]" d H] assms by simp

theorem sram_stack_lifo_witness:
  "\<forall>H. \<exists>t. sq (forS (PushAddr H) [0x1234, 0xffff, 7]) (mapS (\<lambda>_. PopAddr H) [0x1234, 0xffff, 7 :: nat]) stack_device
     = Inr ([7, 0xffff, 0x1234], t)"
proof
  fix H :: "unit hardware"
  have "holds2 1024 (length [0x1234, 0xffff, 7 :: nat]) [] stack_device" by (rule stack_device_holds) simp
  from sram_stack_lifo [OF this, of H] show "\<exists>t. sq (forS (PushAddr H) [0x1234, 0xffff, 7])
      (mapS (\<lambda>_. PopAddr H) [0x1234, 0xffff, 7 :: nat]) stack_device = Inr ([7, 0xffff, 0x1234], t)" by auto
qed

text \<open>
  The three level hardware stack returns up to three nested return addresses of any width
  last in first out.
\<close>

theorem three_level_stack_lifo:
  assumes "holds_hw (length bs) [] d"
  shows "\<exists>t. sq (forS (PushAddr H) bs) (mapS (\<lambda>_. PopAddr H) bs) d = Inr (rev bs, t) \<and> holds_hw (length bs) [] t"
  using hw3.lifo [of bs 0 "[]" d H] assms by (simp add: list.pred_True)

theorem three_level_stack_lifo_witness:
  "\<forall>H. \<exists>t. sq (forS (PushAddr H) [1, 2, 3]) (mapS (\<lambda>_. PopAddr H) [1, 2, 3 :: nat])
     (stack_device\<lparr>stack := (stack stack_device)\<lparr>kind := ThreeLevelStack 0 0 0\<rparr>\<rparr>) = Inr ([3, 2, 1], t)"
proof
  fix H :: "unit hardware"
  let ?d = "stack_device\<lparr>stack := (stack stack_device)\<lparr>kind := ThreeLevelStack 0 0 0\<rparr>\<rparr>"
  have "holds_hw (length [1, 2, 3 :: nat]) [] ?d" by (simp add: holds_hw_def)
  from three_level_stack_lifo [OF this, of H] show "\<exists>t. sq (forS (PushAddr H) [1, 2, 3])
      (mapS (\<lambda>_. PopAddr H) [1, 2, 3 :: nat]) ?d = Inr ([3, 2, 1], t)" by auto
qed

end
