(* ===== verification/Avr_Isa.thy ===== *)
theory Avr_Isa
  imports Avr_Stack Avr_Encoding
begin

text \<open>
  What the instructions compute: the model of \<^verbatim>\<open>src/src/decoder.cpp\<close> against arithmetic on
  integers. Flags are those of the exact sum, difference or product (\<open>add_spec\<close>, \<open>sub_spec\<close>);
  sequences of instructions on register pairs are 16 bit arithmetic and comparison.
\<close>

section \<open>Register state\<close>

lemma regs_ok_upd [simp]:
  "regs_ok (d\<lparr>status := s\<rparr>) = regs_ok d" "regs_ok (d\<lparr>PC := p\<rparr>) = regs_ok d"
  "regs_ok (d\<lparr>rampz := z\<rparr>) = regs_ok d" "regs_ok (d\<lparr>recentJumpsIndex := n, recentJumps := l\<rparr>) = regs_ok d"
  by (simp_all add: regs_ok_def)

lemma reg_upd [simp]:
  "reg (d\<lparr>status := s\<rparr>) = reg d" "reg (d\<lparr>PC := p\<rparr>) = reg d" "reg (d\<lparr>rampz := z\<rparr>) = reg d"
  by (simp_all add: reg_def fun_eq_iff)

lemma set_reg_upd [simp]:
  "set_reg i v (d\<lparr>status := s\<rparr>) = (set_reg i v d)\<lparr>status := s\<rparr>"
  "set_reg i v (d\<lparr>PC := p\<rparr>) = (set_reg i v d)\<lparr>PC := p\<rparr>"
  by (simp_all add: set_reg_def)

lemma set_reg_same [simp]: "set_reg i v (set_reg i w d) = set_reg i v d"
  by (simp add: set_reg_def)

lemma regs_ok_upd2 [simp]: "regs_ok (d\<lparr>cpuCycles := c\<rparr>) = regs_ok d"
  by (simp add: regs_ok_def)

text \<open>Registers of the device with an empty RAM, for examples.\<close>

lemma stack_device_regs [simp]: "regs_ok stack_device"
  by (simp add: stack_device_def AvrDevice_def Stack_Reset_def regs_ok_def init_rw_def registerSpaceSize_def Let_def)

lemma stack_device_reg [simp]: "i < 32 \<Longrightarrow> reg stack_device i = 0xaa"
  by (simp add: stack_device_def AvrDevice_def Stack_Reset_def reg_def init_rw_def registerSpaceSize_def Let_def)

lemma stack_device_status [simp]: "status stack_device = sreg_of_int 0"
  by (simp add: stack_device_def AvrDevice_def Stack_Reset_def Let_def)

text \<open>A register pair as a number.\<close>

lemma uint_pair: "uint (pair d lo) = uint (reg d (lo + 1)) * 256 + uint (reg d lo)"
proof -
  have "unat (pair d lo) = unat (reg d (lo + 1)) * 256 + unat (reg d lo)"
    using unsigned_less [of "reg d (lo + 1)", where ?'a = nat] unsigned_less [of "reg d lo", where ?'a = nat]
    by (simp add: pair_def push_bit_eq_mult unat_word_ariths unsigned_ucast_eq take_bit_eq_mod)
  then show ?thesis by (simp only: uint_nat of_nat_add of_nat_mult of_nat_numeral)
qed

lemma sint_word16: "sint (x :: word16) = (if 32768 \<le> uint x then uint x - 65536 else uint x)"
proof -
  have "sint x = signed_take_bit 15 (uint x)" by (simp add: sint_uint)
  also have "\<dots> = (if 32768 \<le> uint x then uint x - 65536 else uint x)"
  proof -
    have b: "0 \<le> uint x" "uint x < 65536" using uint_bounded [of x] by simp_all
    have "signed_take_bit 15 (uint x) = (uint x + 32768) mod 65536 - 32768"
      by (simp add: signed_take_bit_eq_take_bit_shift take_bit_eq_mod add.commute)
    also have "(uint x + 32768) mod 65536 = (if 32768 \<le> uint x then uint x - 32768 else uint x + 32768)"
    proof (cases "32768 \<le> uint x")
      case True
      have "(uint x + 32768) mod 65536 = (uint x - 32768 + 65536) mod 65536" by (simp add: add.commute)
      also have "\<dots> = uint x - 32768" using True b by (simp only: mod_add_self2) (rule mod_pos_pos_trivial; simp)
      finally show ?thesis using True by simp
    qed (use b in simp)
    finally show ?thesis by simp
  qed
  finally show ?thesis .
qed

lemma sint_pair: "sint (pair d lo) = sint (reg d (lo + 1)) * 256 + uint (reg d lo)"
proof -
  have "(if 32768 \<le> h * 256 + l then h * 256 + l - 65536 else h * 256 + l) =
      (if 128 \<le> h then h - 256 else h) * 256 + l" if "0 \<le> l" "l < 256" for h l :: int
    using that by auto
  from this [OF uint_byte_bounds] show ?thesis unfolding sint_word16 uint_pair sint_byte .
qed

section \<open>Eight bit arithmetic\<close>

text \<open>ADD, ADC, CP and CPC in terms of the specification of the flags.\<close>

lemma run_add:
  assumes "regs_ok d" "r1 < 32" "r2 < 32"
  shows "exec H (RR ADD r1 r2) d =
      Inr (1, (set_reg r1 (reg d r1 + reg d r2) d)\<lparr>status := add_spec (reg d r1) (reg d r2) False (status d)\<rparr>)"
    and "exec H (RR ADC r1 r2) d =
      Inr (1, (set_reg r1 (reg d r1 + reg d r2 + of_bool (sr_C (status d))) d)
        \<lparr>status := add_spec (reg d r1) (reg d r2) (sr_C (status d)) (status d)\<rparr>)"
  using assms by (simp_all add: exec_def exec_rr_def avr_op_ADD_def avr_op_ADC_def flags_eq)

lemma run_sub:
  assumes "regs_ok d" "r1 < 32" "r2 < 32"
  shows "exec H (RR SUB r1 r2) d = Inr (1, (set_reg r1 (reg d r1 - reg d r2) d)
      \<lparr>status := sub_spec (reg d r1 = reg d r2) (reg d r1) (reg d r2) False (status d)\<rparr>)"
    and "exec H (RR SBC r1 r2) d = Inr (1, (set_reg r1 (reg d r1 - reg d r2 - of_bool (sr_C (status d))) d)
      \<lparr>status := sub_spec (reg d r1 - reg d r2 - of_bool (sr_C (status d)) = 0 \<and> sr_Z (status d))
         (reg d r1) (reg d r2) (sr_C (status d)) (status d)\<rparr>)"
    and "exec H (RR CP r1 r2) d = Inr (1, d
      \<lparr>status := sub_spec (reg d r1 = reg d r2) (reg d r1) (reg d r2) False (status d)\<rparr>)"
    and "exec H (RR CPC r1 r2) d = Inr (1, d
      \<lparr>status := sub_spec (reg d r1 - reg d r2 - of_bool (sr_C (status d)) = 0 \<and> sr_Z (status d))
         (reg d r1) (reg d r2) (sr_C (status d)) (status d)\<rparr>)"
  using assms by (simp_all add: exec_def exec_rr_def avr_op_SUB_def avr_op_CP_def avr_op_SBC_def
      avr_op_CPC_def flags_compare flags_eq)

lemma run_subi:
  assumes "regs_ok d" "r1 < 32"
  shows "exec H (RK SUBI r1 k) d =
      Inr (1, (set_reg r1 (reg d r1 - k) d)\<lparr>status := sub_spec (reg d r1 = k) (reg d r1) k False (status d)\<rparr>)"
    and "exec H (RK CPI r1 k) d = Inr (1, d\<lparr>status := sub_spec (reg d r1 = k) (reg d r1) k False (status d)\<rparr>)"
    and "exec H (RK SBCI r1 k) d = Inr (1, (set_reg r1 (reg d r1 - k - of_bool (sr_C (status d))) d)
      \<lparr>status := sub_spec (reg d r1 - k - of_bool (sr_C (status d)) = 0 \<and> sr_Z (status d))
         (reg d r1) k (sr_C (status d)) (status d)\<rparr>)"
  using assms by (simp_all add: exec_def exec_rk_def avr_op_SUBI_def avr_op_CPI_def avr_op_SBCI_def
      flags_compare flags_eq)

text \<open>
  C8. ADD and ADC store the sum modulo 256 and set H, S, V, N, Z and C to half carry, sign of
  the exact signed sum, signed overflow, sign and zero of the result, and carry; nothing else
  changes, and each takes one cycle.
\<close>

theorem exec_add:
  assumes "regs_ok d" "r1 < 32" "r2 < 32"
  shows "exec H (RR ADD r1 r2) d =
      Inr (1, (set_reg r1 (reg d r1 + reg d r2) d)\<lparr>status := add_spec (reg d r1) (reg d r2) False (status d)\<rparr>) \<and>
    exec H (RR ADC r1 r2) d =
      Inr (1, (set_reg r1 (reg d r1 + reg d r2 + of_bool (sr_C (status d))) d)
        \<lparr>status := add_spec (reg d r1) (reg d r2) (sr_C (status d)) (status d)\<rparr>)"
  using run_add [OF assms] by blast

theorem exec_add_witness:
  "\<forall>H. exec H (RR ADD 3 4) stack_device =
     Inr (1, (set_reg 3 (0xaa + 0xaa) stack_device)\<lparr>status := add_spec 0xaa 0xaa False (sreg_of_int 0)\<rparr>)"
  using exec_add [of stack_device 3 4] by simp

text \<open>
  C9. SUB, SUBI, SBC, SBCI, CP, CPI and CPC set the flags of the exact difference, with the
  borrow taken from C where the instruction says so; the subtractions store the difference, the
  comparisons store nothing; SBC, SBCI and CPC leave Z set only if it was set before.
\<close>

theorem exec_sub:
  assumes "regs_ok d" "r1 < 32" "r2 < 32"
  defines "a \<equiv> reg d r1" and "b \<equiv> reg d r2" and "c \<equiv> sr_C (status d)" and "z \<equiv> sr_Z (status d)"
  shows "exec H (RR SUB r1 r2) d =
      Inr (1, (set_reg r1 (a - b) d)\<lparr>status := sub_spec (a = b) a b False (status d)\<rparr>) \<and>
    exec H (RK SUBI r1 k) d =
      Inr (1, (set_reg r1 (a - k) d)\<lparr>status := sub_spec (a = k) a k False (status d)\<rparr>) \<and>
    exec H (RR CP r1 r2) d = Inr (1, d\<lparr>status := sub_spec (a = b) a b False (status d)\<rparr>) \<and>
    exec H (RK CPI r1 k) d = Inr (1, d\<lparr>status := sub_spec (a = k) a k False (status d)\<rparr>) \<and>
    exec H (RR SBC r1 r2) d = Inr (1, (set_reg r1 (a - b - of_bool c) d)
      \<lparr>status := sub_spec (a - b - of_bool c = 0 \<and> z) a b c (status d)\<rparr>) \<and>
    exec H (RK SBCI r1 k) d = Inr (1, (set_reg r1 (a - k - of_bool c) d)
      \<lparr>status := sub_spec (a - k - of_bool c = 0 \<and> z) a k c (status d)\<rparr>) \<and>
    exec H (RR CPC r1 r2) d = Inr (1, d\<lparr>status := sub_spec (a - b - of_bool c = 0 \<and> z) a b c (status d)\<rparr>)"
  unfolding a_def b_def c_def z_def using run_sub [OF assms(1-3)] run_subi [OF assms(1,2)] by blast

theorem exec_sub_witness:
  "\<forall>H. exec H (RK SUBI 3 0xab) stack_device =
     Inr (1, (set_reg 3 (0xaa - 0xab) stack_device)\<lparr>status := sub_spec False 0xaa 0xab False (sreg_of_int 0)\<rparr>)"
  using exec_sub [of stack_device 3 4 _ "0xab"] by simp

section \<open>Sixteen bit arithmetic and comparison\<close>

lemma mod_65536_wrap:
  fixes k :: int
  assumes "- 65536 \<le> k" "k < 131072"
  shows "k mod 65536 = (if k < 0 then k + 65536 else if k < 65536 then k else k - 65536)"
proof -
  have shift: "k mod 65536 = k + j * 65536" if "0 \<le> k + j * 65536" "k + j * 65536 < 65536" for j
    using that mod_mult_self1 [of k j 65536] mod_pos_pos_trivial [of "k + j * 65536" 65536] by (simp only:)
  show ?thesis using assms shift [of 1] shift [of 0] shift [of "- 1"] by simp
qed

lemma uint_word16_bounds: "0 \<le> uint (x :: word16)" "uint (x :: word16) < 65536"
  using uint_bounded [of x] by simp_all

text \<open>Adding the bytes with the carry between them; over integers.\<close>

lemma add16_int:
  fixes h l h' l' :: int
  assumes "0 \<le> l" "l < 256" "0 \<le> l'" "l' < 256" "0 \<le> h" "h < 256" "0 \<le> h'" "h' < 256"
  defines "c \<equiv> of_bool (256 \<le> l + l')"
  shows "(h + h' + c) mod 256 * 256 + (l + l') mod 256 = (h * 256 + l + (h' * 256 + l')) mod 65536"
    and "256 \<le> h + h' + c \<longleftrightarrow> 65536 \<le> h * 256 + l + (h' * 256 + l')"
  using assms by (auto simp: mod_256_wrap mod_65536_wrap)

lemma sub16_int:
  fixes h l h' l' :: int
  assumes "0 \<le> l" "l < 256" "0 \<le> l'" "l' < 256" "0 \<le> h" "h < 256" "0 \<le> h'" "h' < 256"
  defines "c \<equiv> of_bool (l < l')"
  shows "(h - h' - c) mod 256 * 256 + (l - l') mod 256 = (h * 256 + l - (h' * 256 + l')) mod 65536"
    and "h < h' + c \<longleftrightarrow> h * 256 + l < h' * 256 + l'"
  using assms by (auto simp: mod_256_wrap mod_65536_wrap)

lemma signed16_int:
  fixes h l h' l' :: int
  assumes "0 \<le> l" "l < 256" "0 \<le> l'" "l' < 256"
  shows "h + h' + of_bool (256 \<le> l + l') < 0 \<longleftrightarrow> h * 256 + l + (h' * 256 + l') < 0"
    and "h + h' + of_bool (256 \<le> l + l') < 128 \<longleftrightarrow> h * 256 + l + (h' * 256 + l') < 32768"
    and "- 128 \<le> h + h' + of_bool (256 \<le> l + l') \<longleftrightarrow> - 32768 \<le> h * 256 + l + (h' * 256 + l')"
    and "h - h' - of_bool (l < l') < 0 \<longleftrightarrow> h * 256 + l - (h' * 256 + l') < 0"
    and "h - h' - of_bool (l < l') < 128 \<longleftrightarrow> h * 256 + l - (h' * 256 + l') < 32768"
    and "- 128 \<le> h - h' - of_bool (l < l') \<longleftrightarrow> - 32768 \<le> h * 256 + l - (h' * 256 + l')"
  using assms by auto

text \<open>Two registers replaced one after the other.\<close>

lemma pair_eqI:
  assumes "uint (reg d lo) = l" "uint (reg d (lo + 1)) = h" "uint w = h * 256 + l"
  shows "pair d lo = w"
  using assms by (intro word_uint_eqI) (simp add: uint_pair)

text \<open>Four bytes as arguments of the integer lemmas.\<close>

lemmas add16 = add16_int [OF uint_byte_bounds uint_byte_bounds uint_byte_bounds uint_byte_bounds]
lemmas sub16 = sub16_int [OF uint_byte_bounds uint_byte_bounds uint_byte_bounds uint_byte_bounds]
lemmas signed16 = signed16_int [OF uint_byte_bounds uint_byte_bounds]

lemma ADD_ADC:
  assumes d: "regs_ok d" and r: "a < 31" "b < 31" "b \<noteq> a + 1" "a \<noteq> b + 1"
  defines "x \<equiv> pair d a" and "y \<equiv> pair d b"
  shows "\<exists>t. sq (exec H (RR ADD a b)) (exec H (RR ADC (a + 1) (b + 1))) d = Inr (1, t) \<and>
      pair t a = x + y \<and> (\<forall>i. i \<noteq> a \<and> i \<noteq> a + 1 \<longrightarrow> reg t i = reg d i) \<and>
      sr_C (status t) = (65536 \<le> uint x + uint y) \<and>
      sr_S (status t) = (sint x + sint y < 0) \<and>
      sr_V (status t) = (\<not> (- 32768 \<le> sint x + sint y \<and> sint x + sint y < 32768))"
proof -
  define l l' h h' where "l = reg d a" and "l' = reg d b" and "h = reg d (a + 1)" and "h' = reg d (b + 1)"
  define c where "c = (256 \<le> uint l + uint l')"
  define e where "e = (set_reg a (l + l') d)\<lparr>status := add_spec l l' False (status d)\<rparr>"
  define t where "t = (set_reg (a + 1) (h + h' + of_bool c) e)\<lparr>status := add_spec h h' c (status e)\<rparr>"
  have ad: "exec H (RR ADD a b) d = Inr (1, e)" using run_add(1) [OF d, of a b H] r by (simp add: e_def l_def l'_def)
  have e: "regs_ok e" "reg e (a + 1) = h" "reg e (b + 1) = h'" "sr_C (status e) = c"
    using d r by (simp_all add: e_def h_def h'_def add_spec_def c_def Let_def)
  have ac: "exec H (RR ADC (a + 1) (b + 1)) e = Inr (1, t)"
    using run_add(2) [OF e(1), of "a + 1" "b + 1" H] r unfolding e(2-4) by (simp add: t_def)
  have u: "uint x = uint h * 256 + uint l" "uint y = uint h' * 256 + uint l'"
    and si: "sint x = sint h * 256 + uint l" "sint y = sint h' * 256 + uint l'"
    by (simp_all add: x_def y_def uint_pair sint_pair l_def l'_def h_def h'_def)
  have "pair t a = x + y"
  proof (rule pair_eqI [OF refl refl])
    have "uint (reg t a) = (uint l + uint l') mod 256" "uint (reg t (a + 1)) = (uint h + uint h' + of_bool c) mod 256"
      using uint_byte_add [of l l' False] uint_byte_add [of h h' c] by (simp_all add: t_def e_def)
    then show "uint (x + y) = uint (reg t (a + 1)) * 256 + uint (reg t a)"
      unfolding uint_word_ariths(1) u c_def using add16(1) [of h h' l l'] by simp
  qed
  moreover have "\<forall>i. i \<noteq> a \<and> i \<noteq> a + 1 \<longrightarrow> reg t i = reg d i" by (simp add: t_def e_def)
  moreover have "sr_C (status t) = (65536 \<le> uint x + uint y)"
    unfolding u add16(2) [symmetric] by (simp add: t_def add_spec_def c_def Let_def)
  moreover have "sr_S (status t) = (sint x + sint y < 0)"
    unfolding si signed16(1) [symmetric] by (simp add: t_def add_spec_def c_def Let_def)
  moreover have "sr_V (status t) = (\<not> (- 32768 \<le> sint x + sint y \<and> sint x + sint y < 32768))"
    unfolding si signed16(2,3) [symmetric] by (simp add: t_def add_spec_def c_def Let_def)
  ultimately show ?thesis using ad ac by simp
qed

text \<open>Subtraction and comparison share their flags.\<close>

lemma diff16:
  fixes h l h' l' :: byte
  defines "c \<equiv> uint l < uint l'"
  assumes x: "uint x = uint h * 256 + uint l" "sint x = sint h * 256 + uint l"
    and y: "uint y = uint h' * 256 + uint l'" "sint y = sint h' * 256 + uint l'"
    and s: "s = sub_spec (h - h' - of_bool c = 0 \<and> l = l') h h' c s0"
  shows "sr_C s = (uint x < uint y)" "sr_Z s = (x = (y :: word16))" "sr_S s = (sint x < sint y)"
    "sr_V s = (\<not> (- 32768 \<le> sint x - sint y \<and> sint x - sint y < 32768))"
proof -
  show "sr_C s = (uint x < uint y)" unfolding x y sub16(2) [symmetric] by (simp add: s sub_spec_def c_def Let_def)
  have "sr_S s = (sint x - sint y < 0)" unfolding x y signed16(4) [symmetric] by (simp add: s sub_spec_def c_def Let_def)
  then show "sr_S s = (sint x < sint y)" by simp
  show "sr_V s = (\<not> (- 32768 \<le> sint x - sint y \<and> sint x - sint y < 32768))"
    unfolding x y signed16(5,6) [symmetric] by (simp add: s sub_spec_def c_def Let_def)
  have "x = y \<longleftrightarrow> h = h' \<and> l = l'"
  proof
    assume "x = y"
    then have "uint h * 256 + uint l = uint h' * 256 + uint l'" using x(1) y(1) by simp
    moreover from this have "uint h = uint h'"
      using uint_byte_bounds [of l] uint_byte_bounds [of l'] by linarith
    ultimately have "uint h = uint h'" "uint l = uint l'" by linarith+
    then show "h = h' \<and> l = l'" using word_uint_eqI by blast
  qed (use x(1) y(1) word_uint_eqI [of x y] in auto)
  moreover have "sr_Z s = (h = h' \<and> l = l')"
    unfolding s sub_spec_def c_def by (auto simp: Let_def)
  ultimately show "sr_Z s = (x = y)" by simp
qed

lemma SUB_SBC:
  assumes d: "regs_ok d" and r: "a < 31" "b < 31" "b \<noteq> a + 1" "a \<noteq> b + 1"
  defines "x \<equiv> pair d a" and "y \<equiv> pair d b"
  shows "\<exists>t. sq (exec H (RR SUB a b)) (exec H (RR SBC (a + 1) (b + 1))) d = Inr (1, t) \<and>
      pair t a = x - y \<and> (\<forall>i. i \<noteq> a \<and> i \<noteq> a + 1 \<longrightarrow> reg t i = reg d i) \<and>
      sr_C (status t) = (uint x < uint y) \<and> sr_Z (status t) = (x = y) \<and>
      sr_S (status t) = (sint x < sint y) \<and>
      sr_V (status t) = (\<not> (- 32768 \<le> sint x - sint y \<and> sint x - sint y < 32768))"
proof -
  define l l' h h' where "l = reg d a" and "l' = reg d b" and "h = reg d (a + 1)" and "h' = reg d (b + 1)"
  define c where "c = (uint l < uint l')"
  define e where "e = (set_reg a (l - l') d)\<lparr>status := sub_spec (l = l') l l' False (status d)\<rparr>"
  define t where "t = (set_reg (a + 1) (h - h' - of_bool c) e)
    \<lparr>status := sub_spec (h - h' - of_bool c = 0 \<and> l = l') h h' c (status e)\<rparr>"
  have ad: "exec H (RR SUB a b) d = Inr (1, e)" using run_sub(1) [OF d, of a b H] r by (simp add: e_def l_def l'_def)
  have e: "regs_ok e" "reg e (a + 1) = h" "reg e (b + 1) = h'" "sr_C (status e) = c" "sr_Z (status e) = (l = l')"
    using d r by (simp_all add: e_def h_def h'_def sub_spec_def c_def Let_def)
  have ac: "exec H (RR SBC (a + 1) (b + 1)) e = Inr (1, t)"
    using run_sub(2) [OF e(1), of "a + 1" "b + 1" H] r unfolding e(2-5) by (simp add: t_def)
  have u: "uint x = uint h * 256 + uint l" "uint y = uint h' * 256 + uint l'"
    and si: "sint x = sint h * 256 + uint l" "sint y = sint h' * 256 + uint l'"
    by (simp_all add: x_def y_def uint_pair sint_pair l_def l'_def h_def h'_def)
  have "pair t a = x - y"
  proof (rule pair_eqI [OF refl refl])
    have "uint (reg t a) = (uint l - uint l') mod 256" "uint (reg t (a + 1)) = (uint h - uint h' - of_bool c) mod 256"
      using uint_byte_sub [of l l' False] uint_byte_sub [of h h' c] by (simp_all add: t_def e_def)
    then show "uint (x - y) = uint (reg t (a + 1)) * 256 + uint (reg t a)"
      unfolding uint_word_ariths(2) u c_def using sub16(1) [of h h' l l'] by simp
  qed
  moreover have "\<forall>i. i \<noteq> a \<and> i \<noteq> a + 1 \<longrightarrow> reg t i = reg d i" by (simp add: t_def e_def)
  moreover have "status t = sub_spec (h - h' - of_bool c = 0 \<and> l = l') h h' c (status e)" by (simp add: t_def)
  note diff16 [OF u(1) si(1) u(2) si(2), OF this [unfolded c_def]]
  ultimately show ?thesis using ad ac by simp
qed

text \<open>
  C10. ADD on the low registers of two pairs followed by ADC on the high registers, and SUB
  followed by SBC, are 16 bit addition and subtraction of the pairs: the pair holds the result
  modulo 65536, C is the 16 bit carry (borrow), V is signed 16 bit overflow, S the sign of the
  exact signed result, and SUB, SBC leave Z set just if the 16 bit difference is zero. All other
  registers keep their values.
\<close>

theorem add_sub_16bit:
  assumes "regs_ok d" "a < 31" "b < 31" "b \<noteq> a + 1" "a \<noteq> b + 1"
  defines "x \<equiv> pair d a" and "y \<equiv> pair d b"
  shows "(\<exists>t. sq (exec H (RR ADD a b)) (exec H (RR ADC (a + 1) (b + 1))) d = Inr (1, t) \<and>
      pair t a = x + y \<and> (\<forall>i. i \<noteq> a \<and> i \<noteq> a + 1 \<longrightarrow> reg t i = reg d i) \<and>
      sr_C (status t) = (65536 \<le> uint x + uint y) \<and>
      sr_S (status t) = (sint x + sint y < 0) \<and>
      sr_V (status t) = (\<not> (- 32768 \<le> sint x + sint y \<and> sint x + sint y < 32768))) \<and>
    (\<exists>t. sq (exec H (RR SUB a b)) (exec H (RR SBC (a + 1) (b + 1))) d = Inr (1, t) \<and>
      pair t a = x - y \<and> (\<forall>i. i \<noteq> a \<and> i \<noteq> a + 1 \<longrightarrow> reg t i = reg d i) \<and>
      sr_C (status t) = (uint x < uint y) \<and> sr_Z (status t) = (x = y) \<and>
      sr_S (status t) = (sint x < sint y) \<and>
      sr_V (status t) = (\<not> (- 32768 \<le> sint x - sint y \<and> sint x - sint y < 32768)))"
  unfolding x_def y_def using ADD_ADC [OF assms(1-5)] SUB_SBC [OF assms(1-5)] by (rule conjI)

lemma nat_2_1: "(2 :: nat) + 1 = 3" and nat_4_1: "(4 :: nat) + 1 = 5"
  by simp_all

theorem add_sub_16bit_witness:
  "\<forall>H. \<exists>t. sq (exec H (RR ADD 2 4)) (exec H (RR ADC 3 5)) (set_reg 3 0x7f stack_device) = Inr (1, t) \<and>
     pair t 2 = pair (set_reg 3 0x7f stack_device) 2 + pair (set_reg 3 0x7f stack_device) 4"
proof
  fix H :: "unit hardware"
  have "regs_ok (set_reg 3 0x7f stack_device)" "(2 :: nat) < 31" "(4 :: nat) < 31" "(4 :: nat) \<noteq> 2 + 1" "(2 :: nat) \<noteq> 4 + 1"
    by simp_all
  from add_sub_16bit [OF this, of H] show "\<exists>t. sq (exec H (RR ADD 2 4)) (exec H (RR ADC 3 5)) (set_reg 3 0x7f stack_device)
      = Inr (1, t) \<and> pair t 2 = pair (set_reg 3 0x7f stack_device) 2 + pair (set_reg 3 0x7f stack_device) 4"
    unfolding nat_2_1 nat_4_1 by blast
qed

text \<open>
  C11. CP on the low registers followed by CPC on the high registers compares the pairs as 16 bit
  numbers: C means unsigned less, S means signed less, Z means equal, so that the branches on
  these flags (BRLO, BRLT, BREQ) decide the 16 bit comparison; no register changes.
\<close>

theorem compare_16bit:
  assumes d: "regs_ok d" and r: "a < 31" "b < 31"
  defines "x \<equiv> pair d a" and "y \<equiv> pair d b"
  shows "\<exists>s. sq (exec H (RR CP a b)) (exec H (RR CPC (a + 1) (b + 1))) d = Inr (1, d\<lparr>status := s\<rparr>) \<and>
    sr_C s = (uint x < uint y) \<and> sr_S s = (sint x < sint y) \<and> sr_Z s = (x = y)"
proof -
  define l l' h h' where "l = reg d a" and "l' = reg d b" and "h = reg d (a + 1)" and "h' = reg d (b + 1)"
  define c where "c = (uint l < uint l')"
  define e where "e = d\<lparr>status := sub_spec (l = l') l l' False (status d)\<rparr>"
  define s where "s = sub_spec (h - h' - of_bool c = 0 \<and> l = l') h h' c (status e)"
  have ad: "exec H (RR CP a b) d = Inr (1, e)" using run_sub(3) [OF d, of a b H] r by (simp add: e_def l_def l'_def)
  have e: "regs_ok e" "reg e (a + 1) = h" "reg e (b + 1) = h'" "sr_C (status e) = c" "sr_Z (status e) = (l = l')"
    using d r by (simp_all add: e_def h_def h'_def sub_spec_def c_def Let_def)
  have "exec H (RR CPC (a + 1) (b + 1)) e = Inr (1, e\<lparr>status := s\<rparr>)"
    using run_sub(4) [OF e(1), of "a + 1" "b + 1" H] r unfolding e(2-5) by (simp add: s_def)
  then have ac: "exec H (RR CPC (a + 1) (b + 1)) e = Inr (1, d\<lparr>status := s\<rparr>)" by (simp add: e_def)
  have u: "uint x = uint h * 256 + uint l" "uint y = uint h' * 256 + uint l'"
    and si: "sint x = sint h * 256 + uint l" "sint y = sint h' * 256 + uint l'"
    by (simp_all add: x_def y_def uint_pair sint_pair l_def l'_def h_def h'_def)
  from diff16 [OF u(1) si(1) u(2) si(2), OF s_def [unfolded c_def]] ad ac show ?thesis by auto
qed

theorem compare_16bit_witness:
  "\<forall>H. \<exists>s. sq (exec H (RR CP 2 4)) (exec H (RR CPC 3 5)) (set_reg 3 0x7f stack_device) =
       Inr (1, (set_reg 3 0x7f stack_device)\<lparr>status := s\<rparr>) \<and>
     sr_Z s = (pair (set_reg 3 0x7f stack_device) 2 = pair (set_reg 3 0x7f stack_device) 4)"
proof
  fix H :: "unit hardware"
  have "regs_ok (set_reg 3 0x7f stack_device)" "(2 :: nat) < 31" "(4 :: nat) < 31" by simp_all
  from compare_16bit [OF this, of H] show "\<exists>s. sq (exec H (RR CP 2 4)) (exec H (RR CPC 3 5)) (set_reg 3 0x7f stack_device)
      = Inr (1, (set_reg 3 0x7f stack_device)\<lparr>status := s\<rparr>) \<and>
      sr_Z s = (pair (set_reg 3 0x7f stack_device) 2 = pair (set_reg 3 0x7f stack_device) 4)"
    unfolding nat_2_1 nat_4_1 by blast
qed

section \<open>Immediate word operations and products\<close>

text \<open>\<open>set_pair\<close> stores a 16 bit number.\<close>

definition set_pair_regs :: "nat \<Rightarrow> word16 \<Rightarrow> 'h avr_device \<Rightarrow> 'h avr_device" where
  "set_pair_regs lo w d = set_reg (lo + 1) (ucast (drop_bit 8 w)) (set_reg lo (ucast w) d)"

lemma ucast_and_ff [simp]: "ucast ((w :: word16) AND 0xff) = (ucast w :: byte)"
  by (rule bit_word_eqI) (auto simp: bit_simps elim!: less_8_cases)

lemma ucast_hi_and_ff [simp]: "ucast (drop_bit 8 (w :: word16) AND 0xff) = (ucast (drop_bit 8 w) :: byte)"
  by (rule bit_word_eqI) (auto simp: bit_simps elim!: less_8_cases)

lemma set_pair_run [simp]:
  "regs_ok d \<Longrightarrow> lo < 31 \<Longrightarrow> set_pair H lo w d = Inr ((), set_pair_regs lo w d)"
  by (simp add: set_pair_def set_pair_regs_def)

lemma pair_set_pair_regs [simp]: "pair (set_pair_regs lo w d) lo = w"
proof (rule pair_eqI [OF refl refl])
  have "uint w div 256 < 256" using uint_word16_bounds [of w] by linarith
  moreover have "0 \<le> uint w div 256" using uint_word16_bounds [of w] by linarith
  ultimately have "uint (ucast (drop_bit 8 w) :: byte) = uint w div 256"
    by (simp add: unsigned_ucast_eq take_bit_eq_mod drop_bit_eq_div uint_div)
  moreover have "uint (ucast w :: byte) = uint w mod 256"
    by (simp add: unsigned_ucast_eq take_bit_eq_mod)
  ultimately show "uint w = uint (reg (set_pair_regs lo w d) (lo + 1)) * 256 + uint (reg (set_pair_regs lo w d) lo)"
    by (simp add: set_pair_regs_def)
qed

lemma regs_ok_set_pair_regs [simp]: "regs_ok d \<Longrightarrow> regs_ok (set_pair_regs lo w d)"
  by (simp add: set_pair_regs_def)

lemma reg_set_pair_regs: "i \<noteq> lo \<Longrightarrow> i \<noteq> lo + 1 \<Longrightarrow> reg (set_pair_regs lo w d) i = reg d i"
  by (simp add: set_pair_regs_def)

lemma status_set_pair_regs [simp]: "status (set_pair_regs lo w d) = status d"
  by (simp add: set_pair_regs_def)

lemma set_pair_regs_status [simp]:
  "set_pair_regs lo w (d\<lparr>status := s\<rparr>) = (set_pair_regs lo w d)\<lparr>status := s\<rparr>"
  by (simp add: set_pair_regs_def)

text \<open>The sign bits in the flags of ADIW and SBIW.\<close>

lemma bit15_int: "drop_bit 15 (uint w) AND 1 = of_bool (bit (w :: word16) 15)"
proof -
  have "odd (uint w div 2 ^ 15) = bit w 15" by (simp only: bit_iff_odd [symmetric] bit_unsigned_iff) simp
  then show ?thesis by (simp add: drop_bit_eq_div and_one_eq mod_2_eq_odd)
qed

lemma bit15_uint: "bit (w :: word16) 15 \<longleftrightarrow> 32768 \<le> uint w"
  using bit_top_iff_uint [of 16 w] uint_word16_bounds [of w] by simp

lemma pair_bit15: "bit (pair d lo) 15 \<longleftrightarrow> bit (reg d (lo + 1)) 7"
proof -
  have "32768 \<le> h * 256 + l \<longleftrightarrow> 128 \<le> h" if "0 \<le> l" "l < 256" for h l :: int using that by auto
  from this [OF uint_byte_bounds] show ?thesis unfolding bit15_uint bit7_uint uint_pair .
qed

text \<open>The flags of adding to and subtracting from a pair.\<close>

definition word_spec :: "int \<Rightarrow> bool \<Rightarrow> word16 \<Rightarrow> hwsreg \<Rightarrow> hwsreg" where
  "word_spec exact c res s =
     s\<lparr>sr_V := \<not> (- 32768 \<le> exact \<and> exact < 32768), sr_N := sint res < 0, sr_S := exact < 0,
       sr_Z := (res = 0), sr_C := c\<rparr>"

lemma adiw_int:
  fixes x k :: int
  assumes "0 \<le> x" "x < 65536" "0 \<le> k" "k < 256"
  defines "r \<equiv> (x + k) mod 65536" and "sx \<equiv> (if 32768 \<le> x then x - 65536 else x)"
  shows "(\<not> 32768 \<le> x \<and> 32768 \<le> r) = (\<not> (- 32768 \<le> sx + k \<and> sx + k < 32768))"
    and "(\<not> 32768 \<le> r \<and> 32768 \<le> x) = (65536 \<le> x + k)"
    and "((32768 \<le> r) \<noteq> (\<not> 32768 \<le> x \<and> 32768 \<le> r)) = (sx + k < 0)"
proof -
  have r: "r = (if x + k < 65536 then x + k else x + k - 65536)" using assms by (simp add: r_def mod_65536_wrap)
  show "(\<not> 32768 \<le> x \<and> 32768 \<le> r) = (\<not> (- 32768 \<le> sx + k \<and> sx + k < 32768))"
    "(\<not> 32768 \<le> r \<and> 32768 \<le> x) = (65536 \<le> x + k)"
    "((32768 \<le> r) \<noteq> (\<not> 32768 \<le> x \<and> 32768 \<le> r)) = (sx + k < 0)"
    unfolding r sx_def using assms(1-4) by auto
qed

lemma sbiw_int:
  fixes x k :: int
  assumes "0 \<le> x" "x < 65536" "0 \<le> k" "k < 256"
  defines "r \<equiv> (x - k) mod 65536" and "sx \<equiv> (if 32768 \<le> x then x - 65536 else x)"
  shows "(32768 \<le> x \<and> \<not> 32768 \<le> r) = (\<not> (- 32768 \<le> sx - k \<and> sx - k < 32768))"
    and "(32768 \<le> r \<and> \<not> 32768 \<le> x) = (x < k)"
    and "((32768 \<le> r) \<noteq> (32768 \<le> x \<and> \<not> 32768 \<le> r)) = (sx - k < 0)"
proof -
  have r: "r = (if x < k then x - k + 65536 else x - k)" using assms by (simp add: r_def mod_65536_wrap)
  show "(32768 \<le> x \<and> \<not> 32768 \<le> r) = (\<not> (- 32768 \<le> sx - k \<and> sx - k < 32768))"
    "(32768 \<le> r \<and> \<not> 32768 \<le> x) = (x < k)"
    "((32768 \<le> r) \<noteq> (32768 \<le> x \<and> \<not> 32768 \<le> r)) = (sx - k < 0)"
    unfolding r sx_def using assms(1-4) by auto
qed

lemma sint16_neg: "sint (w :: word16) < 0 \<longleftrightarrow> bit w 15"
  using uint_word16_bounds [of w] by (auto simp: sint_word16 bit15_uint)

lemma and_ffff [simp]: "(w :: word16) AND 0xffff = w"
proof -
  have "(0xffff :: word16) = - 1" by simp
  then show ?thesis by (metis and.right_neutral)
qed

lemma of_bool_and_not: "(of_bool p AND NOT (of_bool q) :: int) = of_bool (p \<and> \<not> q)"
  by (cases p; cases q; simp)

lemma word_flags_alt:
  "adiw_flags res rdh s = s\<lparr>sr_V := (\<not> bit rdh 7 \<and> bit res 15), sr_N := bit res 15,
     sr_S := (bit res 15 \<noteq> (\<not> bit rdh 7 \<and> bit res 15)), sr_Z := (res = 0), sr_C := (\<not> bit res 15 \<and> bit rdh 7)\<rparr>"
  "sbiw_flags res rdh s = s\<lparr>sr_V := (bit rdh 7 \<and> \<not> bit res 15), sr_N := bit res 15,
     sr_S := (bit res 15 \<noteq> (bit rdh 7 \<and> \<not> bit res 15)), sr_Z := (res = 0), sr_C := (bit res 15 \<and> \<not> bit rdh 7)\<rparr>"
  unfolding adiw_flags_def sbiw_flags_def bit15_int bitb_eq and.commute [of "NOT _"] of_bool_and_not
  by (simp_all add: Let_def conj_commute)

lemma uint_ucast16 [simp]: "uint (ucast (k :: byte) :: word16) = uint k"
  using uint_byte_bounds [of k] by (simp add: unsigned_ucast_eq take_bit_eq_mod)

lemma adiw_flags_eq:
  assumes "bit rdh 7 = bit x 15"
  shows "adiw_flags (x + ucast (k :: byte)) rdh s =
    word_spec (sint x + uint k) (65536 \<le> uint x + uint k) (x + ucast k) s"
proof -
  have u: "uint (x + ucast k) = (uint x + uint k) mod 65536" by (simp add: uint_word_ariths)
  note i = adiw_int [OF uint_word16_bounds [of x] uint_byte_bounds [of k], folded u, folded sint_word16, folded bit15_uint]
  show ?thesis unfolding word_flags_alt word_spec_def sint16_neg assms i(3) unfolding i(1,2) ..
qed

lemma sbiw_flags_eq:
  assumes "bit rdh 7 = bit x 15"
  shows "sbiw_flags (x - ucast (k :: byte)) rdh s =
    word_spec (sint x - uint k) (uint x < uint k) (x - ucast k) s"
proof -
  have u: "uint (x - ucast k) = (uint x - uint k) mod 65536" by (simp add: uint_word_ariths)
  note i = sbiw_int [OF uint_word16_bounds [of x] uint_byte_bounds [of k], folded u, folded sint_word16, folded bit15_uint]
  show ?thesis unfolding word_flags_alt word_spec_def sint16_neg assms i(3) unfolding i(1,2) ..
qed

text \<open>
  ADIW and SBIW add an immediate to and subtract it from a register pair modulo 65536; V, S
  and C are signed overflow, sign of the exact signed result and carry (borrow) of the 16 bit
  operation, N and Z belong to the result; each takes two cycles.
\<close>

theorem exec_adiw_sbiw:
  assumes "regs_ok d" "lo < 31"
  defines "x \<equiv> pair d lo"
  shows "exec H (ADIW lo (lo + 1) K) d = Inr (2, (set_pair_regs lo (x + ucast K) d)
      \<lparr>status := word_spec (sint x + uint K) (65536 \<le> uint x + uint K) (x + ucast K) (status d)\<rparr>) \<and>
    exec H (RK SBIW lo K) d = Inr (2, (set_pair_regs lo (x - ucast K) d)
      \<lparr>status := word_spec (sint x - uint K) (uint x < uint K) (x - ucast K) (status d)\<rparr>)"
proof -
  have x: "push_bit 8 (ucast (reg d (Suc lo))) + ucast (reg d lo) = x" "bit (reg d (Suc lo)) 7 = bit x 15"
    by (simp_all add: x_def pair_def [symmetric] pair_bit15 flip: Suc_eq_plus1) (simp add: pair_def)
  show ?thesis using assms(1,2) x(1) adiw_flags_eq [OF x(2), of K] sbiw_flags_eq [OF x(2), of K]
    by (simp add: exec_def exec_rk_def avr_op_ADIW_def avr_op_SBIW_def set_pair_regs_def Let_def)
qed

theorem exec_adiw_sbiw_witness:
  "\<forall>H. exec H (RK SBIW 24 63) stack_device = Inr (2, (set_pair_regs 24 (0xaaaa - 63) stack_device)
     \<lparr>status := word_spec (- 21909) False (0xaaaa - 63) (sreg_of_int 0)\<rparr>)"
proof
  fix H :: "unit hardware"
  have p: "pair stack_device 24 = 0xaaaa" by (rule pair_eqI [OF refl refl]) simp
  have "sint (0xaaaa :: word16) = - 21846" by (simp add: sint_word16)
  with exec_adiw_sbiw [of stack_device 24 H 63] show "exec H (RK SBIW 24 63) stack_device =
      Inr (2, (set_pair_regs 24 (0xaaaa - 63) stack_device)
        \<lparr>status := word_spec (- 21909) False (0xaaaa - 63) (sreg_of_int 0)\<rparr>)"
    unfolding p by simp
qed

lemma drop_bit15 [simp]: "drop_bit 15 (w :: word16) AND 1 \<noteq> 0 \<longleftrightarrow> bit w 15"
  by (simp add: and_one_eq bit_iff_odd_drop_bit odd_iff_mod_2_eq_one)

lemma uint_word16_of_int: "0 \<le> n \<Longrightarrow> n < 65536 \<Longrightarrow> uint (word_of_int n :: word16) = n"
  by (simp add: unsigned_of_int take_bit_eq_mod)

lemma sint_word16_of_int: "- 32768 \<le> n \<Longrightarrow> n < 32768 \<Longrightarrow> sint (word_of_int n :: word16) = n"
  by (simp add: sint_word16 unsigned_of_int take_bit_eq_mod mod_65536_wrap)

lemma sint_byte_bounds: "- 128 \<le> sint (x :: byte)" "sint (x :: byte) < 128"
  using uint_byte_bounds [of x] by (simp_all only: sint_byte split: if_split) linarith+

text \<open>The exact products fit into 16 bits.\<close>

lemma abs_mult_bound: "\<bar>x\<bar> \<le> b \<Longrightarrow> \<bar>y\<bar> \<le> c \<Longrightarrow> \<bar>x * y\<bar> \<le> b * c" for x y b c :: int
  unfolding abs_mult by (intro mult_mono) auto

lemma product_bounds:
  fixes x y :: byte
  shows "0 \<le> uint x * uint y" "uint x * uint y < 65536"
    "- 32768 \<le> sint x * sint y" "sint x * sint y < 32768"
    "- 32768 \<le> sint x * uint y" "sint x * uint y < 32768"
proof -
  have u: "\<bar>uint x\<bar> \<le> 255" "\<bar>uint y\<bar> \<le> 255" using uint_byte_bounds [of x] uint_byte_bounds [of y] by auto
  have si: "\<bar>sint x\<bar> \<le> 128" "\<bar>sint y\<bar> \<le> 128" using sint_byte_bounds [of x] sint_byte_bounds [of y] by auto
  show "0 \<le> uint x * uint y" by simp
  show "uint x * uint y < 65536" using abs_mult_bound [OF u] by simp
  show "- 32768 \<le> sint x * sint y" "sint x * sint y < 32768" using abs_mult_bound [OF si] by linarith+
  show "- 32768 \<le> sint x * uint y" "sint x * uint y < 32768" using abs_mult_bound [OF si(1) u(2)] by linarith+
qed

definition product_flags :: "bool \<Rightarrow> word16 \<Rightarrow> hwsreg \<Rightarrow> hwsreg" where
  "product_flags c w s = s\<lparr>sr_Z := (w = 0), sr_C := c\<rparr>"

lemma mul_result_run:
  "regs_ok d \<Longrightarrow> mul_result H c w d = Inr (2, (set_pair_regs 0 w d)\<lparr>status := product_flags c w (status d)\<rparr>)"
  by (simp add: mul_result_def product_flags_def)

text \<open>
  MUL, MULS and MULSU leave the exact product of their operands, read as unsigned, signed and
  signed times unsigned numbers, in R1:R0: it always fits. FMUL, FMULS and FMULSU leave twice the
  product modulo 65536. C is bit 15 of the product before doubling, Z tells whether the stored
  word is zero; each takes two cycles and touches nothing else.
\<close>

theorem exec_mul:
  assumes "regs_ok d" "r1 < 32" "r2 < 32"
  defines "x \<equiv> reg d r1" and "y \<equiv> reg d r2"
    and "done \<equiv> \<lambda>c w. Inr (2 :: int, (set_pair_regs 0 w d)\<lparr>status := product_flags c w (status d)\<rparr>)"
  shows "(\<exists>w. uint w = uint x * uint y \<and> exec H (RR MUL r1 r2) d = done (32768 \<le> uint x * uint y) w \<and>
        exec H (RR FMUL r1 r2) d = done (32768 \<le> uint x * uint y) (2 * w)) \<and>
    (\<exists>w. sint w = sint x * sint y \<and> exec H (RR MULS r1 r2) d = done (sint x * sint y < 0) w \<and>
        exec H (RR FMULS r1 r2) d = done (sint x * sint y < 0) (2 * w)) \<and>
    (\<exists>w. sint w = sint x * uint y \<and> exec H (RR MULSU r1 r2) d = done (sint x * uint y < 0) w \<and>
        exec H (RR FMULSU r1 r2) d = done (sint x * uint y < 0) (2 * w))"
proof -
  note p = product_bounds [of x y]
  define u s m where "u = (word_of_int (uint x * uint y) :: word16)"
    and "s = (word_of_int (sint x * sint y) :: word16)" and "m = (word_of_int (sint x * uint y) :: word16)"
  have v: "uint u = uint x * uint y" "sint s = sint x * sint y" "sint m = sint x * uint y"
    unfolding u_def s_def m_def by (intro uint_word16_of_int sint_word16_of_int p)+
  have op: "avr_op_MUL H r1 r2 d = done (bit u 15) u" "avr_op_FMUL H r1 r2 d = done (bit u 15) (2 * u)"
    "avr_op_MULS H r1 r2 d = done (bit s 15) s" "avr_op_FMULS H r1 r2 d = done (bit s 15) (2 * s)"
    "avr_op_MULSU H r1 r2 d = done (bit m 15) m" "avr_op_FMULSU H r1 r2 d = done (bit m 15) (2 * m)"
    using assms(1-3)
    by (simp_all add: avr_op_MUL_def avr_op_FMUL_def avr_op_MULS_def avr_op_FMULS_def avr_op_MULSU_def
        avr_op_FMULSU_def mul_result_run Let_def done_def u_def s_def m_def x_def y_def mult.commute)
  show ?thesis unfolding exec_def exec_rr_def instr.case op_rr.case op
    using v bit15_uint [of u] sint16_neg [of s] sint16_neg [of m] by auto
qed

theorem exec_mul_witness:
  "\<forall>H. \<exists>w. uint w = 28900 \<and> exec H (RR MUL 3 4) stack_device =
     Inr (2, (set_pair_regs 0 w stack_device)\<lparr>status := product_flags False w (sreg_of_int 0)\<rparr>)"
proof
  fix H :: "unit hardware"
  have "regs_ok stack_device" "(3 :: nat) < 32" "(4 :: nat) < 32" by simp_all
  from conjunct1 [OF exec_mul [OF this, of H]] show "\<exists>w. uint w = 28900 \<and> exec H (RR MUL 3 4) stack_device =
      Inr (2, (set_pair_regs 0 w stack_device)\<lparr>status := product_flags False w (sreg_of_int 0)\<rparr>)" by auto
qed

section \<open>Operations on one register\<close>

lemma neg_int:
  fixes u r :: int
  assumes "0 \<le> u" "u < 256" "r = (- u) mod 256"
  shows "(128 \<le> u \<and> 128 \<le> r) = (r = 128)" "(128 \<le> u \<or> 128 \<le> r) = (r \<noteq> 0)"
proof -
  have r: "r = (if 0 < u then 256 - u else 0)" using assms mod_256_wrap [of "- u"] by auto
  show "(128 \<le> u \<and> 128 \<le> r) = (r = 128)" "(128 \<le> u \<or> 128 \<le> r) = (r \<noteq> 0)" unfolding r using assms(1,2) by auto
qed

text \<open>NEG has the flags of the subtraction from zero.\<close>

lemma uint_byte_eq: "x = y \<longleftrightarrow> uint x = uint (y :: byte)"
  using word_uint_eqI by auto

lemma neg_flags:
  "(set_NS (- rd) (s\<lparr>sr_H := ((drop_bit 3 (- rd) OR drop_bit 3 rd) AND 1 \<noteq> 0), sr_V := (- rd = (0x80 :: byte))\<rparr>))
     \<lparr>sr_Z := (rd = 0), sr_C := (rd \<noteq> 0)\<rparr> = sub_spec (rd = 0) 0 rd False s"
proof -
  have u: "uint (- rd) = (- uint rd) mod 256" by (simp add: uint_word_ariths)
  note i = neg_int [OF uint_byte_bounds [of rd] u]
  have 1: "(drop_bit 3 (- rd) OR drop_bit 3 rd) AND 1 \<noteq> 0 \<longleftrightarrow> bit (- rd) 3 \<or> bit rd 3"
    by (simp add: and_one_eq odd_iff_mod_2_eq_one [symmetric] even_or_iff bit_iff_odd_drop_bit)
  have 2: "- rd = 0x80 \<longleftrightarrow> bit rd 7 \<and> bit (- rd) 7" unfolding bit7_uint i(1) uint_byte_eq by simp
  have 3: "rd \<noteq> 0 \<longleftrightarrow> bit rd 7 \<or> bit (- rd) 7"
  proof -
    have "rd \<noteq> 0 \<longleftrightarrow> - rd \<noteq> 0" by simp
    then show ?thesis unfolding bit7_uint i(2) uint_byte_eq [of "- rd"] by simp
  qed
  have 4: "get_sub_carry (- rd) 0 rd 3 \<noteq> 0 \<longleftrightarrow> bit (- rd) 3 \<or> bit rd 3"
    "get_sub_overflow (- rd) 0 rd \<noteq> 0 \<longleftrightarrow> bit rd 7 \<and> bit (- rd) 7"
    "get_sub_carry (- rd) 0 rd 7 \<noteq> 0 \<longleftrightarrow> bit rd 7 \<or> bit (- rd) 7"
    by (auto simp: get_carry_iff get_overflow_iff)
  have "sub_spec (rd = 0) 0 rd False s = sub_flags (- rd) 0 rd s" using sub_flags_eq [of 0 rd False s] by simp
  then show ?thesis unfolding sub_flags_def 4 1 [symmetric] 2 [symmetric] 3 [symmetric] by simp
qed

text \<open>The right shifts and SWAP as numbers.\<close>

lemma drop_bit_masks:
  "drop_bit 1 (x :: byte) AND 0x7f = drop_bit 1 x" "push_bit 4 (x :: byte) AND 0xf0 = push_bit 4 x"
  "drop_bit 4 (x :: byte) AND 0x0f = drop_bit 4 x"
  by (rule bit_word_eqI; auto simp: bit_simps elim!: less_8_cases dest: bit_imp_le_length)+

lemma disjoint_or: "a AND b = 0 \<Longrightarrow> a OR b = a + (b :: byte)"
  by (metis disjunctive_add bit_and_iff bit_0_eq bot_apply bot_bool_def)

lemma uint_drop_bit: "uint (drop_bit n (x :: byte)) = uint x div 2 ^ n"
  using uint_byte_bounds [of x] by (subst unsigned_drop_bit_eq) (simp add: drop_bit_eq_div take_bit_eq_mod)

lemma and_80: "x AND 0x80 = (if bit (x :: byte) 7 then 0x80 else 0)"
  by (rule bit_word_eqI) (auto simp: bit_simps elim!: less_8_cases)

lemma half_byte: "uint (x :: byte) div 2 < 128"
  using uint_byte_bounds [of x] by linarith

lemma ROR_res: "uint (drop_bit 1 x OR (push_bit 7 (of_bool c) AND 0x80) :: byte) = uint x div 2 + 128 * of_bool c"
proof (cases c)
  case True
  have "drop_bit 1 x AND 0x80 = 0" by (rule bit_word_eqI) (auto simp: bit_simps elim!: less_8_cases dest: bit_imp_le_length)
  from disjoint_or [OF this] True half_byte [of x] uint_drop_bit [of 1 x] uint_byte_bounds [of x]
  show ?thesis by (simp add: uint_word_ariths)
qed (use uint_drop_bit [of 1 x] in simp)

lemma ASR_res: "sint (drop_bit 1 x + (x AND 0x80) :: byte) = sint x div 2"
proof (cases "bit x 7")
  case True
  have "uint (drop_bit 1 x + (x AND 0x80)) = uint x div 2 + 128"
    using True half_byte [of x] uint_byte_bounds [of x] uint_drop_bit [of 1 x] by (simp add: and_80 uint_word_ariths)
  then show ?thesis using True by (simp add: sint_byte bit7_uint)
next
  case False
  have "uint (drop_bit 1 x + (x AND 0x80)) = uint x div 2" using False uint_drop_bit [of 1 x] by (simp add: and_80)
  then show ?thesis using False half_byte [of x] by (simp add: sint_byte bit7_uint)
qed

lemma SWAP_res:
  "uint ((push_bit 4 x AND 0xf0) OR (drop_bit 4 x AND 0x0f) :: byte) = uint x mod 16 * 16 + uint x div 16"
proof -
  have "push_bit 4 x AND drop_bit 4 x = 0"
    by (rule bit_word_eqI) (auto simp: bit_simps elim!: less_8_cases dest: bit_imp_le_length)
  moreover have "uint (push_bit 4 x) = uint x mod 16 * 16"
    by (simp add: push_bit_eq_mult uint_word_ariths mult_mod_left)
  moreover have "uint x mod 16 * 16 + uint x div 16 < 256" "0 \<le> uint x div 16" using uint_byte_bounds [of x] by linarith+
  ultimately show ?thesis unfolding drop_bit_masks using disjoint_or uint_drop_bit [of 4 x]
    by (simp add: uint_word_ariths)
qed

lemma incdec_int:
  fixes u :: int
  assumes "0 \<le> u" "u < 256"
  shows "((128 \<le> (u + 1) mod 256) \<noteq> (u = 127)) = (sg u + 1 < 0)"
    and "((128 \<le> (u - 1) mod 256) \<noteq> ((u - 1) mod 256 = 127)) = (sg u - 1 < 0)"
    and "(u = 127) = (\<not> (- 128 \<le> sg u + 1 \<and> sg u + 1 < 128))"
    and "((u - 1) mod 256 = 127) = (\<not> (- 128 \<le> sg u - 1 \<and> sg u - 1 < 128))"
  using assms by (auto simp: mod_256_wrap sg_def)

text \<open>The flags of INC and DEC: C and H keep their values.\<close>

definition step_spec :: "int \<Rightarrow> byte \<Rightarrow> hwsreg \<Rightarrow> hwsreg" where
  "step_spec exact res s =
     s\<lparr>sr_V := \<not> (- 128 \<le> exact \<and> exact < 128), sr_N := sint res < 0, sr_S := exact < 0, sr_Z := (res = 0)\<rparr>"

lemma step_flags:
  "(set_NS (x + 1) (s\<lparr>sr_V := (x = 0x7f)\<rparr>))\<lparr>sr_Z := (x + 1 AND 0xff = 0)\<rparr> = step_spec (sint x + 1) (x + 1) s"
  "(set_NS (x - 1) (s\<lparr>sr_V := (x - 1 = 0x7f)\<rparr>))\<lparr>sr_Z := (x - 1 AND 0xff = 0)\<rparr> = step_spec (sint x - 1) (x - 1) s"
proof -
  note i = incdec_int [OF uint_byte_bounds [of x]]
  have u: "uint (x + 1) = (uint x + 1) mod 256" "uint (x - 1) = (uint x - 1) mod 256" by (simp_all add: uint_word_ariths)
  have v: "x = 0x7f \<longleftrightarrow> uint x = 127" "x - 1 = 0x7f \<longleftrightarrow> (uint x - 1) mod 256 = 127"
    unfolding uint_byte_eq u by simp_all
  have "x = 0x7f \<longleftrightarrow> \<not> (- 128 \<le> sint x + 1 \<and> sint x + 1 < 128)"
    unfolding v sint_sg by (rule i)
  moreover have "x - 1 = 0x7f \<longleftrightarrow> \<not> (- 128 \<le> sint x - 1 \<and> sint x - 1 < 128)"
    unfolding v sint_sg by (rule i)
  moreover have "(bit (x + 1) 7 \<noteq> (x = 0x7f)) = (sint x + 1 < 0)" "(bit (x - 1) 7 \<noteq> (x - 1 = 0x7f)) = (sint x - 1 < 0)"
    unfolding bit7_uint u v sint_sg by (rule i)+
  ultimately show "(set_NS (x + 1) (s\<lparr>sr_V := (x = 0x7f)\<rparr>))\<lparr>sr_Z := (x + 1 AND 0xff = 0)\<rparr> = step_spec (sint x + 1) (x + 1) s"
    "(set_NS (x - 1) (s\<lparr>sr_V := (x - 1 = 0x7f)\<rparr>))\<lparr>sr_Z := (x - 1 AND 0xff = 0)\<rparr> = step_spec (sint x - 1) (x - 1) s"
    by (simp_all add: set_NS_def bitb_eq step_spec_def Let_def sint_neg_iff)
qed

text \<open>
  The operations on one register: NEG is the subtraction from zero with all its flags, COM the
  complement, INC and DEC add and subtract one with the signed overflow and sign of the exact
  result and leave C and H alone, SWAP exchanges the nibbles.
\<close>

theorem exec_unary:
  assumes "regs_ok d" "r < 32"
  defines "x \<equiv> reg d r" and "s \<equiv> status d"
  shows "exec H (R NEG r) d = Inr (1, (set_reg r (0 - x) d)\<lparr>status := sub_spec (x = 0) 0 x False s\<rparr>) \<and>
    exec H (R COM r) d = Inr (1, (set_reg r (NOT x) d)
      \<lparr>status := s\<lparr>sr_C := True, sr_V := False, sr_N := \<not> bit x 7, sr_S := \<not> bit x 7, sr_Z := (x = 0xff)\<rparr>\<rparr>) \<and>
    exec H (R INC r) d = Inr (1, (set_reg r (x + 1) d)\<lparr>status := step_spec (sint x + 1) (x + 1) s\<rparr>) \<and>
    exec H (R DEC r) d = Inr (1, (set_reg r (x - 1) d)\<lparr>status := step_spec (sint x - 1) (x - 1) s\<rparr>) \<and>
    (\<exists>w. uint w = uint x mod 16 * 16 + uint x div 16 \<and> exec H (R SWAP r) d = Inr (1, set_reg r w d))"
proof (intro conjI)
  have com: "0xff - x = NOT x" by (simp add: not_eq_complement)
  have "\<not> bit (NOT x) 7 = bit x 7" by (simp add: bit_simps)
  moreover have m: "(0xff :: byte) = - 1" by simp
  have "NOT x = 0 \<longleftrightarrow> x = 0xff" unfolding m using bit.compl_eq_compl_iff [of x "- 1"] by simp
  ultimately show "exec H (R COM r) d = Inr (1, (set_reg r (NOT x) d)
      \<lparr>status := s\<lparr>sr_C := True, sr_V := False, sr_N := \<not> bit x 7, sr_S := \<not> bit x 7, sr_Z := (x = 0xff)\<rparr>\<rparr>)"
    using assms com by (simp add: exec_def exec_r_def avr_op_COM_def set_NS_def bitb_eq Let_def)
  show "exec H (R NEG r) d = Inr (1, (set_reg r (0 - x) d)\<lparr>status := sub_spec (x = 0) 0 x False s\<rparr>)"
    using assms neg_flags [of x s] by (simp add: exec_def exec_r_def avr_op_NEG_def Let_def)
  show "exec H (R INC r) d = Inr (1, (set_reg r (x + 1) d)\<lparr>status := step_spec (sint x + 1) (x + 1) s\<rparr>)"
    "exec H (R DEC r) d = Inr (1, (set_reg r (x - 1) d)\<lparr>status := step_spec (sint x - 1) (x - 1) s\<rparr>)"
    unfolding step_flags [symmetric] using assms
    by (simp_all add: exec_def exec_r_def avr_op_INC_def avr_op_DEC_def Let_def)
  show "\<exists>w. uint w = uint x mod 16 * 16 + uint x div 16 \<and> exec H (R SWAP r) d = Inr (1, set_reg r w d)"
    using assms SWAP_res [of x] by (auto simp: exec_def exec_r_def avr_op_SWAP_def Let_def)
qed

theorem exec_unary_witness:
  "\<forall>H. exec H (R NEG 7) stack_device =
     Inr (1, (set_reg 7 (0 - 0xaa) stack_device)\<lparr>status := sub_spec False 0 0xaa False (sreg_of_int 0)\<rparr>)"
  using exec_unary [of stack_device 7] by simp

lemma and_1_odd: "x AND 1 \<noteq> 0 \<longleftrightarrow> odd (uint (x :: byte))"
proof -
  have "bit (uint x) 0 = bit x 0" by (simp add: bit_uint_iff)
  then show ?thesis by (simp add: bit_0 and_one_eq mod_2_eq_odd)
qed

lemma run_shift:
  assumes "regs_ok d" "r < 32"
  shows "exec H (R LSR r) d = Inr (1, (set_reg r (drop_bit 1 (reg d r) AND 0x7f) d)
      \<lparr>status := shift_flags (odd (uint (reg d r))) False (drop_bit 1 (reg d r) AND 0x7f) (status d)\<rparr>)"
    and "exec H (R ASR r) d = Inr (1, (set_reg r (drop_bit 1 (reg d r) + (reg d r AND 0x80)) d)
      \<lparr>status := shift_flags (odd (uint (reg d r))) (bit (drop_bit 1 (reg d r) + (reg d r AND 0x80)) 7)
         (drop_bit 1 (reg d r) + (reg d r AND 0x80)) (status d)\<rparr>)"
    and "exec H (R ROR r) d = Inr (1, (set_reg r (drop_bit 1 (reg d r) OR (push_bit 7 (of_bool (sr_C (status d))) AND 0x80)) d)
      \<lparr>status := shift_flags (odd (uint (reg d r)))
         (bit (drop_bit 1 (reg d r) OR (push_bit 7 (of_bool (sr_C (status d))) AND 0x80)) 7)
         (drop_bit 1 (reg d r) OR (push_bit 7 (of_bool (sr_C (status d))) AND 0x80)) (status d)\<rparr>)"
  using assms unfolding and_1_odd [symmetric]
  by (simp_all add: exec_def exec_r_def avr_op_LSR_def avr_op_ASR_def avr_op_ROR_def Let_def bitb_eq)

lemma shift_flags_simps [simp]:
  "sr_C (shift_flags c n w s) = c" "sr_Z (shift_flags c n w s) = (w = 0)" "sr_N (shift_flags c n w s) = n"
  by (simp_all add: shift_flags_def Let_def)

text \<open>
  LSR and ROR halve the register as an unsigned number (ROR moves C in at the top), ASR halves
  it as a signed number, rounding down; C is the bit shifted out, Z tells whether the result is
  zero. LSR on the high register of a pair followed by ROR on the low one halves the 16 bit
  number in the pair and leaves its lowest bit in C.
\<close>

theorem exec_shift:
  assumes "regs_ok d" "r < 31"
  shows "(\<exists>w s. exec H (R LSR r) d = Inr (1, (set_reg r w d)\<lparr>status := s\<rparr>) \<and> uint w = uint (reg d r) div 2 \<and>
      sr_C s = odd (uint (reg d r)) \<and> sr_Z s = (w = 0) \<and> \<not> sr_N s) \<and>
    (\<exists>w s. exec H (R ASR r) d = Inr (1, (set_reg r w d)\<lparr>status := s\<rparr>) \<and> sint w = sint (reg d r) div 2 \<and>
      sr_C s = odd (uint (reg d r)) \<and> sr_Z s = (w = 0) \<and> sr_N s = (sint (reg d r) < 0)) \<and>
    (\<exists>w s. exec H (R ROR r) d = Inr (1, (set_reg r w d)\<lparr>status := s\<rparr>) \<and>
      uint w = uint (reg d r) div 2 + 128 * of_bool (sr_C (status d)) \<and>
      sr_C s = odd (uint (reg d r)) \<and> sr_Z s = (w = 0) \<and> sr_N s = sr_C (status d)) \<and>
    (\<exists>t. sq (exec H (R LSR (r + 1))) (exec H (R ROR r)) d = Inr (1, t) \<and> uint (pair t r) = uint (pair d r) div 2 \<and>
      sr_C (status t) = odd (uint (pair d r)))"
proof (intro conjI)
  let ?x = "reg d r" and ?c = "sr_C (status d)"
  have r: "r < 32" "r + 1 < 32" using assms(2) by simp_all
  define w w' where "w = drop_bit 1 ?x + (?x AND 0x80)"
    and "w' = drop_bit 1 ?x OR (push_bit 7 (of_bool ?c) AND 0x80)"
  show "\<exists>w s. exec H (R LSR r) d = Inr (1, (set_reg r w d)\<lparr>status := s\<rparr>) \<and> uint w = uint ?x div 2 \<and>
      sr_C s = odd (uint ?x) \<and> sr_Z s = (w = 0) \<and> \<not> sr_N s"
    by (intro exI, rule conjI, rule run_shift(1) [OF assms(1) r(1)])
       (use drop_bit_masks(1) [of ?x] uint_drop_bit [of 1 ?x] in simp)
  have "sint w = sint ?x div 2" unfolding w_def by (rule ASR_res)
  moreover from this have "bit w 7 = (sint ?x < 0)" unfolding sint_neg_iff [symmetric] by simp
  ultimately show "\<exists>w s. exec H (R ASR r) d = Inr (1, (set_reg r w d)\<lparr>status := s\<rparr>) \<and> sint w = sint ?x div 2 \<and>
      sr_C s = odd (uint ?x) \<and> sr_Z s = (w = 0) \<and> sr_N s = (sint ?x < 0)"
    by - (intro exI, rule conjI, rule run_shift(2) [OF assms(1) r(1), folded w_def], simp)
  have "uint w' = uint ?x div 2 + 128 * of_bool ?c" unfolding w'_def by (rule ROR_res)
  moreover from this have "bit w' 7 = ?c" unfolding bit7_uint using half_byte [of ?x] uint_byte_bounds [of ?x] by (cases ?c) simp_all
  ultimately show "\<exists>w s. exec H (R ROR r) d = Inr (1, (set_reg r w d)\<lparr>status := s\<rparr>) \<and>
      uint w = uint ?x div 2 + 128 * of_bool ?c \<and> sr_C s = odd (uint ?x) \<and> sr_Z s = (w = 0) \<and> sr_N s = ?c"
    by - (intro exI, rule conjI, rule run_shift(3) [OF assms(1) r(1), folded w'_def], simp)
  have h: "uint (drop_bit 1 (reg d (r + 1)) AND 0x7f) = uint (reg d (r + 1)) div 2"
    using drop_bit_masks(1) [of "reg d (r + 1)"] uint_drop_bit [of 1 "reg d (r + 1)"] by simp
  define c where "c = odd (uint (reg d (r + 1)))"
  define e where "e = (set_reg (r + 1) (drop_bit 1 (reg d (r + 1)) AND 0x7f) d)
    \<lparr>status := shift_flags c False (drop_bit 1 (reg d (r + 1)) AND 0x7f) (status d)\<rparr>"
  have e: "regs_ok e" "reg e r = ?x" "sr_C (status e) = c" using assms(1) by (simp_all add: e_def)
  have "exec H (R LSR (r + 1)) d = Inr (1, e)" using run_shift(1) [OF assms(1) r(2)] by (simp add: e_def c_def)
  moreover define t where "t = (set_reg r (drop_bit 1 ?x OR (push_bit 7 (of_bool c) AND 0x80)) e)
      \<lparr>status := shift_flags (odd (uint ?x)) (bit (drop_bit 1 ?x OR (push_bit 7 (of_bool c) AND 0x80)) 7)
         (drop_bit 1 ?x OR (push_bit 7 (of_bool c) AND 0x80)) (status e)\<rparr>"
  have "exec H (R ROR r) e = Inr (1, t)" using run_shift(3) [OF e(1) r(1)] unfolding e(2,3) t_def .
  moreover have "uint (pair t r) = uint (reg d (r + 1)) div 2 * 256 + (uint ?x div 2 + 128 * of_bool c)"
    unfolding uint_pair using h ROR_res [of ?x c] by (simp add: t_def e_def)
  moreover have "u div 2 * 256 + (v div 2 + 128 * of_bool (odd u)) = (u * 256 + v) div 2" for u v :: int
    by (cases "even u") (auto elim!: evenE oddE)
  ultimately show "\<exists>t. sq (exec H (R LSR (r + 1))) (exec H (R ROR r)) d = Inr (1, t) \<and>
      uint (pair t r) = uint (pair d r) div 2 \<and> sr_C (status t) = odd (uint (pair d r))"
    by (simp add: uint_pair c_def t_def)
qed

theorem exec_shift_witness:
  "\<forall>H. \<exists>w s. exec H (R ASR 3) stack_device = Inr (1, (set_reg 3 w stack_device)\<lparr>status := s\<rparr>) \<and>
     sint w = sint (0xaa :: byte) div 2"
proof
  fix H :: "unit hardware"
  have "regs_ok stack_device" "(3 :: nat) < 31" by simp_all
  from exec_shift [OF this, of H] show "\<exists>w s. exec H (R ASR 3) stack_device =
      Inr (1, (set_reg 3 w stack_device)\<lparr>status := s\<rparr>) \<and> sint w = sint (0xaa :: byte) div 2" by auto
qed

end
