(* ===== verification/Avr_Flow.thy ===== *)
theory Avr_Flow
  imports Avr_Isa
begin

text \<open>
  Loads, stores and the flow of control: what sequences of instructions of
  \<^verbatim>\<open>src/src/decoder.cpp\<close> do to the data memory, the program memory, the stack and the program
  counter. \<open>Step\<close> adds one to the program counter after each instruction, so that the
  instruction executed after one that leaves \<open>PC = p\<close> is the one at \<open>p + 1\<close>.
\<close>

section \<open>Loads and stores through pointers\<close>

lemma pair_inject:
  assumes "pair d lo = pair e lo"
  shows "reg d lo = reg e lo" "reg d (lo + 1) = reg e (lo + 1)"
proof -
  have eq: "uint (reg d (lo + 1)) * 256 + uint (reg d lo) = uint (reg e (lo + 1)) * 256 + uint (reg e lo)"
    using assms by (metis uint_pair)
  then have h: "uint (reg d (lo + 1)) = uint (reg e (lo + 1))"
    using uint_byte_bounds [of "reg d lo"] uint_byte_bounds [of "reg e lo"] by linarith
  with eq have "uint (reg d lo) = uint (reg e lo)" by linarith
  with h show "reg d lo = reg e lo" "reg d (lo + 1) = reg e (lo + 1)" by (auto intro: word_uint_eqI)
qed

lemma unat_ptr_less: "unat (p :: word16) < totalIoSpace"
  using unsigned_less [of p, where ?'a = nat] by (simp add: totalIoSpace_def)

lemma st_incr_run:
  assumes "regs_ok d" "pair d lo = p" "lo < 31" "a < 32" "a \<noteq> lo" "a \<noteq> lo + 1" "rw d (unat p) = RAM v"
  shows "\<exists>c. st_incr H lo (reg_pair H lo) a d = Inr (c, set_pair_regs lo (p + 1) (set_reg (unat p) (reg d a) d))"
  using assms unat_ptr_less [of p]
  by (simp add: st_incr_def SetRWMem_def mem_set_RAM)

lemma ld_decr_run:
  assumes "regs_ok d" "pair d lo = p" "lo < 31" "b < 32" "b \<noteq> lo" "b \<noteq> lo + 1" "rw d (unat (p - 1)) = RAM v"
  shows "\<exists>c. ld_decr H lo (reg_pair H lo) b d = Inr (c, set_pair_regs lo (p - 1) (set_reg b v d))"
  using assms unat_ptr_less [of "p - 1"]
  by (simp add: ld_decr_def GetRWMem_def mem_get_RAM Let_def)

text \<open>A store with post-increment and the matching load with pre-decrement, for X, Y and Z.\<close>

definition pointer_ops :: "(nat \<times> op_r \<times> op_r) list" where
  "pointer_ops = [(26, ST_X_incr, LD_X_decr), (28, ST_Y_incr, LD_Y_decr), (30, ST_Z_incr, LD_Z_decr)]"

lemma pointer_ops_exec:
  assumes "(lo, st, ld) \<in> set pointer_ops"
  shows "exec H (R st a) = st_incr H lo (reg_pair H lo) a" "exec H (R ld a) = ld_decr H lo (reg_pair H lo) a" "lo < 31"
  using assms by (auto simp: pointer_ops_def exec_def exec_r_def avr_op_ST_X_incr_def avr_op_ST_Y_incr_def
    avr_op_ST_Z_incr_def avr_op_LD_X_decr_def avr_op_LD_Y_decr_def avr_op_LD_Z_decr_def
    GetRegX_def GetRegY_def GetRegZ_def)

text \<open>
  A byte stored through X, Y or Z with post-increment is loaded back by the load with
  pre-decrement through the same pointer: the target register gets the byte, the pointer returns
  to its old value (also across the wrap at 0xffff), the cell that was addressed holds the byte,
  and no other register or memory cell changes.
\<close>

theorem store_load:
  assumes d: "regs_ok d" and op: "(lo, st, ld) \<in> set pointer_ops"
    and a: "a < 32" "a \<noteq> lo" "a \<noteq> lo + 1" and b: "b < 32" "b \<noteq> lo" "b \<noteq> lo + 1"
    and p: "32 \<le> unat (pair d lo)" "rw d (unat (pair d lo)) = RAM v"
  shows "\<exists>c t. sq (exec H (R st a)) (exec H (R ld b)) d = Inr (c, t) \<and> reg t b = reg d a \<and>
    pair t lo = pair d lo \<and> (\<forall>i < 32. i \<noteq> b \<longrightarrow> reg t i = reg d i) \<and>
    rw t (unat (pair d lo)) = RAM (reg d a) \<and> (\<forall>q. 32 \<le> q \<and> q \<noteq> unat (pair d lo) \<longrightarrow> rw t q = rw d q)"
proof -
  let ?p = "pair d lo" and ?v = "reg d a"
  note lo = pointer_ops_exec(3) [OF op]
  define e where "e = set_pair_regs lo (?p + 1) (set_reg (unat ?p) ?v d)"
  define t where "t = set_pair_regs lo ?p (set_reg b ?v e)"
  obtain c where st: "exec H (R st a) d = Inr (c, e)"
    using st_incr_run [OF d refl lo a p(2)] unfolding pointer_ops_exec(1) [OF op] e_def by blast
  have e: "regs_ok e" "pair e lo = ?p + 1" "rw e (unat (?p + 1 - 1)) = RAM ?v"
    using d p(1) lo by (simp_all add: e_def) (simp add: set_pair_regs_def)
  obtain c' where "exec H (R ld b) e = Inr (c', t)"
    using ld_decr_run [OF e(1,2) lo b e(3)] unfolding pointer_ops_exec(2) [OF op] t_def by auto
  moreover have pair: "pair t lo = ?p" by (simp add: t_def)
  moreover have "reg t i = reg d i" if "i < 32" "i \<noteq> b" for i
  proof (cases "i = lo \<or> i = lo + 1")
    case True
    then show ?thesis using pair_inject [of t lo d] pair by auto
  next
    case False
    then show ?thesis using that p(1) by (simp add: t_def e_def reg_set_pair_regs)
  qed
  moreover have "reg t b = ?v" using b by (simp add: t_def reg_set_pair_regs)
  moreover have "rw t q = (if q = unat ?p then RAM ?v else rw d q)" if "32 \<le> q" for q
    using that lo b(1) by (simp add: t_def e_def set_pair_regs_def)
  ultimately show ?thesis using st p(1) by auto
qed

text \<open>A device whose X register points into the RAM.\<close>

definition pointer_device :: "unit avr_device" where
  "pointer_device = set_reg 27 1 (set_reg 26 0 stack_device)"

lemma pointer_device_simps [simp]:
  "regs_ok pointer_device" "pair pointer_device 26 = 0x100" "rw pointer_device 0x100 = RAM 0xaa"
  "reg pointer_device 3 = 0xaa" "flash pointer_device = new_flash 8192"
proof -
  show "pair pointer_device 26 = 0x100" by (rule pair_eqI [OF refl refl]) (simp add: pointer_device_def)
  show "rw pointer_device 0x100 = RAM 0xaa" "flash pointer_device = new_flash 8192"
    by (simp_all add: pointer_device_def stack_device_def AvrDevice_def Stack_Reset_def init_rw_def registerSpaceSize_def Let_def)
qed (simp_all add: pointer_device_def)

theorem store_load_witness:
  "\<forall>H. \<exists>c t. sq (exec H (R ST_X_incr 3)) (exec H (R LD_X_decr 4)) pointer_device = Inr (c, t) \<and>
     reg t 4 = 0xaa \<and> pair t 26 = 0x100"
proof
  fix H :: "unit hardware"
  have "regs_ok pointer_device" "(26, ST_X_incr, LD_X_decr) \<in> set pointer_ops" "(3 :: nat) < 32" "(3 :: nat) \<noteq> 26"
    "(3 :: nat) \<noteq> 26 + 1" "(4 :: nat) < 32" "(4 :: nat) \<noteq> 26" "(4 :: nat) \<noteq> 26 + 1"
    "32 \<le> unat (pair pointer_device 26)" "rw pointer_device (unat (pair pointer_device 26)) = RAM 0xaa"
    by (simp_all add: pointer_ops_def)
  from store_load [OF this, of H] show "\<exists>c t. sq (exec H (R ST_X_incr 3)) (exec H (R LD_X_decr 4)) pointer_device = Inr (c, t) \<and>
      reg t 4 = 0xaa \<and> pair t 26 = 0x100" by auto
qed

section \<open>Reading program memory\<close>

lemma unat_xor_1: "unat ((z :: word16) XOR 1) = (if even (unat z) then unat z + 1 else unat z - 1)"
  by (simp add: unsigned_xor_eq xor_Suc_0_eq)

lemma swapped_xor_1:
  assumes "even offset" "offset \<le> z" "z < offset + n" "even n"
  defines "a \<equiv> if even z then z + 1 else z - 1"
  shows "offset \<le> a" "a < offset + n" "swapped src (a - offset) = src ! (z - offset)"
proof -
  show "offset \<le> a" using assms(1,2) unfolding a_def by (cases "z = offset") auto
  have "even (offset + n)" using assms(1,4) by simp
  then have "even z \<Longrightarrow> z + 1 \<noteq> offset + n" by (metis even_plus_one_iff)
  then show "a < offset + n" using assms(3) unfolding a_def by auto
  show "swapped src (a - offset) = src ! (z - offset)"
  proof (cases "even z")
    case True
    then have "odd (z + 1 - offset)" "z + 1 - offset - 1 = z - offset" using assms(1,2) by auto
    then show ?thesis using True by (simp add: a_def swapped_def)
  next
    case False
    then have "z - 1 - offset + 1 = z - offset" using assms(1,2) by (cases "z = offset") auto
    moreover have "even (z - 1 - offset)" using False assms(1,2) by auto
    ultimately show ?thesis using False by (simp add: a_def swapped_def)
  qed
qed

text \<open>
  A program reads its own code as it was loaded: after \<open>WriteMem\<close> has stored a block in the
  flash, LPM through Z returns the byte of the block that has this address, although the flash
  keeps the two bytes of each word swapped.
\<close>

theorem LPM_reads_program:
  assumes "regs_ok d" "r < 32" "flash_ok c f" "rww_lock f = 0"
    and w: "WriteMem c src offset n f = Inr ((), flash d)"
    and n: "even offset" "even n" "n \<le> length src" "offset + n \<le> flash_size f"
    and z: "offset \<le> unat (pair d 30)" "unat (pair d 30) < offset + n"
  shows "exec H (R LPM_Z r) d = Inr (3, set_reg r (src ! (unat (pair d 30) - offset)) d)"
proof -
  let ?z = "unat (pair d 30)"
  let ?a = "if even ?z then ?z + 1 else ?z - 1"
  note a = swapped_xor_1 [OF n(1) z n(2)]
  from WriteMem_run [OF assms(3) n(1-3)] w have f: "flash_size (flash d) = flash_size f" "rww_lock (flash d) = 0"
    and m: "\<And>a. a < flash_size f \<Longrightarrow> myMemory (flash d) ! a =
       (if offset \<le> a \<and> a < offset + n then swapped src (a - offset) else myMemory f ! a)"
    using assms(4) by auto
  have "?a < flash_size f" using a(2) n(4) by linarith
  then have "ReadMem ?a (flash d) = Inr (src ! (?z - offset))"
    using f m [of ?a] a by (simp add: ReadMem_def IsRWWLock_def)
  then show ?thesis using assms(1,2) unfolding unat_xor_1 [symmetric]
    by (simp add: exec_def exec_r_def avr_op_LPM_Z_def GetRegZ_def read_flash_def asks_def)
qed

lemma flash_upd [simp]:
  "regs_ok (d\<lparr>flash := f\<rparr>) = regs_ok d" "reg (d\<lparr>flash := f\<rparr>) = reg d" "pair (d\<lparr>flash := f\<rparr>) = pair d"
  by (simp_all add: regs_ok_def reg_def pair_def fun_eq_iff)

lemma AvrFlash_unlocked:
  assumes "even n"
  shows "\<exists>f. AvrFlash c n = Inr f \<and> flash_ok c f \<and> myMemory f = replicate n 0xff \<and> rww_lock f = 0"
proof -
  have wf: "flash_wf (new_flash n)" using assms by (simp add: new_flash_def flash_wf_def)
  obtain f where f: "Decode_all c (new_flash n) = Inr ((), f)" "flash_ok c f" "myMemory f = myMemory (new_flash n)"
    using Decode_all_run [OF wf] by blast
  have "rww_lock f = 0"
    using Decode_range_run [OF wf, of 0 c n] f(1) by (auto simp: Decode_all_def new_flash_def)
  then show ?thesis using f by (auto simp: AvrFlash_def new_flash_def)
qed

theorem LPM_reads_program_witness:
  "\<forall>H. \<exists>f f'. AvrFlash default_flags 8 = Inr f \<and> WriteMem default_flags [0x0c, 0x94, 0x34, 0x12] 0 4 f = Inr ((), f') \<and>
     exec H (R LPM_Z 5) (set_reg 31 0 (set_reg 30 1 (stack_device\<lparr>flash := f'\<rparr>))) =
       Inr (3, set_reg 5 0x94 (set_reg 31 0 (set_reg 30 1 (stack_device\<lparr>flash := f'\<rparr>))))"
proof
  fix H :: "unit hardware"
  obtain f where f: "AvrFlash default_flags 8 = Inr f" "flash_ok default_flags f" "myMemory f = replicate 8 0xff"
    "rww_lock f = 0" using AvrFlash_unlocked [of 8 default_flags] by auto
  obtain f' where f': "WriteMem default_flags [0x0c, 0x94, 0x34, 0x12] 0 4 f = Inr ((), f')"
    using WriteMem_run [OF f(2), of 0 4 "[0x0c, 0x94, 0x34, 0x12]"] by auto
  let ?d = "set_reg 31 0 (set_reg 30 1 (stack_device\<lparr>flash := f'\<rparr>))"
  have z: "pair ?d 30 = 1" by (rule pair_eqI [OF refl refl]) simp
  have "exec H (R LPM_Z 5) ?d = Inr (3, set_reg 5 ([0x0c, 0x94, 0x34, 0x12] ! (unat (pair ?d 30) - 0)) ?d)"
  proof (rule LPM_reads_program)
    show "WriteMem default_flags [0x0c, 0x94, 0x34, 0x12] 0 4 f = Inr ((), flash ?d)" using f' by simp
  qed (use f z in simp_all)
  then show "\<exists>f f'. AvrFlash default_flags 8 = Inr f \<and> WriteMem default_flags [0x0c, 0x94, 0x34, 0x12] 0 4 f = Inr ((), f') \<and>
     exec H (R LPM_Z 5) (set_reg 31 0 (set_reg 30 1 (stack_device\<lparr>flash := f'\<rparr>))) =
       Inr (3, set_reg 5 0x94 (set_reg 31 0 (set_reg 30 1 (stack_device\<lparr>flash := f'\<rparr>))))"
    using f(1) f' z by auto
qed

section \<open>Branches and skips\<close>

text \<open>The masks that the decoder gives to BRBS and BRBC have a single bit.\<close>

lemma mask_and_sreg:
  assumes "k < 8"
  shows "uint (push_bit k 1 :: byte) AND sreg_to_int s \<noteq> 0 \<longleftrightarrow> bit (sreg_to_int s) k"
proof -
  have "uint (push_bit k 1 :: byte) = push_bit k 1" using assms by (auto elim!: less_8_cases simp: push_bit_eq_mult)
  moreover have "push_bit k 1 AND i = (if bit i k then push_bit k 1 else 0)" for i :: int
    by (rule bit_eqI) (auto simp: bit_simps)
  ultimately show ?thesis by (simp add: push_bit_eq_mult)
qed

text \<open>
  BRBS and BRBC branch just if the selected bit of SREG is set (clear): the instruction
  executed next is then the one \<open>offset + 1\<close> words further on, and the branch takes two cycles;
  otherwise nothing but the cycle count results.
\<close>

theorem exec_branch:
  fixes d :: "'h avr_device"
  assumes "k < 8"
  defines "flag \<equiv> bit (sreg_to_int (status d)) k"
  shows "(\<exists>t. exec H (BR BRBS (push_bit k 1) offset) d = Inr (if flag then 2 else 1, t) \<and>
      PC t = (if flag then PC d + word_of_int offset else PC d) \<and> rw t = rw d \<and> status t = status d \<and>
      (\<not> flag \<longrightarrow> t = d)) \<and>
    (\<exists>t. exec H (BR BRBC (push_bit k 1) offset) d = Inr (if flag then 1 else 2, t) \<and>
      PC t = (if flag then PC d else PC d + word_of_int offset) \<and> rw t = rw d \<and> status t = status d \<and>
      (flag \<longrightarrow> t = d))"
  using mask_and_sreg [OF assms(1), of "status d"] unfolding flag_def
  by (auto simp: exec_def avr_op_BRBS_def avr_op_BRBC_def DebugOnJump_def add_PC_def Let_def)

theorem exec_branch_witness:
  "\<forall>H. \<exists>t. exec H (BR BRBS (push_bit 1 1) (- 3)) (stack_device\<lparr>status := sreg_of_int 2, PC := 9\<rparr>) = Inr (2, t) \<and> PC t = 6"
proof
  fix H :: "unit hardware"
  let ?d = "stack_device\<lparr>status := sreg_of_int 2, PC := 9\<rparr>"
  have "bit (sreg_to_int (status ?d)) 1" by (simp add: sreg_of_int_def sreg_to_int_def bit_1_iff)
  then show "\<exists>t. exec H (BR BRBS (push_bit 1 1) (- 3)) ?d = Inr (2, t) \<and> PC t = 6"
    using exec_branch [of 1 H "- 3" ?d] by auto
qed

section \<open>Calls and returns\<close>

lemma mapS_GetCoreReg:
  "regs_ok d \<Longrightarrow> list_all (\<lambda>i. i < 32) is \<Longrightarrow> mapS (GetCoreReg H) is d = Inr (map (reg d) is, d)"
  by (induction "is") simp_all

text \<open>\<open>OnCall\<close> only records the call for the detection of threads.\<close>

lemma OnCall_run:
  assumes "regs_ok d" "m_cur_thread (threads d) < length (m_threads (threads d))" "stackPointer (stack d) \<noteq> 0"
  shows "\<exists>T. OnCall H d = Inr ((), d\<lparr>threads := T\<rparr>) \<and> m_phase_of_switch T = m_phase_of_switch (threads d)"
proof -
  have "sint (stackPointer (stack d)) \<noteq> 0" using assms(3) by (simp add: signed_eq_0_iff)
  moreover have "mapS (GetCoreReg H) [0..<32] (d\<lparr>threads := T\<rparr>) = Inr (map (reg d) [0..<32], d\<lparr>threads := T\<rparr>)" for T
    using mapS_GetCoreReg [of "d\<lparr>threads := T\<rparr>" "[0..<32]" H] assms(1) by (simp add: list_all_iff regs_ok_def reg_def cong: rwcell.case_cong)
  ultimately show ?thesis using assms(2)
    by (simp add: OnCall_def upd_threads_def) (rule exI, rule conjI, rule refl, simp)
qed

lemma holds2_upd:
  "holds2 ceil n as (d\<lparr>PC := p\<rparr>) = holds2 ceil n as d"
  "holds2 ceil n as (d\<lparr>recentJumpsIndex := ji, recentJumps := jl\<rparr>) = holds2 ceil n as d"
  "m_phase_of_switch T = m_phase_of_switch (threads d) \<Longrightarrow> holds2 ceil n as (d\<lparr>threads := T\<rparr>) = holds2 ceil n as d"
  by (simp_all add: holds2_def sram_holds_def sram_def pc_bytes_def)

text \<open>
  The call leaves the return address on the stack, and the instruction executed next is the one
  at the target.
\<close>

definition enters :: "'h hardware \<Rightarrow> nat \<Rightarrow> nat \<Rightarrow> nat list \<Rightarrow> 'h avr_device \<Rightarrow> instr \<Rightarrow> word16 \<Rightarrow> word16 \<Rightarrow> bool" where
  "enters H ceil n as d i ra target \<longleftrightarrow>
     (\<exists>c t. exec H i d = Inr (c, t) \<and> PC t + 1 = target \<and> holds2 ceil n (unat ra # as) t)"

lemma unat_PC_plus: "unat pc + k < 65536 \<Longrightarrow> unat (pc + word_of_nat k :: word16) = unat pc + k"
  by (simp add: unat_word_ariths unat_of_nat)

lemma push_holds2:
  assumes "holds2 ceil (Suc n) as d" "a < 65536"
  shows "\<exists>t. PushAddr H a d = Inr ((), t) \<and> holds2 ceil n (a # as) t \<and> stack_frame d t \<and> spn t + 2 = spn d \<and>
    (\<forall>p. p \<le> spn t \<or> spn d < p \<longrightarrow> rw t p = rw d p)"
proof -
  obtain t where t: "PushAddr H a d = Inr ((), t)" "sram_holds ceil n (a # as) t" "stack_frame d t"
    "spn t + 2 = spn d" "\<forall>p. p \<le> spn t \<or> spn d < p \<longrightarrow> rw t p = rw d p"
    using PushAddr_step2 [of ceil n as d a H] assms by (auto simp: holds2_def)
  then show ?thesis using stack_frameD(2) [OF t(3)] assms(1) by (auto simp: holds2_def)
qed

text \<open>The registers stay RAM, also where the stack has run into them.\<close>

lemma push_regs_ok:
  assumes "regs_ok d" "holds2 ceil n (a # as) t" "spn t + 2 = spn d" "\<forall>p. p \<le> spn t \<or> spn d < p \<longrightarrow> rw t p = rw d p"
  shows "regs_ok t"
  unfolding regs_ok_def
proof (intro allI impI)
  fix i :: nat assume "i < 32"
  consider "i \<le> spn t \<or> spn d < i" | "i = spn t + 1" | "i = spn t + 2" using assms(3) by linarith
  then show "\<exists>v. rw t i = RAM v"
  proof cases
    case 1
    then have "rw t i = rw d i" using assms(4) by blast
    then show ?thesis using assms(1) \<open>i < 32\<close> by (simp add: regs_ok_def)
  qed (use assms(2) in \<open>auto simp: holds2_def sram_holds_def pc_bytes_def stored_def\<close>)
qed

lemma RET_run:
  assumes "holds2 ceil n (unat a # as) t"
  shows "\<exists>c u. exec H (Plain RET) t = Inr (c, u) \<and> PC u + 1 = a \<and> holds2 ceil (Suc n) as u"
proof -
  obtain u where u: "PopAddr H t = Inr (unat a, u)" "holds2 ceil (Suc n) as u"
    using sram2.pop_holds [OF assms] by blast
  have "word_of_int (uint a - 1) + 1 = a" by simp
  then show ?thesis using u by (simp add: exec_def exec_plain_def avr_op_RET_def set_PC_def holds2_upd)
qed

text \<open>
  C3. Calls and returns match: CALL, ICALL and RCALL push the address of the instruction after
  the call and continue at their target (CALL at the low 16 bits of its operand, RCALL modulo the
  flash size), and RET in any later state in which this address is on top of the stack again
  continues at the instruction after the call, with the rest of the stack intact.
\<close>

theorem call_return:
  assumes d: "regs_ok d" "m_cur_thread (threads d) < length (m_threads (threads d))"
    and s: "holds2 ceil (Suc n) as d" "2 < spn d"
    and pc: "unat (PC d) + 2 < 65536" "ReadMemWord ((unat (PC d) + 1) * 2) (flash d) = Inr w"
  shows "enters H ceil n as d (K22 CALL k) (PC d + 2) w \<and>
    enters H ceil n as d (Plain ICALL) (PC d + 1) (pair d 30) \<and>
    enters H ceil n as d (K12 RCALL off) (PC d + 1)
      (((PC d + word_of_int off) AND ucast (drop_bit 1 (word_of_nat (flash_size (flash d)) - 1 :: word32))) + 1) \<and>
    (\<forall>t a. holds2 ceil n (unat a # as) t \<longrightarrow>
      (\<exists>c u. exec H (Plain RET) t = Inr (c, u) \<and> PC u + 1 = a \<and> holds2 ceil (Suc n) as u))"
proof (intro conjI allI impI RET_run)
  have sp: "stackPointer (stack d) \<noteq> 0" using s(2) by auto
  obtain T where T: "OnCall H d = Inr ((), d\<lparr>threads := T\<rparr>)" "m_phase_of_switch T = m_phase_of_switch (threads d)"
    using OnCall_run [OF d sp] by blast
  have h: "holds2 ceil (Suc n) as (d\<lparr>threads := T\<rparr>)" using s(1) holds2_upd(3) [OF T(2)] by blast
  have a: "unat (PC d + 2) = unat (PC d) + 2" "unat (PC d + 1) = unat (PC d) + 1"
    using pc(1) unat_PC_plus [of "PC d" 2] unat_PC_plus [of "PC d" 1] by simp_all
  show "enters H ceil n as d (K22 CALL k) (PC d + 2) w"
  proof -
    obtain t where t: "PushAddr H (unat (PC d) + 2) (d\<lparr>threads := T\<rparr>) = Inr ((), t)"
      "holds2 ceil n ((unat (PC d) + 2) # as) t" using push_holds2 [OF h, of "unat (PC d) + 2" H] pc(1) by blast
    have z: "(65536 :: word16) = 0" by simp
    have "word_of_nat k * (65536 :: word16) = 0" unfolding z by simp
    then have "word_of_int (int k * 65536 + uint w - 1) + 1 = w" by simp
    then show ?thesis unfolding enters_def a using T(1) t pc(2)
      by (simp add: exec_def avr_op_CALL_def second_word_def DebugOnJump_def set_PC_def holds2_upd Let_def)
  qed
  show "enters H ceil n as d (Plain ICALL) (PC d + 1) (pair d 30)"
  proof -
    obtain t where t: "PushAddr H (unat (PC d) + 1) (d\<lparr>threads := T\<rparr>) = Inr ((), t)"
      "holds2 ceil n ((unat (PC d) + 1) # as) t" using push_holds2 [OF h, of "unat (PC d) + 1" H] pc(1) by auto
    then show ?thesis unfolding enters_def a using T(1) d(1)
      by (simp add: exec_def exec_plain_def avr_op_ICALL_def GetRegZ_def DebugOnJump_def set_PC_def holds2_upd Let_def)
  qed
  show "enters H ceil n as d (K12 RCALL off) (PC d + 1)
      (((PC d + word_of_int off) AND ucast (drop_bit 1 (word_of_nat (flash_size (flash d)) - 1 :: word32))) + 1)"
  proof -
    obtain t where t: "PushAddr H (unat (PC d) + 1) d = Inr ((), t)" "holds2 ceil n ((unat (PC d) + 1) # as) t"
      "stack_frame d t" "spn t + 2 = spn d" "\<forall>p. p \<le> spn t \<or> spn d < p \<longrightarrow> rw t p = rw d p"
      using push_holds2 [OF s(1), of "unat (PC d) + 1" H] pc(1) by auto
    have "stackPointer (stack t) \<noteq> 0" using s(2) t(4) by auto
    then obtain U where U: "OnCall H t = Inr ((), t\<lparr>threads := U\<rparr>)" "m_phase_of_switch U = m_phase_of_switch (threads t)"
      using OnCall_run [OF push_regs_ok [OF d(1) t(2,4,5)]] d(2) stack_frameD(14,15) [OF t(3)] by auto
    show ?thesis unfolding enters_def a using t(1,2) U stack_frameD(1,5) [OF t(3)]
      by (simp add: exec_def avr_op_RCALL_def jump_relative_def add_PC_def DebugOnJump_def holds2_upd Let_def)
  qed
qed

lemma stack_device_simps:
  "flash stack_device = new_flash 8192" "PC stack_device = 0" "spn stack_device = 607"
  "m_cur_thread (threads stack_device) < length (m_threads (threads stack_device))"
  "kind (stack stack_device) = HWStackSram 1024 True" "ioSpaceSize (conf stack_device) = 64"
  "flags (conf stack_device) = default_flags"
proof -
  have "word_of_nat (512 + 64 + registerSpaceSize - 1) = (0x25f :: word32)" by (simp add: registerSpaceSize_def)
  then show "spn stack_device = 607" by (simp add: stack_device_def AvrDevice_def Stack_Reset_def Let_def)
qed (simp_all add: stack_device_def AvrDevice_def Stack_Reset_def ThreadList_def Let_def)

theorem call_return_witness:
  "\<forall>H. enters H 1024 9 [] stack_device (K22 CALL 1) 2 0xffff"
proof
  fix H :: "unit hardware"
  have "holds2 1024 (Suc 9) [] stack_device" by (rule stack_device_holds) simp
  moreover have "ReadMemWord 2 (new_flash 8192) = Inr 0xffff"
    by (simp add: ReadMemWord_def new_flash_def IsRWWLock_def word_at_def)
  ultimately show "enters H 1024 9 [] stack_device (K22 CALL 1) 2 0xffff"
    using call_return [of stack_device 1024 9 "[]" "0xffff" H 1] by (simp add: stack_device_simps)
qed

text \<open>The bit tests.\<close>

lemma and_push_bit: "(v :: byte) AND push_bit k 1 \<noteq> 0 \<longleftrightarrow> k < 8 \<and> bit v k"
proof -
  have "v AND push_bit k 1 = (if bit v k then push_bit k 1 else 0)"
    by (rule bit_word_eqI) (auto simp: bit_simps)
  moreover have "push_bit k 1 \<noteq> (0 :: byte)" if "k < 8"
    using that by (auto simp: push_bit_eq_mult elim!: less_8_cases)
  ultimately show ?thesis using bit_imp_le_length [of v k] by auto
qed

lemma skip_words_run:
  assumes "flash_ok (flags (conf d)) (flash d)" "2 * (unat (PC d) + 1) + 1 < flash_size (flash d)"
  shows "skip_words d = Inr (if IsInstruction2Words (lookup_opcode (flags (conf d))
    (word_at (myMemory (flash d)) (2 * (unat (PC d) + 1)))) then 3 else 2, d)"
proof -
  have "unat (PC d) + 1 < flash_size (flash d) div 2" using assms(2) by presburger
  then have "decoded_at (unat (PC d) + 1) (flash d) =
      Inr (lookup_opcode (flags (conf d)) (word_at (myMemory (flash d)) (2 * (unat (PC d) + 1))))"
    using assms(1) unfolding flash_ok_def flash_wf_def cached_def decoded_at_def by auto
  then show ?thesis by (simp add: skip_words_def)
qed

lemma skip_if_run:
  "\<exists>t. skip_if c n d = Inr (if c then n else 1, t) \<and> PC t = (if c then PC d + word_of_int (n - 1) else PC d) \<and>
     rw t = rw d \<and> status t = status d"
  by (simp add: skip_if_def DebugOnJump_def add_PC_def Let_def)

text \<open>
  SBRS, SBRC and CPSE skip the next instruction just if the register bit is set (clear) or
  the registers are equal: the program counter advances over the one or two words that the next
  instruction has according to the flash, and the cycle count grows by as many; otherwise the
  instruction takes one cycle. Registers, memory and flags keep their values.
\<close>

theorem exec_skip:
  fixes H :: "'h hardware" and d :: "'h avr_device"
  assumes "regs_ok d" "r < 32" "r2 < 32" "k < 8"
    and f: "flash_ok (flags (conf d)) (flash d)" "2 * (unat (PC d) + 1) + 1 < flash_size (flash d)"
  defines "n \<equiv> (if IsInstruction2Words (lookup_opcode (flags (conf d))
    (word_at (myMemory (flash d)) (2 * (unat (PC d) + 1)))) then 2 else 1 :: int)"
    and "skips \<equiv> \<lambda>i n b. \<exists>t. exec H i d = Inr (if b then n + 1 else 1 :: int, t) \<and>
       PC t = (if b then PC d + word_of_int n else PC d) \<and> rw t = rw d \<and> status t = status d"
  shows "skips (RB SBRS r k) n (bit (reg d r) k) \<and> skips (RB SBRC r k) n (\<not> bit (reg d r) k) \<and>
    skips (RR CPSE r r2) n (reg d r = reg d r2)"
proof -
  have w: "skip_words d = Inr (n + 1, d)" using skip_words_run [OF f] by (simp add: n_def)
  have b: "(reg d r AND push_bit k 1 = 0) = (\<not> bit (reg d r) k)" using and_push_bit [of "reg d r" k] assms(4) by blast
  have "exec H (RB SBRS r k) d = skip_if (bit (reg d r) k) (n + 1) d"
    "exec H (RB SBRC r k) d = skip_if (\<not> bit (reg d r) k) (n + 1) d"
    "exec H (RR CPSE r r2) d = skip_if (reg d r = reg d r2) (n + 1) d"
    using assms(1-3) w b
    by (simp_all add: exec_def exec_rr_def avr_op_SBRS_def avr_op_SBRC_def avr_op_CPSE_def)
  then show ?thesis unfolding skips_def
    using skip_if_run [of "bit (reg d r) k" "n + 1" d] skip_if_run [of "\<not> bit (reg d r) k" "n + 1" d]
      skip_if_run [of "reg d r = reg d r2" "n + 1" d] by auto
qed

theorem exec_skip_witness:
  "\<forall>H. \<exists>f t. AvrFlash default_flags 8 = Inr f \<and>
     exec H (RB SBRS 3 1) (stack_device\<lparr>flash := f\<rparr>) = Inr (2, t) \<and> PC t = 1"
proof
  fix H :: "unit hardware"
  obtain f where f: "AvrFlash default_flags 8 = Inr f" "flash_ok default_flags f" "myMemory f = replicate 8 0xff"
    using AvrFlash_unlocked [of 8 default_flags] by auto
  have l: "\<not> IsInstruction2Words (lookup_opcode default_flags 0xffff)" by code_simp
  have "bit (0xaa :: byte) 1" by simp
  then show "\<exists>f t. AvrFlash default_flags 8 = Inr f \<and>
     exec H (RB SBRS 3 1) (stack_device\<lparr>flash := f\<rparr>) = Inr (2, t) \<and> PC t = 1"
    using exec_skip [of "stack_device\<lparr>flash := f\<rparr>" 3 4 1 H] f l by (auto simp: stack_device_simps word_at_def)
qed

section \<open>Errors\<close>

text \<open>
  C39. The instructions that end in an error, each in its way: an illegal opcode stops the
  simulation; a store or load through a pointer that it changes itself is an undefined result;
  IN and OUT beyond the I/O space fail an assertion; LPM from an address outside of an unlocked
  flash is an access out of bounds; PUSH and POP do not exist on the three level stack.
\<close>

theorem exec_errors:
  assumes d: "regs_ok d" and r: "r < 32"
  shows "exec H (Plain ILLEGAL) d = Inl IllegalOpcode \<and>
    ((lo, st, ld) \<in> set pointer_ops \<and> a \<in> {lo, lo + 1} \<longrightarrow>
       exec H (R st a) d = Inl UndefinedResult \<and> exec H (R ld a) d = Inl UndefinedResult) \<and>
    (ioSpaceSize (conf d) \<le> io \<longrightarrow>
       exec H (IOR IN_op r io) d = Inl AssertionFailed \<and> exec H (IOR OUT r io) d = Inl AssertionFailed) \<and>
    (flash_size (flash d) \<le> unat (pair d 30 XOR 1) \<and> rww_lock (flash d) \<le> unat (pair d 30 XOR 1) \<longrightarrow>
       exec H (R LPM_Z r) d = Inl UndefinedBehaviour) \<and>
    (kind (stack d) = ThreeLevelStack x y z \<longrightarrow>
       exec H (R PUSH r) d = Inl NoByteStack \<and> exec H (R POP r) d = Inl NoByteStack)"
proof (intro conjI impI)
  assume p: "(lo, st, ld) \<in> set pointer_ops \<and> a \<in> {lo, lo + 1}"
  then have op: "(lo, st, ld) \<in> set pointer_ops" by blast
  show "exec H (R st a) d = Inl UndefinedResult" "exec H (R ld a) d = Inl UndefinedResult"
    unfolding pointer_ops_exec(1,2) [OF op] using p d pointer_ops_exec(3) [OF op]
    by (auto simp: st_incr_def ld_decr_def)
next
  assume "flash_size (flash d) \<le> unat (pair d 30 XOR 1) \<and> rww_lock (flash d) \<le> unat (pair d 30 XOR 1)"
  then have "ReadMem (unat (pair d 30 XOR 1)) (flash d) = Inl UndefinedBehaviour"
    by (simp add: ReadMem_def IsRWWLock_def)
  then show "exec H (R LPM_Z r) d = Inl UndefinedBehaviour" using d
    by (simp add: exec_def exec_r_def avr_op_LPM_Z_def GetRegZ_def read_flash_def asks_def)
qed (use d r in \<open>simp_all add: exec_def exec_plain_def avr_op_ILLEGAL_def avr_op_IN_def avr_op_OUT_def
      GetIOReg_def SetIOReg_def exec_r_def avr_op_PUSH_def avr_op_POP_def Push_def Pop_def\<close>)

theorem exec_errors_witness:
  "\<forall>H. exec H (R LPM_Z 0) stack_device = Inl UndefinedBehaviour \<and> exec H (IOR IN_op 0 64) stack_device = Inl AssertionFailed"
proof
  fix H :: "unit hardware"
  have p: "pair stack_device 30 = 0xaaaa" by (rule pair_eqI [OF refl refl]) simp
  show "exec H (R LPM_Z 0) stack_device = Inl UndefinedBehaviour \<and> exec H (IOR IN_op 0 64) stack_device = Inl AssertionFailed"
    using exec_errors [of stack_device 0 H 26 ST_X_incr LD_X_decr 26 64] p
    by (simp add: stack_device_simps new_flash_def unat_xor_1)
qed

end
