(* ===== verification/Avr_Eeprom.thy ===== *)
theory Avr_Eeprom
  imports Avr_Invariant
begin

text \<open>
  The EEPROM, \<^verbatim>\<open>src/src/hweeprom.h\<close> and \<^verbatim>\<open>src/src/hweeprom.cpp\<close>: a peripheral with its own
  memory, four I/O registers, a write state machine and an interrupt.

  The operations work on the EEPROM's own state; what they ask of the device is part of their
  result: \<open>AddToCycleList\<close>, \<open>RemoveFromCycleList\<close> and \<open>SetIrqFlag\<close>. \<open>eeprom_hardware\<close> turns
  them into the virtual methods of a device whose only other part is the EEPROM (part 0, with
  the cells 0 to 3 for EEARH, EEARL, EEDR and EECR) and satisfies the contract \<open>peripherals\<close>.
\<close>

section \<open>State and operations\<close>

datatype ee_state = OPSTATE_READY | OPSTATE_ENABLED | OPSTATE_WRITE

datatype ee_devmode = DEVMODE_NORMAL | DEVMODE_AT90S | DEVMODE_EXTENDED

record eeprom =
  ee_memory :: "byte list"
  eear :: word32
  eear_mask :: word32
  eecr :: byte
  eecr_mask :: byte
  eedr :: byte
  ee_has_irq :: bool
  irqVectorNo :: nat
  opEnableCycles :: nat
  cpuHoldCycles :: nat
  opState :: ee_state
  opMode :: byte
  opAddr :: nat
  eraseWriteDelayTime :: int
  eraseDelayTime :: int
  writeDelayTime :: int
  writeDoneTime :: int

record ee_request =
  req_add :: bool
  req_remove :: bool
  req_irq :: bool

abbreviation CTRL_READ :: byte where "CTRL_READ \<equiv> 1"
abbreviation CTRL_WRITE :: byte where "CTRL_WRITE \<equiv> 2"
abbreviation CTRL_ENABLE :: byte where "CTRL_ENABLE \<equiv> 4"
abbreviation CTRL_IRQ :: byte where "CTRL_IRQ \<equiv> 8"
abbreviation CTRL_MODE_ERASE :: byte where "CTRL_MODE_ERASE \<equiv> 16"
abbreviation CTRL_MODE_WRITE :: byte where "CTRL_MODE_WRITE \<equiv> 32"
abbreviation CTRL_MODES :: byte where "CTRL_MODES \<equiv> 48"

definition Eeprom_Reset :: "eeprom \<Rightarrow> eeprom" where
  "Eeprom_Reset e = e\<lparr>eecr := eecr e AND 0x32, eedr := 0, opEnableCycles := 0, cpuHoldCycles := 0\<rparr>"

definition HWEeprom :: "nat \<Rightarrow> nat \<Rightarrow> bool \<Rightarrow> ee_devmode \<Rightarrow> eeprom" where
  "HWEeprom sz irqVec has devMode =
     Eeprom_Reset \<lparr>ee_memory = replicate sz 0xff, eear = 0, eear_mask = word_of_nat sz - 1, eecr = 0,
       eecr_mask = (if devMode = DEVMODE_NORMAL \<or> devMode = DEVMODE_AT90S
                    then (if \<not> has then 0x07 else 0x0f) else 0x3f),
       eedr = 0, ee_has_irq = has, irqVectorNo = irqVec, opEnableCycles = 0, cpuHoldCycles = 0,
       opState = OPSTATE_READY, opMode = 0, opAddr = 0,
       eraseWriteDelayTime = (if devMode = DEVMODE_NORMAL then 8500000
                              else if devMode = DEVMODE_AT90S then 4000000 else 3400000),
       eraseDelayTime = (if devMode = DEVMODE_EXTENDED then 1800000 else 0),
       writeDelayTime = (if devMode = DEVMODE_EXTENDED then 1800000 else 0), writeDoneTime = 0\<rparr>"

definition SetEearl :: "byte \<Rightarrow> eeprom \<Rightarrow> eeprom" where
  "SetEearl val e = e\<lparr>eear := ((eear e AND 0xff00) + ucast val) AND eear_mask e\<rparr>"

definition SetEearh :: "byte \<Rightarrow> eeprom \<Rightarrow> eeprom" where
  "SetEearh val e = e\<lparr>eear := ((eear e AND 0x00ff) + push_bit 8 (ucast val)) AND eear_mask e\<rparr>"

definition SetEedr :: "byte \<Rightarrow> eeprom \<Rightarrow> eeprom" where
  "SetEedr val e = e\<lparr>eedr := val\<rparr>"

definition GetEearl :: "eeprom \<Rightarrow> byte" where
  "GetEearl e = ucast (eear e AND 0xff)"

definition GetEearh :: "eeprom \<Rightarrow> byte" where
  "GetEearh e = ucast (drop_bit 8 (eear e) AND 0xff)"

text \<open>A read request: hold the CPU for four cycles, fetch the byte, clear the request bit.\<close>

definition ee_read :: "(eeprom, unit) sim" where
  "ee_read =
     sq (modify (\<lambda>e. e\<lparr>cpuHoldCycles := 4\<rparr>))
     (bnd (gets (\<lambda>e. unat (eear e) < length (ee_memory e))) (\<lambda>inside.
     sq (assertM inside)
     (modify (\<lambda>e. e\<lparr>eedr := ee_memory e ! unat (eear e), eecr := eecr e AND NOT CTRL_READ\<rparr>))))"

definition write_delay :: "eeprom \<Rightarrow> byte \<Rightarrow> int" where
  "write_delay e mode =
     (if mode AND CTRL_MODES = CTRL_MODE_ERASE then eraseDelayTime e
      else if mode AND CTRL_MODES = CTRL_MODE_WRITE then writeDelayTime e
      else eraseWriteDelayTime e)"

definition ee_start_write :: "int \<Rightarrow> (eeprom, unit) sim" where
  "ee_start_write now =
     sq (modify (\<lambda>e. e\<lparr>cpuHoldCycles := 2, opMode := eecr e AND CTRL_MODES, opAddr := unat (eear e)\<rparr>))
     (bnd (gets (\<lambda>e. opAddr e < length (ee_memory e))) (\<lambda>inside.
     sq (assertM inside)
     (modify (\<lambda>e. e\<lparr>opState := OPSTATE_WRITE, opEnableCycles := 0, eecr := eecr e AND NOT CTRL_ENABLE,
                    writeDoneTime := now + write_delay e (opMode e)\<rparr>))))"

text \<open>The three cases of \<open>SetEecr\<close>; the result says whether \<open>AddToCycleList\<close> is called.\<close>

definition eecr_ready :: "(eeprom, bool) sim" where
  "eecr_ready =
     bnd (gets (\<lambda>e. (eecr e AND CTRL_ENABLE = CTRL_ENABLE, eecr e AND CTRL_READ = CTRL_READ))) (\<lambda>(en, rd).
     sq (whenM en (modify (\<lambda>e. e\<lparr>opState := OPSTATE_ENABLED, opEnableCycles := 4\<rparr>)))
     (sq (whenM rd ee_read)
     (sq (modify (\<lambda>e. e\<lparr>eecr := eecr e AND NOT CTRL_WRITE\<rparr>))
     (ret (en \<or> rd)))))"

definition eecr_enabled :: "int \<Rightarrow> (eeprom, bool) sim" where
  "eecr_enabled now =
     sq (modify (\<lambda>e. e\<lparr>eecr := eecr e OR CTRL_ENABLE\<rparr>))
     (bnd (gets eecr) (\<lambda>v.
     sq (if v AND CTRL_READ = CTRL_READ then ee_read
         else whenM (v AND CTRL_WRITE = CTRL_WRITE) (ee_start_write now))
     (ret False)))"

definition eecr_write :: "(eeprom, bool) sim" where
  "eecr_write =
     sq (modify (\<lambda>e. if eecr e AND CTRL_ENABLE = CTRL_ENABLE then e\<lparr>opEnableCycles := 4\<rparr> else e))
     (sq (modify (\<lambda>e. e\<lparr>eecr := (eecr e AND NOT CTRL_READ) OR CTRL_WRITE\<rparr>))
     (ret False))"

definition SetEecr :: "int \<Rightarrow> byte \<Rightarrow> (eeprom, ee_request) sim" where
  "SetEecr now newval =
     bnd (gets eecr) (\<lambda>eecr_old.
     sq (modify (\<lambda>e. e\<lparr>eecr := newval AND eecr_mask e\<rparr>))
     (bnd (gets opState) (\<lambda>st.
     bnd (case st of OPSTATE_READY \<Rightarrow> eecr_ready | OPSTATE_ENABLED \<Rightarrow> eecr_enabled now
          | OPSTATE_WRITE \<Rightarrow> eecr_write) (\<lambda>add.
     gets (\<lambda>e. \<lparr>req_add = add, req_remove = False,
       req_irq = eecr_old AND CTRL_IRQ = 0 \<and> eecr e AND CTRL_IRQ = CTRL_IRQ \<and> ee_has_irq e
                 \<and> eecr e AND CTRL_WRITE = 0\<rparr>)))))"

text \<open>The byte that a finished operation leaves at \<open>opAddr\<close>.\<close>

definition written_byte :: "eeprom \<Rightarrow> byte" where
  "written_byte e =
     (if opMode e AND CTRL_MODES = CTRL_MODE_ERASE then 0xff
      else if opMode e AND CTRL_MODES = CTRL_MODE_WRITE then eedr e AND ee_memory e ! opAddr e
      else eedr e)"

definition ee_count_enable :: "eeprom \<Rightarrow> eeprom" where
  "ee_count_enable e =
     (if opEnableCycles e > 0 then
        (let f = e\<lparr>opEnableCycles := opEnableCycles e - 1\<rparr> in
         if opEnableCycles f = 0 then
           f\<lparr>eecr := eecr f AND NOT CTRL_ENABLE,
             opState := (if opState f = OPSTATE_ENABLED then OPSTATE_READY else opState f)\<rparr>
         else f)
      else e)"

definition ee_finish_write :: "int \<Rightarrow> (eeprom, bool) sim" where
  "ee_finish_write now =
     bnd (gets (\<lambda>e. opState e = OPSTATE_WRITE \<and> writeDoneTime e \<le> now)) (\<lambda>ready.
     if \<not> ready then ret False
     else sq (modify (\<lambda>e. e\<lparr>opState := OPSTATE_READY, eecr := eecr e AND NOT CTRL_WRITE\<rparr>))
       (bnd (gets (\<lambda>e. opAddr e < length (ee_memory e))) (\<lambda>inside.
       sq (assertM inside)
       (sq (modify (\<lambda>e. e\<lparr>ee_memory := (ee_memory e)[opAddr e := written_byte e]\<rparr>))
       (gets (\<lambda>e. ee_has_irq e \<and> eecr e AND CTRL_IRQ = CTRL_IRQ))))))"

definition Eeprom_CpuCycle :: "int \<Rightarrow> (eeprom, nat \<times> ee_request) sim" where
  "Eeprom_CpuCycle now =
     sq (modify ee_count_enable)
     (bnd (ee_finish_write now) (\<lambda>irq.
     bnd (gets (\<lambda>e. (opState e = OPSTATE_READY \<and> cpuHoldCycles e = 0 \<and> opEnableCycles e = 0,
                     cpuHoldCycles e > 0))) (\<lambda>(idle, hold).
     sq (whenM hold (modify (\<lambda>e. e\<lparr>cpuHoldCycles := cpuHoldCycles e - 1\<rparr>)))
     (ret (if hold then 1 else 0, \<lparr>req_add = False, req_remove = idle, req_irq = irq\<rparr>)))))"

definition WriteAtAddress :: "nat \<Rightarrow> byte \<Rightarrow> (eeprom, unit) sim" where
  "WriteAtAddress addr val =
     bnd (gets (\<lambda>e. addr < length (ee_memory e))) (\<lambda>inside.
     if inside then modify (\<lambda>e. e\<lparr>ee_memory := (ee_memory e)[addr := val]\<rparr>) else fail UndefinedBehaviour)"

definition ReadFromAddress :: "nat \<Rightarrow> (eeprom, byte) sim" where
  "ReadFromAddress addr =
     bnd (gets (\<lambda>e. addr < length (ee_memory e))) (\<lambda>inside.
     if inside then gets (\<lambda>e. ee_memory e ! addr) else fail UndefinedBehaviour)"

definition Eeprom_WriteMem :: "byte list \<Rightarrow> nat \<Rightarrow> eeprom \<Rightarrow> eeprom" where
  "Eeprom_WriteMem src offset e =
     fold (\<lambda>tt e. if tt + offset < length (ee_memory e)
                  then e\<lparr>ee_memory := (ee_memory e)[tt + offset := src ! tt]\<rparr> else e)
       [0..<length src] e"

section \<open>The EEPROM as a part of a device\<close>

definition serve :: "ee_request \<Rightarrow> (eeprom avr_device, unit) sim" where
  "serve q =
     sq (modify (\<lambda>d. if req_add q then AddToCycleList (HwOther 0) d else d))
     (sq (bnd (gets (\<lambda>d. (sysTime d, irqVectorNo (hw d)))) (\<lambda>(now, v).
          whenM (req_irq q) (on_irq (SetIrqFlag now (HwOther 0) v))))
     (modify (\<lambda>d. if req_remove q then RemoveFromCycleList (HwOther 0) d else d)))"

abbreviation on_hw :: "('h, 'a) sim \<Rightarrow> ('h avr_device, 'a) sim" where
  "on_hw \<equiv> zoom hw (\<lambda>e d. d\<lparr>hw := e\<rparr>)"

definition eeprom_hardware :: "eeprom hardware" where
  "eeprom_hardware = \<lparr>
     hw_CpuCycle = (\<lambda>n. bnd (gets sysTime) (\<lambda>now.
       bnd (on_hw (Eeprom_CpuCycle now)) (\<lambda>(r, q). sq (serve q) (ret r)))),
     hw_Reset = (\<lambda>n. modify (\<lambda>d. d\<lparr>hw := Eeprom_Reset (hw d)\<rparr>)),
     hw_ClearIrqFlag = (\<lambda>n v. bnd (gets (\<lambda>d. (sysTime d, hw d))) (\<lambda>(now, e).
       if v = irqVectorNo e
       then if ee_has_irq e then on_irq (ClearIrqFlag now v) else fail UndefinedBehaviour
       else ret ())),
     hw_IsLevelInterrupt = (\<lambda>n v. ret False),
     hw_LevelInterruptPending = (\<lambda>n v. ret False),
     cell_get = (\<lambda>n. gets (\<lambda>d. if n = 0 then GetEearh (hw d) else if n = 1 then GetEearl (hw d)
       else if n = 2 then eedr (hw d) else eecr (hw d))),
     cell_set = (\<lambda>n v. if n = 0 then modify (\<lambda>d. d\<lparr>hw := SetEearh v (hw d)\<rparr>)
       else if n = 1 then modify (\<lambda>d. d\<lparr>hw := SetEearl v (hw d)\<rparr>)
       else if n = 2 then modify (\<lambda>d. d\<lparr>hw := SetEedr v (hw d)\<rparr>)
       else bnd (gets sysTime) (\<lambda>now. bnd (on_hw (SetEecr now v)) serve))\<rparr>"

lemma keeps_on_hw: "keeps (dev_ok N) (on_hw m)"
  by (rule keeps_zoom [where Q = "\<lambda>_. True"]) (simp_all add: keeps_def)

lemma IrqFlag_size:
  "SetIrqFlag now p v q = Inr (x, q') \<Longrightarrow> vectorTableSize q' = vectorTableSize q"
  "ClearIrqFlag now v q = Inr (x, q') \<Longrightarrow> vectorTableSize q' = vectorTableSize q"
  by (auto simp: SetIrqFlag_def ClearIrqFlag_def split: if_splits)

lemma keeps_IrqFlag_dev:
  "keeps (dev_ok N) (on_irq (SetIrqFlag now p v))" "keeps (dev_ok N) (on_irq (ClearIrqFlag now v))"
  by (auto intro!: keeps_on_irq keeps_SetIrqFlag keeps_ClearIrqFlag dest: IrqFlag_size)

lemma keeps_serve: "keeps (dev_ok N) (serve q)"
  unfolding serve_def
  by (intro keeps_intros keeps_IrqFlag_dev; simp add: AddToCycleList_def RemoveFromCycleList_def)

interpretation eedev: peripherals eeprom_hardware N
proof
  fix n v :: nat and b :: byte
  note ks = keeps_intros keeps_on_hw keeps_serve keeps_IrqFlag_dev
  show "keeps (dev_ok N) (hw_CpuCycle eeprom_hardware n)"
    unfolding eeprom_hardware_def hardware.simps by (intro ks)
  show "keeps (dev_ok N) (hw_Reset eeprom_hardware n)"
    unfolding eeprom_hardware_def hardware.simps by (intro ks) simp
  show "keeps (dev_ok N) (hw_ClearIrqFlag eeprom_hardware n v)"
    unfolding eeprom_hardware_def hardware.simps by (intro ks)
  show "keeps (dev_ok N) (hw_IsLevelInterrupt eeprom_hardware n v)"
    unfolding eeprom_hardware_def hardware.simps by (intro ks)
  show "keeps (dev_ok N) (hw_LevelInterruptPending eeprom_hardware n v)"
    unfolding eeprom_hardware_def hardware.simps by (intro ks)
  show "keeps (dev_ok N) (cell_get eeprom_hardware n)"
    unfolding eeprom_hardware_def hardware.simps by (intro ks)
  show "keeps (dev_ok N) (cell_set eeprom_hardware n b)"
    unfolding eeprom_hardware_def hardware.simps by (intro ks; simp)
qed

section \<open>Well-formed EEPROMs\<close>

text \<open>
  The size is a power of two, so that masking the address register keeps it inside of the
  memory; a running write has a valid address.
\<close>

definition ee_ok :: "eeprom \<Rightarrow> bool" where
  "ee_ok e \<longleftrightarrow> (\<exists>k \<le> 16. length (ee_memory e) = 2 ^ k \<and> eear_mask e = mask k) \<and>
     unat (eear e) < length (ee_memory e) \<and>
     (opState e = OPSTATE_WRITE \<longrightarrow> opAddr e < length (ee_memory e))"

lemma unat_and_mask_less: "unat (w AND mask k :: word32) < 2 ^ k"
  using unat_take_bit_less [of k w] by (simp add: take_bit_eq_mask)

lemma HWEeprom_ok: "k \<le> 16 \<Longrightarrow> ee_ok (HWEeprom (2 ^ k) v has m)"
  by (auto simp: ee_ok_def HWEeprom_def Eeprom_Reset_def mask_eq_exp_minus_1)

lemma SetEear_ok: "ee_ok e \<Longrightarrow> ee_ok (SetEearl v e)" "ee_ok e \<Longrightarrow> ee_ok (SetEearh v e)"
  by (auto simp: ee_ok_def SetEearl_def SetEearh_def unat_and_mask_less)

lemma ee_read_run:
  "ee_ok e \<Longrightarrow> ee_read e = Inr ((), e\<lparr>cpuHoldCycles := 4, eedr := ee_memory e ! unat (eear e),
     eecr := eecr e AND NOT CTRL_READ\<rparr>)"
  by (simp add: ee_read_def ee_ok_def)

lemma ee_start_write_run:
  "ee_ok e \<Longrightarrow> ee_start_write now e = Inr ((), e\<lparr>cpuHoldCycles := 2, opMode := eecr e AND CTRL_MODES,
     opAddr := unat (eear e), opState := OPSTATE_WRITE, opEnableCycles := 0,
     eecr := eecr e AND NOT CTRL_ENABLE, writeDoneTime := now + write_delay e (eecr e AND CTRL_MODES)\<rparr>)"
  by (simp add: ee_start_write_def ee_ok_def write_delay_def)

text \<open>
  Writing EECR never fails an assertion, keeps the EEPROM well-formed and never changes the
  memory; a write starts only in the enabled state.
\<close>

lemma ctrl_bits:
  "(x OR CTRL_ENABLE) AND CTRL_WRITE = x AND CTRL_WRITE" "(x OR CTRL_ENABLE) AND CTRL_READ = x AND CTRL_READ"
  by (simp_all add: bit.conj_disj_distrib2)

lemma SetEecr_run:
  assumes "ee_ok e"
  shows "\<exists>q e'. SetEecr now v e = Inr (q, e') \<and> ee_ok e' \<and> ee_memory e' = ee_memory e \<and>
    (opState e \<noteq> OPSTATE_WRITE \<and> opState e' = OPSTATE_WRITE \<longrightarrow>
       opState e = OPSTATE_ENABLED \<and> (v AND eecr_mask e) AND CTRL_WRITE \<noteq> 0)"
proof -
  have m: "ee_ok (e\<lparr>eecr := x\<rparr>)" "ee_ok (e\<lparr>eecr := x, opState := OPSTATE_ENABLED, opEnableCycles := n\<rparr>)" for x n
    using assms by (auto simp: ee_ok_def)
  show ?thesis
    using assms m
    by (cases "opState e")
       (auto simp: SetEecr_def eecr_ready_def eecr_enabled_def eecr_write_def ee_read_run ee_start_write_run
          ee_ok_def ctrl_bits split: if_splits)
qed

lemma ee_count_enable_simps [simp]:
  "ee_memory (ee_count_enable e) = ee_memory e" "eear (ee_count_enable e) = eear e"
  "eear_mask (ee_count_enable e) = eear_mask e" "opAddr (ee_count_enable e) = opAddr e"
  "opMode (ee_count_enable e) = opMode e" "eedr (ee_count_enable e) = eedr e"
  "writeDoneTime (ee_count_enable e) = writeDoneTime e" "cpuHoldCycles (ee_count_enable e) = cpuHoldCycles e"
  "opState (ee_count_enable e) = OPSTATE_WRITE \<longleftrightarrow> opState e = OPSTATE_WRITE"
  "written_byte (ee_count_enable e) = written_byte e" "eecr_mask (ee_count_enable e) = eecr_mask e"
  by (auto simp: ee_count_enable_def Let_def written_byte_def)

text \<open>
  A cycle changes the memory only when a started operation is due, and then only the byte at
  the address latched when it was started.
\<close>

lemma Eeprom_CpuCycle_run:
  assumes "ee_ok e"
  shows "\<exists>r q e'. Eeprom_CpuCycle now e = Inr ((r, q), e') \<and> ee_ok e' \<and> eear e' = eear e \<and>
    eecr_mask e' = eecr_mask e \<and> r = (if 0 < cpuHoldCycles e then 1 else 0) \<and>
    (if opState e = OPSTATE_WRITE \<and> writeDoneTime e \<le> now
     then ee_memory e' = (ee_memory e)[opAddr e := written_byte e] \<and> opState e' = OPSTATE_READY
     else ee_memory e' = ee_memory e)"
  using assms by (auto simp: Eeprom_CpuCycle_def ee_finish_write_def ee_ok_def written_byte_def)

section \<open>Writing and reading back\<close>

text \<open>The sequence of register accesses that programs one byte, finished by the cycle at \<open>t2\<close>.\<close>

definition program_byte :: "int \<Rightarrow> int \<Rightarrow> int \<Rightarrow> byte \<Rightarrow> (eeprom, nat \<times> ee_request) sim" where
  "program_byte t0 t1 t2 v =
     sq (modify (SetEedr v)) (sq (SetEecr t0 CTRL_ENABLE) (sq (SetEecr t1 CTRL_WRITE) (Eeprom_CpuCycle t2)))"

text \<open>
  C15. Programming a byte through the registers (data, master enable, write enable, and the
  cycle at which the programming time is over) stores it at the selected address, changes no
  other byte, leaves the EEPROM ready, and a following read request returns the byte in EEDR and
  halts the CPU for four cycles.
\<close>

theorem eeprom_program_read:
  assumes "ee_ok e" "opState e = OPSTATE_READY" "eecr_mask e AND 7 = 7" "t1 + eraseWriteDelayTime e \<le> t2"
  shows "\<exists>x e' q e''. program_byte t0 t1 t2 v e = Inr (x, e') \<and> ee_ok e' \<and> opState e' = OPSTATE_READY \<and>
    ee_memory e' = (ee_memory e)[unat (eear e) := v] \<and>
    SetEecr t3 CTRL_READ e' = Inr (q, e'') \<and> eedr e'' = v \<and> cpuHoldCycles e'' = 4"
proof -
  have b: "CTRL_READ AND eecr_mask e = CTRL_READ" "CTRL_WRITE AND eecr_mask e = CTRL_WRITE"
    "CTRL_ENABLE AND eecr_mask e = CTRL_ENABLE"
  proof -
    have "x AND eecr_mask e = x" if "x AND 7 = x" for x
      using that assms(3) by (metis and.assoc and.commute)
    then show "CTRL_READ AND eecr_mask e = CTRL_READ" "CTRL_WRITE AND eecr_mask e = CTRL_WRITE"
      "CTRL_ENABLE AND eecr_mask e = CTRL_ENABLE" by simp_all
  qed
  define e2 where "e2 = e\<lparr>eedr := v, cpuHoldCycles := 2, opMode := 0,
    opAddr := unat (eear e), opState := OPSTATE_WRITE, opEnableCycles := 0, eecr := CTRL_WRITE,
    writeDoneTime := t1 + eraseWriteDelayTime e\<rparr>"
  have ok: "ee_ok (e\<lparr>eedr := v, opState := OPSTATE_ENABLED, opEnableCycles := n, eecr := x\<rparr>)" for n x
    using assms(1) by (simp add: ee_ok_def)
  have "program_byte t0 t1 t2 v e = Eeprom_CpuCycle t2 e2"
    using assms(2) b ok [where n = 4 and x = 6] by (simp add: program_byte_def SetEedr_def SetEecr_def eecr_ready_def eecr_enabled_def
      ee_start_write_run write_delay_def e2_def)
  moreover have "ee_ok e2" using assms(1) by (simp add: ee_ok_def e2_def)
  ultimately obtain x e' where e': "program_byte t0 t1 t2 v e = Inr (x, e')" "ee_ok e'" "eear e' = eear e"
      "eecr_mask e' = eecr_mask e" "opState e' = OPSTATE_READY" "ee_memory e' = (ee_memory e)[unat (eear e) := v]"
    using Eeprom_CpuCycle_run [of e2 t2] assms(4) by (auto simp: e2_def written_byte_def)
  moreover have "unat (eear e) < length (ee_memory e)" using assms(1) by (simp add: ee_ok_def)
  moreover have "ee_ok (e'\<lparr>eecr := y\<rparr>)" for y using e'(2) by (simp add: ee_ok_def)
  ultimately show ?thesis using b
    by (simp add: SetEecr_def eecr_ready_def ee_read_run)
qed

theorem eeprom_program_read_witness:
  "\<exists>x e' q e''. program_byte 0 10 9000000 0x5a (SetEearl 7 (HWEeprom 512 3 True DEVMODE_NORMAL)) = Inr (x, e') \<and>
     ee_memory e' = (replicate 512 0xff)[7 := 0x5a] \<and>
     SetEecr 9000001 CTRL_READ e' = Inr (q, e'') \<and> eedr e'' = 0x5a"
proof -
  let ?e = "SetEearl 7 (HWEeprom 512 3 True DEVMODE_NORMAL)"
  have "ee_ok ?e" using HWEeprom_ok [of 9 3 True DEVMODE_NORMAL] by (simp add: SetEear_ok)
  moreover have "opState ?e = OPSTATE_READY" "eecr_mask ?e AND 7 = 7" "10 + eraseWriteDelayTime ?e \<le> 9000000"
    by (simp_all add: SetEearl_def HWEeprom_def Eeprom_Reset_def)
  moreover have "ee_memory ?e = replicate 512 0xff" "unat (eear ?e) = 7"
    by (simp_all add: SetEearl_def HWEeprom_def Eeprom_Reset_def)
  ultimately show ?thesis
    using eeprom_program_read [of ?e 10 9000000 0 "0x5a" 9000001] by metis
qed

text \<open>
  C16. The EEPROM memory is safe from stray accesses: writing EECR never changes it and starts
  an operation only from the enabled state with the write bit set; a clock cycle changes it only
  when a started operation is due, and then only at the address latched at its start.
\<close>

theorem eeprom_write_safety:
  assumes "ee_ok e"
  shows "(\<exists>q e'. SetEecr now v e = Inr (q, e') \<and> ee_ok e' \<and> ee_memory e' = ee_memory e \<and>
      (opState e \<noteq> OPSTATE_WRITE \<and> opState e' = OPSTATE_WRITE \<longrightarrow>
         opState e = OPSTATE_ENABLED \<and> (v AND eecr_mask e) AND CTRL_WRITE \<noteq> 0)) \<and>
    (\<exists>r q e'. Eeprom_CpuCycle now e = Inr ((r, q), e') \<and> ee_ok e' \<and>
      (\<forall>a. ee_memory e' ! a \<noteq> ee_memory e ! a \<longrightarrow>
         opState e = OPSTATE_WRITE \<and> writeDoneTime e \<le> now \<and> a = opAddr e))"
proof (rule conjI)
  obtain r q e' where e': "Eeprom_CpuCycle now e = Inr ((r, q), e')" "ee_ok e'"
    and m: "if opState e = OPSTATE_WRITE \<and> writeDoneTime e \<le> now
      then ee_memory e' = (ee_memory e)[opAddr e := written_byte e] \<and> opState e' = OPSTATE_READY
      else ee_memory e' = ee_memory e"
    using Eeprom_CpuCycle_run [OF assms, of now] by blast
  from m have "\<forall>a. ee_memory e' ! a \<noteq> ee_memory e ! a \<longrightarrow>
      opState e = OPSTATE_WRITE \<and> writeDoneTime e \<le> now \<and> a = opAddr e"
    by (metis nth_list_update_neq)
  with e' show "\<exists>r q e'. Eeprom_CpuCycle now e = Inr ((r, q), e') \<and> ee_ok e' \<and>
      (\<forall>a. ee_memory e' ! a \<noteq> ee_memory e ! a \<longrightarrow>
         opState e = OPSTATE_WRITE \<and> writeDoneTime e \<le> now \<and> a = opAddr e)" by blast
qed (rule SetEecr_run [OF assms])

theorem eeprom_write_safety_witness:
  "\<exists>q e'. SetEecr 0 CTRL_WRITE (HWEeprom 512 3 True DEVMODE_NORMAL) = Inr (q, e') \<and>
     ee_memory e' = replicate 512 0xff \<and> opState e' \<noteq> OPSTATE_WRITE"
proof -
  let ?e = "HWEeprom 512 3 True DEVMODE_NORMAL"
  have "ee_ok ?e" using HWEeprom_ok [of 9 3 True DEVMODE_NORMAL] by simp
  moreover have "opState ?e = OPSTATE_READY" "ee_memory ?e = replicate 512 0xff"
    by (simp_all add: HWEeprom_def Eeprom_Reset_def)
  ultimately show ?thesis using eeprom_write_safety [of ?e 0 CTRL_WRITE] by (metis ee_state.distinct(1) ee_state.distinct(4))
qed

end
