(* ===== verification/Avr_Interrupt.thy ===== *)
theory Avr_Interrupt
  imports Avr_Flow Avr_Eeprom
begin

text \<open>
  Interrupts and clock cycles of the core: what \<open>AvrDevice::Step\<close>, \<open>HWIrqSystem::GetNewPc\<close> and
  the interrupt entry promise, and the states that a device can reach.
\<close>

section \<open>Entering and leaving a handler\<close>

lemma holds2_core:
  "holds2 ceil n as (d\<lparr>status := s\<rparr>) = holds2 ceil n as d"
  "holds2 ceil n as (d\<lparr>cpuCycles := c\<rparr>) = holds2 ceil n as d"
  "holds2 ceil n as (d\<lparr>newIrqPc := x\<rparr>) = holds2 ceil n as d"
  "holds2 ceil n as (d\<lparr>actualIrqVector := v\<rparr>) = holds2 ceil n as d"
  "holds2 ceil n as (d\<lparr>deferIrq := b\<rparr>) = holds2 ceil n as d"
  by (simp_all add: holds2_def sram_holds_def sram_def pc_bytes_def)

lemma RETI_run:
  assumes "holds2 ceil n (unat a # as) t"
  shows "\<exists>c u. exec H (Plain RETI) t = Inr (c, u) \<and> PC u + 1 = a \<and> sr_I (status u) \<and> holds2 ceil (Suc n) as u"
proof -
  obtain u where u: "PopAddr H t = Inr (unat a, u)" "holds2 ceil (Suc n) as u"
    using sram2.pop_holds [OF assms] by blast
  have "word_of_int (uint a - 1) + 1 = a" by simp
  then show ?thesis using u
    by (simp add: exec_def exec_plain_def avr_op_RETI_def set_PC_def holds2_upd holds2_core)
qed

lemma ucast_pred: "(ucast (x - 1 :: word32) :: word16) + 1 = ucast x"
proof -
  have "uint (x - 1) mod 65536 = (uint x - 1) mod 65536" by (simp add: uint_word_ariths mod_mod_cancel)
  then have "(word_of_int (uint (x - 1)) :: word16) = word_of_int (uint x - 1)"
    by (simp only: word_of_int_eq_iff) (simp add: take_bit_eq_mod)
  then show ?thesis by simp
qed

text \<open>
  C2. A prepared interrupt is entered and left as a call would be: the entry pushes the address
  of the interrupted instruction, disables interrupts, takes four cycles and continues at the
  vector; RETI in any later state with this address on top of the stack returns to the
  interrupted instruction, enables interrupts and restores the stack.
\<close>

theorem interrupt_entry_return:
  assumes "holds2 ceil (Suc n) as d" "actualIrqVector d < vectorTableSize (irq d)"
  shows "(\<exists>t. enter_irq H d = Inr ((), t) \<and> PC t + 1 = ucast (newIrqPc d) \<and> \<not> sr_I (status t) \<and>
      \<not> deferIrq t \<and> cpuCycles t = 4 \<and> holds2 ceil n (unat (PC d) # as) t) \<and>
    (\<forall>t. holds2 ceil n (unat (PC d) # as) t \<longrightarrow>
      (\<exists>c u. exec H (Plain RETI) t = Inr (c, u) \<and> PC u + 1 = PC d \<and> sr_I (status u) \<and> holds2 ceil (Suc n) as u))"
proof (intro conjI allI impI RETI_run)
  let ?v = "actualIrqVector d"
  obtain q where q: "IrqHandlerStarted (sysTime d) ?v (irq d) = Inr ((), q)" "vectorTableSize q = vectorTableSize (irq d)"
    using assms(2) by (simp add: IrqHandlerStarted_def irqTrace_change_def)
  define e where "e = SetReturnPoint (spn d) ?v (d\<lparr>deferIrq := False, irq := q\<rparr>)"
  have "holds2 ceil (Suc n) as e" using assms q(2)
    by (auto simp: e_def SetReturnPoint_def holds2_def sram_holds_def sram_def pc_bytes_def stack_ok_def)
  then obtain t where t: "PushAddr H (unat (PC d)) e = Inr ((), t)" "holds2 ceil n (unat (PC d) # as) t" "stack_frame e t"
    using push_holds2 [of ceil n as e "unat (PC d)" H] unsigned_less [of "PC d", where ?'a = nat] by auto
  have f: "newIrqPc t = newIrqPc d" "\<not> deferIrq t"
    using stack_frameD(8,9) [OF t(3)] by (simp_all add: e_def SetReturnPoint_def)
  let ?t = "t\<lparr>cpuCycles := 4, status := (status t)\<lparr>sr_I := False\<rparr>, PC := ucast (newIrqPc t - 1)\<rparr>"
  have "enter_irq H d = Inr ((), ?t)"
    using q(1) t(1) by (simp add: enter_irq_def e_def SetReturnPoint_def)
  moreover have "holds2 ceil n (unat (PC d) # as) ?t" using t(2) by (simp add: holds2_upd holds2_core)
  ultimately show "\<exists>t. enter_irq H d = Inr ((), t) \<and> PC t + 1 = ucast (newIrqPc d) \<and> \<not> sr_I (status t) \<and>
      \<not> deferIrq t \<and> cpuCycles t = 4 \<and> holds2 ceil n (unat (PC d) # as) t"
    using f ucast_pred [of "newIrqPc d"] by (intro exI [of _ ?t]) simp
qed

theorem interrupt_entry_return_witness:
  "\<forall>H. \<exists>t. enter_irq H (stack_device\<lparr>PC := 0x123, newIrqPc := 6, actualIrqVector := 6, deferIrq := True\<rparr>) = Inr ((), t) \<and>
     PC t + 1 = 6 \<and> \<not> sr_I (status t) \<and> holds2 1024 9 [0x123] t"
proof
  fix H :: "unit hardware"
  let ?d = "stack_device\<lparr>PC := 0x123, newIrqPc := 6, actualIrqVector := 6, deferIrq := True\<rparr>"
  have "holds2 1024 (Suc 9) [] stack_device" by (rule stack_device_holds) simp
  then have "holds2 1024 (Suc 9) [] ?d" by (simp only: holds2_core holds2_upd)
  moreover have "actualIrqVector ?d < vectorTableSize (irq ?d)"
    by (simp add: stack_device_def AvrDevice_def Stack_Reset_def HWIrqSystem_def Let_def)
  ultimately show "\<exists>t. enter_irq H ?d = Inr ((), t) \<and> PC t + 1 = 6 \<and> \<not> sr_I (status t) \<and> holds2 1024 9 [0x123] t"
    using interrupt_entry_return [of 1024 9 "[]" ?d H] by auto
qed

section \<open>Choosing an interrupt\<close>

text \<open>
  C12. Among the pending interrupts the one with the smallest vector number wins: when its source
  is not level triggered, \<open>GetNewPc\<close> clears its flag and returns the word address of its
  vector; with nothing pending it returns \<open>no_irq\<close> and changes nothing.
\<close>

theorem GetNewPc_lowest:
  assumes ok: "irq_ok (irq d)" and k: "map_of (irqPartnerList (irq d)) k = Some p"
    and least: "\<forall>j \<in> dom (map_of (irqPartnerList (irq d))). k \<le> j"
    and edge: "Hardware_IsLevelInterrupt H p k d = Inr (False, d)"
    and clear: "Hardware_ClearIrqFlag H p k d = Inr ((), e)"
  shows "GetNewPc H d = Inr (word_of_nat (k * (bytesPerVector (irq d) div 2)), e\<lparr>actualIrqVector := k\<rparr>) \<and>
    GetNewPc H (d\<lparr>irq := (irq d)\<lparr>irqPartnerList := []\<rparr>\<rparr>) = Inr (no_irq, d\<lparr>irq := (irq d)\<lparr>irqPartnerList := []\<rparr>\<rparr>)"
proof (rule conjI)
  have t: "table_ok (irqPartnerList (irq d))" using ok by (simp add: irq_ok_def)
  have kd: "k \<in> dom (map_of (irqPartnerList (irq d)))" using k by blast
  then obtain j where j: "table_first (irqPartnerList (irq d)) = Some j"
    using irqtab.first_None [OF t] by (cases "table_first (irqPartnerList (irq d))") auto
  then have "j = k" using irqtab.first_Some [OF t j] least kd by (meson le_antisym)
  moreover have "k < vectorTableSize (irq d)" using ok kd by (simp add: irq_ok_def)
  moreover from this have "irq_scan H (vectorTableSize (irq d)) k d = Inr (Some k, e)"
    using k by (subst irq_scan.simps) (simp add: deref_def bnd_Inr [where m = "Hardware_IsLevelInterrupt H p k", OF edge] clear)
  ultimately show "GetNewPc H d = Inr (word_of_nat (k * (bytesPerVector (irq d) div 2)), e\<lparr>actualIrqVector := k\<rparr>)"
    using j by (simp add: GetNewPc_def del: of_nat_mult)
  show "GetNewPc H (d\<lparr>irq := (irq d)\<lparr>irqPartnerList := []\<rparr>\<rparr>) = Inr (no_irq, d\<lparr>irq := (irq d)\<lparr>irqPartnerList := []\<rparr>\<rparr>)"
    by (simp add: GetNewPc_def table_first_def)
qed

text \<open>A device with an EEPROM whose interrupt and a later one are pending.\<close>

definition eeprom_device :: "eeprom avr_device" where
  "eeprom_device = AvrDevice
     \<lparr>flags = default_flags, ioSpaceSize = 64, iRamSize = 512, eRamSize = 0, clockFreq = 250, abortOnInvalidAccess = False\<rparr>
     (new_flash 0) (HWStackSram 1024 True)
     ((HWIrqSystem 2 16)\<lparr>irqPartnerList := [(3, HwOther 0), (7, HwWado)]\<rparr>) (HWEeprom 512 3 True DEVMODE_NORMAL)"

lemma eeprom_device_simps:
  "irq eeprom_device = (HWIrqSystem 2 16)\<lparr>irqPartnerList := [(3, HwOther 0), (7, HwWado)]\<rparr>"
  "hw eeprom_device = HWEeprom 512 3 True DEVMODE_NORMAL" "hwCycleList eeprom_device = []" "sysTime eeprom_device = 0"
  by (simp_all add: eeprom_device_def AvrDevice_def Stack_Reset_def Let_def)

theorem GetNewPc_lowest_witness:
  "\<exists>e. GetNewPc eeprom_hardware eeprom_device = Inr (3, e\<lparr>actualIrqVector := 3\<rparr>)"
proof -
  let ?d = eeprom_device
  have ok: "irq_ok (irq ?d)" "map_of (irqPartnerList (irq ?d)) 3 = Some (HwOther 0)"
    "\<forall>j \<in> dom (map_of (irqPartnerList (irq ?d))). 3 \<le> j"
    by (auto simp: eeprom_device_simps irq_ok_def table_ok_def HWIrqSystem_def)
  moreover have "Hardware_IsLevelInterrupt eeprom_hardware (HwOther 0) 3 ?d = Inr (False, ?d)"
    by (simp add: Hardware_IsLevelInterrupt_def eeprom_hardware_def)
  moreover have "Hardware_ClearIrqFlag eeprom_hardware (HwOther 0) 3 ?d =
      Inr ((), ?d\<lparr>irq := snd (projr (ClearIrqFlag 0 3 (irq ?d)))\<rparr>)"
    by (simp add: Hardware_ClearIrqFlag_def eeprom_hardware_def eeprom_device_simps HWEeprom_def Eeprom_Reset_def
        zoom_def ClearIrqFlag_def)
  ultimately show ?thesis
    using GetNewPc_lowest [of ?d 3 "HwOther 0" eeprom_hardware "?d\<lparr>irq := snd (projr (ClearIrqFlag 0 3 (irq ?d)))\<rparr>"]
    by (auto simp: eeprom_device_simps HWIrqSystem_def)
qed

section \<open>Instructions that disable interrupts\<close>

lemma SREG_address:
  assumes "op AND 0xb800 = 0xb800" "(drop_bit 5 op AND 0x0030) OR (op AND 0x000f) = (0x3f :: word16)"
  shows "op AND NOT mask_Rd_5 = 0xbe0f \<or> op AND NOT mask_Rd_5 = 0xfe0f"
proof (cases "bit op 14")
  case True
  then show ?thesis using assms by (auto simp: word16_eq_iff_bits bit_simps)
next
  case False
  then show ?thesis using assms by (auto simp: word16_eq_iff_bits bit_simps)
qed

lemma lookup_fe0f: "op AND NOT mask_Rd_5 = 0xfe0f \<Longrightarrow> lookup_opcode c op = Plain ILLEGAL"
  by (frule masked_neq, simp add: lookup_eval cong: orelse_cong)

text \<open>The opcodes that write SREG.\<close>

lemma lookup_OUT_SREG:
  assumes "lookup_opcode c op = IOR OUT r 63"
  shows "op AND 0xb800 = 0xb800" "(drop_bit 5 op AND 0x0030) OR (op AND 0x000f) = 0x3f"
proof -
  have "op = encode (IOR OUT r 63)" using encode_lookup [of c op] assms by simp
  then have op: "op = 0xb800 OR 0x060f OR enc_rd_5 r" by (simp add: enc_A_6_def)
  show "op AND 0xb800 = 0xb800" unfolding op by (simp add: word16_eq_iff_bits bit_simps)
  show "(drop_bit 5 op AND 0x0030) OR (op AND 0x000f) = 0x3f" unfolding op by (simp add: word16_eq_iff_bits bit_simps)
qed

lemma lookup_SREG_OUT:
  assumes "op AND NOT mask_Rd_5 = 0xbe0f"
  shows "lookup_opcode c op = IOR OUT (unat (drop_bit 4 op AND 0x001f)) 63"
proof -
  have "op AND NOT (mask_A_6 OR mask_Rd_5) = base_io OUT" "op AND mask_A_6 = 0x060f"
    using assms by (simp_all add: word16_eq_iff_bits bit_simps)
  then have "lookup_opcode c op = IOR OUT (get_rd_5 op) 63"
    using lookup_IOR [of op OUT c] by (simp add: get_A_6_or)
  moreover have "drop_bit 4 (op AND mask_Rd_5) AND 0x1f = drop_bit 4 op AND 0x1f"
    by (simp add: word16_eq_iff_bits bit_simps)
  ultimately show ?thesis by (simp add: get_rd_5_def)
qed

text \<open>
  The check that delays an interrupt before an instruction which disables interrupts is
  exact for every legal opcode on a device whose status register is at I/O address 0x3f alone:
  it holds for CLI and for OUT to SREG from a register whose bit 7 is clear, and for nothing
  else, although its mask 0xb800 also matches opcodes from 0xf800 on. It changes nothing.
\<close>

theorem opIsCli_exact:
  assumes "regs_ok d" "\<forall>a < 64. rw d (32 + a) = RWSregCell \<longleftrightarrow> a = 63" "lookup_opcode c op \<noteq> Plain ILLEGAL"
  shows "opIsCli H op d = Inr (op = 0x94f8 \<or>
    (\<exists>r < 32. lookup_opcode c op = IOR OUT r 63 \<and> \<not> bit (reg d r) 7), d)"
proof -
  let ?a = "(drop_bit 5 op AND 0x0030) OR (op AND 0x000f)"
  let ?r = "unat (drop_bit 4 op AND 0x001f)"
  consider "op = 0x94f8" | "op AND 0xb800 \<noteq> 0xb800" "op \<noteq> 0x94f8"
    | "op AND 0xb800 = 0xb800" "op \<noteq> 0x94f8" "?a \<noteq> 0x3f" | "op AND 0xb800 = 0xb800" "op \<noteq> 0x94f8" "?a = 0x3f"
    by blast
  then show ?thesis
  proof cases
    case 1
    then show ?thesis by (simp add: opIsCli_def)
  next
    case 2
    then show ?thesis using lookup_OUT_SREG(1) [of c op] by (auto simp: opIsCli_def)
  next
    case 3
    have "unat ?a < 2 ^ 6" by (rule unat_less_by_bits) (simp add: bit_simps upt_rec)
    moreover have "unat ?a \<noteq> 63" using 3(3) word_unat_eq_iff [of ?a "0x3f"] by simp
    ultimately have "rw d (registerSpaceSize + unat ?a) \<noteq> RWSregCell"
      using assms(2) by (simp add: registerSpaceSize_def)
    then show ?thesis using 3 lookup_OUT_SREG(2) [of c op] by (auto simp: opIsCli_def Let_def)
  next
    case 4
    then have "op AND NOT mask_Rd_5 = 0xbe0f" using SREG_address lookup_fe0f assms(3) by blast
    from lookup_SREG_OUT [OF this] have l: "lookup_opcode c op = IOR OUT ?r 63" .
    have "?r < 2 ^ 5" by (rule unat_less_by_bits) (simp add: bit_simps upt_rec)
    moreover have "rw d 95 = RWSregCell" using assms(2) [rule_format, of 63] by simp
    then have "rw d (registerSpaceSize + unat ?a) = RWSregCell" using 4(3) by (simp add: registerSpaceSize_def)
    moreover have "(reg d ?r AND 0x80 = 0) = (\<not> bit (reg d ?r) 7)" by (simp add: and_80)
    ultimately show ?thesis using 4 l assms(1) by (auto simp: opIsCli_def Let_def)
  qed
qed

theorem opIsCli_exact_witness:
  "\<forall>H. opIsCli H 0xbf0f (set_reg 16 0 (stack_device\<lparr>rw := (rw stack_device)(95 := RWSregCell)\<rparr>)) =
     Inr (True, set_reg 16 0 (stack_device\<lparr>rw := (rw stack_device)(95 := RWSregCell)\<rparr>))"
proof
  fix H :: "unit hardware"
  let ?d = "set_reg 16 0 (stack_device\<lparr>rw := (rw stack_device)(95 := RWSregCell)\<rparr>)"
  have l: "lookup_opcode default_flags 0xbf0f = IOR OUT 16 63"
    using lookup_SREG_OUT [of "0xbf0f" default_flags] by simp
  have "regs_ok ?d" using stack_device_regs by (auto simp: regs_ok_def)
  moreover have "\<forall>a < 64. rw ?d (32 + a) = RWSregCell \<longleftrightarrow> a = 63"
    by (auto simp: stack_device_def AvrDevice_def Stack_Reset_def init_rw_def registerSpaceSize_def Let_def)
  ultimately show "opIsCli H 0xbf0f ?d = Inr (True, ?d)"
    using opIsCli_exact [of ?d default_flags "0xbf0f" H] l by auto
qed

section \<open>Clock cycles\<close>

lemma clock_parts_none: "hwCycleList d = [] \<Longrightarrow> clock_parts H d = Inr (False, d)"
  by (simp add: clock_parts_def)

lemma bnd_clock_parts_none: "hwCycleList d = [] \<Longrightarrow> bnd (clock_parts H) f d = f False d"
  by (intro bnd_Inr clock_parts_none)

text \<open>A device without clocked parts that is about to execute the instruction at \<open>PC\<close>.\<close>

definition ready :: "'h avr_device \<Rightarrow> bool" where
  "ready d \<longleftrightarrow> hwCycleList d = [] \<and> cpuCycles d \<le> 0 \<and> unat (PC d) \<notin> set (BP d) \<and> unat (PC d) \<notin> set (EP d) \<and>
     \<not> (deferIrq d \<and> newIrqPc d \<noteq> no_irq) \<and> \<not> sr_I (status d)"

lemma Step_ready:
  assumes "ready d"
  shows "AvrDevice_Step H d = sq (execute H) (sq (modify (\<lambda>d. d\<lparr>PC := PC d + 1, cpuCycles := cpuCycles d - 1\<rparr>)) (Step_end False))
    (d\<lparr>cPC := PC d\<rparr>)"
  using assms by (auto simp: AvrDevice_Step_def ready_def core_step_def prepare_irq_def bnd_clock_parts_none)

text \<open>
  C4. One clock cycle of a core without clocked parts, branch by branch: a wait state counts
  down and nothing else; a breakpoint stops before the instruction and a termination point
  requests the end of the simulation, both without executing; a program counter behind the end
  of the flash is an error; otherwise the instruction that the flash word at \<open>PC\<close> encodes is
  executed, \<open>PC\<close> advances by one from where the instruction left it, and the cycle count of the
  instruction, less this cycle, remains; an error of the instruction is the error of the step.
\<close>

theorem Step_branches:
  fixes H :: "'h hardware" and d :: "'h avr_device"
  assumes "hwCycleList d = []"
  defines "i \<equiv> lookup_opcode (flags (conf d)) (word_at (myMemory (flash d)) (2 * unat (PC d)))"
  shows "(0 < cpuCycles d \<longrightarrow> AvrDevice_Step H d =
      Inr (\<lparr>finished = Some (cpuCycles d \<le> 1), nextIn = Some (clockFreq (conf d)), result = 0\<rparr>,
        d\<lparr>cpuCycles := cpuCycles d - 1\<rparr>)) \<and>
    (cpuCycles d \<le> 0 \<and> unat (PC d) \<in> set (BP d) \<longrightarrow> AvrDevice_Step H d =
      Inr (\<lparr>finished = Some True, nextIn = Some (clockFreq (conf d)), result = BREAK_POINT\<rparr>, d\<lparr>cPC := PC d\<rparr>)) \<and>
    (cpuCycles d \<le> 0 \<and> unat (PC d) \<in> set (EP d) - set (BP d) \<longrightarrow> AvrDevice_Step H d =
      Inr (\<lparr>finished = None, nextIn = None, result = 0\<rparr>, d\<lparr>cPC := PC d, stopRequested := True\<rparr>)) \<and>
    (ready d \<and> flash_size (flash d) \<le> 2 * unat (PC d) \<longrightarrow> AvrDevice_Step H d = Inl OutOfFlash) \<and>
    (ready d \<and> flash_ok (flags (conf d)) (flash d) \<and> 2 * unat (PC d) + 1 < flash_size (flash d) \<and>
       rww_lock (flash d) \<le> 2 * unat (PC d) \<longrightarrow>
       (\<forall>n e. exec H i (d\<lparr>cPC := PC d\<rparr>) = Inr (n, e) \<longrightarrow> AvrDevice_Step H d =
          Inr (\<lparr>finished = Some (n \<le> 1), nextIn = Some (clockFreq (conf e)), result = (if n < 1 then n - 1 else 0)\<rparr>,
            e\<lparr>cpuCycles := n - 1, PC := PC e + 1\<rparr>)) \<and>
       (\<forall>x. exec H i (d\<lparr>cPC := PC d\<rparr>) = Inl x \<longrightarrow> AvrDevice_Step H d = Inl x))"
proof (intro conjI impI allI)
  show "AvrDevice_Step H d = Inr (\<lparr>finished = Some (cpuCycles d \<le> 1), nextIn = Some (clockFreq (conf d)), result = 0\<rparr>,
        d\<lparr>cpuCycles := cpuCycles d - 1\<rparr>)" if "0 < cpuCycles d"
    using that assms(1) by (auto simp: AvrDevice_Step_def bnd_clock_parts_none Step_end_def)
  show "AvrDevice_Step H d = Inr (\<lparr>finished = Some True, nextIn = Some (clockFreq (conf d)), result = BREAK_POINT\<rparr>, d\<lparr>cPC := PC d\<rparr>)"
    if "cpuCycles d \<le> 0 \<and> unat (PC d) \<in> set (BP d)"
    using that assms(1) by (simp add: AvrDevice_Step_def bnd_clock_parts_none)
  show "AvrDevice_Step H d = Inr (\<lparr>finished = None, nextIn = None, result = 0\<rparr>, d\<lparr>cPC := PC d, stopRequested := True\<rparr>)"
    if "cpuCycles d \<le> 0 \<and> unat (PC d) \<in> set (EP d) - set (BP d)"
    using that assms(1) by (simp add: AvrDevice_Step_def bnd_clock_parts_none)
  show "AvrDevice_Step H d = Inl OutOfFlash" if "ready d \<and> flash_size (flash d) \<le> 2 * unat (PC d)"
    using that by (simp add: Step_ready execute_def mult.commute)
  assume r: "ready d \<and> flash_ok (flags (conf d)) (flash d) \<and> 2 * unat (PC d) + 1 < flash_size (flash d) \<and>
       rww_lock (flash d) \<le> 2 * unat (PC d)"
  then have g: "GetInstruction (unat (PC d)) (flash d) = Inr i" "\<not> flash_size (flash d) \<le> unat (PC d) * 2"
    using GetInstruction_eq [of "flags (conf d)" "flash d" "unat (PC d)"] by (simp_all add: i_def)
  show "AvrDevice_Step H d = Inr (\<lparr>finished = Some (n \<le> 1), nextIn = Some (clockFreq (conf e)), result = (if n < 1 then n - 1 else 0)\<rparr>,
            e\<lparr>cpuCycles := n - 1, PC := PC e + 1\<rparr>)" if "exec H i (d\<lparr>cPC := PC d\<rparr>) = Inr (n, e)" for n e
    using that r g by (auto simp: Step_ready execute_def Step_end_def)
  show "AvrDevice_Step H d = Inl x" if "exec H i (d\<lparr>cPC := PC d\<rparr>) = Inl x" for x
    using that r g by (simp add: Step_ready execute_def)
qed

theorem Step_branches_witness:
  "\<forall>H. AvrDevice_Step H (stack_device\<lparr>cpuCycles := 3\<rparr>) =
       Inr (\<lparr>finished = Some False, nextIn = Some 250, result = 0\<rparr>, stack_device\<lparr>cpuCycles := 2\<rparr>) \<and>
     AvrDevice_Step H (stack_device\<lparr>PC := 4096\<rparr>) = Inl OutOfFlash"
proof
  fix H :: "unit hardware"
  have s: "hwCycleList stack_device = []" "BP stack_device = []" "EP stack_device = []" "cpuCycles stack_device = 0"
    "\<not> deferIrq stack_device" "clockFreq (conf stack_device) = 250"
    by (simp_all add: stack_device_def AvrDevice_def Stack_Reset_def Let_def)
  have "\<not> sr_I (sreg_of_int 0)" by (simp add: sreg_of_int_def)
  with s have "ready (stack_device\<lparr>PC := 4096\<rparr>)" by (simp add: ready_def)
  moreover have "flash_size (flash (stack_device\<lparr>PC := 4096\<rparr>)) \<le> 2 * unat (4096 :: word16)"
    by (simp add: stack_device_simps new_flash_def)
  ultimately show "AvrDevice_Step H (stack_device\<lparr>cpuCycles := 3\<rparr>) =
       Inr (\<lparr>finished = Some False, nextIn = Some 250, result = 0\<rparr>, stack_device\<lparr>cpuCycles := 2\<rparr>) \<and>
     AvrDevice_Step H (stack_device\<lparr>PC := 4096\<rparr>) = Inl OutOfFlash"
    using Step_branches [of "stack_device\<lparr>cpuCycles := 3\<rparr>" H] Step_branches [of "stack_device\<lparr>PC := 4096\<rparr>" H] s by simp
qed

primrec steps :: "'h hardware \<Rightarrow> nat \<Rightarrow> ('h avr_device, unit) sim" where
  "steps H 0 = ret ()"
| "steps H (Suc n) = sq (AvrDevice_Step H) (steps H n)"

lemma steps_wait:
  "hwCycleList d = [] \<Longrightarrow> cpuCycles d = int n \<Longrightarrow> steps H n d = Inr ((), d\<lparr>cpuCycles := 0\<rparr>)"
proof (induction n arbitrary: d)
  case (Suc n)
  then show ?case by (simp add: AvrDevice_Step_def bnd_clock_parts_none Step_end_def)
qed simp

text \<open>
  An instruction takes as many clock cycles as its operation says: after that many steps of
  a core without clocked parts its effects have happened, the program counter points behind it
  and the core is about to execute the next instruction.
\<close>

theorem instruction_timing:
  assumes "ready d" "GetInstruction (unat (PC d)) (flash d) = Inr i" "2 * unat (PC d) < flash_size (flash d)"
    and "exec H i (d\<lparr>cPC := PC d\<rparr>) = Inr (int (Suc n), e)" "hwCycleList e = []"
  shows "steps H (Suc n) d = Inr ((), e\<lparr>PC := PC e + 1, cpuCycles := 0\<rparr>)"
proof -
  let ?e = "e\<lparr>cpuCycles := int n, PC := PC e + 1\<rparr>"
  have "\<exists>r. AvrDevice_Step H d = Inr (r, ?e)"
    using assms by (simp add: Step_ready execute_def Step_end_def mult.commute not_le)
  then show ?thesis using steps_wait [of ?e n H] assms(5) by auto
qed

lemma stack_device_ready:
  "ready (stack_device\<lparr>PC := p, flash := f\<rparr>)" "hwCycleList stack_device = []"
proof -
  have s: "hwCycleList stack_device = []" "BP stack_device = []" "EP stack_device = []" "cpuCycles stack_device = 0"
    "\<not> deferIrq stack_device"
    by (simp_all add: stack_device_def AvrDevice_def Stack_Reset_def Let_def)
  moreover have "\<not> sr_I (sreg_of_int 0)" by (simp add: sreg_of_int_def)
  ultimately show "ready (stack_device\<lparr>PC := p, flash := f\<rparr>)" "hwCycleList stack_device = []" by (simp_all add: ready_def)
qed

theorem instruction_timing_witness:
  "\<forall>H. \<exists>f f' e. AvrFlash default_flags 8 = Inr f \<and> WriteMem default_flags [0x00, 0xc0] 0 2 f = Inr ((), f') \<and>
     steps H 2 (stack_device\<lparr>PC := 0, flash := f'\<rparr>) = Inr ((), e) \<and> PC e = 1 \<and> cpuCycles e = 0"
proof
  fix H :: "unit hardware"
  obtain f where f: "AvrFlash default_flags 8 = Inr f" "flash_ok default_flags f" "myMemory f = replicate 8 0xff"
    "rww_lock f = 0" using AvrFlash_unlocked [of 8 default_flags] by auto
  obtain f' where f': "WriteMem default_flags [0x00, 0xc0] 0 2 f = Inr ((), f')" "flash_ok default_flags f'"
    "flash_size f' = 8" "rww_lock f' = 0" "myMemory f' ! 0 = 0xc0" "myMemory f' ! 1 = 0"
    using WriteMem_run [OF f(2), of 0 2 "[0x00, 0xc0]"] f(3,4) by (auto simp: swapped_def)
  have "lookup_opcode default_flags 0xc000 = K12 RJMP 0" by code_simp
  then have g: "GetInstruction 0 f' = Inr (K12 RJMP 0)"
    using GetInstruction_eq [OF f'(2), of 0] f' by (simp add: word_at_def)
  let ?d = "stack_device\<lparr>PC := 0, flash := f'\<rparr>"
  obtain e where e: "exec H (K12 RJMP 0) (?d\<lparr>cPC := PC ?d\<rparr>) = Inr (2, e)" "PC e = 0" "hwCycleList e = []"
    using stack_device_ready(2)
    by (auto simp: exec_def avr_op_RJMP_def DebugOnJump_def jump_relative_def add_PC_def Let_def)
  then have "steps H (Suc 1) ?d = Inr ((), e\<lparr>PC := PC e + 1, cpuCycles := 0\<rparr>)"
    using stack_device_ready(1) g f'(3) by (intro instruction_timing [where i = "K12 RJMP 0"]) simp_all
  then show "\<exists>f f' e. AvrFlash default_flags 8 = Inr f \<and> WriteMem default_flags [0x00, 0xc0] 0 2 f = Inr ((), f') \<and>
     steps H 2 (stack_device\<lparr>PC := 0, flash := f'\<rparr>) = Inr ((), e) \<and> PC e = 1 \<and> cpuCycles e = 0"
    using f(1) f'(1) e(2) by (intro exI [of _ f] exI [of _ f'] exI [of _ "e\<lparr>PC := PC e + 1, cpuCycles := 0\<rparr>"])
      (simp add: numeral_2_eq_2)
qed

section \<open>Clocking the parts\<close>

text \<open>
  What the loop over the clocked parts relies on: a part neither adds clocked parts while it is
  clocked nor runs out of the bound of a loop of its own. Then the bound chosen in \<open>clock_parts\<close>
  is enough, whatever the parts do to the device.
\<close>

locale clocked_parts =
  fixes H :: "'h hardware"
  assumes no_growth: "Hardware_CpuCycle H p d = Inr (r, e) \<Longrightarrow> length (hwCycleList e) \<le> length (hwCycleList d)"
    and no_bound: "Hardware_CpuCycle H p d \<noteq> Inl LoopBound"
begin

lemma cycle_loop_ends:
  "length (hwCycleList d) - i < fuel \<Longrightarrow> cycle_loop H fuel i w d \<noteq> Inl LoopBound"
proof (induction fuel arbitrary: i w d)
  case (Suc fuel)
  show ?case
  proof (cases "i < length (hwCycleList d)")
    case True
    show ?thesis
    proof (cases "Hardware_CpuCycle H (hwCycleList d ! i) d")
      case (Inl x)
      then show ?thesis using True no_bound [of "hwCycleList d ! i" d] by simp
    next
      case (Inr re)
      obtain r e where re: "Hardware_CpuCycle H (hwCycleList d ! i) d = Inr (r, e)" using Inr by (cases re) auto
      then have "length (hwCycleList e) - (i + 1) < fuel" using no_growth [OF re] Suc.prems True by linarith
      then show ?thesis using True re Suc.IH by simp
    qed
  qed simp
qed simp

lemma clock_parts_ends: "clock_parts H d \<noteq> Inl LoopBound"
  using cycle_loop_ends [of d 0 "length (hwResetList d) + length (hwCycleList d) + 1" False]
  by (simp add: clock_parts_def del: cycle_loop.simps)

end

text \<open>Computations without a bounded loop of their own.\<close>

definition no_loop :: "('s, 'a) sim \<Rightarrow> bool" where
  "no_loop m \<longleftrightarrow> (\<forall>s. m s \<noteq> Inl LoopBound)"

named_theorems no_loop_intros \<open>computations that never run out of fuel\<close>

lemma no_loop_bnd [no_loop_intros]: "no_loop m \<Longrightarrow> (\<And>x. no_loop (f x)) \<Longrightarrow> no_loop (bnd m f)"
  by (auto simp: no_loop_def bnd_def split: sum.splits)

lemma no_loop_sq [no_loop_intros]: "no_loop m \<Longrightarrow> no_loop n \<Longrightarrow> no_loop (sq m n)"
  by (simp add: sq_def no_loop_bnd)

lemma no_loop_zoom [no_loop_intros]: "no_loop m \<Longrightarrow> no_loop (zoom g p m)"
  by (auto simp: no_loop_def zoom_def split: sum.splits)

lemma no_loop_basic [no_loop_intros]:
  "no_loop (ret x)" "no_loop (gets g)" "no_loop (modify f)" "no_loop (assertM b)" "e \<noteq> LoopBound \<Longrightarrow> no_loop (fail e)"
  "no_loop m \<Longrightarrow> no_loop (whenM b m)" "no_loop (deref y)"
  "no_loop m \<Longrightarrow> no_loop n \<Longrightarrow> no_loop (if b then m else n)"
  "(\<And>a b. no_loop (h a b)) \<Longrightarrow> no_loop (case z of (a, b) \<Rightarrow> h a b)"
  by (auto simp: no_loop_def deref_def split: option.splits prod.splits)

lemma no_loop_forS [no_loop_intros]: "(\<And>x. no_loop (f x)) \<Longrightarrow> no_loop (forS f xs)"
  by (induction xs) (simp_all add: no_loop_intros)

lemma Reset_lists:
  assumes "\<And>n d e. hw_Reset H n d = Inr ((), e) \<Longrightarrow> hwCycleList e = hwCycleList d"
    and "Reset H d = Inr (x, e)"
  shows "hwCycleList e = hwCycleList d"
proof -
  have p: "hwCycleList e = hwCycleList d" if "Hardware_Reset H p d = Inr (x, e)" for p d x and e
    using that assms(1) by (cases p) (auto simp: Hardware_Reset_def set_cell_def split: rwcell.splits)
  have l: "hwCycleList e = hwCycleList d" if "forS (Hardware_Reset H) ps d = Inr (x, e)" for ps d x e
    using that
  proof (induction ps arbitrary: d)
    case (Cons p ps)
    then show ?case using p by (auto elim!: sq_eq_InrE)
  qed simp
  from assms(2) show ?thesis unfolding Reset_def by (auto elim!: sq_eq_InrE dest!: l)
qed

lemma no_loop_Reset:
  assumes "\<And>n. no_loop (hw_Reset H n)"
  shows "no_loop (Reset H)"
proof -
  have "no_loop (Hardware_Reset H p)" for p
    using assms by (cases p) (auto simp: Hardware_Reset_def set_cell_def intro!: no_loop_intros split: rwcell.splits)
  then show ?thesis unfolding Reset_def by (intro no_loop_intros)
qed

text \<open>The EEPROM asks for cycles only when its control register is written.\<close>

lemma zoom_run:
  assumes "zoom g p m s = Inr (x, t)"
  obtains u where "m (g s) = Inr (x, u)" "t = p u s"
  using assms by (auto simp: zoom_def split: sum.splits)

lemma serve_lists:
  assumes "serve q d = Inr (x, e)" "\<not> req_add q"
  shows "length (hwCycleList e) \<le> length (hwCycleList d)"
  using assms by (auto simp: serve_def RemoveFromCycleList_def length_remove1 split: if_splits
      elim!: sq_eq_InrE bnd_eq_InrE zoom_run)

lemma Eeprom_CpuCycle_no_add: "Eeprom_CpuCycle now e = Inr ((r, q), e') \<Longrightarrow> \<not> req_add q"
  by (auto simp: Eeprom_CpuCycle_def split: if_splits elim!: sq_eq_InrE bnd_eq_InrE)

interpretation eeclock: clocked_parts eeprom_hardware
proof
  fix p d r e
  assume run: "Hardware_CpuCycle eeprom_hardware p d = Inr (r, e)"
  have reset: "Reset eeprom_hardware a = Inr (x, b) \<Longrightarrow> hwCycleList b = hwCycleList a" for a x b
    by (rule Reset_lists) (auto simp: eeprom_hardware_def)
  show "length (hwCycleList e) \<le> length (hwCycleList d)"
  proof (cases p)
    case HwWado
    then show ?thesis using run
      by (auto simp: Hardware_CpuCycle_def deref_def Let_def split: option.splits prod.splits if_splits
          elim!: bnd_eq_InrE sq_eq_InrE dest!: reset)
  next
    case HwSpm
    then show ?thesis using run
      by (auto simp: Hardware_CpuCycle_def deref_def Let_def split: option.splits prod.splits elim!: bnd_eq_InrE sq_eq_InrE)
  next
    case (HwOther n)
    then show ?thesis using run
      by (auto simp: Hardware_CpuCycle_def eeprom_hardware_def elim!: bnd_eq_InrE sq_eq_InrE zoom_run
          dest!: serve_lists Eeprom_CpuCycle_no_add)
  qed (use run in \<open>simp_all add: Hardware_CpuCycle_def\<close>)
next
  fix p d
  have "no_loop (Hardware_CpuCycle eeprom_hardware p)"
  proof (cases p)
    case HwWado
    have "no_loop (Reset eeprom_hardware)" by (rule no_loop_Reset) (simp add: eeprom_hardware_def no_loop_intros)
    then show ?thesis by (auto simp: HwWado Hardware_CpuCycle_def Let_def intro!: no_loop_intros)
  next
    case (HwOther n)
    then show ?thesis
      by (auto simp: Hardware_CpuCycle_def eeprom_hardware_def Eeprom_CpuCycle_def ee_finish_write_def serve_def
          SetIrqFlag_def intro!: no_loop_intros)
  qed (auto simp: Hardware_CpuCycle_def Let_def intro!: no_loop_intros)
  then show "Hardware_CpuCycle eeprom_hardware p d \<noteq> Inl LoopBound" by (simp add: no_loop_def)
qed

text \<open>
  Clocking the parts of a device with an EEPROM always ends within the bound of the model,
  from every state: a part never extends the list while it is clocked.
\<close>

theorem clock_parts_returns: "clock_parts eeprom_hardware d \<noteq> Inl LoopBound"
  by (rule eeclock.clock_parts_ends)

section \<open>Reachable states\<close>

text \<open>
  The runs of a device: clock cycles of the core that end without an error, and the system clock
  moving on between them.
\<close>

inductive reachable :: "'h hardware \<Rightarrow> 'h avr_device \<Rightarrow> 'h avr_device \<Rightarrow> bool"
  for H :: "'h hardware" and start :: "'h avr_device" where
  init: "reachable H start start"
| cycle: "reachable H start d \<Longrightarrow> AvrDevice_Step H d = Inr (r, e) \<Longrightarrow> reachable H start e"
| time: "reachable H start d \<Longrightarrow> sysTime d \<le> now \<Longrightarrow> reachable H start (d\<lparr>sysTime := now\<rparr>)"
| reset: "reachable H start d \<Longrightarrow> Reset H d = Inr (x, e) \<Longrightarrow> reachable H start e"

lemma reachable_dev_ok:
  assumes "peripherals H N" "dev_ok N start" "reachable H start d"
  shows "dev_ok N d"
  using assms(3)
proof (induction rule: reachable.induct)
  case init
  show ?case by (rule assms(2))
next
  case (cycle d r e)
  then show ?case using keepsD [OF peripherals.keeps_Step [OF assms(1)]] by blast
next
  case (time d now)
  then show ?case by simp
next
  case (reset d x e)
  then show ?case using keepsD [OF peripherals.keeps_Reset [OF assms(1)]] by blast
qed

text \<open>
  C1. In every state that a device can reach by clock cycles, resets and the passing of time,
  with peripherals that keep the contract, the registers are RAM, the pending interrupts are
  ordered and within the vector table, a prepared interrupt has a valid vector, and fetching any
  unlocked word of the flash gives the instruction that this word encodes, also after the
  program has rewritten its own flash.
\<close>

theorem reachable_invariant:
  assumes "peripherals H N" "dev_ok N start" "reachable H start d"
  shows "regs_ok d \<and> irq_ok (irq d) \<and> (deferIrq d \<and> newIrqPc d \<noteq> no_irq \<longrightarrow> actualIrqVector d < N) \<and>
    (\<forall>pc. 2 * pc + 1 < flash_size (flash d) \<and> rww_lock (flash d) \<le> 2 * pc \<longrightarrow>
      GetInstruction pc (flash d) = Inr (lookup_opcode (flags (conf d)) (word_at (myMemory (flash d)) (2 * pc))))"
proof -
  have "dev_ok N d" using assms by (rule reachable_dev_ok)
  then show ?thesis using GetInstruction_eq [of "flags (conf d)" "flash d"] by (auto simp: dev_ok_def)
qed

theorem reachable_invariant_witness:
  "regs_ok (eeprom_device\<lparr>sysTime := 7\<rparr>) \<and> irq_ok (irq (eeprom_device\<lparr>sysTime := 7\<rparr>))"
proof -
  have per: "peripherals eeprom_hardware 16" by (rule eedev.peripherals_axioms)
  have "sysTime eeprom_device \<le> 7" by (simp add: eeprom_device_simps)
  then have "reachable eeprom_hardware eeprom_device (eeprom_device\<lparr>sysTime := 7\<rparr>)"
    by (intro reachable.time reachable.init)
  moreover have "dev_ok 16 eeprom_device"
    by (auto simp: dev_ok_def eeprom_device_def AvrDevice_def Stack_Reset_def regs_ok_def init_rw_def registerSpaceSize_def
        flash_ok_def flash_wf_def new_flash_def irq_ok_def table_ok_def HWIrqSystem_def stack_ok_def ThreadList_def Let_def)
  ultimately show ?thesis using reachable_invariant [OF per] by blast
qed

section \<open>Deviations\<close>

text \<open>
  Writing the watchdog control register never has an effect: the comparisons of the masked
  bits 0x08 and 0x10 with 1 fail for every value, so that the register keeps its value, the
  enable counter is not started, and a watchdog that is off after reset stays off and never
  resets the device.
\<close>

theorem wdtcr_write_ignored:
  "SetWdtcr val w = w \<and> (wdtcr (Wado_Reset w) = 0) \<and> snd (Wado_tick now (Wado_Reset w)) = False \<and>
   wdtcr (fst (Wado_tick now (Wado_Reset w))) = 0"
proof -
  have "x AND 0x08 \<noteq> 1" "x AND 0x10 \<noteq> 1" for x :: byte
    by (auto simp: bit_simps dest!: arg_cong [where f = "\<lambda>w. bit w 0"])
  then show ?thesis by (simp add: SetWdtcr_def Wado_Reset_def Wado_tick_def Let_def)
qed

text \<open>
  EIJMP continues one word behind the address in EIND:Z: it stores the target itself where
  IJMP stores the target minus one, and \<open>Step\<close> adds one to both.
\<close>

theorem eijmp_off_by_one:
  assumes "regs_ok d" "eind d = Some e"
  shows "(\<exists>t. exec H (Plain EIJMP) d = Inr (2, t) \<and> PC t + 1 = pair d 30 + 1) \<and>
    (\<exists>t. exec H (Plain IJMP) d = Inr (2, t) \<and> PC t + 1 = pair d 30)"
proof -
  have z: "(65536 :: word16) = 0" by simp
  have m: "x * (65536 :: word16) = 0" for x unfolding z by simp
  show ?thesis using assms m
    by (simp add: exec_def exec_plain_def avr_op_EIJMP_def avr_op_IJMP_def DebugOnJump_def set_PC_def GetRegZ_def
        deref_def Let_def regs_ok_def pair_def reg_def)
qed

theorem eijmp_off_by_one_witness:
  "\<forall>H. \<exists>t. exec H (Plain EIJMP) (stack_device\<lparr>eind := Some (AddressExtensionRegister 1)\<rparr>) = Inr (2, t) \<and> PC t = 0xaaaa"
proof
  fix H :: "unit hardware"
  let ?d = "stack_device\<lparr>eind := Some (AddressExtensionRegister 1)\<rparr>"
  have "regs_ok ?d" using stack_device_regs by (simp add: regs_ok_def)
  moreover have "pair ?d 30 = 0xaaaa"
  proof (rule pair_eqI [OF refl refl])
    have "reg ?d 31 = reg stack_device 31" "reg ?d 30 = reg stack_device 30" by (simp_all add: reg_def)
    then show "uint (0xaaaa :: word16) = uint (reg ?d (30 + 1)) * 256 + uint (reg ?d 30)" by simp
  qed
  ultimately show "\<exists>t. exec H (Plain EIJMP) ?d = Inr (2, t) \<and> PC t = 0xaaaa"
    using eijmp_off_by_one [of ?d "AddressExtensionRegister 1" H] by auto
qed

end
