(* ===== verification/Avr_TimerIrq.thy ===== *)
theory Avr_TimerIrq
  imports Avr_Irq
begin

text \<open>
  The parts that timers share: \<open>IOSpecialReg\<close> of \<^verbatim>\<open>src/src/rwmem.cpp\<close> (a register with several
  clients), and in \<^verbatim>\<open>src/src/hwtimer\<close> the prescalers (\<^verbatim>\<open>timerprescaler.cpp\<close>), the clock selectors
  (\<^verbatim>\<open>prescalermux.cpp\<close>) and the interrupt flag and mask registers (\<^verbatim>\<open>timerirq.cpp\<close>).

  A pointer to an \<open>IOSpecialReg\<close> is a number. The level of a pin that a selector or an
  asynchronous prescaler samples is an argument.
\<close>

section \<open>Registers with several clients\<close>

text \<open>
  The clients' virtual methods \<open>set_from_reg\<close> and \<open>get_from_client\<close> are the arguments \<open>sfr\<close> and
  \<open>gfc\<close>; every client sees the value that the one before it has returned.
\<close>

primrec special_set :: "('c \<Rightarrow> byte \<Rightarrow> ('s, byte) sim) \<Rightarrow> 'c list \<Rightarrow> byte \<Rightarrow> ('s, byte) sim" where
  "special_set sfr [] val = ret val"
| "special_set sfr (c # cs) val = bnd (sfr c val) (special_set sfr cs)"

primrec special_get :: "('c \<Rightarrow> byte \<Rightarrow> byte) \<Rightarrow> 'c list \<Rightarrow> byte \<Rightarrow> byte" where
  "special_get gfc [] val = val"
| "special_get gfc (c # cs) val = special_get gfc cs (gfc c val)"

section \<open>Prescalers\<close>

record prescaler =
  resetRegister :: "nat option"
  resetBit :: nat
  resetSyncBit :: "nat option"   \<comment> \<open>\<open>None\<close> is \<open>-1\<close>\<close>
  preScaleValue :: word16
  countEnable :: bool

text \<open>The constructors leave the counter uninitialised (\<open>v\<close>) until the first reset.\<close>

definition HWPrescaler :: "word16 \<Rightarrow> nat option \<Rightarrow> nat \<Rightarrow> nat option \<Rightarrow> prescaler" where
  "HWPrescaler v ioreg rb sb =
     \<lparr>resetRegister = ioreg, resetBit = rb, resetSyncBit = sb, preScaleValue = v, countEnable = True\<rparr>"

definition count_prescaler :: "'a prescaler_scheme \<Rightarrow> 'a prescaler_scheme" where
  "count_prescaler p =
     (let v = preScaleValue p + 1 in p\<lparr>preScaleValue := if v > 1023 then 0 else v\<rparr>)"

definition Prescaler_CpuCycle :: "'a prescaler_scheme \<Rightarrow> 'a prescaler_scheme" where
  "Prescaler_CpuCycle p = (if countEnable p then count_prescaler p else p)"

definition Prescaler_Reset :: "'a prescaler_scheme \<Rightarrow> 'a prescaler_scheme" where
  "Prescaler_Reset p = p\<lparr>preScaleValue := 0\<rparr>"

definition Prescaler_set_from_reg :: "nat \<Rightarrow> byte \<Rightarrow> 'a prescaler_scheme \<Rightarrow> byte \<times> 'a prescaler_scheme" where
  "Prescaler_set_from_reg reg nv p =
     (if Some reg \<noteq> resetRegister p then (nv, p)
      else let reset = bit nv (resetBit p);
               sync = (case resetSyncBit p of None \<Rightarrow> False | Some b \<Rightarrow> bit nv b)
        in if reset then
             (if sync then (nv, (Prescaler_Reset p)\<lparr>countEnable := False\<rparr>)
              else (NOT (push_bit (resetBit p) 1) AND nv, (Prescaler_Reset p)\<lparr>countEnable := True\<rparr>))
           else (nv, p))"

text \<open>The prescaler with an oscillator pin, for timers with an asynchronous clock.\<close>

record prescaler_async = prescaler +
  asyncRegister :: nat
  pinstate :: bool
  clockselect :: bool
  clockSelectBit :: nat

definition PrescalerAsync_CpuCycle :: "bool \<Rightarrow> prescaler_async \<Rightarrow> prescaler_async" where
  "PrescalerAsync_CpuCycle ps p =
     (let e = (\<not> clockselect p \<or> (\<not> pinstate p \<and> ps));
          q = (if clockselect p then p\<lparr>pinstate := ps\<rparr> else p)
      in if e \<and> countEnable q then count_prescaler q else q)"

definition PrescalerAsync_set_from_reg :: "nat \<Rightarrow> byte \<Rightarrow> prescaler_async \<Rightarrow> byte \<times> prescaler_async" where
  "PrescalerAsync_set_from_reg reg nv p =
     (let (v, q) = Prescaler_set_from_reg reg nv p
      in if reg \<noteq> asyncRegister q then (v, q) else (v, q\<lparr>clockselect := bit v (clockSelectBit q)\<rparr>))"

section \<open>Clock selection\<close>

definition Mux_isClock :: "nat \<Rightarrow> word16 \<Rightarrow> sim_error + bool" where
  "Mux_isClock cs pv =
     (if cs = 0 then Inr False
      else if cs = 1 then Inr True
      else if cs = 2 then Inr (pv mod 8 = 0)
      else if cs = 3 then Inr (pv mod 32 = 0)
      else if cs = 4 then Inr (pv mod 64 = 0)
      else if cs = 5 then Inr (pv mod 128 = 0)
      else if cs = 6 then Inr (pv mod 256 = 0)
      else if cs = 7 then Inr (pv mod 1024 = 0)
      else Inl WrongMultiplexValue)"

text \<open>The state of the selector with a count pin is \<open>clkpin_old\<close>.\<close>

definition MuxExt_isClock :: "nat \<Rightarrow> word16 \<Rightarrow> bool \<Rightarrow> (bool, bool) sim" where
  "MuxExt_isClock cs pv current =
     (if cs = 0 then ret False
      else if cs = 1 then ret True
      else if cs = 2 then ret (pv mod 8 = 0)
      else if cs = 3 then ret (pv mod 64 = 0)
      else if cs = 4 then ret (pv mod 256 = 0)
      else if cs = 5 then ret (pv mod 1024 = 0)
      else if cs = 6 then
        (\<lambda>old. if current = old then Inr (False, old) else Inr (current = False, current))
      else if cs = 7 then
        (\<lambda>old. if current = old then Inr (False, old) else Inr (current = True, current))
      else fail WrongMultiplexValue)"

section \<open>Interrupt flags and masks\<close>

record timer_irq =
  lines :: "nat option list"   \<comment> \<open>the vector of each line\<close>
  name2line :: "string \<rightharpoonup> nat"
  vector2line :: "nat \<rightharpoonup> nat"
  irqmask :: byte
  irqflags :: byte
  bitmask :: byte

type_synonym 'hw timer_irqs = "timer_irq \<times> 'hw irq_system"

definition TimerIRQRegister :: timer_irq where
  "TimerIRQRegister = \<lparr>lines = replicate 8 None, name2line = Map.empty, vector2line = Map.empty,
     irqmask = 0, irqflags = 0, bitmask = 0\<rparr>"

text \<open>\<open>std::map::operator[]\<close> of a missing key is zero.\<close>

definition line_of :: "timer_irq \<Rightarrow> nat \<Rightarrow> nat" where
  "line_of t v = (case vector2line t v of None \<Rightarrow> 0 | Some i \<Rightarrow> i)"

abbreviation on_tirq :: "(timer_irq \<Rightarrow> timer_irq) \<Rightarrow> ('hw timer_irqs, unit) sim" where
  "on_tirq f \<equiv> modify (\<lambda>(t, q). (f t, q))"

abbreviation on_sys :: "('hw irq_system, 'a) sim \<Rightarrow> ('hw timer_irqs, 'a) sim" where
  "on_sys \<equiv> zoom snd (\<lambda>q (t, _). (t, q))"

definition registerLine :: "'hw \<Rightarrow> nat \<Rightarrow> string \<Rightarrow> nat \<Rightarrow> ('hw timer_irqs, unit) sim" where
  "registerLine this idx name vector =
     sq (on_sys (DebugVerifyInterruptVector vector this))
     (bnd (gets (\<lambda>(t, q). idx < length (lines t))) (\<lambda>inside.
     if \<not> inside then fail UndefinedBehaviour
     else on_tirq (\<lambda>t. t\<lparr>lines := (lines t)[idx := Some vector], vector2line := (vector2line t)(vector \<mapsto> idx),
            name2line := (name2line t)(name \<mapsto> idx), bitmask := bitmask t OR push_bit idx 1\<rparr>)))"

definition getLine :: "string \<Rightarrow> timer_irq \<Rightarrow> sim_error + nat option" where
  "getLine n t = (case name2line t n of None \<Rightarrow> Inl LineNotFound | Some i \<Rightarrow> Inr (lines t ! i))"

definition fireInterrupt :: "int \<Rightarrow> 'hw \<Rightarrow> nat \<Rightarrow> ('hw timer_irqs, unit) sim" where
  "fireInterrupt now this vector =
     bnd (gets (\<lambda>(t, q). line_of t vector)) (\<lambda>idx.
     sq (on_tirq (\<lambda>t. t\<lparr>irqflags := irqflags t OR push_bit idx 1\<rparr>))
     (bnd (gets (\<lambda>(t, q). bit (irqmask t) idx)) (\<lambda>enabled.
     whenM enabled (on_sys (SetIrqFlag now this vector)))))"

definition TimerIrq_ClearIrqFlag :: "int \<Rightarrow> nat \<Rightarrow> ('hw timer_irqs, unit) sim" where
  "TimerIrq_ClearIrqFlag now vector =
     sq (on_tirq (\<lambda>t. t\<lparr>irqflags := irqflags t AND NOT (push_bit (line_of t vector) 1)\<rparr>))
     (on_sys (ClearIrqFlag now vector))"

definition TimerIrq_Reset :: "timer_irq \<Rightarrow> timer_irq" where
  "TimerIrq_Reset t = t\<lparr>irqmask := 0, irqflags := 0\<rparr>"

text \<open>The loop of \<open>set_from_reg\<close> over the lines, for the mask register and for the flag register.\<close>

definition timsk_line :: "int \<Rightarrow> 'hw \<Rightarrow> byte \<Rightarrow> nat \<Rightarrow> ('hw timer_irqs, unit) sim" where
  "timsk_line now this nv idx =
     bnd (gets (\<lambda>(t, q). (bit nv idx \<and> \<not> bit (irqmask t) idx \<and> bit (irqflags t) idx, lines t ! idx))) (\<lambda>(trigger, l).
     case l of
       Some vector \<Rightarrow> whenM trigger (on_sys (SetIrqFlag now this vector))
     | None \<Rightarrow> ret ())"

definition tifr_line :: "int \<Rightarrow> byte \<Rightarrow> nat \<Rightarrow> ('hw timer_irqs, unit) sim" where
  "tifr_line now reset idx =
     bnd (gets (\<lambda>(t, q). lines t ! idx)) (\<lambda>l.
     if bit reset idx then
       (case l of Some vector \<Rightarrow> TimerIrq_ClearIrqFlag now vector | None \<Rightarrow> fail UndefinedBehaviour)
     else ret ())"

definition set_timsk :: "int \<Rightarrow> 'hw \<Rightarrow> byte \<Rightarrow> ('hw timer_irqs, byte) sim" where
  "set_timsk now this val =
     bnd (gets (\<lambda>(t, q). (val AND bitmask t, length (lines t)))) (\<lambda>(nv, n).
     sq (forS (timsk_line now this nv) [0..<n])
     (sq (on_tirq (\<lambda>t. t\<lparr>irqmask := nv\<rparr>)) (ret nv)))"

definition set_tifr :: "int \<Rightarrow> byte \<Rightarrow> ('hw timer_irqs, byte) sim" where
  "set_tifr now nv =
     bnd (gets (\<lambda>(t, q). (nv AND bitmask t AND irqflags t, length (lines t)))) (\<lambda>(reset, n).
     sq (on_tirq (\<lambda>t. t\<lparr>irqflags := irqflags t XOR reset\<rparr>))
     (sq (forS (tifr_line now reset) [0..<n]) (ret nv)))"

definition get_timsk :: "timer_irq \<Rightarrow> byte" where
  "get_timsk t = irqmask t"

definition get_tifr :: "timer_irq \<Rightarrow> byte" where
  "get_tifr t = irqflags t"

section \<open>Division of the clock\<close>

lemma count_prescaler_value:
  assumes "unat (preScaleValue p) < 1024"
  shows "unat (preScaleValue (count_prescaler p)) = (unat (preScaleValue p) + 1) mod 1024"
proof -
  have u: "unat (preScaleValue p + 1) = unat (preScaleValue p) + 1"
    using assms by (subst unat_plus_if') simp
  then have "preScaleValue p + 1 > 1023 \<longleftrightarrow> unat (preScaleValue p) = 1023"
    using assms by (auto simp: word_less_nat_alt)
  then show ?thesis using u assms by (auto simp: count_prescaler_def Let_def)
qed

lemma CpuCycle_enabled [simp]:
  "countEnable p \<Longrightarrow> Prescaler_CpuCycle p = count_prescaler p" "countEnable (count_prescaler p) = countEnable p"
  by (simp_all add: Prescaler_CpuCycle_def count_prescaler_def Let_def)

lemma prescaler_run:
  assumes "countEnable p"
  shows "unat (preScaleValue ((Prescaler_CpuCycle ^^ n) (Prescaler_Reset p))) = n mod 1024 \<and>
     countEnable ((Prescaler_CpuCycle ^^ n) (Prescaler_Reset p))"
proof (induction n)
  case (Suc n)
  let ?p = "(Prescaler_CpuCycle ^^ n) (Prescaler_Reset p)"
  have "unat (preScaleValue (count_prescaler ?p)) = Suc n mod 1024"
    using Suc count_prescaler_value [of ?p] by (simp add: mod_Suc_eq)
  then show ?case using Suc by simp
qed (use assms in \<open>simp add: Prescaler_Reset_def\<close>)

lemma word_tap:
  assumes "unat pv = n mod 1024" "d dvd 1024" "unat (w :: word16) = d"
  shows "pv mod w = 0 \<longleftrightarrow> d dvd n"
proof -
  have "pv mod w = 0 \<longleftrightarrow> unat pv mod d = 0"
    using assms(3) by (metis unat_mod_distrib unsigned_eq_0_iff)
  then show ?thesis using assms(1,2) by (simp add: mod_mod_cancel dvd_eq_mod_eq_0)
qed

text \<open>
  After a reset a running prescaler ticks through its taps: \<open>n\<close> cycles later the selectors
  report a clock for the division by \<open>d\<close> exactly if \<open>d\<close> divides \<open>n\<close>, and any selection outside of
  the table is an error.
\<close>

theorem prescaler_taps:
  assumes "countEnable p" and "pv = preScaleValue ((Prescaler_CpuCycle ^^ n) (Prescaler_Reset p))"
  shows "((cs, d) \<in> set [(1, 1), (2, 8), (3, 32), (4, 64), (5, 128), (6, 256), (7, 1024)] \<longrightarrow>
       Mux_isClock cs pv = Inr (d dvd n)) \<and>
     ((cs, d) \<in> set [(1, 1), (2, 8), (3, 64), (4, 256), (5, 1024)] \<longrightarrow>
       MuxExt_isClock cs pv current old = Inr (d dvd n, old)) \<and>
     (7 < cs \<longrightarrow> Mux_isClock cs pv = Inl WrongMultiplexValue \<and>
       MuxExt_isClock cs pv current old = Inl WrongMultiplexValue)"
proof -
  have v: "unat pv = n mod 1024" using prescaler_run [OF assms(1)] assms(2) by simp
  have "pv mod 8 = 0 \<longleftrightarrow> 8 dvd n" "pv mod 32 = 0 \<longleftrightarrow> 32 dvd n" "pv mod 64 = 0 \<longleftrightarrow> 64 dvd n"
    "pv mod 128 = 0 \<longleftrightarrow> 128 dvd n" "pv mod 256 = 0 \<longleftrightarrow> 256 dvd n" "pv mod 1024 = 0 \<longleftrightarrow> 1024 dvd n"
    by (rule word_tap [OF v]; simp)+
  then show ?thesis by (auto simp: Mux_isClock_def MuxExt_isClock_def)
qed

theorem prescaler_taps_witness:
  "Mux_isClock 5 (preScaleValue ((Prescaler_CpuCycle ^^ 384) (Prescaler_Reset (HWPrescaler 77 None 0 None)))) = Inr True"
proof -
  have "countEnable (HWPrescaler 77 None 0 None)" by (simp add: HWPrescaler_def)
  from prescaler_taps [OF this refl, of 5 128 384] show ?thesis by simp
qed

text \<open>
  A prescaler that was stopped with the synchronisation bit starts again only when the reset bit
  is written without it; clearing the synchronisation bit alone does not start it.
\<close>

lemma prescaler_sync_stop:
  assumes "resetRegister p = Some r" "resetSyncBit p = Some s" "bit nv (resetBit p)" "bit nv s"
  defines "q \<equiv> snd (Prescaler_set_from_reg r nv p)"
  shows "\<not> countEnable q" "\<not> bit nv' (resetBit p) \<Longrightarrow> snd (Prescaler_set_from_reg r nv' q) = q"
    "(Prescaler_CpuCycle ^^ n) q = q"
proof -
  show q: "\<not> countEnable q" using assms by (simp add: Prescaler_set_from_reg_def)
  show "\<not> bit nv' (resetBit p) \<Longrightarrow> snd (Prescaler_set_from_reg r nv' q) = q"
    using assms by (simp add: Prescaler_set_from_reg_def Prescaler_Reset_def)
  show "(Prescaler_CpuCycle ^^ n) q = q" by (induction n) (simp_all add: Prescaler_CpuCycle_def q)
qed

section \<open>Requests\<close>

definition tirq_ok :: "'hw timer_irqs \<Rightarrow> bool" where
  "tirq_ok = (\<lambda>(t, q). length (lines t) = 8 \<and> irq_ok q \<and>
     (\<forall>i < 8. bit (bitmask t) i \<longleftrightarrow> lines t ! i \<noteq> None) \<and>
     (\<forall>i < 8. \<forall>v. lines t ! i = Some v \<longrightarrow> vector2line t v = Some i \<and> v < vectorTableSize q))"

definition pending :: "'hw timer_irqs \<Rightarrow> nat \<Rightarrow> bool" where
  "pending = (\<lambda>(t, q) v. v \<in> dom (map_of (irqPartnerList q)))"

lemma forS_snoc: "forS f (xs @ [x]) s = sq (forS f xs) (f x) s"
  by (induction xs arbitrary: s) (simp_all add: sq_def bnd_def split: sum.splits)

lemma tirq_line:
  assumes "tirq_ok (t, q)" "i < 8" "lines t ! i = Some v"
  shows "line_of t v = i" "v < vectorTableSize q" "bit (bitmask t) i"
  using assms by (auto simp: tirq_ok_def line_of_def)

lemma tirq_ok_irqs:
  "tirq_ok (t, q) \<Longrightarrow> irq_ok q' \<Longrightarrow> vectorTableSize q' = vectorTableSize q \<Longrightarrow> tirq_ok (t, q')"
  "tirq_ok (t\<lparr>irqflags := f\<rparr>, q) = tirq_ok (t, q)" "tirq_ok (t\<lparr>irqmask := f\<rparr>, q) = tirq_ok (t, q)"
  by (auto simp: tirq_ok_def)

lemma fire_run:
  assumes "tirq_ok (t, q)" "i < 8" "lines t ! i = Some v"
  shows "\<exists>q'. fireInterrupt now this v (t, q) = Inr ((), (t\<lparr>irqflags := irqflags t OR push_bit i 1\<rparr>, q')) \<and>
     irq_ok q' \<and> vectorTableSize q' = vectorTableSize q \<and>
     (\<forall>w. pending (t, q') w \<longleftrightarrow> pending (t, q) w \<or> (w = v \<and> bit (irqmask t) i))"
proof -
  have q: "irq_ok q" using assms(1) by (simp add: tirq_ok_def)
  obtain q' where "SetIrqFlag now this v q = Inr ((), q')" "irq_ok q'" "vectorTableSize q' = vectorTableSize q"
    "map_of (irqPartnerList q') = (map_of (irqPartnerList q))(v \<mapsto> this)"
    using SetIrqFlag_run [OF q tirq_line(2) [OF assms]] by blast
  then show ?thesis using q tirq_line(1) [OF assms]
    by (cases "bit (irqmask t) i") (auto simp: fireInterrupt_def pending_def)
qed

lemma timsk_loop:
  assumes "tirq_ok (t, q)" "n \<le> 8"
  shows "\<exists>q'. forS (timsk_line now this nv) [0..<n] (t, q) = Inr ((), (t, q')) \<and> tirq_ok (t, q') \<and>
     (\<forall>w. pending (t, q') w \<longleftrightarrow> pending (t, q) w \<or>
        (\<exists>i < n. lines t ! i = Some w \<and> bit nv i \<and> \<not> bit (irqmask t) i \<and> bit (irqflags t) i))"
  using assms(2)
proof (induction n)
  case 0
  then show ?case using assms(1) by simp
next
  case (Suc n)
  then obtain q1 where q1: "forS (timsk_line now this nv) [0..<n] (t, q) = Inr ((), (t, q1))" "tirq_ok (t, q1)"
    "\<forall>w. pending (t, q1) w \<longleftrightarrow> pending (t, q) w \<or>
        (\<exists>i < n. lines t ! i = Some w \<and> bit nv i \<and> \<not> bit (irqmask t) i \<and> bit (irqflags t) i)" by auto
  show ?case
  proof (cases "lines t ! n \<noteq> None \<and> bit nv n \<and> \<not> bit (irqmask t) n \<and> bit (irqflags t) n")
    case True
    then obtain v where v: "lines t ! n = Some v" by auto
    obtain q2 where q2: "SetIrqFlag now this v q1 = Inr ((), q2)" "irq_ok q2" "vectorTableSize q2 = vectorTableSize q1"
      "map_of (irqPartnerList q2) = (map_of (irqPartnerList q1))(v \<mapsto> this)"
      using SetIrqFlag_run [of q1 v now this] tirq_line(2) [OF q1(2) _ v] Suc.prems q1(2) by (auto simp: tirq_ok_def)
    then have "timsk_line now this nv n (t, q1) = Inr ((), (t, q2))" using True v by (simp add: timsk_line_def)
    moreover have "pending (t, q2) w \<longleftrightarrow> pending (t, q1) w \<or> w = v" for w using q2(4) by (auto simp: pending_def)
    ultimately show ?thesis using q1 q2 True v tirq_ok_irqs(1) [OF q1(2) q2(2,3)]
      by (auto simp: forS_snoc less_Suc_eq simp del: forS.simps)
  next
    case False
    then have "timsk_line now this nv n (t, q1) = Inr ((), (t, q1))"
      by (cases "lines t ! n") (auto simp: timsk_line_def)
    then show ?thesis using q1 False by (auto simp: forS_snoc less_Suc_eq simp del: forS.simps)
  qed
qed

lemma tifr_loop:
  assumes "tirq_ok (t, q)" "n \<le> 8" "\<forall>i. bit reset i \<longrightarrow> bit (bitmask t) i \<and> \<not> bit (irqflags t) i"
  shows "\<exists>q'. forS (tifr_line now reset) [0..<n] (t, q) = Inr ((), (t, q')) \<and> tirq_ok (t, q') \<and>
     (\<forall>w. pending (t, q') w \<longleftrightarrow> pending (t, q) w \<and> \<not> (\<exists>i < n. lines t ! i = Some w \<and> bit reset i))"
  using assms(2)
proof (induction n)
  case 0
  then show ?case using assms(1) by simp
next
  case (Suc n)
  then obtain q1 where q1: "forS (tifr_line now reset) [0..<n] (t, q) = Inr ((), (t, q1))" "tirq_ok (t, q1)"
    "\<forall>w. pending (t, q1) w \<longleftrightarrow> pending (t, q) w \<and> \<not> (\<exists>i < n. lines t ! i = Some w \<and> bit reset i)" by auto
  show ?case
  proof (cases "bit reset n")
    case True
    then obtain v where v: "lines t ! n = Some v" using assms(1,3) Suc.prems
      by (auto simp: tirq_ok_def simp flip: less_eq_Suc_le)
    obtain q2 where q2: "ClearIrqFlag now v q1 = Inr ((), q2)" "irq_ok q2" "vectorTableSize q2 = vectorTableSize q1"
      "map_of (irqPartnerList q2) = (map_of (irqPartnerList q1))(v := None)"
      using ClearIrqFlag_run [of q1 now v] q1(2) by (auto simp: tirq_ok_def)
    have "irqflags t AND NOT (push_bit n 1) = irqflags t"
      using True assms(3) by (intro bit_word_eqI) (auto simp: bit_and_iff bit_not_iff bit_exp_iff)
    then have "tifr_line now reset n (t, q1) = Inr ((), (t, q2))"
      using True v q2 tirq_line(1) [OF q1(2) _ v] Suc.prems by (simp add: tifr_line_def TimerIrq_ClearIrqFlag_def)
    moreover have "pending (t, q2) w \<longleftrightarrow> pending (t, q1) w \<and> w \<noteq> v" for w using q2(4) by (auto simp: pending_def)
    ultimately show ?thesis using q1 q2 True v tirq_ok_irqs(1) [OF q1(2) q2(2,3)]
      by (auto simp: forS_snoc less_Suc_eq simp del: forS.simps)
  next
    case False
    then have "tifr_line now reset n (t, q1) = Inr ((), (t, q1))" by (simp add: tifr_line_def)
    then show ?thesis using q1 False by (auto simp: forS_snoc less_Suc_eq simp del: forS.simps)
  qed
qed

text \<open>
  C32. The flag and mask registers of the timers. An event sets its flag in TIFR and asks for its
  interrupt exactly if TIMSK enables it; writing ones to TIFR clears these flags and withdraws
  their requests and no others; writing TIMSK asks for the interrupts that are newly enabled and
  whose flags are set.
\<close>

theorem timer_irq_requests:
  assumes ok: "tirq_ok (t, q)" and i: "i < 8" "lines t ! i = Some v"
  shows "(\<exists>t' q'. fireInterrupt now this v (t, q) = Inr ((), (t', q')) \<and> tirq_ok (t', q') \<and>
       get_tifr t' = get_tifr t OR push_bit i 1 \<and> get_timsk t' = get_timsk t \<and>
       (\<forall>w. pending (t', q') w \<longleftrightarrow> pending (t, q) w \<or> (w = v \<and> bit (get_timsk t) i))) \<and>
     (\<exists>t' q'. set_tifr now nv (t, q) = Inr (nv, (t', q')) \<and> tirq_ok (t', q') \<and>
       get_tifr t' = get_tifr t AND NOT (nv AND bitmask t) \<and> get_timsk t' = get_timsk t \<and>
       (pending (t', q') v \<longleftrightarrow> pending (t, q) v \<and> \<not> (bit nv i \<and> bit (get_tifr t) i))) \<and>
     (\<exists>t' q'. set_timsk now this nv (t, q) = Inr (nv AND bitmask t, (t', q')) \<and> tirq_ok (t', q') \<and>
       get_timsk t' = nv AND bitmask t \<and> get_tifr t' = get_tifr t \<and>
       (pending (t', q') v \<longleftrightarrow> pending (t, q) v \<or> (bit nv i \<and> \<not> bit (get_timsk t) i \<and> bit (get_tifr t) i)))"
  (is "?fire \<and> ?tifr \<and> ?timsk")
proof -
  obtain q' where "fireInterrupt now this v (t, q) = Inr ((), (t\<lparr>irqflags := irqflags t OR push_bit i 1\<rparr>, q'))"
     "irq_ok q'" "vectorTableSize q' = vectorTableSize q"
     "\<forall>w. pending (t, q') w \<longleftrightarrow> pending (t, q) w \<or> (w = v \<and> bit (irqmask t) i)"
    using fire_run [OF assms] by blast
  then have ?fire using tirq_ok_irqs(1) [OF ok] by (auto simp: tirq_ok_irqs get_tifr_def get_timsk_def pending_def)
  have l: "length (lines t) = 8" using ok by (simp add: tirq_ok_def)
  have b: "bit (bitmask t) i" by (rule tirq_line(3) [OF ok i])
  have at: "(\<exists>j < 8. lines t ! j = Some v \<and> P j) \<longleftrightarrow> P i" for P
    using i tirq_line(1) [OF ok] by metis
  let ?r = "nv AND bitmask t AND irqflags t"
  let ?t = "t\<lparr>irqflags := irqflags t XOR ?r\<rparr>"
  obtain q' where q': "forS (tifr_line now ?r) [0..<8] (?t, q) = Inr ((), (?t, q'))" "tirq_ok (?t, q')"
     "\<forall>w. pending (?t, q') w \<longleftrightarrow> pending (?t, q) w \<and> \<not> (\<exists>i < 8. lines ?t ! i = Some w \<and> bit ?r i)"
    using tifr_loop [of ?t q 8 ?r now] ok by (auto simp: tirq_ok_irqs bit_and_iff bit_xor_iff)
  have f: "irqflags t XOR ?r = irqflags t AND NOT (nv AND bitmask t)"
    by (intro bit_word_eqI) (auto simp: bit_and_iff bit_or_iff bit_xor_iff bit_not_iff)
  have ?tifr
    using q' f l b at [of "bit ?r"]
    by (intro exI [of _ ?t] exI [of _ q']) (auto simp: set_tifr_def get_tifr_def get_timsk_def pending_def bit_and_iff)
  obtain q'' where q'': "forS (timsk_line now this (nv AND bitmask t)) [0..<8] (t, q) = Inr ((), (t, q''))" "tirq_ok (t, q'')"
     "\<forall>w. pending (t, q'') w \<longleftrightarrow> pending (t, q) w \<or> (\<exists>i < 8. lines t ! i = Some w \<and>
        bit (nv AND bitmask t) i \<and> \<not> bit (irqmask t) i \<and> bit (irqflags t) i)"
    using timsk_loop [OF ok, of 8] by blast
  then have ?timsk
    using l b at [of "\<lambda>i. bit (nv AND bitmask t) i \<and> \<not> bit (irqmask t) i \<and> bit (irqflags t) i"]
    by (intro exI [of _ "t\<lparr>irqmask := nv AND bitmask t\<rparr>"] exI [of _ q''])
      (auto simp: set_timsk_def get_tifr_def get_timsk_def pending_def bit_and_iff tirq_ok_irqs)
  with \<open>?fire\<close> \<open>?tifr\<close> show ?thesis by blast
qed

lemma registerLine_ok:
  assumes ok: "tirq_ok (t, q)" and "idx < 8" "v < vectorTableSize q" "debugInterruptTable q ! v = None"
    and new: "lines t ! idx = None" "\<forall>i < 8. lines t ! i \<noteq> Some v"
  shows "\<exists>t' q'. registerLine this idx name v (t, q) = Inr ((), (t', q')) \<and> tirq_ok (t', q') \<and>
     lines t' = (lines t)[idx := Some v] \<and> irqmask t' = irqmask t \<and> irqflags t' = irqflags t \<and>
     bitmask t' = bitmask t OR push_bit idx 1 \<and> irqPartnerList q' = irqPartnerList q"
  using assms
  by (auto simp: registerLine_def DebugVerifyInterruptVector_def tirq_ok_def irq_ok_def bit_or_iff bit_exp_iff nth_list_update)

text \<open>The overflow line of a device with ten vectors, enabled, fires; then TIFR is written.\<close>

theorem timer_irq_requests_witness:
  "\<exists>t q u p. registerLine CHR ''x'' 0 ''TOV0'' 3 (TimerIRQRegister, HWIrqSystem 2 10) = Inr ((), (t, q)) \<and>
     fireInterrupt 0 CHR ''x'' 3 (t\<lparr>irqmask := 1\<rparr>, q) = Inr ((), (u, p)) \<and> bit (get_tifr u) 0 \<and> pending (u, p) 3"
proof -
  have "tirq_ok (TimerIRQRegister, HWIrqSystem 2 10 :: char irq_system)"
    by (simp add: tirq_ok_def TimerIRQRegister_def HWIrqSystem_def irq_ok_def table_ok_def)
  then obtain t and q :: "char irq_system"
    where r: "registerLine CHR ''x'' 0 ''TOV0'' 3 (TimerIRQRegister, HWIrqSystem 2 10) = Inr ((), (t, q))"
    and tq: "tirq_ok (t, q)" "lines t = (lines TimerIRQRegister)[0 := Some 3]"
    using registerLine_ok [of TimerIRQRegister "HWIrqSystem 2 10" 0 3 "CHR ''x''" "''TOV0''"]
    by (auto simp: HWIrqSystem_def TimerIRQRegister_def)
  have "tirq_ok (t\<lparr>irqmask := 1\<rparr>, q)" "lines (t\<lparr>irqmask := 1\<rparr>) ! 0 = Some 3"
    using tq by (simp_all add: tirq_ok_irqs TimerIRQRegister_def)
  from timer_irq_requests [OF this(1) _ this(2), of 0 "CHR ''x''" 0] obtain u p where
    "fireInterrupt 0 CHR ''x'' 3 (t\<lparr>irqmask := 1\<rparr>, q) = Inr ((), (u, p))" "get_tifr u = irqflags t OR 1"
    "pending (u, p) 3" by (auto simp: get_tifr_def get_timsk_def)
  then show ?thesis using r by (auto simp: bit_or_iff)
qed

text \<open>
  Disabling an interrupt in TIMSK does not withdraw a request that is already pending: the
  handler is still entered.
\<close>

lemma timsk_disable_keeps_request:
  assumes "tirq_ok (t, q)" "pending (t, q) v"
  shows "\<exists>t' q'. set_timsk now this 0 (t, q) = Inr (0, (t', q')) \<and> get_timsk t' = 0 \<and> pending (t', q') v"
proof -
  have "length (lines t) = 8" using assms(1) by (simp add: tirq_ok_def)
  then show ?thesis using timsk_loop [OF assms(1), of 8 now this 0] assms(2)
    by (auto simp: set_timsk_def get_timsk_def pending_def)
qed

end
