(* ===== verification/Avr_Pin.thy ===== *)
theory Avr_Pin
  imports Avr_Prelude
begin

text \<open>
  Pins, nets and ports: \<^verbatim>\<open>src/src/pin.h\<close>, \<^verbatim>\<open>pin.cpp\<close>, \<^verbatim>\<open>net.cpp\<close>, \<^verbatim>\<open>hwport.cpp\<close> and
  \<^verbatim>\<open>pinatport.cpp\<close>.

  Pins, nets and ports point to each other, so they live in a store, the \<open>board\<close>: pins, nets and
  ports are numbered and a pointer is a number (\<open>None\<close> for \<open>NULL\<close>). A pin that is a stage of a
  port knows the port and its bit; a net is the list of its pins. \<open>HasPinNotifyFunction\<close>, the
  interface of listeners, is the argument \<open>L\<close>: listener \<open>l\<close> is told about pin \<open>i\<close> by
  \<open>L l i\<close> and may change the board and \<open>bworld\<close>, the rest of the simulation. A listener does
  not register listeners or change the net that is calling it.

  Analog levels are values of a type \<open>'f\<close> that stands for C's \<open>float\<close>.
\<close>

section \<open>Pins\<close>

datatype pinstate = LOW | HIGH | SHORTED | PULLUP | TRISTATE | PULLDOWN | ANALOG | ANALOG_SHORTED

datatype dstate = ST_GND | ST_FLOATING | ST_VCC | ST_ANALOG

record 'f analog_value =
  dState :: dstate
  aValue :: 'f

record 'f iopin =
  outState :: pinstate
  analogVal :: "'f analog_value"
  pinOfPort :: "nat option"
  pin_mask :: byte
  connectedTo :: "nat option"
  notifyList :: "nat list"
  drainOf :: "nat option"   \<comment> \<open>\<open>OpenDrain::pin\<close>; \<open>None\<close> for a plain \<open>Pin\<close>\<close>

definition setD :: "dstate \<Rightarrow> 'f::zero analog_value" where
  "setD dig = \<lparr>dState = dig, aValue = 0\<rparr>"

definition setA :: "'f \<Rightarrow> 'f analog_value" where
  "setA val = \<lparr>dState = ST_ANALOG, aValue = val\<rparr>"

text \<open>\<open>floating vcc\<close> stands for the floating point product \<open>REL_FLOATING_POTENTIAL * vcc\<close>.\<close>

definition getA :: "('f \<Rightarrow> 'f) \<Rightarrow> 'f::{linorder,zero} \<Rightarrow> 'f analog_value \<Rightarrow> 'f" where
  "getA floating vcc a = (case dState a of
       ST_GND \<Rightarrow> 0
     | ST_FLOATING \<Rightarrow> floating vcc
     | ST_VCC \<Rightarrow> vcc
     | ST_ANALOG \<Rightarrow> if aValue a < 0 then 0 else if aValue a > vcc then vcc else aValue a)"

definition state_level :: "pinstate \<Rightarrow> dstate" where
  "state_level ps = (case ps of HIGH \<Rightarrow> ST_VCC | PULLUP \<Rightarrow> ST_VCC | LOW \<Rightarrow> ST_GND | PULLDOWN \<Rightarrow> ST_GND
     | TRISTATE \<Rightarrow> ST_FLOATING | _ \<Rightarrow> ST_GND)"

definition Pin :: "pinstate \<Rightarrow> 'f::zero iopin" where
  "Pin ps = \<lparr>outState = ps, analogVal = setD (state_level ps), pinOfPort = None, pin_mask = 0,
     connectedTo = None, notifyList = [], drainOf = None\<rparr>"

definition Pin_copy :: "'f iopin \<Rightarrow> 'f iopin" where
  "Pin_copy p = \<lparr>outState = outState p, analogVal = analogVal p, pinOfPort = None, pin_mask = 0,
     connectedTo = None, notifyList = [], drainOf = None\<rparr>"

definition Pin_analog :: "'f \<Rightarrow> 'f iopin" where
  "Pin_analog analog = \<lparr>outState = ANALOG, analogVal = setA analog, pinOfPort = None, pin_mask = 0,
     connectedTo = None, notifyList = [], drainOf = None\<rparr>"

definition Pin_port :: "nat \<Rightarrow> byte \<Rightarrow> 'f::zero iopin" where
  "Pin_port parentPin m = \<lparr>outState = TRISTATE, analogVal = setD ST_FLOATING, pinOfPort = Some parentPin,
     pin_mask = m, connectedTo = None, notifyList = [], drainOf = None\<rparr>"

definition OpenDrain :: "nat \<Rightarrow> 'f::zero iopin" where
  "OpenDrain p = (Pin TRISTATE)\<lparr>drainOf := Some p\<rparr>"

definition Pin_char :: "'f iopin \<Rightarrow> char" where
  "Pin_char p = (case outState p of SHORTED \<Rightarrow> CHR ''S'' | HIGH \<Rightarrow> CHR ''H'' | PULLUP \<Rightarrow> CHR ''h''
     | TRISTATE \<Rightarrow> CHR ''t'' | PULLDOWN \<Rightarrow> CHR ''l'' | LOW \<Rightarrow> CHR ''L'' | ANALOG \<Rightarrow> CHR ''a''
     | ANALOG_SHORTED \<Rightarrow> CHR ''A'')"

definition Pin_bool :: "'f iopin \<Rightarrow> bool" where
  "Pin_bool p =
     (if outState p = HIGH then True
      else if outState p = TRISTATE \<or> outState p = PULLUP then
        dState (analogVal p) = ST_VCC \<or> dState (analogVal p) = ST_FLOATING
      else if outState p = ANALOG then dState (analogVal p) = ST_ANALOG
      else False)"

definition Pin_plus :: "'f::zero iopin \<Rightarrow> 'f iopin \<Rightarrow> 'f iopin" where
  "Pin_plus this p =
     (if outState this = SHORTED then Pin SHORTED
      else if outState this = ANALOG_SHORTED then Pin ANALOG_SHORTED
      else if outState this = ANALOG \<and> outState p \<noteq> TRISTATE then Pin ANALOG_SHORTED
      else case outState p of
        SHORTED \<Rightarrow> Pin SHORTED
      | HIGH \<Rightarrow> if outState this = LOW then Pin SHORTED else Pin HIGH
      | PULLUP \<Rightarrow> if outState this = LOW then Pin LOW else if outState this = HIGH then Pin HIGH
          else if outState this = PULLDOWN then Pin TRISTATE else Pin PULLUP
      | TRISTATE \<Rightarrow> Pin_copy this
      | PULLDOWN \<Rightarrow> if outState this = LOW then Pin LOW else if outState this = HIGH then Pin HIGH
          else if outState this = PULLUP then Pin TRISTATE else Pin PULLDOWN
      | LOW \<Rightarrow> if outState this = HIGH then Pin SHORTED else Pin LOW
      | ANALOG \<Rightarrow> if outState this \<noteq> TRISTATE then Pin ANALOG_SHORTED else Pin_copy p
      | ANALOG_SHORTED \<Rightarrow> Pin ANALOG_SHORTED)"

text \<open>\<open>Pin::operator= (char)\<close>, without the recalculation at its end; other characters change nothing.\<close>

definition Pin_of_char :: "char \<Rightarrow> 'f::zero iopin \<Rightarrow> 'f iopin" where
  "Pin_of_char c p =
     (if c = CHR ''S'' then p\<lparr>outState := SHORTED, analogVal := setD ST_GND\<rparr>
      else if c = CHR ''H'' then p\<lparr>outState := HIGH, analogVal := setD ST_VCC\<rparr>
      else if c = CHR ''h'' then p\<lparr>outState := PULLUP, analogVal := setD ST_VCC\<rparr>
      else if c = CHR ''t'' then p\<lparr>outState := TRISTATE, analogVal := setD ST_FLOATING\<rparr>
      else if c = CHR ''l'' then p\<lparr>outState := PULLDOWN, analogVal := setD ST_GND\<rparr>
      else if c = CHR ''L'' then p\<lparr>outState := LOW, analogVal := setD ST_GND\<rparr>
      else if c = CHR ''a'' then p\<lparr>outState := ANALOG, analogVal := setD ST_FLOATING\<rparr>
      else if c = CHR ''A'' then p\<lparr>outState := ANALOG_SHORTED, analogVal := setD ST_GND\<rparr>
      else p)"

section \<open>The board\<close>

record hwport =
  port :: byte
  pin :: byte
  ddr :: byte
  alternateDdr :: byte
  useAlternateDdr :: byte
  alternatePort :: byte
  useAlternatePort :: byte
  useAlternatePortIfDdrSet :: byte
  portPins :: "nat list"   \<comment> \<open>\<open>p[0], \<dots>, p[portSize - 1]\<close>\<close>
  portMask :: byte
  portToggleFeature :: bool

record ('f, 'w) board =
  bpins :: "nat \<Rightarrow> 'f iopin"
  bnets :: "nat \<Rightarrow> nat list"
  bports :: "nat \<Rightarrow> hwport"
  bworld :: 'w

type_synonym ('f, 'w) listener = "nat \<Rightarrow> nat \<Rightarrow> (('f, 'w) board, unit) sim"

definition upd_pin :: "nat \<Rightarrow> ('f iopin \<Rightarrow> 'f iopin) \<Rightarrow> ('f, 'w) board \<Rightarrow> ('f, 'w) board" where
  "upd_pin i f b = b\<lparr>bpins := (bpins b)(i := f (bpins b i))\<rparr>"

definition upd_port :: "nat \<Rightarrow> (hwport \<Rightarrow> hwport) \<Rightarrow> ('f, 'w) board \<Rightarrow> ('f, 'w) board" where
  "upd_port n f b = b\<lparr>bports := (bports b)(n := f (bports b n))\<rparr>"

definition upd_net :: "nat \<Rightarrow> (nat list \<Rightarrow> nat list) \<Rightarrow> ('f, 'w) board \<Rightarrow> ('f, 'w) board" where
  "upd_net n f b = b\<lparr>bnets := (bnets b)(n := f (bnets b n))\<rparr>"

section \<open>Nets\<close>

text \<open>The virtual method \<open>GetPin\<close> of \<open>Pin\<close> and \<open>OpenDrain\<close>.\<close>

definition GetPin :: "('f::zero, 'w) board \<Rightarrow> nat \<Rightarrow> 'f iopin" where
  "GetPin b i = (case drainOf (bpins b i) of
       None \<Rightarrow> Pin_copy (bpins b i)
     | Some j \<Rightarrow> if Pin_bool (bpins b j) then Pin LOW else Pin TRISTATE)"

definition SetInState :: "('f, 'w) listener \<Rightarrow> nat \<Rightarrow> 'f iopin \<Rightarrow> (('f, 'w) board, unit) sim" where
  "SetInState L i p =
     sq (modify (upd_pin i (\<lambda>q. q\<lparr>analogVal := analogVal p\<rparr>)))
     (sq (modify (\<lambda>b. case pinOfPort (bpins b i) of
            None \<Rightarrow> b
          | Some n \<Rightarrow> upd_port n (\<lambda>q. if Pin_bool p then q\<lparr>pin := pin q OR pin_mask (bpins b i)\<rparr>
                                       else q\<lparr>pin := pin q AND (0xff - pin_mask (bpins b i))\<rparr>) b))
     (bnd (gets (\<lambda>b. notifyList (bpins b i))) (forS (\<lambda>l. L l i))))"

definition net_result :: "('f::zero, 'w) board \<Rightarrow> nat \<Rightarrow> 'f iopin" where
  "net_result b n = foldl (\<lambda>r i. Pin_plus r (GetPin b i)) (Pin TRISTATE) (bnets b n)"

definition CalcNet :: "('f, 'w) listener \<Rightarrow> nat \<Rightarrow> (('f::zero, 'w) board, bool) sim" where
  "CalcNet L n =
     bnd (gets (\<lambda>b. (net_result b n, bnets b n))) (\<lambda>(r, is).
     sq (forS (\<lambda>i. SetInState L i r) is) (ret (Pin_bool r)))"

definition Pin_CalcPin :: "('f, 'w) listener \<Rightarrow> nat \<Rightarrow> (('f::zero, 'w) board, bool) sim" where
  "Pin_CalcPin L i =
     bnd (gets (\<lambda>b. bpins b i)) (\<lambda>p.
     case connectedTo p of
       None \<Rightarrow> sq (SetInState L i p) (gets (\<lambda>b. Pin_bool (bpins b i)))
     | Some n \<Rightarrow> CalcNet L n)"

definition Net_Delete :: "nat \<Rightarrow> nat \<Rightarrow> ('f, 'w) board \<Rightarrow> ('f, 'w) board" where
  "Net_Delete n i = upd_net n (remove1 i)"

definition UnRegisterNet :: "nat \<Rightarrow> nat option \<Rightarrow> ('f, 'w) board \<Rightarrow> ('f, 'w) board" where
  "UnRegisterNet i n b =
     upd_pin i (\<lambda>p. p\<lparr>connectedTo := None\<rparr>)
       (case connectedTo (bpins b i) of
          Some m \<Rightarrow> if n = Some m then Net_Delete m i b else b
        | None \<Rightarrow> b)"

definition RegisterNet :: "nat \<Rightarrow> nat \<Rightarrow> ('f, 'w) board \<Rightarrow> ('f, 'w) board" where
  "RegisterNet i n b = upd_pin i (\<lambda>p. p\<lparr>connectedTo := Some n\<rparr>) (UnRegisterNet i (connectedTo (bpins b i)) b)"

definition Net_Add :: "('f, 'w) listener \<Rightarrow> nat \<Rightarrow> nat \<Rightarrow> (('f::zero, 'w) board, unit) sim" where
  "Net_Add L n i =
     sq (modify (upd_net n (\<lambda>is. is @ [i])))
     (sq (modify (RegisterNet i n))
     (sq (CalcNet L n) (ret ())))"

definition Pin_set :: "('f, 'w) listener \<Rightarrow> nat \<Rightarrow> char \<Rightarrow> (('f::zero, 'w) board, unit) sim" where
  "Pin_set L i c = sq (modify (upd_pin i (Pin_of_char c))) (sq (Pin_CalcPin L i) (ret ()))"

definition SetAnalogValue :: "('f, 'w) listener \<Rightarrow> nat \<Rightarrow> 'f \<Rightarrow> (('f::zero, 'w) board, unit) sim" where
  "SetAnalogValue L i v =
     sq (modify (upd_pin i (\<lambda>p. p\<lparr>analogVal := setA v\<rparr>))) (sq (Pin_CalcPin L i) (ret ()))"

definition RegisterCallback :: "nat \<Rightarrow> nat \<Rightarrow> ('f, 'w) board \<Rightarrow> ('f, 'w) board" where
  "RegisterCallback i l = upd_pin i (\<lambda>p. p\<lparr>notifyList := notifyList p @ [l]\<rparr>)"

section \<open>Ports\<close>

text \<open>The output stage of one bit, as \<open>CalcOutputs\<close> computes it.\<close>

definition out_state :: "hwport \<Rightarrow> nat \<Rightarrow> pinstate" where
  "out_state q k =
     (let workingDdr = (if bit (useAlternatePortIfDdrSet q) k then bit (ddr q) k
            else if bit (useAlternateDdr q) k then bit (alternateDdr q) k else bit (ddr q) k);
          workingPort = (if bit (useAlternatePortIfDdrSet q) k
            then (if bit (ddr q) k then bit (alternatePort q) k else bit (port q) k)
            else if bit (useAlternatePort q) k then bit (alternatePort q) k else bit (port q) k)
      in if workingDdr then (if workingPort then HIGH else LOW) else (if workingPort then PULLUP else TRISTATE))"

definition calc_bit :: "('f, 'w) listener \<Rightarrow> nat \<Rightarrow> nat \<Rightarrow> nat \<Rightarrow> (('f::zero, 'w) board, unit) sim" where
  "calc_bit L n tt i =
     bnd (Pin_CalcPin L i) (\<lambda>v. whenM v (modify (upd_port n (\<lambda>q. q\<lparr>pin := pin q OR push_bit tt 1\<rparr>))))"

definition Port_CalcPin :: "('f, 'w) listener \<Rightarrow> nat \<Rightarrow> (('f::zero, 'w) board, unit) sim" where
  "Port_CalcPin L n =
     sq (modify (upd_port n (\<lambda>q. q\<lparr>pin := 0\<rparr>)))
     (bnd (gets (\<lambda>b. portPins (bports b n))) (\<lambda>ps.
      forS (\<lambda>(tt, i). calc_bit L n tt i) (enumerate 0 ps)))"

definition set_outputs :: "nat \<Rightarrow> ('f, 'w) board \<Rightarrow> ('f, 'w) board" where
  "set_outputs n b =
     fold (\<lambda>(k, i). upd_pin i (\<lambda>p. p\<lparr>outState := out_state (bports b n) k\<rparr>)) (enumerate 0 (portPins (bports b n))) b"

definition CalcOutputs :: "('f, 'w) listener \<Rightarrow> nat \<Rightarrow> (('f::zero, 'w) board, unit) sim" where
  "CalcOutputs L n = sq (modify (set_outputs n)) (Port_CalcPin L n)"

definition Port_Reset :: "('f, 'w) listener \<Rightarrow> nat \<Rightarrow> (('f::zero, 'w) board, unit) sim" where
  "Port_Reset L n =
     sq (modify (upd_port n (\<lambda>q. q\<lparr>port := 0, pin := 0, ddr := 0, alternateDdr := 0, useAlternateDdr := 0,
       alternatePort := 0, useAlternatePort := 0, useAlternatePortIfDdrSet := 0\<rparr>)))
     (CalcOutputs L n)"

definition SetPort :: "('f, 'w) listener \<Rightarrow> nat \<Rightarrow> byte \<Rightarrow> (('f::zero, 'w) board, unit) sim" where
  "SetPort L n val = sq (modify (upd_port n (\<lambda>q. q\<lparr>port := val AND portMask q\<rparr>))) (CalcOutputs L n)"

definition SetDdr :: "('f, 'w) listener \<Rightarrow> nat \<Rightarrow> byte \<Rightarrow> (('f::zero, 'w) board, unit) sim" where
  "SetDdr L n val = sq (modify (upd_port n (\<lambda>q. q\<lparr>ddr := val AND portMask q\<rparr>))) (CalcOutputs L n)"

definition SetPin :: "('f, 'w) listener \<Rightarrow> nat \<Rightarrow> byte \<Rightarrow> (('f::zero, 'w) board, unit) sim" where
  "SetPin L n val =
     bnd (gets (\<lambda>b. portToggleFeature (bports b n))) (\<lambda>toggle.
     if toggle then sq (modify (upd_port n (\<lambda>q. q\<lparr>port := port q XOR val\<rparr>))) (CalcOutputs L n)
     else ret ())"

text \<open>\<open>assert(portSize < sizeof(p)/sizeof(p[0]))\<close>: there are eight pins.\<close>

definition GetPortString :: "nat \<Rightarrow> (('f, 'w) board, string) sim" where
  "GetPortString n =
     bnd (gets (\<lambda>b. portPins (bports b n))) (\<lambda>ps.
     sq (assertM (length ps < 8)) (gets (\<lambda>b. rev (map (\<lambda>i. Pin_char (bpins b i)) ps))))"

text \<open>\<open>ids\<close> are the numbers of the port's eight pins.\<close>

definition HWPort :: "('f, 'w) listener \<Rightarrow> nat \<Rightarrow> nat list \<Rightarrow> bool \<Rightarrow> int \<Rightarrow> (('f::zero, 'w) board, unit) sim" where
  "HWPort L n ids portToggle sz =
     (let size = (if sz > 8 \<or> sz < 1 then 8 else nat sz) in
      sq (modify (upd_port n (\<lambda>_. \<lparr>port = 0, pin = 0, ddr = 0, alternateDdr = 0, useAlternateDdr = 0,
            alternatePort = 0, useAlternatePort = 0, useAlternatePortIfDdrSet = 0, portPins = take size ids,
            portMask = word_of_nat (2 ^ size - 1), portToggleFeature = portToggle\<rparr>)))
      (sq (modify (fold (\<lambda>(tt, i). upd_pin i (\<lambda>_. Pin_port n (push_bit tt 1))) (enumerate 0 (take size ids))))
      (Port_Reset L n)))"

section \<open>Pins of a port\<close>

record pin_at_port =
  pa_port :: nat
  pa_pinNo :: nat

definition SetVal :: "nat \<Rightarrow> bool \<Rightarrow> byte \<Rightarrow> byte" where
  "SetVal pinNo val x = (if val then x OR push_bit pinNo 1 else x AND NOT (push_bit pinNo 1))"

definition PinAtPort_set ::
  "('f, 'w) listener \<Rightarrow> ((byte \<Rightarrow> byte) \<Rightarrow> hwport \<Rightarrow> hwport) \<Rightarrow> pin_at_port \<Rightarrow> bool \<Rightarrow> (('f::zero, 'w) board, unit) sim" where
  "PinAtPort_set L field_update pp val =
     sq (modify (upd_port (pa_port pp) (field_update (SetVal (pa_pinNo pp) val)))) (CalcOutputs L (pa_port pp))"

definition PinAtPort_SetPort :: "('f, 'w) listener \<Rightarrow> pin_at_port \<Rightarrow> bool \<Rightarrow> (('f::zero, 'w) board, unit) sim" where
  "PinAtPort_SetPort L = PinAtPort_set L port_update"

definition PinAtPort_SetDdr :: "('f, 'w) listener \<Rightarrow> pin_at_port \<Rightarrow> bool \<Rightarrow> (('f::zero, 'w) board, unit) sim" where
  "PinAtPort_SetDdr L = PinAtPort_set L ddr_update"

definition SetAlternateDdr :: "('f, 'w) listener \<Rightarrow> pin_at_port \<Rightarrow> bool \<Rightarrow> (('f::zero, 'w) board, unit) sim" where
  "SetAlternateDdr L = PinAtPort_set L alternateDdr_update"

definition SetUseAlternateDdr :: "('f, 'w) listener \<Rightarrow> pin_at_port \<Rightarrow> bool \<Rightarrow> (('f::zero, 'w) board, unit) sim" where
  "SetUseAlternateDdr L = PinAtPort_set L useAlternateDdr_update"

definition SetAlternatePort :: "('f, 'w) listener \<Rightarrow> pin_at_port \<Rightarrow> bool \<Rightarrow> (('f::zero, 'w) board, unit) sim" where
  "SetAlternatePort L = PinAtPort_set L alternatePort_update"

definition SetUseAlternatePort :: "('f, 'w) listener \<Rightarrow> pin_at_port \<Rightarrow> bool \<Rightarrow> (('f::zero, 'w) board, unit) sim" where
  "SetUseAlternatePort L = PinAtPort_set L useAlternatePort_update"

definition SetUseAlternatePortIfDdrSet :: "('f, 'w) listener \<Rightarrow> pin_at_port \<Rightarrow> bool \<Rightarrow> (('f::zero, 'w) board, unit) sim" where
  "SetUseAlternatePortIfDdrSet L = PinAtPort_set L useAlternatePortIfDdrSet_update"

definition PinAtPort_bool :: "pin_at_port \<Rightarrow> ('f, 'w) board \<Rightarrow> bool" where
  "PinAtPort_bool pp b \<longleftrightarrow> drop_bit (pa_pinNo pp) (pin (bports b (pa_port pp))) AND 1 \<noteq> 0"


section \<open>The level of a net\<close>

text \<open>
  What a digital net should show: two opposite drivers are a short circuit, a driver overrides
  pull resistors, a pull resistor overrides nothing but an open net.
\<close>

definition resolve :: "pinstate list \<Rightarrow> pinstate" where
  "resolve ss =
     (if SHORTED \<in> set ss \<or> (HIGH \<in> set ss \<and> LOW \<in> set ss) then SHORTED
      else if HIGH \<in> set ss then HIGH
      else if LOW \<in> set ss then LOW
      else if PULLUP \<in> set ss then PULLUP
      else if PULLDOWN \<in> set ss then PULLDOWN
      else TRISTATE)"

definition digital :: "pinstate list \<Rightarrow> bool" where
  "digital ss \<longleftrightarrow> ANALOG \<notin> set ss \<and> ANALOG_SHORTED \<notin> set ss \<and> \<not> (PULLUP \<in> set ss \<and> PULLDOWN \<in> set ss)"

definition reads_high :: "pinstate \<Rightarrow> bool" where
  "reads_high s \<longleftrightarrow> s = HIGH \<or> s = PULLUP \<or> s = TRISTATE"

lemma Pin_copy_Pin [simp]: "Pin_copy (Pin s) = Pin s"
  by (simp add: Pin_copy_def Pin_def)

lemma Pin_sel [simp]: "outState (Pin s) = s" "outState (Pin_copy p) = outState p"
  by (simp_all add: Pin_def Pin_copy_def)

lemma Pin_bool_Pin: "Pin_bool (Pin s) \<longleftrightarrow> reads_high s"
  by (cases s) (simp_all add: Pin_bool_def Pin_def setD_def state_level_def reads_high_def)

lemma Pin_plus_step:
  assumes "digital (ss @ [outState p])"
  shows "Pin_plus (Pin (resolve ss)) p = Pin (resolve (ss @ [outState p]))"
  using assms by (cases "outState p") (auto simp: Pin_plus_def resolve_def digital_def)

lemma digital_append: "digital (ss @ [s]) \<Longrightarrow> digital ss"
  by (auto simp: digital_def)

lemma net_fold:
  "digital (map outState ps) \<Longrightarrow> foldl Pin_plus (Pin TRISTATE) ps = Pin (resolve (map outState ps))"
proof (induction ps rule: rev_induct)
  case (snoc p ps)
  then show ?case using digital_append [of "map outState ps"] Pin_plus_step [of "map outState ps" p] by simp
qed (simp add: resolve_def)

lemma net_result_eq:
  assumes "digital (map (\<lambda>i. outState (GetPin b i)) (bnets b n))"
  shows "net_result b n = Pin (resolve (map (\<lambda>i. outState (GetPin b i)) (bnets b n)))"
  using net_fold [of "map (GetPin b) (bnets b n)"] assms
  by (simp add: net_result_def foldl_map o_def)

section \<open>Inputs\<close>

definition quiet :: "('f, 'w) board \<Rightarrow> nat \<Rightarrow> bool" where
  "quiet b i \<longleftrightarrow> notifyList (bpins b i) = []"

definition at_bit :: "('f, 'w) board \<Rightarrow> nat \<Rightarrow> nat \<Rightarrow> nat \<Rightarrow> bool" where
  "at_bit b i n k \<longleftrightarrow> pinOfPort (bpins b i) = Some n \<and> pin_mask (bpins b i) = push_bit k 1 \<and> k < 8"

definition in_state :: "nat \<Rightarrow> 'f iopin \<Rightarrow> ('f, 'w) board \<Rightarrow> ('f, 'w) board" where
  "in_state i p b =
     (let c = upd_pin i (\<lambda>q. q\<lparr>analogVal := analogVal p\<rparr>) b in
      case pinOfPort (bpins c i) of
        None \<Rightarrow> c
      | Some n \<Rightarrow> upd_port n (\<lambda>q. if Pin_bool p then q\<lparr>pin := pin q OR pin_mask (bpins c i)\<rparr>
                                   else q\<lparr>pin := pin q AND (0xff - pin_mask (bpins c i))\<rparr>) c)"

lemma upd_sel [simp]:
  "bpins (upd_port n f b) = bpins b" "bnets (upd_port n f b) = bnets b" "bworld (upd_port n f b) = bworld b"
  "bports (upd_pin i g b) = bports b" "bnets (upd_pin i g b) = bnets b" "bworld (upd_pin i g b) = bworld b"
  "bpins (upd_pin i g b) j = (if j = i then g (bpins b i) else bpins b j)"
  "bports (upd_port n f b) m = (if m = n then f (bports b n) else bports b m)"
  by (auto simp: upd_port_def upd_pin_def)

lemma SetInState_run: "quiet b i \<Longrightarrow> SetInState L i p b = Inr ((), in_state i p b)"
  by (simp add: SetInState_def in_state_def quiet_def Let_def split: option.splits)

lemma in_state_pin [simp]:
  "outState (bpins (in_state i p b) j) = outState (bpins b j)"
  "pinOfPort (bpins (in_state i p b) j) = pinOfPort (bpins b j)"
  "pin_mask (bpins (in_state i p b) j) = pin_mask (bpins b j)"
  "connectedTo (bpins (in_state i p b) j) = connectedTo (bpins b j)"
  "notifyList (bpins (in_state i p b) j) = notifyList (bpins b j)"
  "analogVal (bpins (in_state i p b) j) = (if j = i then analogVal p else analogVal (bpins b j))"
  "bnets (in_state i p b) = bnets b"
  by (auto simp: in_state_def Let_def split: option.splits)

lemma in_state_port [simp]:
  "port (bports (in_state i p b) n) = port (bports b n)" "ddr (bports (in_state i p b) n) = ddr (bports b n)"
  "portPins (bports (in_state i p b) n) = portPins (bports b n)"
  by (auto simp: in_state_def Let_def split: option.splits)

lemma in_state_quiet [simp]: "quiet (in_state i p b) j = quiet b j" "at_bit (in_state i p b) j n k = at_bit b j n k"
  by (simp_all add: quiet_def at_bit_def)

lemma bit_single: "k < 8 \<Longrightarrow> bit (2 ^ k :: byte) j \<longleftrightarrow> j = k"
  by (auto simp: bit_simps)

lemma bit_byte_less: "bit (x :: byte) j \<Longrightarrow> j < 8"
  using bit_imp_le_length [of x j] by simp

lemma mask_complement: "0xff - (m :: byte) = NOT m"
  by (simp add: not_eq_complement)

text \<open>The effect on the input register, for a pin of the port and for any other.\<close>

lemma in_state_bit:
  assumes "at_bit b i n k"
  shows "bit (pin (bports (in_state i p b) m)) j \<longleftrightarrow> (if m = n \<and> j = k then Pin_bool p else bit (pin (bports b m)) j)"
  using assms unfolding at_bit_def mask_complement in_state_def
  by (auto simp: Let_def bit_or_iff bit_and_iff bit_not_iff bit_single dest: bit_byte_less)

lemma in_state_loose:
  "pinOfPort (bpins b i) = None \<Longrightarrow> bports (in_state i p b) = bports b"
  by (simp add: in_state_def)

definition wired :: "('f, 'w) board \<Rightarrow> nat \<Rightarrow> bool" where
  "wired b i \<longleftrightarrow> pinOfPort (bpins b i) = None \<or> (\<exists>n k. at_bit b i n k)"

lemma in_states_run:
  "\<forall>i \<in> set is. quiet b i \<Longrightarrow> forS (\<lambda>i. SetInState L i p) is b = Inr ((), fold (\<lambda>i. in_state i p) is b)"
  by (induction "is" arbitrary: b) (simp_all add: SetInState_run)

lemma in_states_keep:
  "quiet (fold (\<lambda>i. in_state i p) is b) j = quiet b j"
  "at_bit (fold (\<lambda>i. in_state i p) is b) j n k = at_bit b j n k"
  "outState (bpins (fold (\<lambda>i. in_state i p) is b) j) = outState (bpins b j)"
  by (induction "is" arbitrary: b) simp_all

lemma in_states_bit:
  assumes "\<forall>i \<in> set is. wired b i"
  shows "bit (pin (bports (fold (\<lambda>i. in_state i p) is b) m)) j \<longleftrightarrow>
     (if \<exists>i \<in> set is. at_bit b i m j then Pin_bool p else bit (pin (bports b m)) j)"
  using assms
proof (induction "is" arbitrary: b)
  case (Cons i "is")
  have w: "\<forall>i \<in> set is. wired (in_state i' p b) i" for i' using Cons.prems by (simp add: wired_def)
  show ?case
  proof (cases "pinOfPort (bpins b i)")
    case None
    then have "\<not> at_bit b i m j" by (simp add: at_bit_def)
    then show ?thesis using Cons.IH [OF w] in_state_loose [OF None] by simp
  next
    case (Some n)
    then obtain k where k: "at_bit b i n k" using Cons.prems by (auto simp: wired_def at_bit_def)
    have "at_bit b i m j \<longleftrightarrow> m = n \<and> j = k" using k
      using bit_single [of k k] bit_single [of j k] by (auto simp: at_bit_def)
    then show ?thesis using Cons.IH [OF w] in_state_bit [OF k] by auto
  qed
qed simp

lemma CalcNet_run:
  assumes "\<forall>i \<in> set (bnets b n). quiet b i"
  shows "CalcNet L n b = Inr (Pin_bool (net_result b n), fold (\<lambda>i. in_state i (net_result b n)) (bnets b n) b)"
  using in_states_run [OF assms] by (simp add: CalcNet_def)


section \<open>Ports without connections\<close>

lemma upd_pins_other:
  "j \<notin> set ps \<Longrightarrow> bpins (fold (\<lambda>(k, i). upd_pin i (f k)) (enumerate m ps) b) j = bpins b j"
  "bports (fold (\<lambda>(k, i). upd_pin i (f k)) (enumerate m ps) b) = bports b"
  by (induction ps arbitrary: m b) simp_all

lemma upd_pins_nth:
  assumes "distinct ps" "k < length ps"
  shows "bpins (fold (\<lambda>(k, i). upd_pin i (f k)) (enumerate m ps) b) (ps ! k) = f (m + k) (bpins b (ps ! k))"
  using assms
proof (induction ps arbitrary: m b k)
  case (Cons i ps)
  then show ?case
    by (cases k) (auto simp: upd_pins_other)
qed simp

definition free_pin :: "('f, 'w) board \<Rightarrow> nat \<Rightarrow> bool" where
  "free_pin b i \<longleftrightarrow> quiet b i \<and> connectedTo (bpins b i) = None"

definition port_free :: "('f, 'w) board \<Rightarrow> nat \<Rightarrow> bool" where
  "port_free b n \<longleftrightarrow>
     (let ps = portPins (bports b n) in
      distinct ps \<and> length ps \<le> 8 \<and> portMask (bports b n) = mask (length ps) \<and>
      (\<forall>k < length ps. at_bit b (ps ! k) n k \<and> free_pin b (ps ! k)))"

lemma Pin_CalcPin_free:
  assumes "at_bit b i n k" "free_pin b i"
  shows "Pin_CalcPin L i b =
     Inr (Pin_bool (bpins b i), upd_port n (\<lambda>q. q\<lparr>pin := SetVal k (Pin_bool (bpins b i)) (pin q)\<rparr>) b)"
proof -
  have "upd_pin i (\<lambda>q. q\<lparr>analogVal := analogVal (bpins b i)\<rparr>) b = b"
    by (simp add: upd_pin_def)
  then have "in_state i (bpins b i) b = upd_port n (\<lambda>q. q\<lparr>pin := SetVal k (Pin_bool (bpins b i)) (pin q)\<rparr>) b"
    using assms(1) unfolding in_state_def at_bit_def mask_complement
    by (auto simp: Let_def SetVal_def upd_port_def)
  then show ?thesis using assms(2) by (simp add: Pin_CalcPin_def free_pin_def SetInState_run)
qed

lemma upd_port_upd_port [simp]: "upd_port n f (upd_port n g b) = upd_port n (\<lambda>q. f (g q)) b"
  by (simp add: upd_port_def)

lemma calc_loop:
  assumes "\<forall>(k, i) \<in> set es. at_bit b i n k \<and> free_pin b i"
  shows "forS (\<lambda>(tt, i). calc_bit L n tt i) es b =
     Inr ((), upd_port n (\<lambda>q. q\<lparr>pin := fold (\<lambda>(k, i). SetVal k (Pin_bool (bpins b i))) es (pin q)\<rparr>) b)"
  using assms
proof (induction es arbitrary: b)
  case Nil
  then show ?case by (simp add: upd_port_def)
next
  case (Cons e es)
  obtain k i where e: "e = (k, i)" by (cases e)
  have k: "at_bit b i n k" "free_pin b i" using Cons.prems e by auto
  let ?b = "upd_port n (\<lambda>q. q\<lparr>pin := SetVal k (Pin_bool (bpins b i)) (pin q)\<rparr>) b"
  have step: "calc_bit L n k i b = Inr ((), ?b)"
    using Pin_CalcPin_free [OF k] by (auto simp: calc_bit_def SetVal_def or.assoc)
  have "\<forall>(k, i) \<in> set es. at_bit ?b i n k \<and> free_pin ?b i"
    using Cons.prems by (auto simp: at_bit_def free_pin_def quiet_def)
  from Cons.IH [OF this] show ?case by (simp add: e step)
qed

lemma bit_SetVal: "k < 8 \<Longrightarrow> bit (SetVal k v x) j \<longleftrightarrow> (if j = k then v else bit x j)"
  by (auto simp: SetVal_def bit_or_iff bit_and_iff bit_not_iff bit_single dest: bit_byte_less)

lemma bits_enum:
  assumes "m + length ps \<le> 8"
  shows "bit (fold (\<lambda>(k, i). SetVal k (f i)) (enumerate m ps) x) j \<longleftrightarrow>
     (if m \<le> j \<and> j < m + length ps then f (ps ! (j - m)) else bit x j)"
  using assms
proof (induction ps arbitrary: m x)
  case (Cons i ps)
  then show ?case by (auto simp: bit_SetVal nth_Cons' not_less_eq_eq le_less_Suc_eq)
qed auto

lemma port_free_pins:
  "port_free b n \<Longrightarrow> \<forall>(k, i) \<in> set (enumerate 0 (portPins (bports b n))). at_bit b i n k \<and> free_pin b i"
  by (auto simp: port_free_def Let_def in_set_enumerate_eq)

lemma Port_CalcPin_run:
  assumes "port_free b n"
  shows "\<exists>x. Port_CalcPin L n b = Inr ((), upd_port n (\<lambda>q. q\<lparr>pin := x\<rparr>) b) \<and>
     (\<forall>k < length (portPins (bports b n)). bit x k \<longleftrightarrow> Pin_bool (bpins b (portPins (bports b n) ! k)))"
proof -
  let ?c = "upd_port n (\<lambda>q. q\<lparr>pin := 0\<rparr>) b" and ?ps = "portPins (bports b n)"
  have "\<forall>(k, i) \<in> set (enumerate 0 ?ps). at_bit ?c i n k \<and> free_pin ?c i"
    using port_free_pins [OF assms] by (auto simp: at_bit_def free_pin_def quiet_def)
  from calc_loop [OF this, of L] show ?thesis
    using bits_enum [of 0 ?ps "\<lambda>i. Pin_bool (bpins b i)" 0] assms
    by (intro exI [of _ "fold (\<lambda>(k, i). SetVal k (Pin_bool (bpins b i))) (enumerate 0 ?ps) 0"])
      (simp add: Port_CalcPin_def port_free_def Let_def)
qed

lemma CalcOutputs_run:
  assumes free: "port_free b n" and ps: "ps = portPins (bports b n)"
  obtains c where "CalcOutputs L n b = Inr ((), c)"
    and "\<exists>x. bports c = (bports b)(n := (bports b n)\<lparr>pin := x\<rparr>)"
    and "\<And>k. k < length ps \<Longrightarrow> bpins c (ps ! k) = (bpins b (ps ! k))\<lparr>outState := out_state (bports b n) k\<rparr>"
    and "\<And>k. k < length ps \<Longrightarrow> bit (pin (bports c n)) k \<longleftrightarrow> Pin_bool (bpins c (ps ! k))"
    and "port_free c n"
proof -
  let ?o = "set_outputs n b"
  have po: "bports ?o = bports b" by (simp add: set_outputs_def upd_pins_other)
  have d: "distinct ps" using free ps by (simp add: port_free_def Let_def)
  have nth: "bpins ?o (ps ! k) = (bpins b (ps ! k))\<lparr>outState := out_state (bports b n) k\<rparr>" if "k < length ps" for k
    using upd_pins_nth [OF d that, of "\<lambda>k p. p\<lparr>outState := out_state (bports b n) k\<rparr>" 0 b]
    by (simp add: set_outputs_def ps)
  have fo: "port_free ?o n"
    using free nth po ps by (simp add: port_free_def Let_def at_bit_def free_pin_def quiet_def)
  obtain x where x: "Port_CalcPin L n ?o = Inr ((), upd_port n (\<lambda>q. q\<lparr>pin := x\<rparr>) ?o)"
    "\<forall>k < length ps. bit x k \<longleftrightarrow> Pin_bool (bpins ?o (ps ! k))"
    using Port_CalcPin_run [OF fo, of L] po ps by auto
  show thesis
  proof (rule that)
    show "CalcOutputs L n b = Inr ((), upd_port n (\<lambda>q. q\<lparr>pin := x\<rparr>) ?o)" using x(1) by (simp add: CalcOutputs_def)
    show "\<exists>y. bports (upd_port n (\<lambda>q. q\<lparr>pin := x\<rparr>) ?o) = (bports b)(n := (bports b n)\<lparr>pin := y\<rparr>)"
      using po by (intro exI [of _ x]) (simp add: upd_port_def)
    show "port_free (upd_port n (\<lambda>q. q\<lparr>pin := x\<rparr>) ?o) n"
      using fo by (simp add: port_free_def Let_def at_bit_def free_pin_def quiet_def)
  qed (use nth x(2) in simp_all)
qed

text \<open>
  C36. A net of digital outputs takes the level that its drivers ask for: a short circuit when two
  drivers disagree, otherwise a driver's level, otherwise that of a pull resistor, otherwise high,
  whatever the order in which the pins were connected; every pin of a port on the net reads this
  level in its PIN register and the other bits of the port stay as they are.
\<close>

theorem CalcNet_resolves:
  assumes "digital (map (\<lambda>i. outState (GetPin b i)) (bnets b n))"
    and "\<forall>i \<in> set (bnets b n). quiet b i \<and> wired b i"
  shows "\<exists>c. CalcNet L n b = Inr (reads_high (resolve (map (\<lambda>i. outState (GetPin b i)) (bnets b n))), c) \<and>
     (\<forall>m k. bit (pin (bports c m)) k \<longleftrightarrow>
        (if \<exists>i \<in> set (bnets b n). at_bit b i m k
         then reads_high (resolve (map (\<lambda>i. outState (GetPin b i)) (bnets b n)))
         else bit (pin (bports b m)) k))"
proof -
  have "CalcNet L n b = Inr (Pin_bool (net_result b n), fold (\<lambda>i. in_state i (net_result b n)) (bnets b n) b)"
    using assms(2) by (intro CalcNet_run) simp
  then show ?thesis
    using in_states_bit [of "bnets b n" b "net_result b n"] assms(2)
    by (intro exI [of _ "fold (\<lambda>i. in_state i (net_result b n)) (bnets b n) b"])
      (simp add: net_result_eq [OF assms(1)] Pin_bool_Pin)
qed

definition test_board :: "(int, unit) board" where
  "test_board = \<lparr>bpins = (\<lambda>i. if i = 0 then (Pin_port 0 1)\<lparr>outState := PULLUP, connectedTo := Some 0\<rparr>
       else if i = 1 then (Pin LOW)\<lparr>connectedTo := Some 0\<rparr> else Pin TRISTATE),
     bnets = (\<lambda>n. if n = 0 then [0, 1] else []),
     bports = (\<lambda>n. \<lparr>port = 1, pin = 1, ddr = 0, alternateDdr = 0, useAlternateDdr = 0, alternatePort = 0,
       useAlternatePort = 0, useAlternatePortIfDdrSet = 0, portPins = [0], portMask = 1, portToggleFeature = False\<rparr>),
     bworld = ()\<rparr>"

text \<open>An input with a pull-up that is pulled down from outside reads zero.\<close>

theorem CalcNet_resolves_witness:
  "\<forall>L. \<exists>c. CalcNet L 0 test_board = Inr (False, c) \<and> \<not> bit (pin (bports c 0)) 0"
proof
  fix L :: "(int, unit) listener"
  have at: "at_bit test_board 0 0 0" by (simp add: at_bit_def test_board_def Pin_port_def)
  have "digital (map (\<lambda>i. outState (GetPin test_board i)) (bnets test_board 0))"
    and "\<forall>i \<in> set (bnets test_board 0). quiet test_board i \<and> wired test_board i"
    using at by (auto simp: digital_def GetPin_def test_board_def Pin_port_def Pin_def quiet_def wired_def Pin_copy_def)
  from CalcNet_resolves [OF this, of L]
  show "\<exists>c. CalcNet L 0 test_board = Inr (False, c) \<and> \<not> bit (pin (bports c 0)) 0"
  proof (elim exE conjE)
    fix c
    assume run: "CalcNet L 0 test_board = Inr (reads_high (resolve (map (\<lambda>i. outState (GetPin test_board i)) (bnets test_board 0))), c)"
      and bits: "\<forall>m k. bit (pin (bports c m)) k \<longleftrightarrow> (if \<exists>i \<in> set (bnets test_board 0). at_bit test_board i m k
        then reads_high (resolve (map (\<lambda>i. outState (GetPin test_board i)) (bnets test_board 0)))
        else bit (pin (bports test_board m)) k)"
    have "\<not> reads_high (resolve (map (\<lambda>i. outState (GetPin test_board i)) (bnets test_board 0)))"
      by (simp add: reads_high_def resolve_def GetPin_def test_board_def Pin_port_def Pin_def Pin_copy_def)
    moreover have "0 \<in> set (bnets test_board 0)" by (simp add: test_board_def)
    ultimately show ?thesis using run bits at by auto
  qed
qed

text \<open>
  C37. After a program has written DDR and then PORT, every pin of the port without an alternate
  function is driven, pulled up or floating as the two bits say, and PIN reads back the written
  bit on every output pin.
\<close>

theorem port_readback:
  assumes "port_free b n" and "ps = portPins (bports b n)" and "k < length ps"
    and "\<not> bit (useAlternatePortIfDdrSet (bports b n)) k" "\<not> bit (useAlternateDdr (bports b n)) k"
      "\<not> bit (useAlternatePort (bports b n)) k"
  shows "\<exists>c. sq (SetDdr L n d) (SetPort L n v) b = Inr ((), c) \<and> port_free c n \<and>
     outState (bpins c (ps ! k)) =
       (if bit d k then if bit v k then HIGH else LOW else if bit v k then PULLUP else TRISTATE) \<and>
     (bit d k \<longrightarrow> bit (pin (bports c n)) k = bit v k)"
proof -
  let ?b = "upd_port n (\<lambda>q. q\<lparr>ddr := d AND portMask q\<rparr>) b"
  have "port_free ?b n" using assms(1) by (simp add: port_free_def Let_def at_bit_def free_pin_def quiet_def)
  then obtain c1 where c1: "CalcOutputs L n ?b = Inr ((), c1)" "port_free c1 n"
    and pc1: "\<exists>x. bports c1 = (bports ?b)(n := (bports ?b n)\<lparr>pin := x\<rparr>)"
    by (rule CalcOutputs_run [OF _ refl]) blast
  let ?c = "upd_port n (\<lambda>q. q\<lparr>port := v AND portMask q\<rparr>) c1"
  have fc: "port_free ?c n" using c1(2) by (simp add: port_free_def Let_def at_bit_def free_pin_def quiet_def)
  have ps: "ps = portPins (bports ?c n)" using pc1 assms(2) by auto
  obtain c2 where c2: "CalcOutputs L n ?c = Inr ((), c2)" "port_free c2 n"
    and out: "bpins c2 (ps ! k) = (bpins ?c (ps ! k))\<lparr>outState := out_state (bports ?c n) k\<rparr>"
    and pin: "bit (pin (bports c2 n)) k \<longleftrightarrow> Pin_bool (bpins c2 (ps ! k))"
    by (rule CalcOutputs_run [OF fc ps, of L]) (use assms(3) in blast)
  have m: "bit (portMask (bports b n)) k"
    using assms(1-3) by (simp add: port_free_def Let_def bit_mask_iff)
  have "out_state (bports ?c n) k =
      (if bit d k then if bit v k then HIGH else LOW else if bit v k then PULLUP else TRISTATE)"
    using pc1 m assms(4-6) by (auto simp: out_state_def Let_def bit_and_iff)
  then have "outState (bpins c2 (ps ! k)) =
       (if bit d k then if bit v k then HIGH else LOW else if bit v k then PULLUP else TRISTATE)"
    using out by simp
  moreover from this have "bit d k \<longrightarrow> bit (pin (bports c2 n)) k = bit v k"
    using pin by (simp add: Pin_bool_def)
  ultimately show ?thesis using c1(1) c2 by (simp add: SetDdr_def SetPort_def)
qed

definition empty_board :: "(int, unit) board" where
  "empty_board = \<lparr>bpins = (\<lambda>i. Pin TRISTATE), bnets = (\<lambda>n. []), bports = (\<lambda>n. \<lparr>port = 0, pin = 0, ddr = 0,
     alternateDdr = 0, useAlternateDdr = 0, alternatePort = 0, useAlternatePort = 0, useAlternatePortIfDdrSet = 0,
     portPins = [], portMask = 0, portToggleFeature = False\<rparr>), bworld = ()\<rparr>"

text \<open>The constructor builds such a port.\<close>

lemma HWPort_free:
  assumes "distinct ids" "length ids = 8" "w = (if sz > 8 \<or> sz < 1 then 8 else nat sz)"
  shows "\<exists>c x. HWPort L n ids toggle sz b = Inr ((), c) \<and> port_free c n \<and> bports c n = \<lparr>port = 0, pin = x, ddr = 0,
     alternateDdr = 0, useAlternateDdr = 0, alternatePort = 0, useAlternatePort = 0, useAlternatePortIfDdrSet = 0,
     portPins = take w ids, portMask = word_of_nat (2 ^ w - 1), portToggleFeature = toggle\<rparr>"
proof -
  let ?q = "\<lparr>port = 0, pin = 0, ddr = 0, alternateDdr = 0, useAlternateDdr = 0, alternatePort = 0,
     useAlternatePort = 0, useAlternatePortIfDdrSet = 0, portPins = take w ids,
     portMask = word_of_nat (2 ^ w - 1), portToggleFeature = toggle\<rparr>"
  let ?b = "upd_port n (\<lambda>_. ?q) b"
  let ?c = "fold (\<lambda>(tt, i). upd_pin i (\<lambda>_. Pin_port n (push_bit tt 1))) (enumerate 0 (take w ids)) ?b"
  have s: "w \<le> 8" using assms(3) by (auto split: if_splits)
  have pins: "bpins ?c (take w ids ! k) = Pin_port n (push_bit k 1)" if "k < w" for k
    using upd_pins_nth [of "take w ids" k "\<lambda>tt _. Pin_port n (push_bit tt 1)" 0 ?b] that s assms(1,2) by simp
  have ports: "bports ?c n = ?q" by (simp add: upd_pins_other)
  have "port_free (upd_port n (\<lambda>q. q\<lparr>port := 0, pin := 0, ddr := 0, alternateDdr := 0, useAlternateDdr := 0,
       alternatePort := 0, useAlternatePort := 0, useAlternatePortIfDdrSet := 0\<rparr>) ?c) n" (is "port_free ?d n")
    using pins s assms(1,2) ports
    by (auto simp: port_free_def Let_def at_bit_def free_pin_def quiet_def Pin_port_def mask_eq_exp_minus_1
        of_nat_diff simp del: nth_take)
  then obtain c where c: "CalcOutputs L n ?d = Inr ((), c)" "port_free c n"
      "\<exists>x. bports c = (bports ?d)(n := (bports ?d n)\<lparr>pin := x\<rparr>)"
    by (rule CalcOutputs_run [OF _ refl]) blast
  then show ?thesis using assms(3) ports by (auto simp: HWPort_def Let_def Port_Reset_def)
qed

theorem port_readback_witness:
  "\<forall>L. \<exists>b c. HWPort L 0 [0, 1, 2, 3, 4, 5, 6, 7] False 8 empty_board = Inr ((), b) \<and>
     sq (SetDdr L 0 0x0f) (SetPort L 0 0x35) b = Inr ((), c) \<and>
     outState (bpins c 2) = HIGH \<and> bit (pin (bports c 0)) 2"
proof
  fix L :: "(int, unit) listener"
  obtain b x where b: "HWPort L 0 [0, 1, 2, 3, 4, 5, 6, 7] False 8 empty_board = Inr ((), b)" "port_free b 0"
    "bports b 0 = \<lparr>port = 0, pin = x, ddr = 0, alternateDdr = 0, useAlternateDdr = 0, alternatePort = 0,
       useAlternatePort = 0, useAlternatePortIfDdrSet = 0, portPins = take 8 [0, 1, 2, 3, 4, 5, 6, 7],
       portMask = word_of_nat (2 ^ 8 - 1), portToggleFeature = False\<rparr>"
    using HWPort_free [of "[0, 1, 2, 3, 4, 5, 6, 7]" 8 8 L 0 False empty_board] by auto
  have "\<exists>c. sq (SetDdr L 0 0x0f) (SetPort L 0 0x35) b = Inr ((), c) \<and> port_free c 0 \<and>
     outState (bpins c ([0, 1, 2, 3, 4, 5, 6, 7] ! 2)) =
       (if bit (0x0f :: byte) 2 then if bit (0x35 :: byte) 2 then HIGH else LOW
        else if bit (0x35 :: byte) 2 then PULLUP else TRISTATE) \<and>
     (bit (0x0f :: byte) 2 \<longrightarrow> bit (pin (bports c 0)) 2 = bit (0x35 :: byte) 2)"
    by (rule port_readback [OF b(2)]) (simp_all add: b(3))
  moreover have "bit (0x0f :: byte) 2" "bit (0x35 :: byte) 2" by code_simp+
  ultimately show "\<exists>b c. HWPort L 0 [0, 1, 2, 3, 4, 5, 6, 7] False 8 empty_board = Inr ((), b) \<and>
     sq (SetDdr L 0 0x0f) (SetPort L 0 0x35) b = Inr ((), c) \<and> outState (bpins c 2) = HIGH \<and> bit (pin (bports c 0)) 2"
    using b(1) by auto
qed

text \<open>Opposite pull resistors make the level depend on the order of the pins.\<close>

lemma net_order_matters:
  "outState (foldl Pin_plus (Pin TRISTATE) (map Pin [PULLUP, PULLDOWN, PULLUP]) :: int iopin) = PULLUP"
  "outState (foldl Pin_plus (Pin TRISTATE) (map Pin [PULLUP, PULLUP, PULLDOWN]) :: int iopin) = TRISTATE"
  by (simp_all add: Pin_plus_def)

end
