(* ===== verification/Avr_Timer.thy ===== *)
theory Avr_Timer
  imports Avr_TimerIrq Avr_Pin
begin

text \<open>
  The timers of \<^verbatim>\<open>src/src/hwtimer/hwtimer.h\<close> and \<^verbatim>\<open>hwtimer.cpp\<close>: \<open>BasicTimerUnit\<close> (counter,
  waveform generation, compare outputs, input capture), \<open>HWTimer8\<close>, \<open>HWTimer16\<close> and the seven
  timer classes that devices use, which differ in their control registers; and
  \<^verbatim>\<open>icapturesrc.cpp\<close>.

  \<^item> \<open>timer\<close> has the members of \<open>BasicTimerUnit\<close> and of the classes derived from it. Arrays are
    functions on the indices 0, 1, 2. An \<open>unsigned long\<close> has 64 bits. An \<open>IRQLine*\<close> is its vector
    (lines come from \<open>TimerIRQRegister::getLine\<close>, so that they are registered).
  \<^item> \<open>timer_dev\<close> is what a timer works on: itself, the interrupt registers, and the board with its
    output pins. \<open>clocked\<close> says whether the timer is in the device's \<open>hwCycleList\<close>.
  \<^item> \<open>timer_env\<close> has what it is given: the listeners of the board, the time, its identity for
    the interrupt system, and the output of the analog comparator.
\<close>

section \<open>State\<close>

type_synonym ulong = "64 word"

datatype wgm_type = WGM_NORMAL | WGM_PCPWM_8BIT | WGM_PCPWM_9BIT | WGM_PCPWM_10BIT | WGM_CTC_OCRA
  | WGM_FASTPWM_8BIT | WGM_FASTPWM_9BIT | WGM_FASTPWM_10BIT | WGM_PFCPWM_ICR | WGM_PFCPWM_OCRA
  | WGM_PCPWM_ICR | WGM_PCPWM_OCRA | WGM_CTC_ICR | WGM_RESERVED | WGM_FASTPWM_ICR | WGM_FASTPWM_OCRA

datatype com_type = COM_NOOP | COM_TOGGLE | COM_CLEAR | COM_SET

datatype ce_type = EVT_TOP_REACHED | EVT_MAX_REACHED | EVT_BOTTOM_REACHED
  | EVT_COMPARE_1 | EVT_COMPARE_2 | EVT_COMPARE_3

datatype wgm_func = WGMFunc_noop | Fn_normal | Fn_ctc | Fn_fastpwm | Fn_pcpwm | Fn_pfcpwm

datatype mux_kind = MuxPlain | MuxExt pin_at_port | MuxT15

record icapture =
  capturePin :: pin_at_port
  has_acomp :: bool
  acic :: bool

record timer =
  cs :: nat
  captureInputState :: bool
  icapNCcounter :: nat
  icapNCstate :: bool
  premx :: mux_kind
  clkpin_old :: bool
  timerOverflow :: "nat option"
  timerCapture :: "nat option"
  vtcnt :: ulong
  vlast_tcnt :: ulong
  updown_counting :: bool
  count_down :: bool
  limit_bottom :: ulong
  limit_top :: ulong
  limit_max :: ulong
  icapRegister :: ulong
  icapSource :: "icapture option"
  icapRisingEdge :: bool
  icapNoiseCanceler :: bool
  wgm :: wgm_type
  wgmfunc :: "wgm_type \<Rightarrow> wgm_func"
  compare :: "nat \<Rightarrow> ulong"
  compare_dbl :: "nat \<Rightarrow> ulong"
  compareEnable :: "nat \<Rightarrow> bool"
  com :: "nat \<Rightarrow> com_type"
  timerCompare :: "nat \<Rightarrow> nat option"
  compare_output :: "nat \<Rightarrow> pin_at_port option"
  compare_output_state :: "nat \<Rightarrow> bool"
  accessTempRegister :: byte   \<comment> \<open>\<open>HWTimer16\<close>\<close>
  tccra_val :: byte            \<comment> \<open>or \<open>tccr_val\<close>\<close>
  tccrb_val :: byte
  wgm_raw :: int
  at8515_mode :: bool

record ('f, 'w, 'hw) timer_dev =
  tm :: timer
  tirqs :: "'hw timer_irqs"
  tboard :: "('f, 'w) board"
  clocked :: bool

record ('f, 'w, 'hw) timer_env =
  te_listener :: "('f, 'w) listener"
  te_now :: int
  te_this :: 'hw
  te_aco :: bool

type_synonym ('f, 'w, 'hw, 'a) tsim = "(('f, 'w, 'hw) timer_dev, 'a) sim"

abbreviation upd_tm :: "(timer \<Rightarrow> timer) \<Rightarrow> ('f, 'w, 'hw, unit) tsim" where
  "upd_tm f \<equiv> modify (\<lambda>d. d\<lparr>tm := f (tm d)\<rparr>)"

abbreviation get_tm :: "(timer \<Rightarrow> 'a) \<Rightarrow> ('f, 'w, 'hw, 'a) tsim" where
  "get_tm f \<equiv> gets (\<lambda>d. f (tm d))"

abbreviation on_board :: "(('f, 'w) board, 'a) sim \<Rightarrow> ('f, 'w, 'hw, 'a) tsim" where
  "on_board \<equiv> zoom tboard (\<lambda>b d. d\<lparr>tboard := b\<rparr>)"

text \<open>
  \<open>line->fireInterrupt()\<close>; a null pointer is undefined behaviour. A line knows its register
  (\<open>irqreg\<close>) once \<open>registerLine\<close> has entered its vector there, and does nothing before.
\<close>

definition fire :: "('f, 'w, 'hw) timer_env \<Rightarrow> nat option \<Rightarrow> ('f, 'w, 'hw, unit) tsim" where
  "fire E line = (case line of
       None \<Rightarrow> fail UndefinedBehaviour
     | Some v \<Rightarrow>
         bnd (gets (\<lambda>d. vector2line (fst (tirqs d)) v \<noteq> None)) (\<lambda>irqreg.
         whenM irqreg (zoom tirqs (\<lambda>q d. d\<lparr>tirqs := q\<rparr>) (fireInterrupt (te_now E) (te_this E) v))))"

definition fire_if :: "('f, 'w, 'hw) timer_env \<Rightarrow> nat option \<Rightarrow> ('f, 'w, 'hw, unit) tsim" where
  "fire_if E line = (if line = None then ret () else fire E line)"

section \<open>Compare outputs\<close>

definition SetCompareOutputMode :: "('f::zero, 'w, 'hw) timer_env \<Rightarrow> nat \<Rightarrow> com_type \<Rightarrow> ('f, 'w, 'hw, unit) tsim" where
  "SetCompareOutputMode E idx mode =
     sq (upd_tm (\<lambda>t. t\<lparr>com := (com t)(idx := mode)\<rparr>))
     (bnd (get_tm (\<lambda>t. (compare_output t idx, compare_output_state t idx))) (\<lambda>(out, st).
      case out of
        None \<Rightarrow> ret ()
      | Some pp \<Rightarrow>
          if mode = COM_NOOP then on_board (SetUseAlternatePortIfDdrSet (te_listener E) pp False)
          else sq (on_board (SetUseAlternatePortIfDdrSet (te_listener E) pp True))
                  (on_board (SetAlternatePort (te_listener E) pp st))))"

text \<open>The end of both output functions: remember the new state and show a change at the pin.\<close>

definition drive :: "('f::zero, 'w, 'hw) timer_env \<Rightarrow> nat \<Rightarrow> bool \<Rightarrow> bool \<Rightarrow> ('f, 'w, 'hw, unit) tsim" where
  "drive E idx old_state new_state =
     sq (upd_tm (\<lambda>t. t\<lparr>compare_output_state := (compare_output_state t)(idx := new_state)\<rparr>))
     (bnd (get_tm (\<lambda>t. compare_output t idx)) (\<lambda>out.
      case out of
        None \<Rightarrow> ret ()
      | Some pp \<Rightarrow> whenM (old_state \<noteq> new_state) (on_board (SetAlternatePort (te_listener E) pp new_state))))"

definition SetCompareOutput :: "('f::zero, 'w, 'hw) timer_env \<Rightarrow> nat \<Rightarrow> ('f, 'w, 'hw, unit) tsim" where
  "SetCompareOutput E idx =
     bnd (get_tm (\<lambda>t. (com t idx, compare_output_state t idx))) (\<lambda>(mode, old_state).
     case mode of
       COM_NOOP \<Rightarrow> ret ()
     | COM_TOGGLE \<Rightarrow> drive E idx old_state (\<not> old_state)
     | COM_CLEAR \<Rightarrow> drive E idx old_state False
     | COM_SET \<Rightarrow> drive E idx old_state True)"

definition SetPWMCompareOutput :: "('f::zero, 'w, 'hw) timer_env \<Rightarrow> nat \<Rightarrow> bool \<Rightarrow> ('f, 'w, 'hw, unit) tsim" where
  "SetPWMCompareOutput E idx topOrDown =
     bnd (get_tm (\<lambda>t. (com t idx, compare_output_state t idx, wgm t))) (\<lambda>(mode, old_state, w).
     case mode of
       COM_NOOP \<Rightarrow> ret ()
     | COM_TOGGLE \<Rightarrow>
         sq (whenM ((w = WGM_FASTPWM_OCRA \<or> w = WGM_PCPWM_OCRA \<or> w = WGM_PFCPWM_OCRA) \<and> idx = 0)
               (SetCompareOutput E 0))
         (drive E idx old_state False)
     | COM_CLEAR \<Rightarrow> drive E idx old_state topOrDown
     | COM_SET \<Rightarrow> drive E idx old_state (\<not> topOrDown))"

section \<open>Waveform generation\<close>

definition WGMisPWM :: "timer \<Rightarrow> bool" where
  "WGMisPWM t \<longleftrightarrow> wgm t \<noteq> WGM_NORMAL \<and> wgm t \<noteq> WGM_CTC_OCRA \<and> wgm t \<noteq> WGM_CTC_ICR"

definition WGMuseICR :: "timer \<Rightarrow> bool" where
  "WGMuseICR t \<longleftrightarrow> wgm t = WGM_FASTPWM_ICR \<or> wgm t = WGM_CTC_ICR \<or> wgm t = WGM_PCPWM_ICR \<or> wgm t = WGM_PFCPWM_ICR"

text \<open>\<open>if(timerCompare[idx]) { timerCompare[idx]->fireInterrupt(); \<dots> }\<close>\<close>

definition compare_event ::
  "('f, 'w, 'hw) timer_env \<Rightarrow> nat \<Rightarrow> ('f, 'w, 'hw, unit) tsim \<Rightarrow> ('f, 'w, 'hw, unit) tsim" where
  "compare_event E idx output =
     bnd (get_tm (\<lambda>t. timerCompare t idx)) (\<lambda>line. whenM (line \<noteq> None) (sq (fire E line) output))"

definition WGMfunc_normal :: "('f::zero, 'w, 'hw) timer_env \<Rightarrow> ce_type \<Rightarrow> ('f, 'w, 'hw, unit) tsim" where
  "WGMfunc_normal E event = (case event of
       EVT_MAX_REACHED \<Rightarrow> bnd (get_tm timerOverflow) (fire E)
     | EVT_COMPARE_1 \<Rightarrow> compare_event E 0 (SetCompareOutput E 0)
     | EVT_COMPARE_2 \<Rightarrow> compare_event E 1 (SetCompareOutput E 1)
     | EVT_COMPARE_3 \<Rightarrow> compare_event E 2 (SetCompareOutput E 2)
     | _ \<Rightarrow> ret ())"

definition WGMfunc_ctc :: "('f::zero, 'w, 'hw) timer_env \<Rightarrow> ce_type \<Rightarrow> ('f, 'w, 'hw, unit) tsim" where
  "WGMfunc_ctc E event = (case event of
       EVT_MAX_REACHED \<Rightarrow> bnd (get_tm timerOverflow) (fire E)
     | EVT_TOP_REACHED \<Rightarrow> upd_tm (\<lambda>t. t\<lparr>vtcnt := limit_bottom t\<rparr>)
     | EVT_COMPARE_1 \<Rightarrow> compare_event E 0 (SetCompareOutput E 0)
     | EVT_COMPARE_2 \<Rightarrow> compare_event E 1 (SetCompareOutput E 1)
     | EVT_COMPARE_3 \<Rightarrow> compare_event E 2 (SetCompareOutput E 2)
     | _ \<Rightarrow> ret ())"

text \<open>Interrupts at TOP when OCRA or ICR defines it.\<close>

definition top_interrupts ::
  "('f, 'w, 'hw) timer_env \<Rightarrow> wgm_type \<Rightarrow> wgm_type \<Rightarrow> ('f, 'w, 'hw, unit) tsim" where
  "top_interrupts E w_ocra w_icr =
     bnd (get_tm (\<lambda>t. (wgm t, timerCompare t 0, timerCapture t))) (\<lambda>(w, cmp, cap).
     if w = w_ocra then fire_if E cmp else if w = w_icr then fire_if E cap else ret ())"

definition update_OCR_fastpwm :: "timer \<Rightarrow> timer" where
  "update_OCR_fastpwm t =
     (let a = compare_dbl t 0;
          t0 = (if wgm t = WGM_FASTPWM_8BIT then t\<lparr>compare := (compare t)(0 := a AND 0xff)\<rparr>
                else if wgm t = WGM_FASTPWM_9BIT then t\<lparr>compare := (compare t)(0 := a AND 0x1ff)\<rparr>
                else if wgm t = WGM_FASTPWM_10BIT then t\<lparr>compare := (compare t)(0 := a AND 0x3ff)\<rparr>
                else if wgm t = WGM_FASTPWM_OCRA then t\<lparr>limit_top := a\<rparr>
                else t\<lparr>compare := (compare t)(0 := a)\<rparr>)
      in t0\<lparr>compare := (compare t0)(1 := compare_dbl t 1, 2 := compare_dbl t 2)\<rparr>)"

definition WGMfunc_fastpwm :: "('f::zero, 'w, 'hw) timer_env \<Rightarrow> ce_type \<Rightarrow> ('f, 'w, 'hw, unit) tsim" where
  "WGMfunc_fastpwm E event = (case event of
       EVT_TOP_REACHED \<Rightarrow>
         sq (bnd (get_tm timerOverflow) (fire E))
         (sq (top_interrupts E WGM_FASTPWM_OCRA WGM_FASTPWM_ICR)
         (sq (forS (\<lambda>i. SetPWMCompareOutput E i True) [0, 1, 2])
         (upd_tm (\<lambda>t. t\<lparr>vtcnt := limit_bottom t\<rparr>))))
     | EVT_BOTTOM_REACHED \<Rightarrow> upd_tm update_OCR_fastpwm
     | EVT_COMPARE_1 \<Rightarrow> bnd (get_tm wgm) (\<lambda>w.
         whenM (w \<noteq> WGM_FASTPWM_OCRA) (compare_event E 0 (SetPWMCompareOutput E 0 False)))
     | EVT_COMPARE_2 \<Rightarrow> compare_event E 1 (SetPWMCompareOutput E 1 False)
     | EVT_COMPARE_3 \<Rightarrow> compare_event E 2 (SetPWMCompareOutput E 2 False)
     | _ \<Rightarrow> ret ())"

definition update_OCR_pcpwm :: "('f::zero, 'w, 'hw) timer_env \<Rightarrow> ('f, 'w, 'hw, unit) tsim" where
  "update_OCR_pcpwm E =
     bnd (get_tm (\<lambda>t. (wgm t, compare_dbl t 0))) (\<lambda>(w, a).
     sq (if w = WGM_PCPWM_8BIT then upd_tm (\<lambda>t. t\<lparr>compare := (compare t)(0 := a AND 0xff)\<rparr>)
         else if w = WGM_PCPWM_9BIT then upd_tm (\<lambda>t. t\<lparr>compare := (compare t)(0 := a AND 0x1ff)\<rparr>)
         else if w = WGM_PCPWM_10BIT then upd_tm (\<lambda>t. t\<lparr>compare := (compare t)(0 := a AND 0x3ff)\<rparr>)
         else if w = WGM_PCPWM_OCRA then sq (upd_tm (\<lambda>t. t\<lparr>limit_top := a\<rparr>)) (SetPWMCompareOutput E 0 False)
         else upd_tm (\<lambda>t. t\<lparr>compare := (compare t)(0 := a)\<rparr>))
     (upd_tm (\<lambda>t. t\<lparr>compare := (compare t)(1 := compare_dbl t 1, 2 := compare_dbl t 2)\<rparr>)))"

text \<open>\<open>SetPWMCompareOutput(idx, count_down)\<close>\<close>

definition pwm_updown :: "('f::zero, 'w, 'hw) timer_env \<Rightarrow> nat \<Rightarrow> ('f, 'w, 'hw, unit) tsim" where
  "pwm_updown E idx = bnd (get_tm count_down) (SetPWMCompareOutput E idx)"

definition WGMfunc_pcpwm :: "('f::zero, 'w, 'hw) timer_env \<Rightarrow> ce_type \<Rightarrow> ('f, 'w, 'hw, unit) tsim" where
  "WGMfunc_pcpwm E event = (case event of
       EVT_TOP_REACHED \<Rightarrow> sq (top_interrupts E WGM_PCPWM_OCRA WGM_PCPWM_ICR) (update_OCR_pcpwm E)
     | EVT_BOTTOM_REACHED \<Rightarrow> bnd (get_tm timerOverflow) (fire E)
     | EVT_COMPARE_1 \<Rightarrow> bnd (get_tm wgm) (\<lambda>w.
         whenM (w \<noteq> WGM_PCPWM_OCRA) (compare_event E 0 (pwm_updown E 0)))
     | EVT_COMPARE_2 \<Rightarrow> compare_event E 1 (pwm_updown E 1)
     | EVT_COMPARE_3 \<Rightarrow> compare_event E 2 (pwm_updown E 2)
     | _ \<Rightarrow> ret ())"

definition update_OCR_pfcpwm :: "timer \<Rightarrow> timer" where
  "update_OCR_pfcpwm t =
     (let t0 = (if wgm t = WGM_PFCPWM_OCRA then t\<lparr>limit_top := compare_dbl t 0\<rparr>
                else t\<lparr>compare := (compare t)(0 := compare_dbl t 0)\<rparr>)
      in t0\<lparr>compare := (compare t0)(1 := compare_dbl t 1, 2 := compare_dbl t 2)\<rparr>)"

definition WGMfunc_pfcpwm :: "('f::zero, 'w, 'hw) timer_env \<Rightarrow> ce_type \<Rightarrow> ('f, 'w, 'hw, unit) tsim" where
  "WGMfunc_pfcpwm E event = (case event of
       EVT_TOP_REACHED \<Rightarrow>
         sq (top_interrupts E WGM_PFCPWM_OCRA WGM_PFCPWM_ICR)
         (bnd (get_tm wgm) (\<lambda>w. whenM (w = WGM_PFCPWM_OCRA) (SetPWMCompareOutput E 0 False)))
     | EVT_BOTTOM_REACHED \<Rightarrow> sq (bnd (get_tm timerOverflow) (fire E)) (upd_tm update_OCR_pfcpwm)
     | EVT_COMPARE_1 \<Rightarrow> bnd (get_tm wgm) (\<lambda>w.
         whenM (w \<noteq> WGM_PFCPWM_OCRA) (compare_event E 0 (pwm_updown E 0)))
     | EVT_COMPARE_2 \<Rightarrow> compare_event E 1 (pwm_updown E 1)
     | EVT_COMPARE_3 \<Rightarrow> compare_event E 2 (pwm_updown E 2)
     | _ \<Rightarrow> ret ())"

definition HandleEvent :: "('f::zero, 'w, 'hw) timer_env \<Rightarrow> ce_type \<Rightarrow> ('f, 'w, 'hw, unit) tsim" where
  "HandleEvent E event =
     bnd (get_tm (\<lambda>t. wgmfunc t (wgm t))) (\<lambda>f.
     case f of
       WGMFunc_noop \<Rightarrow> ret ()
     | Fn_normal \<Rightarrow> WGMfunc_normal E event
     | Fn_ctc \<Rightarrow> WGMfunc_ctc E event
     | Fn_fastpwm \<Rightarrow> WGMfunc_fastpwm E event
     | Fn_pcpwm \<Rightarrow> WGMfunc_pcpwm E event
     | Fn_pfcpwm \<Rightarrow> WGMfunc_pfcpwm E event)"

section \<open>Counting\<close>

definition event_at :: "('f::zero, 'w, 'hw) timer_env \<Rightarrow> (timer \<Rightarrow> ulong) \<Rightarrow> ce_type \<Rightarrow> ('f, 'w, 'hw, unit) tsim" where
  "event_at E limit event =
     bnd (get_tm (\<lambda>t. vlast_tcnt t = limit t)) (\<lambda>hit. whenM hit (HandleEvent E event))"

definition compare_events :: "('f::zero, 'w, 'hw) timer_env \<Rightarrow> ('f, 'w, 'hw, unit) tsim" where
  "compare_events E =
     bnd (get_tm (\<lambda>t. compareEnable t 0)) (\<lambda>e0. whenM e0
       (sq (event_at E (\<lambda>t. compare t 0) EVT_COMPARE_1)
       (bnd (get_tm (\<lambda>t. compareEnable t 1)) (\<lambda>e1. whenM e1
         (sq (event_at E (\<lambda>t. compare t 1) EVT_COMPARE_2)
         (bnd (get_tm (\<lambda>t. compareEnable t 2)) (\<lambda>e2. whenM e2
           (event_at E (\<lambda>t. compare t 2) EVT_COMPARE_3))))))))"

definition count_up_down :: "timer \<Rightarrow> timer" where
  "count_up_down t =
     (if count_down t then
        (let v = vtcnt t - 1 in t\<lparr>vtcnt := v, count_down := (if v = limit_bottom t then False else True)\<rparr>)
      else
        (let v = vtcnt t + 1 in t\<lparr>vtcnt := v, count_down := (if v = limit_top t then True else False)\<rparr>))"

definition CountTimer :: "('f::zero, 'w, 'hw) timer_env \<Rightarrow> ('f, 'w, 'hw, unit) tsim" where
  "CountTimer E =
     sq (upd_tm (\<lambda>t. t\<lparr>vlast_tcnt := vtcnt t\<rparr>))
     (bnd (get_tm updown_counting) (\<lambda>updown.
     if updown then
       sq (compare_events E)
       (sq (bnd (get_tm (\<lambda>t. vlast_tcnt t = limit_bottom t)) (\<lambda>bottom.
              if bottom then HandleEvent E EVT_BOTTOM_REACHED else event_at E limit_top EVT_TOP_REACHED))
       (upd_tm count_up_down))
     else
       sq (upd_tm (\<lambda>t. t\<lparr>vtcnt := vtcnt t + 1\<rparr>))
       (sq (bnd (get_tm (\<lambda>t. vtcnt t > limit_max t)) (\<lambda>over.
              whenM over (sq (HandleEvent E EVT_MAX_REACHED)
                             (upd_tm (\<lambda>t. t\<lparr>vtcnt := vtcnt t AND limit_max t\<rparr>)))))
       (sq (event_at E limit_bottom EVT_BOTTOM_REACHED)
       (sq (event_at E limit_top EVT_TOP_REACHED)
       (compare_events E))))))"

definition GetSourceState :: "('f, 'w, 'hw) timer_env \<Rightarrow> icapture \<Rightarrow> ('f, 'w) board \<Rightarrow> bool" where
  "GetSourceState E src b = (if acic src \<and> has_acomp src then te_aco E else PinAtPort_bool (capturePin src) b)"

text \<open>The noise canceler: the level to use, and its next state.\<close>

definition noise_canceler :: "bool \<Rightarrow> timer \<Rightarrow> bool \<times> timer" where
  "noise_canceler lvl t =
     (if icapNoiseCanceler t then
        (if lvl = icapNCstate t then
           (if icapNCcounter t < 4 then (captureInputState t, t\<lparr>icapNCcounter := icapNCcounter t + 1\<rparr>) else (lvl, t))
         else (captureInputState t, t\<lparr>icapNCcounter := 0, icapNCstate := lvl\<rparr>))
      else (lvl, t))"

definition InputCapture :: "('f, 'w, 'hw) timer_env \<Rightarrow> ('f, 'w, 'hw, unit) tsim" where
  "InputCapture E =
     bnd (gets (\<lambda>d. (icapSource (tm d), WGMuseICR (tm d), tboard d))) (\<lambda>(src, useicr, b).
     case src of
       None \<Rightarrow> ret ()
     | Some s \<Rightarrow>
         if useicr then ret ()
         else bnd (get_tm (noise_canceler (GetSourceState E s b))) (\<lambda>(lvl, t').
           sq (upd_tm (\<lambda>_. t'))
           (whenM (lvl \<noteq> captureInputState t')
             (sq (whenM (lvl = icapRisingEdge t')
                   (sq (upd_tm (\<lambda>t. t\<lparr>icapRegister := vtcnt t\<rparr>)) (fire_if E (timerCapture t'))))
                 (upd_tm (\<lambda>t. t\<lparr>captureInputState := lvl\<rparr>))))))"

text \<open>\<open>premx->isClock(cs)\<close>; \<open>pv\<close> is the value of the prescaler.\<close>

definition isClock :: "word16 \<Rightarrow> ('f, 'w, 'hw, bool) tsim" where
  "isClock pv =
     bnd (gets (\<lambda>d. (premx (tm d), cs (tm d), tboard d))) (\<lambda>(mux, c, b).
     case mux of
       MuxPlain \<Rightarrow> asks (\<lambda>d. Mux_isClock c pv)
     | MuxExt pp \<Rightarrow> zoom (\<lambda>d. clkpin_old (tm d)) (\<lambda>s d. d\<lparr>tm := (tm d)\<lparr>clkpin_old := s\<rparr>\<rparr>)
                      (MuxExt_isClock c pv (PinAtPort_bool pp b))
     | MuxT15 \<Rightarrow> ret False)"

definition Timer_CpuCycle :: "('f::zero, 'w, 'hw) timer_env \<Rightarrow> word16 \<Rightarrow> ('f, 'w, 'hw, unit) tsim" where
  "Timer_CpuCycle E pv = sq (bnd (isClock pv) (\<lambda>c. whenM c (CountTimer E))) (InputCapture E)"

section \<open>Control\<close>

definition SetClockMode :: "nat \<Rightarrow> ('f, 'w, 'hw, unit) tsim" where
  "SetClockMode mode = modify (\<lambda>d. d\<lparr>tm := (tm d)\<lparr>cs := mode\<rparr>, clocked := (mode \<noteq> 0)\<rparr>)"

definition SetCounter :: "ulong \<Rightarrow> timer \<Rightarrow> timer" where
  "SetCounter val t = t\<lparr>vtcnt := val, vlast_tcnt := 0x10000\<rparr>"

definition Timer_Reset :: "('f::zero, 'w, 'hw) timer_env \<Rightarrow> ('f, 'w, 'hw, unit) tsim" where
  "Timer_Reset E =
     sq (upd_tm (\<lambda>t. t\<lparr>vtcnt := 0, limit_bottom := 0, limit_top := limit_max t, vlast_tcnt := limit_max t\<rparr>))
     (sq (forS (\<lambda>i. sq (upd_tm (\<lambda>t. t\<lparr>compare_dbl := (compare_dbl t)(i := 0), compare := (compare t)(i := 0)\<rparr>))
           (sq (SetCompareOutputMode E i COM_NOOP)
           (upd_tm (\<lambda>t. t\<lparr>compare_output_state := (compare_output_state t)(i := False)\<rparr>)))) [0, 1, 2])
     (sq (SetClockMode 0)
     (upd_tm (\<lambda>t. t\<lparr>updown_counting := False, count_down := False, wgm := WGM_NORMAL, icapRisingEdge := False,
        icapNoiseCanceler := False\<rparr>))))"

section \<open>Eight bit timers\<close>

text \<open>The constructor's state before \<open>Reset\<close>; members that it leaves uninitialised are those of \<open>t0\<close>.\<close>

definition BasicTimerUnit :: "timer \<Rightarrow> mux_kind \<Rightarrow> bool \<Rightarrow> nat option \<Rightarrow> nat option \<Rightarrow> icapture option \<Rightarrow> ulong \<Rightarrow> timer" where
  "BasicTimerUnit t0 mux pinlevel tov tcap icapsrc maxval =
     t0\<lparr>premx := mux, clkpin_old := pinlevel, timerOverflow := tov, timerCapture := tcap, icapSource := icapsrc,
       limit_max := maxval, icapRegister := 0, compareEnable := (\<lambda>i. False), timerCompare := (\<lambda>i. None),
       compare_output := (\<lambda>i. None), wgmfunc := (\<lambda>w. WGMFunc_noop), captureInputState := False,
       icapNCcounter := 0, icapNCstate := False\<rparr>"

definition enable_OC :: "nat \<Rightarrow> nat option \<Rightarrow> pin_at_port option \<Rightarrow> timer \<Rightarrow> timer" where
  "enable_OC idx tcomp out t =
     (if tcomp = None then t
      else t\<lparr>compareEnable := (compareEnable t)(idx := True), timerCompare := (timerCompare t)(idx := tcomp),
             compare_output := (compare_output t)(idx := out)\<rparr>)"

definition HWTimer8_wgmfunc :: "wgm_type \<Rightarrow> wgm_func" where
  "HWTimer8_wgmfunc w = (case w of WGM_NORMAL \<Rightarrow> Fn_normal | WGM_CTC_OCRA \<Rightarrow> Fn_ctc
     | WGM_FASTPWM_8BIT \<Rightarrow> Fn_fastpwm | WGM_PCPWM_8BIT \<Rightarrow> Fn_pcpwm | _ \<Rightarrow> WGMFunc_noop)"

definition HWTimer8 :: "timer \<Rightarrow> mux_kind \<Rightarrow> bool \<Rightarrow> nat option \<Rightarrow> nat option \<Rightarrow> pin_at_port option \<Rightarrow>
    nat option \<Rightarrow> pin_at_port option \<Rightarrow> timer" where
  "HWTimer8 t0 mux pinlevel tov tcompA outA tcompB outB =
     (enable_OC 1 tcompB outB (enable_OC 0 tcompA outA (BasicTimerUnit t0 mux pinlevel tov None None 0xff)))
       \<lparr>wgmfunc := HWTimer8_wgmfunc\<rparr>"

definition ChangeWGM8 :: "wgm_type \<Rightarrow> timer \<Rightarrow> timer" where
  "ChangeWGM8 mode t0 =
     (let t = t0\<lparr>wgm := mode\<rparr> in
      case mode of
        WGM_NORMAL \<Rightarrow> t\<lparr>limit_top := limit_max t, updown_counting := False\<rparr>
      | WGM_CTC_OCRA \<Rightarrow> t\<lparr>limit_top := compare t 0, updown_counting := False\<rparr>
      | WGM_FASTPWM_8BIT \<Rightarrow> t\<lparr>limit_top := limit_max t, updown_counting := False\<rparr>
      | WGM_PCPWM_8BIT \<Rightarrow> t\<lparr>limit_top := limit_max t, updown_counting := True, count_down := False\<rparr>
      | _ \<Rightarrow> t)"

definition set_compare :: "nat \<Rightarrow> ulong \<Rightarrow> timer \<Rightarrow> timer" where
  "set_compare idx val t =
     (if WGMisPWM t then t\<lparr>compare_dbl := (compare_dbl t)(idx := val)\<rparr>
      else let u = t\<lparr>compare := (compare t)(idx := val), compare_dbl := (compare_dbl t)(idx := val)\<rparr>
        in if wgm t = WGM_CTC_OCRA \<and> idx = 0 then u\<lparr>limit_top := val\<rparr> else u)"

definition SetCompareRegister8 :: "nat \<Rightarrow> byte \<Rightarrow> timer \<Rightarrow> timer" where
  "SetCompareRegister8 idx val = set_compare idx (ucast val)"

definition get_compare :: "nat \<Rightarrow> timer \<Rightarrow> ulong" where
  "get_compare idx t = (if WGMisPWM t then compare_dbl t idx else compare t idx)"

definition GetCompareRegister8 :: "nat \<Rightarrow> timer \<Rightarrow> byte" where
  "GetCompareRegister8 idx t = ucast (get_compare idx t AND 0xff)"

definition Set_TCNT8 :: "byte \<Rightarrow> timer \<Rightarrow> timer" where
  "Set_TCNT8 val = SetCounter (ucast val)"

definition Get_TCNT8 :: "timer \<Rightarrow> byte" where
  "Get_TCNT8 t = ucast (vtcnt t AND 0xff)"

section \<open>Sixteen bit timers\<close>

definition HWTimer16_wgmfunc :: "wgm_type \<Rightarrow> wgm_func" where
  "HWTimer16_wgmfunc w = (case w of
       WGM_NORMAL \<Rightarrow> Fn_normal | WGM_CTC_OCRA \<Rightarrow> Fn_ctc | WGM_CTC_ICR \<Rightarrow> Fn_ctc
     | WGM_FASTPWM_8BIT \<Rightarrow> Fn_fastpwm | WGM_FASTPWM_9BIT \<Rightarrow> Fn_fastpwm | WGM_FASTPWM_10BIT \<Rightarrow> Fn_fastpwm
     | WGM_FASTPWM_OCRA \<Rightarrow> Fn_fastpwm | WGM_FASTPWM_ICR \<Rightarrow> Fn_fastpwm
     | WGM_PCPWM_8BIT \<Rightarrow> Fn_pcpwm | WGM_PCPWM_9BIT \<Rightarrow> Fn_pcpwm | WGM_PCPWM_10BIT \<Rightarrow> Fn_pcpwm
     | WGM_PCPWM_OCRA \<Rightarrow> Fn_pcpwm | WGM_PCPWM_ICR \<Rightarrow> Fn_pcpwm
     | WGM_PFCPWM_OCRA \<Rightarrow> Fn_pfcpwm | WGM_PFCPWM_ICR \<Rightarrow> Fn_pfcpwm
     | WGM_RESERVED \<Rightarrow> WGMFunc_noop)"

definition HWTimer16 :: "timer \<Rightarrow> mux_kind \<Rightarrow> bool \<Rightarrow> nat option \<Rightarrow> nat option \<Rightarrow> pin_at_port option \<Rightarrow>
    nat option \<Rightarrow> pin_at_port option \<Rightarrow> nat option \<Rightarrow> pin_at_port option \<Rightarrow> nat option \<Rightarrow> icapture option \<Rightarrow> timer" where
  "HWTimer16 t0 mux pinlevel tov tcompA outA tcompB outB tcompC outC ticap icapsrc =
     (enable_OC 2 tcompC outC (enable_OC 1 tcompB outB (enable_OC 0 tcompA outA
       (BasicTimerUnit t0 mux pinlevel tov ticap icapsrc 0xffff))))\<lparr>wgmfunc := HWTimer16_wgmfunc\<rparr>"

definition ChangeWGM16 :: "wgm_type \<Rightarrow> timer \<Rightarrow> timer" where
  "ChangeWGM16 mode t0 =
     (let t = t0\<lparr>wgm := mode\<rparr>;
          up = (\<lambda>top. t\<lparr>limit_top := top, updown_counting := False\<rparr>);
          updown = (\<lambda>top. t\<lparr>limit_top := top, updown_counting := True, count_down := False\<rparr>)
      in case mode of
        WGM_RESERVED \<Rightarrow> t
      | WGM_NORMAL \<Rightarrow> up (limit_max t)
      | WGM_CTC_OCRA \<Rightarrow> up (compare t 0)
      | WGM_CTC_ICR \<Rightarrow> up (icapRegister t)
      | WGM_FASTPWM_8BIT \<Rightarrow> up 0xff
      | WGM_FASTPWM_9BIT \<Rightarrow> up 0x1ff
      | WGM_FASTPWM_10BIT \<Rightarrow> up 0x3ff
      | WGM_FASTPWM_OCRA \<Rightarrow> up (compare t 0)
      | WGM_FASTPWM_ICR \<Rightarrow> up (icapRegister t)
      | WGM_PCPWM_8BIT \<Rightarrow> updown 0xff
      | WGM_PCPWM_9BIT \<Rightarrow> updown 0x1ff
      | WGM_PCPWM_10BIT \<Rightarrow> updown 0x3ff
      | WGM_PCPWM_OCRA \<Rightarrow> updown (compare t 0)
      | WGM_PFCPWM_OCRA \<Rightarrow> updown (compare t 0)
      | WGM_PCPWM_ICR \<Rightarrow> updown (icapRegister t)
      | WGM_PFCPWM_ICR \<Rightarrow> updown (icapRegister t))"

text \<open>\<open>(accessTempRegister << 8) + val\<close>\<close>

definition with_temp :: "byte \<Rightarrow> timer \<Rightarrow> ulong" where
  "with_temp val t = push_bit 8 (ucast (accessTempRegister t)) + ucast val"

definition SetCompareRegister16 :: "nat \<Rightarrow> bool \<Rightarrow> byte \<Rightarrow> timer \<Rightarrow> timer" where
  "SetCompareRegister16 idx high val t =
     (if high then t\<lparr>accessTempRegister := val\<rparr> else set_compare idx (with_temp val t) t)"

definition GetCompareRegister16 :: "nat \<Rightarrow> bool \<Rightarrow> timer \<Rightarrow> byte" where
  "GetCompareRegister16 idx high t =
     (if high then ucast (drop_bit 8 (get_compare idx t) AND 0xff) else ucast (get_compare idx t AND 0xff))"

definition SetComplexRegister :: "bool \<Rightarrow> bool \<Rightarrow> byte \<Rightarrow> timer \<Rightarrow> timer" where
  "SetComplexRegister is_icr high val t =
     (if high then (if is_icr \<and> \<not> WGMuseICR t then t else t\<lparr>accessTempRegister := val\<rparr>)
      else if is_icr then
        (if WGMuseICR t then
           (let u = t\<lparr>icapRegister := with_temp val t\<rparr> in
            if wgm t = WGM_FASTPWM_ICR then u\<lparr>limit_top := icapRegister u\<rparr> else u)
         else t)
      else SetCounter (with_temp val t) t)"

definition GetComplexRegister :: "bool \<Rightarrow> bool \<Rightarrow> timer \<Rightarrow> byte \<times> timer" where
  "GetComplexRegister is_icr high t =
     (if high then (accessTempRegister t, t)
      else let v = (if is_icr then icapRegister t else vtcnt t)
        in (ucast (v AND 0xff), t\<lparr>accessTempRegister := ucast (drop_bit 8 v AND 0xff)\<rparr>))"

definition Timer16_Reset :: "('f::zero, 'w, 'hw) timer_env \<Rightarrow> ('f, 'w, 'hw, unit) tsim" where
  "Timer16_Reset E = sq (Timer_Reset E) (upd_tm (\<lambda>t. t\<lparr>accessTempRegister := 0\<rparr>))"

section \<open>Control registers\<close>

definition com_of :: "byte \<Rightarrow> com_type" where
  "com_of v = (if v AND 3 = 0 then COM_NOOP else if v AND 3 = 1 then COM_TOGGLE
     else if v AND 3 = 2 then COM_CLEAR else COM_SET)"

definition wgm_table :: "wgm_type list" where
  "wgm_table = [WGM_NORMAL, WGM_PCPWM_8BIT, WGM_PCPWM_9BIT, WGM_PCPWM_10BIT, WGM_CTC_OCRA, WGM_FASTPWM_8BIT,
     WGM_FASTPWM_9BIT, WGM_FASTPWM_10BIT, WGM_PFCPWM_ICR, WGM_PFCPWM_OCRA, WGM_PCPWM_ICR, WGM_PCPWM_OCRA,
     WGM_CTC_ICR, WGM_RESERVED, WGM_FASTPWM_ICR, WGM_FASTPWM_OCRA]"

text \<open>The conversions between \<open>int\<close> and the enumeration.\<close>

definition wgm_of :: "int \<Rightarrow> wgm_type" where
  "wgm_of i = wgm_table ! nat i"

definition wgm_int :: "wgm_type \<Rightarrow> int" where
  "wgm_int w = int (length (takeWhile (\<lambda>x. x \<noteq> w) wgm_table))"

definition clock_bits :: "byte \<Rightarrow> nat" where
  "clock_bits val = unat (val AND 0x7)"

text \<open>\<open>temp &= ~mask; temp += bits\<close>\<close>

definition replace_bits :: "int \<Rightarrow> byte \<Rightarrow> int \<Rightarrow> int" where
  "replace_bits m bits raw = (raw AND NOT m) + (uint bits AND m)"

definition force_compare :: "('f::zero, 'w, 'hw) timer_env \<Rightarrow> byte \<Rightarrow> (nat \<times> nat) list \<Rightarrow> ('f, 'w, 'hw, unit) tsim" where
  "force_compare E val foc =
     bnd (get_tm WGMisPWM) (\<lambda>pwm. whenM (\<not> pwm)
       (forS (\<lambda>(b, idx). whenM (bit val b) (SetCompareOutput E idx)) foc))"

definition Set_TCCR_8_0C :: "byte \<Rightarrow> ('f, 'w, 'hw, unit) tsim" where
  "Set_TCCR_8_0C val = sq (SetClockMode (clock_bits val)) (upd_tm (\<lambda>t. t\<lparr>tccra_val := val\<rparr>))"

definition wgm_8_1C :: "byte \<Rightarrow> wgm_type" where
  "wgm_8_1C val = [WGM_NORMAL, WGM_PCPWM_8BIT, WGM_CTC_OCRA, WGM_FASTPWM_8BIT]
     ! unat (drop_bit 2 (val AND 0x8) + drop_bit 6 (val AND 0x40))"

definition Set_TCCR_8_1C :: "('f::zero, 'w, 'hw) timer_env \<Rightarrow> byte \<Rightarrow> ('f, 'w, 'hw, unit) tsim" where
  "Set_TCCR_8_1C E val =
     sq (upd_tm (\<lambda>t. if wgm t \<noteq> wgm_8_1C val then ChangeWGM8 (wgm_8_1C val) t else t))
     (sq (SetCompareOutputMode E 0 (com_of (drop_bit 4 val)))
     (sq (SetClockMode (clock_bits val))
     (sq (force_compare E val [(7, 0)])
     (upd_tm (\<lambda>t. t\<lparr>tccra_val := val AND 0x7f\<rparr>)))))"

definition Set_WGM :: "(wgm_type \<Rightarrow> timer \<Rightarrow> timer) \<Rightarrow> (int \<Rightarrow> wgm_type) \<Rightarrow> int \<Rightarrow> timer \<Rightarrow> timer" where
  "Set_WGM change translate val t =
     (if wgm_raw t \<noteq> val then (change (translate val) t)\<lparr>wgm_raw := val\<rparr> else t)"

definition Set_WGM_8_2C :: "int \<Rightarrow> timer \<Rightarrow> timer" where
  "Set_WGM_8_2C = Set_WGM ChangeWGM8 (\<lambda>val. [WGM_NORMAL, WGM_PCPWM_8BIT, WGM_CTC_OCRA, WGM_FASTPWM_8BIT,
     WGM_RESERVED, WGM_PCPWM_OCRA, WGM_RESERVED, WGM_FASTPWM_OCRA] ! nat (val AND 7))"

definition Set_TCCRA_8_2C :: "('f::zero, 'w, 'hw) timer_env \<Rightarrow> byte \<Rightarrow> ('f, 'w, 'hw, unit) tsim" where
  "Set_TCCRA_8_2C E val =
     sq (upd_tm (\<lambda>t. Set_WGM_8_2C (replace_bits 3 val (wgm_raw t)) t))
     (sq (SetCompareOutputMode E 0 (com_of (drop_bit 6 val)))
     (sq (SetCompareOutputMode E 1 (com_of (drop_bit 4 val)))
     (upd_tm (\<lambda>t. t\<lparr>tccra_val := val\<rparr>))))"

definition Set_TCCRB_8_2C :: "('f::zero, 'w, 'hw) timer_env \<Rightarrow> byte \<Rightarrow> ('f, 'w, 'hw, unit) tsim" where
  "Set_TCCRB_8_2C E val =
     sq (upd_tm (\<lambda>t. Set_WGM_8_2C (replace_bits 4 (drop_bit 1 val) (wgm_raw t)) t))
     (sq (SetClockMode (clock_bits val))
     (sq (force_compare E val [(7, 0), (6, 1)])
     (upd_tm (\<lambda>t. t\<lparr>tccrb_val := val AND 0x3f\<rparr>))))"

text \<open>The modes of the AT90S4433 and, in \<open>at8515_mode\<close>, of the AT90S8515.\<close>

definition wgm_at90s :: "int \<Rightarrow> wgm_type" where
  "wgm_at90s val = [WGM_NORMAL, WGM_PCPWM_8BIT, WGM_PCPWM_9BIT, WGM_PCPWM_10BIT, WGM_CTC_OCRA,
     WGM_PCPWM_8BIT, WGM_PCPWM_9BIT, WGM_PCPWM_10BIT] ! nat (val AND 7)"

definition Set_WGM_16_1C :: "int \<Rightarrow> timer \<Rightarrow> timer" where
  "Set_WGM_16_1C = Set_WGM ChangeWGM16 wgm_at90s"

definition Set_TCCRA_16_1C :: "('f::zero, 'w, 'hw) timer_env \<Rightarrow> byte \<Rightarrow> ('f, 'w, 'hw, unit) tsim" where
  "Set_TCCRA_16_1C E val =
     sq (upd_tm (\<lambda>t. Set_WGM_16_1C (replace_bits 3 val (wgm_raw t)) t))
     (sq (SetCompareOutputMode E 0 (com_of (drop_bit 6 val)))
     (upd_tm (\<lambda>t. t\<lparr>tccra_val := val\<rparr>)))"

definition set_icap :: "byte \<Rightarrow> timer \<Rightarrow> timer" where
  "set_icap val t = t\<lparr>icapNoiseCanceler := bit val 7, icapRisingEdge := bit val 6, tccrb_val := val\<rparr>"

definition Set_TCCRB_16_1C :: "byte \<Rightarrow> ('f, 'w, 'hw, unit) tsim" where
  "Set_TCCRB_16_1C val =
     sq (upd_tm (\<lambda>t. Set_WGM_16_1C (replace_bits 4 (drop_bit 1 val) (wgm_raw t)) t))
     (sq (SetClockMode (clock_bits val)) (upd_tm (set_icap val)))"

definition Set_WGM_16_2C2 :: "int \<Rightarrow> timer \<Rightarrow> timer" where
  "Set_WGM_16_2C2 val t = Set_WGM ChangeWGM16 (if at8515_mode t then wgm_at90s else wgm_of) val t"

definition Set_TCCRA_16_2C2 :: "('f::zero, 'w, 'hw) timer_env \<Rightarrow> byte \<Rightarrow> ('f, 'w, 'hw, unit) tsim" where
  "Set_TCCRA_16_2C2 E val =
     sq (upd_tm (\<lambda>t. Set_WGM_16_2C2 (replace_bits 3 val (wgm_raw t)) t))
     (sq (SetCompareOutputMode E 0 (com_of (drop_bit 6 val)))
     (sq (SetCompareOutputMode E 1 (com_of (drop_bit 4 val)))
     (sq (bnd (get_tm at8515_mode) (\<lambda>m. whenM (\<not> m) (force_compare E val [(3, 0), (2, 1)])))
     (upd_tm (\<lambda>t. t\<lparr>tccra_val := val\<rparr>)))))"

definition Set_TCCRB_16_2C2 :: "byte \<Rightarrow> ('f, 'w, 'hw, unit) tsim" where
  "Set_TCCRB_16_2C2 val =
     sq (upd_tm (\<lambda>t. Set_WGM_16_2C2
          (replace_bits (if at8515_mode t then 0x4 else 0xc) (drop_bit 1 val) (wgm_raw t)) t))
     (sq (SetClockMode (clock_bits val)) (upd_tm (set_icap val)))"

text \<open>\<open>HWTimer16_2C3\<close> and \<open>HWTimer16_3C\<close> keep no raw value of their own.\<close>

definition change_wgm_bits :: "int \<Rightarrow> byte \<Rightarrow> timer \<Rightarrow> timer" where
  "change_wgm_bits m bits t =
     (let temp = replace_bits m bits (wgm_int (wgm t))
      in if wgm t \<noteq> wgm_of temp then ChangeWGM16 (wgm_of temp) t else t)"

definition Set_TCCRA_16_2C3 :: "('f::zero, 'w, 'hw) timer_env \<Rightarrow> byte \<Rightarrow> ('f, 'w, 'hw, unit) tsim" where
  "Set_TCCRA_16_2C3 E val =
     sq (upd_tm (change_wgm_bits 3 val))
     (sq (SetCompareOutputMode E 0 (com_of (drop_bit 6 val)))
     (sq (SetCompareOutputMode E 1 (com_of (drop_bit 4 val)))
     (upd_tm (\<lambda>t. t\<lparr>tccra_val := val\<rparr>))))"

definition Set_TCCRB_16_2C3 :: "byte \<Rightarrow> ('f, 'w, 'hw, unit) tsim" where
  "Set_TCCRB_16_2C3 val =
     sq (upd_tm (change_wgm_bits 0xc (drop_bit 1 val)))
     (sq (SetClockMode (clock_bits val)) (upd_tm (set_icap val)))"

definition Set_TCCRC_16_2C3 :: "('f::zero, 'w, 'hw) timer_env \<Rightarrow> byte \<Rightarrow> ('f, 'w, 'hw, unit) tsim" where
  "Set_TCCRC_16_2C3 E val = force_compare E val [(7, 0), (6, 1)]"

definition Set_TCCRA_16_3C :: "('f::zero, 'w, 'hw) timer_env \<Rightarrow> byte \<Rightarrow> ('f, 'w, 'hw, unit) tsim" where
  "Set_TCCRA_16_3C E val =
     sq (upd_tm (change_wgm_bits 3 val))
     (sq (SetCompareOutputMode E 0 (com_of (drop_bit 6 val)))
     (sq (SetCompareOutputMode E 1 (com_of (drop_bit 4 val)))
     (sq (SetCompareOutputMode E 2 (com_of (drop_bit 2 val)))
     (upd_tm (\<lambda>t. t\<lparr>tccra_val := val\<rparr>)))))"

definition Set_TCCRB_16_3C :: "byte \<Rightarrow> ('f, 'w, 'hw, unit) tsim" where
  "Set_TCCRB_16_3C val =
     sq (upd_tm (change_wgm_bits 0xc (drop_bit 1 val)))
     (sq (SetClockMode (clock_bits val)) (upd_tm (set_icap val)))"

definition Set_TCCRC_16_3C :: "('f::zero, 'w, 'hw) timer_env \<Rightarrow> byte \<Rightarrow> ('f, 'w, 'hw, unit) tsim" where
  "Set_TCCRC_16_3C E val = force_compare E val [(7, 0), (6, 1), (5, 2)]"

text \<open>The resets of the derived classes.\<close>

definition Timer8_xC_Reset :: "('f::zero, 'w, 'hw) timer_env \<Rightarrow> ('f, 'w, 'hw, unit) tsim" where
  "Timer8_xC_Reset E = sq (Timer_Reset E) (upd_tm (\<lambda>t. t\<lparr>tccra_val := 0\<rparr>))"

definition Timer8_2C_Reset :: "('f::zero, 'w, 'hw) timer_env \<Rightarrow> ('f, 'w, 'hw, unit) tsim" where
  "Timer8_2C_Reset E = sq (Timer_Reset E) (upd_tm (\<lambda>t. t\<lparr>tccra_val := 0, tccrb_val := 0, wgm_raw := 0\<rparr>))"

definition Timer16_xC_Reset :: "('f::zero, 'w, 'hw) timer_env \<Rightarrow> ('f, 'w, 'hw, unit) tsim" where
  "Timer16_xC_Reset E = sq (Timer16_Reset E) (upd_tm (\<lambda>t. t\<lparr>tccra_val := 0, tccrb_val := 0, wgm_raw := 0\<rparr>))"

definition Timer16_2C3_Reset :: "('f::zero, 'w, 'hw) timer_env \<Rightarrow> ('f, 'w, 'hw, unit) tsim" where
  "Timer16_2C3_Reset E = sq (Timer16_Reset E) (upd_tm (\<lambda>t. t\<lparr>tccra_val := 0, tccrb_val := 0\<rparr>))"

end
