(* ===== verification/Avr_Part.thy ===== *)
theory Avr_Part
  imports Avr_Irq Avr_Pin
begin

text \<open>
  What the peripherals have in common: a state of their own, the interrupt system and the board
  with its pins. The operations of a peripheral request and withdraw interrupts and drive their
  pins; the lemmas say that they do this without an error on a well-formed state. The theories of
  the single peripherals build on this one.
\<close>

section \<open>State\<close>

record ('s, 'f, 'w, 'hw) part_dev =
  part :: 's
  pirq :: "'hw irq_system"
  pboard :: "('f, 'w) board"

text \<open>What does not change: the listeners of the pins, the time and the identity of the part.\<close>

record ('f, 'w, 'hw) part_env =
  pe_listener :: "('f, 'w) listener"
  pe_now :: int
  pe_this :: 'hw

type_synonym ('s, 'f, 'w, 'hw, 'a) psim = "(('s, 'f, 'w, 'hw) part_dev, 'a) sim"

abbreviation upd_part :: "('s \<Rightarrow> 's) \<Rightarrow> ('s, 'f, 'w, 'hw, unit) psim" where
  "upd_part f \<equiv> modify (\<lambda>d. d\<lparr>part := f (part d)\<rparr>)"

abbreviation get_part :: "('s \<Rightarrow> 'a) \<Rightarrow> ('s, 'f, 'w, 'hw, 'a) psim" where
  "get_part f \<equiv> gets (\<lambda>d. f (part d))"

abbreviation on_pboard :: "(('f, 'w) board, 'a) sim \<Rightarrow> ('s, 'f, 'w, 'hw, 'a) psim" where
  "on_pboard \<equiv> zoom pboard (\<lambda>b d. d\<lparr>pboard := b\<rparr>)"

text \<open>The logical level that a part reads at a pin.\<close>

abbreviation pin_level :: "('s \<Rightarrow> pin_at_port) \<Rightarrow> ('s, 'f, 'w, 'hw, bool) psim" where
  "pin_level p \<equiv> gets (\<lambda>d. PinAtPort_bool (p (part d)) (pboard d))"

definition set_irq :: "('f, 'w, 'hw) part_env \<Rightarrow> nat \<Rightarrow> ('s, 'f, 'w, 'hw, unit) psim" where
  "set_irq E v = zoom pirq (\<lambda>q d. d\<lparr>pirq := q\<rparr>) (SetIrqFlag (pe_now E) (pe_this E) v)"

definition clear_irq :: "('f, 'w, 'hw) part_env \<Rightarrow> nat \<Rightarrow> ('s, 'f, 'w, 'hw, unit) psim" where
  "clear_irq E v = zoom pirq (\<lambda>q d. d\<lparr>pirq := q\<rparr>) (ClearIrqFlag (pe_now E) v)"

section \<open>Pins without listeners\<close>

text \<open>Boards whose port pins are not connected to other pins and have no listeners.\<close>

definition board_free :: "('f, 'w) board \<Rightarrow> bool" where
  "board_free b \<longleftrightarrow> (\<forall>n. port_free b n)"

lemma CalcOutputs_free:
  assumes "board_free b"
  shows "\<exists>c. CalcOutputs L n b = Inr ((), c) \<and> board_free c"
proof -
  have f: "port_free b m" for m using assms by (simp add: board_free_def)
  let ?o = "set_outputs n b"
  have po: "bports ?o = bports b" by (simp add: set_outputs_def upd_pins_other)
  have pins: "\<exists>s. bpins ?o i = (bpins b i)\<lparr>outState := s\<rparr>" for i
  proof (cases "i \<in> set (portPins (bports b n))")
    case True
    then obtain k where "k < length (portPins (bports b n))" "i = portPins (bports b n) ! k"
      by (auto simp: in_set_conv_nth)
    moreover have "distinct (portPins (bports b n))" using f [of n] by (simp add: port_free_def Let_def)
    ultimately show ?thesis
      using upd_pins_nth [of "portPins (bports b n)" k "\<lambda>k p. p\<lparr>outState := out_state (bports b n) k\<rparr>" 0 b]
      by (auto simp: set_outputs_def)
  next
    case False
    then have "bpins ?o i = (bpins b i)\<lparr>outState := outState (bpins b i)\<rparr>"
      by (simp add: set_outputs_def upd_pins_other)
    then show ?thesis by blast
  qed
  have sel: "pinOfPort (bpins ?o i) = pinOfPort (bpins b i)" "pin_mask (bpins ?o i) = pin_mask (bpins b i)"
    "notifyList (bpins ?o i) = notifyList (bpins b i)" "connectedTo (bpins ?o i) = connectedTo (bpins b i)" for i
    using pins [of i] by auto
  have fo: "port_free ?o m" for m
    using f [of m] by (simp add: port_free_def Let_def po at_bit_def free_pin_def quiet_def sel)
  obtain x where "Port_CalcPin L n ?o = Inr ((), upd_port n (\<lambda>q. q\<lparr>pin := x\<rparr>) ?o)"
    using Port_CalcPin_run [OF fo] by blast
  moreover have "board_free (upd_port n (\<lambda>q. q\<lparr>pin := x\<rparr>) ?o)" unfolding board_free_def
  proof
    show "port_free (upd_port n (\<lambda>q. q\<lparr>pin := x\<rparr>) ?o) m" for m
      using fo [of m] by (cases "m = n") (simp_all add: port_free_def Let_def at_bit_def free_pin_def quiet_def)
  qed
  ultimately show ?thesis by (simp add: CalcOutputs_def)
qed

lemma PinAtPort_free:
  assumes "board_free b"
    and "\<And>g q. portPins (upd g q) = portPins q" "\<And>g q. portMask (upd g q) = portMask q"
  shows "\<exists>c. PinAtPort_set L upd pp v b = Inr ((), c) \<and> board_free c"
proof -
  have "board_free (upd_port (pa_port pp) (upd (SetVal (pa_pinNo pp) v)) b)"
    using assms by (simp add: board_free_def port_free_def Let_def at_bit_def free_pin_def quiet_def)
  then show ?thesis using CalcOutputs_free [of _ L] by (simp add: PinAtPort_set_def)
qed

lemma alternate_free:
  assumes "board_free b"
  shows "\<exists>c. SetAlternatePort L pp v b = Inr ((), c) \<and> board_free c"
    "\<exists>c. SetUseAlternatePortIfDdrSet L pp v b = Inr ((), c) \<and> board_free c"
  unfolding SetAlternatePort_def SetUseAlternatePortIfDdrSet_def
  by (rule PinAtPort_free [OF assms]; simp)+

section \<open>Requests\<close>

definition requests :: "('s, 'f, 'w, 'hw) part_dev \<Rightarrow> nat set" where
  "requests d = dom (map_of (irqPartnerList (pirq d)))"

definition part_ok :: "nat set \<Rightarrow> ('s, 'f, 'w, 'hw) part_dev \<Rightarrow> bool" where
  "part_ok V d \<longleftrightarrow> board_free (pboard d) \<and> irq_ok (pirq d) \<and> (\<forall>v \<in> V. v < vectorTableSize (pirq d))"

text \<open>The part of this that does not speak about the board.\<close>

definition irqs_ok :: "nat set \<Rightarrow> ('s, 'f, 'w, 'hw) part_dev \<Rightarrow> bool" where
  "irqs_ok V d \<longleftrightarrow> irq_ok (pirq d) \<and> (\<forall>v \<in> V. v < vectorTableSize (pirq d))"

lemma part_ok_iff: "part_ok V d \<longleftrightarrow> board_free (pboard d) \<and> irqs_ok V d"
  by (simp add: part_ok_def irqs_ok_def)

lemma irqs_ok_part [simp]: "irqs_ok V (d\<lparr>part := p\<rparr>) = irqs_ok V d" "irqs_ok V (d\<lparr>pboard := b\<rparr>) = irqs_ok V d"
  by (simp_all add: irqs_ok_def)

lemma part_ok_part [simp]: "part_ok V (d\<lparr>part := p\<rparr>) = part_ok V d" "requests (d\<lparr>part := p\<rparr>) = requests d"
  by (simp_all add: part_ok_def requests_def)

lemma requests_board [simp]: "requests (d\<lparr>pboard := b\<rparr>) = requests d"
  by (simp add: requests_def)

lemma wp_set_irq_irqs:
  assumes "irqs_ok V d" "v \<in> V"
    and "\<And>d'. irqs_ok V d' \<Longrightarrow> part d' = part d \<Longrightarrow> pboard d' = pboard d \<Longrightarrow>
      requests d' = insert v (requests d) \<Longrightarrow> Q () d'"
  shows "wp (set_irq E v) Q d"
proof -
  obtain q where "SetIrqFlag (pe_now E) (pe_this E) v (pirq d) = Inr ((), q)" "irq_ok q"
    "vectorTableSize q = vectorTableSize (pirq d)" "map_of (irqPartnerList q) = (map_of (irqPartnerList (pirq d)))(v \<mapsto> pe_this E)"
    using SetIrqFlag_run [of "pirq d" v "pe_now E" "pe_this E"] assms(1,2) by (auto simp: irqs_ok_def)
  then show ?thesis using assms(1) assms(3) [of "d\<lparr>pirq := q\<rparr>"]
    by (auto simp: set_irq_def irqs_ok_def requests_def intro!: wpI)
qed

lemma wp_clear_irq_irqs:
  assumes "irqs_ok V d"
    and "\<And>d'. irqs_ok V d' \<Longrightarrow> part d' = part d \<Longrightarrow> pboard d' = pboard d \<Longrightarrow>
      requests d' = requests d - {v} \<Longrightarrow> Q () d'"
  shows "wp (clear_irq E v) Q d"
proof -
  obtain q where "ClearIrqFlag (pe_now E) v (pirq d) = Inr ((), q)" "irq_ok q"
    "vectorTableSize q = vectorTableSize (pirq d)" "map_of (irqPartnerList q) = (map_of (irqPartnerList (pirq d)))(v := None)"
    using ClearIrqFlag_run [of "pirq d" "pe_now E" v] assms(1) by (auto simp: irqs_ok_def)
  then show ?thesis using assms(1) assms(2) [of "d\<lparr>pirq := q\<rparr>"]
    by (auto simp: clear_irq_def irqs_ok_def requests_def intro!: wpI)
qed

lemma wp_set_irq:
  assumes "part_ok V d" "v \<in> V"
    and "\<And>d'. part_ok V d' \<Longrightarrow> part d' = part d \<Longrightarrow> pboard d' = pboard d \<Longrightarrow>
      requests d' = insert v (requests d) \<Longrightarrow> Q () d'"
  shows "wp (set_irq E v) Q d"
  by (rule wp_set_irq_irqs [of V]) (use assms in \<open>simp_all add: part_ok_iff\<close>)

lemma wp_clear_irq:
  assumes "part_ok V d"
    and "\<And>d'. part_ok V d' \<Longrightarrow> part d' = part d \<Longrightarrow> pboard d' = pboard d \<Longrightarrow>
      requests d' = requests d - {v} \<Longrightarrow> Q () d'"
  shows "wp (clear_irq E v) Q d"
  by (rule wp_clear_irq_irqs [of V]) (use assms in \<open>simp_all add: part_ok_iff\<close>)

section \<open>Effects on pins\<close>

lemma wp_on_pboard:
  assumes "part_ok V d" and "\<And>b. board_free b \<Longrightarrow> \<exists>c. m b = Inr ((), c) \<and> board_free c"
    and "\<And>d'. part_ok V d' \<Longrightarrow> part d' = part d \<Longrightarrow> requests d' = requests d \<Longrightarrow> Q () d'"
  shows "wp (on_pboard m) Q d"
proof -
  obtain c where "m (pboard d) = Inr ((), c)" "board_free c" using assms(1,2) by (auto simp: part_ok_def)
  then show ?thesis using assms(1) assms(3) [of "d\<lparr>pboard := c\<rparr>"]
    by (auto simp: part_ok_def requests_def intro!: wpI)
qed

lemma pins_free:
  assumes "board_free b"
  shows "\<exists>c. SetUseAlternatePort L pp v b = Inr ((), c) \<and> board_free c"
    "\<exists>c. SetAlternateDdr L pp v b = Inr ((), c) \<and> board_free c"
    "\<exists>c. SetUseAlternateDdr L pp v b = Inr ((), c) \<and> board_free c"
  unfolding SetUseAlternatePort_def SetAlternateDdr_def SetUseAlternateDdr_def
  by (rule PinAtPort_free [OF assms]; simp)+

lemmas wp_pins = wp_on_pboard [OF _ alternate_free(1)] wp_on_pboard [OF _ alternate_free(2)]
  wp_on_pboard [OF _ pins_free(1)] wp_on_pboard [OF _ pins_free(2)] wp_on_pboard [OF _ pins_free(3)]

end
