(* ===== verification/Avr_TimerMode.thy ===== *)
theory Avr_TimerMode
  imports Avr_Timer Avr_Part
begin

text \<open>
  What the timers of \<open>Avr_Timer\<close> compute: the sequences of counter values in the modes of
  waveform generation, the interrupt flags that go with them, the compare outputs, and the access
  to sixteen bit registers in two bytes. Proofs go through \<open>wp\<close>: every theorem about a step says
  that the step ends without an error.
\<close>

section \<open>Effects on interrupt flags\<close>

text \<open>Every line that the timer can fire is registered; the overflow line exists.\<close>

definition registered :: "timer_irq \<Rightarrow> nat \<Rightarrow> bool" where
  "registered t v \<longleftrightarrow> (\<exists>i < 8. lines t ! i = Some v)"

definition lines_ok :: "timer_irq \<Rightarrow> timer \<Rightarrow> bool" where
  "lines_ok q t \<longleftrightarrow> (\<exists>v. timerOverflow t = Some v \<and> registered q v) \<and>
     (\<forall>v. timerCapture t = Some v \<longrightarrow> registered q v) \<and>
     (\<forall>i v. timerCompare t i = Some v \<longrightarrow> registered q v)"

definition timer_ok :: "('f, 'w, 'hw) timer_dev \<Rightarrow> bool" where
  "timer_ok d \<longleftrightarrow> board_free (tboard d) \<and> tirq_ok (tirqs d) \<and> lines_ok (fst (tirqs d)) (tm d)"

definition same_lines :: "timer_irq \<Rightarrow> timer_irq \<Rightarrow> bool" where
  "same_lines q q' \<longleftrightarrow> (\<exists>f. q' = q\<lparr>irqflags := f\<rparr>)"

text \<open>The flag of a line.\<close>

definition flag :: "('f, 'w, 'hw) timer_dev \<Rightarrow> nat option \<Rightarrow> bool" where
  "flag d line \<longleftrightarrow> (\<exists>v. line = Some v \<and> bit (irqflags (fst (tirqs d))) (line_of (fst (tirqs d)) v))"

lemma wp_fire:
  assumes "timer_ok d" "line = Some v" "registered (fst (tirqs d)) v"
    and "\<And>d'. timer_ok d' \<Longrightarrow> tm d' = tm d \<Longrightarrow> clocked d' = clocked d \<Longrightarrow>
      (\<And>w. w \<noteq> None \<Longrightarrow> (\<forall>x. w = Some x \<longrightarrow> registered (fst (tirqs d)) x) \<Longrightarrow> flag d' w \<longleftrightarrow> flag d w \<or> w = line) \<Longrightarrow>
      same_lines (fst (tirqs d)) (fst (tirqs d')) \<Longrightarrow> Q () d'"
  shows "wp (fire E line) Q d"
proof -
  obtain t q where tq: "tirqs d = (t, q)" by (cases "tirqs d")
  have ok: "tirq_ok (t, q)" using assms(1) tq by (simp add: timer_ok_def)
  obtain i where i: "i < 8" "lines t ! i = Some v" using assms(3) tq by (auto simp: registered_def)
  obtain q' where q': "fireInterrupt (te_now E) (te_this E) v (t, q)
      = Inr ((), (t\<lparr>irqflags := irqflags t OR push_bit i 1\<rparr>, q'))" "irq_ok q'" "vectorTableSize q' = vectorTableSize q"
    using fire_run [OF ok i] by blast
  let ?d = "d\<lparr>tirqs := (t\<lparr>irqflags := irqflags t OR push_bit i 1\<rparr>, q')\<rparr>"
  have "vector2line t v = Some i" using ok i by (simp add: tirq_ok_def)
  then have "fire E line d = Inr ((), ?d)" using q' tq assms(2) by (simp add: fire_def)
  moreover have "Q () ?d"
  proof (rule assms(4))
    have "tirq_ok (t\<lparr>irqflags := irqflags t OR push_bit i 1\<rparr>, q')"
      using tirq_ok_irqs(1) [OF ok q'(2,3)] by (simp add: tirq_ok_irqs)
    then show "timer_ok ?d" using assms(1) tq by (simp add: timer_ok_def lines_ok_def registered_def)
    show "flag ?d w \<longleftrightarrow> flag d w \<or> w = line"
      if w: "w \<noteq> None" "\<forall>x. w = Some x \<longrightarrow> registered (fst (tirqs d)) x" for w
    proof -
      obtain x where x: "w = Some x" using w(1) by blast
      with w(2) tq obtain j where j: "j < 8" "lines t ! j = Some x" unfolding registered_def by auto
      have l: "line_of t x = j" "line_of t v = i" using tirq_line(1) [OF ok] j i by blast+
      have "j = i \<longleftrightarrow> x = v" using l i(2) j(2) by (metis option.inject)
      moreover have "line_of (t\<lparr>irqflags := f\<rparr>) x = j" for f using l by (simp add: line_of_def)
      ultimately show ?thesis
        using x j(1) l assms(2) tq by (simp add: flag_def bit_or_iff bit_exp_iff)
    qed
  qed (use tq in \<open>auto simp: same_lines_def\<close>)
  ultimately show ?thesis by (rule wpI)
qed

lemma wp_drive:
  assumes "timer_ok d"
    and "\<And>d'. timer_ok d' \<Longrightarrow> tirqs d' = tirqs d \<Longrightarrow> clocked d' = clocked d \<Longrightarrow>
      tm d' = (tm d)\<lparr>compare_output_state := (compare_output_state (tm d))(idx := s')\<rparr> \<Longrightarrow> Q () d'"
  shows "wp (drive E idx s s') Q d"
proof -
  let ?t = "(tm d)\<lparr>compare_output_state := (compare_output_state (tm d))(idx := s')\<rparr>"
  have b: "board_free (tboard d)" using assms(1) by (simp add: timer_ok_def)
  have ok: "timer_ok (d\<lparr>tm := ?t, tboard := c\<rparr>)" if "board_free c" for c
    using assms(1) that by (simp add: timer_ok_def lines_ok_def)
  have "Q () (d\<lparr>tm := ?t, tboard := c\<rparr>)" if "board_free c" for c
    by (rule assms(2) [OF ok [OF that]]) simp_all
  moreover from this [OF b] have "Q () (d\<lparr>tm := ?t\<rparr>)" by simp
  moreover obtain c where "\<And>pp. compare_output (tm d) idx = Some pp \<Longrightarrow>
      SetAlternatePort (te_listener E) pp s' (tboard d) = Inr ((), c) \<and> board_free c"
    using alternate_free(1) [OF b, of "te_listener E" _ s'] by (cases "compare_output (tm d) idx") fastforce+
  ultimately show ?thesis
    by (auto simp: drive_def wp_simps split: option.splits intro!: wpI)
qed

section \<open>Steps that fire a set of lines\<close>

text \<open>
  \<open>fires S d d'\<close>: \<open>d'\<close> is a good state whose interrupt flags are those of \<open>d\<close> and the ones of the
  lines in \<open>S\<close>.
\<close>

definition fires :: "nat option set \<Rightarrow> ('f, 'w, 'hw) timer_dev \<Rightarrow> ('f, 'w, 'hw) timer_dev \<Rightarrow> bool" where
  "fires S d d' \<longleftrightarrow> timer_ok d' \<and> same_lines (fst (tirqs d)) (fst (tirqs d')) \<and>
     (\<forall>w. w \<noteq> None \<longrightarrow> (\<forall>x. w = Some x \<longrightarrow> registered (fst (tirqs d)) x) \<longrightarrow> (flag d' w \<longleftrightarrow> flag d w \<or> w \<in> S))"

lemma fires_refl: "timer_ok d \<Longrightarrow> fires {} d d"
  by (auto simp: fires_def same_lines_def intro: exI [of _ "irqflags (fst (tirqs d))"])

lemma fires_registered: "fires S d d' \<Longrightarrow> registered (fst (tirqs d')) v \<longleftrightarrow> registered (fst (tirqs d)) v"
  by (auto simp: fires_def registered_def same_lines_def)

lemma fires_tm:
  assumes "fires S d d'" "timerOverflow t = timerOverflow (tm d')" "timerCapture t = timerCapture (tm d')"
    "timerCompare t = timerCompare (tm d')"
  shows "fires S d (d'\<lparr>tm := t\<rparr>)"
  using assms by (auto simp: fires_def timer_ok_def lines_ok_def flag_def)

lemma wp_fires:
  fixes d :: "('a, 'b, 'c) timer_dev"
  assumes "fires S d0 d" "line = Some v" "registered (fst (tirqs d)) v"
    and "\<And>d'. fires (insert line S) d0 d' \<Longrightarrow> tm d' = tm d \<Longrightarrow> Q () d'"
  shows "wp (fire E line) Q d"
proof (rule wp_fire [OF _ assms(2,3)])
  show "timer_ok d" using assms(1) by (simp add: fires_def)
  fix d' :: "('a, 'b, 'c) timer_dev"
  assume d': "timer_ok d'" "tm d' = tm d"
    and fl: "\<And>w. w \<noteq> None \<Longrightarrow> \<forall>x. w = Some x \<longrightarrow> registered (fst (tirqs d)) x \<Longrightarrow> flag d' w \<longleftrightarrow> flag d w \<or> w = line"
    and q: "same_lines (fst (tirqs d)) (fst (tirqs d'))"
  have "same_lines (fst (tirqs d0)) (fst (tirqs d'))"
    using q assms(1) by (auto simp: fires_def same_lines_def)
  moreover have "flag d' w \<longleftrightarrow> flag d0 w \<or> w \<in> insert line S"
    if "w \<noteq> None" "\<forall>x. w = Some x \<longrightarrow> registered (fst (tirqs d0)) x" for w
    using fl [of w] that assms(1) fires_registered [OF assms(1)] by (auto simp: fires_def)
  ultimately show "Q () d'" using d' by (intro assms(4)) (simp_all add: fires_def)
qed

lemma fires_outputs:
  assumes "fires S d0 d" "timer_ok d'" "tirqs d' = tirqs d"
  shows "fires S d0 d'"
  using assms by (simp add: fires_def flag_def)

definition out_next :: "com_type \<Rightarrow> bool \<Rightarrow> bool" where
  "out_next mode old = (case mode of COM_NOOP \<Rightarrow> old | COM_TOGGLE \<Rightarrow> \<not> old | COM_CLEAR \<Rightarrow> False | COM_SET \<Rightarrow> True)"

abbreviation set_out :: "nat \<Rightarrow> bool \<Rightarrow> timer \<Rightarrow> timer" where
  "set_out idx s t \<equiv> t\<lparr>compare_output_state := (compare_output_state t)(idx := s)\<rparr>"

lemma wp_SetCompareOutput:
  assumes "fires S d0 d"
    and "\<And>d'. fires S d0 d' \<Longrightarrow> tm d' = set_out idx (out_next (com (tm d) idx) (compare_output_state (tm d) idx)) (tm d) \<Longrightarrow> Q () d'"
  shows "wp (SetCompareOutput E idx) Q d"
proof -
  have ok: "timer_ok d" using assms(1) by (simp add: fires_def)
  have drv: "wp (drive E idx s (out_next (com (tm d) idx) (compare_output_state (tm d) idx))) Q d" for s
    by (rule wp_drive [OF ok]) (rule assms(2) [OF fires_outputs [OF assms(1)]])
  have noop: "Q () d" if "com (tm d) idx = COM_NOOP"
    by (rule assms(2) [OF assms(1)]) (simp add: that out_next_def)
  show ?thesis
    using drv noop by (auto simp: SetCompareOutput_def wp_simps out_next_def split: com_type.splits)
qed

definition pwm_next :: "com_type \<Rightarrow> bool \<Rightarrow> bool \<Rightarrow> bool" where
  "pwm_next mode tod old = (case mode of COM_NOOP \<Rightarrow> old | COM_TOGGLE \<Rightarrow> False | COM_CLEAR \<Rightarrow> tod | COM_SET \<Rightarrow> \<not> tod)"

lemma wp_SetPWM:
  fixes d :: "('a::zero, 'b, 'c) timer_dev"
  assumes "fires S d0 d"
    and "\<And>d'. fires S d0 d' \<Longrightarrow> tm d' = set_out idx (pwm_next (com (tm d) idx) tod (compare_output_state (tm d) idx)) (tm d) \<Longrightarrow> Q () d'"
  shows "wp (SetPWMCompareOutput E idx tod) Q d"
proof -
  have ok: "timer_ok d" using assms(1) by (simp add: fires_def)
  let ?n = "pwm_next (com (tm d) idx) tod (compare_output_state (tm d) idx)"
  have once: "wp (drive E idx s ?n) Q d" for s
    by (rule wp_drive [OF ok]) (rule assms(2) [OF fires_outputs [OF assms(1)]])
  have twice: "wp (drive E idx s r) (\<lambda>_. wp (drive E idx s ?n) Q) d" for r s
  proof (rule wp_drive [OF ok], rule wp_drive, assumption)
    fix d1 d2 :: "('a, 'b, 'c) timer_dev"
    assume "tirqs d1 = tirqs d" "tm d1 = (tm d)\<lparr>compare_output_state := (compare_output_state (tm d))(idx := r)\<rparr>"
      "timer_ok d2" "tirqs d2 = tirqs d1"
      "tm d2 = (tm d1)\<lparr>compare_output_state := (compare_output_state (tm d1))(idx := ?n)\<rparr>"
    then show "Q () d2" by (intro assms(2) fires_outputs [OF assms(1)]) simp_all
  qed
  have noop: "Q () d" if "com (tm d) idx = COM_NOOP"
    by (rule assms(2) [OF assms(1)]) (simp add: that pwm_next_def)
  show ?thesis
    using once twice noop
    by (auto simp: SetPWMCompareOutput_def SetCompareOutput_def wp_simps pwm_next_def split: com_type.splits)
qed

section \<open>Compare matches\<close>

definition cmp_evt :: "nat \<Rightarrow> ce_type" where
  "cmp_evt i = (if i = 0 then EVT_COMPARE_1 else if i = 1 then EVT_COMPARE_2 else EVT_COMPARE_3)"

text \<open>Modes in which a match of channel A is an ordinary compare match, not the end of the period.\<close>

definition plain_compare :: "timer \<Rightarrow> bool" where
  "plain_compare t \<longleftrightarrow> wgmfunc t (wgm t) \<noteq> WGMFunc_noop \<and>
     wgm t \<noteq> WGM_FASTPWM_OCRA \<and> wgm t \<noteq> WGM_PCPWM_OCRA \<and> wgm t \<noteq> WGM_PFCPWM_OCRA"

definition compare_out :: "nat \<Rightarrow> timer \<Rightarrow> bool" where
  "compare_out i t = (case wgmfunc t (wgm t) of
       Fn_fastpwm \<Rightarrow> pwm_next (com t i) False (compare_output_state t i)
     | Fn_pcpwm \<Rightarrow> pwm_next (com t i) (count_down t) (compare_output_state t i)
     | Fn_pfcpwm \<Rightarrow> pwm_next (com t i) (count_down t) (compare_output_state t i)
     | _ \<Rightarrow> out_next (com t i) (compare_output_state t i))"

definition cmp_step :: "nat \<Rightarrow> timer \<Rightarrow> timer" where
  "cmp_step i t =
     (if (\<forall>j \<le> i. compareEnable t j) \<and> vlast_tcnt t = compare t i \<and> timerCompare t i \<noteq> None
      then set_out i (compare_out i t) t else t)"

definition cmp_hit :: "nat \<Rightarrow> timer \<Rightarrow> nat option set" where
  "cmp_hit i t =
     (if (\<forall>j \<le> i. compareEnable t j) \<and> vlast_tcnt t = compare t i \<and> timerCompare t i \<noteq> None
      then {timerCompare t i} else {})"

lemma wp_compare_event:
  assumes f: "fires S d0 d"
    and out: "\<And>R d1. fires R d0 d1 \<Longrightarrow> tm d1 = tm d \<Longrightarrow>
      (\<And>d'. fires R d0 d' \<Longrightarrow> tm d' = set_out i s (tm d) \<Longrightarrow> Q () d') \<Longrightarrow> wp output Q d1"
    and post: "\<And>d'. fires (if timerCompare (tm d) i = None then S else insert (timerCompare (tm d) i) S) d0 d' \<Longrightarrow>
      tm d' = (if timerCompare (tm d) i = None then tm d else set_out i s (tm d)) \<Longrightarrow> Q () d'"
  shows "wp (compare_event E i output) Q d"
proof (cases "timerCompare (tm d) i")
  case None
  have "Q () d" by (rule post) (use None f in simp_all)
  then show ?thesis using None by (simp add: compare_event_def wp_simps)
next
  case (Some v)
  have "registered (fst (tirqs d)) v" using f Some by (auto simp: fires_def timer_ok_def lines_ok_def)
  then have "wp (fire E (Some v)) (\<lambda>_. wp output Q) d"
    by (rule wp_fires [OF f refl]) (rule out, use post Some in auto)
  then show ?thesis using Some by (simp add: compare_event_def wp_simps)
qed

lemma wp_HandleEvent_compare:
  assumes f: "fires S d0 d" and p: "plain_compare (tm d)" and i: "i < 3"
    and post: "\<And>d'. fires (if timerCompare (tm d) i = None then S else insert (timerCompare (tm d) i) S) d0 d' \<Longrightarrow>
      tm d' = (if timerCompare (tm d) i = None then tm d else set_out i (compare_out i (tm d)) (tm d)) \<Longrightarrow> Q () d'"
  shows "wp (HandleEvent E (cmp_evt i)) Q d"
proof -
  have o: "wp (SetCompareOutput E i) Q d1"
    if "fires R d0 d1" "tm d1 = tm d" "\<And>d'. fires R d0 d' \<Longrightarrow> tm d' = set_out i (out_next (com (tm d) i) (compare_output_state (tm d) i)) (tm d) \<Longrightarrow> Q () d'" for R d1
    by (rule wp_SetCompareOutput [OF that(1)]) (use that in simp)
  have w: "wp (SetPWMCompareOutput E i b) Q d1"
    if "fires R d0 d1" "tm d1 = tm d" "\<And>d'. fires R d0 d' \<Longrightarrow> tm d' = set_out i (pwm_next (com (tm d) i) b (compare_output_state (tm d) i)) (tm d) \<Longrightarrow> Q () d'" for R d1 b
    by (rule wp_SetPWM [OF that(1)]) (use that in simp)
  have u: "wp (pwm_updown E i) Q d1"
    if "fires R d0 d1" "tm d1 = tm d" "\<And>d'. fires R d0 d' \<Longrightarrow> tm d' = set_out i (pwm_next (com (tm d) i) (count_down (tm d)) (compare_output_state (tm d) i)) (tm d) \<Longrightarrow> Q () d'" for R d1
    unfolding pwm_updown_def wp_bnd wp_basic that(2) by (rule w [OF that])
  have event: "wp (HandleEvent E (cmp_evt i)) Q d \<longleftrightarrow>
      wp (compare_event E i (case wgmfunc (tm d) (wgm (tm d)) of Fn_fastpwm \<Rightarrow> SetPWMCompareOutput E i False
        | Fn_pcpwm \<Rightarrow> pwm_updown E i | Fn_pfcpwm \<Rightarrow> pwm_updown E i | _ \<Rightarrow> SetCompareOutput E i)) Q d"
  proof -
    from i consider "i = 0" | "i = 1" | "i = 2" by linarith
    then show ?thesis using p
      by cases (cases "wgmfunc (tm d) (wgm (tm d))"; simp add: plain_compare_def HandleEvent_def cmp_evt_def wp_simps
          WGMfunc_normal_def WGMfunc_ctc_def WGMfunc_fastpwm_def WGMfunc_pcpwm_def WGMfunc_pfcpwm_def)+
  qed
  show ?thesis unfolding event
  proof (rule wp_compare_event [where s = "compare_out i (tm d)", OF f])
    fix R d1
    assume "fires R d0 d1" "tm d1 = tm d" "\<And>d'. fires R d0 d' \<Longrightarrow> tm d' = set_out i (compare_out i (tm d)) (tm d) \<Longrightarrow> Q () d'"
    then show "wp (case wgmfunc (tm d) (wgm (tm d)) of Fn_fastpwm \<Rightarrow> SetPWMCompareOutput E i False
        | Fn_pcpwm \<Rightarrow> pwm_updown E i | Fn_pfcpwm \<Rightarrow> pwm_updown E i | _ \<Rightarrow> SetCompareOutput E i) Q d1"
      using p by (auto simp: compare_out_def plain_compare_def split: wgm_func.splits intro!: o w u)
  qed (rule post)
qed

lemma cmp_step_sel [simp]:
  "compareEnable (cmp_step i t) = compareEnable t" "vlast_tcnt (cmp_step i t) = vlast_tcnt t"
  "compare (cmp_step i t) = compare t" "timerCompare (cmp_step i t) = timerCompare t"
  "wgmfunc (cmp_step i t) = wgmfunc t" "wgm (cmp_step i t) = wgm t" "vtcnt (cmp_step i t) = vtcnt t"
  "com (cmp_step i t) = com t" "timerOverflow (cmp_step i t) = timerOverflow t"
  "limit_top (cmp_step i t) = limit_top t" "limit_max (cmp_step i t) = limit_max t"
  "limit_bottom (cmp_step i t) = limit_bottom t" "updown_counting (cmp_step i t) = updown_counting t"
  "count_down (cmp_step i t) = count_down t" "compare_dbl (cmp_step i t) = compare_dbl t"
  by (simp_all add: cmp_step_def)

lemma cmp_hit_step [simp]: "cmp_hit j (cmp_step i t) = cmp_hit j t" "plain_compare (cmp_step i t) = plain_compare t"
  by (simp_all add: cmp_hit_def plain_compare_def)

lemma wp_match:
  assumes f: "fires S d0 d" and p: "plain_compare (tm d)" and i: "i < 3" and en: "\<forall>j \<le> i. compareEnable (tm d) j"
    and post: "\<And>d'. fires (cmp_hit i (tm d) \<union> S) d0 d' \<Longrightarrow> tm d' = cmp_step i (tm d) \<Longrightarrow> Q () d'"
  shows "wp (event_at E (\<lambda>t. compare t i) (cmp_evt i)) Q d"
proof (cases "vlast_tcnt (tm d) = compare (tm d) i")
  case True
  have "wp (HandleEvent E (cmp_evt i)) Q d"
    by (rule wp_HandleEvent_compare [OF f p i]) (rule post, use True en in \<open>auto simp: cmp_hit_def cmp_step_def split: if_splits\<close>)
  then show ?thesis using True by (simp add: event_at_def wp_simps)
next
  case False
  then have "Q () d" using f by (intro post) (simp_all add: cmp_hit_def cmp_step_def)
  then show ?thesis using False by (simp add: event_at_def wp_simps)
qed

lemma all_le_Suc: "(\<forall>j \<le> Suc n. P j) \<longleftrightarrow> (\<forall>j \<le> n. P j) \<and> P (Suc n)"
  by (auto simp: le_Suc_eq)

lemma wp_compare_events:
  assumes f: "fires S d0 d" and p: "plain_compare (tm d)"
    and post: "\<And>d'. fires (cmp_hit 2 (tm d) \<union> (cmp_hit 1 (tm d) \<union> (cmp_hit 0 (tm d) \<union> S))) d0 d' \<Longrightarrow>
      tm d' = cmp_step 2 (cmp_step 1 (cmp_step 0 (tm d))) \<Longrightarrow> Q () d'"
  shows "wp (compare_events E) Q d"
proof -
  let ?t = "tm d"
  have le: "(\<forall>j \<le> 2. P j) \<longleftrightarrow> P 0 \<and> P 1 \<and> P 2" for P :: "nat \<Rightarrow> bool"
    by (auto simp: numeral_2_eq_2 le_Suc_eq)
  have off: "cmp_hit i t = {}" "cmp_step i t = t" if "\<not> compareEnable t j" "j \<le> i" for i j t
    using that by (auto simp: cmp_hit_def cmp_step_def)
  have two: "wp (bnd (get_tm (\<lambda>t. compareEnable t 2)) (\<lambda>e2. whenM e2 (event_at E (\<lambda>t. compare t 2) EVT_COMPARE_3))) Q d2"
    if "fires (cmp_hit 1 ?t \<union> (cmp_hit 0 ?t \<union> S)) d0 d2" "tm d2 = cmp_step 1 (cmp_step 0 ?t)"
      "compareEnable ?t 0" "compareEnable ?t 1" for d2
  proof (cases "compareEnable ?t 2")
    case True
    have "wp (event_at E (\<lambda>t. compare t 2) (cmp_evt 2)) Q d2"
      by (rule wp_match [OF that(1)]) (use that True p post in \<open>simp_all add: le\<close>)
    then show ?thesis using True that(2) by (simp add: wp_simps cmp_evt_def)
  next
    case False
    then have "Q () d2" using that(1,2) by (intro post) (simp_all add: off [where j = 2])
    then show ?thesis using False that(2) by (simp add: wp_simps)
  qed
  have one: "wp (bnd (get_tm (\<lambda>t. compareEnable t 1)) (\<lambda>e1. whenM e1 (sq (event_at E (\<lambda>t. compare t 1) EVT_COMPARE_2)
      (bnd (get_tm (\<lambda>t. compareEnable t 2)) (\<lambda>e2. whenM e2 (event_at E (\<lambda>t. compare t 2) EVT_COMPARE_3)))))) Q d1"
    if "fires (cmp_hit 0 ?t \<union> S) d0 d1" "tm d1 = cmp_step 0 ?t" "compareEnable ?t 0" for d1
  proof (cases "compareEnable ?t 1")
    case True
    have "wp (event_at E (\<lambda>t. compare t 1) (cmp_evt 1))
       (\<lambda>_. wp (bnd (get_tm (\<lambda>t. compareEnable t 2)) (\<lambda>e2. whenM e2 (event_at E (\<lambda>t. compare t 2) EVT_COMPARE_3))) Q) d1"
      by (rule wp_match [OF that(1)]) (use that True p two in \<open>simp_all add: all_le_Suc\<close>)
    then show ?thesis using True that(2) by (simp add: wp_simps cmp_evt_def)
  next
    case False
    then have "Q () d1" using that(1,2) by (intro post) (simp_all add: off [where j = 1])
    then show ?thesis using False that(2) by (simp add: wp_simps)
  qed
  show ?thesis
  proof (cases "compareEnable ?t 0")
    case True
    have "wp (event_at E (\<lambda>t. compare t 0) (cmp_evt 0)) (\<lambda>_. wp (bnd (get_tm (\<lambda>t. compareEnable t 1)) (\<lambda>e1. whenM e1
        (sq (event_at E (\<lambda>t. compare t 1) EVT_COMPARE_2) (bnd (get_tm (\<lambda>t. compareEnable t 2)) (\<lambda>e2. whenM e2
          (event_at E (\<lambda>t. compare t 2) EVT_COMPARE_3)))))) Q) d"
      by (rule wp_match [OF f]) (use True p one in simp_all)
    then show ?thesis using True by (simp add: compare_events_def wp_simps cmp_evt_def)
  next
    case False
    then have "Q () d" using f by (intro post) (simp_all add: off [where j = 0])
    then show ?thesis using False by (simp add: compare_events_def wp_simps)
  qed
qed

end
