(* ===== verification/Avr_TimerWave.thy ===== *)
theory Avr_TimerWave
  imports Avr_TimerMode
begin

text \<open>
  The wave forms of the timers: counter sequences, interrupt flags and outputs over any number of
  counts in normal, CTC, fast PWM and phase correct PWM mode, and the access to the sixteen bit
  registers. The programs that rely on timers rely on exactly these facts.
\<close>

section \<open>One count upwards\<close>

definition hits :: "timer \<Rightarrow> nat option set" where
  "hits t = (\<Union>i < 3. cmp_hit i t)"

lemma hits_three: "hits t = cmp_hit 2 t \<union> (cmp_hit 1 t \<union> cmp_hit 0 t)"
  by (simp add: hits_def numeral_3_eq_3 numeral_2_eq_2 lessThan_Suc)

definition match_all :: "timer \<Rightarrow> timer" where
  "match_all t = cmp_step 2 (cmp_step 1 (cmp_step 0 t))"

definition width_ok :: "timer \<Rightarrow> bool" where
  "width_ok t \<longleftrightarrow> (limit_max t = 0xff \<or> limit_max t = 0xffff) \<and> vtcnt t \<le> limit_max t \<and> limit_top t \<le> limit_max t
     \<and> limit_bottom t = 0"

lemma over_iff:
  assumes "L = 0xff \<or> L = 0xffff" "(v :: ulong) \<le> L"
  shows "v + 1 > L \<longleftrightarrow> v = L" "unat (v + 1) = unat v + 1" "(v = L \<Longrightarrow> (v + 1) AND L = 0)"
proof -
  have "unat L < 65536" using assms(1) by auto
  then have v: "unat v \<le> unat L" "unat v < 65536" using assms(2) by (auto simp: word_le_nat_alt)
  show u: "unat (v + 1) = unat v + 1" using v by (subst unat_plus_if') simp
  then show "v + 1 > L \<longleftrightarrow> v = L" using v by (auto simp: word_less_nat_alt word_unat_eq_iff)
  show "v = L \<Longrightarrow> (v + 1) AND L = 0" using assms(1) by auto
qed

definition simple_next :: "timer \<Rightarrow> ulong" where
  "simple_next t = (if wgmfunc t (wgm t) = Fn_ctc \<and> vtcnt t = limit_top t then 0
     else if vtcnt t = limit_max t then 0 else vtcnt t + 1)"

lemma overflow_registered:
  "fires S d0 d \<Longrightarrow> \<exists>v. timerOverflow (tm d) = Some v \<and> registered (fst (tirqs d)) v"
  by (auto simp: fires_def timer_ok_def lines_ok_def)

lemma wp_overflow:
  assumes "fires S d0 d"
    and "\<And>d'. fires (insert (timerOverflow (tm d)) S) d0 d' \<Longrightarrow> tm d' = tm d \<Longrightarrow> Q () d'"
  shows "wp (fire E (timerOverflow (tm d))) Q d"
proof -
  obtain v where "timerOverflow (tm d) = Some v" "registered (fst (tirqs d)) v"
    using overflow_registered [OF assms(1)] by blast
  then show ?thesis using wp_fires [OF assms(1), of _ v Q E] assms(2) by simp
qed

text \<open>Normal and CTC mode.\<close>

abbreviation up_events :: "('f::zero, 'w, 'hw) timer_env \<Rightarrow> ('f, 'w, 'hw, unit) tsim" where
  "up_events E \<equiv> sq (event_at E limit_bottom EVT_BOTTOM_REACHED)
     (sq (event_at E limit_top EVT_TOP_REACHED) (compare_events E))"

lemma simple_events:
  fixes d :: "('f::zero, 'w, 'hw) timer_dev"
  assumes f: "fires S d0 d" and p: "plain_compare (tm d)" and b: "limit_bottom (tm d) = 0"
    and fn: "wgmfunc (tm d) (wgm (tm d)) = Fn_normal \<or> wgmfunc (tm d) (wgm (tm d)) = Fn_ctc"
    and u: "u = (tm d)\<lparr>vtcnt := if wgmfunc (tm d) (wgm (tm d)) = Fn_ctc \<and> vlast_tcnt (tm d) = limit_top (tm d) then 0
       else vtcnt (tm d)\<rparr>"
    and post: "\<And>d'. fires (hits u \<union> S) d0 d' \<Longrightarrow> tm d' = match_all u \<Longrightarrow> Q () d'"
  shows "wp (up_events E) Q d"
proof -
  have cmp: "wp (compare_events E) Q e" if "fires S d0 e" "tm e = u" for e
    by (rule wp_compare_events [OF that(1)])
      (use that(2) p u post in \<open>auto simp: plain_compare_def hits_three match_all_def Un_assoc\<close>)
  have f1: "fires S d0 (d\<lparr>tm := u\<rparr>)" by (rule fires_tm [OF f]) (simp_all add: u)
  show ?thesis
  proof (cases "wgmfunc (tm d) (wgm (tm d)) = Fn_ctc \<and> vlast_tcnt (tm d) = limit_top (tm d)")
    case True
    have "wp (compare_events E) Q (d\<lparr>tm := u\<rparr>)" by (rule cmp [OF f1]) simp
    then show ?thesis using True b by (simp add: u wp_simps event_at_def HandleEvent_def WGMfunc_ctc_def)
  next
    case False
    have "wp (compare_events E) Q d" by (rule cmp [OF f]) (use False u in auto)
    then show ?thesis using False fn
      by (auto simp: wp_simps event_at_def HandleEvent_def WGMfunc_normal_def WGMfunc_ctc_def)
  qed
qed

lemma count_simple:
  fixes d :: "('f::zero, 'w, 'hw) timer_dev"
  assumes ok: "timer_ok d" and fn: "wgmfunc (tm d) (wgm (tm d)) = Fn_normal \<or> wgmfunc (tm d) (wgm (tm d)) = Fn_ctc"
    and p: "plain_compare (tm d)" and up: "\<not> updown_counting (tm d)" and w: "width_ok (tm d)"
    and u: "u = (tm d)\<lparr>vlast_tcnt := vtcnt (tm d), vtcnt := simple_next (tm d)\<rparr>"
    and S: "S = (if vtcnt (tm d) = limit_max (tm d) then {timerOverflow (tm d)} else {})"
    and post: "\<And>d'. fires (hits u \<union> S) d d' \<Longrightarrow> tm d' = match_all u \<Longrightarrow> Q () d'"
  shows "wp (CountTimer E) Q d"
proof -
  let ?t = "tm d"
  let ?d = "d\<lparr>tm := ?t\<lparr>vlast_tcnt := vtcnt ?t, vtcnt := vtcnt ?t + 1\<rparr>\<rparr>"
  have L: "limit_max ?t = 0xff \<or> limit_max ?t = 0xffff" "vtcnt ?t \<le> limit_max ?t" "limit_bottom ?t = 0"
    using w by (auto simp: width_ok_def)
  note ov = over_iff [OF L(1,2)]
  have f0: "fires {} d ?d" by (rule fires_tm [OF fires_refl [OF ok]]) simp_all
  have tail: "wp (up_events E) Q d1"
    if "fires S d d1" "tm d1 = ?t\<lparr>vlast_tcnt := vtcnt ?t, vtcnt := if vtcnt ?t = limit_max ?t then 0 else vtcnt ?t + 1\<rparr>" for d1
  proof (rule simple_events [where u = u, OF that(1)])
    show "\<And>d'. fires (hits u \<union> S) d d' \<Longrightarrow> tm d' = match_all u \<Longrightarrow> Q () d'" by (rule post)
  qed (use that(2) p fn L(3) in \<open>auto simp: u simple_next_def plain_compare_def\<close>)
  show ?thesis
  proof (cases "vtcnt ?t = limit_max ?t")
    case True
    have z: "(limit_max ?t + 1) AND limit_max ?t = 0" using ov(3) True by simp
    have "wp (fire E (timerOverflow ?t)) (\<lambda>_ d'. wp (up_events E) Q
        (d'\<lparr>tm := (tm d')\<lparr>vtcnt := vtcnt (tm d') AND limit_max (tm d')\<rparr>\<rparr>)) ?d"
      by (rule wp_overflow [OF f0, simplified]) (rule tail, rule fires_tm, use True S z in simp_all)
    then show ?thesis using up fn ov(1) True
      by (auto simp: CountTimer_def wp_simps HandleEvent_def WGMfunc_normal_def WGMfunc_ctc_def)
  next
    case False
    have "wp (up_events E) Q ?d" by (rule tail) (use False f0 S in simp_all)
    then show ?thesis using up ov(1) False by (simp add: CountTimer_def wp_simps)
  qed
qed

section \<open>Many counts\<close>

definition counts :: "('f::zero, 'w, 'hw) timer_env \<Rightarrow> nat \<Rightarrow> ('f, 'w, 'hw, unit) tsim" where
  "counts E n = forS (\<lambda>_. CountTimer E) [0..<n]"

lemma wp_counts:
  assumes "I 0 d" and "\<And>n d. I n d \<Longrightarrow> wp (CountTimer E) (\<lambda>_. I (Suc n)) d"
  shows "wp (counts E n) (\<lambda>_. I n) d"
proof (induction n)
  case 0
  then show ?case using assms(1) by (simp add: counts_def wp_def)
next
  case (Suc n)
  have "wp (counts E (Suc n)) (\<lambda>_. I (Suc n)) d \<longleftrightarrow> wp (counts E n) (\<lambda>_. wp (CountTimer E) (\<lambda>_. I (Suc n))) d"
    by (simp add: counts_def wp_def forS_snoc sq_def bnd_def split: sum.splits)
  moreover have "wp (counts E n) (\<lambda>_. wp (CountTimer E) (\<lambda>_. I (Suc n))) d"
    by (rule wp_mono [OF Suc]) (rule assms(2))
  ultimately show ?case by simp
qed

lemma fires_trans: "fires S d d1 \<Longrightarrow> fires T d1 d2 \<Longrightarrow> fires (T \<union> S) d d2"
  using fires_registered [of S d d1] by (auto simp: fires_def same_lines_def)

text \<open>What counting never changes in the modes with a fixed TOP.\<close>

definition same_setup :: "timer \<Rightarrow> timer \<Rightarrow> bool" where
  "same_setup t t' \<longleftrightarrow> wgmfunc t' = wgmfunc t \<and> wgm t' = wgm t \<and> limit_max t' = limit_max t \<and> limit_top t' = limit_top t \<and>
     limit_bottom t' = limit_bottom t \<and> compareEnable t' = compareEnable t \<and>
     timerCompare t' = timerCompare t \<and> timerOverflow t' = timerOverflow t \<and> updown_counting t' = updown_counting t \<and>
     com t' = com t"

lemma match_all_sel [simp]:
  "vtcnt (match_all t) = vtcnt t" "same_setup u (match_all t) = same_setup u t" "compare (match_all t) = compare t"
  "count_down (match_all t) = count_down t" "compare_dbl (match_all t) = compare_dbl t"
  by (simp_all add: match_all_def same_setup_def)

text \<open>The lines that fire when an up-counting timer leaves the value \<open>c\<close>.\<close>

definition fired_at :: "timer \<Rightarrow> nat \<Rightarrow> nat option set" where
  "fired_at t c = (if c = unat (limit_max t) then {timerOverflow t} else {}) \<union>
     {timerCompare t i | i. i < 3 \<and> (\<forall>j \<le> i. compareEnable t j) \<and> timerCompare t i \<noteq> None \<and> c = unat (compare t i)}"

lemma hits_eq:
  "hits t = {timerCompare t i | i. i < 3 \<and> (\<forall>j \<le> i. compareEnable t j) \<and> timerCompare t i \<noteq> None \<and>
     vlast_tcnt t = compare t i}"
  unfolding hits_def cmp_hit_def by (intro set_eqI) (auto split: if_splits)

definition period :: "timer \<Rightarrow> nat" where
  "period t = (if wgmfunc t (wgm t) = Fn_ctc then unat (limit_top t) + 1 else unat (limit_max t) + 1)"

lemma simple_next_mod:
  assumes "width_ok t" "unat (vtcnt t) = n mod period t"
  shows "unat (simple_next t) = Suc n mod period t"
proof -
  have w: "limit_max t = 0xff \<or> limit_max t = 0xffff" "vtcnt t \<le> limit_max t" "limit_top t \<le> limit_max t"
    using assms(1) by (auto simp: width_ok_def)
  have s: "Suc n mod period t = (if Suc (n mod period t) = period t then 0 else Suc (n mod period t))"
    by (rule mod_Suc)
  have u: "unat (vtcnt t + 1) = unat (vtcnt t) + 1" by (rule over_iff(2) [OF w(1,2)])
  have eq: "x = y \<longleftrightarrow> unat x = unat y" for x y :: ulong by (simp add: word_unat_eq_iff)
  show ?thesis
  proof (cases "wgmfunc t (wgm t) = Fn_ctc \<and> vtcnt t \<noteq> limit_top t \<and> vtcnt t = limit_max t")
    case True
    then have "unat (vtcnt t) < period t" using assms(2) by (simp add: period_def)
    then show ?thesis using True w(3) by (auto simp: period_def eq word_le_nat_alt)
  next
    case False
    then show ?thesis using s u assms(2) by (auto simp: simple_next_def eq period_def)
  qed
qed

lemma mod_period_le: "width_ok t \<Longrightarrow> n mod period t \<le> unat (limit_max t)"
proof -
  assume "width_ok t"
  then have "period t \<le> unat (limit_max t) + 1" by (auto simp: width_ok_def period_def word_le_nat_alt)
  moreover have "n mod period t < period t" by (simp add: period_def)
  ultimately show ?thesis by linarith
qed

text \<open>
  C19. In normal and CTC mode the counter runs through \<open>0, 1, \<dots>, P - 1\<close> again and again, where the
  period \<open>P\<close> is 256 or 65536 in normal mode and OCRA (or ICR) plus one in CTC mode. The overflow
  flag and the compare flags are set exactly by the counts at MAX and at the compare values.
\<close>

theorem timer_periodic:
  fixes d :: "('f::zero, 'w, 'hw) timer_dev"
  assumes ok: "timer_ok d" and mode: "wgm (tm d) = WGM_NORMAL \<or> wgm (tm d) = WGM_CTC_OCRA \<or> wgm (tm d) = WGM_CTC_ICR"
    and fn: "wgmfunc (tm d) = HWTimer16_wgmfunc \<or> wgmfunc (tm d) = HWTimer8_wgmfunc \<and> wgm (tm d) \<noteq> WGM_CTC_ICR"
    and up: "\<not> updown_counting (tm d)" and w: "width_ok (tm d)" and zero: "vtcnt (tm d) = 0"
  shows "\<exists>d'. counts E n d = Inr ((), d') \<and> timer_ok d' \<and> unat (vtcnt (tm d')) = n mod period (tm d) \<and>
     (\<forall>v. registered (fst (tirqs d)) v \<longrightarrow>
        (flag d' (Some v) \<longleftrightarrow> flag d (Some v) \<or> (\<exists>k < n. Some v \<in> fired_at (tm d) (k mod period (tm d)))))"
proof -
  let ?t = "tm d"
  let ?I = "\<lambda>n d'. fires (\<Union>k < n. fired_at ?t (k mod period ?t)) d d' \<and> same_setup ?t (tm d') \<and>
      compare (tm d') = compare ?t \<and> unat (vtcnt (tm d')) = n mod period ?t"
  have f: "wgmfunc ?t (wgm ?t) = Fn_normal \<or> wgmfunc ?t (wgm ?t) = Fn_ctc"
    using mode fn by (auto simp: HWTimer16_wgmfunc_def HWTimer8_wgmfunc_def)
  have p: "plain_compare ?t" using f mode by (auto simp: plain_compare_def)
  have "wp (counts E n) (\<lambda>_. ?I n) d"
  proof (rule wp_counts)
    show "?I 0 d" using zero fires_refl [OF ok] by (simp add: same_setup_def)
  next
    fix n and e :: "('f, 'w, 'hw) timer_dev"
    assume I: "?I n e"
    let ?u = "(tm e)\<lparr>vlast_tcnt := vtcnt (tm e), vtcnt := simple_next (tm e)\<rparr>"
    have ss: "same_setup ?t (tm e)" "compare (tm e) = compare ?t" "unat (vtcnt (tm e)) = n mod period ?t" using I by auto
    then have pe: "period (tm e) = period ?t" by (simp add: period_def same_setup_def)
    have "unat (vtcnt (tm e)) \<le> unat (limit_max ?t)" using ss(3) mod_period_le [OF w] by simp
    then have we: "width_ok (tm e)" using w ss(1) by (auto simp: width_ok_def same_setup_def word_le_nat_alt)
    have nx: "unat (simple_next (tm e)) = Suc n mod period ?t"
      using simple_next_mod [OF we, of n] ss(3) pe by simp
    have fa: "hits ?u \<union> (if vtcnt (tm e) = limit_max (tm e) then {timerOverflow (tm e)} else {})
        = fired_at ?t (n mod period ?t)"
      using ss by (auto simp: hits_eq fired_at_def same_setup_def simp flip: word_unat_eq_iff)
    have un: "(\<Union>k < Suc n. fired_at ?t (k mod period ?t)) =
        fired_at ?t (n mod period ?t) \<union> (\<Union>k < n. fired_at ?t (k mod period ?t))"
      by (simp add: lessThan_Suc)
    show "wp (CountTimer E) (\<lambda>_. ?I (Suc n)) e"
    proof (rule count_simple [OF _ _ _ _ we refl refl])
      show "timer_ok e" using I by (simp add: fires_def)
      show "wgmfunc (tm e) (wgm (tm e)) = Fn_normal \<or> wgmfunc (tm e) (wgm (tm e)) = Fn_ctc" "plain_compare (tm e)"
        "\<not> updown_counting (tm e)"
        using f p up ss(1) by (simp_all add: same_setup_def plain_compare_def)
      fix d'
      assume d': "fires (hits ?u \<union> (if vtcnt (tm e) = limit_max (tm e) then {timerOverflow (tm e)} else {})) e d'"
        "tm d' = match_all ?u"
      have fr: "fires (\<Union>k < Suc n. fired_at ?t (k mod period ?t)) d d'"
        unfolding un using fires_trans [of _ d e _ d'] I d'(1) fa by simp
      have "same_setup ?t ?u" using ss(1) by (simp add: same_setup_def)
      then have "same_setup ?t (tm d')" using d'(2) by simp
      moreover have "compare (tm d') = compare ?t" "unat (vtcnt (tm d')) = Suc n mod period ?t"
        using d'(2) ss nx by simp_all
      moreover note fr
      ultimately show "?I (Suc n) d'" by blast
    qed
  qed
  then show ?thesis by (auto simp: wp_def fires_def)
qed

text \<open>A sixteen bit timer with an overflow line (vector 3) and one compare channel (vector 4).\<close>

definition blank_timer :: timer where
  "blank_timer = \<lparr>cs = 1, captureInputState = False, icapNCcounter = 0, icapNCstate = False, premx = MuxPlain,
     clkpin_old = False, timerOverflow = None, timerCapture = None, vtcnt = 0, vlast_tcnt = 0,
     updown_counting = False, count_down = False, limit_bottom = 0, limit_top = 0, limit_max = 0, icapRegister = 0,
     icapSource = None, icapRisingEdge = False, icapNoiseCanceler = False, wgm = WGM_NORMAL,
     wgmfunc = (\<lambda>w. WGMFunc_noop), compare = (\<lambda>i. 0), compare_dbl = (\<lambda>i. 0), compareEnable = (\<lambda>i. False),
     com = (\<lambda>i. COM_NOOP), timerCompare = (\<lambda>i. None), compare_output = (\<lambda>i. None),
     compare_output_state = (\<lambda>i. False), accessTempRegister = 0, tccra_val = 0, tccrb_val = 0, wgm_raw = 0,
     at8515_mode = False\<rparr>"

definition sample_timer :: timer where
  "sample_timer = HWTimer16 blank_timer MuxPlain False (Some 3) (Some 4) None None None None None None None"

definition sample_dev :: "(timer \<Rightarrow> timer) \<Rightarrow> (int, unit, char) timer_dev" where
  "sample_dev f = \<lparr>tm = f sample_timer, tirqs = (TimerIRQRegister\<lparr>lines := [Some 3, Some 4, None, None, None, None, None, None],
     vector2line := [3 \<mapsto> 0, 4 \<mapsto> 1], bitmask := 3\<rparr>, HWIrqSystem 2 10), tboard = empty_board, clocked = True\<rparr>"

lemma sample_irqs:
  "tirq_ok (tirqs (sample_dev f))" "registered (fst (tirqs (sample_dev f))) 3" "registered (fst (tirqs (sample_dev f))) 4"
proof -
  have b: "bit (3 :: byte) i \<longleftrightarrow> i = 0 \<or> i = 1" if "i < 8" for i
  proof -
    have "(3 :: byte) = mask 2" by (simp add: mask_eq_exp_minus_1)
    then show ?thesis using that by (simp only: bit_mask_iff) auto
  qed
  show "tirq_ok (tirqs (sample_dev f))"
    unfolding tirq_ok_def sample_dev_def
    by (auto simp: TimerIRQRegister_def HWIrqSystem_def irq_ok_def table_ok_def b elim!: less_8_cases)
  show "registered (fst (tirqs (sample_dev f))) 3" "registered (fst (tirqs (sample_dev f))) 4"
    by (auto simp: registered_def sample_dev_def intro: exI [of _ 0] exI [of _ 1])
qed

lemma sample_ok:
  assumes "timerOverflow (f sample_timer) = Some 3" "timerCapture (f sample_timer) = None"
    "timerCompare (f sample_timer) = timerCompare sample_timer"
  shows "timer_ok (sample_dev f)"
proof -
  have "board_free empty_board" by (simp add: board_free_def port_free_def empty_board_def)
  moreover have "timerCompare sample_timer = (\<lambda>i. if i = 0 then Some 4 else None)"
    by (auto simp: sample_timer_def HWTimer16_def enable_OC_def BasicTimerUnit_def)
  ultimately show ?thesis
    using assms sample_irqs [of f] by (auto simp: timer_ok_def lines_ok_def sample_dev_def split: if_splits)
qed

text \<open>CTC mode with OCRA = 9: after 25 counts the counter is at 5, the compare flag is set and no overflow was seen.\<close>

theorem timer_periodic_witness:
  "\<forall>E. \<exists>d'. counts E 25 (sample_dev (\<lambda>t. ChangeWGM16 WGM_CTC_OCRA (set_compare 0 9 t))) = Inr ((), d') \<and>
     unat (vtcnt (tm d')) = 5 \<and> flag d' (Some 4) \<and> \<not> flag d' (Some 3)"
proof
  fix E :: "(int, unit, char) timer_env"
  let ?f = "\<lambda>t. ChangeWGM16 WGM_CTC_OCRA (set_compare 0 9 t)"
  let ?d = "sample_dev ?f"
  note defs = sample_dev_def ChangeWGM16_def set_compare_def WGMisPWM_def sample_timer_def HWTimer16_def enable_OC_def
    BasicTimerUnit_def blank_timer_def
  have t: "timer_ok ?d" by (rule sample_ok) (simp_all add: defs)
  have p: "period (tm ?d) = 10" by (simp add: defs period_def HWTimer16_wgmfunc_def)
  obtain d' where d': "counts E 25 ?d = Inr ((), d')" "unat (vtcnt (tm d')) = 25 mod period (tm ?d)"
    and fl: "\<forall>v. registered (fst (tirqs ?d)) v \<longrightarrow>
        (flag d' (Some v) \<longleftrightarrow> flag ?d (Some v) \<or> (\<exists>k < 25. Some v \<in> fired_at (tm ?d) (k mod period (tm ?d))))"
    using timer_periodic [OF t, of E 25] by (auto simp: defs width_ok_def)
  have f4: "fired_at (tm ?d) c = (if c = 65535 then {Some 3} else {}) \<union> (if c = 9 then {Some 4} else {})" for c
    by (auto simp: fired_at_def defs)
  have "\<exists>k < 25. Some 4 \<in> fired_at (tm ?d) (k mod 10)" by (rule exI [of _ 9]) (simp add: f4)
  moreover have "\<not> (\<exists>k < 25. Some 3 \<in> fired_at (tm ?d) (k mod 10))"
  proof -
    have "k mod 10 \<noteq> 65535" for k :: nat using mod_less_divisor [of 10 k] by linarith
    then show ?thesis by (simp add: f4)
  qed
  moreover have "\<not> flag ?d (Some 3)" by (simp add: flag_def sample_dev_def TimerIRQRegister_def)
  ultimately have "flag d' (Some 4)" "\<not> flag d' (Some 3)" using fl sample_irqs(2,3) [of ?f] p by auto
  then show "\<exists>d'. counts E 25 ?d = Inr ((), d') \<and> unat (vtcnt (tm d')) = 5 \<and> flag d' (Some 4) \<and> \<not> flag d' (Some 3)"
    using d' p by auto
qed

section \<open>Fast PWM\<close>

definition fast_fixed :: "timer \<Rightarrow> bool" where
  "fast_fixed t \<longleftrightarrow> wgmfunc t (wgm t) = Fn_fastpwm \<and>
     (wgm t = WGM_FASTPWM_8BIT \<or> wgm t = WGM_FASTPWM_9BIT \<or> wgm t = WGM_FASTPWM_10BIT)"

text \<open>The compare registers hold what their double buffers will load: no change is pending.\<close>

definition latched :: "timer \<Rightarrow> bool" where
  "latched t \<longleftrightarrow> compare (update_OCR_fastpwm t) = compare t"

lemma latched_update:
  assumes "latched t" "fast_fixed t"
  shows "update_OCR_fastpwm t = t"
proof -
  have "update_OCR_fastpwm t = t\<lparr>compare := compare (update_OCR_fastpwm t)\<rparr>"
    using assms(2) unfolding fast_fixed_def update_OCR_fastpwm_def Let_def by (elim conjE disjE) simp_all
  then show ?thesis using assms(1) by (simp add: latched_def)
qed

lemma latched_upd [simp]:
  "latched (t\<lparr>vtcnt := v\<rparr>) = latched t" "latched (t\<lparr>vlast_tcnt := v\<rparr>) = latched t"
  "latched (t\<lparr>compare_output_state := s\<rparr>) = latched t"
  unfolding latched_def update_OCR_fastpwm_def Let_def by (cases t; simp)+

lemma fast_fixed_plain: "fast_fixed t \<Longrightarrow> plain_compare t"
  by (auto simp: fast_fixed_def plain_compare_def)

abbreviation pwm_top :: "nat \<Rightarrow> timer \<Rightarrow> timer" where
  "pwm_top i t \<equiv> set_out i (pwm_next (com t i) True (compare_output_state t i)) t"

text \<open>The timer after the events at BOTTOM and TOP of one count.\<close>

definition fast_next :: "timer \<Rightarrow> timer" where
  "fast_next t =
     (if vtcnt t = limit_top t
      then (pwm_top 2 (pwm_top 1 (pwm_top 0 t)))\<lparr>vlast_tcnt := vtcnt t, vtcnt := 0\<rparr>
      else t\<lparr>vlast_tcnt := vtcnt t, vtcnt := vtcnt t + 1\<rparr>)"

lemma wp_pwm_tops:
  assumes "fires S d0 d"
    and "\<And>d'. fires S d0 d' \<Longrightarrow> tm d' = pwm_top 2 (pwm_top 1 (pwm_top 0 (tm d))) \<Longrightarrow> Q () d'"
  shows "wp (forS (\<lambda>i. SetPWMCompareOutput E i True) [0, 1, 2]) Q d"
proof -
  have "wp (SetPWMCompareOutput E 0 True) (\<lambda>_. wp (SetPWMCompareOutput E 1 True) (\<lambda>_. wp (SetPWMCompareOutput E 2 True) Q)) d"
    by (rule wp_SetPWM [OF assms(1)], rule wp_SetPWM, assumption, rule wp_SetPWM, assumption, rule assms(2))
      simp_all
  moreover have "(\<lambda>_. Q ()) = Q" by (simp add: fun_eq_iff)
  ultimately show ?thesis by (simp only: wp_simps)
qed

lemma fast_events:
  "WGMfunc_fastpwm E EVT_BOTTOM_REACHED = upd_tm update_OCR_fastpwm" "WGMfunc_fastpwm E EVT_MAX_REACHED = ret ()"
  by (simp_all add: WGMfunc_fastpwm_def)

lemma wp_fast_bottom:
  assumes "wgmfunc (tm d) (wgm (tm d)) = Fn_fastpwm" "update_OCR_fastpwm (tm d) = tm d" "Q () d"
  shows "wp (event_at E limit_bottom EVT_BOTTOM_REACHED) Q d"
  using assms by (simp add: event_at_def HandleEvent_def wp_simps fast_events)

lemma count_fast:
  fixes d :: "('f::zero, 'w, 'hw) timer_dev"
  assumes ok: "timer_ok d" and ff: "fast_fixed (tm d)" and la: "latched (tm d)" and up: "\<not> updown_counting (tm d)"
    and w: "width_ok (tm d)" and le: "vtcnt (tm d) \<le> limit_top (tm d)"
    and u: "u = fast_next (tm d)"
    and S: "S = (if vtcnt (tm d) = limit_top (tm d) then {timerOverflow (tm d)} else {})"
    and post: "\<And>d'. fires (hits u \<union> S) d d' \<Longrightarrow> tm d' = match_all u \<Longrightarrow> Q () d'"
  shows "wp (CountTimer E) Q d"
proof -
  let ?t = "tm d"
  let ?v = "if vtcnt ?t = limit_max ?t then 0 else vtcnt ?t + 1"
  let ?a = "?t\<lparr>vlast_tcnt := vtcnt ?t, vtcnt := ?v\<rparr>"
  let ?d = "d\<lparr>tm := ?a\<rparr>"
  have L: "limit_max ?t = 0xff \<or> limit_max ?t = 0xffff" "vtcnt ?t \<le> limit_max ?t" "limit_bottom ?t = 0"
    using w by (auto simp: width_ok_def)
  note ov = over_iff [OF L(1,2)]
  have f0: "fires {} d ?d" by (rule fires_tm [OF fires_refl [OF ok]]) simp_all
  have lu: "update_OCR_fastpwm ?a = ?a" using la ff by (intro latched_update) (simp_all add: fast_fixed_def)
  have pc: "plain_compare u" using fast_fixed_plain [OF ff] u by (simp add: plain_compare_def fast_next_def)
  have cmp: "wp (compare_events E) Q e" if "fires S d e" "tm e = u" for e
    by (rule wp_compare_events [OF that(1)])
      (use that(2) pc post in \<open>auto simp: hits_three match_all_def Un_assoc\<close>)
  have top: "wp (event_at E limit_top EVT_TOP_REACHED) (\<lambda>_. wp (compare_events E) Q) ?d"
  proof (cases "vtcnt ?t = limit_top ?t")
    case True
    have tops: "wp (forS (\<lambda>i. SetPWMCompareOutput E i True) [0, 1, 2])
        (\<lambda>_ d'. wp (compare_events E) Q (d'\<lparr>tm := (tm d')\<lparr>vtcnt := limit_bottom (tm d')\<rparr>\<rparr>)) e"
      if e: "fires S d e" "tm e = ?a" for e
      by (rule wp_pwm_tops [OF e(1)], rule cmp, rule fires_tm)
        (use e(2) u True L(3) in \<open>simp_all add: fast_next_def\<close>)
    have ti: "wp (top_interrupts E WGM_FASTPWM_OCRA WGM_FASTPWM_ICR) R e" if "tm e = ?a" "R () e" for R e
      using ff that by (auto simp: top_interrupts_def wp_simps fast_fixed_def)
    have "wp (fire E (timerOverflow (tm ?d))) (\<lambda>_. wp (top_interrupts E WGM_FASTPWM_OCRA WGM_FASTPWM_ICR)
        (\<lambda>_. wp (forS (\<lambda>i. SetPWMCompareOutput E i True) [0, 1, 2])
        (\<lambda>_ d'. wp (compare_events E) Q (d'\<lparr>tm := (tm d')\<lparr>vtcnt := limit_bottom (tm d')\<rparr>\<rparr>)))) ?d"
      by (rule wp_overflow [OF f0], rule ti, simp, rule tops) (use S True in simp_all)
    then have "wp (WGMfunc_fastpwm E EVT_TOP_REACHED) (\<lambda>_. wp (compare_events E) Q) ?d"
      unfolding WGMfunc_fastpwm_def ce_type.case wp_sq wp_bnd wp_basic .
    then show ?thesis using True ff by (simp add: event_at_def HandleEvent_def wp_simps fast_fixed_def)
  next
    case False
    then have "wp (compare_events E) Q ?d"
      using le w u f0 S by (intro cmp) (auto simp: fast_next_def width_ok_def)
    then show ?thesis using False by (simp add: event_at_def wp_simps)
  qed
  have "wp (up_events E) Q ?d"
    unfolding wp_sq by (rule wp_fast_bottom) (use top lu ff in \<open>simp_all add: fast_fixed_def\<close>)
  moreover have "wp (HandleEvent E EVT_MAX_REACHED) R e \<longleftrightarrow> R () e" if "tm e = ?t\<lparr>vlast_tcnt := vtcnt ?t, vtcnt := v\<rparr>" for R e v
    using that ff by (simp add: HandleEvent_def wp_simps fast_fixed_def fast_events)
  ultimately show ?thesis
    using up ov by (cases "vtcnt ?t = limit_max ?t") (simp_all add: CountTimer_def wp_simps, simp_all)
qed

text \<open>
  The output of one channel: high (in the non-inverting mode) from the count at TOP up to and
  including the count at the compare value.
\<close>

definition pwm_level :: "timer \<Rightarrow> nat \<Rightarrow> bool" where
  "pwm_level t i \<longleftrightarrow> (vtcnt t \<le> compare t i) = (com t i = COM_CLEAR)"

definition pwm_channel :: "timer \<Rightarrow> nat \<Rightarrow> bool" where
  "pwm_channel t i \<longleftrightarrow> i < 3 \<and> (\<forall>j \<le> i. compareEnable t j) \<and> timerCompare t i \<noteq> None \<and>
     (com t i = COM_CLEAR \<or> com t i = COM_SET) \<and> compare t i < limit_top t"

lemma match_all_out:
  assumes "i < 3"
  shows "compare_output_state (match_all t) i = compare_output_state (cmp_step i t) i"
proof -
  have o: "compare_output_state (cmp_step j u) i = compare_output_state u i" if "j \<noteq> i" for j u
    using that by (simp add: cmp_step_def)
  have c: "compare_output_state (cmp_step i (t\<lparr>compare_output_state := f\<rparr>)) i = compare_output_state (cmp_step i t) i"
    if "f i = compare_output_state t i" for f
  proof -
    have "compare_out i (t\<lparr>compare_output_state := f\<rparr>) = compare_out i t"
      using that by (simp add: compare_out_def split: wgm_func.split)
    then show ?thesis using that by (auto simp: cmp_step_def)
  qed
  have s: "cmp_step j u = u\<lparr>compare_output_state := compare_output_state (cmp_step j u)\<rparr>" for j u
    by (simp add: cmp_step_def)
  consider "i = 0" | "i = 1" | "i = 2" using assms by linarith
  then show ?thesis
  proof cases
    case 1
    then show ?thesis using o [of 1] o [of 2] by (simp add: match_all_def)
  next
    case 2
    have "compare_output_state (cmp_step i (cmp_step 0 t)) i = compare_output_state (cmp_step i t) i"
      using c [of "compare_output_state (cmp_step 0 t)"] o [of 0 t] 2 by (subst s) simp
    then show ?thesis using 2 o [of 2] by (simp add: match_all_def)
  next
    case 3
    let ?u = "cmp_step 1 (cmp_step 0 t)"
    have u: "?u = t\<lparr>compare_output_state := compare_output_state ?u\<rparr>" by (subst s, subst (2) s) simp
    have "compare_output_state (cmp_step i ?u) i = compare_output_state (cmp_step i t) i"
      using c [of "compare_output_state ?u"] o 3 by (subst u) simp
    then show ?thesis using 3 by (simp add: match_all_def)
  qed
qed

lemma fast_next_sel:
  "same_setup t (fast_next t)" "compare (fast_next t) = compare t" "latched (fast_next t) = latched t"
  "vlast_tcnt (fast_next t) = vtcnt t"
  "vtcnt (fast_next t) = (if vtcnt t = limit_top t then 0 else vtcnt t + 1)"
  "i < 3 \<Longrightarrow> compare_output_state (fast_next t) i =
     (if vtcnt t = limit_top t then pwm_next (com t i) True (compare_output_state t i) else compare_output_state t i)"
  by (auto simp: fast_next_def same_setup_def less_Suc_eq numeral_3_eq_3 numeral_2_eq_2)

lemma pwm_step:
  assumes "fast_fixed t" "pwm_channel t i" "compare_output_state t i = pwm_level t i"
    "vtcnt t \<le> limit_top t" "unat (limit_top t) < 65536"
  shows "compare_output_state (match_all (fast_next t)) i = pwm_level (match_all (fast_next t)) i"
proof -
  have i: "i < 3" using assms(2) by (simp add: pwm_channel_def)
  let ?u = "fast_next t"
  have u: "com ?u = com t" "compareEnable ?u = compareEnable t" "timerCompare ?u = timerCompare t"
    "wgmfunc ?u = wgmfunc t" "wgm ?u = wgm t"
    using fast_next_sel(1) [of t] by (simp_all add: same_setup_def)
  have lt: "compare t i < limit_top t" using assms(2) by (simp add: pwm_channel_def)
  have inc: "vtcnt t + 1 \<le> compare t i \<longleftrightarrow> vtcnt t < compare t i"
  proof -
    have "unat (vtcnt t) < 65536" using assms(4,5) by (simp add: word_le_nat_alt)
    then have "unat (vtcnt t + 1) = unat (vtcnt t) + 1" by (subst unat_plus_if') simp
    then show ?thesis by (simp add: word_le_nat_alt word_less_nat_alt Suc_le_eq)
  qed
  have "com (match_all ?u) = com t" using u by (simp add: match_all_def)
  then have lvl: "pwm_level (match_all ?u) i \<longleftrightarrow>
      ((if vtcnt t = limit_top t then 0 else vtcnt t + 1) \<le> compare t i) = (com t i = COM_CLEAR)"
    by (simp add: pwm_level_def fast_next_sel)
  have "compare_output_state (match_all ?u) i = (if vtcnt t = compare t i then pwm_next (com t i) False (compare_output_state ?u i)
      else compare_output_state ?u i)"
    unfolding match_all_out [OF i] using assms(1,2) u
    by (auto simp: cmp_step_def fast_next_sel pwm_channel_def compare_out_def fast_fixed_def)
  then show ?thesis
    unfolding lvl using assms(2,3) lt inc i
    by (auto simp: fast_next_sel pwm_next_def pwm_channel_def pwm_level_def)
qed

definition fast_fired :: "timer \<Rightarrow> nat \<Rightarrow> nat option set" where
  "fast_fired t c = (if c = unat (limit_top t) then {timerOverflow t} else {}) \<union>
     {timerCompare t i | i. i < 3 \<and> (\<forall>j \<le> i. compareEnable t j) \<and> timerCompare t i \<noteq> None \<and> c = unat (compare t i)}"

lemma top_bound: "width_ok t \<Longrightarrow> unat (limit_top t) < 65536"
  by (auto simp: width_ok_def word_le_nat_alt)

text \<open>
  C17. Fast PWM with a fixed TOP: the counter runs through \<open>0, \<dots>, TOP\<close>, the output of a channel with
  compare value \<open>C < TOP\<close> is high (non-inverting mode) or low (inverting mode) exactly while the
  counter is at most \<open>C\<close>, so for \<open>C + 1\<close> of \<open>TOP + 1\<close> counts, and each period sets the overflow flag.
\<close>

theorem fast_pwm_duty:
  fixes d :: "('f::zero, 'w, 'hw) timer_dev"
  assumes ok: "timer_ok d" and ff: "fast_fixed (tm d)" and la: "latched (tm d)" and up: "\<not> updown_counting (tm d)"
    and w: "width_ok (tm d)" and ch: "pwm_channel (tm d) i" and zero: "vtcnt (tm d) = 0"
    and out: "compare_output_state (tm d) i = (com (tm d) i = COM_CLEAR)"
    and ov: "\<forall>j. timerCompare (tm d) j \<noteq> timerOverflow (tm d)"
    and P: "P = unat (limit_top (tm d)) + 1"
  shows "\<exists>d'. counts E n d = Inr ((), d') \<and> timer_ok d' \<and> unat (vtcnt (tm d')) = n mod P \<and>
     compare_output_state (tm d') i = ((n mod P \<le> unat (compare (tm d) i)) = (com (tm d) i = COM_CLEAR)) \<and>
     (flag d' (timerOverflow (tm d)) \<longleftrightarrow> flag d (timerOverflow (tm d)) \<or> P \<le> n)"
proof -
  let ?t = "tm d"
  let ?I = "\<lambda>n d'. fires (\<Union>k < n. fast_fired ?t (k mod P)) d d' \<and> same_setup ?t (tm d') \<and>
      compare (tm d') = compare ?t \<and> latched (tm d') \<and> unat (vtcnt (tm d')) = n mod P \<and>
      compare_output_state (tm d') i = pwm_level (tm d') i"
  have "wp (counts E n) (\<lambda>_. ?I n) d"
  proof (rule wp_counts)
    show "?I 0 d" using zero la fires_refl [OF ok] out by (simp add: same_setup_def pwm_level_def)
  next
    fix n and e :: "('f, 'w, 'hw) timer_dev"
    assume I: "?I n e"
    let ?u = "fast_next (tm e)"
    have ss: "same_setup ?t (tm e)" "compare (tm e) = compare ?t" "unat (vtcnt (tm e)) = n mod P"
      "compare_output_state (tm e) i = pwm_level (tm e) i" "latched (tm e)" using I by auto
    have "n mod P < P" by (simp add: P)
    then have ve: "vtcnt (tm e) \<le> limit_top (tm e)" using ss(1,3) by (simp add: P same_setup_def word_le_nat_alt)
    have we: "width_ok (tm e)" using w ss(1) ve by (auto simp: width_ok_def same_setup_def)
    have fe: "fast_fixed (tm e)" "pwm_channel (tm e) i" "\<not> updown_counting (tm e)"
      using ff ch up ss(1,2) by (auto simp: fast_fixed_def pwm_channel_def same_setup_def)
    have nx: "unat (vtcnt ?u) = Suc n mod P"
    proof -
      have "unat (vtcnt (tm e) + 1) = unat (vtcnt (tm e)) + 1"
        using we by (intro over_iff(2) [of "limit_max (tm e)"]) (auto simp: width_ok_def)
      then show ?thesis using ss(1,3) mod_Suc [of n P]
        by (auto simp: fast_next_sel P same_setup_def word_unat_eq_iff)
    qed
    have fa: "hits ?u \<union> (if vtcnt (tm e) = limit_top (tm e) then {timerOverflow (tm e)} else {}) = fast_fired ?t (n mod P)"
    proof -
      have "same_setup ?t ?u" using ss(1) fast_next_sel(1) [of "tm e"] by (simp add: same_setup_def)
      then have "hits ?u = {timerCompare ?t i | i. i < 3 \<and> (\<forall>j \<le> i. compareEnable ?t j) \<and> timerCompare ?t i \<noteq> None \<and>
          n mod P = unat (compare ?t i)}"
        using ss(2,3) by (simp add: hits_eq fast_next_sel same_setup_def word_unat_eq_iff)
      then show ?thesis using ss(1,3) by (auto simp: fast_fired_def same_setup_def word_unat_eq_iff)
    qed
    have un: "(\<Union>k < Suc n. fast_fired ?t (k mod P)) = fast_fired ?t (n mod P) \<union> (\<Union>k < n. fast_fired ?t (k mod P))"
      by (simp add: lessThan_Suc)
    show "wp (CountTimer E) (\<lambda>_. ?I (Suc n)) e"
    proof (rule count_fast [OF _ fe(1) ss(5) fe(3) we ve refl refl])
      show "timer_ok e" using I by (simp add: fires_def)
      fix d'
      assume d': "fires (hits ?u \<union> (if vtcnt (tm e) = limit_top (tm e) then {timerOverflow (tm e)} else {})) e d'"
        "tm d' = match_all ?u"
      have "fires (\<Union>k < Suc n. fast_fired ?t (k mod P)) d d'"
        unfolding un using fires_trans [of _ d e _ d'] I d'(1) fa by simp
      moreover have "same_setup ?t (tm d')"
        using d'(2) ss(1) fast_next_sel(1) [of "tm e"] by (simp add: same_setup_def match_all_def)
      moreover have "latched (tm d')" using ss(5) d'(2)
        by (simp add: match_all_def cmp_step_def fast_next_sel)
      moreover have "compare_output_state (tm d') i = pwm_level (tm d') i"
        unfolding d'(2) by (rule pwm_step [OF fe(1,2) ss(4) ve top_bound [OF we]])
      ultimately show "?I (Suc n) d'" using d'(2) ss nx by (simp add: fast_next_sel)
    qed
  qed
  then obtain d' where d': "counts E n d = Inr ((), d')" "?I n d'" by (auto simp: wp_def)
  have "timerOverflow ?t \<in> (\<Union>k < n. fast_fired ?t (k mod P)) \<longleftrightarrow> P \<le> n"
  proof -
    have "timerOverflow ?t \<in> fast_fired ?t c \<longleftrightarrow> c = unat (limit_top ?t)" for c
      using ov by (auto simp: fast_fired_def)
    then have "timerOverflow ?t \<in> (\<Union>k < n. fast_fired ?t (k mod P)) \<longleftrightarrow> (\<exists>k < n. k mod P = P - 1)" by (simp add: P Bex_def)
    also have "\<dots> \<longleftrightarrow> P \<le> n"
    proof
      assume "\<exists>k < n. k mod P = P - 1"
      then obtain k where "k < n" "k mod P = P - 1" by blast
      moreover have "k mod P \<le> k" by simp
      ultimately show "P \<le> n" by linarith
    next
      assume "P \<le> n"
      then show "\<exists>k < n. k mod P = P - 1" by (intro exI [of _ "P - 1"]) (auto simp: P)
    qed
    finally show ?thesis .
  qed
  moreover have "\<exists>v. timerOverflow ?t = Some v \<and> registered (fst (tirqs d)) v"
    using ok by (auto simp: timer_ok_def lines_ok_def)
  ultimately have "flag d' (timerOverflow ?t) \<longleftrightarrow> flag d (timerOverflow ?t) \<or> P \<le> n"
    using d'(2) by (auto simp: fires_def)
  moreover have "pwm_level (tm d') i \<longleftrightarrow> ((n mod P \<le> unat (compare ?t i)) = (com ?t i = COM_CLEAR))"
    using d'(2) by (auto simp: pwm_level_def same_setup_def word_le_nat_alt)
  ultimately show ?thesis using d' by (auto simp: fires_def)
qed

text \<open>Nine bit fast PWM, compare value 127: a duty cycle of one quarter.\<close>

theorem fast_pwm_duty_witness:
  "\<forall>E n. \<exists>d'. counts E n (sample_dev (\<lambda>t. (ChangeWGM16 WGM_FASTPWM_9BIT (set_compare 0 127 t))
        \<lparr>com := (\<lambda>i. COM_CLEAR), compare_output_state := (\<lambda>i. True)\<rparr>)) = Inr ((), d') \<and>
     compare_output_state (tm d') 0 = (n mod 512 < 128) \<and> (flag d' (Some 3) \<longleftrightarrow> 512 \<le> n)"
proof (intro allI)
  fix E :: "(int, unit, char) timer_env" and n
  let ?f = "\<lambda>t. (ChangeWGM16 WGM_FASTPWM_9BIT (set_compare 0 127 t))
     \<lparr>com := (\<lambda>i. COM_CLEAR), compare_output_state := (\<lambda>i. True)\<rparr>"
  let ?d = "sample_dev ?f"
  note defs = sample_dev_def ChangeWGM16_def set_compare_def WGMisPWM_def sample_timer_def HWTimer16_def enable_OC_def
    BasicTimerUnit_def blank_timer_def
  have t: "timer_ok ?d" by (rule sample_ok) (simp_all add: defs)
  have a: "fast_fixed (tm ?d)" by (simp add: fast_fixed_def defs HWTimer16_wgmfunc_def)
  have b: "latched (tm ?d)"
    unfolding latched_def update_OCR_fastpwm_def Let_def by (simp add: defs fun_eq_iff)
  have c: "pwm_channel (tm ?d) 0" by (simp add: pwm_channel_def defs)
  have e: "width_ok (tm ?d)" "\<not> updown_counting (tm ?d)" "vtcnt (tm ?d) = 0" "limit_top (tm ?d) = 511"
    "com (tm ?d) 0 = COM_CLEAR" "compare_output_state (tm ?d) 0" "timerOverflow (tm ?d) = Some 3"
    "\<forall>j. timerCompare (tm ?d) j \<noteq> Some 3" "compare (tm ?d) 0 = 127"
    by (simp_all add: defs width_ok_def)
  have "\<not> flag ?d (Some 3)" by (simp add: flag_def sample_dev_def TimerIRQRegister_def)
  then show "\<exists>d'. counts E n ?d = Inr ((), d') \<and> compare_output_state (tm d') 0 = (n mod 512 < 128) \<and>
      (flag d' (Some 3) \<longleftrightarrow> 512 \<le> n)"
    using fast_pwm_duty [OF t a b e(2,1) c e(3), of 512 E n] e by (auto simp: less_Suc_eq_le)
qed

section \<open>Phase correct PWM\<close>

definition phase_fixed :: "timer \<Rightarrow> bool" where
  "phase_fixed t \<longleftrightarrow> wgmfunc t (wgm t) = Fn_pcpwm \<and> updown_counting t \<and> limit_bottom t = 0 \<and>
     (wgm t = WGM_PCPWM_8BIT \<or> wgm t = WGM_PCPWM_9BIT \<or> wgm t = WGM_PCPWM_10BIT)"

lemma phase_events:
  "WGMfunc_pcpwm E EVT_BOTTOM_REACHED = bnd (get_tm timerOverflow) (fire E)"
  "WGMfunc_pcpwm E EVT_TOP_REACHED = sq (top_interrupts E WGM_PCPWM_OCRA WGM_PCPWM_ICR) (update_OCR_pcpwm E)"
  by (simp_all add: WGMfunc_pcpwm_def)

text \<open>What the update at TOP makes of the compare registers.\<close>

definition phase_update :: "timer \<Rightarrow> nat \<Rightarrow> ulong" where
  "phase_update t = (compare t)(0 := compare_dbl t 0 AND (if wgm t = WGM_PCPWM_8BIT then 0xff
     else if wgm t = WGM_PCPWM_9BIT then 0x1ff else 0x3ff), 1 := compare_dbl t 1, 2 := compare_dbl t 2)"

lemma wp_phase_top:
  assumes f: "fires S d0 d" and ph: "phase_fixed (tm d)"
    and post: "\<And>d'. fires S d0 d' \<Longrightarrow> tm d' = (tm d)\<lparr>compare := phase_update (tm d)\<rparr> \<Longrightarrow> Q () d'"
  shows "wp (HandleEvent E EVT_TOP_REACHED) Q d"
proof -
  have "Q () (d\<lparr>tm := (tm d)\<lparr>compare := phase_update (tm d)\<rparr>\<rparr>)"
    by (rule post, rule fires_tm [OF f]) simp_all
  then show ?thesis
    using ph by (auto simp: HandleEvent_def phase_fixed_def phase_events top_interrupts_def update_OCR_pcpwm_def
        phase_update_def wp_simps)
qed

lemma count_phase:
  fixes d :: "('f::zero, 'w, 'hw) timer_dev"
  assumes ok: "timer_ok d" and ph: "phase_fixed (tm d)" and la: "phase_update (tm d) = compare (tm d)"
    and u: "u = (tm d)\<lparr>vlast_tcnt := vtcnt (tm d)\<rparr>"
    and S: "S = (if vtcnt (tm d) = 0 then {timerOverflow (tm d)} else {})"
    and post: "\<And>d'. fires (S \<union> hits u) d d' \<Longrightarrow> tm d' = count_up_down (match_all u) \<Longrightarrow> Q () d'"
  shows "wp (CountTimer E) Q d"
proof -
  let ?t = "tm d"
  let ?d = "d\<lparr>tm := u\<rparr>"
  let ?ends = "bnd (get_tm (\<lambda>t. vlast_tcnt t = limit_bottom t)) (\<lambda>bottom.
      if bottom then HandleEvent E EVT_BOTTOM_REACHED else event_at E limit_top EVT_TOP_REACHED)"
  have f0: "fires {} d ?d" by (rule fires_tm [OF fires_refl [OF ok]]) (simp_all add: u)
  have pc: "plain_compare u" using ph u by (auto simp: plain_compare_def phase_fixed_def)
  have last: "Q () (e\<lparr>tm := count_up_down (tm e)\<rparr>)"
    if "fires (S \<union> hits u) d e" "tm e = match_all u" for e
    by (rule post, rule fires_tm [OF that(1)]) (simp_all add: that(2) count_up_down_def Let_def)
  have ends: "wp ?ends (\<lambda>_. wp (upd_tm count_up_down) Q) e" if e: "fires (hits u) d e" "tm e = match_all u" for e
  proof (cases "vtcnt ?t = 0")
    case True
    have "wp (fire E (timerOverflow (tm e))) (\<lambda>_ e'. Q () (e'\<lparr>tm := count_up_down (tm e')\<rparr>)) e"
      by (rule wp_overflow [OF e(1)], rule last)
        (use e(2) True S u in \<open>simp_all add: match_all_def\<close>)
    then show ?thesis using True ph e(2) u
      by (simp add: wp_simps HandleEvent_def phase_fixed_def phase_events match_all_def)
  next
    case False
    have pe: "phase_fixed (tm e)" using ph e(2) u by (simp add: phase_fixed_def match_all_def)
    have "phase_update (match_all u) = phase_update ?t" by (simp add: phase_update_def match_all_def u)
    then have "phase_update (match_all u) = compare (match_all u)" using la u by (simp add: match_all_def)
    then have lu: "(match_all u)\<lparr>compare := phase_update (match_all u)\<rparr> = match_all u" by simp
    have S0: "fires (S \<union> hits u) d e" using e(1) S False by simp
    have "wp (HandleEvent E EVT_TOP_REACHED) (\<lambda>_ e'. Q () (e'\<lparr>tm := count_up_down (tm e')\<rparr>)) e"
      by (rule wp_phase_top [OF S0 pe], rule last) (use e(2) lu in simp_all)
    moreover have "Q () (e\<lparr>tm := count_up_down (tm e)\<rparr>)"
      by (rule last [OF S0 e(2)])
    ultimately show ?thesis using False ph e(2) u
      by (auto simp: wp_simps event_at_def phase_fixed_def match_all_def)
  qed
  have "wp (compare_events E) (\<lambda>_. wp ?ends (\<lambda>_. wp (upd_tm count_up_down) Q)) ?d"
    by (rule wp_compare_events [OF f0])
      (use pc ends in \<open>simp_all add: match_all_def hits_three Un_assoc\<close>)
  moreover have "updown_counting ?t" using ph by (simp add: phase_fixed_def)
  ultimately show ?thesis by (simp add: CountTimer_def wp_sq wp_bnd wp_basic u)
qed

text \<open>Position, direction and level after \<open>n\<close> counts; a period has \<open>2 T\<close> counts.\<close>

definition triangle :: "nat \<Rightarrow> nat \<Rightarrow> nat" where
  "triangle T n = (let m = n mod (2 * T) in if m \<le> T then m else 2 * T - m)"

definition phase_high :: "nat \<Rightarrow> nat \<Rightarrow> nat \<Rightarrow> bool" where
  "phase_high T C n \<longleftrightarrow> (let m = n mod (2 * T) in if m \<le> T then m \<le> C else 2 * T - m < C)"

lemma triangle_step:
  assumes "0 < T" "unat (vtcnt t) = triangle T n" "count_down t = (T \<le> n mod (2 * T))"
    "unat (limit_top t) = T" "limit_bottom t = 0" "T < 65536"
  shows "unat (vtcnt (count_up_down t)) = triangle T (Suc n)"
    "count_down (count_up_down t) = (T \<le> Suc n mod (2 * T))"
proof -
  define m where "m = n mod (2 * T)"
  have s: "Suc n mod (2 * T) = (if Suc m = 2 * T then 0 else Suc m)" unfolding m_def by (rule mod_Suc)
  have m: "m < 2 * T" using assms(1) by (simp add: m_def)
  have v: "unat (vtcnt t) = (if m \<le> T then m else 2 * T - m)" using assms(2) by (simp add: triangle_def Let_def m_def)
  have tri: "triangle T (Suc n) = (if Suc m = 2 * T then 0 else if m < T then Suc m else 2 * T - Suc m)"
    using s m by (auto simp: triangle_def Let_def)
  have eq: "x = y \<longleftrightarrow> unat x = unat y" for x y :: ulong by (simp add: word_unat_eq_iff)
  have "unat (vtcnt (count_up_down t)) = triangle T (Suc n) \<and> count_down (count_up_down t) = (T \<le> Suc n mod (2 * T))"
  proof (cases "T \<le> m")
    case True
    then have "0 < unat (vtcnt t)" using v m assms(1) by (auto split: if_splits)
    then have "vtcnt t \<noteq> 0" by auto
    then have u: "unat (vtcnt t - 1) = 2 * T - Suc m" using unat_minus_one [of "vtcnt t"] v True by auto
    have "vtcnt t - 1 = limit_bottom t \<longleftrightarrow> Suc m = 2 * T" using u m assms(5) by (simp add: eq) linarith
    then show ?thesis using True u m assms(3) unfolding tri s by (auto simp: count_up_down_def Let_def m_def)
  next
    case False
    then have u: "unat (vtcnt t + 1) = Suc m" using v assms(6) by (subst unat_plus_if') simp
    then have "vtcnt t + 1 = limit_top t \<longleftrightarrow> Suc m = T" using assms(4) by (simp add: eq)
    then show ?thesis using False u m assms(3) unfolding tri s by (auto simp: count_up_down_def Let_def m_def)
  qed
  then show "unat (vtcnt (count_up_down t)) = triangle T (Suc n)" "count_down (count_up_down t) = (T \<le> Suc n mod (2 * T))" by auto
qed

lemma phase_high_step:
  assumes "0 < C" "C < T"
  shows "phase_high T C (Suc n) \<longleftrightarrow>
    (if triangle T n = C then T \<le> n mod (2 * T) else phase_high T C n)"
proof -
  define m where "m = n mod (2 * T)"
  have s: "Suc n mod (2 * T) = (if Suc m = 2 * T then 0 else Suc m)" unfolding m_def by (rule mod_Suc)
  have m: "m < 2 * T" using assms by (simp add: m_def)
  note defs = phase_high_def triangle_def Let_def m_def [symmetric] s
  consider "m < T" | "m = T" | "T < m" "Suc m < 2 * T" | "Suc m = 2 * T" using m by linarith
  then show ?thesis
    by cases (use assms in \<open>auto simp: defs\<close>)
qed

text \<open>
  C18. Phase correct PWM with a fixed TOP: the counter runs up from 0 to TOP and down again, with a
  period of twice TOP, and the output of a channel with compare value \<open>0 < C < TOP\<close> in the
  non-inverting mode is high exactly from the way down below \<open>C\<close> to \<open>C\<close> on the way up, which are
  \<open>2 C\<close> of \<open>2 TOP\<close> counts.
\<close>

theorem phase_correct_pwm:
  fixes d :: "('f::zero, 'w, 'hw) timer_dev"
  assumes ok: "timer_ok d" and ph: "phase_fixed (tm d)" and la: "phase_update (tm d) = compare (tm d)"
    and w: "width_ok (tm d)" and ch: "pwm_channel (tm d) i" "com (tm d) i = COM_CLEAR"
    and start: "vtcnt (tm d) = 0" "\<not> count_down (tm d)" "compare_output_state (tm d) i"
    and T: "T = unat (limit_top (tm d))" and C: "C = unat (compare (tm d) i)" "0 < C"
  shows "(\<exists>d'. counts E n d = Inr ((), d') \<and> timer_ok d' \<and> unat (vtcnt (tm d')) = triangle T n \<and>
       compare_output_state (tm d') i = phase_high T C n) \<and>
     card {k. k < 2 * T \<and> phase_high T C k} = 2 * C"
proof -
  let ?t = "tm d"
  have CT: "C < T" using ch C T by (simp add: pwm_channel_def word_less_nat_alt)
  have i: "i < 3" using ch by (simp add: pwm_channel_def)
  have T16: "T < 65536" using top_bound [OF w] T by simp
  let ?I = "\<lambda>n d'. timer_ok d' \<and> same_setup ?t (tm d') \<and> compare (tm d') = compare ?t \<and>
      phase_update (tm d') = compare (tm d') \<and> unat (vtcnt (tm d')) = triangle T n \<and>
      count_down (tm d') = (T \<le> n mod (2 * T)) \<and> compare_output_state (tm d') i = phase_high T C n"
  have "wp (counts E n) (\<lambda>_. ?I n) d"
  proof (rule wp_counts)
    show "?I 0 d" using ok la start CT by (simp add: same_setup_def triangle_def phase_high_def)
  next
    fix n and e :: "('f, 'w, 'hw) timer_dev"
    assume I: "?I n e"
    let ?u = "(tm e)\<lparr>vlast_tcnt := vtcnt (tm e)\<rparr>"
    have ss: "same_setup ?t (tm e)" using I by blast
    have pe: "phase_fixed (tm e)" using ph ss by (auto simp: phase_fixed_def same_setup_def)
    show "wp (CountTimer E) (\<lambda>_. ?I (Suc n)) e"
    proof (rule count_phase [OF _ pe _ refl refl])
      show "timer_ok e" "phase_update (tm e) = compare (tm e)" using I by blast+
      fix d'
      assume f: "fires ((if vtcnt (tm e) = 0 then {timerOverflow (tm e)} else {}) \<union> hits ?u) e d'"
        and d': "tm d' = count_up_down (match_all ?u)"
      let ?v = "match_all ?u"
      have step: "unat (vtcnt (count_up_down ?v)) = triangle T (Suc n)" "count_down (count_up_down ?v) = (T \<le> Suc n mod (2 * T))"
        by (rule triangle_step; use I T T16 CT ph in \<open>simp add: same_setup_def phase_fixed_def match_all_def\<close>)+
      have "compare_output_state ?v i = (if triangle T n = C then T \<le> n mod (2 * T) else phase_high T C n)"
        unfolding match_all_out [OF i] using I ch C ph
        by (auto simp: cmp_step_def pwm_channel_def same_setup_def compare_out_def phase_fixed_def pwm_next_def word_unat_eq_iff)
      then have out: "compare_output_state (tm d') i = phase_high T C (Suc n)"
        using phase_high_step [OF C(2) CT, of n] d' by (simp add: count_up_down_def Let_def)
      have sv: "same_setup ?t (tm d')" "compare (tm d') = compare ?t" "phase_update (tm d') = compare (tm d')"
        using d' I by (auto simp: count_up_down_def Let_def same_setup_def match_all_def phase_update_def)
      show "?I (Suc n) d'" using f step sv out d' by (simp add: fires_def)
    qed
  qed
  moreover have "card {k. k < 2 * T \<and> phase_high T C k} = 2 * C"
  proof -
    have "{k. k < 2 * T \<and> phase_high T C k} = {..C} \<union> {2 * T - C <..< 2 * T}"
      using CT by (auto simp: phase_high_def Let_def split: if_splits)
    moreover have "{..C} \<inter> {2 * T - C <..< 2 * T} = {}" using CT by auto
    ultimately show ?thesis using C(2) CT by (simp add: card_Un_disjoint)
  qed
  ultimately show ?thesis by (auto simp: wp_def)
qed

text \<open>Eight bit phase correct PWM, compare value 64: high for 128 of 510 counts.\<close>

theorem phase_correct_pwm_witness:
  "\<forall>E. \<exists>d'. counts E 500 (sample_dev (\<lambda>t. (ChangeWGM16 WGM_PCPWM_8BIT (set_compare 0 64 t))
        \<lparr>com := (\<lambda>i. COM_CLEAR), compare_output_state := (\<lambda>i. True)\<rparr>)) = Inr ((), d') \<and>
     unat (vtcnt (tm d')) = 10 \<and> compare_output_state (tm d') 0"
proof
  fix E :: "(int, unit, char) timer_env"
  let ?f = "\<lambda>t. (ChangeWGM16 WGM_PCPWM_8BIT (set_compare 0 64 t))
     \<lparr>com := (\<lambda>i. COM_CLEAR), compare_output_state := (\<lambda>i. True)\<rparr>"
  let ?d = "sample_dev ?f"
  note defs = sample_dev_def ChangeWGM16_def set_compare_def WGMisPWM_def sample_timer_def HWTimer16_def enable_OC_def
    BasicTimerUnit_def blank_timer_def
  have t: "timer_ok ?d" by (rule sample_ok) (simp_all add: defs)
  have a: "phase_fixed (tm ?d)" by (simp add: phase_fixed_def defs HWTimer16_wgmfunc_def)
  have b: "phase_update (tm ?d) = compare (tm ?d)" by (simp add: phase_update_def defs fun_eq_iff)
  have c: "pwm_channel (tm ?d) 0" by (simp add: pwm_channel_def defs)
  have e: "width_ok (tm ?d)" "com (tm ?d) 0 = COM_CLEAR" "vtcnt (tm ?d) = 0" "\<not> count_down (tm ?d)"
    "compare_output_state (tm ?d) 0" "limit_top (tm ?d) = 255" "compare (tm ?d) 0 = 64"
    by (simp_all add: defs width_ok_def)
  have v: "triangle 255 500 = 10" "phase_high 255 64 500" by (simp_all add: triangle_def phase_high_def)
  have n: "(255::nat) = unat (limit_top (tm ?d))" "(64::nat) = unat (compare (tm ?d) 0)" "(0::nat) < 64"
    unfolding e(6,7) by simp_all
  from phase_correct_pwm [OF t a b e(1) c e(2-5) n, of E 500]
  show "\<exists>d'. counts E 500 ?d = Inr ((), d') \<and> unat (vtcnt (tm d')) = 10 \<and> compare_output_state (tm d') 0"
    unfolding v(1) using v(2) by (elim conjE exE) (intro exI conjI, assumption, assumption, simp only:)
qed

text \<open>
  Writing TCNT = 0 while a phase correct timer counts down makes the counter wrap to the largest
  \<open>unsigned long\<close>: the test for BOTTOM only looks at the value after the decrement.
\<close>

lemma updown_underflow:
  assumes "count_down t" "limit_bottom t = 0"
  shows "vtcnt (count_up_down (SetCounter 0 t)) = - 1" "count_down (count_up_down (SetCounter 0 t))"
  using assms by (simp_all add: count_up_down_def SetCounter_def Let_def)

text \<open>
  With ICR as TOP, writing ICR changes TOP in fast PWM mode only; in CTC and phase correct modes
  the counter keeps its old TOP.
\<close>

lemma icr_write_keeps_top:
  assumes "wgm t = WGM_CTC_ICR \<or> wgm t = WGM_PCPWM_ICR \<or> wgm t = WGM_PFCPWM_ICR"
  shows "limit_top (SetComplexRegister True False val t) = limit_top t"
    "icapRegister (SetComplexRegister True False val t) = with_temp val t"
  using assms by (auto simp: SetComplexRegister_def WGMuseICR_def Let_def)

text \<open>The output of a channel in toggle mode of PWM is always left low.\<close>

lemma pwm_toggle_low: "pwm_next COM_TOGGLE tod old = False"
  by (simp add: pwm_next_def)

section \<open>Two byte access\<close>

lemma unat_ucast_byte [simp]: "unat (ucast (x :: byte) :: ulong) = unat x"
  using unat_byte_less [of x] by (simp add: unsigned_ucast_eq take_bit_nat_eq_self)

lemma with_temp_value: "unat (with_temp l (t\<lparr>accessTempRegister := h\<rparr>)) = 256 * unat h + unat l"
  using unat_byte_less [of h] unat_byte_less [of l]
  by (simp add: with_temp_def push_bit_eq_mult unat_word_ariths)

lemma low_byte: "unat (ucast (v AND 0xff) :: byte) = unat (v :: ulong) mod 256"
proof -
  have "v AND 0xff = take_bit 8 v" by (simp add: take_bit_eq_mask mask_eq_exp_minus_1)
  then show ?thesis by (simp add: unsigned_ucast_eq unsigned_take_bit_eq take_bit_eq_mod unat_mod)
qed

lemma unat_drop8: "unat (drop_bit 8 (v :: ulong)) = unat v div 256"
  by (simp add: drop_bit_eq_div unat_div)

lemma get_set_compare: "get_compare i (set_compare i v t) = v"
  by (simp add: get_compare_def set_compare_def WGMisPWM_def Let_def)

text \<open>Counting leaves the temporary register alone.\<close>

abbreviation temp_is :: "byte \<Rightarrow> ('f, 'w, 'hw) timer_dev \<Rightarrow> bool" where
  "temp_is x \<equiv> \<lambda>d. accessTempRegister (tm d) = x"

lemma keeps_temp: "(\<And>t. accessTempRegister (f t) = accessTempRegister t) \<Longrightarrow> keeps (temp_is x) (upd_tm f)"
  by (rule keeps_modify) simp

lemma keeps_temp_board: "keeps (temp_is x) (on_board m)"
  by (rule keeps_zoom [where Q = "\<lambda>_. True"]) (simp_all add: keeps_def)

lemma keeps_temp_fire: "keeps (temp_is x) (fire E l)"
  unfolding fire_def
  by (cases l) (auto intro!: keeps_intros keeps_zoom [where Q = "\<lambda>_. True"] simp: keeps_def [of "\<lambda>_. True"])

lemmas keeps_temp_basic = keeps_temp_fire keeps_temp_board keeps_temp keeps_ret keeps_gets keeps_bnd keeps_sq
  keeps_whenM keeps_if keeps_option keeps_forS

lemma keeps_temp_SetCompareOutput: "keeps (temp_is x) (SetCompareOutput E i)"
  unfolding SetCompareOutput_def drive_def
  by (intro keeps_temp_basic) (auto split: com_type.splits intro!: keeps_temp_basic)

lemma keeps_temp_SetPWM: "keeps (temp_is x) (SetPWMCompareOutput E i b)"
  unfolding SetPWMCompareOutput_def drive_def
  by (intro keeps_temp_basic) (auto split: com_type.splits intro!: keeps_temp_basic keeps_temp_SetCompareOutput)

lemma keeps_temp_HandleEvent: "keeps (temp_is x) (HandleEvent E e)"
  unfolding HandleEvent_def WGMfunc_normal_def WGMfunc_ctc_def WGMfunc_fastpwm_def WGMfunc_pcpwm_def
    WGMfunc_pfcpwm_def compare_event_def top_interrupts_def fire_if_def update_OCR_pcpwm_def pwm_updown_def
  by (intro keeps_bnd keeps_gets)
     (auto split: wgm_func.splits ce_type.splits simp: update_OCR_fastpwm_def update_OCR_pfcpwm_def Let_def
       intro!: keeps_temp_basic keeps_temp_SetCompareOutput keeps_temp_SetPWM)

lemma keeps_temp_CountTimer: "keeps (temp_is x) (CountTimer E)"
  unfolding CountTimer_def compare_events_def event_at_def
  by (intro keeps_temp_HandleEvent keeps_temp_basic) (simp_all add: count_up_down_def Let_def)

text \<open>
  The two byte registers of a 16 bit timer: writing the high byte and then the low byte sets
  the counter to the 16 bit value, and so does it for an output compare register, which reads back
  as written; reading the low byte of the counter and, after any number of counts, the high byte
  gives the two bytes of the counter at the first read.
\<close>

theorem timer16_two_byte_access:
  fixes d :: "('f::zero, 'w, 'hw) timer_dev"
  shows "unat (vtcnt (SetComplexRegister False False l (SetComplexRegister False True h t))) = 256 * unat h + unat l \<and>
    (let u = SetCompareRegister16 i False l (SetCompareRegister16 i True h t)
     in unat (get_compare i u) = 256 * unat h + unat l \<and>
        GetCompareRegister16 i True u = h \<and> GetCompareRegister16 i False u = l) \<and>
    (let (lo, t') = GetComplexRegister False False (tm d)
     in unat (vtcnt (tm d)) < 65536 \<longrightarrow> counts E n (d\<lparr>tm := t'\<rparr>) = Inr ((), d') \<longrightarrow>
        256 * unat (fst (GetComplexRegister False True (tm d'))) + unat lo = unat (vtcnt (tm d)))"
proof (intro conjI)
  show "unat (vtcnt (SetComplexRegister False False l (SetComplexRegister False True h t))) = 256 * unat h + unat l"
    by (simp add: SetComplexRegister_def SetCounter_def with_temp_value)
next
  let ?u = "SetCompareRegister16 i False l (SetCompareRegister16 i True h t)"
  have v: "unat (get_compare i ?u) = 256 * unat h + unat l"
    by (simp add: SetCompareRegister16_def get_set_compare with_temp_value)
  have "unat (GetCompareRegister16 i True ?u) = unat h" "unat (GetCompareRegister16 i False ?u) = unat l"
    using unat_byte_less [of h] unat_byte_less [of l]
    by (simp_all only: GetCompareRegister16_def if_True if_False low_byte unat_drop8 v) simp_all
  then show "let u = ?u in unat (get_compare i u) = 256 * unat h + unat l \<and>
        GetCompareRegister16 i True u = h \<and> GetCompareRegister16 i False u = l"
    using v by (simp add: Let_def word_unat_eq_iff)
next
  let ?t = "(tm d)\<lparr>accessTempRegister := ucast (drop_bit 8 (vtcnt (tm d)) AND 0xff)\<rparr>"
  have "keeps (temp_is (accessTempRegister ?t)) (counts E n)"
    unfolding counts_def by (intro keeps_forS keeps_temp_CountTimer)
  then have temp: "counts E n (d\<lparr>tm := ?t\<rparr>) = Inr ((), d') \<Longrightarrow> accessTempRegister (tm d') = accessTempRegister ?t"
    by (rule keepsD [where s = "d\<lparr>tm := ?t\<rparr>"]) simp_all
  show "let (lo, t') = GetComplexRegister False False (tm d)
     in unat (vtcnt (tm d)) < 65536 \<longrightarrow> counts E n (d\<lparr>tm := t'\<rparr>) = Inr ((), d') \<longrightarrow>
        256 * unat (fst (GetComplexRegister False True (tm d'))) + unat lo = unat (vtcnt (tm d))"
    using temp by (auto simp: GetComplexRegister_def Let_def low_byte unat_drop8 div_less_iff_less_mult)
qed

theorem timer16_two_byte_access_witness:
  "\<forall>E. \<exists>d'. counts E 1 (sample_dev (\<lambda>t. (SetCounter 0x1ff t)\<lparr>accessTempRegister := 1\<rparr>)) = Inr ((), d') \<and>
     256 * unat (fst (GetComplexRegister False True (tm d'))) + 255 = 511 \<and> vtcnt (tm d') = 0x200"
proof
  fix E :: "(int, unit, char) timer_env"
  let ?d = "sample_dev (SetCounter 0x1ff)"
  let ?e = "sample_dev (\<lambda>t. (SetCounter 0x1ff t)\<lparr>accessTempRegister := 1\<rparr>)"
  note defs = sample_dev_def sample_timer_def HWTimer16_def enable_OC_def BasicTimerUnit_def blank_timer_def SetCounter_def
  have g: "GetComplexRegister False False (tm ?d) = (255, tm ?e)"
    by (simp add: GetComplexRegister_def Let_def defs)
  obtain d' where c: "counts E 1 ?e = Inr ((), d')" and v: "vtcnt (tm d') = 0x200"
    by (simp add: counts_def CountTimer_def compare_events_def event_at_def defs)
  have "?d\<lparr>tm := tm ?e\<rparr> = ?e" by (simp add: sample_dev_def)
  then have "256 * unat (fst (GetComplexRegister False True (tm d'))) + 255 = 511"
    using timer16_two_byte_access [of 0 0 undefined 0 ?d E 1 d'] g c by (simp add: defs)
  with c v show "\<exists>d'. counts E 1 ?e = Inr ((), d') \<and>
     256 * unat (fst (GetComplexRegister False True (tm d'))) + 255 = 511 \<and> vtcnt (tm d') = 0x200" by blast
qed

end
