(* ===== verification/Avr_Uart.thy ===== *)
theory Avr_Uart
  imports Avr_Part
begin

text \<open>
  The serial interface of \<^verbatim>\<open>hwuart.cpp\<close>: the data, status, control and baud rate registers, the
  receiver and the transmitter. Both are state machines that the baud rate generator steps: the
  receiver sixteen times per bit, the transmitter once. Bits of registers are named by their
  numbers here and by masks in the code.
\<close>

unbundle bit_operations_syntax

section \<open>State\<close>

datatype rx_state = RX_DISABLED | RX_WAIT_FOR_HIGH | RX_WAIT_FOR_LOWEDGE | RX_READ_STARTBIT | RX_READ_DATABIT
  | RX_READ_PARITY | RX_READ_STOPBIT | RX_READ_STOPBIT2

datatype tx_state = TX_DISABLED | TX_SEND_STARTBIT | TX_SEND_DATABIT | TX_SEND_PARITY | TX_SEND_STOPBIT
  | TX_SEND_STOPBIT2 | TX_AFTER_STOPBIT | TX_FIRST_RUN | TX_FINISH

record uart =
  udrWrite :: byte
  udrRead :: byte
  usr :: byte
  ucr :: byte
  ucsrc :: byte
  ubrr :: word16
  readParity :: bool
  writeParity :: bool
  frameLength :: nat
  pinTx :: pin_at_port
  pinRx :: pin_at_port
  vectorRx :: nat
  vectorUdre :: nat
  vectorTx :: nat
  regSeq :: byte
  baudCnt :: nat
  rxState :: rx_state
  txState :: tx_state
  cntRxSamples :: nat
  rxLowCnt :: nat
  rxHighCnt :: nat
  rxDataTmp :: word32
  rxBitCnt :: nat
  baudCnt16 :: nat
  txDataTmp :: byte
  txBitCnt :: nat

type_synonym ('f, 'w, 'hw, 'a) usim = "(uart, 'f, 'w, 'hw, 'a) psim"

text \<open>Bits of USR (UCSRA), of UCR (UCSRB) and of UCSRC.\<close>

abbreviation (input) RXC :: nat where "RXC \<equiv> 7"
abbreviation (input) TXC :: nat where "TXC \<equiv> 6"
abbreviation (input) UDRE :: nat where "UDRE \<equiv> 5"
abbreviation (input) FE :: nat where "FE \<equiv> 4"
abbreviation (input) DOR :: nat where "DOR \<equiv> 3"
abbreviation (input) UPE :: nat where "UPE \<equiv> 2"

abbreviation (input) UDRIE :: nat where "UDRIE \<equiv> 5"
abbreviation (input) RXEN :: nat where "RXEN \<equiv> 4"
abbreviation (input) TXEN :: nat where "TXEN \<equiv> 3"
abbreviation (input) CHR9 :: nat where "CHR9 \<equiv> 2"
abbreviation (input) RXB8 :: nat where "RXB8 \<equiv> 1"
abbreviation (input) TXB8 :: nat where "TXB8 \<equiv> 0"

abbreviation (input) URSEL :: nat where "URSEL \<equiv> 7"
abbreviation (input) UPM1 :: nat where "UPM1 \<equiv> 5"
abbreviation (input) UPM0 :: nat where "UPM0 \<equiv> 4"
abbreviation (input) USBS :: nat where "USBS \<equiv> 3"
abbreviation (input) UCSZ1 :: nat where "UCSZ1 \<equiv> 2"
abbreviation (input) UCSZ0 :: nat where "UCSZ0 \<equiv> 1"

section \<open>Interrupts\<close>

definition CheckForNewSetIrq :: "('f, 'w, 'hw) part_env \<Rightarrow> byte \<Rightarrow> ('f, 'w, 'hw, unit) usim" where
  "CheckForNewSetIrq E val =
     bnd (get_part (\<lambda>u. (vectorRx u, vectorUdre u, vectorTx u))) (\<lambda>(rx, udre, tx).
     sq (whenM (bit val RXC) (set_irq E rx))
     (sq (whenM (bit val UDRE) (set_irq E udre))
     (whenM (bit val TXC) (set_irq E tx))))"

definition CheckForNewClearIrq :: "('f, 'w, 'hw) part_env \<Rightarrow> byte \<Rightarrow> ('f, 'w, 'hw, unit) usim" where
  "CheckForNewClearIrq E val =
     bnd (get_part (\<lambda>u. (vectorRx u, vectorUdre u, vectorTx u))) (\<lambda>(rx, udre, tx).
     sq (whenM (bit val RXC) (clear_irq E rx))
     (sq (whenM (bit val UDRE) (clear_irq E udre))
     (whenM (bit val TXC) (clear_irq E tx))))"

text \<open>The end of every operation that changes USR or UCR.\<close>

definition update_irqs :: "('f, 'w, 'hw) part_env \<Rightarrow> byte \<Rightarrow> byte \<Rightarrow> ('f, 'w, 'hw, unit) usim" where
  "update_irqs E irqold irqnew =
     (let changed = irqold XOR irqnew;
          setnew = changed AND irqnew;
          clearnew = changed AND NOT irqnew
      in sq (CheckForNewSetIrq E setnew) (CheckForNewClearIrq E clearnew))"

definition Uart_ClearIrqFlag :: "('f, 'w, 'hw) part_env \<Rightarrow> nat \<Rightarrow> ('f, 'w, 'hw, unit) usim" where
  "Uart_ClearIrqFlag E vector =
     bnd (get_part vectorTx) (\<lambda>tx.
     whenM (vector = tx) (sq (upd_part (\<lambda>u. u\<lparr>usr := unset_bit TXC (usr u)\<rparr>)) (clear_irq E tx)))"

section \<open>Registers\<close>

definition SetUdr :: "('f, 'w, 'hw) part_env \<Rightarrow> byte \<Rightarrow> ('f, 'w, 'hw, unit) usim" where
  "SetUdr E val =
     sq (upd_part (\<lambda>u. u\<lparr>udrWrite := val\<rparr>))
     (bnd (get_part (\<lambda>u. bit (usr u) UDRE)) (\<lambda>empty. whenM empty
       (sq (upd_part (\<lambda>u. u\<lparr>usr := unset_bit UDRE (usr u)\<rparr>))
       (bnd (get_part (\<lambda>u. (bit (ucr u) UDRIE, vectorUdre u))) (\<lambda>(ie, v). whenM ie (clear_irq E v))))))"

definition GetUdr :: "('f, 'w, 'hw) part_env \<Rightarrow> ('f, 'w, 'hw, byte) usim" where
  "GetUdr E =
     bnd (get_part (\<lambda>u. bit (usr u) RXC)) (\<lambda>full.
     sq (whenM full
       (sq (upd_part (\<lambda>u. u\<lparr>usr := unset_bit RXC (usr u)\<rparr>))
       (bnd (get_part (\<lambda>u. (bit (ucr u) RXC, vectorRx u))) (\<lambda>(ie, v). whenM ie (clear_irq E v)))))
     (get_part udrRead))"

definition SetUsr :: "('f, 'w, 'hw) part_env \<Rightarrow> byte \<Rightarrow> ('f, 'w, 'hw, unit) usim" where
  "SetUsr E val =
     bnd (get_part (\<lambda>u. (ucr u AND usr u, ucr u AND val))) (\<lambda>(irqold, irqnew).
     sq (upd_part (\<lambda>u. u\<lparr>usr := if bit val TXC then unset_bit TXC val else val\<rparr>))
     (update_irqs E irqold irqnew))"

definition SetUbrr :: "byte \<Rightarrow> uart \<Rightarrow> uart" where
  "SetUbrr val u = u\<lparr>ubrr := (ubrr u AND 0xff00) OR ucast val\<rparr>"

definition SetUbrrhi :: "byte \<Rightarrow> uart \<Rightarrow> uart" where
  "SetUbrrhi val u = u\<lparr>ubrr := (ubrr u AND 0xff) OR push_bit 8 (ucast (val AND 0xf))\<rparr>"

definition GetUbrr :: "uart \<Rightarrow> byte" where
  "GetUbrr u = ucast (ubrr u AND 0xff)"

definition GetUbrrhi :: "uart \<Rightarrow> byte" where
  "GetUbrrhi u = ucast (drop_bit 8 (ubrr u AND 0xff00))"

text \<open>The stored length is one less than the number of data bits.\<close>

definition SetFrameLengthFromRegister :: "uart \<Rightarrow> uart" where
  "SetFrameLengthFromRegister u = u\<lparr>frameLength :=
     (if bit (ucr u) CHR9 then 9
      else if bit (ucsrc u) UCSZ1 then (if bit (ucsrc u) UCSZ0 then 8 else 7)
      else (if bit (ucsrc u) UCSZ0 then 6 else 5)) - 1\<rparr>"

definition SetUcr :: "('f::zero, 'w, 'hw) part_env \<Rightarrow> byte \<Rightarrow> ('f, 'w, 'hw, unit) usim" where
  "SetUcr E val =
     bnd (get_part ucr) (\<lambda>ucrold.
     sq (upd_part (\<lambda>u. SetFrameLengthFromRegister (u\<lparr>ucr := val\<rparr>)))
     (bnd (get_part (\<lambda>u. (pinTx u, pinRx u, txState u))) (\<lambda>(tx, rx, st).
     sq (if bit val TXEN then
           sq (whenM (st = TX_FIRST_RUN \<or> st = TX_SEND_STARTBIT) (on_pboard (SetAlternatePort (pe_listener E) tx True)))
           (sq (on_pboard (SetAlternateDdr (pe_listener E) tx True))
           (sq (on_pboard (SetUseAlternatePort (pe_listener E) tx True))
           (on_pboard (SetUseAlternateDdr (pe_listener E) tx True))))
         else
           sq (on_pboard (SetUseAlternateDdr (pe_listener E) tx False))
           (on_pboard (SetUseAlternatePort (pe_listener E) tx False)))
     (sq (whenM (bit val RXEN)
           (sq (on_pboard (SetUseAlternateDdr (pe_listener E) rx True))
           (on_pboard (SetAlternateDdr (pe_listener E) rx False))))
     (bnd (get_part (\<lambda>u. (ucrold AND usr u, ucr u AND usr u))) (\<lambda>(irqold, irqnew).
      update_irqs E irqold irqnew))))))"

definition SetUcsrc :: "byte \<Rightarrow> uart \<Rightarrow> uart" where
  "SetUcsrc val u = SetFrameLengthFromRegister (u\<lparr>ucsrc := val\<rparr>)"

definition SetUcsrcUbrrh :: "byte \<Rightarrow> uart \<Rightarrow> uart" where
  "SetUcsrcUbrrh val u = (if bit val URSEL then SetUcsrc (val AND 0x7f) u else SetUbrrhi val u)"

definition GetUcsrcUbrrh :: "uart \<Rightarrow> byte \<times> uart" where
  "GetUcsrcUbrrh u =
     (if regSeq u = 0 then (GetUbrrhi u, u\<lparr>regSeq := 2\<rparr>) else (ucsrc u, u\<lparr>regSeq := 0\<rparr>))"

definition Uart_Reset :: "uart \<Rightarrow> uart" where
  "Uart_Reset u = SetFrameLengthFromRegister
     (u\<lparr>udrWrite := 0, udrRead := 0, usr := 0x20, ucr := 0, ucsrc := 0x06, ubrr := 0, baudCnt := 0, baudCnt16 := 0,
        regSeq := 0, rxState := RX_WAIT_FOR_LOWEDGE, txState := TX_FIRST_RUN\<rparr>)"

text \<open>The constructor; \<open>u\<close> holds the members that it leaves uninitialised.\<close>

definition HWUart :: "uart \<Rightarrow> pin_at_port \<Rightarrow> pin_at_port \<Rightarrow> nat \<Rightarrow> nat \<Rightarrow> nat \<Rightarrow> 'hw \<Rightarrow> ('hw irq_system, uart) sim" where
  "HWUart u tx rx rx_interrupt udre_interrupt tx_interrupt this =
     sq (DebugVerifyInterruptVector rx_interrupt this)
     (sq (DebugVerifyInterruptVector udre_interrupt this)
     (sq (DebugVerifyInterruptVector tx_interrupt this)
     (ret (Uart_Reset (u\<lparr>pinTx := tx, pinRx := rx, vectorRx := rx_interrupt, vectorUdre := udre_interrupt,
        vectorTx := tx_interrupt\<rparr>)))))"

section \<open>The receiver\<close>

text \<open>Every state but the first two samples the line in the middle of the bit.\<close>

definition sample :: "bool \<Rightarrow> uart \<Rightarrow> uart" where
  "sample lvl u =
     (let c = cntRxSamples u + 1; u' = u\<lparr>cntRxSamples := c\<rparr>
      in if 8 \<le> c \<and> c \<le> 10 then
           (if \<not> lvl then u'\<lparr>rxLowCnt := rxLowCnt u + 1\<rparr> else u'\<lparr>rxHighCnt := rxHighCnt u + 1\<rparr>)
         else u')"

definition after_stop :: "uart \<Rightarrow> rx_state" where
  "after_stop u = (if rxLowCnt u < rxHighCnt u then RX_WAIT_FOR_LOWEDGE else RX_WAIT_FOR_HIGH)"

definition read_stop :: "uart \<Rightarrow> uart" where
  "read_stop u =
     (if rxLowCnt u < rxHighCnt u then
        (let u1 = u\<lparr>udrRead := ucast (rxDataTmp u AND 0xff), usr := unset_bit FE (usr u)\<rparr> in
         if bit (ucr u1) CHR9 then
           (if bit (rxDataTmp u1) 8 then u1\<lparr>ucr := set_bit RXB8 (ucr u1)\<rparr> else u1\<lparr>ucr := unset_bit RXB8 (ucr u1)\<rparr>)
         else u1)
      else u\<lparr>udrRead := ucast (rxDataTmp u AND 0xff), usr := set_bit FE (usr u)\<rparr>)"

definition rx_step :: "bool \<Rightarrow> uart \<Rightarrow> uart" where
  "rx_step lvl u = (case rxState u of
       RX_WAIT_FOR_HIGH \<Rightarrow> if lvl then u\<lparr>rxState := RX_WAIT_FOR_LOWEDGE\<rparr> else u
     | RX_WAIT_FOR_LOWEDGE \<Rightarrow>
         (if \<not> lvl then u\<lparr>rxState := RX_READ_STARTBIT\<rparr> else u)\<lparr>cntRxSamples := 0, rxLowCnt := 0, rxHighCnt := 0\<rparr>
     | RX_READ_STARTBIT \<Rightarrow>
         (let u1 = sample lvl u in
          if 15 < cntRxSamples u1 then
            (if rxHighCnt u1 < rxLowCnt u1 then
               u1\<lparr>cntRxSamples := 0, rxState := RX_READ_DATABIT, rxDataTmp := 0, rxLowCnt := 0, rxHighCnt := 0, rxBitCnt := 0\<rparr>
             else u1\<lparr>rxState := RX_WAIT_FOR_HIGH\<rparr>)
          else u1)
     | RX_READ_DATABIT \<Rightarrow>
         (let u1 = sample lvl u in
          if 15 < cntRxSamples u1 then
            (let u2 = (if rxLowCnt u1 < rxHighCnt u1
                       then u1\<lparr>rxDataTmp := set_bit (rxBitCnt u1) (rxDataTmp u1), readParity := \<not> readParity u1\<rparr> else u1);
                 u3 = u2\<lparr>rxBitCnt := rxBitCnt u2 + 1, cntRxSamples := 0, rxLowCnt := 0, rxHighCnt := 0\<rparr>
             in if frameLength u3 < rxBitCnt u3
                then u3\<lparr>rxState := if bit (ucsrc u3) UPM1 then RX_READ_PARITY else RX_READ_STOPBIT\<rparr> else u3)
          else u1)
     | RX_READ_PARITY \<Rightarrow>
         (let u1 = sample lvl u in
          if 15 < cntRxSamples u1 then
            (let p = (rxLowCnt u1 < rxHighCnt u1);
                 actParity = (if bit (ucsrc u1) UPM0 then \<not> p else p)
             in u1\<lparr>usr := if readParity u1 = actParity then unset_bit UPE (usr u1) else set_bit UPE (usr u1)\<rparr>)
          else u1)
     | RX_READ_STOPBIT \<Rightarrow>
         (let u1 = sample lvl u in
          if (bit (ucsrc u1) USBS \<and> 16 < cntRxSamples u1) \<or> (\<not> bit (ucsrc u1) USBS \<and> 10 < cntRxSamples u1) then
            (let u2 = read_stop u1 in
             if bit (ucsrc u2) USBS then u2\<lparr>cntRxSamples := 0, rxLowCnt := 0, rxHighCnt := 0, rxState := RX_READ_STOPBIT2\<rparr>
             else (let u3 = (if bit (usr u2) RXC then u2\<lparr>usr := set_bit DOR (usr u2)\<rparr> else u2)
                   in u3\<lparr>usr := set_bit RXC (usr u3), rxState := after_stop u3\<rparr>))
          else u1)
     | RX_READ_STOPBIT2 \<Rightarrow>
         (let u1 = sample lvl u in
          if 10 < cntRxSamples u1 then
            u1\<lparr>usr := set_bit RXC (if rxLowCnt u1 < rxHighCnt u1 then unset_bit FE (usr u1) else set_bit FE (usr u1)),
               rxState := after_stop u1\<rparr>
          else u1)
     | RX_DISABLED \<Rightarrow> u)"

definition CpuCycleRx :: "('f, 'w, 'hw) part_env \<Rightarrow> ('f, 'w, 'hw, unit) usim" where
  "CpuCycleRx E =
     bnd (get_part (\<lambda>u. (bit (ucr u) RXEN, usr u))) (\<lambda>(enabled, usr_old). whenM enabled
       (bnd (pin_level pinRx) (\<lambda>lvl.
       sq (upd_part (rx_step lvl))
       (bnd (get_part (\<lambda>u. (ucr u AND usr_old, ucr u AND usr u))) (\<lambda>(irqold, irqnew).
       update_irqs E irqold irqnew)))))"

section \<open>The transmitter\<close>

text \<open>
  Move the data register to the shift register. The shift register is an \<open>unsigned char\<close>, so that
  the ninth bit is lost.
\<close>

definition load_tx :: "uart \<Rightarrow> uart" where
  "load_tx u = u\<lparr>txDataTmp := if bit (ucr u) TXB8 then ucast ((ucast (udrWrite u) :: word32) OR 0x100) else udrWrite u,
     usr := set_bit UDRE (usr u)\<rparr>"

definition tx_load_idle :: "uart \<Rightarrow> uart" where
  "tx_load_idle u =
     (if \<not> bit (usr u) UDRE \<and> (bit (usr u) TXC \<or> txState u = TX_FIRST_RUN \<or> txState u = TX_FINISH)
      then (let u1 = load_tx u in u1\<lparr>usr := unset_bit TXC (usr u1), txState := TX_SEND_STARTBIT\<rparr>)
      else u)"

definition tx_next_frame :: "uart \<Rightarrow> uart" where
  "tx_next_frame u =
     (if \<not> bit (usr u) UDRE then (load_tx u)\<lparr>txState := TX_SEND_STARTBIT\<rparr> else u\<lparr>txState := TX_AFTER_STOPBIT\<rparr>)"

text \<open>One bit: the new state and the level for the TX pin, if it is driven.\<close>

definition tx_step :: "uart \<Rightarrow> uart \<times> bool option" where
  "tx_step u0 =
     (let u = tx_load_idle u0 in
      case txState u of
        TX_SEND_STARTBIT \<Rightarrow> (u\<lparr>txState := TX_SEND_DATABIT, txBitCnt := 0\<rparr>, Some False)
      | TX_SEND_DATABIT \<Rightarrow>
          (let b = bit (txDataTmp u) (txBitCnt u);
               u1 = u\<lparr>writeParity := (writeParity u \<noteq> b), txBitCnt := txBitCnt u + 1\<rparr>
           in (if frameLength u1 < txBitCnt u1
               then u1\<lparr>txState := if bit (ucsrc u1) UPM0 \<or> bit (ucsrc u1) UPM1 then TX_SEND_PARITY else TX_SEND_STOPBIT\<rparr>
               else u1, Some b))
      | TX_SEND_PARITY \<Rightarrow>
          (u\<lparr>txState := TX_SEND_STOPBIT\<rparr>, Some (if bit (ucsrc u) UPM0 then writeParity u else \<not> writeParity u))
      | TX_SEND_STOPBIT \<Rightarrow>
          (if bit (ucsrc u) USBS then u\<lparr>txState := TX_SEND_STOPBIT2\<rparr> else tx_next_frame u, Some True)
      | TX_SEND_STOPBIT2 \<Rightarrow> (tx_next_frame u, Some True)
      | TX_AFTER_STOPBIT \<Rightarrow> (u\<lparr>usr := set_bit TXC (usr u), txState := TX_FINISH\<rparr>, None)
      | _ \<Rightarrow> (u, None))"

definition CpuCycleTx :: "('f::zero, 'w, 'hw) part_env \<Rightarrow> ('f, 'w, 'hw, unit) usim" where
  "CpuCycleTx E =
     sq (upd_part (\<lambda>u. u\<lparr>baudCnt16 := baudCnt16 u + 1\<rparr>))
     (bnd (get_part (\<lambda>u. 16 \<le> baudCnt16 u)) (\<lambda>tick. whenM tick
       (sq (upd_part (\<lambda>u. u\<lparr>baudCnt16 := 0\<rparr>))
       (bnd (get_part (\<lambda>u. (bit (ucr u) TXEN, usr u, pinTx u))) (\<lambda>(enabled, usr_old, tx). whenM enabled
         (bnd (get_part tx_step) (\<lambda>(u', out).
         sq (upd_part (\<lambda>_. u'))
         (sq (case out of None \<Rightarrow> ret () | Some v \<Rightarrow> on_pboard (SetAlternatePort (pe_listener E) tx v))
         (update_irqs E (ucr u' AND usr_old) (ucr u' AND usr u'))))))))))"

definition Uart_CpuCycle :: "('f::zero, 'w, 'hw) part_env \<Rightarrow> ('f, 'w, 'hw, unit) usim" where
  "Uart_CpuCycle E =
     sq (upd_part (\<lambda>u. u\<lparr>baudCnt := baudCnt u + 1\<rparr>))
     (sq (bnd (get_part (\<lambda>u. unat (ubrr u) + 1 \<le> baudCnt u)) (\<lambda>tick. whenM tick
           (sq (upd_part (\<lambda>u. u\<lparr>baudCnt := 0\<rparr>)) (sq (CpuCycleRx E) (CpuCycleTx E)))))
     (upd_part (\<lambda>u. if 0 < regSeq u then u\<lparr>regSeq := regSeq u - 1\<rparr> else u)))"

end
