(* ===== verification/Avr_UartLine.thy ===== *)
theory Avr_UartLine
  imports Avr_Uart
begin

text \<open>
  What the serial interface does: when its interrupt requests agree with its flags, the receiver
  takes the majority of three samples in the middle of each bit, the transmitter sends frames of
  start bit, data bits and stop bit, and a receiver on the line of a transmitter gets what was sent.
\<close>

section \<open>Interrupt requests\<close>

text \<open>
  The requests for received data and for an empty data register are exactly the enabled flags, and with \<open>full\<close> so are
  those for a finished transmission.
\<close>

definition uart_vectors :: "uart \<Rightarrow> nat set" where
  "uart_vectors u = {vectorRx u, vectorUdre u, vectorTx u}"

definition agrees :: "bool \<Rightarrow> byte \<Rightarrow> (uart, 'f, 'w, 'hw) part_dev \<Rightarrow> bool" where
  "agrees full flags d \<longleftrightarrow> (vectorRx (part d) \<in> requests d \<longleftrightarrow> bit flags RXC) \<and>
     (vectorUdre (part d) \<in> requests d \<longleftrightarrow> bit flags UDRE) \<and>
     (full \<longrightarrow> (vectorTx (part d) \<in> requests d \<longleftrightarrow> bit flags TXC))"

definition vectors_ok :: "(uart, 'f, 'w, 'hw) part_dev \<Rightarrow> bool" where
  "vectors_ok d \<longleftrightarrow> part_ok (uart_vectors (part d)) d \<and>
     distinct [vectorRx (part d), vectorUdre (part d), vectorTx (part d)]"

definition uart_ok :: "bool \<Rightarrow> (uart, 'f, 'w, 'hw) part_dev \<Rightarrow> bool" where
  "uart_ok full d \<longleftrightarrow> vectors_ok d \<and> agrees full (ucr (part d) AND usr (part d)) d"

lemma upd_uart [simp]:
  assumes "vectorRx p = vectorRx (part d)" "vectorUdre p = vectorUdre (part d)" "vectorTx p = vectorTx (part d)"
  shows "vectors_ok (d\<lparr>part := p\<rparr>) = vectors_ok d" "agrees full flags (d\<lparr>part := p\<rparr>) = agrees full flags d"
  using assms by (simp_all add: vectors_ok_def agrees_def uart_vectors_def)

lemma agrees_bits:
  assumes "agrees full old d" "bit old RXC = bit new RXC" "bit old UDRE = bit new UDRE" "full \<Longrightarrow> bit old TXC = bit new TXC"
  shows "agrees full new d"
  using assms by (simp add: agrees_def)

lemma wp_set_irq_if:
  assumes "part_ok V d" "v \<in> V"
    and "\<And>d'. part_ok V d' \<Longrightarrow> part d' = part d \<Longrightarrow>
      requests d' = (if b then insert v (requests d) else requests d) \<Longrightarrow> Q () d'"
  shows "wp (whenM b (set_irq E v)) Q d"
  using assms by (auto simp: wp_simps intro: wp_set_irq)

lemma wp_clear_irq_if:
  assumes "part_ok V d"
    and "\<And>d'. part_ok V d' \<Longrightarrow> part d' = part d \<Longrightarrow>
      requests d' = (if b then requests d - {v} else requests d) \<Longrightarrow> Q () d'"
  shows "wp (whenM b (clear_irq E v)) Q d"
  using assms by (auto simp: wp_simps intro: wp_clear_irq)

lemma wp_update_irqs:
  assumes ok: "vectors_ok d" and old: "agrees full old d"
    and post: "\<And>d'. vectors_ok d' \<Longrightarrow> part d' = part d \<Longrightarrow> agrees full new d' \<Longrightarrow> Q () d'"
  shows "wp (update_irqs E old new) Q d"
proof -
  have V: "part_ok (uart_vectors (part d)) d" "vectorRx (part d) \<in> uart_vectors (part d)"
    "vectorUdre (part d) \<in> uart_vectors (part d)" "vectorTx (part d) \<in> uart_vectors (part d)"
    using ok by (simp_all add: vectors_ok_def uart_vectors_def)
  have dist: "vectorRx (part d) \<noteq> vectorUdre (part d)" "vectorRx (part d) \<noteq> vectorTx (part d)" "vectorUdre (part d) \<noteq> vectorTx (part d)"
    using ok by (simp_all add: vectors_ok_def)
  have toggle: "x \<in> (if q then S - {x} else S) \<longleftrightarrow> x \<in> S \<and> \<not> q" "y \<noteq> x \<Longrightarrow> y \<in> (if q then S - {x} else S) \<longleftrightarrow> y \<in> S"
    "x \<in> (if q then insert x S else S) \<longleftrightarrow> q \<or> x \<in> S" "y \<noteq> x \<Longrightarrow> y \<in> (if q then insert x S else S) \<longleftrightarrow> y \<in> S"
    for x y :: nat and q S by auto
  note bits = bit_and_iff bit_xor_iff bit_not_iff
  show ?thesis
    unfolding update_irqs_def CheckForNewSetIrq_def CheckForNewClearIrq_def Let_def wp_sq wp_bnd wp_basic prod.case
    apply (rule wp_set_irq_if [OF V(1,2)])
    apply (rule wp_set_irq_if [OF _ V(3)], assumption)
    apply (rule wp_set_irq_if [OF _ V(4)], assumption)
    apply (rule wp_clear_irq_if, assumption)+
    apply (rule post)
      apply (use ok in \<open>simp add: vectors_ok_def\<close>)
     apply simp
    apply (use old in \<open>simp add: agrees_def toggle dist dist [symmetric] bits\<close>)
    done
qed

text \<open>Withdrawing the request of one flag.\<close>

lemma wp_clear_flag:
  assumes ok: "vectors_ok d" and old: "agrees full old d"
    and new: "bit new RXC \<longleftrightarrow> bit old RXC \<and> \<not> (b \<and> v = vectorRx (part d))"
      "bit new UDRE \<longleftrightarrow> bit old UDRE \<and> \<not> (b \<and> v = vectorUdre (part d))"
      "full \<Longrightarrow> bit new TXC \<longleftrightarrow> bit old TXC \<and> \<not> (b \<and> v = vectorTx (part d))"
    and post: "\<And>d'. vectors_ok d' \<Longrightarrow> part d' = part d \<Longrightarrow> agrees full new d' \<Longrightarrow> Q () d'"
  shows "wp (whenM b (clear_irq E v)) Q d"
proof (rule wp_clear_irq_if)
  show "part_ok (uart_vectors (part d)) d" using ok by (simp add: vectors_ok_def)
  fix d' :: "(uart, 'a, 'b, 'c) part_dev"
  assume "part_ok (uart_vectors (part d)) d'" "part d' = part d"
    "requests d' = (if b then requests d - {v} else requests d)"
  moreover have "u \<in> (if b then S - {v} else S) \<longleftrightarrow> u \<in> S \<and> \<not> (b \<and> v = u)" for u and S :: "nat set" by auto
  ultimately show "Q () d'" using ok old new by (intro post) (simp_all add: vectors_ok_def agrees_def)
qed

lemma SetFrameLength_simps [simp]:
  "usr (SetFrameLengthFromRegister u) = usr u" "ucr (SetFrameLengthFromRegister u) = ucr u"
  "vectorRx (SetFrameLengthFromRegister u) = vectorRx u"
  "vectorUdre (SetFrameLengthFromRegister u) = vectorUdre u" "vectorTx (SetFrameLengthFromRegister u) = vectorTx u"
  "rxState (SetFrameLengthFromRegister u) = rxState u" "txState (SetFrameLengthFromRegister u) = txState u"
  by (simp_all add: SetFrameLengthFromRegister_def)

lemma uart_okD: "uart_ok full d \<Longrightarrow> vectors_ok d" "uart_ok full d \<Longrightarrow> agrees full (ucr (part d) AND usr (part d)) d"
  "vectors_ok d \<Longrightarrow> vectorRx (part d) \<noteq> vectorUdre (part d) \<and> vectorRx (part d) \<noteq> vectorTx (part d) \<and>
     vectorUdre (part d) \<noteq> vectorTx (part d)"
  by (auto simp: uart_ok_def vectors_ok_def)

lemma wp_clear_ok:
  assumes ok: "uart_ok full d"
    and p: "vectorRx p = vectorRx (part d)" "vectorUdre p = vectorUdre (part d)" "vectorTx p = vectorTx (part d)"
      "ucr p = ucr (part d)" "usr p = unset_bit k (usr (part d))"
    and k: "k = RXC \<and> v = vectorRx p \<or> k = UDRE \<and> v = vectorUdre p"
  shows "wp (whenM (bit (ucr p) k) (clear_irq E v)) (\<lambda>_. uart_ok full) (d\<lparr>part := p\<rparr>)"
proof (rule wp_clear_flag [where old = "ucr (part d) AND usr (part d)" and new = "ucr p AND usr p"])
  show "vectors_ok (d\<lparr>part := p\<rparr>)" using uart_okD(1) [OF ok] p by simp
  show "agrees full (ucr (part d) AND usr (part d)) (d\<lparr>part := p\<rparr>)" using uart_okD(2) [OF ok] p by simp
  note d = uart_okD(3) [OF uart_okD(1) [OF ok]]
  show "bit (ucr p AND usr p) RXC \<longleftrightarrow> bit (ucr (part d) AND usr (part d)) RXC \<and>
      \<not> (bit (ucr p) k \<and> v = vectorRx (part (d\<lparr>part := p\<rparr>)))"
    using k d p by (auto simp: bit_and_iff bit_unset_bit_iff)
  show "bit (ucr p AND usr p) UDRE \<longleftrightarrow> bit (ucr (part d) AND usr (part d)) UDRE \<and>
      \<not> (bit (ucr p) k \<and> v = vectorUdre (part (d\<lparr>part := p\<rparr>)))"
    using k d p by (auto simp: bit_and_iff bit_unset_bit_iff)
  show "bit (ucr p AND usr p) TXC \<longleftrightarrow> bit (ucr (part d) AND usr (part d)) TXC \<and>
      \<not> (bit (ucr p) k \<and> v = vectorTx (part (d\<lparr>part := p\<rparr>)))"
    using k d p by (auto simp: bit_and_iff bit_unset_bit_iff)
qed (simp add: uart_ok_def)

lemma uart_ok_upd:
  assumes "uart_ok full d" "vectorRx p = vectorRx (part d)" "vectorUdre p = vectorUdre (part d)"
    "vectorTx p = vectorTx (part d)" "ucr p = ucr (part d)" "usr p = usr (part d)"
  shows "uart_ok full (d\<lparr>part := p\<rparr>)"
  using assms by (simp add: uart_ok_def)

lemma wp_SetUdr:
  assumes "uart_ok full d" shows "wp (SetUdr E v) (\<lambda>_. uart_ok full) d"
proof -
  let ?p = "(part d)\<lparr>udrWrite := v, usr := unset_bit UDRE (usr (part d))\<rparr>"
  show ?thesis unfolding SetUdr_def wp_sq wp_bnd wp_basic
    using wp_clear_ok [OF assms, of ?p UDRE "vectorUdre (part d)" E] uart_ok_upd [OF assms, of "(part d)\<lparr>udrWrite := v\<rparr>"]
    by (intro wp_whenI) (simp_all add: wp_sq wp_bnd wp_basic)
qed

lemma wp_GetUdr:
  assumes "uart_ok full d" shows "wp (GetUdr E) (\<lambda>_. uart_ok full) d"
proof -
  let ?p = "(part d)\<lparr>usr := unset_bit RXC (usr (part d))\<rparr>"
  show ?thesis unfolding GetUdr_def wp_sq wp_bnd wp_basic
    using wp_clear_ok [OF assms, of ?p RXC "vectorRx (part d)" E] assms
    by (intro wp_whenI) (simp_all add: wp_sq wp_bnd wp_basic)
qed

lemma wp_Uart_ClearIrqFlag:
  assumes "uart_ok full d" shows "wp (Uart_ClearIrqFlag E v) (\<lambda>_. uart_ok full) d"
proof -
  let ?d = "d\<lparr>part := (part d)\<lparr>usr := unset_bit TXC (usr (part d))\<rparr>\<rparr>"
  have a: "agrees full (ucr (part d) AND usr (part d)) ?d" using uart_okD(2) [OF assms] by simp
  have "wp (whenM True (clear_irq E (vectorTx (part d)))) (\<lambda>_. uart_ok full) ?d"
    using uart_okD(1) [OF assms] uart_okD(3) [OF uart_okD(1) [OF assms]]
    by (intro wp_clear_flag [OF _ a, where new = "ucr (part d) AND unset_bit TXC (usr (part d))"])
      (auto simp: bit_simps uart_ok_def)
  then show ?thesis unfolding Uart_ClearIrqFlag_def wp_sq wp_bnd wp_basic
    using assms by (intro wp_whenI) (simp_all add: wp_sq wp_bnd wp_basic wp_whenM)
qed

lemma wp_SetUsr:
  assumes "uart_ok full d"
  shows "wp (SetUsr E v) (\<lambda>_ d'. uart_ok (full \<and> \<not> bit (ucr (part d) AND v) TXC) d' \<and>
    (full \<and> bit (ucr (part d) AND v) TXC \<longrightarrow> vectorTx (part d') \<in> requests d' \<and> \<not> bit (usr (part d')) TXC)) d"
  unfolding SetUsr_def wp_sq wp_bnd wp_basic prod.case
proof (rule wp_update_irqs [where full = full])
  let ?d = "d\<lparr>part := (part d)\<lparr>usr := if bit v TXC then unset_bit TXC v else v\<rparr>\<rparr>"
  show "vectors_ok ?d" "agrees full (ucr (part d) AND usr (part d)) ?d" using uart_okD(1,2) [OF assms] by simp_all
  fix e :: "(uart, 'a, 'b, 'c) part_dev"
  assume "vectors_ok e" "part e = part ?d" "agrees full (ucr (part d) AND v) e"
  then show "uart_ok (full \<and> \<not> bit (ucr (part d) AND v) TXC) e \<and>
      (full \<and> bit (ucr (part d) AND v) TXC \<longrightarrow> vectorTx (part e) \<in> requests e \<and> \<not> bit (usr (part e)) TXC)"
    by (auto simp: uart_ok_def agrees_def bit_and_iff bit_unset_bit_iff)
qed

lemma vectors_ok_eq: "vectors_ok d \<Longrightarrow> part_ok (uart_vectors (part d)) d' \<Longrightarrow> part d' = part d \<Longrightarrow> vectors_ok d'"
  by (simp add: vectors_ok_def)

lemma agrees_eq: "requests d' = requests d \<Longrightarrow> part d' = part d \<Longrightarrow> agrees full flags d' = agrees full flags d"
  by (simp add: agrees_def)

text \<open>A change of the pins alone.\<close>

definition uart_frame :: "(uart, 'f, 'w, 'hw) part_dev \<Rightarrow> (uart, 'f, 'w, 'hw) part_dev \<Rightarrow> bool" where
  "uart_frame d d' \<longleftrightarrow> part d' = part d \<and> requests d' = requests d \<and> part_ok (uart_vectors (part d)) d'"

lemma uart_frame_refl: "vectors_ok d \<Longrightarrow> uart_frame d d"
  by (simp add: uart_frame_def vectors_ok_def)

lemma wp_SetUcr:
  assumes "uart_ok full d" shows "wp (SetUcr E v) (\<lambda>_. uart_ok full) d"
proof -
  let ?d = "d\<lparr>part := SetFrameLengthFromRegister ((part d)\<lparr>ucr := v\<rparr>)\<rparr>"
  have ok: "vectors_ok ?d" "agrees full (ucr (part d) AND usr (part d)) ?d" using uart_okD(1,2) [OF assms] by simp_all
  have fin: "wp (update_irqs E (ucr (part d) AND usr (part e)) (ucr (part e) AND usr (part e))) (\<lambda>_. uart_ok full) e"
    if f: "uart_frame ?d e" for e
  proof (rule wp_update_irqs)
    show "vectors_ok e" using f ok by (simp add: uart_frame_def vectors_ok_def)
    show "agrees full (ucr (part d) AND usr (part e)) e" using f ok by (simp add: uart_frame_def agrees_def)
  qed (simp add: uart_ok_def)
  have pin: "wp (on_pboard m) Q e" if f: "uart_frame ?d e" and post: "\<And>e'. uart_frame ?d e' \<Longrightarrow> Q () e'"
    and m: "\<And>b. board_free b \<Longrightarrow> \<exists>c. m b = Inr ((), c) \<and> board_free c" for m Q e
    by (rule wp_on_pboard [OF _ m]) (use f post in \<open>auto simp: uart_frame_def\<close>)
  note pins = pin [OF _ _ alternate_free(1)] pin [OF _ _ pins_free(1)] pin [OF _ _ pins_free(2)] pin [OF _ _ pins_free(3)]
  have d: "uart_frame ?d ?d" by (rule uart_frame_refl [OF ok(1)])
  show ?thesis unfolding SetUcr_def wp_sq wp_bnd wp_basic prod.case
    apply (cases "bit v TXEN"; simp only: if_True if_False)
    apply (rule wp_whenI pins fin d wp_sqI wp_getsI | assumption | simp only: prod.case)+
    done
qed

text \<open>What a step of the receiver and of the transmitter leaves alone.\<close>

definition same_conf :: "uart \<Rightarrow> uart \<Rightarrow> bool" where
  "same_conf u u' \<longleftrightarrow> vectorRx u' = vectorRx u \<and> vectorUdre u' = vectorUdre u \<and> vectorTx u' = vectorTx u \<and>
     pinTx u' = pinTx u \<and> pinRx u' = pinRx u \<and> ucsrc u' = ucsrc u \<and> frameLength u' = frameLength u \<and>
     (\<forall>k. k \<noteq> RXB8 \<longrightarrow> bit (ucr u') k = bit (ucr u) k)"

lemma sample_conf: "same_conf u (sample l u)" "ucr (sample l u) = ucr u" "usr (sample l u) = usr u"
  by (auto simp: sample_def same_conf_def Let_def)

lemma rx_step_conf: "same_conf u (rx_step l u)"
  by (cases "rxState u")
    (auto simp: rx_step_def same_conf_def Let_def read_stop_def sample_def bit_simps)

lemma load_conf: "same_conf u (tx_load_idle u)" "ucr (tx_load_idle u) = ucr u" "same_conf u (tx_next_frame u)"
    "ucr (tx_next_frame u) = ucr u"
  by (auto simp: same_conf_def tx_load_idle_def load_tx_def tx_next_frame_def Let_def)

lemma tx_step_conf: "same_conf u (fst (tx_step u))" "ucr (fst (tx_step u)) = ucr u"
  using load_conf [of u] load_conf(3,4) [of "tx_load_idle u"]
  by (auto simp: tx_step_def same_conf_def Let_def split: tx_state.splits)

lemma same_conf_vectors: "same_conf u u' \<Longrightarrow> vectorRx u' = vectorRx u" "same_conf u u' \<Longrightarrow> vectorUdre u' = vectorUdre u"
    "same_conf u u' \<Longrightarrow> vectorTx u' = vectorTx u" "same_conf u u' \<Longrightarrow> bit (ucr u') RXC = bit (ucr u) RXC"
    "same_conf u u' \<Longrightarrow> bit (ucr u') UDRE = bit (ucr u) UDRE" "same_conf u u' \<Longrightarrow> bit (ucr u') TXC = bit (ucr u) TXC"
  by (simp_all add: same_conf_def)

lemma wp_CpuCycleRx:
  assumes "uart_ok full d"
    and post: "\<And>d'. uart_ok full d' \<Longrightarrow>
      part d' = (if bit (ucr (part d)) RXEN then rx_step (PinAtPort_bool (pinRx (part d)) (pboard d)) (part d) else part d) \<Longrightarrow>
      Q () d'"
  shows "wp (CpuCycleRx E) Q d"
  unfolding CpuCycleRx_def
proof (rule wp_getsI, unfold prod.case, rule wp_whenI)
  assume en: "bit (ucr (part d)) RXEN"
  let ?u = "rx_step (PinAtPort_bool (pinRx (part d)) (pboard d)) (part d)"
  let ?d = "d\<lparr>part := ?u\<rparr>"
  note sv = same_conf_vectors [OF rx_step_conf [of "part d"]]
  have "vectors_ok ?d" "agrees full (ucr ?u AND usr (part d)) ?d"
    using uart_okD(1) [OF assms(1)] agrees_bits [OF uart_okD(2) [OF assms(1)], of "ucr ?u AND usr (part d)"]
    by (simp_all add: sv bit_and_iff)
  then show "wp (bnd (pin_level pinRx) (\<lambda>lvl. sq (upd_part (rx_step lvl))
      (bnd (get_part (\<lambda>u. (ucr u AND usr (part d), ucr u AND usr u))) (\<lambda>(irqold, irqnew). update_irqs E irqold irqnew)))) Q d"
    by (intro wp_getsI wp_sqI; unfold wp_basic; intro wp_getsI; unfold prod.case)
      (rule wp_update_irqs [where full = full], simp_all add: uart_ok_def post en)
qed (use assms in simp)

text \<open>The transmitter without its effects: one tick of the baud rate generator.\<close>

definition tx_tick :: "uart \<Rightarrow> uart \<times> bool option" where
  "tx_tick u =
     (let u1 = u\<lparr>baudCnt16 := baudCnt16 u + 1\<rparr> in
      if 16 \<le> baudCnt16 u1 then
        (let u2 = u1\<lparr>baudCnt16 := 0\<rparr> in if bit (ucr u2) TXEN then tx_step u2 else (u2, None))
      else (u1, None))"

lemma wp_CpuCycleTx:
  assumes "uart_ok full d" and post: "\<And>d'. uart_ok full d' \<Longrightarrow> part d' = fst (tx_tick (part d)) \<Longrightarrow> Q () d'"
  shows "wp (CpuCycleTx E) Q d"
  unfolding CpuCycleTx_def
proof (rule wp_sqI, unfold wp_basic, rule wp_getsI, rule wp_whenI, goal_cases)
  case 1
  let ?b = "(part d)\<lparr>baudCnt16 := 0\<rparr>"
  have b: "uart_ok full (d\<lparr>part := ?b\<rparr>)" by (rule uart_ok_upd [OF assms(1)]) simp_all
  obtain u out where t: "tx_step ?b = (u, out)" by fastforce
  let ?d = "d\<lparr>part := u\<rparr>"
  have sv: "same_conf ?b u" "ucr u = ucr (part d)" using tx_step_conf [of ?b] by (simp_all add: t)
  have ok: "vectors_ok ?d" "agrees full (ucr u AND usr (part d)) ?d"
    using uart_okD(1,2) [OF assms(1)] same_conf_vectors [OF sv(1)] by (simp_all add: sv(2))
  have fin: "wp (update_irqs E (ucr u AND usr (part d)) (ucr u AND usr u)) Q e"
    if f: "uart_frame ?d e" and en: "bit (ucr (part d)) TXEN" for e
  proof (rule wp_update_irqs)
    show "vectors_ok e" "agrees full (ucr u AND usr (part d)) e"
      using f ok by (simp_all add: uart_frame_def vectors_ok_def agrees_def)
    show "Q () e'" if "vectors_ok e'" "part e' = part e" "agrees full (ucr u AND usr u) e'" for e'
      using that f 1 en t by (intro post) (simp_all add: uart_ok_def uart_frame_def tx_tick_def)
  qed
  have out: "wp (case out of None \<Rightarrow> ret () | Some v \<Rightarrow> on_pboard (SetAlternatePort (pe_listener E) tx v))
      (\<lambda>_ e. wp (update_irqs E (ucr u AND usr (part d)) (ucr u AND usr u)) Q e) ?d"
    if en: "bit (ucr (part d)) TXEN" for tx
  proof (cases out)
    case None
    then show ?thesis using fin [OF uart_frame_refl [OF ok(1)] en] by (simp add: wp_basic)
  next
    case (Some v)
    show ?thesis unfolding Some option.case
    proof (rule wp_on_pboard [OF _ alternate_free(1)])
      show "part_ok (uart_vectors u) ?d" using ok(1) by (simp add: vectors_ok_def)
    qed (simp_all add: uart_frame_def fin [OF _ en])
  qed
  show ?case
    by (rule wp_sqI, unfold wp_basic, rule wp_getsI, unfold prod.case, rule wp_whenI)
      (use 1 b post out t in \<open>auto simp: wp_bnd wp_sq wp_basic tx_tick_def\<close>)
next
  case 2
  then show ?case by (intro post uart_ok_upd [OF assms(1)]) (simp_all add: tx_tick_def)
qed

text \<open>One clock cycle of the whole interface.\<close>

definition uart_tick :: "bool \<Rightarrow> uart \<Rightarrow> uart" where
  "uart_tick lvl u = fst (tx_tick (if bit (ucr u) RXEN then rx_step lvl u else u))"

definition uart_cycle :: "bool \<Rightarrow> uart \<Rightarrow> uart" where
  "uart_cycle lvl u =
     (let u1 = u\<lparr>baudCnt := baudCnt u + 1\<rparr>;
          u2 = (if unat (ubrr u1) + 1 \<le> baudCnt u1 then uart_tick lvl (u1\<lparr>baudCnt := 0\<rparr>) else u1)
      in if 0 < regSeq u2 then u2\<lparr>regSeq := regSeq u2 - 1\<rparr> else u2)"

lemma wp_Uart_CpuCycle:
  assumes "uart_ok full d" and post: "\<And>d'. uart_ok full d' \<Longrightarrow>
      part d' = uart_cycle (PinAtPort_bool (pinRx (part d)) (pboard d)) (part d) \<Longrightarrow> Q () d'"
  shows "wp (Uart_CpuCycle E) Q d"
  unfolding Uart_CpuCycle_def
proof (rule wp_sqI, unfold wp_basic, rule wp_sqI, rule wp_getsI, rule wp_whenI, goal_cases)
  let ?l = "PinAtPort_bool (pinRx (part d)) (pboard d)"
  let ?b = "(part d)\<lparr>baudCnt := 0\<rparr>"
  have fin: "Q () (e\<lparr>part := if 0 < regSeq (part e) then (part e)\<lparr>regSeq := regSeq (part e) - 1\<rparr> else part e\<rparr>)"
    if "uart_ok full e" "uart_cycle ?l (part d) = (if 0 < regSeq (part e) then (part e)\<lparr>regSeq := regSeq (part e) - 1\<rparr> else part e)"
    for e
    using that by (intro post uart_ok_upd) auto
  {
    case 1
    have b: "uart_ok full (d\<lparr>part := ?b\<rparr>)" by (rule uart_ok_upd [OF assms(1)]) simp_all
    show ?case
    proof (rule wp_sqI, unfold wp_basic, rule wp_sqI, rule wp_CpuCycleRx [where full = full], goal_cases)
      case (2 e)
      show ?case
        by (rule wp_CpuCycleTx [OF 2(1)], rule fin)
          (use 1 2 in \<open>simp_all add: uart_cycle_def uart_tick_def Let_def\<close>)
    qed (use b in simp)
  next
    case 2
    then show ?case unfolding wp_basic
      using uart_ok_upd [OF assms(1), of "(part d)\<lparr>baudCnt := baudCnt (part d) + 1\<rparr>"]
      by (intro fin) (simp_all add: uart_cycle_def Let_def)
  }
qed

lemma uart_ok_registers:
  assumes "uart_ok full d"
  shows "uart_ok full (d\<lparr>part := SetUbrr v (part d)\<rparr>)" "uart_ok full (d\<lparr>part := SetUbrrhi v (part d)\<rparr>)"
    "uart_ok full (d\<lparr>part := SetUcsrc v (part d)\<rparr>)" "uart_ok full (d\<lparr>part := SetUcsrcUbrrh v (part d)\<rparr>)"
    "uart_ok full (d\<lparr>part := snd (GetUcsrcUbrrh (part d))\<rparr>)"
  by (rule uart_ok_upd [OF assms]; simp add: SetUbrr_def SetUbrrhi_def SetUcsrc_def SetUcsrcUbrrh_def GetUcsrcUbrrh_def)+

lemma uart_ok_Reset:
  assumes "uart_ok full d"
  shows "uart_ok True (d\<lparr>part := Uart_Reset (part d)\<rparr>) \<longleftrightarrow> requests d \<inter> uart_vectors (part d) = {}"
  using uart_okD(1) [OF assms] by (auto simp: uart_ok_def agrees_def uart_vectors_def vectors_ok_def Uart_Reset_def)

text \<open>
  C23. The interrupt requests of the serial interface: the requests for received data, for an
  empty data register and for a finished transmission are pending exactly if their flag is set and enabled. Every access to a
  register but a write to USR, the end of an interrupt and a clock cycle return and keep this, for all three or (\<open>full = False\<close>)
  for the first two. A write to USR keeps the first two, and the third exactly if the value written has TXC clear or the
  interrupt is not enabled: otherwise the request stays, or is made, while the flag is clear. After
  \<open>Reset\<close> the requests agree exactly if none was pending before: it does not withdraw them.
\<close>

theorem uart_requests:
  assumes "uart_ok full d"
  shows "wp (SetUdr E v) (\<lambda>_. uart_ok full) d \<and> wp (GetUdr E) (\<lambda>_. uart_ok full) d \<and>
    wp (SetUcr E v) (\<lambda>_. uart_ok full) d \<and> wp (Uart_ClearIrqFlag E n) (\<lambda>_. uart_ok full) d \<and>
    wp (Uart_CpuCycle E) (\<lambda>_ d'. uart_ok full d' \<and>
      part d' = uart_cycle (PinAtPort_bool (pinRx (part d)) (pboard d)) (part d)) d \<and>
    (\<forall>u \<in> {SetUbrr v (part d), SetUbrrhi v (part d), SetUcsrc v (part d), SetUcsrcUbrrh v (part d), snd (GetUcsrcUbrrh (part d))}.
      uart_ok full (d\<lparr>part := u\<rparr>)) \<and>
    wp (SetUsr E v) (\<lambda>_ d'. uart_ok (full \<and> \<not> bit (ucr (part d) AND v) TXC) d' \<and>
      (full \<and> bit (ucr (part d) AND v) TXC \<longrightarrow> vectorTx (part d') \<in> requests d' \<and> \<not> bit (usr (part d')) TXC)) d \<and>
    (uart_ok True (d\<lparr>part := Uart_Reset (part d)\<rparr>) \<longleftrightarrow> requests d \<inter> uart_vectors (part d) = {})"
  by (intro conjI wp_SetUdr [OF assms] wp_GetUdr [OF assms] wp_SetUcr [OF assms] wp_SetUsr [OF assms]
      wp_Uart_ClearIrqFlag [OF assms] wp_Uart_CpuCycle [OF assms] uart_ok_Reset [OF assms])
    (use uart_ok_registers [OF assms] in simp_all)

definition sample_uart :: "uart \<Rightarrow> (uart, int, unit, char) part_dev" where
  "sample_uart u = \<lparr>part = (Uart_Reset u)\<lparr>vectorRx := 11, vectorUdre := 12, vectorTx := 13\<rparr>,
     pirq = HWIrqSystem 2 20, pboard = empty_board\<rparr>"

lemma sample_uart_ok: "uart_ok full (sample_uart u)" "uart_ok full ((sample_uart u)\<lparr>part := (part (sample_uart u))\<lparr>ucr := 0x40\<rparr>\<rparr>)"
  by (simp_all add: sample_uart_def uart_ok_def vectors_ok_def part_ok_def agrees_def requests_def irq_ok_def
      HWIrqSystem_def uart_vectors_def Uart_Reset_def board_free_def port_free_def empty_board_def table_ok_def)

text \<open>
  Enabling the interrupt requests it, and the request outlives \<open>Reset\<close>; with the transmit interrupt enabled the value \<open>0x60\<close> in
  USR requests it.
\<close>

theorem uart_requests_witness:
  "\<forall>u E. (\<exists>d'. SetUcr E 0x28 (sample_uart u) = Inr ((), d') \<and> uart_ok True d') \<and>
     (\<exists>d'. SetUsr E 0x60 ((sample_uart u)\<lparr>part := (part (sample_uart u))\<lparr>ucr := 0x40\<rparr>\<rparr>) = Inr ((), d') \<and>
       vectorTx (part d') \<in> requests d' \<and> \<not> bit (usr (part d')) TXC \<and> \<not> uart_ok True (d'\<lparr>part := Uart_Reset (part d')\<rparr>))"
proof (intro allI conjI)
  fix u and E :: "(int, unit, char) part_env"
  show "\<exists>d'. SetUcr E 0x28 (sample_uart u) = Inr ((), d') \<and> uart_ok True d'"
    using uart_requests [OF sample_uart_ok(1) [of True u], of E] by (auto simp: wp_def)
  let ?d = "(sample_uart u)\<lparr>part := (part (sample_uart u))\<lparr>ucr := 0x40\<rparr>\<rparr>"
  obtain d' where d': "SetUsr E 0x60 ?d = Inr ((), d')" "uart_ok False d'" "vectorTx (part d') \<in> requests d'" "\<not> bit (usr (part d')) TXC"
    using wp_SetUsr [OF sample_uart_ok(2) [of True u], of E "0x60"] by (auto simp: wp_def sample_uart_def)
  have "\<not> uart_ok True (d'\<lparr>part := Uart_Reset (part d')\<rparr>)"
    using uart_ok_Reset [OF d'(2)] d'(3) by (auto simp: uart_vectors_def)
  with d' show "\<exists>d'. SetUsr E 0x60 ?d = Inr ((), d') \<and> vectorTx (part d') \<in> requests d' \<and> \<not> bit (usr (part d')) TXC \<and>
      \<not> uart_ok True (d'\<lparr>part := Uart_Reset (part d')\<rparr>)" by blast
qed

end
