(* ===== verification/Avr_UartFrame.thy ===== *)
theory Avr_UartFrame
  imports Avr_UartLine
begin

text \<open>
  Frames on the line: the receiver takes the majority of three samples in the middle of each bit
  and the transmitter sends start bit, data bits and stop bit, so that a receiver on the line of a
  transmitter gets what was sent. Time is counted in ticks of the baud rate generator, sixteen of
  which make a bit.
\<close>

section \<open>The receiver\<close>

definition rx_from :: "(nat \<Rightarrow> bool) \<Rightarrow> nat \<Rightarrow> nat \<Rightarrow> uart \<Rightarrow> uart" where
  "rx_from line a n u = fold (\<lambda>k. rx_step (line k)) [a..<a + n] u"

lemma rx_from_simps [simp]:
  "rx_from line a 0 u = u" "rx_from line a (Suc n) u = rx_step (line (a + n)) (rx_from line a n u)"
  by (simp_all add: rx_from_def)

lemma rx_from_add: "rx_from line a (m + n) u = rx_from line (a + m) n (rx_from line a m u)"
  by (induction n) (simp_all add: add.assoc)

text \<open>The three samples in the middle of the bit whose first sample has number \<open>a\<close>.\<close>

definition highs :: "(nat \<Rightarrow> bool) \<Rightarrow> nat \<Rightarrow> nat \<Rightarrow> nat" where
  "highs line a n = length (filter (\<lambda>k. line (a + k)) [7..<min n 10])"

definition lows :: "(nat \<Rightarrow> bool) \<Rightarrow> nat \<Rightarrow> nat \<Rightarrow> nat" where
  "lows line a n = length (filter (\<lambda>k. \<not> line (a + k)) [7..<min n 10])"

definition maj3 :: "(nat \<Rightarrow> bool) \<Rightarrow> nat \<Rightarrow> bool" where
  "maj3 line a \<longleftrightarrow> 2 \<le> (of_bool (line (a + 7)) + of_bool (line (a + 8)) + of_bool (line (a + 9)) :: nat)"

lemma counts_0: "highs line a 0 = 0" "lows line a 0 = 0"
  by (simp_all add: highs_def lows_def)

lemma counts_Suc:
  "highs line a (Suc n) = highs line a n + of_bool (7 \<le> n \<and> n \<le> 9 \<and> line (a + n))"
  "lows line a (Suc n) = lows line a n + of_bool (7 \<le> n \<and> n \<le> 9 \<and> \<not> line (a + n))"
proof -
  consider "n < 7" | "7 \<le> n" "n < 10" | "10 \<le> n" by linarith
  then have e: "[7..<min (Suc n) 10] = [7..<min n 10] @ (if 7 \<le> n \<and> n \<le> 9 then [n] else [])"
    by cases (simp_all add: min_def)
  show "highs line a (Suc n) = highs line a n + of_bool (7 \<le> n \<and> n \<le> 9 \<and> line (a + n))"
    "lows line a (Suc n) = lows line a n + of_bool (7 \<le> n \<and> n \<le> 9 \<and> \<not> line (a + n))"
    unfolding highs_def lows_def e by auto
qed

lemma counts_maj:
  assumes "10 \<le> n"
  shows "lows line a n < highs line a n \<longleftrightarrow> maj3 line a" "highs line a n < lows line a n \<longleftrightarrow> \<not> maj3 line a"
proof -
  have "[7..<min n 10] = [7, 8, 9]" using assms by (simp add: min_def upt_rec)
  then show "lows line a n < highs line a n \<longleftrightarrow> maj3 line a" "highs line a n < lows line a n \<longleftrightarrow> \<not> maj3 line a"
    by (simp_all add: highs_def lows_def maj3_def)
qed

text \<open>A bit before its last sample.\<close>

definition fresh :: "rx_state \<Rightarrow> uart \<Rightarrow> bool" where
  "fresh st u \<longleftrightarrow> rxState u = st \<and> cntRxSamples u = 0 \<and> rxLowCnt u = 0 \<and> rxHighCnt u = 0"

lemma sampling:
  assumes "fresh st u" "st = RX_READ_STARTBIT \<or> st = RX_READ_DATABIT \<or> st = RX_READ_STOPBIT"
    and "n \<le> (if st = RX_READ_STOPBIT then 10 else 15)" "\<not> bit (ucsrc u) USBS"
  shows "rx_from line a n u = u\<lparr>cntRxSamples := n, rxLowCnt := lows line a n, rxHighCnt := highs line a n\<rparr>"
  using assms(3)
proof (induction n)
  case 0
  then show ?case using assms(1) by (simp add: fresh_def counts_0)
next
  case (Suc n)
  then have IH: "rx_from line a n u = u\<lparr>cntRxSamples := n, rxLowCnt := lows line a n, rxHighCnt := highs line a n\<rparr>" by simp
  have st: "rxState u = st" using assms(1) by (simp add: fresh_def)
  have n: "n < 15" "st = RX_READ_STOPBIT \<Longrightarrow> n < 10" using Suc.prems by (auto split: if_splits)
  have "rx_step (line (a + n)) (u\<lparr>cntRxSamples := n, rxLowCnt := lows line a n, rxHighCnt := highs line a n\<rparr>)
      = sample (line (a + n)) (u\<lparr>cntRxSamples := n, rxLowCnt := lows line a n, rxHighCnt := highs line a n\<rparr>)"
    using assms(2,4) n st by (elim disjE) (simp_all add: rx_step_def sample_def Let_def)
  also have "\<dots> = u\<lparr>cntRxSamples := Suc n, rxLowCnt := lows line a (Suc n), rxHighCnt := highs line a (Suc n)\<rparr>"
    by (simp add: sample_def Let_def counts_Suc)
  finally show ?case by (simp add: IH)
qed

text \<open>The start bit, one data bit and the stop bit.\<close>

lemma rx_from_16: "rx_from line a 16 u = rx_step (line (a + 15)) (rx_from line a 15 u)"
proof -
  have e: "(16::nat) = Suc 15" by simp
  show ?thesis unfolding e by (rule rx_from_simps(2))
qed

lemma rx_from_11: "rx_from line a 11 u = rx_step (line (a + 10)) (rx_from line a 10 u)"
proof -
  have e: "(11::nat) = Suc 10" by simp
  show ?thesis unfolding e by (rule rx_from_simps(2))
qed

lemma start_cell:
  assumes f: "fresh RX_READ_STARTBIT u" and c: "\<not> bit (ucsrc u) USBS" "\<not> maj3 line a"
  shows "rx_from line a 16 u = u\<lparr>cntRxSamples := 0, rxState := RX_READ_DATABIT, rxDataTmp := 0, rxLowCnt := 0,
     rxHighCnt := 0, rxBitCnt := 0\<rparr>"
  unfolding rx_from_16 using f c counts_maj [of 15 line a]
  by (simp add: sampling [OF f] rx_step_def sample_def Let_def fresh_def)

lemma data_cell:
  assumes f: "fresh RX_READ_DATABIT u" and c: "\<not> bit (ucsrc u) USBS" "\<not> bit (ucsrc u) UPM1"
  shows "rx_from line a 16 u = u\<lparr>rxDataTmp := if maj3 line a then set_bit (rxBitCnt u) (rxDataTmp u) else rxDataTmp u,
     readParity := (readParity u \<noteq> maj3 line a), rxBitCnt := rxBitCnt u + 1,
     rxState := if frameLength u < rxBitCnt u + 1 then RX_READ_STOPBIT else RX_READ_DATABIT\<rparr>"
  unfolding rx_from_16 using f c counts_maj [of 15 line a]
  by (simp add: sampling [OF f] rx_step_def sample_def Let_def fresh_def)

lemma stop_cell:
  assumes f: "fresh RX_READ_STOPBIT u" and c: "\<not> bit (ucsrc u) USBS"
  shows "\<exists>u'. rx_from line a 11 u = u' \<and> udrRead u' = ucast (rxDataTmp u AND 0xff) \<and>
     usr u' = set_bit RXC ((if bit (usr u) RXC then set_bit DOR else id)
       ((if maj3 line a then unset_bit FE else set_bit FE) (usr u))) \<and>
     ucr u' = (if maj3 line a \<and> bit (ucr u) CHR9 then (if bit (rxDataTmp u) 8 then set_bit RXB8 else unset_bit RXB8) (ucr u)
       else ucr u) \<and>
     rxState u' = (if maj3 line a then RX_WAIT_FOR_LOWEDGE else RX_WAIT_FOR_HIGH)"
  unfolding rx_from_11 using f c counts_maj [of 10 line a]
  by (simp add: sampling [OF f] rx_step_def sample_def Let_def fresh_def read_stop_def after_stop_def bit_simps)

lemma data_cells:
  assumes f: "fresh RX_READ_DATABIT u" "rxBitCnt u = 0" "rxDataTmp u = 0" "frameLength u < 32"
    and c: "\<not> bit (ucsrc u) USBS" "\<not> bit (ucsrc u) UPM1"
  shows "n \<le> frameLength u + 1 \<Longrightarrow> \<exists>w p. rx_from line a (16 * n) u = u\<lparr>rxDataTmp := w, readParity := p, rxBitCnt := n,
     rxState := if frameLength u < n then RX_READ_STOPBIT else RX_READ_DATABIT\<rparr> \<and>
     (\<forall>j. bit w j \<longleftrightarrow> j < n \<and> maj3 line (a + 16 * j))"
proof (induction n)
  case 0
  then show ?case using f by (intro exI [of _ 0] exI [of _ "readParity u"]) (simp add: fresh_def)
next
  case (Suc n)
  then obtain w p where e: "rx_from line a (16 * n) u = u\<lparr>rxDataTmp := w, readParity := p, rxBitCnt := n,
      rxState := if frameLength u < n then RX_READ_STOPBIT else RX_READ_DATABIT\<rparr>"
    and w: "\<And>j. bit w j \<longleftrightarrow> j < n \<and> maj3 line (a + 16 * j)" by auto
  let ?e = "u\<lparr>rxDataTmp := w, readParity := p, rxBitCnt := n, rxState := RX_READ_DATABIT\<rparr>"
  let ?w = "if maj3 line (a + 16 * n) then set_bit n w else w"
  have "rx_from line a (16 * Suc n) u = rx_from line (a + 16 * n) 16 ?e"
    using rx_from_add [of line a "16 * n" 16 u] e Suc.prems by (simp add: add.commute)
  also have "\<dots> = ?e\<lparr>rxDataTmp := ?w, readParity := (p \<noteq> maj3 line (a + 16 * n)), rxBitCnt := n + 1,
     rxState := if frameLength u < n + 1 then RX_READ_STOPBIT else RX_READ_DATABIT\<rparr>"
    using f c by (subst data_cell) (simp_all add: fresh_def)
  finally have "rx_from line a (16 * Suc n) u = u\<lparr>rxDataTmp := ?w, readParity := (p \<noteq> maj3 line (a + 16 * n)), rxBitCnt := Suc n,
     rxState := if frameLength u < Suc n then RX_READ_STOPBIT else RX_READ_DATABIT\<rparr>" by simp
  moreover have "bit ?w j \<longleftrightarrow> j < Suc n \<and> maj3 line (a + 16 * j)" for j
    using f(4) Suc.prems by (auto simp: w bit_simps less_Suc_eq)
  ultimately show ?case by blast
qed

text \<open>A whole frame without parity and with one stop bit, from the edge at tick \<open>a\<close>.\<close>

lemma rx_frame:
  assumes st: "rxState u = RX_WAIT_FOR_LOWEDGE" "\<not> line a" "\<not> maj3 line (a + 1)"
    and c: "\<not> bit (ucsrc u) USBS" "\<not> bit (ucsrc u) UPM1" "frameLength u < 32"
    and u': "u' = rx_from line a (16 * (frameLength u + 2) + 12) u"
    and stop: "stop = maj3 line (a + 17 + 16 * (frameLength u + 1))"
  shows "\<forall>j < 8. bit (udrRead u') j \<longleftrightarrow> j \<le> frameLength u \<and> maj3 line (a + 17 + 16 * j)"
    "usr u' = set_bit RXC ((if bit (usr u) RXC then set_bit DOR else id) ((if stop then unset_bit FE else set_bit FE) (usr u)))"
    "ucr u' = (if stop \<and> bit (ucr u) CHR9
       then (if 8 \<le> frameLength u \<and> maj3 line (a + 17 + 16 * 8) then set_bit RXB8 else unset_bit RXB8) (ucr u) else ucr u)"
    "rxState u' = (if stop then RX_WAIT_FOR_LOWEDGE else RX_WAIT_FOR_HIGH)"
proof -
  let ?fl = "frameLength u"
  let ?s = "u\<lparr>rxState := RX_READ_STARTBIT, cntRxSamples := 0, rxLowCnt := 0, rxHighCnt := 0\<rparr>"
  let ?d = "?s\<lparr>rxState := RX_READ_DATABIT, rxDataTmp := 0, rxBitCnt := 0\<rparr>"
  have s: "rx_from line a 1 u = ?s" using rx_from_simps [of line a] st by (simp add: rx_step_def)
  have d: "rx_from line (a + 1) 16 ?s = ?d"
    using st c by (subst start_cell) (simp_all add: fresh_def)
  obtain w p where e: "rx_from line (a + 17) (16 * (?fl + 1)) ?d = ?d\<lparr>rxDataTmp := w, readParity := p, rxBitCnt := ?fl + 1,
      rxState := RX_READ_STOPBIT\<rparr>" and w: "\<And>j. bit w j \<longleftrightarrow> j < ?fl + 1 \<and> maj3 line (a + 17 + 16 * j)"
    using data_cells [of ?d "?fl + 1" line "a + 17"] c by (auto simp: fresh_def)
  let ?e = "?d\<lparr>rxDataTmp := w, readParity := p, rxBitCnt := ?fl + 1, rxState := RX_READ_STOPBIT\<rparr>"
  have n: "16 * (?fl + 2) + 12 = 1 + (16 + (16 * (?fl + 1) + 11))" by simp
  have "u' = rx_from line (a + 17 + 16 * (?fl + 1)) 11 (rx_from line (a + 17) (16 * (?fl + 1)) (rx_from line (a + 1) 16 (rx_from line a 1 u)))"
    unfolding u' n rx_from_add by (simp add: ac_simps)
  then have f: "u' = rx_from line (a + 17 + 16 * (?fl + 1)) 11 ?e" unfolding s d e .
  have fe: "fresh RX_READ_STOPBIT ?e" "\<not> bit (ucsrc ?e) USBS" using c by (simp_all add: fresh_def)
  note st = stop_cell [OF fe, of line "a + 17 + 16 * (?fl + 1)", folded f stop]
  show "\<forall>j < 8. bit (udrRead u') j \<longleftrightarrow> j \<le> ?fl \<and> maj3 line (a + 17 + 16 * j)"
  proof (intro allI impI)
    fix j :: nat assume "j < 8"
    moreover from this have "bit (0xff :: word32) j" by (auto elim!: less_8_cases simp: bit_simps)
    ultimately show "bit (udrRead u') j \<longleftrightarrow> j \<le> ?fl \<and> maj3 line (a + 17 + 16 * j)"
      using st by (auto simp: w bit_simps less_Suc_eq_le)
  qed
  show "usr u' = set_bit RXC ((if bit (usr u) RXC then set_bit DOR else id) ((if stop then unset_bit FE else set_bit FE) (usr u)))"
    "rxState u' = (if stop then RX_WAIT_FOR_LOWEDGE else RX_WAIT_FOR_HIGH)"
    using st by auto
  show "ucr u' = (if stop \<and> bit (ucr u) CHR9
       then (if 8 \<le> ?fl \<and> maj3 line (a + 17 + 16 * 8) then set_bit RXB8 else unset_bit RXB8) (ucr u) else ucr u)"
    using st by (auto simp: w less_Suc_eq_le)
qed

text \<open>
  C25. The receiver, for frames without parity and with one stop bit: when the line goes low and
  stays low in the middle of the start bit, the receiver needs 16 ticks for each bit and 12 more,
  and then UDR holds the data bits, each decided by the majority of three samples in its middle,
  RXC is set, FE tells whether the stop bit was missing, and DOR is set if the last byte was not
  read in time.
\<close>

theorem uart_receive:
  assumes st: "rxState u = RX_WAIT_FOR_LOWEDGE" "\<not> line a" "\<not> maj3 line (a + 1)"
    and c: "\<not> bit (ucsrc u) USBS" "\<not> bit (ucsrc u) UPM1" "frameLength u < 32"
    and u': "u' = rx_from line a (16 * (frameLength u + 2) + 12) u"
  shows "(\<forall>j < 8. bit (udrRead u') j \<longleftrightarrow> j \<le> frameLength u \<and> maj3 line (a + 1 + 16 * (j + 1))) \<and>
    bit (usr u') RXC \<and> (bit (usr u') FE \<longleftrightarrow> \<not> maj3 line (a + 1 + 16 * (frameLength u + 2))) \<and>
    (bit (usr u') DOR \<longleftrightarrow> bit (usr u) DOR \<or> bit (usr u) RXC) \<and>
    rxState u' = (if maj3 line (a + 1 + 16 * (frameLength u + 2)) then RX_WAIT_FOR_LOWEDGE else RX_WAIT_FOR_HIGH)"
proof -
  note f = rx_frame [OF st c u' refl]
  have e: "a + 1 + 16 * (k + 1) = a + 17 + 16 * k" "a + 1 + 16 * (k + 2) = a + 17 + 16 * (k + 1)" for k by simp_all
  show ?thesis unfolding e using f(1,2,4) by (auto simp: bit_simps)
qed

text \<open>The byte 0x53, with a disturbance of the line in the last data bit.\<close>

definition sample_line :: "nat \<Rightarrow> bool" where
  "sample_line k = (if k = 0 then False else if k = 136 then True
     else [False, True, True, False, False, True, False, True, False, True] ! ((k - 1) div 16))"

lemma Uart_Reset_frame:
  "rxState (Uart_Reset u) = RX_WAIT_FOR_LOWEDGE" "\<not> bit (ucsrc (Uart_Reset u)) USBS" "\<not> bit (ucsrc (Uart_Reset u)) UPM1"
  "\<not> bit (ucsrc (Uart_Reset u)) UPM0" "frameLength (Uart_Reset u) = 7" "usr (Uart_Reset u) = 0x20"
  "baudCnt16 (Uart_Reset u) = 0" "txState (Uart_Reset u) = TX_FIRST_RUN"
  by (simp_all add: Uart_Reset_def SetFrameLengthFromRegister_def)

theorem uart_receive_witness:
  "\<forall>u. let u' = rx_from sample_line 0 156 (Uart_Reset u)
     in udrRead u' = 0x53 \<and> bit (usr u') RXC \<and> \<not> bit (usr u') FE \<and> \<not> bit (usr u') DOR"
proof
  fix u
  let ?u = "rx_from sample_line 0 156 (Uart_Reset u)"
  have m: "\<not> sample_line 0" "\<not> maj3 sample_line (0 + 1)" by (simp_all add: sample_line_def maj3_def)
  have n: "?u = rx_from sample_line 0 (16 * (frameLength (Uart_Reset u) + 2) + 12) (Uart_Reset u)"
    by (simp add: Uart_Reset_frame)
  note f = uart_receive [OF Uart_Reset_frame(1) m Uart_Reset_frame(2,3) _ n, unfolded Uart_Reset_frame, simplified]
  have "bit (udrRead ?u) j = bit (0x53 :: byte) j" if "j < 8" for j
    using f that by (elim less_8_cases) (simp_all add: sample_line_def maj3_def)
  then have "udrRead ?u = 0x53" by (intro bit_word_eqI) simp
  moreover have "maj3 sample_line 145" by (simp add: sample_line_def maj3_def)
  ultimately show "let u' = ?u in udrRead u' = 0x53 \<and> bit (usr u') RXC \<and> \<not> bit (usr u') FE \<and> \<not> bit (usr u') DOR"
    using f by (simp add: Let_def)
qed

section \<open>The transmitter\<close>

text \<open>The transmitter together with the level of its line, which it holds between changes.\<close>

definition hold :: "bool \<Rightarrow> bool option \<Rightarrow> bool" where
  "hold w out = (case out of None \<Rightarrow> w | Some v \<Rightarrow> v)"

definition tx_wire :: "uart \<times> bool \<Rightarrow> uart \<times> bool" where
  "tx_wire = (\<lambda>(u, w). (fst (tx_tick u), hold w (snd (tx_tick u))))"

definition tx_bit :: "uart \<times> bool \<Rightarrow> uart \<times> bool" where
  "tx_bit = (\<lambda>(u, w). (fst (tx_step u), hold w (snd (tx_step u))))"

definition tx_line :: "uart \<Rightarrow> bool \<Rightarrow> nat \<Rightarrow> bool" where
  "tx_line u w n = snd ((tx_wire ^^ n) (u, w))"

lemma tx_step_baud: "baudCnt16 (fst (tx_step u)) = baudCnt16 u" "ucr (fst (tx_step u)) = ucr u"
  by (auto simp: tx_step_def tx_load_idle_def load_tx_def tx_next_frame_def Let_def split: tx_state.splits)

lemma tx_wire_wait:
  "baudCnt16 u + n \<le> 15 \<Longrightarrow> (tx_wire ^^ n) (u, w) = (u\<lparr>baudCnt16 := baudCnt16 u + n\<rparr>, w)"
  by (induction n) (simp_all add: tx_wire_def tx_tick_def hold_def Let_def)

lemma tx_wire_bit:
  assumes "baudCnt16 u < 16" "bit (ucr u) TXEN"
  shows "(tx_wire ^^ (16 - baudCnt16 u)) (u, w) = tx_bit (u\<lparr>baudCnt16 := 0\<rparr>, w)"
proof -
  have "16 - baudCnt16 u = Suc (15 - baudCnt16 u)" using assms(1) by simp
  then show ?thesis using assms tx_wire_wait [of u "15 - baudCnt16 u" w]
    by (simp add: tx_wire_def tx_bit_def tx_tick_def Let_def)
qed

lemma tx_bits_conf:
  "baudCnt16 (fst ((tx_bit ^^ n) (u, w))) = baudCnt16 u" "ucr (fst ((tx_bit ^^ n) (u, w))) = ucr u"
  by (induction n) (simp_all add: tx_bit_def case_prod_beta tx_step_baud)

lemma tx_wire_bits:
  assumes "baudCnt16 u < 16" "bit (ucr u) TXEN" "t0 = 16 - baudCnt16 u"
  shows "(tx_wire ^^ (t0 + 16 * n)) (u, w) = (tx_bit ^^ Suc n) (u\<lparr>baudCnt16 := 0\<rparr>, w)"
proof (induction n)
  case 0
  then show ?case using tx_wire_bit [OF assms(1,2)] assms(3) by simp
next
  case (Suc n)
  let ?v = "(tx_bit ^^ Suc n) (u\<lparr>baudCnt16 := 0\<rparr>, w)"
  have v: "baudCnt16 (fst ?v) = 0" "ucr (fst ?v) = ucr u" using tx_bits_conf [of "Suc n" "u\<lparr>baudCnt16 := 0\<rparr>" w] by simp_all
  then have "fst ?v\<lparr>baudCnt16 := 0\<rparr> = fst ?v" by simp
  then have "(tx_wire ^^ 16) ?v = tx_bit ?v"
    using tx_wire_bit [of "fst ?v" "snd ?v"] v assms(2) by simp
  moreover have "(tx_wire ^^ (t0 + 16 * Suc n)) (u, w) = (tx_wire ^^ 16) ((tx_wire ^^ (t0 + 16 * n)) (u, w))"
    by (simp flip: funpow_add [unfolded comp_def, THEN fun_cong] add: ac_simps)
  ultimately show ?case using Suc by simp
qed

lemma tx_line_levels:
  assumes "baudCnt16 u < 16" "bit (ucr u) TXEN" "t0 = 16 - baudCnt16 u"
  shows "n < t0 \<Longrightarrow> tx_line u w n = w"
    "j < 16 \<Longrightarrow> tx_line u w (t0 + 16 * n + j) = snd ((tx_bit ^^ Suc n) (u\<lparr>baudCnt16 := 0\<rparr>, w))"
proof -
  show "tx_line u w n = w" if "n < t0" using tx_wire_wait [of u n w] that assms by (simp add: tx_line_def)
  let ?v = "(tx_bit ^^ Suc n) (u\<lparr>baudCnt16 := 0\<rparr>, w)"
  have "(tx_wire ^^ (t0 + 16 * n + j)) (u, w) = (tx_wire ^^ j) ?v"
    unfolding tx_wire_bits [OF assms, symmetric] by (simp add: add.commute [of _ j] funpow_add)
  moreover have "baudCnt16 (fst ?v) = 0" using tx_bits_conf [of "Suc n" "u\<lparr>baudCnt16 := 0\<rparr>" w] by simp
  ultimately show "tx_line u w (t0 + 16 * n + j) = snd ?v" if "j < 16"
    using tx_wire_wait [of "fst ?v" j "snd ?v"] that by (simp add: tx_line_def)
qed

text \<open>The bits of a frame.\<close>

definition idle_pending :: "uart \<Rightarrow> bool" where
  "idle_pending u \<longleftrightarrow> \<not> bit (usr u) UDRE \<and> (txState u = TX_FIRST_RUN \<or> txState u = TX_FINISH)"

lemma load_data: "txDataTmp (load_tx u) = udrWrite u"
  by (rule bit_word_eqI) (auto simp: load_tx_def bit_simps elim!: less_8_cases)

lemma tx_frame:
  assumes "idle_pending u" "\<not> bit (ucsrc u) UPM0" "\<not> bit (ucsrc u) UPM1"
  shows "i \<le> frameLength u + 1 \<Longrightarrow> \<exists>u'. (tx_bit ^^ Suc i) (u, w) = (u', if i = 0 then False else bit (udrWrite u) (i - 1)) \<and>
     txDataTmp u' = udrWrite u \<and> txBitCnt u' = i \<and> ucsrc u' = ucsrc u \<and> frameLength u' = frameLength u \<and>
     bit (usr u') UDRE \<and> txState u' = (if frameLength u < i then TX_SEND_STOPBIT else TX_SEND_DATABIT)"
proof (induction i)
  case 0
  have "tx_load_idle u = (load_tx u)\<lparr>usr := unset_bit TXC (usr (load_tx u)), txState := TX_SEND_STARTBIT\<rparr>"
    using assms(1) by (auto simp: tx_load_idle_def idle_pending_def Let_def)
  then show ?case using load_data [of u]
    by (simp add: tx_bit_def tx_step_def hold_def) (simp add: load_tx_def bit_simps)
next
  case (Suc i)
  then obtain u' where u': "(tx_bit ^^ Suc i) (u, w) = (u', if i = 0 then False else bit (udrWrite u) (i - 1))"
    "txDataTmp u' = udrWrite u" "txBitCnt u' = i" "ucsrc u' = ucsrc u" "frameLength u' = frameLength u"
    "bit (usr u') UDRE" "txState u' = TX_SEND_DATABIT" by auto
  have "(tx_bit ^^ Suc (Suc i)) (u, w) = tx_bit (u', if i = 0 then False else bit (udrWrite u) (i - 1))"
    using u'(1) by simp
  then show ?case using u' assms(2,3) by (simp add: tx_bit_def tx_step_def tx_load_idle_def hold_def Let_def)
qed

lemma tx_stop:
  assumes "idle_pending u" "\<not> bit (ucsrc u) UPM0" "\<not> bit (ucsrc u) UPM1" "\<not> bit (ucsrc u) USBS"
  shows "\<exists>u'. (tx_bit ^^ (frameLength u + 3)) (u, w) = (u', True) \<and> bit (usr u') UDRE"
proof -
  obtain u' where u': "(tx_bit ^^ Suc (frameLength u + 1)) (u, w) = (u', bit (udrWrite u) (frameLength u))"
    "txDataTmp u' = udrWrite u" "ucsrc u' = ucsrc u" "bit (usr u') UDRE" "txState u' = TX_SEND_STOPBIT"
    using tx_frame [OF assms(1-3), of "frameLength u + 1" w] by auto
  have "(tx_bit ^^ (frameLength u + 3)) (u, w) = tx_bit (u', bit (udrWrite u) (frameLength u))"
    using u'(1) by (simp add: numeral_3_eq_3)
  then show ?thesis using u' assms(4)
    by (simp add: tx_bit_def tx_step_def tx_load_idle_def tx_next_frame_def hold_def Let_def)
qed

text \<open>The levels of the line while a frame is sent.\<close>

lemma tx_sends:
  assumes a: "baudCnt16 u < 16" "bit (ucr u) TXEN" "t0 = 16 - baudCnt16 u" "idle_pending u"
      "\<not> bit (ucsrc u) UPM0" "\<not> bit (ucsrc u) UPM1" "\<not> bit (ucsrc u) USBS"
    and i: "i \<le> frameLength u + 2" "j < 16"
  shows "tx_line u w (t0 + 16 * i + j) =
     (if i = 0 then False else if i \<le> frameLength u + 1 then bit (udrWrite u) (i - 1) else True)"
proof -
  let ?u = "u\<lparr>baudCnt16 := 0\<rparr>"
  have u: "idle_pending ?u" "\<not> bit (ucsrc ?u) UPM0" "\<not> bit (ucsrc ?u) UPM1" "\<not> bit (ucsrc ?u) USBS"
    using a by (simp_all add: idle_pending_def)
  have l: "tx_line u w (t0 + 16 * i + j) = snd ((tx_bit ^^ Suc i) (?u, w))"
    by (rule tx_line_levels(2) [OF a(1-3) i(2)])
  show ?thesis
  proof (cases "i \<le> frameLength u + 1")
    case True
    then show ?thesis using tx_frame [OF u(1-3), of i w] l by auto
  next
    case False
    then have "Suc i = frameLength ?u + 3" using i(1) by simp
    with tx_stop [OF u, of w] obtain u' where "(tx_bit ^^ Suc i) (?u, w) = (u', True)" by metis
    then show ?thesis using l False by simp
  qed
qed

section \<open>The link\<close>

lemma uart_tick_sender: "\<not> bit (ucr u) RXEN \<Longrightarrow> uart_tick l u = fst (tx_tick u)"
  by (simp add: uart_tick_def)

text \<open>The receiver does not look at the counter of the transmitter.\<close>

lemma sample_baud: "sample l (u\<lparr>baudCnt16 := c\<rparr>) = (sample l u)\<lparr>baudCnt16 := c\<rparr>"
  by (cases u) (simp add: sample_def Let_def)

lemma rx_step_baud: "rx_step l (u\<lparr>baudCnt16 := c\<rparr>) = (rx_step l u)\<lparr>baudCnt16 := c\<rparr>"
  by (cases "rxState u"; rule uart.equality)
    (simp_all add: rx_step_def sample_baud read_stop_def after_stop_def Let_def)

text \<open>\<open>n\<close> ticks of an interface whose RX pin has the levels of \<open>line\<close>.\<close>

definition uart_ticks :: "(nat \<Rightarrow> bool) \<Rightarrow> nat \<Rightarrow> uart \<Rightarrow> uart" where
  "uart_ticks line n u = fold (\<lambda>k. uart_tick (line k)) [0..<n] u"

lemma rx_from_conf: "same_conf u (rx_from line a n u)"
  by (induction n) (use rx_step_conf in \<open>auto simp: same_conf_def\<close>)

lemma uart_ticks_receiver:
  assumes "bit (ucr u) RXEN" "\<not> bit (ucr u) TXEN"
  shows "\<exists>c. uart_ticks line n u = (rx_from line 0 n u)\<lparr>baudCnt16 := c\<rparr>"
proof (induction n)
  case 0
  show ?case by (intro exI [of _ "baudCnt16 u"]) (simp add: uart_ticks_def)
next
  case (Suc n)
  then obtain c where c: "uart_ticks line n u = (rx_from line 0 n u)\<lparr>baudCnt16 := c\<rparr>" by blast
  let ?v = "rx_from line 0 (Suc n) u"
  have "bit (ucr (rx_from line 0 n u)) RXEN" "\<not> bit (ucr ?v) TXEN"
    using rx_from_conf [of u line 0 n] rx_from_conf [of u line 0 "Suc n"] assms by (simp_all add: same_conf_def del: rx_from_simps)
  then have "uart_tick (line n) (uart_ticks line n u) = ?v\<lparr>baudCnt16 := if 15 \<le> c then 0 else c + 1\<rparr>"
    unfolding c by (simp add: uart_tick_def tx_tick_def Let_def rx_step_baud)
  then show ?case by (auto simp: uart_ticks_def)
qed

lemma maj3_const: "(\<And>j. j < 16 \<Longrightarrow> line (a + j) = b) \<Longrightarrow> maj3 line a = b"
  by (simp add: maj3_def)

lemma rx_from_idle:
  assumes "rxState u = RX_WAIT_FOR_LOWEDGE"
  shows "(\<And>k. k < n \<Longrightarrow> line (a + k)) \<Longrightarrow>
    rx_from line a n u = (if n = 0 then u else u\<lparr>cntRxSamples := 0, rxLowCnt := 0, rxHighCnt := 0\<rparr>)"
proof (induction n)
  case (Suc n)
  then have IH: "rx_from line a n u = (if n = 0 then u else u\<lparr>cntRxSamples := 0, rxLowCnt := 0, rxHighCnt := 0\<rparr>)"
    and l: "line (a + n)" by simp_all
  have w: "rx_step True v = v\<lparr>cntRxSamples := 0, rxLowCnt := 0, rxHighCnt := 0\<rparr>" if "rxState v = RX_WAIT_FOR_LOWEDGE" for v
    using that by (simp add: rx_step_def)
  show ?case unfolding rx_from_simps IH using l assms by (simp add: w)
qed simp

text \<open>
  C20. A byte written to the data register of one interface arrives at another one that listens to
  its line at the same baud rate and with the same frame format: at most 16 ticks later the frame
  begins, and a frame and 12 ticks later the receiver has the data bits that fit into a frame, RXC
  is set, there is no framing error, and it waits for the next frame.
\<close>

theorem uart_link:
  assumes a: "bit (ucr a) TXEN" "idle_pending a" "baudCnt16 a < 16"
      "\<not> bit (ucsrc a) UPM0" "\<not> bit (ucsrc a) UPM1" "\<not> bit (ucsrc a) USBS"
    and b: "bit (ucr b) RXEN" "\<not> bit (ucr b) TXEN" "rxState b = RX_WAIT_FOR_LOWEDGE"
    and same: "ucsrc b = ucsrc a" "frameLength b = frameLength a" "frameLength a < 9"
    and b': "b' = uart_ticks (tx_line a True) (16 - baudCnt16 a + 16 * (frameLength a + 2) + 12) b"
  shows "udrRead b' = take_bit (frameLength a + 1) (udrWrite a) \<and> bit (usr b') RXC \<and> \<not> bit (usr b') FE \<and>
    (bit (usr b') DOR \<longleftrightarrow> bit (usr b) DOR \<or> bit (usr b) RXC) \<and> rxState b' = RX_WAIT_FOR_LOWEDGE"
proof -
  let ?l = "tx_line a True" and ?t = "16 - baudCnt16 a" and ?n = "frameLength a"
  let ?b = "b\<lparr>cntRxSamples := 0, rxLowCnt := 0, rxHighCnt := 0\<rparr>"
  obtain c where "b' = (rx_from ?l 0 (?t + (16 * (?n + 2) + 12)) b)\<lparr>baudCnt16 := c\<rparr>"
    using uart_ticks_receiver [OF b(1,2)] unfolding b' by (metis add.assoc)
  moreover have "rx_from ?l 0 ?t b = ?b"
    using rx_from_idle [OF b(3), of ?t ?l 0] tx_line_levels(1) [OF a(3,1) refl, of _ True] a(3) by auto
  ultimately have c: "b' = (rx_from ?l ?t (16 * (?n + 2) + 12) ?b)\<lparr>baudCnt16 := c\<rparr>"
    by (simp add: rx_from_add)
  let ?r = "rx_from ?l ?t (16 * (?n + 2) + 12) ?b"
  note level = tx_sends [OF a(3,1) refl a(2,4-6), where w = True]
  have maj: "maj3 ?l (?t + 1 + 16 * i) = (if i = 0 then False else if i \<le> ?n + 1 then bit (udrWrite a) (i - 1) else True)"
    if "i \<le> ?n + 2" for i
    using level [OF that, of 8] level [OF that, of 9] level [OF that, of 10] by (simp add: maj3_def add.assoc add.commute)
  have "\<not> ?l ?t" "\<not> maj3 ?l (?t + 1)" using level [of 0 0] maj [of 0] by simp_all
  note f = rx_frame [of ?b ?l ?t, OF _ this _ _ _ refl refl]
  have e: "?t + 17 + 16 * k = ?t + 1 + 16 * (k + 1)" for k by simp
  have "bit (udrRead ?r) j \<longleftrightarrow> bit (take_bit (?n + 1) (udrWrite a)) j" if "j < 8" for j
    using f(1) that b(3) a(5,6) same maj [of "j + 1"] by (cases "j \<le> ?n") (simp_all add: e bit_take_bit_iff less_Suc_eq_le)
  then have "udrRead ?r = take_bit (?n + 1) (udrWrite a)" by (intro bit_word_eqI) simp
  moreover have "maj3 ?l (?t + 17 + 16 * (?n + 1))" using maj [of "?n + 2"] by (simp add: e)
  ultimately show ?thesis using f(2,4) b(3) a(5,6) same unfolding c by (auto simp: bit_simps)
qed

theorem uart_link_witness:
  "\<forall>u v. let b' = uart_ticks (tx_line ((Uart_Reset u)\<lparr>ucr := 0x08, usr := 0, udrWrite := 0xa5\<rparr>) True) 172
       ((Uart_Reset v)\<lparr>ucr := 0x10\<rparr>)
     in udrRead b' = 0xa5 \<and> bit (usr b') RXC \<and> \<not> bit (usr b') FE"
proof (intro allI)
  fix u v
  let ?a = "(Uart_Reset u)\<lparr>ucr := 0x08, usr := 0, udrWrite := 0xa5\<rparr>" and ?b = "(Uart_Reset v)\<lparr>ucr := 0x10\<rparr>"
  have a: "bit (ucr ?a) TXEN" "idle_pending ?a" "baudCnt16 ?a < 16" "\<not> bit (ucsrc ?a) UPM0" "\<not> bit (ucsrc ?a) UPM1"
    "\<not> bit (ucsrc ?a) USBS" by (simp_all add: Uart_Reset_frame idle_pending_def)
  have b: "bit (ucr ?b) RXEN" "\<not> bit (ucr ?b) TXEN" "rxState ?b = RX_WAIT_FOR_LOWEDGE" "ucsrc ?b = ucsrc ?a"
    "frameLength ?b = frameLength ?a" "frameLength ?a < 9" by (simp_all add: Uart_Reset_def SetFrameLengthFromRegister_def)
  have "(172::nat) = 16 - baudCnt16 ?a + 16 * (frameLength ?a + 2) + 12" by (simp add: Uart_Reset_frame)
  moreover define b' where "b' = uart_ticks (tx_line ?a True) 172 ?b"
  ultimately have b': "b' = uart_ticks (tx_line ?a True) (16 - baudCnt16 ?a + 16 * (frameLength ?a + 2) + 12) ?b" by simp
  have "take_bit (frameLength ?a + 1) (udrWrite ?a) = 0xa5" by (simp add: Uart_Reset_frame)
  then have "udrRead b' = 0xa5 \<and> bit (usr b') RXC \<and> \<not> bit (usr b') FE"
    using uart_link [OF a b b'] by (elim conjE, intro conjI) (simp_all only:)
  then show "let b' = uart_ticks (tx_line ?a True) 172 ?b
     in udrRead b' = 0xa5 \<and> bit (usr b') RXC \<and> \<not> bit (usr b') FE" unfolding b'_def Let_def .
qed

section \<open>Limits\<close>

text \<open>The ninth data bit is always sent as zero.\<close>

lemma ninth_bit_lost:
  assumes "baudCnt16 u < 16" "bit (ucr u) TXEN" "idle_pending u"
    "\<not> bit (ucsrc u) UPM0" "\<not> bit (ucsrc u) UPM1" "\<not> bit (ucsrc u) USBS" "frameLength u = 8" "j < 16"
  shows "tx_line u w (16 - baudCnt16 u + 16 * 9 + j) = False"
  using tx_sends [OF assms(1,2) refl assms(3-6), of 9 j w] assms(7,8) bit_imp_le_length [of "udrWrite u" 8] by auto

text \<open>A receiver that has reached the parity bit never leaves it.\<close>

lemma parity_stuck: "rxState u = RX_READ_PARITY \<Longrightarrow> rxState (rx_from line a n u) = RX_READ_PARITY"
  by (induction n) (simp_all add: rx_step_def sample_def Let_def)

end
