(* ===== verification/Avr_ExternalIrq.thy ===== *)
theory Avr_ExternalIrq
  imports Avr_Part
begin

text \<open>
  External interrupts, \<^verbatim>\<open>externalirq.cpp\<close>: an \<open>ExternalIRQHandler\<close> owns a mask and a flag
  register and a list of sources. A source is a single pin with a mode of one or two bits, or a
  whole port with a mask of pins. A source is told about every change of its pins.

  A source is known to its handler before anything happens at its pins, so it is an element of
  the handler's list, and \<open>handlerIndex\<close> is its position there.
\<close>

unbundle bit_operations_syntax

section \<open>State\<close>

text \<open>\<open>Single twoBitMode mode8515 state\<close> and \<open>Port pins state\<close>.\<close>

datatype ext_source =
    Single (twoBitMode: bool) (mode8515: bool) (pinstate: bool)
  | Port (portpins: "nat list") (pinstates: "bool list")

record ext_irq =
  bitshift :: nat
  modemask :: byte
  mode :: byte
  source :: ext_source

record ext_handler =
  extirqs :: "ext_irq list"
  irq_mask :: byte
  irq_flag :: byte
  reg_mask :: byte
  vectors :: "nat list"
  irqbits :: "nat list"
  vector2idx :: "nat \<rightharpoonup> nat"

type_synonym ('f, 'w, 'hw, 'a) xsim = "(ext_handler, 'f, 'w, 'hw, 'a) psim"

abbreviation (input) MODE_LEVEL_LOW :: byte where "MODE_LEVEL_LOW \<equiv> 0"
abbreviation (input) MODE_EDGE_ALL :: byte where "MODE_EDGE_ALL \<equiv> 1"
abbreviation (input) MODE_EDGE_FALL :: byte where "MODE_EDGE_FALL \<equiv> 2"
abbreviation (input) MODE_EDGE_RISE :: byte where "MODE_EDGE_RISE \<equiv> 3"

section \<open>Sources\<close>

text \<open>\<open>ChangeMode\<close>, \<open>fireAgain\<close> and \<open>mustSetFlagOnFire\<close> are virtual.\<close>

definition ChangeMode :: "byte \<Rightarrow> ext_irq \<Rightarrow> ext_irq" where
  "ChangeMode m x = x\<lparr>mode := (case source x of
       Single two _ _ \<Rightarrow> if two then m else m + MODE_EDGE_FALL
     | Port _ _ \<Rightarrow> m)\<rparr>"

definition fireAgain :: "ext_irq \<Rightarrow> bool" where
  "fireAgain x = (case source x of
       Single _ _ st \<Rightarrow> mode x = MODE_LEVEL_LOW \<and> st = False
     | Port _ _ \<Rightarrow> False)"

definition mustSetFlagOnFire :: "ext_irq \<Rightarrow> bool" where
  "mustSetFlagOnFire x = (case source x of
       Single _ _ _ \<Rightarrow> mode x \<noteq> MODE_LEVEL_LOW
     | Port _ _ \<Rightarrow> True)"

definition ResetMode :: "ext_irq \<Rightarrow> ext_irq" where
  "ResetMode x = x\<lparr>mode := 0\<rparr>"

definition ExternalIRQ :: "nat \<Rightarrow> nat \<Rightarrow> ext_source \<Rightarrow> ext_irq" where
  "ExternalIRQ ctrlOffset ctrlBits src = ResetMode
     \<lparr>bitshift = ctrlOffset, modemask = push_bit ctrlOffset (Bit_Operations.mask ctrlBits), mode = 0, source = src\<rparr>"

text \<open>The control register.\<close>

definition ctrl_set_from_reg :: "byte \<Rightarrow> ext_irq \<Rightarrow> byte \<times> ext_irq" where
  "ctrl_set_from_reg nv x = (nv, ChangeMode (drop_bit (bitshift x) (nv AND modemask x)) x)"

definition ctrl_get_from_client :: "ext_irq \<Rightarrow> byte \<Rightarrow> byte" where
  "ctrl_get_from_client x v = (v AND NOT (modemask x)) OR push_bit (bitshift x) (mode x)"

text \<open>
  The constructors of the two kinds of sources. They register the listener \<open>l\<close>, the new source, at
  their pins and remember the levels.
\<close>

definition ExternalIRQSingle :: "nat \<Rightarrow> nat \<Rightarrow> nat \<Rightarrow> nat \<Rightarrow> bool \<Rightarrow> (('f, 'w) board, ext_irq) sim" where
  "ExternalIRQSingle l ctrlOffset ctrlBits i old =
     bnd (gets (\<lambda>b. Pin_bool (bpins b i))) (\<lambda>st.
     sq (modify (RegisterCallback i l))
     (ret (ExternalIRQ ctrlOffset ctrlBits (Single (ctrlBits = 2) old st))))"

definition ExternalIRQPort :: "nat \<Rightarrow> nat \<Rightarrow> (('f, 'w) board, ext_irq) sim" where
  "ExternalIRQPort l n =
     bnd (gets (\<lambda>b. portPins (bports b n))) (\<lambda>ps.
     bnd (gets (\<lambda>b. map (\<lambda>i. Pin_bool (bpins b i)) ps)) (\<lambda>st.
     sq (forS (\<lambda>i. modify (RegisterCallback i l)) ps)
     (ret (ExternalIRQ 0 (length ps) (Port ps st)))))"

section \<open>The handler\<close>

definition ExternalIRQHandler :: ext_handler where
  "ExternalIRQHandler = \<lparr>extirqs = [], irq_mask = 0, irq_flag = 0, reg_mask = 0, vectors = [], irqbits = [],
     vector2idx = Map.empty\<rparr>"

definition registerIrq :: "('f, 'w, 'hw) part_env \<Rightarrow> nat \<Rightarrow> nat \<Rightarrow> ext_irq \<Rightarrow> ('f, 'w, 'hw, unit) xsim" where
  "registerIrq E vector irqBit extirq =
     sq (zoom pirq (\<lambda>q d. d\<lparr>pirq := q\<rparr>) (DebugVerifyInterruptVector vector (pe_this E)))
     (upd_part (\<lambda>h. h\<lparr>reg_mask := reg_mask h OR push_bit irqBit 1, extirqs := extirqs h @ [extirq],
        vectors := vectors h @ [vector], irqbits := irqbits h @ [irqBit],
        vector2idx := (vector2idx h)(vector \<mapsto> length (extirqs h))\<rparr>))"

definition upd_ext :: "nat \<Rightarrow> (ext_irq \<Rightarrow> ext_irq) \<Rightarrow> ext_handler \<Rightarrow> ext_handler" where
  "upd_ext idx f h = h\<lparr>extirqs := (extirqs h)[idx := f (extirqs h ! idx)]\<rparr>"

text \<open>\<open>map::operator[]\<close> of a missing key is zero; there is no source at an index outside of the list.\<close>

definition idx_of :: "ext_handler \<Rightarrow> nat \<Rightarrow> nat" where
  "idx_of h v = (case vector2idx h v of None \<Rightarrow> 0 | Some i \<Rightarrow> i)"

definition with_source :: "(ext_handler \<Rightarrow> nat) \<Rightarrow> (nat \<Rightarrow> ('f, 'w, 'hw, 'a) xsim) \<Rightarrow> ('f, 'w, 'hw, 'a) xsim" where
  "with_source g f =
     bnd (get_part (\<lambda>h. (g h, g h < length (extirqs h)))) (\<lambda>(idx, inside). if inside then f idx else fail UndefinedBehaviour)"

definition request_if :: "('f, 'w, 'hw) part_env \<Rightarrow> nat \<Rightarrow> (ext_handler \<Rightarrow> bool) \<Rightarrow> ('f, 'w, 'hw, unit) xsim" where
  "request_if E idx c =
     bnd (get_part (\<lambda>h. (c h, vectors h ! idx))) (\<lambda>(b, v). whenM b (set_irq E v))"

definition Ext_fireInterrupt :: "('f, 'w, 'hw) part_env \<Rightarrow> nat \<Rightarrow> ('f, 'w, 'hw, unit) xsim" where
  "Ext_fireInterrupt E i = with_source (\<lambda>_. i) (\<lambda>idx.
     sq (upd_part (\<lambda>h. if mustSetFlagOnFire (extirqs h ! idx)
           then h\<lparr>irq_flag := set_bit (irqbits h ! idx) (irq_flag h)\<rparr> else h))
     (request_if E idx (\<lambda>h. bit (irq_mask h) (irqbits h ! idx))))"

definition Ext_ClearIrqFlag :: "('f, 'w, 'hw) part_env \<Rightarrow> nat \<Rightarrow> ('f, 'w, 'hw, unit) xsim" where
  "Ext_ClearIrqFlag E vector = with_source (\<lambda>h. idx_of h vector) (\<lambda>idx.
     sq (upd_part (\<lambda>h. h\<lparr>irq_flag := unset_bit (irqbits h ! idx) (irq_flag h)\<rparr>))
     (sq (clear_irq E vector)
     (request_if E idx (\<lambda>h. fireAgain (extirqs h ! idx) \<and> bit (irq_mask h) (irqbits h ! idx)))))"

definition Ext_IsLevelInterrupt :: "nat \<Rightarrow> ('f, 'w, 'hw, bool) xsim" where
  "Ext_IsLevelInterrupt vector = with_source (\<lambda>h. idx_of h vector) (\<lambda>idx.
     get_part (\<lambda>h. \<not> mustSetFlagOnFire (extirqs h ! idx)))"

definition Ext_LevelInterruptPending :: "nat \<Rightarrow> ('f, 'w, 'hw, bool) xsim" where
  "Ext_LevelInterruptPending vector = with_source (\<lambda>h. idx_of h vector) (\<lambda>idx.
     get_part (\<lambda>h. fireAgain (extirqs h ! idx) \<and> bit (irq_mask h) (irqbits h ! idx)))"

definition Ext_Reset :: "ext_handler \<Rightarrow> ext_handler" where
  "Ext_Reset h = h\<lparr>irq_mask := 0, irq_flag := 0, extirqs := map ResetMode (extirqs h)\<rparr>"

text \<open>\<open>set_from_reg\<close> and \<open>get_from_client\<close> for the mask register and for the flag register.\<close>

definition Ext_set_mask :: "('f, 'w, 'hw) part_env \<Rightarrow> byte \<Rightarrow> ('f, 'w, 'hw, byte) xsim" where
  "Ext_set_mask E nv =
     bnd (get_part (\<lambda>h. length (irqbits h))) (\<lambda>n.
     sq (forS (\<lambda>idx. request_if E idx (\<lambda>h. bit nv (irqbits h ! idx) \<and> \<not> bit (irq_mask h) (irqbits h ! idx) \<and>
           (bit (irq_flag h) (irqbits h ! idx) \<or> fireAgain (extirqs h ! idx)))) [0..<n])
     (sq (upd_part (\<lambda>h. h\<lparr>irq_mask := nv AND reg_mask h\<rparr>)) (ret nv)))"

definition Ext_set_flag :: "byte \<Rightarrow> ('f, 'w, 'hw, byte) xsim" where
  "Ext_set_flag nv =
     sq (upd_part (\<lambda>h. h\<lparr>irq_flag := irq_flag h XOR (nv AND reg_mask h AND irq_flag h)\<rparr>))
     (get_part (\<lambda>h. (nv AND NOT (reg_mask h)) OR irq_flag h))"

definition Ext_get_mask :: "ext_handler \<Rightarrow> byte \<Rightarrow> byte" where
  "Ext_get_mask h v = (v AND NOT (reg_mask h)) OR irq_mask h"

definition Ext_get_flag :: "ext_handler \<Rightarrow> byte \<Rightarrow> byte" where
  "Ext_get_flag h v = (v AND NOT (reg_mask h)) OR irq_flag h"

section \<open>Changes of pins\<close>

text \<open>Whether a single pin source with mode \<open>m\<close> fires when its level goes from \<open>st\<close> to \<open>s\<close>.\<close>

definition single_fires :: "bool \<Rightarrow> byte \<Rightarrow> bool \<Rightarrow> bool \<Rightarrow> bool" where
  "single_fires old m st s =
     (if m = MODE_LEVEL_LOW then s = False
      else if m = MODE_EDGE_ALL then (if old then False else s \<noteq> st)
      else if m = MODE_EDGE_FALL then s = False \<and> st = True
      else if m = MODE_EDGE_RISE then s = True \<and> st = False
      else False)"

definition find_pin :: "nat \<Rightarrow> nat list \<Rightarrow> nat option" where
  "find_pin i ps = List.find (\<lambda>k. ps ! k = i) [0..<length ps]"

definition set_source :: "nat \<Rightarrow> ext_source \<Rightarrow> ext_handler \<Rightarrow> ext_handler" where
  "set_source idx src = upd_ext idx (\<lambda>x. x\<lparr>source := src\<rparr>)"

definition Ext_PinStateHasChanged :: "('f, 'w, 'hw) part_env \<Rightarrow> nat \<Rightarrow> nat \<Rightarrow> ('f, 'w, 'hw, unit) xsim" where
  "Ext_PinStateHasChanged E handlerIndex i = with_source (\<lambda>_. handlerIndex) (\<lambda>idx.
     bnd (gets (\<lambda>d. (Pin_bool (bpins (pboard d) i), extirqs (part d) ! idx))) (\<lambda>(s, x).
     case source x of
       Single two old st \<Rightarrow>
         sq (whenM (single_fires old (mode x) st s) (Ext_fireInterrupt E idx))
         (upd_part (set_source idx (Single two old s)))
     | Port ps sts \<Rightarrow>
         (case find_pin i ps of
            None \<Rightarrow> ret ()
          | Some k \<Rightarrow>
              sq (whenM (bit (mode x) k \<and> s \<noteq> sts ! k) (Ext_fireInterrupt E idx))
              (upd_part (set_source idx (Port ps (sts[k := s])))))))"

section \<open>Well-formed handlers\<close>

definition ext_ok :: "ext_handler \<Rightarrow> bool" where
  "ext_ok h \<longleftrightarrow> length (vectors h) = length (extirqs h) \<and> length (irqbits h) = length (extirqs h) \<and>
     (\<forall>v i. vector2idx h v = Some i \<longleftrightarrow> i < length (extirqs h) \<and> vectors h ! i = v) \<and>
     distinct (irqbits h) \<and> (\<forall>b \<in> set (irqbits h). b < 8 \<and> bit (reg_mask h) b)"

definition ext_dev :: "(ext_handler, 'f, 'w, 'hw) part_dev \<Rightarrow> bool" where
  "ext_dev d \<longleftrightarrow> ext_ok (part d) \<and> irqs_ok (set (vectors (part d))) d"

lemma ext_ok_idx: "ext_ok h \<Longrightarrow> idx < length (extirqs h) \<Longrightarrow> idx_of h (vectors h ! idx) = idx"
proof -
  assume "ext_ok h" "idx < length (extirqs h)"
  then have "vector2idx h (vectors h ! idx) = Some idx" by (simp add: ext_ok_def)
  then show ?thesis by (simp add: idx_of_def)
qed

lemma ext_ok_flag [simp]: "ext_ok (h\<lparr>irq_flag := f\<rparr>) = ext_ok h" "ext_ok (h\<lparr>irq_mask := m\<rparr>) = ext_ok h"
  by (simp_all add: ext_ok_def)

lemma ext_ok_upd_ext [simp]: "ext_ok (upd_ext idx f h) = ext_ok h" "vectors (upd_ext idx f h) = vectors h"
  "irqbits (upd_ext idx f h) = irqbits h" "irq_mask (upd_ext idx f h) = irq_mask h"
  "irq_flag (upd_ext idx f h) = irq_flag h" "length (extirqs (upd_ext idx f h)) = length (extirqs h)"
  by (simp_all add: ext_ok_def upd_ext_def)

lemma ext_ok_register:
  assumes "ext_ok h" "v \<notin> set (vectors h)" "b \<notin> set (irqbits h)" "b < 8"
  shows "ext_ok (h\<lparr>reg_mask := reg_mask h OR push_bit b 1, extirqs := extirqs h @ [x],
    vectors := vectors h @ [v], irqbits := irqbits h @ [b], vector2idx := (vector2idx h)(v \<mapsto> length (extirqs h))\<rparr>)"
proof -
  have "vectors h ! i \<noteq> v" if "i < length (extirqs h)" for i
    using that assms(1,2) by (auto simp: ext_ok_def)
  then show ?thesis using assms by (auto simp: ext_ok_def nth_append bit_simps less_Suc_eq)
qed

lemma wp_with_source:
  assumes "g (part d) < length (extirqs (part d))" "wp (f (g (part d))) Q d"
  shows "wp (with_source g f) Q d"
  using assms by (simp add: with_source_def wp_bnd wp_basic)

lemmas wp_with_index = wp_with_source [where g = "\<lambda>_. idx" for idx]

lemma wp_request_if:
  assumes "ext_dev d" "idx < length (extirqs (part d))"
    and "\<And>d'. ext_dev d' \<Longrightarrow> part d' = part d \<Longrightarrow> pboard d' = pboard d \<Longrightarrow>
      requests d' = (if c (part d) then insert (vectors (part d) ! idx) (requests d) else requests d) \<Longrightarrow> Q () d'"
  shows "wp (request_if E idx c) Q d"
  unfolding request_if_def wp_bnd wp_basic prod.case
proof (rule wp_whenI)
  have v: "irqs_ok (set (vectors (part d))) d" "vectors (part d) ! idx \<in> set (vectors (part d))"
    using assms(1,2) by (auto simp: ext_dev_def ext_ok_def)
  assume "c (part d)"
  then show "wp (set_irq E (vectors (part d) ! idx)) Q d"
    using assms(1) by (intro wp_set_irq_irqs [OF v] assms(3)) (simp_all add: ext_dev_def)
qed (use assms in simp)

text \<open>An interrupt that fires: the flag, unless it is a level interrupt, and the request.\<close>

definition fired :: "nat \<Rightarrow> ext_handler \<Rightarrow> ext_handler" where
  "fired idx h = (if mustSetFlagOnFire (extirqs h ! idx)
     then h\<lparr>irq_flag := set_bit (irqbits h ! idx) (irq_flag h)\<rparr> else h)"

definition enabled :: "nat \<Rightarrow> ext_handler \<Rightarrow> bool" where
  "enabled idx h \<longleftrightarrow> bit (irq_mask h) (irqbits h ! idx)"

lemma fired_simps [simp]: "ext_ok (fired idx h) = ext_ok h" "vectors (fired idx h) = vectors h"
  "extirqs (fired idx h) = extirqs h" "enabled i (fired idx h) = enabled i h" "irq_mask (fired idx h) = irq_mask h" "irqbits (fired idx h) = irqbits h"
  by (simp_all add: fired_def enabled_def)

lemma ext_dev_part: "ext_dev d \<Longrightarrow> ext_ok h \<Longrightarrow> vectors h = vectors (part d) \<Longrightarrow> ext_dev (d\<lparr>part := h\<rparr>)"
  by (simp add: ext_dev_def)

lemma wp_Ext_fireInterrupt:
  assumes "ext_dev d" "idx < length (extirqs (part d))"
    and "\<And>d'. ext_dev d' \<Longrightarrow> part d' = fired idx (part d) \<Longrightarrow> pboard d' = pboard d \<Longrightarrow>
      requests d' = (if enabled idx (part d) then insert (vectors (part d) ! idx) (requests d) else requests d) \<Longrightarrow> Q () d'"
  shows "wp (Ext_fireInterrupt E idx) Q d"
  unfolding Ext_fireInterrupt_def
proof (rule wp_with_index [OF assms(2)], unfold wp_sq wp_basic)
  have f: "(if mustSetFlagOnFire (extirqs (part d) ! idx)
      then (part d)\<lparr>irq_flag := set_bit (irqbits (part d) ! idx) (irq_flag (part d))\<rparr> else part d) = fired idx (part d)"
    by (simp add: fired_def)
  show "wp (request_if E idx (\<lambda>h. bit (irq_mask h) (irqbits h ! idx))) Q
     (d\<lparr>part := if mustSetFlagOnFire (extirqs (part d) ! idx)
        then (part d)\<lparr>irq_flag := set_bit (irqbits (part d) ! idx) (irq_flag (part d))\<rparr> else part d\<rparr>)"
    unfolding f
  proof (rule wp_request_if, goal_cases)
    case 1
    show ?case using assms(1) by (intro ext_dev_part) (simp_all add: ext_dev_def)
  next
    case (3 d')
    then show ?case by (intro assms(3)) (simp_all add: enabled_def [symmetric])
  qed (use assms(2) in simp)
qed

section \<open>Edges and levels\<close>

text \<open>A single pin source after a change of its pin to level \<open>s\<close>.\<close>

definition single_step :: "nat \<Rightarrow> bool \<Rightarrow> ext_handler \<Rightarrow> ext_handler" where
  "single_step idx s h = (case source (extirqs h ! idx) of
     Single two old st \<Rightarrow> set_source idx (Single two old s)
       (if single_fires old (mode (extirqs h ! idx)) st s then fired idx h else h)
   | Port _ _ \<Rightarrow> h)"

lemma set_source_simps [simp]: "ext_ok (set_source idx x h) = ext_ok h" "vectors (set_source idx x h) = vectors h"
  "irqbits (set_source idx x h) = irqbits h" "irq_mask (set_source idx x h) = irq_mask h"
  "irq_flag (set_source idx x h) = irq_flag h" "length (extirqs (set_source idx x h)) = length (extirqs h)"
  "idx < length (extirqs h) \<Longrightarrow> extirqs (set_source idx x h) ! idx = (extirqs h ! idx)\<lparr>source := x\<rparr>"
  by (simp_all add: set_source_def) (simp add: upd_ext_def)

lemma wp_single_change:
  assumes d: "ext_dev d" "idx < length (extirqs (part d))" "source (extirqs (part d) ! idx) = Single two old st"
    and s: "s = Pin_bool (bpins (pboard d) i)"
    and post: "\<And>d'. ext_dev d' \<Longrightarrow> part d' = single_step idx s (part d) \<Longrightarrow> pboard d' = pboard d \<Longrightarrow>
      requests d' = (if single_fires old (mode (extirqs (part d) ! idx)) st s \<and> enabled idx (part d)
        then insert (vectors (part d) ! idx) (requests d) else requests d) \<Longrightarrow> Q () d'"
  shows "wp (Ext_PinStateHasChanged E idx i) Q d"
  unfolding Ext_PinStateHasChanged_def
proof (rule wp_with_index [OF d(2)], unfold wp_bnd wp_basic prod.case d(3) ext_source.case s [symmetric],
    rule wp_sqI, rule wp_whenI, goal_cases)
  case 1
  show ?case
  proof (rule wp_Ext_fireInterrupt [OF d(1,2)], unfold wp_basic, goal_cases)
    case (1 e)
    show ?case using 1 \<open>single_fires _ _ _ _\<close> d
      by (intro post) (auto simp: ext_dev_def single_step_def)
  qed
next
  case 2
  then show ?case unfolding wp_basic using d by (intro post) (auto simp: ext_dev_def single_step_def)
qed

text \<open>What should make an interrupt in each mode when the level goes from \<open>p\<close> to \<open>s\<close>.\<close>

definition ext_event :: "bool \<Rightarrow> byte \<Rightarrow> bool \<Rightarrow> bool \<Rightarrow> bool" where
  "ext_event old m p s \<longleftrightarrow>
     (m = MODE_LEVEL_LOW \<and> \<not> s) \<or> (m = MODE_EDGE_ALL \<and> \<not> old \<and> s \<noteq> p) \<or>
     (m = MODE_EDGE_FALL \<and> p \<and> \<not> s) \<or> (m = MODE_EDGE_RISE \<and> \<not> p \<and> s)"

lemma single_fires_event: "single_fires old m p s = ext_event old m p s"
  by (auto simp: single_fires_def ext_event_def)

lemma single_step_simps:
  assumes "source (extirqs h ! idx) = Single two old st" "idx < length (extirqs h)"
  shows "source (extirqs (single_step idx s h) ! idx) = Single two old s"
    "mode (extirqs (single_step idx s h) ! idx) = mode (extirqs h ! idx)"
    "length (extirqs (single_step idx s h)) = length (extirqs h)"
    "vectors (single_step idx s h) = vectors h" "irqbits (single_step idx s h) = irqbits h"
    "enabled j (single_step idx s h) = enabled j h"
    "irq_flag (single_step idx s h) =
      (if mode (extirqs h ! idx) \<noteq> MODE_LEVEL_LOW \<and> ext_event old (mode (extirqs h ! idx)) st s
       then set_bit (irqbits h ! idx) (irq_flag h) else irq_flag h)"
  using assms by (simp_all add: single_step_def single_fires_event fired_def enabled_def mustSetFlagOnFire_def)

text \<open>
  Whatever drives the pin: if each change of the level leads to one step of the source, the flag and
  the request tell which edges there were.
\<close>

locale level_driver =
  fixes drive :: "bool \<Rightarrow> ('d, unit) sim"
    and handler :: "'d \<Rightarrow> ext_handler"
    and reqs :: "'d \<Rightarrow> nat set"
    and ok :: "'d \<Rightarrow> bool"
    and idx :: nat
  assumes ok_ext: "ok d \<Longrightarrow> ext_ok (handler d) \<and> idx < length (extirqs (handler d))"
    and drive_step: "ok d \<Longrightarrow> source (extirqs (handler d) ! idx) = Single two old st \<Longrightarrow>
      wp (drive s) (\<lambda>_ d'. ok d' \<and> handler d' = single_step idx s (handler d) \<and>
        reqs d' = reqs d \<union> (if ext_event old (mode (extirqs (handler d) ! idx)) st s \<and> enabled idx (handler d)
          then {vectors (handler d) ! idx} else {})) d"
begin

lemma edges:
  assumes "ok d" "source (extirqs (handler d) ! idx) = Single two old st"
    and "m = mode (extirqs (handler d) ! idx)" "k = irqbits (handler d) ! idx"
    and "ev \<longleftrightarrow> (\<exists>j < length ls. ext_event old m ((st # ls) ! j) (ls ! j))"
  shows "wp (forS drive ls) (\<lambda>_ d'. ok d' \<and>
     (bit (irq_flag (handler d')) k \<longleftrightarrow> bit (irq_flag (handler d)) k \<or> (m \<noteq> MODE_LEVEL_LOW \<and> ev)) \<and>
     reqs d' = reqs d \<union> (if ev \<and> enabled idx (handler d) then {vectors (handler d) ! idx} else {}) \<and>
     source (extirqs (handler d') ! idx) = Single two old (last (st # ls)) \<and>
     mode (extirqs (handler d') ! idx) = m) d"
  using assms
proof (induction ls arbitrary: d st ev)
  case Nil
  then show ?case by (simp add: wp_def)
next
  case (Cons s ls)
  note d = ok_ext [OF Cons.prems(1)]
  have k: "k < 8" using d Cons.prems(4) by (auto simp: ext_ok_def)
  let ?ev = "\<exists>j < length ls. ext_event old m ((s # ls) ! j) (ls ! j)"
  have ev: "ev \<longleftrightarrow> ext_event old m st s \<or> ?ev"
    unfolding Cons.prems(5) length_Cons Ex_less_Suc2 by simp
  show ?case unfolding forS.simps wp_sq
  proof (rule wp_mono [OF drive_step [OF Cons.prems(1,2)]], elim conjE, goal_cases)
    case (1 x d')
    note st = single_step_simps [OF Cons.prems(2) conjunct2 [OF d], where s = s, folded 1(2), folded Cons.prems(3)]
    have "wp (forS drive ls) (\<lambda>_ e. ok e \<and>
       (bit (irq_flag (handler e)) k \<longleftrightarrow> bit (irq_flag (handler d')) k \<or> (m \<noteq> MODE_LEVEL_LOW \<and> ?ev)) \<and>
       reqs e = reqs d' \<union> (if ?ev \<and> enabled idx (handler d') then {vectors (handler d') ! idx} else {}) \<and>
       source (extirqs (handler e) ! idx) = Single two old (last (s # ls)) \<and> mode (extirqs (handler e) ! idx) = m) d'"
      by (rule Cons.IH [OF 1(1) st(1)]) (simp_all add: st Cons.prems(4))
    moreover have "bit (irq_flag (handler d')) k \<longleftrightarrow> bit (irq_flag (handler d)) k \<or> (m \<noteq> MODE_LEVEL_LOW \<and> ext_event old m st s)"
      using k Cons.prems(4) by (simp add: st(7) bit_set_bit_iff)
    moreover have "reqs d' = reqs d \<union>
        (if ext_event old m st s \<and> enabled idx (handler d) then {vectors (handler d) ! idx} else {})"
      using 1(3) Cons.prems(3) by simp
    ultimately show ?case unfolding ev by (elim wp_mono) (auto simp: st)
  qed
qed

end

text \<open>
  The registers of the external interrupts and the end of an interrupt. Entering the handler
  clears the flag and withdraws the request, but a level interrupt is requested again as long as its
  pin is low and it is enabled. Writing the mask register requests the interrupts that it enables and
  that are flagged or low. Writing ones to the flag register clears these flags.
\<close>

theorem external_registers:
  assumes "ext_dev d" "idx < length (extirqs (part d))"
  shows "wp (Ext_ClearIrqFlag E (vectors (part d) ! idx)) (\<lambda>_ d'. ext_dev d' \<and>
      \<not> bit (irq_flag (part d')) (irqbits (part d) ! idx) \<and>
      requests d' = (if fireAgain (extirqs (part d) ! idx) \<and> enabled idx (part d)
        then insert (vectors (part d) ! idx) (requests d) else requests d - {vectors (part d) ! idx})) d \<and>
    wp (Ext_set_mask E nv) (\<lambda>v d'. v = nv \<and> ext_dev d' \<and> Ext_get_mask (part d') 0 = nv AND reg_mask (part d) \<and>
      requests d' = requests d \<union> {vectors (part d) ! j |j. j < length (extirqs (part d)) \<and>
        bit nv (irqbits (part d) ! j) \<and> \<not> enabled j (part d) \<and>
        (bit (irq_flag (part d)) (irqbits (part d) ! j) \<or> fireAgain (extirqs (part d) ! j))}) d \<and>
    wp (Ext_set_flag nv) (\<lambda>_ d'. ext_dev d' \<and> requests d' = requests d \<and>
      Ext_get_flag (part d') 0 = irq_flag (part d) AND NOT (nv AND reg_mask (part d))) d"
proof (intro conjI, goal_cases)
  case 1
  let ?v = "vectors (part d) ! idx"
  have i: "idx_of (part d) ?v = idx" using assms ext_ok_idx by (simp add: ext_dev_def)
  let ?h = "(part d)\<lparr>irq_flag := unset_bit (irqbits (part d) ! idx) (irq_flag (part d))\<rparr>"
  have h: "irqs_ok (set (vectors (part d))) (d\<lparr>part := ?h\<rparr>)" using assms(1) by (simp add: ext_dev_def)
  show ?case unfolding Ext_ClearIrqFlag_def
  proof (rule wp_with_source, unfold i wp_sq wp_basic, rule assms(2), rule wp_clear_irq_irqs [OF h], rule wp_request_if)
  qed (use assms in \<open>auto simp: ext_dev_def enabled_def bit_unset_bit_iff\<close>)
next
  case 2
  let ?c = "\<lambda>j h. bit nv (irqbits h ! j) \<and> \<not> bit (irq_mask h) (irqbits h ! j) \<and>
    (bit (irq_flag h) (irqbits h ! j) \<or> fireAgain (extirqs h ! j))"
  have loop: "wp (forS (\<lambda>j. request_if E j (?c j)) js) (\<lambda>_ d'. ext_dev d' \<and> part d' = part d \<and>
      requests d' = requests e \<union> {vectors (part d) ! j |j. j \<in> set js \<and> ?c j (part d)}) e"
    if "ext_dev e" "part e = part d" "\<forall>j \<in> set js. j < length (extirqs (part d))" for js e
    using that
  proof (induction js arbitrary: e)
    case (Cons j js)
    show ?case unfolding forS.simps wp_sq
    proof (rule wp_request_if [OF Cons.prems(1)], goal_cases)
      case (2 e')
      show ?case by (rule wp_mono [OF Cons.IH [of e']]) (use 2 Cons.prems in auto)
    qed (use Cons.prems in simp)
  qed (simp add: wp_def)
  have n: "length (irqbits (part d)) = length (extirqs (part d))" using assms(1) by (simp add: ext_dev_def ext_ok_def)
  show ?case unfolding Ext_set_mask_def
  proof (rule wp_getsI, rule wp_sqI, rule wp_mono [OF loop [OF assms(1) refl]], goal_cases)
    case (2 x e)
    then show ?case unfolding wp_sq wp_basic using n
      by (auto simp: ext_dev_def Ext_get_mask_def enabled_def)
  qed (simp add: n)
next
  case 3
  have "a XOR (nv AND m AND a) = a AND NOT (nv AND m)" for a m by (rule bit_word_eqI) (auto simp: bit_simps)
  then show ?case using assms(1) by (simp add: Ext_set_flag_def wp_sq wp_basic ext_dev_def Ext_get_flag_def)
qed

section \<open>An external driver\<close>

text \<open>
  The handler as part of the world of the board: listener \<open>idx\<close> is the source with this index.
\<close>

type_synonym ('f, 'hw) ext_board = "('f, ext_handler \<times> 'hw irq_system) board"

definition ext_part :: "('f, 'hw) ext_board \<Rightarrow> (ext_handler, 'f, ext_handler \<times> 'hw irq_system, 'hw) part_dev" where
  "ext_part b = \<lparr>part = fst (bworld b), pirq = snd (bworld b), pboard = b\<rparr>"

definition ext_listener :: "('f, ext_handler \<times> 'hw irq_system, 'hw) part_env \<Rightarrow> ('f, ext_handler \<times> 'hw irq_system) listener" where
  "ext_listener E l i =
     zoom ext_part (\<lambda>d b. (pboard d)\<lparr>bworld := (part d, pirq d)\<rparr>) (Ext_PinStateHasChanged E l i)"

text \<open>An input pin \<open>i\<close> with source \<open>idx\<close> as its listener and a driver \<open>e\<close> form the net \<open>n\<close>.\<close>

definition ext_wired :: "nat \<Rightarrow> nat \<Rightarrow> nat \<Rightarrow> nat \<Rightarrow> ('f, 'hw) ext_board \<Rightarrow> bool" where
  "ext_wired idx n i e b \<longleftrightarrow> i \<noteq> e \<and> bnets b n = [i, e] \<and>
     connectedTo (bpins b i) = Some n \<and> drainOf (bpins b i) = None \<and> notifyList (bpins b i) = [idx] \<and>
     (outState (bpins b i) = TRISTATE \<or> outState (bpins b i) = PULLUP) \<and>
     connectedTo (bpins b e) = Some n \<and> drainOf (bpins b e) = None \<and> notifyList (bpins b e) = [] \<and>
     pinOfPort (bpins b e) = None \<and>
     idx < length (extirqs (fst (bworld b))) \<and> ext_dev (ext_part b)"

definition drive_pin :: "('f, ext_handler \<times> 'hw irq_system, 'hw) part_env \<Rightarrow> nat \<Rightarrow> bool \<Rightarrow> (('f::zero, 'hw) ext_board, unit) sim" where
  "drive_pin E e s = Pin_set (ext_listener E) e (if s then CHR ''H'' else CHR ''L'')"

lemma wp_ext_listener:
  assumes w: "ext_wired idx n i e b" and src: "source (extirqs (fst (bworld b)) ! idx) = Single two old st"
    and s: "s = Pin_bool (bpins b i)"
    and post: "\<And>h q. ext_wired idx n i e (b\<lparr>bworld := (h, q)\<rparr>) \<Longrightarrow> h = single_step idx s (fst (bworld b)) \<Longrightarrow>
      dom (map_of (irqPartnerList q)) = dom (map_of (irqPartnerList (snd (bworld b)))) \<union>
        (if ext_event old (mode (extirqs (fst (bworld b)) ! idx)) st s \<and> enabled idx (fst (bworld b))
         then {vectors (fst (bworld b)) ! idx} else {}) \<Longrightarrow> Q () (b\<lparr>bworld := (h, q)\<rparr>)"
  shows "wp (ext_listener E idx i) Q b"
  unfolding ext_listener_def wp_zoom
proof (rule wp_single_change [where two = two and old = old and st = st and s = s], goal_cases)
  case (5 d')
  have "length (extirqs (part d')) = length (extirqs (fst (bworld b)))"
    using 5(2) single_step_simps(3) [OF src] w by (simp add: ext_part_def ext_wired_def)
  moreover have "irqs_ok V d' = irqs_ok V \<lparr>part = part d', pirq = pirq d', pboard = c\<rparr>"
    for V and c :: "('a, ext_handler \<times> 'b irq_system) board" by (simp add: irqs_ok_def)
  ultimately have "ext_wired idx n i e (b\<lparr>bworld := (part d', pirq d')\<rparr>)"
    using w 5(1) by (simp add: ext_wired_def ext_part_def ext_dev_def)
  moreover have "pboard d' = b" using 5(3) by (simp add: ext_part_def)
  ultimately have "Q () (b\<lparr>bworld := (part d', pirq d')\<rparr>)"
    using 5(2,4) by (intro post) (simp_all add: ext_part_def requests_def single_fires_event)
  then show ?case using \<open>pboard d' = b\<close> by simp
qed (use w src s in \<open>simp_all add: ext_wired_def ext_part_def\<close>)

text \<open>\<open>SetInState\<close> is \<open>in_state\<close> and then its listeners.\<close>

lemma in_state_board [simp]:
  "bpins (in_state i p b) = (bpins b)(i := (bpins b i)\<lparr>analogVal := analogVal p\<rparr>)" "bworld (in_state i p b) = bworld b"
  by (auto simp: in_state_def upd_pin_def upd_port_def Let_def split: option.split)

lemma wp_SetInState:
  "wp (SetInState L i p) Q b = wp (forS (\<lambda>l. L l i) (notifyList (bpins b i))) Q (in_state i p b)"
  unfolding SetInState_def wp_sq wp_bnd wp_basic in_state_def Let_def
  by (simp add: upd_pin_def upd_port_def split: option.split)

lemma ext_wired_in_state: "ext_wired idx n i e b \<Longrightarrow> ext_wired idx n i e (in_state j p b)"
  "ext_wired idx n i e b \<Longrightarrow> notifyList (bpins b e) = []"
  by (auto simp: ext_wired_def ext_part_def ext_dev_def irqs_ok_def)

text \<open>The level of the driver reaches the input pin and its listener.\<close>

lemma wp_drive_pin:
  assumes w: "ext_wired idx n i e b" and src: "source (extirqs (fst (bworld b)) ! idx) = Single two old st"
  shows "wp (drive_pin E e s) (\<lambda>_ b'. ext_wired idx n i e b' \<and> fst (bworld b') = single_step idx s (fst (bworld b)) \<and>
      dom (map_of (irqPartnerList (snd (bworld b')))) = dom (map_of (irqPartnerList (snd (bworld b)))) \<union>
        (if ext_event old (mode (extirqs (fst (bworld b)) ! idx)) st s \<and> enabled idx (fst (bworld b))
         then {vectors (fst (bworld b)) ! idx} else {})) b"
proof -
  let ?L = "ext_listener E"
  let ?c = "if s then CHR ''H'' else CHR ''L''"
  let ?r = "Pin (if s then HIGH else LOW) :: 'a iopin"
  let ?b = "upd_pin e (Pin_of_char ?c) b"
  let ?b1 = "in_state i ?r ?b"
  have r: "net_result ?b n = ?r"
    using w by (auto simp: net_result_def ext_wired_def upd_pin_def GetPin_def Pin_of_char_def Pin_plus_def Pin_copy_def Pin_def)
  have bw: "bworld ?b1 = bworld b" by (simp add: upd_pin_def)
  have net: "bnets ?b n = [i, e]" "connectedTo (bpins ?b e) = Some n" "notifyList (bpins ?b i) = [idx]"
    using w by (simp_all add: ext_wired_def upd_pin_def Pin_of_char_def)
  have w1: "ext_wired idx n i e ?b1"
    by (rule ext_wired_in_state(1)) (use w in \<open>simp add: ext_wired_def upd_pin_def Pin_of_char_def ext_part_def ext_dev_def irqs_ok_def\<close>)
  have pb: "s = Pin_bool (bpins ?b1 i)"
    using w by (auto simp: ext_wired_def upd_pin_def Pin_of_char_def Pin_bool_def Pin_def setD_def state_level_def)
  have src1: "source (extirqs (fst (bworld ?b1)) ! idx) = Single two old st" using src by (simp only: bw)
  show ?thesis unfolding drive_pin_def Pin_set_def Pin_CalcPin_def CalcNet_def
      wp_sq wp_bnd wp_basic net option.case r prod.case wp_forS wp_SetInState
  proof (rule wp_ext_listener [OF w1 src1 pb], goal_cases)
    case (1 h q)
    show ?case unfolding wp_SetInState wp_forS wp_basic ext_wired_in_state(2) [OF 1(1)]
      using ext_wired_in_state(1) [OF 1(1)] 1(2,3) by (simp only: wp_forS wp_basic in_state_board board.simps fst_conv snd_conv bw) simp
  qed
qed

interpretation net_driver: level_driver "drive_pin E e" "\<lambda>b. fst (bworld b)"
    "\<lambda>b. dom (map_of (irqPartnerList (snd (bworld b))))" "ext_wired idx n i e" idx
  for E :: "('f::zero, ext_handler \<times> 'hw irq_system, 'hw) part_env" and idx n i e
proof
  show "ext_ok (fst (bworld b)) \<and> idx < length (extirqs (fst (bworld b)))" if "ext_wired idx n i e b"
    for b :: "('f, 'hw) ext_board" using that by (simp add: ext_wired_def ext_dev_def ext_part_def)
qed (rule wp_drive_pin)

text \<open>
  C22. An external driver on the net of an interrupt pin: whatever levels it drives, the flag of the
  source is set exactly by the edges that the mode asks for and not in level mode, the interrupt is
  requested exactly if there was such an edge, or a low level in level mode, and the source is
  enabled; nothing else is requested.
\<close>

theorem external_edges:
  assumes "ext_wired idx n i e b" "h = fst (bworld b)" "source (extirqs h ! idx) = Single two old st"
    and "m = mode (extirqs h ! idx)" "k = irqbits h ! idx"
    and "ev \<longleftrightarrow> (\<exists>j < length ls. ext_event old m ((st # ls) ! j) (ls ! j))"
  shows "wp (forS (drive_pin E e) ls) (\<lambda>_ b'. ext_wired idx n i e b' \<and>
     (bit (irq_flag (fst (bworld b'))) k \<longleftrightarrow> bit (irq_flag h) k \<or> (m \<noteq> MODE_LEVEL_LOW \<and> ev)) \<and>
     dom (map_of (irqPartnerList (snd (bworld b')))) = dom (map_of (irqPartnerList (snd (bworld b)))) \<union>
       (if ev \<and> enabled idx h then {vectors h ! idx} else {}) \<and>
     source (extirqs (fst (bworld b')) ! idx) = Single two old (last (st # ls)) \<and>
     mode (extirqs (fst (bworld b')) ! idx) = m) b"
  unfolding assms(2) by (rule net_driver.edges [OF assms(1)]) (use assms in simp_all)

text \<open>INT0 on a falling edge, enabled, on a pin that is driven high and then low.\<close>

definition sample_ext :: ext_handler where
  "sample_ext = \<lparr>extirqs = [(ExternalIRQ 0 2 (Single True False False))\<lparr>mode := MODE_EDGE_FALL\<rparr>], irq_mask = 0x40,
     irq_flag = 0, reg_mask = 0x40, vectors = [1], irqbits = [6], vector2idx = [1 \<mapsto> 0]\<rparr>"

definition sample_net :: "(int, char) ext_board" where
  "sample_net = \<lparr>bpins = (\<lambda>j. (Pin TRISTATE)\<lparr>connectedTo := Some 0, notifyList := if j = 0 then [0] else []\<rparr>),
     bnets = (\<lambda>_. [0, 1]), bports = (\<lambda>_. undefined), bworld = (sample_ext, HWIrqSystem 2 20)\<rparr>"

lemma sample_ext_ok: "ext_ok sample_ext" "extirqs sample_ext ! 0 = \<lparr>bitshift = 0, modemask = 3, mode = 2, source = Single True False False\<rparr>"
    "length (extirqs sample_ext) = 1" "vectors sample_ext = [1]" "irqbits sample_ext = [6]" "enabled 0 sample_ext"
    "irq_flag sample_ext = 0"
  by (auto simp: ext_ok_def sample_ext_def enabled_def ExternalIRQ_def ResetMode_def mask_eq_exp_minus_1)

lemma sample_net_wired: "ext_wired 0 0 0 1 sample_net"
  by (simp add: ext_wired_def sample_net_def Pin_def ext_part_def ext_dev_def irqs_ok_def irq_ok_def HWIrqSystem_def
      table_ok_def sample_ext_ok)

theorem external_edges_witness:
  "\<forall>E. \<exists>b'. forS (drive_pin E 1) [True, False] sample_net = Inr ((), b') \<and>
     dom (map_of (irqPartnerList (snd (bworld b')))) = {1}"
proof
  fix E :: "(int, ext_handler \<times> char irq_system, char) part_env"
  have w: "fst (bworld sample_net) = sample_ext" "map_of (irqPartnerList (snd (bworld sample_net))) = Map.empty"
    by (simp_all add: sample_net_def HWIrqSystem_def)
  have ev: "True \<longleftrightarrow> (\<exists>j < length [True, False]. ext_event False 2 ((False # [True, False]) ! j) ([True, False] ! j))"
    by (simp add: ext_event_def numeral_2_eq_2 Ex_less_Suc2)
  show "\<exists>b'. forS (drive_pin E 1) [True, False] sample_net = Inr ((), b') \<and>
      dom (map_of (irqPartnerList (snd (bworld b')))) = {1}"
  proof (rule wpE [OF external_edges [OF sample_net_wired w(1) [symmetric] _ _ _ ev, where two = True and E = E
        and k = 6]], goal_cases)
    case (4 x b')
    then show ?case by (auto simp only: w sample_ext_ok dom_empty) (simp_all add: sample_ext_ok)
  qed (simp_all add: sample_ext_ok)
qed

theorem external_registers_witness:
  "\<forall>E. \<exists>d'. Ext_set_mask E 0 (ext_part sample_net) = Inr (0, d') \<and> requests d' = {} \<and> Ext_get_mask (part d') 0 = 0"
proof
  fix E :: "(int, ext_handler \<times> char irq_system, char) part_env"
  have d: "ext_dev (ext_part sample_net)" "0 < length (extirqs (part (ext_part sample_net)))"
    using sample_net_wired by (simp_all add: ext_wired_def ext_part_def)
  have "requests (ext_part sample_net) = {}" by (simp add: requests_def ext_part_def sample_net_def HWIrqSystem_def)
  then have "wp (Ext_set_mask E 0) (\<lambda>v d'. v = 0 \<and> requests d' = {} \<and> Ext_get_mask (part d') 0 = 0) (ext_part sample_net)"
    by (intro wp_mono [OF conjunct1 [OF conjunct2 [OF external_registers [OF d, where nv = 0 and E = E]]]]) simp
  then show "\<exists>d'. Ext_set_mask E 0 (ext_part sample_net) = Inr (0, d') \<and> requests d' = {} \<and> Ext_get_mask (part d') 0 = 0"
    by (elim wpE) blast
qed

section \<open>The control register\<close>

text \<open>The two mode bits of a pin read back as they were written.\<close>

lemma ctrl_two_bits:
  assumes "x = ExternalIRQ offs 2 (Single True old st)" "offs < 7"
  shows "ctrl_get_from_client (snd (ctrl_set_from_reg nv x)) v = (v AND NOT (push_bit offs 3)) OR (nv AND push_bit offs 3)"
proof -
  have "push_bit offs (drop_bit offs (nv AND push_bit offs 3)) = nv AND push_bit offs 3"
    by (rule bit_word_eqI) (auto simp: bit_simps)
  moreover have "Bit_Operations.mask 2 = (3 :: byte)" by (simp add: mask_eq_exp_minus_1)
  ultimately show ?thesis
    by (simp add: assms(1) ExternalIRQ_def ResetMode_def ctrl_set_from_reg_def ctrl_get_from_client_def ChangeMode_def)
qed

text \<open>A source with one mode bit reads back as both bits of its internal mode, and starts in level mode.\<close>

lemma ctrl_one_bit:
  assumes "x = ExternalIRQ 6 1 (Single False old st)"
  shows "ctrl_get_from_client (snd (ctrl_set_from_reg 0x40 x)) 0 = 0xc0" "mode x = MODE_LEVEL_LOW"
    "ctrl_get_from_client (snd (ctrl_set_from_reg 0 x)) 0 = 0x80"
  by (simp_all add: assms ExternalIRQ_def ResetMode_def ctrl_set_from_reg_def ctrl_get_from_client_def ChangeMode_def
      mask_eq_exp_minus_1)

end
