(* ===== verification/Avr_Spi.thy ===== *)
theory Avr_Spi
  imports Avr_Part
begin

text \<open>
  The serial peripheral interface of \<^verbatim>\<open>hwspi.cpp\<close>: the three registers, the master, which makes the
  clock and shifts a byte in 16 half periods, and the slave, which follows the edges of the clock
  pin. Bits of registers are named by their numbers here and by masks in the code.

  \<open>spi_clocked\<close> is the membership in the cycle list of the core, which \<open>SetSPCR\<close> changes. The
  counter \<open>clkcnt\<close> is an \<open>unsigned\<close> that may wrap around; it is a natural number here, because only
  its remainder and the parity of its quotient by a power of two are used (\<open>clkcnt_wraps\<close>).
\<close>

unbundle bit_operations_syntax

section \<open>State\<close>

record spi =
  shift_in :: byte
  data_read :: byte
  data_write :: byte
  spsr :: byte
  spcr :: byte
  MOSI :: pin_at_port
  MISO :: pin_at_port
  SCK :: pin_at_port
  SS :: pin_at_port
  irq_vector :: nat
  clkdiv :: nat
  spsr_read :: bool
  oldsck :: bool
  bitcnt :: nat
  clkcnt :: nat
  mega_mode :: bool
  finished :: bool
  spi_clocked :: bool

type_synonym ('f, 'w, 'hw, 'a) ssim = "(spi, 'f, 'w, 'hw, 'a) psim"

text \<open>Bits of SPCR and of SPSR.\<close>

abbreviation (input) SPIE :: nat where "SPIE \<equiv> 7"
abbreviation (input) SPE :: nat where "SPE \<equiv> 6"
abbreviation (input) DORD :: nat where "DORD \<equiv> 5"
abbreviation (input) MSTR :: nat where "MSTR \<equiv> 4"
abbreviation (input) CPOL :: nat where "CPOL \<equiv> 3"
abbreviation (input) CPHA :: nat where "CPHA \<equiv> 2"
abbreviation (input) SPR1 :: nat where "SPR1 \<equiv> 1"
abbreviation (input) SPR0 :: nat where "SPR0 \<equiv> 0"

abbreviation (input) SPIF :: nat where "SPIF \<equiv> 7"
abbreviation (input) WCOL :: nat where "WCOL \<equiv> 6"
abbreviation (input) SPI2X :: nat where "SPI2X \<equiv> 0"

section \<open>Registers\<close>

definition spdr_access :: "spi \<Rightarrow> spi" where
  "spdr_access s =
     (if spsr_read s then s\<lparr>spsr := unset_bit SPIF (unset_bit WCOL (spsr s)), spsr_read := False\<rparr> else s)"

definition GetSPDR :: "spi \<Rightarrow> byte \<times> spi" where
  "GetSPDR s = (let s' = spdr_access s in (data_read s', s'))"

definition GetSPSR :: "spi \<Rightarrow> byte \<times> spi" where
  "GetSPSR s = (spsr s, s\<lparr>spsr_read := True\<rparr>)"

definition SetSPDR :: "byte \<Rightarrow> spi \<Rightarrow> spi" where
  "SetSPDR val s =
     (let s1 = (spdr_access s)\<lparr>data_write := val\<rparr> in
      if bit (spcr s1) MSTR then
        (if bitcnt s1 < 8 then s1\<lparr>spsr := set_bit WCOL (spsr s1)\<rparr>
         else s1\<lparr>bitcnt := 0, finished := False, clkcnt := 0\<rparr>)
      else s1)"

definition updatePrescaler :: "spi \<Rightarrow> spi" where
  "updatePrescaler s =
     (let fac2x = (if bit (spsr s) SPI2X then 1 else 2);
          divisor = (if bit (spcr s) SPR1 then (if bit (spcr s) SPR0 then 32 else 16)
                     else (if bit (spcr s) SPR0 then 4 else 1))
      in s\<lparr>clkdiv := divisor * fac2x\<rparr>)"

definition SetSPSR :: "byte \<Rightarrow> spi \<Rightarrow> spi" where
  "SetSPSR val s =
     (if mega_mode s then
        updatePrescaler (s\<lparr>spsr := if bit val SPI2X then set_bit SPI2X (unset_bit SPI2X (spsr s)) else unset_bit SPI2X (spsr s)\<rparr>)
      else s)"

definition drives :: "pin_at_port \<Rightarrow> pinstate \<Rightarrow> ('f, 'w) board \<Rightarrow> bool" where
  "drives pp st b \<longleftrightarrow> outState (bpins b (portPins (bports b (pa_port pp)) ! pa_pinNo pp)) = st"

text \<open>The assertion about the clock pin stands twice in the code.\<close>

definition SetSPCR :: "('f::zero, 'w, 'hw) part_env \<Rightarrow> byte \<Rightarrow> ('f, 'w, 'hw, unit) ssim" where
  "SetSPCR E val =
     sq (upd_part (\<lambda>s. s\<lparr>spcr := val\<rparr>))
     (bnd (get_part (\<lambda>s. (MOSI s, MISO s, SCK s, SS s))) (\<lambda>(mosi, miso, sck, ss).
     (let L = pe_listener E in
      sq (if bit val SPE then
            sq (upd_part (\<lambda>s. s\<lparr>spi_clocked := True\<rparr>))
            (if bit val MSTR then
               sq (on_pboard (SetUseAlternateDdr L miso True))
               (sq (on_pboard (SetAlternateDdr L miso False))
               (sq (on_pboard (SetUseAlternatePortIfDdrSet L mosi True))
               (sq (on_pboard (SetAlternatePort L mosi True))
               (sq (on_pboard (SetAlternatePort L sck (bit val CPOL)))
               (sq (on_pboard (SetUseAlternatePortIfDdrSet L sck True))
               (bnd (gets (\<lambda>d. drives sck (if bit val CPOL then HIGH else LOW) (pboard d))) assertM))))))
             else
               sq (on_pboard (SetUseAlternatePortIfDdrSet L miso True))
               (sq (on_pboard (SetUseAlternateDdr L mosi True))
               (sq (on_pboard (SetAlternateDdr L mosi False))
               (sq (on_pboard (SetUseAlternateDdr L sck True))
               (sq (on_pboard (SetAlternateDdr L sck False))
               (sq (on_pboard (SetUseAlternateDdr L ss True))
               (on_pboard (SetAlternateDdr L ss False))))))))
          else
            sq (upd_part (\<lambda>s. s\<lparr>bitcnt := 8, finished := False, spi_clocked := False\<rparr>))
            (sq (on_pboard (SetUseAlternatePortIfDdrSet L mosi False))
            (sq (on_pboard (SetUseAlternatePortIfDdrSet L miso False))
            (sq (on_pboard (SetUseAlternatePortIfDdrSet L sck False))
            (sq (on_pboard (SetUseAlternateDdr L mosi False))
            (sq (on_pboard (SetUseAlternateDdr L miso False))
            (sq (on_pboard (SetUseAlternateDdr L sck False))
            (on_pboard (SetUseAlternateDdr L ss False)))))))))
      (upd_part updatePrescaler))))"

definition Spi_Reset :: "('f::zero, 'w, 'hw) part_env \<Rightarrow> ('f, 'w, 'hw, unit) ssim" where
  "Spi_Reset E =
     sq (SetSPCR E 0) (upd_part (\<lambda>s. s\<lparr>spsr := 0, shift_in := 0, data_read := 0, data_write := 0\<rparr>))"

text \<open>The constructor; the part holds the members that it leaves uninitialised.\<close>

definition HWSpi ::
  "('f::zero, 'w, 'hw) part_env \<Rightarrow> pin_at_port \<Rightarrow> pin_at_port \<Rightarrow> pin_at_port \<Rightarrow> pin_at_port \<Rightarrow> nat \<Rightarrow> bool \<Rightarrow>
     ('f, 'w, 'hw, unit) ssim" where
  "HWSpi E mosi miso sck ss ivec mm =
     sq (upd_part (\<lambda>s. s\<lparr>MOSI := mosi, MISO := miso, SCK := sck, SS := ss, irq_vector := ivec, mega_mode := mm\<rparr>))
     (sq (zoom pirq (\<lambda>q d. d\<lparr>pirq := q\<rparr>) (DebugVerifyInterruptVector ivec (pe_this E)))
     (sq (upd_part (\<lambda>s. s\<lparr>bitcnt := 8, finished := False\<rparr>))
     (Spi_Reset E)))"

definition Spi_ClearIrqFlag :: "('f, 'w, 'hw) part_env \<Rightarrow> nat \<Rightarrow> ('f, 'w, 'hw, unit) ssim" where
  "Spi_ClearIrqFlag E vector =
     bnd (get_part irq_vector) (\<lambda>v.
     whenM (vector = v) (sq (upd_part (\<lambda>s. s\<lparr>spsr := unset_bit SPIF (spsr s)\<rparr>)) (clear_irq E v)))"

section \<open>Shifting\<close>

definition txbit :: "('f::zero, 'w, 'hw) part_env \<Rightarrow> nat \<Rightarrow> ('f, 'w, 'hw, unit) ssim" where
  "txbit E bitpos =
     bnd (get_part (\<lambda>s. (if bit (spcr s) MSTR then MOSI s else MISO s, bit (data_write s) bitpos))) (\<lambda>(out, v).
     on_pboard (SetAlternatePort (pe_listener E) out v))"

definition rxbit :: "nat \<Rightarrow> ('f, 'w, 'hw, unit) ssim" where
  "rxbit bitpos =
     bnd (pin_level (\<lambda>s. if bit (spcr s) MSTR then MISO s else MOSI s)) (\<lambda>b.
     whenM b (upd_part (\<lambda>s. s\<lparr>shift_in := set_bit bitpos (shift_in s)\<rparr>)))"

definition request_spi :: "('f, 'w, 'hw) part_env \<Rightarrow> ('f, 'w, 'hw, unit) ssim" where
  "request_spi E = bnd (get_part (\<lambda>s. (bit (spcr s) SPIE, irq_vector s))) (\<lambda>(ie, v). whenM ie (set_irq E v))"

definition trxend :: "('f, 'w, 'hw) part_env \<Rightarrow> ('f, 'w, 'hw, unit) ssim" where
  "trxend E =
     bnd (get_part finished) (\<lambda>fin. whenM fin
       (sq (upd_part (\<lambda>s. s\<lparr>finished := False, data_write := shift_in s, data_read := shift_in s, spsr := set_bit SPIF (spsr s)\<rparr>))
       (sq (request_spi E) (upd_part (\<lambda>s. s\<lparr>spsr_read := False\<rparr>)))))"

text \<open>
  The position of the next bit and of the one before it. With \<open>bitcnt = 8\<close> the code computes -1 for
  \<open>bitpos\<close> or for \<open>bitpos_prec\<close> with \<open>bitcnt = 0\<close>, but does not use it.
\<close>

definition bitpos :: "spi \<Rightarrow> nat" where
  "bitpos s = (if bit (spcr s) DORD then bitcnt s else 7 - bitcnt s)"

definition bitpos_prec :: "spi \<Rightarrow> nat" where
  "bitpos_prec s = (if bit (spcr s) DORD then bitcnt s - 1 else 8 - bitcnt s)"

definition leave_master :: "('f::zero, 'w, 'hw) part_env \<Rightarrow> ('f, 'w, 'hw, unit) ssim" where
  "leave_master E =
     sq (bnd (get_part (\<lambda>s. unset_bit MSTR (spcr s))) (SetSPCR E))
     (sq (upd_part (\<lambda>s. s\<lparr>spsr := set_bit SPIF (spsr s)\<rparr>))
     (sq (request_spi E)
     (upd_part (\<lambda>s. s\<lparr>bitcnt := 8, finished := False, clkcnt := 0\<rparr>))))"

text \<open>The two half periods of the clock.\<close>

definition master_first :: "('f::zero, 'w, 'hw) part_env \<Rightarrow> nat \<Rightarrow> nat \<Rightarrow> ('f, 'w, 'hw, unit) ssim" where
  "master_first E pos pos_prec =
     bnd (get_part (\<lambda>s. (SCK s, bit (spcr s) CPOL, bit (spcr s) CPHA, 0 < bitcnt s))) (\<lambda>(sck, cpol, cpha, later).
     sq (on_pboard (SetAlternatePort (pe_listener E) sck cpol))
     (if cpha then whenM later (rxbit pos_prec) else txbit E pos))"

definition master_second :: "('f::zero, 'w, 'hw) part_env \<Rightarrow> nat \<Rightarrow> ('f, 'w, 'hw, unit) ssim" where
  "master_second E pos =
     bnd (get_part (\<lambda>s. (SCK s, bit (spcr s) CPOL, bit (spcr s) CPHA))) (\<lambda>(sck, cpol, cpha).
     sq (on_pboard (SetAlternatePort (pe_listener E) sck (\<not> cpol)))
     (sq (if cpha then txbit E pos else rxbit pos)
     (upd_part (\<lambda>s. s\<lparr>bitcnt := bitcnt s + 1\<rparr>))))"

definition master_bit :: "('f::zero, 'w, 'hw) part_env \<Rightarrow> nat \<Rightarrow> nat \<Rightarrow> ('f, 'w, 'hw, unit) ssim" where
  "master_bit E pos pos_prec =
     sq (upd_part (\<lambda>s. if bitcnt s = 0 then s\<lparr>shift_in := 0\<rparr> else s))
     (sq (bnd (get_part (\<lambda>s. odd (clkcnt s div clkdiv s))) (\<lambda>second.
          if second then master_second E pos else master_first E pos pos_prec))
     (upd_part (\<lambda>s. s\<lparr>finished := (bitcnt s = 8)\<rparr>)))"

definition master_end :: "('f::zero, 'w, 'hw) part_env \<Rightarrow> nat \<Rightarrow> ('f, 'w, 'hw, unit) ssim" where
  "master_end E pos_prec =
     bnd (get_part (\<lambda>s. (SCK s, MOSI s, bit (spcr s) CPOL, bit (spcr s) CPHA))) (\<lambda>(sck, mosi, cpol, cpha).
     sq (whenM cpha (rxbit pos_prec))
     (sq (trxend E)
     (sq (on_pboard (SetAlternatePort (pe_listener E) sck cpol))
     (whenM (\<not> cpha) (on_pboard (SetAlternatePort (pe_listener E) mosi True))))))"

definition PinAtPort_GetDdr :: "pin_at_port \<Rightarrow> ('f, 'w) board \<Rightarrow> bool" where
  "PinAtPort_GetDdr pp b = bit (ddr (bports b (pa_port pp))) (pa_pinNo pp)"

definition master_cycle :: "('f::zero, 'w, 'hw) part_env \<Rightarrow> nat \<Rightarrow> nat \<Rightarrow> ('f, 'w, 'hw, unit) ssim" where
  "master_cycle E pos pos_prec =
     bnd (gets (\<lambda>d. \<not> PinAtPort_GetDdr (SS (part d)) (pboard d) \<and> \<not> PinAtPort_bool (SS (part d)) (pboard d))) (\<lambda>driven.
     sq (whenM driven (leave_master E))
     (bnd (get_part (\<lambda>s. (clkcnt s mod clkdiv s = 0, bitcnt s < 8, finished s))) (\<lambda>(tick, busy, fin).
     whenM tick (if busy then master_bit E pos pos_prec else whenM fin (master_end E pos_prec)))))"

definition slave_edge :: "('f::zero, 'w, 'hw) part_env \<Rightarrow> nat \<Rightarrow> ('f, 'w, 'hw, unit) ssim" where
  "slave_edge E pos =
     bnd (pin_level SCK) (\<lambda>sck. bnd (get_part (\<lambda>s. (oldsck s, bit (spcr s) CPOL, bit (spcr s) CPHA))) (\<lambda>(old, cpol, cpha).
     whenM (sck \<noteq> old)
       (let leading = (if cpol then \<not> sck else sck); sampling = (leading \<noteq> cpha) in
        sq (if sampling then rxbit pos else txbit E pos)
        (whenM (\<not> leading) (upd_part (\<lambda>s. s\<lparr>bitcnt := bitcnt s + 1, finished := (bitcnt s + 1 = 8)\<rparr>))))))"

definition slave_cycle :: "('f::zero, 'w, 'hw) part_env \<Rightarrow> nat \<Rightarrow> ('f, 'w, 'hw, unit) ssim" where
  "slave_cycle E pos =
     bnd (pin_level SS) (\<lambda>ss.
     if ss then upd_part (\<lambda>s. s\<lparr>bitcnt := 8\<rparr>)
     else
       bnd (get_part (\<lambda>s. (bitcnt s = 8, bit (spcr s) CPHA))) (\<lambda>(idle, cpha).
       sq (if idle then bnd (pin_level SCK) (\<lambda>k. upd_part (\<lambda>s. s\<lparr>bitcnt := 0, finished := False, shift_in := 0, oldsck := k\<rparr>))
           else whenM (\<not> cpha) (txbit E pos))
       (sq (slave_edge E pos)
       (sq (trxend E)
       (bnd (pin_level SCK) (\<lambda>k. upd_part (\<lambda>s. s\<lparr>oldsck := k\<rparr>)))))))"

definition Spi_CpuCycle :: "('f::zero, 'w, 'hw) part_env \<Rightarrow> ('f, 'w, 'hw, unit) ssim" where
  "Spi_CpuCycle E =
     bnd (get_part (\<lambda>s. (bit (spcr s) SPE, bit (spcr s) MSTR, bitpos s, bitpos_prec s))) (\<lambda>(on, master, pos, pos_prec).
     whenM on
       (sq (if master then master_cycle E pos pos_prec else slave_cycle E pos)
       (upd_part (\<lambda>s. s\<lparr>clkcnt := clkcnt s + 1\<rparr>))))"

lemma clkcnt_wraps:
  assumes "d dvd 2 ^ 31"
  shows "(c mod 2 ^ 32) mod d = c mod d" "odd ((c mod 2 ^ 32) div d) = odd (c div (d :: nat))"
proof -
  obtain e where e: "2 ^ 31 = d * e" using assms by blast
  have d: "0 < d" using e by (cases "d = 0") auto
  have p: "(2::nat) ^ 32 = d * (e * 2)" using e by simp
  then show "(c mod 2 ^ 32) mod d = c mod d" by (metis dvd_triv_left mod_mod_cancel)
  have "(c mod 2 ^ 32) div d = c div d mod (e * 2)" unfolding p mod_mult2_eq [of c d] using d by simp
  moreover have "even (c div d mod (e * 2)) = even (c div d)" by (simp add: dvd_mod_iff)
  ultimately show "odd ((c mod 2 ^ 32) div d) = odd (c div d)" by simp
qed

end
