(* ===== verification/Avr_SpiLink.thy ===== *)
theory Avr_SpiLink
  imports Avr_Spi
begin

text \<open>
  What the serial peripheral interface does. A cycle of the master or of the slave is a function of
  the levels at its input pins and results in levels for its output pins; on a board these are the
  levels of the port pins. A master and a slave that are wired together exchange their bytes.
\<close>

section \<open>Cycles as functions of the pin levels\<close>

definition take_in :: "bool \<Rightarrow> nat \<Rightarrow> spi \<Rightarrow> spi" where
  "take_in lvl pos s = (if lvl then s\<lparr>shift_in := set_bit pos (shift_in s)\<rparr> else s)"

definition end_frame :: "spi \<Rightarrow> spi" where
  "end_frame s = (if finished s then s\<lparr>finished := False, data_write := shift_in s, data_read := shift_in s,
     spsr := set_bit SPIF (spsr s), spsr_read := False\<rparr> else s)"

text \<open>A cycle of a master whose SS pin does not drive it into slave mode: the levels for SCK and MOSI.\<close>

definition master_step :: "bool \<Rightarrow> spi \<Rightarrow> spi \<times> bool option \<times> bool option" where
  "master_step miso s0 =
     (let s = s0; cpol = bit (spcr s) CPOL; cpha = bit (spcr s) CPHA; pos = bitpos s; pos_prec = bitpos_prec s in
      if clkcnt s mod clkdiv s \<noteq> 0 then (s\<lparr>clkcnt := clkcnt s + 1\<rparr>, None, None)
      else if bitcnt s < 8 then
        (let s1 = (if bitcnt s = 0 then s\<lparr>shift_in := 0\<rparr> else s) in
         if even (clkcnt s div clkdiv s) then
           (let s2 = (if cpha \<and> 0 < bitcnt s then take_in miso pos_prec s1 else s1)
            in (s2\<lparr>finished := (bitcnt s2 = 8), clkcnt := clkcnt s + 1\<rparr>, Some cpol,
                if cpha then None else Some (bit (data_write s) pos)))
         else
           (let s2 = (if cpha then s1 else take_in miso pos s1)
            in (s2\<lparr>bitcnt := bitcnt s + 1, finished := (bitcnt s + 1 = 8), clkcnt := clkcnt s + 1\<rparr>, Some (\<not> cpol),
                if cpha then Some (bit (data_write s) pos) else None)))
      else if finished s then
        ((end_frame (if cpha then take_in miso pos_prec s else s))\<lparr>clkcnt := clkcnt s + 1\<rparr>, Some cpol,
         if cpha then None else Some True)
      else (s\<lparr>clkcnt := clkcnt s + 1\<rparr>, None, None))"

text \<open>A cycle of a selected slave: the level for MISO.\<close>

definition slave_step :: "bool \<Rightarrow> bool \<Rightarrow> spi \<Rightarrow> spi \<times> bool option" where
  "slave_step sck mosi s =
     (let cpol = bit (spcr s) CPOL; cpha = bit (spcr s) CPHA; pos = bitpos s; out = Some (bit (data_write s) pos) in
      if bitcnt s = 8 then
        (s\<lparr>bitcnt := 0, finished := False, shift_in := 0, oldsck := sck, clkcnt := clkcnt s + 1\<rparr>, None)
      else if sck = oldsck s then
        ((end_frame s)\<lparr>oldsck := sck, clkcnt := clkcnt s + 1\<rparr>, if cpha then None else out)
      else
        (let leading = (sck \<noteq> cpol);
             s1 = (if leading \<noteq> cpha then take_in mosi pos s else s);
             s2 = (if leading then s1 else s1\<lparr>bitcnt := bitcnt s1 + 1, finished := (bitcnt s1 + 1 = 8)\<rparr>)
         in ((end_frame s2)\<lparr>oldsck := sck, clkcnt := clkcnt s + 1\<rparr>,
             if leading \<noteq> cpha \<and> cpha then None else out)))"

definition link_step :: "spi \<times> spi \<times> bool \<times> bool \<times> bool \<Rightarrow> spi \<times> spi \<times> bool \<times> bool \<times> bool" where
  "link_step = (\<lambda>(m, s, sck, mosi, miso).
     let (m', ck, mo) = master_step miso m;
         sck' = (case ck of None \<Rightarrow> sck | Some v \<Rightarrow> v);
         mosi' = (case mo of None \<Rightarrow> mosi | Some v \<Rightarrow> v);
         (s', mi) = slave_step sck' mosi' s
     in (m', s', sck', mosi', case mi of None \<Rightarrow> miso | Some v \<Rightarrow> v))"

section \<open>Exchange of bytes\<close>

text \<open>\<open>slot c j\<close>: the position in time of bit \<open>j\<close>; \<open>bit_at c i\<close>: the bit that is shifted at time \<open>i\<close>.\<close>

definition bit_at :: "byte \<Rightarrow> nat \<Rightarrow> nat" where
  "bit_at c i = (if bit c DORD then i else 7 - i)"

definition received :: "byte \<Rightarrow> byte \<Rightarrow> nat \<Rightarrow> byte \<Rightarrow> bool" where
  "received c b cnt x \<longleftrightarrow> (\<forall>j < 8. bit x j \<longleftrightarrow> bit b j \<and> bit_at c j < cnt)"

lemma received_0: "received c b 0 0"
  by (simp add: received_def)

lemma received_8: "received c b 8 x \<longleftrightarrow> x = b"
  by (auto simp: received_def bit_at_def intro!: bit_word_eqI)

lemma received_next:
  assumes "received c b i (shift_in s)" "i < 8" "lvl = bit b (bit_at c i)"
  shows "received c b (Suc i) (shift_in (take_in lvl (bit_at c i) s))"
proof -
  have "bit_at c j < Suc i \<longleftrightarrow> bit_at c j < i \<or> j = bit_at c i" if "j < 8" for j
    using that assms(2) by (auto simp: bit_at_def)
  moreover have "bit_at c i < 8" using assms(2) by (auto simp: bit_at_def)
  ultimately show ?thesis using assms by (auto simp: received_def take_in_def bit_set_bit_iff)
qed

lemma bitpos_at: "bitpos s = bit_at (spcr s) (bitcnt s)" "0 < bitcnt s \<Longrightarrow> bitpos_prec s = bit_at (spcr s) (bitcnt s - 1)"
  by (auto simp: bitpos_def bitpos_prec_def bit_at_def)

lemma take_in_simps [simp]: "spcr (take_in l p s) = spcr s" "bitcnt (take_in l p s) = bitcnt s" "clkcnt (take_in l p s) = clkcnt s"
    "clkdiv (take_in l p s) = clkdiv s" "data_write (take_in l p s) = data_write s" "finished (take_in l p s) = finished s"
    "oldsck (take_in l p s) = oldsck s"
  by (simp_all add: take_in_def)

text \<open>
  Cycle \<open>t\<close> of bit \<open>k\<close>, \<open>1 \<le> t \<le> 2 n\<close>: master \<open>m\<close> and slave \<open>s\<close> send \<open>a\<close> and \<open>b\<close>, the clock is at
  its idle level for \<open>n\<close> cycles and then at the other one.
\<close>

definition in_bit :: "byte \<Rightarrow> byte \<Rightarrow> nat \<Rightarrow> nat \<Rightarrow> nat \<Rightarrow> spi \<times> spi \<times> bool \<times> bool \<times> bool \<Rightarrow> bool" where
  "in_bit a b n k t = (\<lambda>(m, s, sck, mosi, miso).
     let c = spcr m; low = (t \<le> n); cnt = (if bit c CPHA \<or> low then k else Suc k) in
     clkdiv m = n \<and> clkcnt m = 2 * n * k + t \<and> bitcnt m = (if low then k else Suc k) \<and>
     (finished m \<longleftrightarrow> \<not> low \<and> k = 7) \<and> data_write m = a \<and> received c b cnt (shift_in m) \<and>
     bitcnt s = k \<and> \<not> finished s \<and> data_write s = b \<and> received c a cnt (shift_in s) \<and> oldsck s = sck \<and>
     (\<forall>i \<in> {DORD, CPOL, CPHA}. bit (spcr s) i = bit c i) \<and>
     (sck \<longleftrightarrow> bit c CPOL = low) \<and>
     (bit c CPHA \<noteq> low \<longrightarrow> mosi = bit a (bit_at c k)) \<and>
     ((if bit c CPHA then \<not> low else low \<and> 2 \<le> t) \<longrightarrow> miso = bit b (bit_at c k)))"

lemma bit_at_cong: "bit c DORD = bit d DORD \<Longrightarrow> bit_at c = bit_at d"
  by (simp add: bit_at_def fun_eq_iff)

lemma tick_iff:
  fixes n k t :: nat
  assumes "0 < n" "t \<le> 2 * n" "0 < t"
  shows "(2 * n * k + t) mod n = 0 \<longleftrightarrow> t = n \<or> t = 2 * n" "even ((2 * n * k + n) div n) = False"
    "even ((2 * n * k + 2 * n) div n) = True"
proof -
  have "n * (2 * k) + t = 2 * n * k + t" by simp
  then have "(2 * n * k + t) mod n = t mod n" by (metis mod_mult_self4)
  moreover have "t mod n = 0 \<longleftrightarrow> t = n \<or> t = 2 * n"
  proof
    assume "t mod n = 0"
    then obtain q where "t = n * q" by auto
    then show "t = n \<or> t = 2 * n" using assms by (cases q) (auto simp: le_Suc_eq numeral_2_eq_2)
  qed auto
  ultimately show "(2 * n * k + t) mod n = 0 \<longleftrightarrow> t = n \<or> t = 2 * n" by simp
  have "(2 * n * k + n) div n = 2 * k + 1" "(2 * n * k + 2 * n) div n = 2 * k + 2"
    using assms(1) by (simp_all add: div_add1_eq mult.assoc [symmetric] mult.commute [of _ n] mult.left_commute [of _ n])
  then show "even ((2 * n * k + n) div n) = False" "even ((2 * n * k + 2 * n) div n) = True" by simp_all
qed

lemma master_wait:
  "clkcnt m mod clkdiv m \<noteq> 0 \<Longrightarrow> master_step l m = (m\<lparr>clkcnt := clkcnt m + 1\<rparr>, None, None)"
  by (simp add: master_step_def Let_def)

lemma slave_wait:
  "sck = oldsck s \<Longrightarrow> bitcnt s \<noteq> 8 \<Longrightarrow> \<not> finished s \<Longrightarrow> slave_step sck mosi s =
     (s\<lparr>oldsck := sck, clkcnt := clkcnt s + 1\<rparr>,
      if bit (spcr s) CPHA then None else Some (bit (data_write s) (bit_at (spcr s) (bitcnt s))))"
  by (simp add: slave_step_def Let_def end_frame_def bitpos_at)

lemma link_idle:
  assumes "in_bit a b n k t l" "0 < t" "t < 2 * n" "t \<noteq> n" "k < 8"
  shows "in_bit a b n k (Suc t) (link_step l)"
proof -
  obtain m s sck mosi miso where l: "l = (m, s, sck, mosi, miso)" by (cases l)
  have I: "in_bit a b n k t (m, s, sck, mosi, miso)" using assms(1) l by simp
  have ck: "clkcnt m mod clkdiv m \<noteq> 0"
    using tick_iff(1) [of n t k] assms(2-4) I by (simp add: in_bit_def Let_def)
  have s: "sck = oldsck s" "bitcnt s \<noteq> 8" "\<not> finished s" and c: "bit_at (spcr s) = bit_at (spcr m)"
    and w: "bitcnt s = k" "data_write s = b" "bit (spcr s) CPHA = bit (spcr m) CPHA"
    using I assms(5) by (auto simp: in_bit_def Let_def intro: bit_at_cong)
  have le: "Suc t \<le> n \<longleftrightarrow> t \<le> n" using assms(4) by auto
  show ?thesis unfolding l link_step_def prod.case master_wait [OF ck] Let_def option.case slave_wait [OF s] c w
    using I unfolding in_bit_def Let_def prod.case le by (cases "bit (spcr m) CPHA") simp_all
qed

lemma received_zero: "received c b 0 x \<Longrightarrow> x = 0"
  by (auto simp: received_def intro!: bit_word_eqI)

lemma received_start: "received c b k (shift_in m) \<Longrightarrow> (if k = 0 then m\<lparr>shift_in := 0\<rparr> else m) = m"
  using received_zero [of c b "shift_in m"] by auto

lemma master_mid:
  assumes "clkcnt m mod clkdiv m = 0" "odd (clkcnt m div clkdiv m)" "bitcnt m = k" "k < 8" "received c b k (shift_in m)"
    and "c = spcr m"
  shows "master_step l m =
     ((if bit c CPHA then m else take_in l (bit_at c k) m)\<lparr>bitcnt := Suc k, finished := (k = 7), clkcnt := clkcnt m + 1\<rparr>,
      Some (\<not> bit c CPOL), if bit c CPHA then Some (bit (data_write m) (bit_at c k)) else None)"
  using assms received_start [OF assms(5)] by (auto simp: master_step_def Let_def bitpos_at)

lemma slave_leading:
  assumes "sck \<noteq> oldsck s" "sck \<noteq> bit c CPOL" "bitcnt s = k" "k < 8" "\<not> finished s" "c = spcr s"
  shows "slave_step sck mosi s =
     ((if bit c CPHA then s else take_in mosi (bit_at c k) s)\<lparr>oldsck := sck, clkcnt := clkcnt s + 1\<rparr>,
      Some (bit (data_write s) (bit_at c k)))"
  using assms by (auto simp: slave_step_def Let_def end_frame_def bitpos_at)

lemma link_mid:
  assumes "in_bit a b n k n l" "2 \<le> n" "k < 8"
  shows "in_bit a b n k (Suc n) (link_step l)"
proof -
  obtain m s sck mosi miso where l: "l = (m, s, sck, mosi, miso)" by (cases l)
  have I: "in_bit a b n k n (m, s, sck, mosi, miso)" using assms(1) l by simp
  let ?c = "spcr m"
  have ck: "clkcnt m mod clkdiv m = 0" "odd (clkcnt m div clkdiv m)"
    using tick_iff(1,2) [of n n k] assms(2) I by (simp_all add: in_bit_def Let_def)
  have m: "bitcnt m = k" "received ?c b k (shift_in m)" "data_write m = a" "clkdiv m = n" "clkcnt m = 2 * n * k + n"
    using I by (simp_all add: in_bit_def Let_def)
  have s: "oldsck s = sck" "sck = bit ?c CPOL" "bitcnt s = k" "\<not> finished s" "data_write s = b" "received ?c a k (shift_in s)"
    and c: "bit_at (spcr s) = bit_at ?c" "bit (spcr s) CPHA = bit ?c CPHA" "bit (spcr s) CPOL = bit ?c CPOL" "bit (spcr s) DORD = bit ?c DORD"
    and lv: "\<not> bit ?c CPHA \<Longrightarrow> mosi = bit a (bit_at ?c k)" "\<not> bit ?c CPHA \<Longrightarrow> miso = bit b (bit_at ?c k)"
    using I assms(2) by (auto simp: in_bit_def Let_def intro: bit_at_cong)
  have sl: "slave_step (\<not> bit ?c CPOL) v s =
     ((if bit ?c CPHA then s else take_in v (bit_at ?c k) s)\<lparr>oldsck := \<not> bit ?c CPOL, clkcnt := clkcnt s + 1\<rparr>,
      Some (bit b (bit_at ?c k)))" for v
    using slave_leading [OF _ _ s(3) assms(3) s(4) refl, of "\<not> bit ?c CPOL" v] s(1,2,5) c by simp
  show ?thesis
    unfolding l link_step_def prod.case master_mid [OF ck m(1) assms(3) m(2) refl] Let_def option.case sl
    using m s c lv received_next [OF m(2) assms(3), of miso] received_next [OF s(6) assms(3), of mosi]
    by (cases "bit ?c CPHA") (simp_all add: in_bit_def)
qed

lemma master_next:
  assumes "clkcnt m mod clkdiv m = 0" "even (clkcnt m div clkdiv m)" "bitcnt m = Suc k" "k < 7" "c = spcr m"
  shows "master_step l m =
     ((if bit c CPHA then take_in l (bit_at c k) m else m)\<lparr>finished := False, clkcnt := clkcnt m + 1\<rparr>,
      Some (bit c CPOL), if bit c CPHA then None else Some (bit (data_write m) (bit_at c (Suc k))))"
  using assms by (auto simp: master_step_def Let_def bitpos_at)

lemma slave_trailing:
  assumes "sck \<noteq> oldsck s" "sck = bit c CPOL" "bitcnt s = k" "k < 8" "\<not> finished s" "c = spcr s"
  shows "slave_step sck mosi s =
     ((end_frame ((if bit c CPHA then take_in mosi (bit_at c k) s else s)\<lparr>bitcnt := Suc k, finished := (k = 7)\<rparr>))
        \<lparr>oldsck := sck, clkcnt := clkcnt s + 1\<rparr>,
      if bit c CPHA then None else Some (bit (data_write s) (bit_at c k)))"
  using assms by (auto simp: slave_step_def Let_def bitpos_at)

lemma link_next:
  assumes "in_bit a b n k (2 * n) l" "2 \<le> n" "k < 7"
  shows "in_bit a b n (Suc k) 1 (link_step l)"
proof -
  obtain m s sck mosi miso where l: "l = (m, s, sck, mosi, miso)" by (cases l)
  have I: "in_bit a b n k (2 * n) (m, s, sck, mosi, miso)" using assms(1) l by simp
  let ?c = "spcr m" and ?cnt = "if bit (spcr m) CPHA then k else Suc k"
  have ck: "clkcnt m mod clkdiv m = 0" "even (clkcnt m div clkdiv m)"
    using tick_iff(1,3) [of n "2 * n" k] assms(2) I by (simp_all add: in_bit_def Let_def)
  have m: "bitcnt m = Suc k" "received ?c b ?cnt (shift_in m)" "data_write m = a" "clkdiv m = n" "clkcnt m = 2 * n * k + 2 * n"
    using I assms(2) by (simp_all add: in_bit_def Let_def)
  have s: "oldsck s = sck" "sck = (\<not> bit ?c CPOL)" "bitcnt s = k" "\<not> finished s" "data_write s = b" "received ?c a ?cnt (shift_in s)"
    and c: "bit_at (spcr s) = bit_at ?c" "bit (spcr s) CPHA = bit ?c CPHA" "bit (spcr s) CPOL = bit ?c CPOL" "bit (spcr s) DORD = bit ?c DORD"
    and lv: "bit ?c CPHA \<Longrightarrow> mosi = bit a (bit_at ?c k)" "bit ?c CPHA \<Longrightarrow> miso = bit b (bit_at ?c k)"
    using I assms(2) by (auto simp: in_bit_def Let_def intro: bit_at_cong)
  have k: "k < 8" and p: "bit ?c CPOL \<noteq> oldsck s" "bit ?c CPOL = bit (spcr s) CPOL" using assms(3) s(1,2) c by auto
  have sl: "slave_step (bit ?c CPOL) v s =
     ((if bit ?c CPHA then take_in v (bit_at ?c k) s else s)\<lparr>bitcnt := Suc k, finished := False, oldsck := bit ?c CPOL, clkcnt := clkcnt s + 1\<rparr>,
      if bit ?c CPHA then None else Some (bit b (bit_at ?c k)))" for v
    using slave_trailing [OF p s(3) k s(4) refl, of v] s(5) c assms(3) by (simp add: end_frame_def)
  show ?thesis
    unfolding l link_step_def prod.case master_next [OF ck m(1) assms(3) refl] Let_def option.case sl
    using m s c lv received_next [OF _ k, of ?c b m miso] received_next [OF _ k, of ?c a s mosi] assms(2)
    by (cases "bit ?c CPHA") (simp_all add: in_bit_def algebra_simps)
qed

lemma link_first:
  assumes "bitcnt m = 0" "clkcnt m = 0" "clkdiv m = n" "2 \<le> n" "data_write m = a"
    and s: "bitcnt s = 0" "shift_in s = 0" "\<not> finished s" "data_write s = b" "oldsck s = bit (spcr m) CPOL"
    and c: "\<forall>i \<in> {DORD, CPOL, CPHA}. bit (spcr s) i = bit (spcr m) i"
  shows "in_bit a b n 0 1 (link_step (m, s, sck, mosi, miso))"
proof -
  let ?c = "spcr m"
  have m: "master_step miso m = (m\<lparr>shift_in := 0, finished := False, clkcnt := 1\<rparr>, Some (bit ?c CPOL),
      if bit ?c CPHA then None else Some (bit a (bit_at ?c 0)))"
    using assms(1-5) by (simp add: master_step_def Let_def bitpos_at)
  have at: "bit_at (spcr s) = bit_at ?c" using c by (auto intro: bit_at_cong)
  have "slave_step (bit ?c CPOL) v s = (s\<lparr>oldsck := bit ?c CPOL, clkcnt := clkcnt s + 1\<rparr>,
      if bit ?c CPHA then None else Some (bit b (bit_at ?c 0)))" for v
    using slave_wait [of "bit ?c CPOL" s v] s c at by simp
  then show ?thesis using assms received_0 at
    by (cases "bit ?c CPHA") (simp_all add: link_step_def m in_bit_def Let_def)
qed

lemma master_last:
  assumes "clkcnt m mod clkdiv m = 0" "bitcnt m = 8" "finished m" "c = spcr m"
  shows "fst (master_step l m) =
     (end_frame (if bit c CPHA then take_in l (bit_at c 7) m else m))\<lparr>clkcnt := clkcnt m + 1\<rparr>"
    "fst (snd (master_step l m)) = Some (bit c CPOL)" "bit c CPHA \<Longrightarrow> snd (snd (master_step l m)) = None"
  using assms by (auto simp: master_step_def Let_def bitpos_at)

text \<open>Both have the other's byte, the flags are set and the slave goes on with the byte it has received.\<close>

definition exchanged :: "byte \<Rightarrow> byte \<Rightarrow> spi \<times> spi \<times> bool \<times> bool \<times> bool \<Rightarrow> bool" where
  "exchanged a b = (\<lambda>(m, s, _).
     data_read m = b \<and> bit (spsr m) SPIF \<and> bitcnt m = 8 \<and> \<not> finished m \<and>
     data_read s = a \<and> bit (spsr s) SPIF \<and> bitcnt s = 8 \<and> \<not> finished s \<and> data_write s = a)"

lemma link_last:
  assumes "in_bit a b n 7 (2 * n) l" "2 \<le> n"
  shows "exchanged a b (link_step l)"
proof -
  obtain m s sck mosi miso where l: "l = (m, s, sck, mosi, miso)" by (cases l)
  have I: "in_bit a b n 7 (2 * n) (m, s, sck, mosi, miso)" using assms(1) l by simp
  let ?c = "spcr m" and ?cnt = "if bit (spcr m) CPHA then 7 else Suc 7"
  have ck: "clkcnt m mod clkdiv m = 0"
    using tick_iff(1) [of n "2 * n" 7] assms(2) I by (simp add: in_bit_def Let_def)
  have m: "bitcnt m = 8" "finished m" "received ?c b ?cnt (shift_in m)"
    using I assms(2) by (simp_all add: in_bit_def Let_def)
  have s: "oldsck s = sck" "sck = (\<not> bit ?c CPOL)" "bitcnt s = 7" "\<not> finished s" "received ?c a ?cnt (shift_in s)"
    and c: "bit_at (spcr s) = bit_at ?c" "bit (spcr s) CPHA = bit ?c CPHA" "bit (spcr s) CPOL = bit ?c CPOL"
    and lv: "bit ?c CPHA \<Longrightarrow> mosi = bit a (bit_at ?c 7)" "bit ?c CPHA \<Longrightarrow> miso = bit b (bit_at ?c 7)"
    using I assms(2) by (auto simp: in_bit_def Let_def intro: bit_at_cong)
  have p: "bit ?c CPOL \<noteq> oldsck s" "bit ?c CPOL = bit (spcr s) CPOL" using s(1,2) c by auto
  have sl: "fst (slave_step (bit ?c CPOL) v s) =
     (end_frame ((if bit ?c CPHA then take_in v (bit_at ?c 7) s else s)\<lparr>bitcnt := 8, finished := True\<rparr>))
       \<lparr>oldsck := bit ?c CPOL, clkcnt := clkcnt s + 1\<rparr>" for v
    using slave_trailing [OF p s(3) _ s(4) refl, of v] c by simp
  have r: "received ?c b 8 (shift_in (if bit ?c CPHA then take_in miso (bit_at ?c 7) m else m))"
    "received ?c a 8 (shift_in (if bit ?c CPHA then take_in mosi (bit_at ?c 7) s else s))"
    using m(3) s(5) lv received_next [of ?c b 7 m miso] received_next [of ?c a 7 s mosi]
    by (cases "bit ?c CPHA"; simp)+
  obtain ck' mo where st: "master_step miso m = (fst (master_step miso m), Some (bit ?c CPOL), mo)"
      "bit ?c CPHA \<Longrightarrow> mo = None"
    using master_last(2,3) [OF ck m(1,2) refl, of miso] by (metis prod.collapse)
  show ?thesis using r m s master_last(1) [OF ck m(1,2) refl, of miso] st(2) unfolding l link_step_def prod.case
    by (subst st(1)) (cases "bit ?c CPHA"; simp add: exchanged_def Let_def split_beta sl received_8 end_frame_def bit_set_bit_iff)
qed

lemma link_bit:
  assumes "in_bit a b n k 1 l" "2 \<le> n" "k < 8" "0 < t" "t \<le> 2 * n"
  shows "in_bit a b n k t ((link_step ^^ (t - 1)) l)"
  using assms(4,5)
proof (induction t)
  case (Suc t)
  show ?case
  proof (cases "t = 0")
    case False
    then have i: "in_bit a b n k t ((link_step ^^ (t - 1)) l)" using Suc by simp
    have "link_step ((link_step ^^ (t - 1)) l) = (link_step ^^ t) l" using False by (cases t) simp_all
    moreover have "in_bit a b n k (Suc t) (link_step ((link_step ^^ (t - 1)) l))"
      by (cases "t = n") (use i False Suc.prems assms(2,3) in \<open>auto intro: link_idle link_mid\<close>)
    ultimately show ?thesis by simp
  qed (use assms(1) in simp)
qed simp

lemma link_bits:
  assumes "in_bit a b n 0 1 l" "2 \<le> n" "k < 8"
  shows "in_bit a b n k 1 ((link_step ^^ (2 * n * k)) l)"
  using assms(3)
proof (induction k)
  case (Suc k)
  let ?l = "(link_step ^^ (2 * n * k)) l"
  have "in_bit a b n k 1 ?l" using Suc by simp
  then have "in_bit a b n k (2 * n) ((link_step ^^ (2 * n - 1)) ?l)" using assms(2) Suc.prems by (intro link_bit) auto
  then have "in_bit a b n (Suc k) 1 (link_step ((link_step ^^ (2 * n - 1)) ?l))"
    using assms(2) Suc.prems by (intro link_next) auto
  moreover have "link_step ((link_step ^^ (2 * n - 1)) ?l) = (link_step ^^ (Suc (2 * n - 1) + 2 * n * k)) l"
    by (simp only: funpow_add funpow.simps comp_apply)
  moreover have "Suc (2 * n - 1) + 2 * n * k = 2 * n * Suc k" using assms(2) by simp
  ultimately show ?case by (simp only:)
qed (use assms(1) in simp)

text \<open>
  The whole transfer: \<open>8 \<cdot> 2 n\<close> cycles for the bits and one for the end, for every clock polarity and
  phase, data order and divisor of at least two.
\<close>

lemma link_exchange:
  assumes "bitcnt m = 0" "clkcnt m = 0" "2 \<le> clkdiv m"
    and s: "bitcnt s = 0" "shift_in s = 0" "\<not> finished s" "oldsck s = bit (spcr m) CPOL"
    and c: "\<forall>i \<in> {DORD, CPOL, CPHA}. bit (spcr s) i = bit (spcr m) i"
  shows "exchanged (data_write m) (data_write s) ((link_step ^^ (16 * clkdiv m + 1)) (m, s, sck, mosi, miso))"
proof -
  let ?n = "clkdiv m" and ?l = "(m, s, sck, mosi, miso)" and ?a = "data_write m" and ?b = "data_write s"
  have "in_bit ?a ?b ?n 0 1 (link_step ?l)" by (rule link_first [OF assms(1,2) refl assms(3) refl s(1-3) refl s(4) c])
  then have "in_bit ?a ?b ?n 7 1 ((link_step ^^ (2 * ?n * 7)) (link_step ?l))" using assms(3) by (intro link_bits) auto
  then have "in_bit ?a ?b ?n 7 (2 * ?n) ((link_step ^^ (2 * ?n - 1)) ((link_step ^^ (2 * ?n * 7)) (link_step ?l)))"
    using assms(3) by (intro link_bit) auto
  then have "exchanged ?a ?b (link_step ((link_step ^^ (2 * ?n - 1)) ((link_step ^^ (2 * ?n * 7)) (link_step ?l))))"
    using assms(3) by (intro link_last)
  moreover have "link_step ((link_step ^^ (2 * ?n - 1)) ((link_step ^^ (2 * ?n * 7)) (link_step ?l))) =
      (link_step ^^ (Suc (2 * ?n - 1) + 2 * ?n * 7 + 1)) ?l"
    by (simp only: funpow_add funpow.simps comp_apply One_nat_def id_apply)
  moreover have "Suc (2 * ?n - 1) + 2 * ?n * 7 + 1 = 16 * ?n + 1" using assms(3) by simp
  ultimately show ?thesis by (simp only:)
qed

end
