(* ===== verification/Avr_Level.thy ===== *)
theory Avr_Level
  imports Avr_Part
begin

text \<open>
  The levels at the pins of free ports. On a \<open>settled\<close> board the output stages and the PIN registers
  are up to date; changing the alternate function of one pin keeps a board settled and changes the
  level of no other pin.
\<close>

definition on_port :: "('f, 'w) board \<Rightarrow> pin_at_port \<Rightarrow> bool" where
  "on_port b pp \<longleftrightarrow> pa_pinNo pp < length (portPins (bports b (pa_port pp)))"

abbreviation the_pin :: "('f, 'w) board \<Rightarrow> pin_at_port \<Rightarrow> nat" where
  "the_pin b pp \<equiv> portPins (bports b (pa_port pp)) ! pa_pinNo pp"

definition settled :: "('f, 'w) board \<Rightarrow> bool" where
  "settled b \<longleftrightarrow> board_free b \<and>
     (\<forall>pp. on_port b pp \<longrightarrow> outState (bpins b (the_pin b pp)) = out_state (bports b (pa_port pp)) (pa_pinNo pp) \<and>
        PinAtPort_bool pp b = Pin_bool (bpins b (the_pin b pp)))"

lemma PinAtPort_bool_bit: "PinAtPort_bool pp b = bit (pin (bports b (pa_port pp))) (pa_pinNo pp)"
  by (simp add: PinAtPort_bool_def bit_iff_and_drop_bit_eq_1 and_one_eq odd_iff_mod_2_eq_one)

lemma out_state_pin [simp]: "out_state (q\<lparr>pin := x\<rparr>) k = out_state q k"
  by (simp add: out_state_def)

lemma settledD:
  assumes "settled b" "on_port b pp"
  shows "board_free b" "outState (bpins b (the_pin b pp)) = out_state (bports b (pa_port pp)) (pa_pinNo pp)"
    "PinAtPort_bool pp b = Pin_bool (bpins b (the_pin b pp))"
  using assms by (simp_all add: settled_def)

lemma the_pin_inj:
  assumes "board_free b" "on_port b pp" "on_port b pp'" "the_pin b pp = the_pin b pp'"
  shows "pp = pp'"
proof -
  have f: "port_free b n" for n using assms(1) by (simp add: board_free_def)
  have "pa_port pp = pa_port pp'"
    using f [of "pa_port pp"] f [of "pa_port pp'"] assms(2-4) by (auto simp: port_free_def Let_def on_port_def at_bit_def)
  moreover have "pa_pinNo pp = pa_pinNo pp'"
    using f [of "pa_port pp"] assms(2-4) \<open>pa_port pp = pa_port pp'\<close>
    by (auto simp: port_free_def Let_def on_port_def nth_eq_iff_index_eq)
  ultimately show ?thesis by (cases pp; cases pp') simp
qed

text \<open>A change of one bit of an alternate function, at \<open>pp\<close>.\<close>

lemma PinAtPort_settled:
  assumes s: "settled b" and pp: "on_port b pp"
    and laws: "\<And>q. portPins (upd q) = portPins q" "\<And>q. portMask (upd q) = portMask q"
    and other: "\<And>q k. k \<noteq> pa_pinNo pp \<Longrightarrow> out_state (upd q) k = out_state q k"
  obtains c x where "sq (modify (upd_port (pa_port pp) upd)) (CalcOutputs L (pa_port pp)) b = Inr ((), c)" "settled c"
    "bports c = (bports b)(pa_port pp := (upd (bports b (pa_port pp)))\<lparr>pin := x\<rparr>)"
    "\<And>pp'. on_port b pp' \<Longrightarrow> pp' \<noteq> pp \<Longrightarrow> PinAtPort_bool pp' c = PinAtPort_bool pp' b"
proof -
  let ?n = "pa_port pp"
  let ?ps = "portPins (bports b ?n)" and ?b0 = "upd_port ?n upd b"
  let ?o = "set_outputs ?n ?b0"
  have bf: "port_free b m" for m using s by (simp add: settled_def board_free_def)
  have po: "bports ?o = bports ?b0" by (simp add: set_outputs_def upd_pins_other)
  have d: "distinct ?ps" using bf [of ?n] by (simp add: port_free_def Let_def)
  have nth: "bpins ?o (?ps ! k) = (bpins b (?ps ! k))\<lparr>outState := out_state (upd (bports b ?n)) k\<rparr>" if "k < length ?ps" for k
    using upd_pins_nth [OF d that, of "\<lambda>k p. p\<lparr>outState := out_state (upd (bports b ?n)) k\<rparr>" 0 ?b0]
    by (simp add: set_outputs_def laws)
  have rest: "bpins ?o i = bpins b i" if "i \<notin> set ?ps" for i
    using that by (simp add: set_outputs_def laws upd_pins_other)
  have sel: "\<exists>s. bpins ?o i = (bpins b i)\<lparr>outState := s\<rparr>" for i
  proof (cases "i \<in> set ?ps")
    case True
    then show ?thesis using nth by (metis in_set_conv_nth)
  next
    case False
    then have "bpins ?o i = (bpins b i)\<lparr>outState := outState (bpins b i)\<rparr>" using rest by simp
    then show ?thesis by blast
  qed
  have sels: "pinOfPort (bpins ?o i) = pinOfPort (bpins b i)" "pin_mask (bpins ?o i) = pin_mask (bpins b i)"
    "notifyList (bpins ?o i) = notifyList (bpins b i)" "connectedTo (bpins ?o i) = connectedTo (bpins b i)" for i
    using sel [of i] by auto
  have fo: "port_free ?o m" for m
    using bf [of m] by (cases "m = ?n") (simp_all add: port_free_def Let_def po laws at_bit_def free_pin_def quiet_def sels)
  obtain x where x: "Port_CalcPin L ?n ?o = Inr ((), upd_port ?n (\<lambda>q. q\<lparr>pin := x\<rparr>) ?o)"
    "\<forall>k < length ?ps. bit x k \<longleftrightarrow> Pin_bool (bpins ?o (?ps ! k))"
    using Port_CalcPin_run [OF fo [of ?n], of L] po laws by auto
  let ?c = "upd_port ?n (\<lambda>q. q\<lparr>pin := x\<rparr>) ?o"
  have run: "sq (modify (upd_port ?n upd)) (CalcOutputs L ?n) b = Inr ((), ?c)"
    using x(1) by (simp add: CalcOutputs_def)
  have ports: "bports ?c = (bports b)(?n := (upd (bports b ?n))\<lparr>pin := x\<rparr>)" by (auto simp: po)
  have "port_free ?c m" for m
    using fo [of m] by (cases "m = ?n") (simp_all add: port_free_def Let_def at_bit_def free_pin_def quiet_def)
  then have free: "board_free ?c" by (simp add: board_free_def)
  have pins: "portPins (bports ?c m) = portPins (bports b m)" for m using ports laws by simp
  have onp: "on_port ?c q = on_port b q" for q unfolding on_port_def pins ..
  have other_pin: "bpins ?c (the_pin b q) = bpins b (the_pin b q)" if "on_port b q" "pa_port q \<noteq> ?n" for q
  proof -
    have "pinOfPort (bpins b (the_pin b q)) = Some (pa_port q)"
      using bf [of "pa_port q"] that by (simp add: port_free_def Let_def on_port_def at_bit_def)
    moreover have "pinOfPort (bpins b i) = Some ?n" if "i \<in> set ?ps" for i
      using bf [of ?n] that by (auto simp: port_free_def Let_def at_bit_def in_set_conv_nth)
    ultimately have "the_pin b q \<notin> set ?ps" using that(2) by auto
    then show ?thesis using rest by simp
  qed
  have "settled ?c" unfolding settled_def
  proof (intro conjI allI impI free)
    fix q assume q: "on_port ?c q"
    then have qb: "on_port b q" using onp by simp
    have k: "pa_port q = ?n \<Longrightarrow> pa_pinNo q < length ?ps" using qb by (simp add: on_port_def)
    show "outState (bpins ?c (the_pin ?c q)) = out_state (bports ?c (pa_port q)) (pa_pinNo q)"
      unfolding pins using settledD(2) [OF s qb] other_pin [OF qb] nth [OF k] ports by (cases "pa_port q = ?n") simp_all
    show "PinAtPort_bool q ?c = Pin_bool (bpins ?c (the_pin ?c q))"
      unfolding pins using settledD(3) [OF s qb] other_pin [OF qb] x(2) k ports
      by (cases "pa_port q = ?n") (simp_all add: PinAtPort_bool_bit)
  qed
  moreover have "PinAtPort_bool q ?c = PinAtPort_bool q b" if q: "on_port b q" "q \<noteq> pp" for q
  proof (cases "pa_port q = ?n")
    case True
    then have k: "pa_pinNo q < length ?ps" "pa_pinNo q \<noteq> pa_pinNo pp" using q by (auto simp: on_port_def)
    have "bpins ?o (the_pin b q) = bpins b (the_pin b q)"
      using nth [OF k(1)] other [OF k(2)] settledD(2) [OF s q(1)] True by simp
    then show ?thesis using x(2) k(1) True settledD(3) [OF s q(1)] ports by (simp add: PinAtPort_bool_bit)
  next
    case False
    then show ?thesis using ports by (simp add: PinAtPort_bool_bit)
  qed
  ultimately show thesis using that run ports by blast
qed

section \<open>Output pins\<close>

text \<open>The same board up to the alternate outputs and the levels; a pin that an alternate function drives.\<close>

definition same_wiring :: "('f, 'w) board \<Rightarrow> ('f, 'w) board \<Rightarrow> bool" where
  "same_wiring b c \<longleftrightarrow> (\<forall>n. \<exists>x y. bports c n = (bports b n)\<lparr>pin := x, alternatePort := y\<rparr>)"

definition drives_pin :: "('f, 'w) board \<Rightarrow> pin_at_port \<Rightarrow> bool" where
  "drives_pin b pp \<longleftrightarrow> bit (useAlternatePortIfDdrSet (bports b (pa_port pp))) (pa_pinNo pp) \<and>
     bit (ddr (bports b (pa_port pp))) (pa_pinNo pp)"

lemma same_wiring_refl [simp]: "same_wiring b b"
proof -
  have "bports b n = (bports b n)\<lparr>pin := pin (bports b n), alternatePort := alternatePort (bports b n)\<rparr>" for n by simp
  then show ?thesis unfolding same_wiring_def by blast
qed

lemma same_wiring_trans: "same_wiring a b \<Longrightarrow> same_wiring b c \<Longrightarrow> same_wiring a c"
  unfolding same_wiring_def
proof
  fix n
  assume "\<forall>n. \<exists>x y. bports b n = (bports a n)\<lparr>pin := x, alternatePort := y\<rparr>" "\<forall>n. \<exists>x y. bports c n = (bports b n)\<lparr>pin := x, alternatePort := y\<rparr>"
  then obtain x y u v where "bports b n = (bports a n)\<lparr>pin := x, alternatePort := y\<rparr>"
    "bports c n = (bports b n)\<lparr>pin := u, alternatePort := v\<rparr>" by blast
  then have "bports c n = (bports a n)\<lparr>pin := u, alternatePort := v\<rparr>" by simp
  then show "\<exists>x y. bports c n = (bports a n)\<lparr>pin := x, alternatePort := y\<rparr>" by blast
qed

lemma same_wiring_simps:
  assumes "same_wiring b c"
  shows "on_port c pp = on_port b pp" "drives_pin c pp = drives_pin b pp" "the_pin c pp = the_pin b pp"
    "ddr (bports c n) = ddr (bports b n)"
proof -
  have p: "portPins (bports c m) = portPins (bports b m)" "ddr (bports c m) = ddr (bports b m)"
      "useAlternatePortIfDdrSet (bports c m) = useAlternatePortIfDdrSet (bports b m)" for m
  proof -
    obtain x y where "bports c m = (bports b m)\<lparr>pin := x, alternatePort := y\<rparr>"
      using assms unfolding same_wiring_def by blast
    then show "portPins (bports c m) = portPins (bports b m)" "ddr (bports c m) = ddr (bports b m)"
      "useAlternatePortIfDdrSet (bports c m) = useAlternatePortIfDdrSet (bports b m)" by simp_all
  qed
  show "on_port c pp = on_port b pp" "drives_pin c pp = drives_pin b pp" "the_pin c pp = the_pin b pp"
      "ddr (bports c n) = ddr (bports b n)"
    by (simp_all add: on_port_def drives_pin_def p)
qed

lemma wp_SetAlternatePort:
  assumes s: "settled (pboard d)" and pp: "on_port (pboard d) pp"
    and post: "\<And>b. settled b \<Longrightarrow> same_wiring (pboard d) b \<Longrightarrow>
      (\<And>q. on_port (pboard d) q \<Longrightarrow> q \<noteq> pp \<Longrightarrow> PinAtPort_bool q b = PinAtPort_bool q (pboard d)) \<Longrightarrow>
      (drives_pin (pboard d) pp \<Longrightarrow> PinAtPort_bool pp b = v) \<Longrightarrow> Q () (d\<lparr>pboard := b\<rparr>)"
  shows "wp (on_pboard (SetAlternatePort L pp v)) Q d"
proof -
  let ?b = "pboard d" and ?upd = "alternatePort_update (SetVal (pa_pinNo pp) v)"
  have j: "pa_pinNo pp < 8"
  proof -
    have "port_free ?b (pa_port pp)" using s by (simp add: settled_def board_free_def)
    then show ?thesis using pp by (simp add: port_free_def Let_def on_port_def)
  qed
  obtain c x where c: "sq (modify (upd_port (pa_port pp) ?upd)) (CalcOutputs L (pa_port pp)) ?b = Inr ((), c)" "settled c"
    "bports c = (bports ?b)(pa_port pp := (?upd (bports ?b (pa_port pp)))\<lparr>pin := x\<rparr>)"
    "\<And>q. on_port ?b q \<Longrightarrow> q \<noteq> pp \<Longrightarrow> PinAtPort_bool q c = PinAtPort_bool q ?b"
    by (rule PinAtPort_settled [OF s pp, where upd = ?upd and L = L]) (use j in \<open>auto simp: out_state_def bit_SetVal Let_def\<close>)
  have w: "same_wiring ?b c" unfolding same_wiring_def
  proof
    fix n
    have "bports c n = (bports ?b n)\<lparr>pin := if n = pa_port pp then x else pin (bports ?b n),
        alternatePort := if n = pa_port pp then SetVal (pa_pinNo pp) v (alternatePort (bports ?b n)) else alternatePort (bports ?b n)\<rparr>"
      unfolding c(3) by simp
    then show "\<exists>x y. bports c n = (bports ?b n)\<lparr>pin := x, alternatePort := y\<rparr>" by blast
  qed
  have "PinAtPort_bool pp c = v" if "drives_pin ?b pp"
  proof -
    have "out_state (bports c (pa_port pp)) (pa_pinNo pp) = (if v then HIGH else LOW)"
      unfolding c(3) using that j by (simp add: out_state_def drives_pin_def bit_SetVal)
    then show ?thesis
      using settledD(2,3) [OF c(2), of pp] pp same_wiring_simps(1) [OF w] by (simp add: Pin_bool_def)
  qed
  then show ?thesis using c(1) post [OF c(2) w c(4)]
    by (intro wpI [where x = "()" and t = "d\<lparr>pboard := c\<rparr>"]) (simp_all add: SetAlternatePort_def PinAtPort_set_def)
qed

section \<open>Input pins\<close>

text \<open>A pin that is not driven takes the level of the net that it is connected to.\<close>

lemma SetInState_settled:
  assumes s: "settled b" and pp: "on_port b pp"
    and inp: "outState (bpins b (the_pin b pp)) = TRISTATE \<or> outState (bpins b (the_pin b pp)) = PULLUP"
  obtains c where "SetInState L (the_pin b pp) (Pin (if v then HIGH else LOW)) b = Inr ((), c)" "settled c"
    "same_wiring b c" "\<And>q. on_port b q \<Longrightarrow> PinAtPort_bool q c = (if q = pp then v else PinAtPort_bool q b)"
    "\<And>i. outState (bpins c i) = outState (bpins b i)"
proof -
  let ?i = "the_pin b pp" and ?p = "Pin (if v then HIGH else LOW)"
  let ?c = "in_state ?i ?p b"
  have f: "port_free b (pa_port pp)" "board_free b" using s by (simp_all add: settled_def board_free_def)
  have at: "at_bit b ?i (pa_port pp) (pa_pinNo pp)" and q: "quiet b ?i"
    using f(1) pp by (auto simp: port_free_def Let_def on_port_def free_pin_def)
  have ports: "\<exists>x. bports ?c n = (bports b n)\<lparr>pin := x\<rparr>" for n
  proof -
    have e: "\<exists>x. bports b n = (bports b n)\<lparr>pin := x\<rparr>" by (rule exI [of _ "pin (bports b n)"]) simp
    show ?thesis unfolding in_state_def Let_def by (cases "pinOfPort (bpins b ?i)") (auto intro: e)
  qed
  have sels: "portPins (bports ?c n) = portPins (bports b n)" "portMask (bports ?c n) = portMask (bports b n)"
      "out_state (bports ?c n) k = out_state (bports b n) k" for n k
  proof -
    obtain x where "bports ?c n = (bports b n)\<lparr>pin := x\<rparr>" using ports by blast
    then show "portPins (bports ?c n) = portPins (bports b n)" "portMask (bports ?c n) = portMask (bports b n)"
      "out_state (bports ?c n) k = out_state (bports b n) k" by simp_all
  qed
  have w: "same_wiring b ?c" unfolding same_wiring_def
  proof
    fix n
    obtain x where "bports ?c n = (bports b n)\<lparr>pin := x\<rparr>" using ports by blast
    then have "bports ?c n = (bports b n)\<lparr>pin := x, alternatePort := alternatePort (bports b n)\<rparr>" by simp
    then show "\<exists>x y. bports ?c n = (bports b n)\<lparr>pin := x, alternatePort := y\<rparr>" by blast
  qed
  have lv: "PinAtPort_bool q' ?c = (if q' = pp then v else PinAtPort_bool q' b)" for q'
    using in_state_bit [OF at, of ?p "pa_port q'" "pa_pinNo q'"]
    by (cases q'; cases pp) (auto simp: PinAtPort_bool_bit Pin_bool_def Pin_def)
  have "settled ?c" unfolding settled_def
  proof (intro conjI allI impI)
    have "port_free ?c n" for n
    proof -
      have "port_free b n" using f(2) by (simp add: board_free_def)
      then show ?thesis by (simp add: port_free_def Let_def sels free_pin_def)
    qed
    then show "board_free ?c" by (simp add: board_free_def)
    fix q' assume q': "on_port ?c q'"
    then have qb: "on_port b q'" using same_wiring_simps(1) [OF w] by simp
    show "outState (bpins ?c (the_pin ?c q')) = out_state (bports ?c (pa_port q')) (pa_pinNo q')"
      using settledD(2) [OF s qb] by (simp add: sels)
    show "PinAtPort_bool q' ?c = Pin_bool (bpins ?c (the_pin ?c q'))"
    proof (cases "q' = pp")
      case True
      then show ?thesis using inp lv [of q'] by (auto simp: Pin_bool_def sels Pin_def setD_def state_level_def)
    next
      case False
      then have "the_pin b q' \<noteq> ?i" using the_pin_inj [OF f(2) qb pp] by auto
      then have "bpins ?c (the_pin b q') = bpins b (the_pin b q')"
        by (auto simp: in_state_def Let_def split: option.splits)
      then show ?thesis using lv [of q'] False settledD(3) [OF s qb] by (simp add: sels)
    qed
  qed
  then show thesis using that [OF SetInState_run [OF q] _ w lv] by simp
qed

section \<open>An example\<close>

text \<open>A board with one port of four pins, for the examples; \<open>d\<close> is the data direction, all levels are low.\<close>

definition sample_board :: "byte \<Rightarrow> (int, unit) board" where
  "sample_board d =
     \<lparr>bpins = (\<lambda>i. (Pin (if bit d i then LOW else TRISTATE))\<lparr>analogVal := setD ST_GND, pinOfPort := Some 0, pin_mask := push_bit i 1\<rparr>),
      bnets = (\<lambda>_. []),
      bports = (\<lambda>n. \<lparr>port = 0, pin = 0, ddr = d, alternateDdr = 0, useAlternateDdr = 0, alternatePort = 0, useAlternatePort = 0,
        useAlternatePortIfDdrSet = d, portPins = (if n = 0 then [0..<4] else []), portMask = (if n = 0 then 15 else 0),
        portToggleFeature = False\<rparr>),
      bworld = ()\<rparr>"

lemma sample_board_port: "pa_port pp \<noteq> 0 \<Longrightarrow> \<not> on_port (sample_board d) pp"
  by (simp add: on_port_def sample_board_def)

lemma sample_settled: "settled (sample_board d)"
proof -
  have "port_free (sample_board d) n" for n
    by (auto simp: port_free_def sample_board_def Let_def at_bit_def free_pin_def quiet_def Pin_def mask_eq_exp_minus_1)
  then show ?thesis
    by (auto simp: settled_def board_free_def on_port_def sample_board_def out_state_def PinAtPort_bool_def Pin_bool_def
        Pin_def setD_def split: if_splits)
qed

end
