(* ===== verification/Avr_SpiBus.thy ===== *)
theory Avr_SpiBus
  imports Avr_SpiLink Avr_Level
begin

text \<open>
  The serial peripheral interface on a board: a clock cycle is a step of \<open>Avr_SpiLink\<close> on the levels
  of its pins, and two interfaces whose pins are wired together exchange their bytes.
\<close>

section \<open>A cycle on a board\<close>

abbreviation lev :: "(spi, 'f, 'w, 'hw) part_dev \<Rightarrow> pin_at_port \<Rightarrow> bool" where
  "lev d pp \<equiv> PinAtPort_bool pp (pboard d)"

definition spi_dev :: "(spi, 'f, 'w, 'hw) part_dev \<Rightarrow> bool" where
  "spi_dev d \<longleftrightarrow> (let s = part d; b = pboard d in settled b \<and> irqs_ok {irq_vector s} d \<and>
     distinct [MOSI s, MISO s, SCK s, SS s] \<and> on_port b (MOSI s) \<and> on_port b (MISO s) \<and> on_port b (SCK s) \<and> on_port b (SS s))"

text \<open>Neither pins nor configuration change.\<close>

definition same_conf :: "spi \<Rightarrow> spi \<Rightarrow> bool" where
  "same_conf s t \<longleftrightarrow> MOSI t = MOSI s \<and> MISO t = MISO s \<and> SCK t = SCK s \<and> SS t = SS s \<and> irq_vector t = irq_vector s \<and>
     spcr t = spcr s \<and> clkdiv t = clkdiv s"

lemma spi_dev_part: "spi_dev d \<Longrightarrow> same_conf (part d) s \<Longrightarrow> spi_dev (d\<lparr>part := s\<rparr>)"
  by (simp add: spi_dev_def same_conf_def Let_def)

lemma spi_dev_board: "spi_dev d \<Longrightarrow> settled b \<Longrightarrow> same_wiring (pboard d) b \<Longrightarrow> spi_dev (d\<lparr>pboard := b\<rparr>)"
  by (simp add: spi_dev_def Let_def same_wiring_simps)

lemma spi_devD:
  assumes "spi_dev d"
  shows "settled (pboard d)" "on_port (pboard d) (MOSI (part d))" "on_port (pboard d) (MISO (part d))"
    "on_port (pboard d) (SCK (part d))" "on_port (pboard d) (SS (part d))" "irqs_ok {irq_vector (part d)} d"
    "distinct [MOSI (part d), MISO (part d), SCK (part d), SS (part d)]"
  using assms by (simp_all add: spi_dev_def Let_def)

lemma same_conf_steps: "same_conf s (take_in l p s)" "same_conf s (end_frame s)" "same_conf s (fst (master_step l s))"
    "same_conf s (fst (slave_step c l s))"
  by (auto simp: same_conf_def take_in_def end_frame_def master_step_def slave_step_def Let_def)

text \<open>
  \<open>moved d P d'\<close>: the board of \<open>d'\<close> is that of \<open>d\<close> up to the levels at the pins in \<open>P\<close>.
\<close>

definition moved :: "(spi, 'f, 'w, 'hw) part_dev \<Rightarrow> pin_at_port set \<Rightarrow> (spi, 'f, 'w, 'hw) part_dev \<Rightarrow> bool" where
  "moved d P d' \<longleftrightarrow> spi_dev d' \<and> same_wiring (pboard d) (pboard d') \<and>
     (\<forall>q. on_port (pboard d) q \<longrightarrow> q \<notin> P \<longrightarrow> lev d' q = lev d q)"

lemma moved_refl: "spi_dev d \<Longrightarrow> moved d P d"
  by (simp add: moved_def)

lemma moved_trans:
  assumes "moved d P d'" "moved d' P' d''" "P \<union> P' \<subseteq> R"
  shows "moved d R d''"
  unfolding moved_def
proof (intro conjI allI impI)
  have w: "same_wiring (pboard d) (pboard d')" "same_wiring (pboard d') (pboard d'')" using assms by (simp_all add: moved_def)
  then show "same_wiring (pboard d) (pboard d'')" by (rule same_wiring_trans)
  fix q assume q: "on_port (pboard d) q" "q \<notin> R"
  then have "q \<notin> P" "q \<notin> P'" using assms(3) by blast+
  moreover have "on_port (pboard d') q" using q w by (simp add: same_wiring_simps)
  ultimately show "lev d'' q = lev d q" using assms(1,2) q by (simp add: moved_def)
qed (use assms(2) in \<open>simp add: moved_def\<close>)

lemma moved_part: "moved d P d' \<Longrightarrow> same_conf (part d') s \<Longrightarrow> moved d P (d'\<lparr>part := s\<rparr>)"
  by (simp add: moved_def spi_dev_part)

lemma wp_out:
  assumes d: "spi_dev d" and pp: "on_port (pboard d) pp"
    and post: "\<And>d'. moved d {pp} d' \<Longrightarrow> part d' = part d \<Longrightarrow> requests d' = requests d \<Longrightarrow>
      (drives_pin (pboard d) pp \<Longrightarrow> lev d' pp = v) \<Longrightarrow> Q () d'"
  shows "wp (on_pboard (SetAlternatePort L pp v)) Q d"
  by (rule wp_SetAlternatePort [OF spi_devD(1) [OF d] pp])
    (use d in \<open>auto intro!: post simp: moved_def spi_dev_board\<close>)

lemma wp_txbit:
  assumes d: "spi_dev d" and out: "out = (if bit (spcr (part d)) MSTR then MOSI (part d) else MISO (part d))"
    and post: "\<And>d'. moved d {out} d' \<Longrightarrow> part d' = part d \<Longrightarrow> requests d' = requests d \<Longrightarrow>
      (drives_pin (pboard d) out \<Longrightarrow> lev d' out = bit (data_write (part d)) pos) \<Longrightarrow> Q () d'"
  shows "wp (txbit E pos) Q d"
  unfolding txbit_def wp_bnd wp_basic prod.case out [symmetric]
  by (rule wp_out [OF d]) (use spi_devD(2,3) [OF d] in \<open>auto simp: out intro!: post [unfolded out]\<close>)

lemma wp_rxbit:
  assumes d: "spi_dev d"
    and post: "Q () (d\<lparr>part := take_in (lev d (if bit (spcr (part d)) MSTR then MISO (part d) else MOSI (part d))) pos (part d)\<rparr>)"
  shows "wp (rxbit pos) Q d"
  using post unfolding rxbit_def wp_bnd wp_basic take_in_def by (simp add: wp_whenM wp_basic split: if_splits)

lemma wp_request_spi:
  assumes d: "spi_dev d"
    and post: "\<And>d'. moved d {} d' \<Longrightarrow> part d' = part d \<Longrightarrow> pboard d' = pboard d \<Longrightarrow>
      requests d' = requests d \<union> (if bit (spcr (part d)) SPIE then {irq_vector (part d)} else {}) \<Longrightarrow> Q () d'"
  shows "wp (request_spi E) Q d"
  unfolding request_spi_def wp_bnd wp_basic prod.case
proof (rule wp_whenI)
  assume "bit (spcr (part d)) SPIE"
  then show "wp (set_irq E (irq_vector (part d))) Q d"
    by (intro wp_set_irq_irqs [OF spi_devD(6) [OF d]] post) (use d in \<open>simp_all add: moved_def spi_dev_def Let_def\<close>)
qed (use d in \<open>auto intro: post moved_refl\<close>)

lemma wp_trxend:
  assumes d: "spi_dev d"
    and post: "\<And>d'. moved d {} d' \<Longrightarrow> part d' = end_frame (part d) \<Longrightarrow> pboard d' = pboard d \<Longrightarrow>
      requests d' = requests d \<union> (if finished (part d) \<and> bit (spcr (part d)) SPIE then {irq_vector (part d)} else {}) \<Longrightarrow> Q () d'"
  shows "wp (trxend E) Q d"
  unfolding trxend_def wp_bnd wp_basic
proof (rule wp_whenI, unfold wp_sq wp_basic, goal_cases)
  case 1
  let ?s = "(part d)\<lparr>finished := False, data_write := shift_in (part d), data_read := shift_in (part d), spsr := set_bit SPIF (spsr (part d))\<rparr>"
  have c: "same_conf (part d) ?s" by (simp add: same_conf_def)
  show ?case
  proof (rule wp_request_spi [OF spi_dev_part [OF d c]], goal_cases)
    case (1 d')
    have "moved d {} (d'\<lparr>part := (part d')\<lparr>spsr_read := False\<rparr>\<rparr>)"
      by (rule moved_part) (use 1 in \<open>simp_all add: moved_def same_conf_def\<close>)
    then show ?case using 1 \<open>finished (part d)\<close> by (intro post) (simp_all add: end_frame_def)
  qed
next
  case 2
  then show ?case using d by (intro post) (simp_all add: moved_refl end_frame_def)
qed

definition after :: "bool \<Rightarrow> bool option \<Rightarrow> bool" where
  "after v out = (case out of None \<Rightarrow> v | Some w \<Rightarrow> w)"

lemma after_simps [simp]: "after v None = v" "after v (Some w) = w"
  by (simp_all add: after_def)

text \<open>The configuration of a master whose SS pin leaves it alone, and of a selected slave.\<close>

definition master_ready :: "(spi, 'f, 'w, 'hw) part_dev \<Rightarrow> bool" where
  "master_ready d \<longleftrightarrow> (let s = part d; b = pboard d in spi_dev d \<and> bit (spcr s) SPE \<and> bit (spcr s) MSTR \<and>
     drives_pin b (SCK s) \<and> drives_pin b (MOSI s) \<and> (PinAtPort_GetDdr (SS s) b \<or> lev d (SS s)))"

definition slave_ready :: "(spi, 'f, 'w, 'hw) part_dev \<Rightarrow> bool" where
  "slave_ready d \<longleftrightarrow> (let s = part d; b = pboard d in spi_dev d \<and> bit (spcr s) SPE \<and> \<not> bit (spcr s) MSTR \<and>
     drives_pin b (MISO s) \<and> \<not> lev d (SS s))"

text \<open>The output of the clock and then of a bit, or the sampling of one.\<close>

lemma wp_clock_tx:
  assumes d: "spi_dev d" and m: "bit (spcr (part d)) MSTR" "drives_pin (pboard d) (SCK (part d))" "drives_pin (pboard d) (MOSI (part d))"
    and post: "\<And>d'. moved d {SCK (part d), MOSI (part d)} d' \<Longrightarrow> part d' = part d \<Longrightarrow> requests d' = requests d \<Longrightarrow>
      lev d' (SCK (part d)) = v \<Longrightarrow> lev d' (MOSI (part d)) = bit (data_write (part d)) pos \<Longrightarrow> Q () d'"
  shows "wp (on_pboard (SetAlternatePort L (SCK (part d)) v)) (\<lambda>_. wp (txbit E pos) Q) d"
proof (rule wp_out [OF d spi_devD(4) [OF d]])
  fix e assume e: "moved d {SCK (part d)} e" "part e = part d" "requests e = requests d"
    "drives_pin (pboard d) (SCK (part d)) \<Longrightarrow> lev e (SCK (part d)) = v"
  have e': "spi_dev e" "same_wiring (pboard d) (pboard e)" using e(1) by (simp_all add: moved_def)
  show "wp (txbit E pos) Q e"
  proof (rule wp_txbit [OF e'(1) refl], unfold e(2))
    fix e2 assume e2: "moved e {if bit (spcr (part d)) MSTR then MOSI (part d) else MISO (part d)} e2" "part e2 = part d"
      "requests e2 = requests e"
      "drives_pin (pboard e) (if bit (spcr (part d)) MSTR then MOSI (part d) else MISO (part d)) \<Longrightarrow>
        lev e2 (if bit (spcr (part d)) MSTR then MOSI (part d) else MISO (part d)) = bit (data_write (part d)) pos"
    have "lev e2 (SCK (part d)) = lev e (SCK (part d))"
      using e2(1) m(1) spi_devD(4,7) [OF d] by (auto simp: moved_def same_wiring_simps(1) [OF e'(2)])
    then show "Q () e2" using e e2 m moved_trans [OF e(1) e2(1)]
      by (intro post) (simp_all add: same_wiring_simps(2) [OF e'(2)])
  qed
qed

lemma wp_clock_rx:
  assumes d: "spi_dev d" and m: "bit (spcr (part d)) MSTR" "drives_pin (pboard d) (SCK (part d))"
    and post: "\<And>d'. moved d {SCK (part d)} d' \<Longrightarrow> part d' = take_in (lev d (MISO (part d))) pos (part d) \<Longrightarrow>
      requests d' = requests d \<Longrightarrow> lev d' (SCK (part d)) = v \<Longrightarrow> Q () d'"
  shows "wp (on_pboard (SetAlternatePort L (SCK (part d)) v)) (\<lambda>_. wp (rxbit pos) Q) d"
proof (rule wp_out [OF d spi_devD(4) [OF d]])
  fix e assume e: "moved d {SCK (part d)} e" "part e = part d" "requests e = requests d"
    "drives_pin (pboard d) (SCK (part d)) \<Longrightarrow> lev e (SCK (part d)) = v"
  have "lev e (MISO (part d)) = lev d (MISO (part d))"
    using e(1) spi_devD(3,7) [OF d] by (auto simp: moved_def)
  moreover have "moved d {SCK (part d)} (e\<lparr>part := take_in b pos (part d)\<rparr>)" for b
    by (rule moved_part [OF e(1)]) (simp add: e(2) same_conf_steps)
  ultimately show "wp (rxbit pos) Q e"
    using e m by (intro wp_rxbit) (auto simp: moved_def intro!: post)
qed

lemma wp_master_first:
  assumes d: "spi_dev d" and m: "bit (spcr (part d)) MSTR" "drives_pin (pboard d) (SCK (part d))" "drives_pin (pboard d) (MOSI (part d))"
    and post: "\<And>d'. moved d {SCK (part d), MOSI (part d)} d' \<Longrightarrow> requests d' = requests d \<Longrightarrow>
      part d' = (if bit (spcr (part d)) CPHA \<and> 0 < bitcnt (part d) then take_in (lev d (MISO (part d))) pos_prec (part d) else part d) \<Longrightarrow>
      lev d' (SCK (part d)) = bit (spcr (part d)) CPOL \<Longrightarrow>
      lev d' (MOSI (part d)) = (if bit (spcr (part d)) CPHA then lev d (MOSI (part d)) else bit (data_write (part d)) pos) \<Longrightarrow> Q () d'"
  shows "wp (master_first E pos pos_prec) Q d"
proof -
  have ne: "lev d' (MOSI (part d)) = lev d (MOSI (part d))" if "moved d {SCK (part d)} d'" for d'
    using that spi_devD(2,7) [OF d] by (auto simp: moved_def)
  have sub: "moved d {SCK (part d), MOSI (part d)} d'" if "moved d {SCK (part d)} d'" for d'
    using that by (simp add: moved_def)
  show ?thesis unfolding master_first_def
  proof (rule wp_getsI, unfold prod.case, rule wp_sqI, cases "bit (spcr (part d)) CPHA")
    case False
    then show "wp (on_pboard (SetAlternatePort (pe_listener E) (SCK (part d)) (bit (spcr (part d)) CPOL)))
        (\<lambda>_. wp (if bit (spcr (part d)) CPHA then whenM (0 < bitcnt (part d)) (rxbit pos_prec) else txbit E pos) Q) d"
      by (simp only: if_False) (rule wp_clock_tx [OF d m], rule post, simp_all)
  next
    case True
    show "wp (on_pboard (SetAlternatePort (pe_listener E) (SCK (part d)) (bit (spcr (part d)) CPOL)))
        (\<lambda>_. wp (if bit (spcr (part d)) CPHA then whenM (0 < bitcnt (part d)) (rxbit pos_prec) else txbit E pos) Q) d"
    proof (cases "0 < bitcnt (part d)")
      case later: True
      show ?thesis unfolding whenM_def using True later
        by (simp only: if_True) (rule wp_clock_rx [OF d m(1,2)], rule post, simp_all add: sub ne)
    next
      case False
      then show ?thesis unfolding whenM_def using True m
        by (simp only: if_True if_False wp_basic)
          (rule wp_out [OF d spi_devD(4) [OF d]], rule post, simp_all add: sub ne)
    qed
  qed
qed

lemma wp_master_second:
  assumes d: "spi_dev d" and m: "bit (spcr (part d)) MSTR" "drives_pin (pboard d) (SCK (part d))" "drives_pin (pboard d) (MOSI (part d))"
    and post: "\<And>d'. moved d {SCK (part d), MOSI (part d)} d' \<Longrightarrow> requests d' = requests d \<Longrightarrow>
      part d' = (if bit (spcr (part d)) CPHA then part d else take_in (lev d (MISO (part d))) pos (part d))\<lparr>bitcnt := bitcnt (part d) + 1\<rparr> \<Longrightarrow>
      lev d' (SCK (part d)) = (\<not> bit (spcr (part d)) CPOL) \<Longrightarrow>
      lev d' (MOSI (part d)) = (if bit (spcr (part d)) CPHA then bit (data_write (part d)) pos else lev d (MOSI (part d))) \<Longrightarrow> Q () d'"
  shows "wp (master_second E pos) Q d"
proof -
  have ne: "lev d' (MOSI (part d)) = lev d (MOSI (part d))" if "moved d {SCK (part d)} d'" for d'
    using that spi_devD(2,7) [OF d] by (auto simp: moved_def)
  have sub: "moved d {SCK (part d), MOSI (part d)} (d'\<lparr>part := s\<rparr>)" if "moved d {SCK (part d)} d'" "same_conf (part d') s" for d' s
    using moved_part [OF that] by (simp add: moved_def)
  show ?thesis unfolding master_second_def
  proof (rule wp_getsI, unfold prod.case, rule wp_sqI, unfold wp_sq wp_basic, cases "bit (spcr (part d)) CPHA", goal_cases)
    case 1
    show ?case unfolding if_P [OF 1]
      by (rule wp_clock_tx [OF d m], rule post) (use 1 in \<open>auto simp: same_conf_def intro!: moved_part\<close>)
  next
    case 2
    show ?case unfolding if_not_P [OF 2]
      by (rule wp_clock_rx [OF d m(1,2)], rule post) (use 2 ne in \<open>auto simp: same_conf_def intro!: sub\<close>)
  qed
qed

lemma wp_master_end:
  assumes d: "spi_dev d" and m: "bit (spcr (part d)) MSTR" "drives_pin (pboard d) (SCK (part d))" "drives_pin (pboard d) (MOSI (part d))"
    and post: "\<And>d'. moved d {SCK (part d), MOSI (part d)} d' \<Longrightarrow>
      requests d' = requests d \<union> (if finished (part d) \<and> bit (spcr (part d)) SPIE then {irq_vector (part d)} else {}) \<Longrightarrow>
      part d' = end_frame (if bit (spcr (part d)) CPHA then take_in (lev d (MISO (part d))) pos_prec (part d) else part d) \<Longrightarrow>
      lev d' (SCK (part d)) = bit (spcr (part d)) CPOL \<Longrightarrow>
      lev d' (MOSI (part d)) = (if bit (spcr (part d)) CPHA then lev d (MOSI (part d)) else True) \<Longrightarrow> Q () d'"
  shows "wp (master_end E pos_prec) Q d"
proof -
  let ?s = "if bit (spcr (part d)) CPHA then take_in (lev d (MISO (part d))) pos_prec (part d) else part d"
  let ?d = "d\<lparr>part := ?s\<rparr>"
  have c: "same_conf (part d) ?s" using same_conf_steps(1) by (simp add: same_conf_def)
  have fin: "finished ?s = finished (part d)" by simp
  have d1: "spi_dev ?d" by (rule spi_dev_part [OF d c])
  have body: "wp (trxend E) (\<lambda>_. wp (on_pboard (SetAlternatePort (pe_listener E) (SCK (part d)) (bit (spcr (part d)) CPOL)))
      (\<lambda>_. wp (whenM (\<not> bit (spcr (part d)) CPHA) (on_pboard (SetAlternatePort (pe_listener E) (MOSI (part d)) True))) Q)) ?d"
  proof (rule wp_trxend [OF d1])
    fix e assume e: "moved ?d {} e" "part e = end_frame (part ?d)" "pboard e = pboard ?d"
      "requests e = requests ?d \<union> (if finished (part ?d) \<and> bit (spcr (part ?d)) SPIE then {irq_vector (part ?d)} else {})"
    have e': "spi_dev e" "pboard e = pboard d" using e by (simp_all add: moved_def)
    have me: "moved d {} e" using e' by (simp add: moved_def)
    have ce: "same_conf (part d) (part e)" using e(2) c same_conf_steps(2) [of ?s] by (simp add: same_conf_def)
    show "wp (on_pboard (SetAlternatePort (pe_listener E) (SCK (part d)) (bit (spcr (part d)) CPOL)))
      (\<lambda>_. wp (whenM (\<not> bit (spcr (part d)) CPHA) (on_pboard (SetAlternatePort (pe_listener E) (MOSI (part d)) True))) Q) e"
    proof (rule wp_out [OF e'(1)], unfold e'(2))
      show "on_port (pboard d) (SCK (part d))" by (rule spi_devD(4) [OF d])
      fix e2 assume e2: "moved e {SCK (part d)} e2" "part e2 = part e" "requests e2 = requests e"
        "drives_pin (pboard d) (SCK (part d)) \<Longrightarrow> lev e2 (SCK (part d)) = bit (spcr (part d)) CPOL"
      have m2: "moved d {SCK (part d)} e2" by (rule moved_trans [OF me e2(1)]) simp
      have w: "same_wiring (pboard d) (pboard e2)" "spi_dev e2" using m2 by (simp_all add: moved_def)
      have req: "requests e2 = requests d \<union> (if finished (part d) \<and> bit (spcr (part d)) SPIE then {irq_vector (part d)} else {})"
        using e2(3) e(4) c fin by (simp add: same_conf_def)
      have pt: "part e2 = end_frame ?s" using e2(2) e(2) by simp
      show "wp (whenM (\<not> bit (spcr (part d)) CPHA) (on_pboard (SetAlternatePort (pe_listener E) (MOSI (part d)) True))) Q e2"
      proof (rule wp_whenI)
        assume cpha: "\<not> bit (spcr (part d)) CPHA"
        show "wp (on_pboard (SetAlternatePort (pe_listener E) (MOSI (part d)) True)) Q e2"
        proof (rule wp_out [OF w(2)])
          show "on_port (pboard e2) (MOSI (part d))" using spi_devD(2) [OF d] same_wiring_simps(1) [OF w(1)] by simp
          fix e3 assume e3: "moved e2 {MOSI (part d)} e3" "part e3 = part e2" "requests e3 = requests e2"
            "drives_pin (pboard e2) (MOSI (part d)) \<Longrightarrow> lev e3 (MOSI (part d)) = True"
          have "lev e3 (SCK (part d)) = lev e2 (SCK (part d))"
            using e3(1) spi_devD(4,7) [OF d] by (auto simp: moved_def same_wiring_simps(1) [OF w(1)])
          then show "Q () e3" using e3 e2(4) m cpha req pt same_wiring_simps(2) [OF w(1)] moved_trans [OF m2 e3(1)]
            by (intro post) simp_all
        qed
      next
        assume cpha: "\<not> \<not> bit (spcr (part d)) CPHA"
        have "lev e2 (MOSI (part d)) = lev d (MOSI (part d))" using m2 spi_devD(2,7) [OF d] by (auto simp: moved_def)
        moreover have "moved d {SCK (part d), MOSI (part d)} e2" using m2 by (simp add: moved_def)
        ultimately show "Q () e2" using e2(4) m cpha req pt by (intro post) simp_all
      qed
    qed
  qed
  show ?thesis unfolding master_end_def
  proof (rule wp_getsI, unfold prod.case, rule wp_sqI, rule wp_whenI, goal_cases)
    case 1
    then show ?case using body m unfolding wp_sq by (intro wp_rxbit [OF d]) simp
  next
    case 2
    then show ?case using body unfolding wp_sq by simp
  qed
qed

text \<open>A cycle of a master.\<close>

definition master_done :: "spi \<Rightarrow> bool" where
  "master_done s \<longleftrightarrow> clkcnt s mod clkdiv s = 0 \<and> \<not> bitcnt s < 8 \<and> finished s"

lemma master_step_cases:
  fixes s :: spi
  defines "s1 \<equiv> if bitcnt s = 0 then s\<lparr>shift_in := 0\<rparr> else s"
  shows "clkcnt s mod clkdiv s = 0 \<Longrightarrow> bitcnt s < 8 \<Longrightarrow> odd (clkcnt s div clkdiv s) \<Longrightarrow> master_step l s =
      ((if bit (spcr s) CPHA then s1 else take_in l (bitpos s) s1)\<lparr>bitcnt := bitcnt s + 1, finished := (bitcnt s + 1 = 8), clkcnt := clkcnt s + 1\<rparr>,
       Some (\<not> bit (spcr s) CPOL), if bit (spcr s) CPHA then Some (bit (data_write s) (bitpos s)) else None)"
    "clkcnt s mod clkdiv s = 0 \<Longrightarrow> bitcnt s < 8 \<Longrightarrow> even (clkcnt s div clkdiv s) \<Longrightarrow> master_step l s =
      ((if bit (spcr s) CPHA \<and> 0 < bitcnt s then take_in l (bitpos_prec s) s1 else s1)\<lparr>finished := False, clkcnt := clkcnt s + 1\<rparr>,
       Some (bit (spcr s) CPOL), if bit (spcr s) CPHA then None else Some (bit (data_write s) (bitpos s)))"
    "clkcnt s mod clkdiv s = 0 \<Longrightarrow> \<not> bitcnt s < 8 \<Longrightarrow> finished s \<Longrightarrow> master_step l s =
      ((end_frame (if bit (spcr s) CPHA then take_in l (bitpos_prec s) s else s))\<lparr>clkcnt := clkcnt s + 1\<rparr>,
       Some (bit (spcr s) CPOL), if bit (spcr s) CPHA then None else Some True)"
    "clkcnt s mod clkdiv s \<noteq> 0 \<or> (\<not> bitcnt s < 8 \<and> \<not> finished s) \<Longrightarrow>
       master_step l s = (s\<lparr>clkcnt := clkcnt s + 1\<rparr>, None, None)"
  by (auto simp: master_step_def Let_def s1_def)

lemma wp_master_cycle:
  assumes r: "master_ready d"
    and st: "master_step (lev d (MISO (part d))) (part d) = (s', ck, mo)"
    and post: "\<And>d'. moved d {SCK (part d), MOSI (part d)} d' \<Longrightarrow> (part d')\<lparr>clkcnt := clkcnt (part d') + 1\<rparr> = s' \<Longrightarrow>
      requests d' = requests d \<union> (if master_done (part d) \<and> bit (spcr (part d)) SPIE then {irq_vector (part d)} else {}) \<Longrightarrow>
      lev d' (SCK (part d)) = after (lev d (SCK (part d))) ck \<Longrightarrow>
      lev d' (MOSI (part d)) = after (lev d (MOSI (part d))) mo \<Longrightarrow> Q () d'"
  shows "wp (master_cycle E (bitpos (part d)) (bitpos_prec (part d))) Q d"
proof -
  let ?s = "part d"
  have d: "spi_dev d" and m: "bit (spcr ?s) MSTR" "drives_pin (pboard d) (SCK ?s)" "drives_pin (pboard d) (MOSI ?s)"
    and ss: "\<not> (\<not> PinAtPort_GetDdr (SS ?s) (pboard d) \<and> \<not> lev d (SS ?s))"
    using r by (auto simp: master_ready_def Let_def)
  define s1 where "s1 = (if bitcnt ?s = 0 then ?s\<lparr>shift_in := 0\<rparr> else ?s)"
  let ?d = "d\<lparr>part := s1\<rparr>"
  have sel: "SCK s1 = SCK ?s" "MOSI s1 = MOSI ?s" "MISO s1 = MISO ?s" "spcr s1 = spcr ?s" "bitcnt s1 = bitcnt ?s"
    "data_write s1 = data_write ?s" "clkcnt s1 = clkcnt ?s" "clkdiv s1 = clkdiv ?s"
    by (simp_all add: s1_def)
  have d1: "spi_dev ?d" by (rule spi_dev_part [OF d]) (simp add: s1_def same_conf_def)
  have m1: "bit (spcr (part ?d)) MSTR" "drives_pin (pboard ?d) (SCK (part ?d))" "drives_pin (pboard ?d) (MOSI (part ?d))"
    using m by (simp_all add: sel)
  have mv: "moved d P (e\<lparr>part := (part e)\<lparr>finished := b\<rparr>\<rparr>)" if "moved ?d P e" for P e b
  proof -
    have "moved ?d P (e\<lparr>part := (part e)\<lparr>finished := b\<rparr>\<rparr>)" by (rule moved_part [OF that]) (simp add: same_conf_def)
    then show ?thesis by (simp add: moved_def)
  qed
  have bits: "wp (master_bit E (bitpos ?s) (bitpos_prec ?s)) Q d" if t: "clkcnt ?s mod clkdiv ?s = 0" "bitcnt ?s < 8"
    unfolding master_bit_def
  proof (rule wp_sqI, unfold wp_basic, fold s1_def, rule wp_sqI, rule wp_getsI, goal_cases)
    case 1
    show ?case
    proof (cases "odd (clkcnt s1 div clkdiv s1)")
      case True
      have "wp (master_second E (bitpos ?s)) (\<lambda>_. wp (upd_part (\<lambda>s. s\<lparr>finished := (bitcnt s = 8)\<rparr>)) Q) ?d"
      proof (rule wp_master_second [OF d1 m1], unfold wp_basic, goal_cases)
        case (1 e)
        note r = st [unfolded master_step_cases(1) [OF t True [unfolded sel], folded s1_def] prod.inject]
        show ?case
        proof (rule post)
          show "moved d {SCK ?s, MOSI ?s} (e\<lparr>part := (part e)\<lparr>finished := (bitcnt (part e) = 8)\<rparr>\<rparr>)"
            using mv [OF 1(1)] by (simp add: sel)
          show "(part (e\<lparr>part := (part e)\<lparr>finished := (bitcnt (part e) = 8)\<rparr>\<rparr>))\<lparr>clkcnt :=
              clkcnt (part (e\<lparr>part := (part e)\<lparr>finished := (bitcnt (part e) = 8)\<rparr>\<rparr>)) + 1\<rparr> = s'"
            using r 1(3) by (cases "bit (spcr ?s) CPHA") (auto simp: sel)
        qed (use 1 r t in \<open>auto simp: sel master_done_def\<close>)
      qed
      then show ?thesis using True by simp
    next
      case False
      have "wp (master_first E (bitpos ?s) (bitpos_prec ?s)) (\<lambda>_. wp (upd_part (\<lambda>s. s\<lparr>finished := (bitcnt s = 8)\<rparr>)) Q) ?d"
      proof (rule wp_master_first [OF d1 m1], unfold wp_basic, goal_cases)
        case (1 e)
        note r = st [unfolded master_step_cases(2) [OF t False [unfolded sel, simplified], folded s1_def] prod.inject]
        show ?case
        proof (rule post)
          show "moved d {SCK ?s, MOSI ?s} (e\<lparr>part := (part e)\<lparr>finished := (bitcnt (part e) = 8)\<rparr>\<rparr>)"
            using mv [OF 1(1)] by (simp add: sel)
          show "(part (e\<lparr>part := (part e)\<lparr>finished := (bitcnt (part e) = 8)\<rparr>\<rparr>))\<lparr>clkcnt :=
              clkcnt (part (e\<lparr>part := (part e)\<lparr>finished := (bitcnt (part e) = 8)\<rparr>\<rparr>)) + 1\<rparr> = s'"
            using r 1(3) t by (cases "bit (spcr ?s) CPHA \<and> 0 < bitcnt ?s") (auto simp: sel)
        qed (use 1 r t in \<open>auto simp: sel master_done_def\<close>)
      qed
      then show ?thesis using False by simp
    qed
  qed
  have fin: "wp (master_end E (bitpos_prec ?s)) Q d" if t: "clkcnt ?s mod clkdiv ?s = 0" "\<not> bitcnt ?s < 8" "finished ?s"
  proof (rule wp_master_end [OF d m])
    fix e assume e: "moved d {SCK ?s, MOSI ?s} e"
      "requests e = requests d \<union> (if finished ?s \<and> bit (spcr ?s) SPIE then {irq_vector ?s} else {})"
      "part e = end_frame (if bit (spcr ?s) CPHA then take_in (lev d (MISO ?s)) (bitpos_prec ?s) ?s else ?s)"
      "lev e (SCK ?s) = bit (spcr ?s) CPOL" "lev e (MOSI ?s) = (if bit (spcr ?s) CPHA then lev d (MOSI ?s) else True)"
    show "Q () e"
      by (rule post [OF e(1)]) (use st t e in \<open>auto simp: master_step_def Let_def master_done_def take_in_def end_frame_def\<close>)
  qed
  have idle: "Q () d" if "clkcnt ?s mod clkdiv ?s \<noteq> 0 \<or> (\<not> bitcnt ?s < 8 \<and> \<not> finished ?s)"
    by (rule post [OF moved_refl [OF d]]) (use st that in \<open>auto simp: master_step_def Let_def master_done_def split: if_splits\<close>)
  show ?thesis unfolding master_cycle_def
  proof (rule wp_getsI, rule wp_sqI, rule wp_whenI, goal_cases)
    case 2
    show ?case using bits fin idle by (simp add: wp_whenM wp_bnd wp_basic)
  qed (use ss in simp)
qed

lemma wp_Spi_master:
  assumes r: "master_ready d"
    and st: "master_step (lev d (MISO (part d))) (part d) = (s', ck, mo)"
    and post: "\<And>d'. moved d {SCK (part d), MOSI (part d)} d' \<Longrightarrow> part d' = s' \<Longrightarrow>
      requests d' = requests d \<union> (if master_done (part d) \<and> bit (spcr (part d)) SPIE then {irq_vector (part d)} else {}) \<Longrightarrow>
      lev d' (SCK (part d)) = after (lev d (SCK (part d))) ck \<Longrightarrow>
      lev d' (MOSI (part d)) = after (lev d (MOSI (part d))) mo \<Longrightarrow> Q () d'"
  shows "wp (Spi_CpuCycle E) Q d"
proof -
  have on: "bit (spcr (part d)) SPE" "bit (spcr (part d)) MSTR" using r by (auto simp: master_ready_def Let_def)
  show ?thesis unfolding Spi_CpuCycle_def
  proof (rule wp_getsI, unfold prod.case if_P [OF on(2)], rule wp_whenI, unfold wp_sq, rule wp_master_cycle [OF r st], unfold wp_basic)
    fix e
    assume e: "moved d {SCK (part d), MOSI (part d)} e" "(part e)\<lparr>clkcnt := clkcnt (part e) + 1\<rparr> = s'"
      "requests e = requests d \<union> (if master_done (part d) \<and> bit (spcr (part d)) SPIE then {irq_vector (part d)} else {})"
      "lev e (SCK (part d)) = after (lev d (SCK (part d))) ck" "lev e (MOSI (part d)) = after (lev d (MOSI (part d))) mo"
    have "moved d {SCK (part d), MOSI (part d)} (e\<lparr>part := (part e)\<lparr>clkcnt := clkcnt (part e) + 1\<rparr>\<rparr>)"
      by (rule moved_part [OF e(1)]) (simp add: same_conf_def)
    then show "Q () (e\<lparr>part := (part e)\<lparr>clkcnt := clkcnt (part e) + 1\<rparr>\<rparr>)" using e by (intro post) simp_all
  qed (use on in simp)
qed

text \<open>A cycle of a selected slave.\<close>

definition slave_done :: "bool \<Rightarrow> spi \<Rightarrow> bool" where
  "slave_done sck s \<longleftrightarrow> bitcnt s \<noteq> 8 \<and>
     (if sck \<noteq> oldsck s \<and> sck = bit (spcr s) CPOL then bitcnt s = 7 else finished s)"

lemma wp_slave_edge:
  assumes d: "spi_dev d" and m: "\<not> bit (spcr (part d)) MSTR" "drives_pin (pboard d) (MISO (part d))"
    and e: "leading \<longleftrightarrow> lev d (SCK (part d)) \<noteq> bit (spcr (part d)) CPOL" "edge \<longleftrightarrow> lev d (SCK (part d)) \<noteq> oldsck (part d)"
    and post: "\<And>d'. moved d {MISO (part d)} d' \<Longrightarrow> requests d' = requests d \<Longrightarrow>
      part d' = (let s1 = (if edge \<and> leading \<noteq> bit (spcr (part d)) CPHA then take_in (lev d (MOSI (part d))) pos (part d) else part d)
        in if edge \<and> \<not> leading then s1\<lparr>bitcnt := bitcnt s1 + 1, finished := (bitcnt s1 + 1 = 8)\<rparr> else s1) \<Longrightarrow>
      lev d' (MISO (part d)) = (if edge \<and> leading = bit (spcr (part d)) CPHA then bit (data_write (part d)) pos else lev d (MISO (part d))) \<Longrightarrow>
      Q () d'"
  shows "wp (slave_edge E pos) Q d"
proof -
  let ?s = "part d"
  let ?cnt = "\<lambda>s. s\<lparr>bitcnt := bitcnt s + 1, finished := (bitcnt s + 1 = 8)\<rparr>"
  have cnt: "wp (whenM (\<not> leading) (upd_part ?cnt)) Q e'"
    if "Q () (e'\<lparr>part := if \<not> leading then ?cnt (part e') else part e'\<rparr>)" for e'
    using that by (cases leading) (simp_all add: wp_whenM wp_basic)
  have lead: "(if bit (spcr ?s) CPOL then \<not> lev d (SCK ?s) else lev d (SCK ?s)) = leading" using e(1) by auto
  show ?thesis unfolding slave_edge_def
  proof (rule wp_getsI, rule wp_getsI, unfold prod.case Let_def lead e(2) [symmetric], rule wp_whenI, goal_cases)
    case 1
    show ?case
    proof (cases "leading = bit (spcr ?s) CPHA")
      case True
      then have "wp (txbit E pos) (\<lambda>_. wp (whenM (\<not> leading) (upd_part ?cnt)) Q) d"
      proof (intro wp_txbit [OF d refl] cnt, goal_cases)
        case (1 e')
        have c: "same_conf ?s (if \<not> leading then ?cnt (part e') else part e')" using 1(3) by (simp add: same_conf_def)
        show ?case using 1 m c \<open>edge\<close> moved_part [OF 1(2)] by (intro post) (simp_all add: Let_def)
      qed
      then show ?thesis using True by (simp add: wp_sq)
    next
      case False
      then have "wp (rxbit pos) (\<lambda>_. wp (whenM (\<not> leading) (upd_part ?cnt)) Q) d"
      proof (intro wp_rxbit [OF d] cnt, goal_cases)
        case 1
        have c: "same_conf ?s (if \<not> leading then ?cnt (take_in b pos ?s) else take_in b pos ?s)" for b
          by (simp add: same_conf_def take_in_def)
        show ?case using 1 m \<open>edge\<close> moved_part [OF moved_refl [OF d] c]
          by (intro post) (cases "bit (spcr ?s) CPHA"; simp add: Let_def)+
      qed
      then show ?thesis using False by (simp add: wp_sq)
    qed
  next
    case 2
    then show ?case using d by (intro post) (simp_all add: moved_refl)
  qed
qed

lemma wp_slave_cycle:
  assumes r: "slave_ready d"
    and st: "slave_step (lev d (SCK (part d))) (lev d (MOSI (part d))) (part d) = (s', mi)"
    and post: "\<And>d'. moved d {MISO (part d)} d' \<Longrightarrow> (part d')\<lparr>clkcnt := clkcnt (part d') + 1\<rparr> = s' \<Longrightarrow>
      requests d' = requests d \<union> (if slave_done (lev d (SCK (part d))) (part d) \<and> bit (spcr (part d)) SPIE then {irq_vector (part d)} else {}) \<Longrightarrow>
      lev d' (MISO (part d)) = after (lev d (MISO (part d))) mi \<Longrightarrow> Q () d'"
  shows "wp (slave_cycle E (bitpos (part d))) Q d"
proof -
  let ?s = "part d"
  let ?sck = "lev d (SCK ?s)" and ?mosi = "lev d (MOSI ?s)"
  have d: "spi_dev d" and m: "\<not> bit (spcr ?s) MSTR" "drives_pin (pboard d) (MISO ?s)" and ss: "\<not> lev d (SS ?s)"
    using r by (auto simp: slave_ready_def Let_def)
  have fin: "wp (trxend E) (\<lambda>_. wp (bnd (pin_level SCK) (\<lambda>k. upd_part (\<lambda>s. s\<lparr>oldsck := k\<rparr>))) Q) e"
    if e: "moved d {MISO ?s} e" "requests e = requests d" "same_conf ?s (part e)"
      "(end_frame (part e))\<lparr>oldsck := ?sck, clkcnt := clkcnt ?s + 1\<rparr> = s'" "clkcnt (part e) = clkcnt ?s"
      "finished (part e) = slave_done ?sck ?s" "lev e (MISO ?s) = after (lev d (MISO ?s)) mi" for e
  proof (rule wp_trxend)
    show "spi_dev e" using e(1) by (simp add: moved_def)
    fix e2 assume e2: "moved e {} e2" "part e2 = end_frame (part e)" "pboard e2 = pboard e"
      "requests e2 = requests e \<union> (if finished (part e) \<and> bit (spcr (part e)) SPIE then {irq_vector (part e)} else {})"
    have c: "same_conf ?s (part e2)" using e(3) e2(2) same_conf_steps(2) [of "part e"] by (simp add: same_conf_def)
    have mv: "moved d {MISO ?s} e2" by (rule moved_trans [OF e(1) e2(1)]) simp
    have "lev e2 (SCK ?s) = ?sck" using mv spi_devD(4,7) [OF d] by (auto simp: moved_def)
    then have k: "lev e2 (SCK (part e2)) = ?sck" using c by (simp add: same_conf_def)
    have "clkcnt (end_frame (part e)) = clkcnt (part e)" by (simp add: end_frame_def)
    then show "wp (bnd (pin_level SCK) (\<lambda>k. upd_part (\<lambda>s. s\<lparr>oldsck := k\<rparr>))) Q e2"
      using e e2 c unfolding wp_bnd wp_basic k
      by (intro post moved_part [OF mv]) (simp_all add: same_conf_def)
  qed
  show ?thesis unfolding slave_cycle_def
  proof (rule wp_getsI, unfold if_not_P [OF ss], rule wp_getsI, unfold prod.case, rule wp_sqI, cases "bitcnt ?s = 8")
    case True
    let ?t = "?s\<lparr>bitcnt := 0, finished := False, shift_in := 0, oldsck := ?sck\<rparr>"
    have c: "same_conf ?s ?t" by (simp add: same_conf_def)
    have d1: "spi_dev (d\<lparr>part := ?t\<rparr>)" by (rule spi_dev_part [OF d c])
    have mv: "moved d {MISO ?s} e" if "moved (d\<lparr>part := ?t\<rparr>) {MISO ?s} e" for e using that by (simp add: moved_def)
    have "wp (slave_edge E (bitpos ?s)) (\<lambda>_. wp (trxend E) (\<lambda>_. wp (bnd (pin_level SCK) (\<lambda>k. upd_part (\<lambda>s. s\<lparr>oldsck := k\<rparr>))) Q)) (d\<lparr>part := ?t\<rparr>)"
      by (rule wp_slave_edge [OF d1 _ _ refl refl], use m in simp, use m in simp, rule fin)
        (use st True c mv in \<open>simp_all add: slave_step_def Let_def end_frame_def slave_done_def prod_eq_iff\<close>)
    then show "wp (if bitcnt ?s = 8 then bnd (pin_level SCK) (\<lambda>k. upd_part (\<lambda>s. s\<lparr>bitcnt := 0, finished := False, shift_in := 0, oldsck := k\<rparr>))
        else whenM (\<not> bit (spcr ?s) CPHA) (txbit E (bitpos ?s)))
      (\<lambda>_. wp (sq (slave_edge E (bitpos ?s)) (sq (trxend E) (bnd (pin_level SCK) (\<lambda>k. upd_part (\<lambda>s. s\<lparr>oldsck := k\<rparr>))))) Q) d"
      using True by (simp add: wp_sq wp_bnd wp_basic)
  next
    case False
    have edge: "wp (slave_edge E (bitpos ?s)) (\<lambda>_. wp (trxend E) (\<lambda>_. wp (bnd (pin_level SCK) (\<lambda>k. upd_part (\<lambda>s. s\<lparr>oldsck := k\<rparr>))) Q)) e"
      if e: "moved d {MISO ?s} e" "part e = ?s" "requests e = requests d"
        "lev e (MISO ?s) = (if bit (spcr ?s) CPHA then lev d (MISO ?s) else bit (data_write ?s) (bitpos ?s))" for e
    proof -
      have w: "same_wiring (pboard d) (pboard e)" "spi_dev e" using e(1) by (simp_all add: moved_def)
      have lv: "lev e (SCK ?s) = ?sck" "lev e (MOSI ?s) = ?mosi" using e(1) spi_devD(2,4,7) [OF d] by (auto simp: moved_def)
      show ?thesis
      proof (rule wp_slave_edge [OF w(2) _ _ refl refl], unfold e(2) lv, goal_cases)
        case (3 e2)
        have mv: "moved d {MISO ?s} e2" by (rule moved_trans [OF e(1) 3(1)]) simp
        have c: "same_conf ?s (part e2)" using 3(3) by (simp add: Let_def same_conf_def take_in_def)
        show ?case
          by (rule fin [OF mv]) (use st False c 3 e in \<open>auto simp: slave_step_def Let_def end_frame_def slave_done_def take_in_def split: if_splits\<close>)
      qed (use m w in \<open>simp_all add: same_wiring_simps\<close>)
    qed
    have "wp (whenM (\<not> bit (spcr ?s) CPHA) (txbit E (bitpos ?s))) (\<lambda>_. wp (slave_edge E (bitpos ?s))
        (\<lambda>_. wp (trxend E) (\<lambda>_. wp (bnd (pin_level SCK) (\<lambda>k. upd_part (\<lambda>s. s\<lparr>oldsck := k\<rparr>))) Q))) d"
    proof (rule wp_whenI)
      assume "\<not> bit (spcr ?s) CPHA"
      then show "wp (txbit E (bitpos ?s)) (\<lambda>_. wp (slave_edge E (bitpos ?s))
        (\<lambda>_. wp (trxend E) (\<lambda>_. wp (bnd (pin_level SCK) (\<lambda>k. upd_part (\<lambda>s. s\<lparr>oldsck := k\<rparr>))) Q))) d"
        using m by (intro wp_txbit [OF d refl] edge) simp_all
    qed (use d in \<open>auto intro!: edge moved_refl\<close>)
    then show "wp (if bitcnt ?s = 8 then bnd (pin_level SCK) (\<lambda>k. upd_part (\<lambda>s. s\<lparr>bitcnt := 0, finished := False, shift_in := 0, oldsck := k\<rparr>))
        else whenM (\<not> bit (spcr ?s) CPHA) (txbit E (bitpos ?s)))
      (\<lambda>_. wp (sq (slave_edge E (bitpos ?s)) (sq (trxend E) (bnd (pin_level SCK) (\<lambda>k. upd_part (\<lambda>s. s\<lparr>oldsck := k\<rparr>))))) Q) d"
      using False by (simp add: wp_sq)
  qed
qed

lemma wp_Spi_slave:
  assumes r: "slave_ready d"
    and st: "slave_step (lev d (SCK (part d))) (lev d (MOSI (part d))) (part d) = (s', mi)"
    and post: "\<And>d'. moved d {MISO (part d)} d' \<Longrightarrow> part d' = s' \<Longrightarrow>
      requests d' = requests d \<union> (if slave_done (lev d (SCK (part d))) (part d) \<and> bit (spcr (part d)) SPIE then {irq_vector (part d)} else {}) \<Longrightarrow>
      lev d' (MISO (part d)) = after (lev d (MISO (part d))) mi \<Longrightarrow> Q () d'"
  shows "wp (Spi_CpuCycle E) Q d"
proof -
  have on: "bit (spcr (part d)) SPE" "\<not> bit (spcr (part d)) MSTR" using r by (auto simp: slave_ready_def Let_def)
  show ?thesis unfolding Spi_CpuCycle_def
  proof (rule wp_getsI, unfold prod.case if_not_P [OF on(2)], rule wp_whenI, unfold wp_sq, rule wp_slave_cycle [OF r st], unfold wp_basic)
    fix e
    assume e: "moved d {MISO (part d)} e" "(part e)\<lparr>clkcnt := clkcnt (part e) + 1\<rparr> = s'"
      "requests e = requests d \<union> (if slave_done (lev d (SCK (part d))) (part d) \<and> bit (spcr (part d)) SPIE then {irq_vector (part d)} else {})"
      "lev e (MISO (part d)) = after (lev d (MISO (part d))) mi"
    have "moved d {MISO (part d)} (e\<lparr>part := (part e)\<lparr>clkcnt := clkcnt (part e) + 1\<rparr>\<rparr>)"
      by (rule moved_part [OF e(1)]) (simp add: same_conf_def)
    then show "Q () (e\<lparr>part := (part e)\<lparr>clkcnt := clkcnt (part e) + 1\<rparr>\<rparr>)" using e by (intro post) simp_all
  qed (use on in simp)
qed

text \<open>
  C26. A clock cycle of the serial peripheral interface depends on the levels at its pins only and
  never fails: a master reads MISO and sets SCK and MOSI, a selected slave reads SCK and MOSI and
  sets MISO, all other pins keep their levels, and the end of a byte requests the interrupt if it is
  enabled.
\<close>

theorem spi_cycle:
  "(master_ready d \<longrightarrow> wp (Spi_CpuCycle E) (\<lambda>_ d'. let s = part d; (s', ck, mo) = master_step (lev d (MISO s)) s in
      part d' = s' \<and> moved d {SCK s, MOSI s} d' \<and> lev d' (SCK s) = after (lev d (SCK s)) ck \<and>
      lev d' (MOSI s) = after (lev d (MOSI s)) mo \<and>
      requests d' = requests d \<union> (if master_done s \<and> bit (spcr s) SPIE then {irq_vector s} else {})) d) \<and>
   (slave_ready d \<longrightarrow> wp (Spi_CpuCycle E) (\<lambda>_ d'. let s = part d; (s', mi) = slave_step (lev d (SCK s)) (lev d (MOSI s)) s in
      part d' = s' \<and> moved d {MISO s} d' \<and> lev d' (MISO s) = after (lev d (MISO s)) mi \<and>
      requests d' = requests d \<union> (if slave_done (lev d (SCK s)) s \<and> bit (spcr s) SPIE then {irq_vector s} else {})) d)"
proof (intro conjI impI)
  let ?s = "part d"
  obtain s' ck mo where m: "master_step (lev d (MISO ?s)) ?s = (s', ck, mo)" by (metis prod.exhaust)
  assume "master_ready d"
  then show "wp (Spi_CpuCycle E) (\<lambda>_ d'. let s = part d; (s', ck, mo) = master_step (lev d (MISO s)) s in
      part d' = s' \<and> moved d {SCK s, MOSI s} d' \<and> lev d' (SCK s) = after (lev d (SCK s)) ck \<and>
      lev d' (MOSI s) = after (lev d (MOSI s)) mo \<and>
      requests d' = requests d \<union> (if master_done s \<and> bit (spcr s) SPIE then {irq_vector s} else {})) d"
    unfolding Let_def by (rule wp_Spi_master [OF _ m]) (simp only: m prod.case)
next
  let ?s = "part d"
  obtain s' mi where m: "slave_step (lev d (SCK ?s)) (lev d (MOSI ?s)) ?s = (s', mi)" by (metis prod.exhaust)
  assume "slave_ready d"
  then show "wp (Spi_CpuCycle E) (\<lambda>_ d'. let s = part d; (s', mi) = slave_step (lev d (SCK s)) (lev d (MOSI s)) s in
      part d' = s' \<and> moved d {MISO s} d' \<and> lev d' (MISO s) = after (lev d (MISO s)) mi \<and>
      requests d' = requests d \<union> (if slave_done (lev d (SCK s)) s \<and> bit (spcr s) SPIE then {irq_vector s} else {})) d"
    unfolding Let_def by (rule wp_Spi_slave [OF _ m]) (simp only: m prod.case)
qed

section \<open>Two devices on one bus\<close>

text \<open>
  A cycle of two devices whose pins SCK, MOSI and MISO are connected: the master runs, the levels of
  its outputs reach the pins of the slave as \<open>Net::CalcNet\<close> sets them, the slave runs and the level of
  its output reaches the master.
\<close>

definition wire :: "('f::zero, 'w, 'hw) part_env \<Rightarrow> (spi \<Rightarrow> pin_at_port) \<Rightarrow> bool \<Rightarrow> ('f, 'w, 'hw, unit) ssim" where
  "wire E p v = bnd (gets (\<lambda>d. the_pin (pboard d) (p (part d)))) (\<lambda>i.
     on_pboard (SetInState (pe_listener E) i (Pin (if v then HIGH else LOW))))"

abbreviation on_master :: "('a, 'r) sim \<Rightarrow> ('a \<times> 'b, 'r) sim" where
  "on_master \<equiv> zoom fst (\<lambda>m (_, s). (m, s))"

abbreviation on_slave :: "('b, 'r) sim \<Rightarrow> ('a \<times> 'b, 'r) sim" where
  "on_slave \<equiv> zoom snd (\<lambda>s (m, _). (m, s))"

definition bus_cycle :: "('f::zero, 'w, 'hw) part_env \<Rightarrow> ('f, 'w, 'hw) part_env \<Rightarrow>
    ((spi, 'f, 'w, 'hw) part_dev \<times> (spi, 'f, 'w, 'hw) part_dev, unit) sim" where
  "bus_cycle Em Es =
     sq (on_master (Spi_CpuCycle Em))
     (bnd (gets (\<lambda>(m, s). (lev m (SCK (part m)), lev m (MOSI (part m))))) (\<lambda>(sck, mosi).
     sq (on_slave (sq (wire Es SCK sck) (wire Es MOSI mosi)))
     (sq (on_slave (Spi_CpuCycle Es))
     (bnd (gets (\<lambda>(m, s). lev s (MISO (part s)))) (\<lambda>miso. on_master (wire Em MISO miso))))))"

text \<open>A pin whose output stage is off, so that the net sets its level.\<close>

definition input_pin :: "('f, 'w) board \<Rightarrow> pin_at_port \<Rightarrow> bool" where
  "input_pin b pp \<longleftrightarrow> (let q = bports b (pa_port pp); k = pa_pinNo pp in
     \<not> (if bit (useAlternatePortIfDdrSet q) k then bit (ddr q) k
        else if bit (useAlternateDdr q) k then bit (alternateDdr q) k else bit (ddr q) k))"

definition bus_ok :: "(spi, 'f, 'w, 'hw) part_dev \<times> (spi, 'f, 'w, 'hw) part_dev \<Rightarrow> bool" where
  "bus_ok = (\<lambda>(m, s). master_ready m \<and> slave_ready s \<and> input_pin (pboard m) (MISO (part m)) \<and>
     input_pin (pboard s) (SCK (part s)) \<and> input_pin (pboard s) (MOSI (part s)) \<and>
     lev m (MISO (part m)) = lev s (MISO (part s)))"

definition bus_state :: "(spi, 'f, 'w, 'hw) part_dev \<times> (spi, 'f, 'w, 'hw) part_dev \<Rightarrow> spi \<times> spi \<times> bool \<times> bool \<times> bool" where
  "bus_state = (\<lambda>(m, s). (part m, part s, lev m (SCK (part m)), lev m (MOSI (part m)), lev m (MISO (part m))))"

lemma same_wiring_input: "same_wiring b c \<Longrightarrow> input_pin c pp = input_pin b pp"
proof -
  assume "same_wiring b c"
  then obtain x y where "bports c (pa_port pp) = (bports b (pa_port pp))\<lparr>pin := x, alternatePort := y\<rparr>"
    unfolding same_wiring_def by blast
  then show ?thesis by (simp add: input_pin_def Let_def)
qed

lemma wp_wire:
  assumes d: "spi_dev d" and p: "on_port (pboard d) (p (part d))" "input_pin (pboard d) (p (part d))"
    and post: "\<And>d'. moved d {p (part d)} d' \<Longrightarrow> part d' = part d \<Longrightarrow> requests d' = requests d \<Longrightarrow>
      lev d' (p (part d)) = v \<Longrightarrow> Q () d'"
  shows "wp (wire E p v) Q d"
proof -
  let ?b = "pboard d" and ?pp = "p (part d)"
  have "outState (bpins ?b (the_pin ?b ?pp)) = TRISTATE \<or> outState (bpins ?b (the_pin ?b ?pp)) = PULLUP"
    using settledD(2) [OF spi_devD(1) [OF d] p(1)] p(2) by (auto simp: out_state_def input_pin_def Let_def)
  then obtain c where c: "SetInState (pe_listener E) (the_pin ?b ?pp) (Pin (if v then HIGH else LOW)) ?b = Inr ((), c)" "settled c"
    "same_wiring ?b c" "\<And>q. on_port ?b q \<Longrightarrow> PinAtPort_bool q c = (if q = ?pp then v else PinAtPort_bool q ?b)"
    using SetInState_settled [OF spi_devD(1) [OF d] p(1)] by metis
  have "Q () (d\<lparr>pboard := c\<rparr>)"
    by (rule post) (use c p spi_dev_board [OF d c(2,3)] in \<open>simp_all add: moved_def\<close>)
  then show ?thesis using c(1) unfolding wire_def wp_bnd wp_basic by (intro wpI [OF zoom_Inr]) auto
qed

lemma moved_ready:
  assumes "moved d P d'" "same_conf (part d) (part d')"
  shows "SS (part d) \<notin> P \<Longrightarrow> master_ready d \<Longrightarrow> master_ready d'" "SS (part d) \<notin> P \<Longrightarrow> slave_ready d \<Longrightarrow> slave_ready d'"
    "input_pin (pboard d') q = input_pin (pboard d) q"
proof -
  have w: "same_wiring (pboard d) (pboard d')" "spi_dev d'" using assms(1) by (simp_all add: moved_def)
  have ss: "lev d' (SS (part d)) = lev d (SS (part d))" if "SS (part d) \<notin> P" "spi_dev d"
    using assms(1) that(1) spi_devD(5) [OF that(2)] by (simp add: moved_def)
  show "SS (part d) \<notin> P \<Longrightarrow> master_ready d \<Longrightarrow> master_ready d'" "SS (part d) \<notin> P \<Longrightarrow> slave_ready d \<Longrightarrow> slave_ready d'"
    using assms(2) w ss
    by (simp_all add: master_ready_def slave_ready_def Let_def same_conf_def same_wiring_simps PinAtPort_GetDdr_def)
  show "input_pin (pboard d') q = input_pin (pboard d) q" by (rule same_wiring_input [OF w(1)])
qed

text \<open>One cycle of the bus is one step of the linked state machines.\<close>

lemma wp_bus_cycle:
  assumes ok: "bus_ok x" and post: "\<And>y. bus_ok y \<Longrightarrow> bus_state y = link_step (bus_state x) \<Longrightarrow> Q () y"
  shows "wp (bus_cycle Em Es) Q x"
proof -
  obtain m s where x: "x = (m, s)" by (cases x)
  have r: "master_ready m" "slave_ready s" and i: "input_pin (pboard m) (MISO (part m))" "input_pin (pboard s) (SCK (part s))"
    "input_pin (pboard s) (MOSI (part s))" and eq: "lev m (MISO (part m)) = lev s (MISO (part s))"
    using ok by (simp_all add: x bus_ok_def)
  have d: "spi_dev m" "spi_dev s" using r by (simp_all add: master_ready_def slave_ready_def Let_def)
  let ?M = "part m" and ?S = "part s"
  have dm: "MISO ?M \<notin> {SCK ?M, MOSI ?M}" "SS ?M \<notin> {SCK ?M, MOSI ?M}" "SS ?M \<noteq> MISO ?M" "SCK ?M \<noteq> MISO ?M" "MOSI ?M \<noteq> MISO ?M"
    and ds: "SCK ?S \<noteq> MOSI ?S" "MISO ?S \<notin> {SCK ?S, MOSI ?S}" "SS ?S \<notin> {SCK ?S, MOSI ?S}" "SS ?S \<noteq> MISO ?S"
      "SCK ?S \<noteq> MISO ?S" "MOSI ?S \<noteq> MISO ?S"
    using spi_devD(7) [OF d(1)] spi_devD(7) [OF d(2)] by auto
  obtain M' ck mo where ms: "master_step (lev m (MISO ?M)) ?M = (M', ck, mo)" by (metis prod.exhaust)
  let ?sck = "after (lev m (SCK ?M)) ck" and ?mosi = "after (lev m (MOSI ?M)) mo"
  obtain S' mi where ss: "slave_step ?sck ?mosi ?S = (S', mi)" by (metis prod.exhaust)
  have cM: "same_conf ?M M'" using same_conf_steps(3) [of ?M "lev m (MISO ?M)"] ms by simp
  have cS: "same_conf ?S S'" using same_conf_steps(4) [of ?S ?sck ?mosi] ss by simp
  show ?thesis unfolding x bus_cycle_def wp_sq wp_zoom fst_conv prod.case
  proof (rule wp_Spi_master [OF r(1) ms], rule wp_getsI, unfold prod.case wp_zoom snd_conv wp_sq, goal_cases)
    case (1 m1)
    have sel: "SCK (part m1) = SCK ?M" "MOSI (part m1) = MOSI ?M" using cM 1(2) by (simp_all add: same_conf_def)
    have r1: "master_ready m1" "input_pin (pboard m1) (MISO ?M)"
      using moved_ready [OF 1(1)] cM 1(2) dm(2) r(1) i(1) by simp_all
    have lm: "lev m1 (MISO ?M) = lev m (MISO ?M)" using 1(1) dm(1) spi_devD(3) [OF d(1)] by (simp add: moved_def)
    show ?case unfolding sel 1(4,5)
    proof (rule wp_wire [where p = SCK, OF d(2) spi_devD(4) [OF d(2)] i(2)], goal_cases)
      case w1: (1 s1)
      have d1: "spi_dev s1" "same_wiring (pboard s) (pboard s1)" using w1(1) by (simp_all add: moved_def)
      show ?case
      proof (rule wp_wire [where p = MOSI, OF d1(1)], unfold w1(2), goal_cases)
        case w2: (3 s2)
        have mv: "moved s {SCK ?S, MOSI ?S} s2" using w2 w1 by (intro moved_trans [OF w1(1)]) auto
        have p2: "part s2 = ?S" using w2 by simp
        have lv: "lev s2 (SCK ?S) = ?sck" "lev s2 (MOSI ?S) = ?mosi" "lev s2 (MISO ?S) = lev s (MISO ?S)"
          using w1 w2 ds spi_devD(3,4) [OF d(2)] mv same_wiring_simps(1) [OF d1(2)] by (auto simp: moved_def)
        have r2: "slave_ready s2" "input_pin (pboard s2) (SCK ?S)" "input_pin (pboard s2) (MOSI ?S)"
          using moved_ready [OF mv] ds(3) r(2) i(2,3) p2 by (simp_all add: same_conf_def)
        have st2: "slave_step (lev s2 (SCK (part s2))) (lev s2 (MOSI (part s2))) (part s2) = (S', mi)"
          using ss by (simp add: p2 lv)
        show ?case
        proof (rule wp_Spi_slave [OF r2(1) st2], unfold p2 lv, rule wp_getsI, unfold prod.case wp_zoom fst_conv, goal_cases)
          case s3: (1 s3)
          have sel3: "MISO (part s3) = MISO ?S" "SCK (part s3) = SCK ?S" "MOSI (part s3) = MOSI ?S"
            using cS s3(2) by (simp_all add: same_conf_def)
          have r3: "slave_ready s3" "input_pin (pboard s3) (SCK ?S)" "input_pin (pboard s3) (MOSI ?S)"
            using moved_ready [OF s3(1)] cS s3(2) p2 ds(4) r2 by simp_all
          have d1': "spi_dev m1" "on_port (pboard m1) (MISO (part m1))" "MISO (part m1) = MISO ?M"
            using 1(1,2) cM spi_devD(3) [of m1] by (simp_all add: moved_def same_conf_def)
          show ?case
          proof (rule wp_wire [where p = MISO, OF d1'(1,2)], unfold sel3 d1'(3), goal_cases)
            case m4: (2 m4)
            have pm: "part m4 = M'" using m4(2) 1(2) by simp
            have r4: "master_ready m4" "input_pin (pboard m4) (MISO ?M)"
              using moved_ready [OF m4(1)] m4(2) r1 cM 1(2) dm(3) by (simp_all add: same_conf_def)
            have sel4: "SCK M' = SCK ?M" "MOSI M' = MOSI ?M" "MISO M' = MISO ?M" using cM by (simp_all add: same_conf_def)
            have l4: "lev m4 (SCK ?M) = ?sck" "lev m4 (MOSI ?M) = ?mosi"
              using m4(1) 1(1,4,5) dm(4,5) spi_devD(2,4) [OF d(1)] by (auto simp: moved_def same_wiring_simps(1))
            have "bus_ok (m4, s3)" using r4 r3 m4(4) by (simp add: bus_ok_def pm sel4 sel3)
            moreover have "bus_state (m4, s3) = link_step (bus_state (m, s))"
              using ms ss s3(2,4) m4(4) l4 eq
              by (simp add: bus_state_def link_step_def pm sel4 Let_def flip: after_def)
            ultimately show ?case by (rule post [unfolded x])
          qed (use r1(2) in simp)
        qed
      qed (use i(3) spi_devD(2) [OF d(2)] same_wiring_simps(1) [OF d1(2)] same_wiring_input [OF d1(2)] in simp_all)
    qed
  qed
qed

lemma wp_bus_cycles:
  fixes x :: "(spi, 'f::zero, 'w, 'hw) part_dev \<times> (spi, 'f, 'w, 'hw) part_dev"
  assumes "bus_ok x" "\<And>y. bus_ok y \<Longrightarrow> bus_state y = (link_step ^^ length ts) (bus_state x) \<Longrightarrow> Q () y"
  shows "wp (forS (\<lambda>_. bus_cycle Em Es) ts) Q x"
  using assms
proof (induction ts arbitrary: x)
  case (Cons t ts)
  show ?case unfolding wp_forS
  proof (rule wp_bus_cycle [OF Cons.prems(1)], rule Cons.IH)
    fix y z :: "(spi, 'f, 'w, 'hw) part_dev \<times> (spi, 'f, 'w, 'hw) part_dev"
    assume "bus_ok z" "bus_state y = link_step (bus_state x)" "bus_state z = (link_step ^^ length ts) (bus_state y)"
    then show "Q () z" by (intro Cons.prems(2)) (simp_all add: funpow_swap1)
  qed
qed (simp add: wp_forS wp_basic)

text \<open>
  C21. A master and a selected slave on one bus exchange their bytes: whatever the divisor, the data
  order and the polarity and phase of the clock, provided that both use the same, after \<open>16\<close> half
  periods and one cycle each has read the byte that the other one has written, both flags SPIF are
  set and the bus is ready for the next byte.
\<close>

theorem spi_exchange:
  assumes "bus_ok (m, s)" "bitcnt (part m) = 0" "clkcnt (part m) = 0" "2 \<le> clkdiv (part m)"
    and "bitcnt (part s) = 0" "shift_in (part s) = 0" "\<not> finished (part s)" "oldsck (part s) = bit (spcr (part m)) CPOL"
    and "\<forall>i \<in> {DORD, CPOL, CPHA}. bit (spcr (part s)) i = bit (spcr (part m)) i"
  shows "wp (forS (\<lambda>_. bus_cycle Em Es) [0..<16 * clkdiv (part m) + 1]) (\<lambda>_ (m', s'). bus_ok (m', s') \<and>
     data_read (part m') = data_write (part s) \<and> bit (spsr (part m')) SPIF \<and> bitcnt (part m') = 8 \<and> \<not> finished (part m') \<and>
     data_read (part s') = data_write (part m) \<and> bit (spsr (part s')) SPIF \<and> bitcnt (part s') = 8 \<and> \<not> finished (part s')) (m, s)"
proof (rule wp_bus_cycles [OF assms(1)], unfold split_paired_all prod.case length_upt diff_zero, goal_cases)
  case (1 m' s')
  have "exchanged (data_write (part m)) (data_write (part s)) (bus_state (m', s'))"
    unfolding 1(2) by (simp only: bus_state_def prod.case) (rule link_exchange [OF assms(2-9)])
  then show ?case using 1(1) by (simp add: exchanged_def bus_state_def)
qed

section \<open>A board\<close>

text \<open>Pins 0 to 3 of the board are MOSI, MISO, SCK and SS; \<open>d\<close> is the data direction.\<close>

definition sample_spi :: "byte \<Rightarrow> byte \<Rightarrow> spi" where
  "sample_spi ctrl val = \<lparr>shift_in = 0, data_read = 0, data_write = val, spsr = 0, spcr = ctrl,
     MOSI = \<lparr>pa_port = 0, pa_pinNo = 0\<rparr>, MISO = \<lparr>pa_port = 0, pa_pinNo = 1\<rparr>, SCK = \<lparr>pa_port = 0, pa_pinNo = 2\<rparr>,
     SS = \<lparr>pa_port = 0, pa_pinNo = 3\<rparr>, irq_vector = 1, clkdiv = 2, spsr_read = False, oldsck = False, bitcnt = 0, clkcnt = 0,
     mega_mode = True, finished = False, spi_clocked = True\<rparr>"

definition sample_spi_dev :: "byte \<Rightarrow> byte \<Rightarrow> byte \<Rightarrow> (spi, int, unit, char) part_dev" where
  "sample_spi_dev d ctrl val = \<lparr>part = sample_spi ctrl val, pirq = HWIrqSystem 2 20, pboard = sample_board d\<rparr>"

lemma sample_spi_ok: "spi_dev (sample_spi_dev d ctrl val)"
  using sample_settled [of d]
  by (auto simp: spi_dev_def sample_spi_dev_def sample_spi_def irqs_ok_def irq_ok_def HWIrqSystem_def table_ok_def on_port_def
      sample_board_def)

lemma sample_ready: "master_ready (sample_spi_dev 0xd 0x50 a)" "slave_ready (sample_spi_dev 2 0x40 b)"
proof -
  note defs = sample_spi_dev_def sample_spi_def sample_board_def drives_pin_def PinAtPort_GetDdr_def PinAtPort_bool_def
  show "master_ready (sample_spi_dev 0xd 0x50 a)" unfolding master_ready_def Let_def
    by (intro conjI sample_spi_ok) (simp_all add: defs)
  show "slave_ready (sample_spi_dev 2 0x40 b)" unfolding slave_ready_def Let_def
    by (intro conjI sample_spi_ok) (simp_all add: defs)
qed

lemma sample_bus: "bus_ok (sample_spi_dev 0xd 0x50 a, sample_spi_dev 2 0x40 b)"
  by (simp add: bus_ok_def sample_ready) (simp add: sample_spi_dev_def sample_spi_def sample_board_def input_pin_def PinAtPort_bool_def)

theorem spi_exchange_witness:
  "\<forall>Em Es. \<exists>m s. forS (\<lambda>_. bus_cycle Em Es) [0..<33] (sample_spi_dev 0xd 0x50 0xa5, sample_spi_dev 2 0x40 0x3c) = Inr ((), m, s) \<and>
     data_read (part m) = 0x3c \<and> data_read (part s) = 0xa5"
proof (intro allI)
  fix Em Es
  let ?m = "sample_spi_dev 0xd 0x50 0xa5" and ?s = "sample_spi_dev 2 0x40 0x3c"
  have c: "16 * clkdiv (part ?m) + 1 = 33" "data_write (part ?s) = 0x3c" "data_write (part ?m) = 0xa5"
    by (simp_all add: sample_spi_dev_def sample_spi_def)
  show "\<exists>m s. forS (\<lambda>_. bus_cycle Em Es) [0..<33] (?m, ?s) = Inr ((), m, s) \<and> data_read (part m) = 0x3c \<and> data_read (part s) = 0xa5"
    by (rule wpE [OF spi_exchange [OF sample_bus, unfolded c]]) (auto simp: sample_spi_dev_def sample_spi_def)
qed

theorem spi_cycle_witness:
  "\<forall>E. \<exists>d'. Spi_CpuCycle E (sample_spi_dev 0xd 0x50 0xa5) = Inr ((), d') \<and> lev d' (MOSI (part d')) \<and> \<not> lev d' (SCK (part d'))"
proof
  fix E
  let ?d = "sample_spi_dev 0xd 0x50 0xa5"
  have s: "master_step (lev ?d (MISO (part ?d))) (part ?d) = ((part ?d)\<lparr>clkcnt := 1\<rparr>, Some False, Some True)"
    by (simp add: master_step_def sample_spi_dev_def sample_spi_def Let_def bitpos_def)
  obtain d' where d': "Spi_CpuCycle E ?d = Inr ((), d')" "part d' = (part ?d)\<lparr>clkcnt := 1\<rparr>"
      "lev d' (MOSI (part ?d))" "\<not> lev d' (SCK (part ?d))"
    by (rule wpE [OF mp [OF conjunct1 [OF spi_cycle [where E = E]] sample_ready(1) [of "0xa5"]]]) (auto simp: Let_def s)
  then have "MOSI (part d') = MOSI (part ?d)" "SCK (part d') = SCK (part ?d)" by simp_all
  then show "\<exists>d'. Spi_CpuCycle E ?d = Inr ((), d') \<and> lev d' (MOSI (part d')) \<and> \<not> lev d' (SCK (part d'))"
    using d' by auto
qed

end
