(* ===== verification/Avr_SpiSetup.thy ===== *)
theory Avr_SpiSetup
  imports Avr_SpiBus
begin

text \<open>
  What a write to SPCR makes of the pins. The configuration of a pin is the tuple of its bits in the
  registers of its port, and each call of \<^verbatim>\<open>PinAtPort\<close> changes one entry of one tuple.
\<close>

section \<open>Configuration of the pins\<close>

text \<open>Direction, alternate output if an output, alternate direction selected, alternate direction, alternate output.\<close>

type_synonym pin_conf = "bool \<times> bool \<times> bool \<times> bool \<times> bool"

definition conf :: "('f, 'w) board \<Rightarrow> pin_at_port \<Rightarrow> pin_conf" where
  "conf b pp = (let q = bports b (pa_port pp); k = pa_pinNo pp in
     (bit (ddr q) k, bit (useAlternatePortIfDdrSet q) k, bit (useAlternateDdr q) k, bit (alternateDdr q) k, bit (alternatePort q) k))"

lemma conf_drives: "drives_pin b pp \<longleftrightarrow> (case conf b pp of (d, i, _) \<Rightarrow> i \<and> d)"
  by (simp add: drives_pin_def conf_def Let_def)

lemma conf_input: "input_pin b pp \<longleftrightarrow> (case conf b pp of (d, i, u, a, _) \<Rightarrow> \<not> (if i then d else if u then a else d))"
  by (simp add: input_pin_def conf_def Let_def)

lemma conf_ddr: "bit (ddr (bports b (pa_port pp))) (pa_pinNo pp) = fst (conf b pp)"
  by (simp add: conf_def Let_def)

lemma wp_set_conf:
  fixes d :: "(spi, 'f::zero, 'w, 'hw) part_dev"
  assumes s: "settled (pboard d)" and pp: "on_port (pboard d) pp"
    and F: "\<And>g q. portPins (F g q) = portPins q" "\<And>g q. portMask (F g q) = portMask q"
      "\<And>q k. k \<noteq> pa_pinNo pp \<Longrightarrow> out_state (F (SetVal (pa_pinNo pp) v) q) k = out_state q k"
    and G: "\<And>(b :: ('f, 'w) board) x. pa_pinNo pp < 8 \<Longrightarrow> conf (b\<lparr>bports := (bports b)(pa_port pp := (F (SetVal (pa_pinNo pp) v) (bports b (pa_port pp)))\<lparr>pin := x\<rparr>)\<rparr>) =
      (conf b)(pp := g (conf b pp))"
    and post: "\<And>c. settled c \<Longrightarrow> (\<And>q. on_port c q = on_port (pboard d) q) \<Longrightarrow> conf c = (conf (pboard d))(pp := g (conf (pboard d) pp)) \<Longrightarrow>
      (\<And>q. on_port (pboard d) q \<Longrightarrow> q \<noteq> pp \<Longrightarrow> PinAtPort_bool q c = PinAtPort_bool q (pboard d)) \<Longrightarrow> Q () (d\<lparr>pboard := c\<rparr>)"
  shows "wp (on_pboard (PinAtPort_set L F pp v)) Q d"
proof -
  let ?b = "pboard d" and ?upd = "F (SetVal (pa_pinNo pp) v)"
  obtain c x where c: "sq (modify (upd_port (pa_port pp) ?upd)) (CalcOutputs L (pa_port pp)) ?b = Inr ((), c)" "settled c"
    "bports c = (bports ?b)(pa_port pp := (?upd (bports ?b (pa_port pp)))\<lparr>pin := x\<rparr>)"
    "\<And>q. on_port ?b q \<Longrightarrow> q \<noteq> pp \<Longrightarrow> PinAtPort_bool q c = PinAtPort_bool q ?b"
    by (rule PinAtPort_settled [OF s pp, where upd = ?upd and L = L, OF F]) simp_all
  have k: "pa_pinNo pp < 8"
    using s pp by (fastforce simp: settled_def board_free_def port_free_def Let_def on_port_def)
  have "conf c = conf (?b\<lparr>bports := bports c\<rparr>)" by (simp add: conf_def fun_eq_iff Let_def)
  also have "\<dots> = (conf ?b)(pp := g (conf ?b pp))" unfolding c(3) by (rule G [OF k])
  finally have "conf c = (conf ?b)(pp := g (conf ?b pp))" .
  moreover have "on_port c q = on_port ?b q" for q by (simp add: on_port_def c(3) F)
  ultimately show ?thesis using c(1) post [OF c(2) _ _ c(4)]
    by (intro wpI [where x = "()" and t = "d\<lparr>pboard := c\<rparr>"]) (simp_all add: PinAtPort_set_def)
qed

text \<open>\<open>reconf d P f e\<close>: \<open>e\<close> is \<open>d\<close> with the configuration \<open>f\<close> and other levels at the pins in \<open>P\<close> only.\<close>

definition reconf :: "(spi, 'f, 'w, 'hw) part_dev \<Rightarrow> pin_at_port set \<Rightarrow> (pin_at_port \<Rightarrow> pin_conf) \<Rightarrow> (spi, 'f, 'w, 'hw) part_dev \<Rightarrow> bool" where
  "reconf d P f e \<longleftrightarrow> spi_dev e \<and> part e = part d \<and> requests e = requests d \<and> conf (pboard e) = f \<and>
     (\<forall>q. on_port (pboard e) q = on_port (pboard d) q) \<and> (\<forall>q. on_port (pboard d) q \<longrightarrow> q \<notin> P \<longrightarrow> lev e q = lev d q)"

lemma reconf_refl: "spi_dev d \<Longrightarrow> reconf d {} (conf (pboard d)) d"
  by (simp add: reconf_def)

lemma wp_set_reconf:
  fixes d :: "(spi, 'f::zero, 'w, 'hw) part_dev"
  assumes r: "reconf d P f e" and pp: "pp \<in> {MOSI (part d), MISO (part d), SCK (part d), SS (part d)}"
    and F: "\<And>g q. portPins (F g q) = portPins q" "\<And>g q. portMask (F g q) = portMask q"
      "\<And>q k. k \<noteq> pa_pinNo pp \<Longrightarrow> pa_pinNo pp < 8 \<Longrightarrow> out_state (F (SetVal (pa_pinNo pp) v) q) k = out_state q k"
    and G: "\<And>(b :: ('f, 'w) board) x. pa_pinNo pp < 8 \<Longrightarrow> conf (b\<lparr>bports := (bports b)(pa_port pp := (F (SetVal (pa_pinNo pp) v) (bports b (pa_port pp)))\<lparr>pin := x\<rparr>)\<rparr>) =
      (conf b)(pp := g (conf b pp))"
    and post: "\<And>e'. reconf d (insert pp P) (f(pp := g (f pp))) e' \<Longrightarrow> Q () e'"
  shows "wp (on_pboard (PinAtPort_set L F pp v)) Q e"
proof -
  have e: "spi_dev e" "part e = part d" "conf (pboard e) = f" "\<And>q. on_port (pboard e) q = on_port (pboard d) q"
    using r by (simp_all add: reconf_def)
  have on: "on_port (pboard e) pp" using spi_devD(2-5) [OF e(1)] pp e(2) by auto
  have "pa_pinNo pp < 8"
    using spi_devD(1) [OF e(1)] on by (fastforce simp: settled_def board_free_def port_free_def Let_def on_port_def)
  note F' = F(1,2) F(3) [OF _ this]
  show ?thesis
  proof (rule wp_set_conf [where g = g and F = F and pp = pp and d = e, OF spi_devD(1) [OF e(1)] on F' G])
    fix c :: "('f, 'w) board"
    assume "settled c" "\<And>q. on_port c q = on_port (pboard e) q" "conf c = (conf (pboard e))(pp := g (conf (pboard e) pp))"
      "\<And>q. on_port (pboard e) q \<Longrightarrow> q \<noteq> pp \<Longrightarrow> PinAtPort_bool q c = PinAtPort_bool q (pboard e)"
    then show "Q () (e\<lparr>pboard := c\<rparr>)" using r e by (intro post) (auto simp: reconf_def spi_dev_def Let_def)
  qed
qed

lemma wp_reconf:
  assumes "reconf d P f e" "pp \<in> {MOSI (part d), MISO (part d), SCK (part d), SS (part d)}"
  shows "(\<And>e'. reconf d (insert pp P) (f(pp := (\<lambda>(d, i, u, a, p). (d, v, u, a, p)) (f pp))) e' \<Longrightarrow> Q () e') \<Longrightarrow>
      wp (on_pboard (SetUseAlternatePortIfDdrSet L pp v)) Q e"
    "(\<And>e'. reconf d (insert pp P) (f(pp := (\<lambda>(d, i, u, a, p). (d, i, v, a, p)) (f pp))) e' \<Longrightarrow> Q () e') \<Longrightarrow>
      wp (on_pboard (SetUseAlternateDdr L pp v)) Q e"
    "(\<And>e'. reconf d (insert pp P) (f(pp := (\<lambda>(d, i, u, a, p). (d, i, u, v, p)) (f pp))) e' \<Longrightarrow> Q () e') \<Longrightarrow>
      wp (on_pboard (SetAlternateDdr L pp v)) Q e"
    "(\<And>e'. reconf d (insert pp P) (f(pp := (\<lambda>(d, i, u, a, p). (d, i, u, a, v)) (f pp))) e' \<Longrightarrow> Q () e') \<Longrightarrow>
      wp (on_pboard (SetAlternatePort L pp v)) Q e"
  subgoal premises p unfolding SetUseAlternatePortIfDdrSet_def
    by (rule wp_set_reconf [where g = "\<lambda>(d, i, u, a, p). (d, v, u, a, p)" and F = useAlternatePortIfDdrSet_update and pp = pp, OF assms], simp, simp, simp add: out_state_def bit_SetVal,
      (auto simp: bit_SetVal conf_def Let_def fun_eq_iff intro!: pin_at_port.equality)[1], rule p)
  subgoal premises p unfolding SetUseAlternateDdr_def
    by (rule wp_set_reconf [where g = "\<lambda>(d, i, u, a, p). (d, i, v, a, p)" and F = useAlternateDdr_update and pp = pp, OF assms], simp, simp, simp add: out_state_def bit_SetVal,
      (auto simp: bit_SetVal conf_def Let_def fun_eq_iff intro!: pin_at_port.equality)[1], rule p)
  subgoal premises p unfolding SetAlternateDdr_def
    by (rule wp_set_reconf [where g = "\<lambda>(d, i, u, a, p). (d, i, u, v, p)" and F = alternateDdr_update and pp = pp, OF assms], simp, simp, simp add: out_state_def bit_SetVal,
      (auto simp: bit_SetVal conf_def Let_def fun_eq_iff intro!: pin_at_port.equality)[1], rule p)
  subgoal premises p unfolding SetAlternatePort_def
    by (rule wp_set_reconf [where g = "\<lambda>(d, i, u, a, p). (d, i, u, a, v)" and F = alternatePort_update and pp = pp, OF assms], simp, simp, simp add: out_state_def bit_SetVal,
      (auto simp: bit_SetVal conf_def Let_def fun_eq_iff intro!: pin_at_port.equality)[1], rule p)
  done

lemma sq_runs: "wp m (\<lambda>_ t. \<exists>e. R e \<and> (\<forall>n. g n t = n e)) s \<Longrightarrow> \<exists>e. R e \<and> (\<forall>n. sq m (g n) s = n e)"
  by (elim wpE) (auto simp: sq_def)

lemma spi_pins:
  assumes "reconf d P f e" "pp \<in> {MOSI (part d), MISO (part d), SCK (part d), SS (part d)}"
  shows "(\<And>e'. reconf d (insert pp P) (f(pp := (\<lambda>(d, i, u, a, p). (d, v, u, a, p)) (f pp))) e' \<Longrightarrow> \<exists>c. R c \<and> (\<forall>n. g n e' = n c)) \<Longrightarrow>
      \<exists>c. R c \<and> (\<forall>n. sq (on_pboard (SetUseAlternatePortIfDdrSet L pp v)) (g n) e = n c)"
    "(\<And>e'. reconf d (insert pp P) (f(pp := (\<lambda>(d, i, u, a, p). (d, i, v, a, p)) (f pp))) e' \<Longrightarrow> \<exists>c. R c \<and> (\<forall>n. g n e' = n c)) \<Longrightarrow>
      \<exists>c. R c \<and> (\<forall>n. sq (on_pboard (SetUseAlternateDdr L pp v)) (g n) e = n c)"
    "(\<And>e'. reconf d (insert pp P) (f(pp := (\<lambda>(d, i, u, a, p). (d, i, u, v, p)) (f pp))) e' \<Longrightarrow> \<exists>c. R c \<and> (\<forall>n. g n e' = n c)) \<Longrightarrow>
      \<exists>c. R c \<and> (\<forall>n. sq (on_pboard (SetAlternateDdr L pp v)) (g n) e = n c)"
    "(\<And>e'. reconf d (insert pp P) (f(pp := (\<lambda>(d, i, u, a, p). (d, i, u, a, v)) (f pp))) e' \<Longrightarrow> \<exists>c. R c \<and> (\<forall>n. g n e' = n c)) \<Longrightarrow>
      \<exists>c. R c \<and> (\<forall>n. sq (on_pboard (SetAlternatePort L pp v)) (g n) e = n c)"
  by (rule sq_runs, erule wp_reconf [OF assms])+

lemma driven_conf:
  assumes "settled b" "on_port b pp" "conf b pp = (d, True, u, a, p)"
  shows "drives pp (if p then HIGH else LOW) b \<longleftrightarrow> d" "d \<Longrightarrow> PinAtPort_bool pp b = p"
  using settledD(2,3) [OF assms(1,2)] assms(3)
  by (auto simp: drives_def out_state_def conf_def Let_def Pin_bool_def split: if_splits)

section \<open>Enabling and disabling\<close>

lemma spi_dev_upd:
  assumes "MOSI s = MOSI (part d)" "MISO s = MISO (part d)" "SCK s = SCK (part d)" "SS s = SS (part d)" "irq_vector s = irq_vector (part d)"
  shows "spi_dev (d\<lparr>part := s\<rparr>) = spi_dev d"
  using assms by (simp add: spi_dev_def Let_def)

lemma updatePrescaler_sel [simp]: "MOSI (updatePrescaler s) = MOSI s" "MISO (updatePrescaler s) = MISO s" "SCK (updatePrescaler s) = SCK s"
    "SS (updatePrescaler s) = SS s" "irq_vector (updatePrescaler s) = irq_vector s" "spcr (updatePrescaler s) = spcr s"
  by (simp_all add: updatePrescaler_def Let_def)

lemma reconf_end:
  assumes "reconf (d\<lparr>part := s\<rparr>) P f e" "MOSI s = MOSI (part d)" "MISO s = MISO (part d)" "SCK s = SCK (part d)" "SS s = SS (part d)"
    "irq_vector s = irq_vector (part d)"
  shows "spi_dev (e\<lparr>part := updatePrescaler (part e)\<rparr>)" "part e = s" "requests e = requests d" "conf (pboard e) = f"
    "settled (pboard e)" "\<And>q. on_port (pboard e) q = on_port (pboard d) q"
    "\<And>q. on_port (pboard d) q \<Longrightarrow> q \<notin> P \<Longrightarrow> lev e q = lev d q"
  using assms by (auto simp: reconf_def spi_dev_upd dest: spi_devD(1))

text \<open>The calls of an enabled master, up to the assertion.\<close>

lemma master_pins:
  assumes d: "spi_dev d" and p: "mosi = MOSI (part d)" "miso = MISO (part d)" "sck = SCK (part d)"
  shows "\<exists>e. reconf d {miso, mosi, sck} ((conf (pboard d))(miso := (\<lambda>(d, i, u, a, p). (d, i, True, False, p)) (conf (pboard d) miso),
      mosi := (\<lambda>(d, i, u, a, p). (d, True, u, a, True)) (conf (pboard d) mosi),
      sck := (\<lambda>(d, i, u, a, p). (d, True, u, a, v)) (conf (pboard d) sck))) e \<and>
    (\<forall>n. sq (on_pboard (SetUseAlternateDdr L miso True)) (sq (on_pboard (SetAlternateDdr L miso False))
       (sq (on_pboard (SetUseAlternatePortIfDdrSet L mosi True)) (sq (on_pboard (SetAlternatePort L mosi True))
       (sq (on_pboard (SetAlternatePort L sck v)) (sq (on_pboard (SetUseAlternatePortIfDdrSet L sck True)) n))))) d = n e)"
  (is "\<exists>e. ?R e \<and> _")
proof -
  have ne: "mosi \<noteq> miso" "mosi \<noteq> sck" "miso \<noteq> sck" using spi_devD(7) [OF d] p by auto
  show ?thesis
    apply (rule spi_pins(2) [where R = ?R, OF reconf_refl [OF d]], simp add: p)
    apply (erule spi_pins(3) [where R = ?R], simp add: p)
    apply (erule spi_pins(1) [where R = ?R], simp add: p)
    apply (erule spi_pins(4) [where R = ?R], simp add: p)
    apply (erule spi_pins(4) [where R = ?R], simp add: p)
    apply (erule spi_pins(1) [where R = ?R], simp add: p)
    subgoal for a b c e f g
      by (rule exI [of _ g]) (simp add: ne ne [symmetric] split_def insert_commute)
    done
qed

lemma SetSPCR_master:
  assumes d: "spi_dev d" and on: "bit val SPE" "bit val MSTR" and s: "s = (part d)\<lparr>spcr := val, spi_clocked := True\<rparr>"
  shows "\<exists>e. reconf (d\<lparr>part := s\<rparr>) {MISO s, MOSI s, SCK s} ((conf (pboard d))
      (MISO s := (\<lambda>(d, i, u, a, p). (d, i, True, False, p)) (conf (pboard d) (MISO s)),
       MOSI s := (\<lambda>(d, i, u, a, p). (d, True, u, a, True)) (conf (pboard d) (MOSI s)),
       SCK s := (\<lambda>(d, i, u, a, p). (d, True, u, a, bit val CPOL)) (conf (pboard d) (SCK s)))) e \<and>
    SetSPCR E val d = (if fst (conf (pboard d) (SCK s)) then Inr ((), e\<lparr>part := updatePrescaler (part e)\<rparr>) else Inl AssertionFailed)"
proof -
  let ?d = "d\<lparr>part := s\<rparr>"
  have d': "spi_dev ?d" using d s by (simp add: spi_dev_upd)
  obtain e where e: "reconf ?d {MISO s, MOSI s, SCK s} ((conf (pboard d))
      (MISO s := (\<lambda>(d, i, u, a, p). (d, i, True, False, p)) (conf (pboard d) (MISO s)),
       MOSI s := (\<lambda>(d, i, u, a, p). (d, True, u, a, True)) (conf (pboard d) (MOSI s)),
       SCK s := (\<lambda>(d, i, u, a, p). (d, True, u, a, bit val CPOL)) (conf (pboard d) (SCK s)))) e"
    and run: "\<And>n :: (_, unit) sim. sq (on_pboard (SetUseAlternateDdr (pe_listener E) (MISO s) True)) (sq (on_pboard (SetAlternateDdr (pe_listener E) (MISO s) False))
       (sq (on_pboard (SetUseAlternatePortIfDdrSet (pe_listener E) (MOSI s) True)) (sq (on_pboard (SetAlternatePort (pe_listener E) (MOSI s) True))
       (sq (on_pboard (SetAlternatePort (pe_listener E) (SCK s) (bit val CPOL)))
       (sq (on_pboard (SetUseAlternatePortIfDdrSet (pe_listener E) (SCK s) True)) n))))) ?d = n e"
    using master_pins [OF d', of "MOSI s" "MISO s" "SCK s" "bit val CPOL" "pe_listener E"] by auto
  have st: "settled (pboard e)" "on_port (pboard e) (SCK s)"
    using reconf_end(5,6) [OF e] spi_devD(4) [OF d'] s by simp_all
  obtain dd i u a p where cf: "conf (pboard d) (SCK s) = (dd, i, u, a, p)" by (cases "conf (pboard d) (SCK s)")
  have "drives (SCK s) (if bit val CPOL then HIGH else LOW) (pboard e) \<longleftrightarrow> dd"
    by (rule driven_conf(1) [OF st, of _ u a]) (use e cf in \<open>simp add: reconf_def\<close>)
  moreover have "SetSPCR E val d = sq (bnd (gets (\<lambda>d. drives (SCK s) (if bit val CPOL then HIGH else LOW) (pboard d))) assertM)
      (upd_part updatePrescaler) e"
    unfolding SetSPCR_def Let_def using on run by (simp add: s split del: if_split)
  ultimately show ?thesis using e cf by (intro exI [of _ e] conjI) simp_all
qed

lemma wp_SetSPCR_slave:
  assumes d: "spi_dev d" and on: "bit val SPE" "\<not> bit val MSTR" and s: "s = (part d)\<lparr>spcr := val, spi_clocked := True\<rparr>"
    and post: "\<And>e. reconf (d\<lparr>part := s\<rparr>) {MISO s, MOSI s, SCK s, SS s} ((conf (pboard d))
      (MISO s := (\<lambda>(d, i, u, a, p). (d, True, u, a, p)) (conf (pboard d) (MISO s)),
       MOSI s := (\<lambda>(d, i, u, a, p). (d, i, True, False, p)) (conf (pboard d) (MOSI s)),
       SCK s := (\<lambda>(d, i, u, a, p). (d, i, True, False, p)) (conf (pboard d) (SCK s)),
       SS s := (\<lambda>(d, i, u, a, p). (d, i, True, False, p)) (conf (pboard d) (SS s)))) e \<Longrightarrow> Q () (e\<lparr>part := updatePrescaler (part e)\<rparr>)"
  shows "wp (SetSPCR E val) Q d"
proof -
  let ?d = "d\<lparr>part := s\<rparr>"
  have d': "spi_dev ?d" using d s by (simp add: spi_dev_upd)
  have ne: "MOSI (part d) \<noteq> MISO (part d)" "MOSI (part d) \<noteq> SCK (part d)" "MISO (part d) \<noteq> SCK (part d)"
     "SS (part d) \<noteq> MISO (part d)" "SS (part d) \<noteq> SCK (part d)" "SS (part d) \<noteq> MOSI (part d)" using spi_devD(7) [OF d] by auto
  have sd: "(part d)\<lparr>spcr := val, spi_clocked := True\<rparr> = s" using s by simp
  show ?thesis
    unfolding SetSPCR_def Let_def wp_sq wp_bnd wp_basic prod.case if_P [OF on(1)] if_not_P [OF on(2)]
    apply (simp add: sd)
    apply (rule wp_reconf(1) [OF reconf_refl [OF d']], simp add: s)
    apply (erule wp_reconf(2), simp add: s)
    apply (erule wp_reconf(3), simp add: s)
    apply (erule wp_reconf(2), simp add: s)
    apply (erule wp_reconf(3), simp add: s)
    apply (erule wp_reconf(2), simp add: s)
    apply (erule wp_reconf(3), simp add: s)
    subgoal by (rule post) (simp add: s ne ne [symmetric] split_def insert_commute)
    done
qed

lemma wp_SetSPCR_off:
  assumes d: "spi_dev d" and on: "\<not> bit val SPE" and s: "s = (part d)\<lparr>spcr := val, bitcnt := 8, finished := False, spi_clocked := False\<rparr>"
    and post: "\<And>e. reconf (d\<lparr>part := s\<rparr>) {MISO s, MOSI s, SCK s, SS s} ((conf (pboard d))
      (MISO s := (\<lambda>(d, i, u, a, p). (d, False, False, a, p)) (conf (pboard d) (MISO s)),
       MOSI s := (\<lambda>(d, i, u, a, p). (d, False, False, a, p)) (conf (pboard d) (MOSI s)),
       SCK s := (\<lambda>(d, i, u, a, p). (d, False, False, a, p)) (conf (pboard d) (SCK s)),
       SS s := (\<lambda>(d, i, u, a, p). (d, i, False, a, p)) (conf (pboard d) (SS s)))) e \<Longrightarrow> Q () (e\<lparr>part := updatePrescaler (part e)\<rparr>)"
  shows "wp (SetSPCR E val) Q d"
proof -
  let ?d = "d\<lparr>part := s\<rparr>"
  have d': "spi_dev ?d" using d s by (simp add: spi_dev_upd)
  have ne: "MOSI (part d) \<noteq> MISO (part d)" "MOSI (part d) \<noteq> SCK (part d)" "MISO (part d) \<noteq> SCK (part d)"
     "SS (part d) \<noteq> MISO (part d)" "SS (part d) \<noteq> SCK (part d)" "SS (part d) \<noteq> MOSI (part d)" using spi_devD(7) [OF d] by auto
  have sd: "(part d)\<lparr>spcr := val, bitcnt := 8, finished := False, spi_clocked := False\<rparr> = s" using s by simp
  show ?thesis
    unfolding SetSPCR_def Let_def wp_sq wp_bnd wp_basic prod.case if_not_P [OF on]
    apply (simp add: sd)
    apply (rule wp_reconf(1) [OF reconf_refl [OF d']], simp add: s)
    apply (erule wp_reconf(1), simp add: s)
    apply (erule wp_reconf(1), simp add: s)
    apply (erule wp_reconf(2), simp add: s)
    apply (erule wp_reconf(2), simp add: s)
    apply (erule wp_reconf(2), simp add: s)
    apply (erule wp_reconf(2), simp add: s)
    subgoal by (rule post) (simp add: s ne ne [symmetric] split_def insert_commute fun_upd_twist)
    done
qed

text \<open>
  Writing SPCR. Enabled as a master with the clock pin an output, the interface drives the clock
  to its idle level, and MOSI high if that pin is an output; if the clock pin is not an output, the
  assertion of the code fails. Enabled as a slave it drives MISO if that pin is an output, and MOSI,
  SCK and SS are inputs unless they had been given an alternate output before. Disabled, MOSI, MISO
  and SCK are plain port pins again. No other pin changes its level.
\<close>

theorem spi_enable:
  assumes d: "spi_dev d" and s: "s = part d" and b: "b = pboard d"
  shows "(bit val SPE \<and> bit val MSTR \<and> PinAtPort_GetDdr (SCK s) b \<longrightarrow> wp (SetSPCR E val) (\<lambda>_ d'. spi_dev d' \<and>
       part d' = updatePrescaler (s\<lparr>spcr := val, spi_clocked := True\<rparr>) \<and>
       drives_pin (pboard d') (SCK s) \<and> lev d' (SCK s) = bit val CPOL \<and>
       (PinAtPort_GetDdr (MOSI s) b \<longrightarrow> drives_pin (pboard d') (MOSI s) \<and> lev d' (MOSI s)) \<and>
       (input_pin (pboard d') (MISO s) \<longleftrightarrow> \<not> drives_pin b (MISO s)) \<and>
       (\<forall>q. on_port b q \<longrightarrow> q \<notin> {MISO s, MOSI s, SCK s} \<longrightarrow> lev d' q = lev d q)) d) \<and>
     (bit val SPE \<and> bit val MSTR \<and> \<not> PinAtPort_GetDdr (SCK s) b \<longrightarrow> SetSPCR E val d = Inl AssertionFailed) \<and>
     (bit val SPE \<and> \<not> bit val MSTR \<longrightarrow> wp (SetSPCR E val) (\<lambda>_ d'. spi_dev d' \<and>
       part d' = updatePrescaler (s\<lparr>spcr := val, spi_clocked := True\<rparr>) \<and>
       (drives_pin (pboard d') (MISO s) \<longleftrightarrow> PinAtPort_GetDdr (MISO s) b) \<and>
       (\<forall>q \<in> {MOSI s, SCK s, SS s}. input_pin (pboard d') q \<longleftrightarrow> \<not> drives_pin b q) \<and>
       (\<forall>q. on_port b q \<longrightarrow> q \<notin> {MISO s, MOSI s, SCK s, SS s} \<longrightarrow> lev d' q = lev d q)) d) \<and>
     (\<not> bit val SPE \<longrightarrow> wp (SetSPCR E val) (\<lambda>_ d'. spi_dev d' \<and>
       part d' = updatePrescaler (s\<lparr>spcr := val, bitcnt := 8, finished := False, spi_clocked := False\<rparr>) \<and>
       (\<forall>q \<in> {MOSI s, MISO s, SCK s}. \<not> drives_pin (pboard d') q \<and> (input_pin (pboard d') q \<longleftrightarrow> \<not> PinAtPort_GetDdr q b)) \<and>
       (\<forall>q. on_port b q \<longrightarrow> q \<notin> {MISO s, MOSI s, SCK s, SS s} \<longrightarrow> lev d' q = lev d q)) d)"
proof -
  have ne: "MOSI s \<noteq> MISO s" "MOSI s \<noteq> SCK s" "MISO s \<noteq> SCK s" "SS s \<noteq> MISO s" "SS s \<noteq> SCK s" "SS s \<noteq> MOSI s"
    using spi_devD(7) [OF d] s by auto
  have on: "on_port b (MOSI s)" "on_port b (SCK s)" using spi_devD(2,4) [OF d] s b by simp_all
  have gd: "PinAtPort_GetDdr q b = fst (conf b q)" for q by (simp add: PinAtPort_GetDdr_def conf_ddr)
  note simps = s [symmetric] b [symmetric] ne ne [symmetric] split_def conf_drives conf_input gd
  let ?s = "s\<lparr>spcr := val, spi_clocked := True\<rparr>" and ?o = "s\<lparr>spcr := val, bitcnt := 8, finished := False, spi_clocked := False\<rparr>"
  have m: "\<exists>e. reconf (d\<lparr>part := ?s\<rparr>) {MISO s, MOSI s, SCK s} ((conf b)
      (MISO s := (\<lambda>(d, i, u, a, p). (d, i, True, False, p)) (conf b (MISO s)),
       MOSI s := (\<lambda>(d, i, u, a, p). (d, True, u, a, True)) (conf b (MOSI s)),
       SCK s := (\<lambda>(d, i, u, a, p). (d, True, u, a, bit val CPOL)) (conf b (SCK s)))) e \<and>
    SetSPCR E val d = (if fst (conf b (SCK s)) then Inr ((), e\<lparr>part := updatePrescaler (part e)\<rparr>) else Inl AssertionFailed)"
    if "bit val SPE" "bit val MSTR"
    using SetSPCR_master [OF d that refl, of E] by (simp add: s b)
  show ?thesis
  proof (intro conjI impI, goal_cases)
    case 1
    then obtain e where e: "reconf (d\<lparr>part := ?s\<rparr>) {MISO s, MOSI s, SCK s} ((conf b)
        (MISO s := (\<lambda>(d, i, u, a, p). (d, i, True, False, p)) (conf b (MISO s)),
         MOSI s := (\<lambda>(d, i, u, a, p). (d, True, u, a, True)) (conf b (MOSI s)),
         SCK s := (\<lambda>(d, i, u, a, p). (d, True, u, a, bit val CPOL)) (conf b (SCK s)))) e"
      "SetSPCR E val d = Inr ((), e\<lparr>part := updatePrescaler (part e)\<rparr>)" using m gd by auto
    note r = reconf_end [OF e(1)]
    obtain i u a p where cs: "conf b (SCK s) = (True, i, u, a, p)" using 1 gd by (cases "conf b (SCK s)") auto
    obtain d2 i2 u2 a2 p2 where cm: "conf b (MOSI s) = (d2, i2, u2, a2, p2)" by (cases "conf b (MOSI s)") auto
    have "lev e (SCK s) = bit val CPOL" by (rule driven_conf(2) [of _ _ True u a]) (use r on cs s b in simp_all)
    moreover have "d2 \<Longrightarrow> lev e (MOSI s)" using driven_conf(2) [of "pboard e" "MOSI s" d2 u2 a2 True] r on cm s b ne by simp
    ultimately show ?case by (intro wpI [where m = "SetSPCR E val", OF e(2)]) (use r cs cm in \<open>simp add: simps\<close>)
  next
    case 2
    then show ?case using m gd by auto
  next
    case 3
    show ?case
    proof (rule wp_SetSPCR_slave [OF d conjunct1 [OF 3] conjunct2 [OF 3] refl], unfold s [symmetric] b [symmetric], goal_cases)
      case (1 e)
      note r = reconf_end [OF 1]
      show ?case using r(1,6,7) by (simp add: simps r(2,4))
    qed
  next
    case 4
    show ?case
    proof (rule wp_SetSPCR_off [OF d 4 refl], unfold s [symmetric] b [symmetric], goal_cases)
      case (1 e)
      note r = reconf_end [OF 1]
      show ?case using r(1,6,7) by (simp add: simps r(2,4))
    qed
  qed
qed

theorem spi_enable_witness:
  "\<forall>E. (\<exists>d'. SetSPCR E 0x58 (sample_spi_dev 0xd 0 0xa5) = Inr ((), d') \<and> lev d' (SCK (part d')) \<and> lev d' (MOSI (part d'))) \<and>
     SetSPCR E 0x58 (sample_spi_dev 0 0 0xa5) = Inl AssertionFailed"
proof (intro allI conjI)
  fix E
  note e = spi_enable [OF sample_spi_ok refl refl, where val = "0x58" and E = E]
  have g: "PinAtPort_GetDdr (SCK (part (sample_spi_dev 0xd 0 0xa5))) (pboard (sample_spi_dev 0xd 0 0xa5))"
      "PinAtPort_GetDdr (MOSI (part (sample_spi_dev 0xd 0 0xa5))) (pboard (sample_spi_dev 0xd 0 0xa5))"
      "\<not> PinAtPort_GetDdr (SCK (part (sample_spi_dev 0 0 0xa5))) (pboard (sample_spi_dev 0 0 0xa5))"
    by (simp_all add: PinAtPort_GetDdr_def sample_spi_dev_def sample_spi_def sample_board_def)
  show "\<exists>d'. SetSPCR E 0x58 (sample_spi_dev 0xd 0 0xa5) = Inr ((), d') \<and> lev d' (SCK (part d')) \<and> lev d' (MOSI (part d'))"
    by (rule wpE [OF mp [OF conjunct1 [OF e [of "0xd" 0 "0xa5"]]]]) (use g in auto)
  show "SetSPCR E 0x58 (sample_spi_dev 0 0 0xa5) = Inl AssertionFailed"
    using e [of 0 0 "0xa5"] g(3) by simp
qed

end
