(* ===== verification/Avr_WatchDog.thy ===== *)
theory Avr_WatchDog
  imports Avr_Part
begin

text \<open>
  The watchdog with an interrupt of \<^verbatim>\<open>watchdog.cpp\<close>. A call of \<open>core->Reset()\<close> resets the watchdog
  itself, as a part of the device, and is reported as the result of the cycle.
\<close>

unbundle bit_operations_syntax

record watchdog =
  wdtcsr :: byte
  counter :: byte
  timeoutCount :: nat
  wd_timeOutAt :: int

type_synonym ('f, 'w, 'hw, 'a) wsim = "(watchdog, 'f, 'w, 'hw, 'a) psim"

abbreviation (input) WDIE :: nat where "WDIE \<equiv> 6"
abbreviation (input) WDCE :: nat where "WDCE \<equiv> 4"
abbreviation (input) WDRE :: nat where "WDRE \<equiv> 3"

section \<open>Operations\<close>

definition WatchDog_Wdr :: "int \<Rightarrow> watchdog \<Rightarrow> watchdog" where
  "WatchDog_Wdr now w0 =
     (let w = w0\<lparr>timeoutCount := 0\<rparr>; s = wdtcsr w AND 0x27 in
      if s = 0x00 then w\<lparr>wd_timeOutAt := now + 16000000\<rparr>
      else if s = 0x01 then w\<lparr>wd_timeOutAt := now + 32000000\<rparr>
      else if s = 0x02 then w\<lparr>wd_timeOutAt := now + 64000000\<rparr>
      else if s = 0x03 then w\<lparr>wd_timeOutAt := now + 125000000\<rparr>
      else if s = 0x04 then w\<lparr>wd_timeOutAt := now + 250000000\<rparr>
      else if s = 0x05 then w\<lparr>wd_timeOutAt := now + 500000000\<rparr>
      else if s = 0x06 then w\<lparr>wd_timeOutAt := now + 1000000000\<rparr>
      else if s = 0x07 then w\<lparr>wd_timeOutAt := now + 2000000000\<rparr>
      else if s = 0x20 then w\<lparr>wd_timeOutAt := now + 4000000000\<rparr>
      else if s = 0x21 then w\<lparr>wd_timeOutAt := now + 8000000000\<rparr>
      else w)"

definition WatchDog_Reset :: "watchdog \<Rightarrow> watchdog" where
  "WatchDog_Reset w = w\<lparr>wd_timeOutAt := 0, wdtcsr := 0, timeoutCount := 0\<rparr>"

definition setWdtcsr :: "int \<Rightarrow> byte \<Rightarrow> watchdog \<Rightarrow> watchdog" where
  "setWdtcsr now val w =
     (let w1 = (if bit val WDRE \<and> bit (wdtcsr w) WDCE then w\<lparr>wdtcsr := (val AND 0x08) OR (wdtcsr w AND 0xf7)\<rparr> else w);
          w2 = (if val AND 0x27 \<noteq> 0 \<and> bit (wdtcsr w1) WDCE
                then WatchDog_Wdr now (w1\<lparr>wdtcsr := (val AND 0x27) OR (wdtcsr w1 AND 0xd8)\<rparr>) else w1);
          w3 = (if bit val WDCE then w2\<lparr>counter := 4, wdtcsr := (val AND 0x10) OR (wdtcsr w2 AND 0xef)\<rparr> else w2)
      in if bit val WDIE then w3\<lparr>wdtcsr := (val AND 0x40) OR (wdtcsr w3 AND 0xbf)\<rparr> else w3)"

text \<open>The constructor; the part holds the member \<open>counter\<close> that it leaves uninitialised.\<close>

definition WatchDog :: "('f, 'w, 'hw) part_env \<Rightarrow> ('f, 'w, 'hw, unit) wsim" where
  "WatchDog E =
     sq (zoom pirq (\<lambda>q d. d\<lparr>pirq := q\<rparr>) (DebugVerifyInterruptVector 6 (pe_this E)))
     (sq (upd_part (\<lambda>w. w\<lparr>timeoutCount := 0\<rparr>)) (upd_part WatchDog_Reset))"

definition WatchDog_ClearIrqFlag :: "('f, 'w, 'hw) part_env \<Rightarrow> nat \<Rightarrow> ('f, 'w, 'hw, unit) wsim" where
  "WatchDog_ClearIrqFlag E vector = whenM (vector = 6) (clear_irq E 6)"

definition expired :: "int \<Rightarrow> watchdog \<Rightarrow> bool" where
  "expired now w \<longleftrightarrow> wd_timeOutAt w \<le> now \<and> wd_timeOutAt w \<noteq> 0"

definition gate_tick :: "watchdog \<Rightarrow> watchdog" where
  "gate_tick w =
     (let w1 = (if 0 < counter w then w\<lparr>counter := counter w - 1\<rparr> else w)
      in if counter w1 = 0 then w1\<lparr>wdtcsr := wdtcsr w1 AND (0xff - 0x10)\<rparr> else w1)"

text \<open>The three modes are tested one after the other; the result says that the core has been reset.\<close>

definition WatchDog_CpuCycle :: "('f, 'w, 'hw) part_env \<Rightarrow> ('f, 'w, 'hw, bool) wsim" where
  "WatchDog_CpuCycle E =
     sq (upd_part gate_tick)
     (bnd (get_part (\<lambda>w. bit (wdtcsr w) WDRE \<and> \<not> bit (wdtcsr w) WDIE \<and> expired (pe_now E) w)) (\<lambda>r.
     sq (whenM r (upd_part WatchDog_Reset))
     (bnd (get_part (\<lambda>w. \<not> bit (wdtcsr w) WDRE \<and> bit (wdtcsr w) WDIE \<and> expired (pe_now E) w)) (\<lambda>i.
     sq (whenM i (sq (set_irq E 6) (upd_part (\<lambda>w. w\<lparr>wd_timeOutAt := 0\<rparr>))))
     (bnd (get_part (\<lambda>w. (bit (wdtcsr w) WDRE \<and> bit (wdtcsr w) WDIE \<and> expired (pe_now E) w, timeoutCount w))) (\<lambda>(b, n).
      if b then
        if n = 0 then
          sq (set_irq E 6) (sq (upd_part (WatchDog_Wdr (pe_now E))) (sq (upd_part (\<lambda>w. w\<lparr>timeoutCount := 1\<rparr>)) (ret r)))
        else sq (upd_part WatchDog_Reset) (ret True)
      else ret r))))))"

section \<open>What the watchdog does\<close>

text \<open>The documented periods.\<close>

definition wd_period :: "byte \<Rightarrow> int option" where
  "wd_period c = map_of [(0x00, 16000000), (0x01, 32000000), (0x02, 64000000), (0x03, 125000000), (0x04, 250000000),
     (0x05, 500000000), (0x06, 1000000000), (0x07, 2000000000), (0x20, 4000000000), (0x21, 8000000000)] (c AND 0x27)"

lemma WatchDog_Wdr_period:
  "WatchDog_Wdr now w = (case wd_period (wdtcsr w) of None \<Rightarrow> w\<lparr>timeoutCount := 0\<rparr>
     | Some p \<Rightarrow> w\<lparr>timeoutCount := 0, wd_timeOutAt := now + p\<rparr>)"
  by (simp add: WatchDog_Wdr_def wd_period_def Let_def)

text \<open>The gate changes neither the mode nor the time.\<close>

lemma gate_tick_simps [simp]:
  "bit (wdtcsr (gate_tick w)) WDRE = bit (wdtcsr w) WDRE" "bit (wdtcsr (gate_tick w)) WDIE = bit (wdtcsr w) WDIE"
  "wdtcsr (gate_tick w) AND 0x27 = wdtcsr w AND 0x27"
  "wd_timeOutAt (gate_tick w) = wd_timeOutAt w" "timeoutCount (gate_tick w) = timeoutCount w"
proof -
  have m: "(x AND 0xef) AND 0x27 = x AND 0x27" "bit (x AND 0xef) 3 = bit x 3" "bit (x AND 0xef) 6 = bit x 6" for x :: byte
    by (simp_all add: and.assoc bit_and_iff)
  show "bit (wdtcsr (gate_tick w)) WDRE = bit (wdtcsr w) WDRE" "bit (wdtcsr (gate_tick w)) WDIE = bit (wdtcsr w) WDIE"
    "wdtcsr (gate_tick w) AND 0x27 = wdtcsr w AND 0x27"
    "wd_timeOutAt (gate_tick w) = wd_timeOutAt w" "timeoutCount (gate_tick w) = timeoutCount w"
    by (simp_all add: gate_tick_def Let_def m)
qed

text \<open>The watchdog is run at given times; the results of the cycles are collected.\<close>

primrec wd_run :: "('f, 'w, 'hw) part_env \<Rightarrow> int list \<Rightarrow> ('f, 'w, 'hw, bool list) wsim" where
  "wd_run E [] = ret []"
| "wd_run E (t # ts) = bnd (WatchDog_CpuCycle (E\<lparr>pe_now := t\<rparr>)) (\<lambda>r. bnd (wd_run E ts) (\<lambda>rs. ret (r # rs)))"

text \<open>A cycle at which nothing has expired, and one at which the time is over.\<close>

definition wd_mode :: "watchdog \<Rightarrow> bool \<times> bool" where
  "wd_mode w = (bit (wdtcsr w) WDRE, bit (wdtcsr w) WDIE)"

lemma expired_gate [simp]: "expired now (gate_tick w) = expired now w"
  by (simp add: expired_def)

lemma wd_reset_idle [simp]: "\<not> bit (wdtcsr (WatchDog_Reset w)) n"
  by (simp add: WatchDog_Reset_def)

lemma wd_mode_simps [simp]: "wd_mode (gate_tick w) = wd_mode w" "wd_mode (w\<lparr>wd_timeOutAt := a\<rparr>) = wd_mode w"
    "wd_mode (w\<lparr>timeoutCount := n\<rparr>) = wd_mode w" "wd_mode (w\<lparr>wd_timeOutAt := a, timeoutCount := n\<rparr>) = wd_mode w"
  by (simp_all add: wd_mode_def)

lemma wp_wd_idle:
  assumes "\<not> expired (pe_now E) (part d) \<or> wd_mode (part d) = (False, False)" "Q False (d\<lparr>part := gate_tick (part d)\<rparr>)"
  shows "wp (WatchDog_CpuCycle E) Q d"
  using assms unfolding WatchDog_CpuCycle_def by (auto simp: wp_simps wd_mode_def)

lemma wp_wd_reset_mode:
  assumes "expired (pe_now E) (part d)" "wd_mode (part d) = (True, False)"
    "Q True (d\<lparr>part := WatchDog_Reset (gate_tick (part d))\<rparr>)"
  shows "wp (WatchDog_CpuCycle E) Q d"
  using assms unfolding WatchDog_CpuCycle_def by (simp add: wp_simps wd_mode_def)

lemma wp_wd_interrupt_mode:
  assumes d: "irqs_ok {6} d" and m: "expired (pe_now E) (part d)" "wd_mode (part d) = (False, True)"
    and post: "\<And>d'. part d' = (gate_tick (part d))\<lparr>wd_timeOutAt := 0\<rparr> \<Longrightarrow> requests d' = insert 6 (requests d) \<Longrightarrow>
      irqs_ok {6} d' \<Longrightarrow> Q False d'"
  shows "wp (WatchDog_CpuCycle E) Q d"
proof -
  have c: "\<not> bit (wdtcsr (part d)) WDRE" "bit (wdtcsr (part d)) WDIE" "expired (pe_now E) (part d)"
    using m by (simp_all add: wd_mode_def)
  have i: "irqs_ok {6} (d\<lparr>part := gate_tick (part d)\<rparr>)" using d by simp
  show ?thesis unfolding WatchDog_CpuCycle_def wp_sq wp_bnd wp_basic
    by (simp add: c wp_whenM wp_sq wp_bnd wp_basic, rule wp_set_irq_irqs [OF i]) (simp_all add: wp_simps c post)
qed

lemma wp_wd_both_modes:
  assumes d: "irqs_ok {6} d" and m: "expired (pe_now E) (part d)" "wd_mode (part d) = (True, True)"
    and post: "timeoutCount (part d) \<noteq> 0 \<Longrightarrow> Q True (d\<lparr>part := WatchDog_Reset (gate_tick (part d))\<rparr>)"
      "\<And>d'. timeoutCount (part d) = 0 \<Longrightarrow> part d' = (WatchDog_Wdr (pe_now E) (gate_tick (part d)))\<lparr>timeoutCount := 1\<rparr> \<Longrightarrow>
        requests d' = insert 6 (requests d) \<Longrightarrow> irqs_ok {6} d' \<Longrightarrow> Q False d'"
  shows "wp (WatchDog_CpuCycle E) Q d"
proof -
  have c: "bit (wdtcsr (part d)) WDRE" "bit (wdtcsr (part d)) WDIE" "expired (pe_now E) (part d)"
    using m by (simp_all add: wd_mode_def)
  have i: "irqs_ok {6} (d\<lparr>part := gate_tick (part d)\<rparr>)" using d by simp
  show ?thesis
  proof (cases "timeoutCount (part d) = 0")
    case True
    then show ?thesis unfolding WatchDog_CpuCycle_def wp_sq wp_bnd wp_basic
      by (simp add: c wp_whenM wp_sq wp_bnd wp_basic, intro wp_set_irq_irqs [OF i]) (simp_all add: wp_simps c post(2))
  next
    case False
    then show ?thesis unfolding WatchDog_CpuCycle_def by (simp add: c wp_simps post)
  qed
qed

lemma gate_ticks [simp]:
  "wd_mode ((gate_tick ^^ n) w) = wd_mode w" "wdtcsr ((gate_tick ^^ n) w) AND 0x27 = wdtcsr w AND 0x27"
  "wd_timeOutAt ((gate_tick ^^ n) w) = wd_timeOutAt w" "timeoutCount ((gate_tick ^^ n) w) = timeoutCount w"
  by (induction n) (simp_all add: wd_mode_def)

lemma wp_wd_run_idle:
  assumes "irqs_ok {6} d" "\<forall>t \<in> set ts. \<not> expired t (part d)"
  shows "wp (wd_run E ts) (\<lambda>rs d'. rs = replicate (length ts) False \<and> d' = d\<lparr>part := (gate_tick ^^ length ts) (part d)\<rparr>) d"
  using assms
proof (induction ts arbitrary: d)
  case (Cons t ts)
  have "wp (WatchDog_CpuCycle (E\<lparr>pe_now := t\<rparr>)) (\<lambda>r d'. wp (wd_run E ts) (\<lambda>rs d''. r # rs = replicate (length (t # ts)) False \<and>
      d'' = d\<lparr>part := (gate_tick ^^ length (t # ts)) (part d)\<rparr>) d') d"
  proof (rule wp_wd_idle)
    show "wp (wd_run E ts) (\<lambda>rs d''. False # rs = replicate (length (t # ts)) False \<and>
        d'' = d\<lparr>part := (gate_tick ^^ length (t # ts)) (part d)\<rparr>) (d\<lparr>part := gate_tick (part d)\<rparr>)"
      by (rule wp_mono [OF Cons.IH]) (use Cons.prems in \<open>simp_all add: funpow_swap1\<close>)
  qed (use Cons.prems in simp)
  then show ?case by (simp add: wp_simps)
qed (simp add: wp_simps)

lemma wp_wd_run_snoc:
  "wp (wd_run E ts) (\<lambda>rs. wp (WatchDog_CpuCycle (E\<lparr>pe_now := t\<rparr>)) (\<lambda>r. Q (rs @ [r]))) d \<Longrightarrow> wp (wd_run E (ts @ [t])) Q d"
  by (induction ts arbitrary: d Q) (auto simp: wp_simps elim!: wp_mono)

text \<open>
  C24. The watchdog, run at times before its time is over and then at one that is not, does nothing at
  first and then: nothing if it is not enabled, a reset in reset mode, one request in interrupt
  mode, after which it stops, and in the mode with both a request and a new period at the first
  time, and a reset at the second.
\<close>

theorem watchdog_timeout:
  assumes "irqs_ok {6} d" "w = part d" "0 < wd_timeOutAt w" "\<forall>u \<in> set ts. u < wd_timeOutAt w" "wd_timeOutAt w \<le> t"
    and "wd_period (wdtcsr w) = Some p"
  shows "wp (wd_run E (ts @ [t])) (\<lambda>rs d'. \<exists>r. rs = replicate (length ts) False @ [r] \<and>
     (if wd_mode w = (True, False) \<or> wd_mode w = (True, True) \<and> timeoutCount w \<noteq> 0
      then r \<and> wdtcsr (part d') = 0 \<and> requests d' = requests d
      else if wd_mode w = (False, True)
      then \<not> r \<and> requests d' = insert 6 (requests d) \<and> wd_timeOutAt (part d') = 0
      else if wd_mode w = (True, True)
      then \<not> r \<and> requests d' = insert 6 (requests d) \<and> timeoutCount (part d') = 1 \<and> wd_timeOutAt (part d') = t + p \<and>
        wd_mode (part d') = wd_mode w
      else \<not> r \<and> requests d' = requests d \<and> wd_timeOutAt (part d') = wd_timeOutAt w)) d"
    (is "wp _ (\<lambda>rs d'. \<exists>r. _ \<and> ?P r d') d")
proof (rule wp_wd_run_snoc, rule wp_mono [OF wp_wd_run_idle])
  let ?w = "(gate_tick ^^ length ts) w" and ?E = "E\<lparr>pe_now := t\<rparr>"
  fix rs d1
  assume r: "rs = replicate (length ts) False \<and> d1 = d\<lparr>part := (gate_tick ^^ length ts) (part d)\<rparr>"
  then have d1: "part d1 = ?w" "requests d1 = requests d" "irqs_ok {6} d1" using assms(1,2) by simp_all
  have x: "expired (pe_now ?E) (part d1)" using assms(3,5) d1 by (simp add: expired_def)
  have m: "wd_mode (part d1) = wd_mode w" "timeoutCount (part d1) = timeoutCount w" using d1 by simp_all
  have P: "(\<exists>r'. replicate (length ts) False @ [r] = replicate (length ts) False @ [r'] \<and> ?P r' d') \<longleftrightarrow> ?P r d'" for r d' by auto
  have pp: "wd_period (wdtcsr (gate_tick ?w)) = Some p" using assms(6) by (simp add: wd_period_def)
  show "wp (WatchDog_CpuCycle ?E) (\<lambda>r d'. \<exists>r'. rs @ [r] = replicate (length ts) False @ [r'] \<and> ?P r' d') d1"
    unfolding conjunct1 [OF r] P
  proof (cases "wd_mode w" rule: prod.exhaust)
    case (Pair a b)
    then consider "wd_mode w = (False, False)" | "wd_mode w = (True, False)" | "wd_mode w = (False, True)" | "wd_mode w = (True, True)"
      by (cases a; cases b) auto
    then show "wp (WatchDog_CpuCycle ?E) ?P d1"
    proof cases
      case 1
      then show ?thesis by (intro wp_wd_idle) (simp_all add: m d1)
    next
      case 2
      then show ?thesis by (intro wp_wd_reset_mode [OF x]) (simp_all add: m d1 WatchDog_Reset_def)
    next
      case 3
      then show ?thesis by (intro wp_wd_interrupt_mode [OF d1(3) x]) (simp_all add: m d1)
    next
      case 4
      then show ?thesis
        by (intro wp_wd_both_modes [OF d1(3) x])
          (simp_all add: m d1(1,2) WatchDog_Reset_def WatchDog_Wdr_period pp)
    qed
  qed
qed (use assms in \<open>auto simp: expired_def\<close>)

text \<open>The four cycles of the gate.\<close>

lemma gate_tick_open: "1 < counter w \<Longrightarrow> gate_tick w = w\<lparr>counter := counter w - 1\<rparr>"
proof -
  assume "1 < counter w"
  then have "0 < counter w" "counter w - 1 \<noteq> 0" by (auto simp: word_less_def)
  then show ?thesis by (simp add: gate_tick_def Let_def)
qed

lemma gate_tick_closed: "counter w \<le> 1 \<Longrightarrow> counter (gate_tick w) = 0 \<and> \<not> bit (wdtcsr (gate_tick w)) WDCE"
proof -
  assume "counter w \<le> 1"
  then have "counter w = 0 \<or> counter w = 1" by (metis word_le_less_eq word_less_1)
  then show ?thesis by (auto simp: gate_tick_def Let_def bit_and_iff)
qed

lemma gate_counts:
  assumes c: "counter w = 4"
  shows "n < 4 \<Longrightarrow> bit (wdtcsr ((gate_tick ^^ n) w)) WDCE = bit (wdtcsr w) WDCE"
    "4 \<le> n \<Longrightarrow> counter ((gate_tick ^^ n) w) = 0 \<and> \<not> bit (wdtcsr ((gate_tick ^^ n) w)) WDCE"
proof -
  have 1: "gate_tick w = w\<lparr>counter := 3\<rparr>" using gate_tick_open [of w] c by simp
  have 2: "gate_tick (w\<lparr>counter := 3\<rparr>) = w\<lparr>counter := 2\<rparr>" "gate_tick (w\<lparr>counter := 2\<rparr>) = w\<lparr>counter := 1\<rparr>"
    using gate_tick_open [of "w\<lparr>counter := 3\<rparr>"] gate_tick_open [of "w\<lparr>counter := 2\<rparr>"] by simp_all
  show "bit (wdtcsr ((gate_tick ^^ n) w)) WDCE = bit (wdtcsr w) WDCE" if "n < 4"
  proof -
    from that consider "n = 0" | "n = 1" | "n = 2" | "n = 3" by linarith
    then show ?thesis by cases (simp_all add: 1 2 eval_nat_numeral)
  qed
  show "4 \<le> n \<Longrightarrow> counter ((gate_tick ^^ n) w) = 0 \<and> \<not> bit (wdtcsr ((gate_tick ^^ n) w)) WDCE"
  proof (induction n rule: dec_induct)
    case base
    have "(gate_tick ^^ 4) w = gate_tick (w\<lparr>counter := 1\<rparr>)" by (simp add: 1 2 eval_nat_numeral)
    then show ?case using gate_tick_closed [of "w\<lparr>counter := 1\<rparr>"] by simp
  next
    case (step n)
    then show ?case using gate_tick_closed [of "(gate_tick ^^ n) w"] by simp
  qed
qed

text \<open>The register after a write, and the time.\<close>

lemmas mask_simps = bit.conj_disj_distrib2 and.assoc bit_or_iff bit_and_iff

lemma WatchDog_Wdr_wdtcsr [simp]: "wdtcsr (WatchDog_Wdr now w) = wdtcsr w" "counter (WatchDog_Wdr now w) = counter w"
  by (simp_all add: WatchDog_Wdr_period split: option.split)

lemma setWdtcsr_bits:
  "bit (wdtcsr (setWdtcsr now val w)) WDRE \<longleftrightarrow> bit (wdtcsr w) WDRE \<or> bit val WDRE \<and> bit (wdtcsr w) WDCE"
  "bit (wdtcsr (setWdtcsr now val w)) WDIE \<longleftrightarrow> bit (wdtcsr w) WDIE \<or> bit val WDIE"
  "bit (wdtcsr (setWdtcsr now val w)) WDCE \<longleftrightarrow> bit (wdtcsr w) WDCE \<or> bit val WDCE"
  "wdtcsr (setWdtcsr now val w) AND 0x27 = (if bit (wdtcsr w) WDCE \<and> val AND 0x27 \<noteq> 0 then val else wdtcsr w) AND 0x27"
  by (auto simp: setWdtcsr_def Let_def mask_simps)

lemma setWdtcsr_time:
  "wd_timeOutAt (setWdtcsr now val w) =
     (if bit (wdtcsr w) WDCE \<and> val AND 0x27 \<noteq> 0 then (case wd_period val of None \<Rightarrow> wd_timeOutAt w | Some p \<Rightarrow> now + p)
      else wd_timeOutAt w)"
  by (auto simp: setWdtcsr_def Let_def mask_simps WatchDog_Wdr_period wd_period_def split: option.split)

text \<open>
  C28. The change enable bit opens a gate of four cycles: three cycles after a write that sets it the
  bit is still set, from the fourth on it is clear. With the gate open, a write sets the reset mode
  and a prescaler and restarts the time; with the gate closed, it changes neither of them nor the
  time. No write ever takes the watchdog out of the reset mode or the interrupt mode.
\<close>

theorem watchdog_gate:
  "(bit val WDCE \<longrightarrow> (bit (wdtcsr ((gate_tick ^^ n) (setWdtcsr now val w))) WDCE \<longleftrightarrow> n < 4)) \<and>
   (\<not> bit (wdtcsr w) WDCE \<longrightarrow> wdtcsr (setWdtcsr now val w) AND 0x2f = wdtcsr w AND 0x2f \<and>
      wd_timeOutAt (setWdtcsr now val w) = wd_timeOutAt w) \<and>
   (bit (wdtcsr w) WDCE \<and> val AND 0x27 \<noteq> 0 \<longrightarrow> wdtcsr (setWdtcsr now val w) AND 0x27 = val AND 0x27 \<and>
      wd_timeOutAt (setWdtcsr now val w) = (case wd_period val of None \<Rightarrow> wd_timeOutAt w | Some p \<Rightarrow> now + p)) \<and>
   (bit (wdtcsr (setWdtcsr now val w)) WDRE \<longleftrightarrow> bit (wdtcsr w) WDRE \<or> bit val WDRE \<and> bit (wdtcsr w) WDCE) \<and>
   (bit (wdtcsr (setWdtcsr now val w)) WDIE \<longleftrightarrow> bit (wdtcsr w) WDIE \<or> bit val WDIE)"
proof (intro conjI impI)
  assume v: "bit val WDCE"
  then have "counter (setWdtcsr now val w) = 4" by (simp add: setWdtcsr_def Let_def)
  then show "bit (wdtcsr ((gate_tick ^^ n) (setWdtcsr now val w))) WDCE \<longleftrightarrow> n < 4"
    using gate_counts [of "setWdtcsr now val w" n] v by (cases "n < 4") (auto simp: setWdtcsr_bits)
next
  assume c: "\<not> bit (wdtcsr w) WDCE"
  have s: "x AND 0x2f = (x AND 0x27) OR (if bit x 3 then 8 else 0)" for x :: byte
  proof -
    have "x AND 0x2f = (x AND 0x27) OR (x AND 8)" by (simp add: bit.conj_disj_distrib [symmetric])
    moreover have "x AND 8 = (if bit x 3 then 8 else 0)"
    proof (rule bit_word_eqI)
      fix n :: nat
      assume "n < LENGTH(8)"
      then have "n = 0 \<or> n = 1 \<or> n = 2 \<or> n = 3 \<or> n = 4 \<or> n = 5 \<or> n = 6 \<or> n = 7" by auto
      then show "bit (x AND 8) n = bit (if bit x 3 then (8 :: byte) else 0) n" by (elim disjE) (simp_all add: bit_and_iff)
    qed
    ultimately show ?thesis by simp
  qed
  show "wdtcsr (setWdtcsr now val w) AND 0x2f = wdtcsr w AND 0x2f" unfolding s using c by (simp add: setWdtcsr_bits)
qed (simp_all add: setWdtcsr_bits setWdtcsr_time)

section \<open>Examples\<close>

definition sample_wd :: "byte \<Rightarrow> nat \<Rightarrow> (watchdog, int, unit, char) part_dev" where
  "sample_wd r n = \<lparr>part = \<lparr>wdtcsr = r, counter = 0, timeoutCount = n, wd_timeOutAt = 100\<rparr>, pirq = HWIrqSystem 2 20,
     pboard = \<lparr>bpins = undefined, bnets = undefined, bports = undefined, bworld = ()\<rparr>\<rparr>"

lemma sample_wd_ok: "irqs_ok {6} (sample_wd r n)" "requests (sample_wd r n) = {}"
  by (simp_all add: irqs_ok_def irq_ok_def table_ok_def HWIrqSystem_def sample_wd_def requests_def)

theorem watchdog_timeout_witness:
  "\<forall>E. (\<exists>d'. wd_run E [40, 99, 100] (sample_wd 0x48 0) = Inr ([False, False, False], d') \<and> requests d' = {6} \<and>
       wd_timeOutAt (part d') = 16000100) \<and>
     (\<exists>d'. wd_run E [40, 99, 100] (sample_wd 0x48 1) = Inr ([False, False, True], d') \<and> requests d' = {})"
proof (intro allI conjI)
  fix E
  note w = watchdog_timeout [OF _ refl, where ts = "[40, 99]" and t = 100 and p = 16000000 and E = E]
  have m: "wd_mode (part (sample_wd 0x48 n)) = (True, True)" "wd_timeOutAt (part (sample_wd 0x48 n)) = 100"
    "timeoutCount (part (sample_wd 0x48 n)) = n" "wd_period (wdtcsr (part (sample_wd 0x48 n))) = Some 16000000" for n
    by (simp_all add: wd_mode_def sample_wd_def wd_period_def)
  show "\<exists>d'. wd_run E [40, 99, 100] (sample_wd 0x48 0) = Inr ([False, False, False], d') \<and> requests d' = {6} \<and>
       wd_timeOutAt (part d') = 16000100"
    by (rule wpE [OF w [OF sample_wd_ok(1) [of "0x48" 0]]]) (auto simp: m sample_wd_ok(2))
  show "\<exists>d'. wd_run E [40, 99, 100] (sample_wd 0x48 1) = Inr ([False, False, True], d') \<and> requests d' = {}"
    by (rule wpE [OF w [OF sample_wd_ok(1) [of "0x48" 1]]]) (auto simp: m sample_wd_ok(2))
qed

theorem watchdog_gate_witness:
  "let w = setWdtcsr 5 0x18 \<lparr>wdtcsr = 0, counter = 0, timeoutCount = 0, wd_timeOutAt = 0\<rparr>
   in bit (wdtcsr ((gate_tick ^^ 3) w)) WDCE \<and> \<not> bit (wdtcsr ((gate_tick ^^ 4) w)) WDCE"
proof -
  let ?w = "\<lparr>wdtcsr = 0, counter = 0, timeoutCount = 0, wd_timeOutAt = 0\<rparr>"
  have "bit (wdtcsr ((gate_tick ^^ n) (setWdtcsr 5 0x18 ?w))) WDCE \<longleftrightarrow> n < 4" for n
    using watchdog_gate [of "0x18" n 5 ?w] by simp
  then show ?thesis by (simp add: Let_def)
qed

end
