(* ===== verification/Avr_Adc.thy ===== *)
theory Avr_Adc
  imports Complex_Main Avr_Part
begin

text \<open>
  The analog parts: the converter with its multiplexers and reference sources (\<^verbatim>\<open>hwad.cpp\<close>) and the
  comparator (\<^verbatim>\<open>hwacomp.cpp\<close>), which informs and uses the multiplexer of the converter.

  Voltages are numbers of an ordered field with a floor function. A floating point operation is the
  exact operation followed by a rounding; \<open>fp_float\<close> and \<open>fp_double\<close> are the roundings to the two
  formats. Comparisons, negation and the conversion to \<open>int\<close> are exact in C++ and here.
\<close>

unbundle bit_operations_syntax

section \<open>State\<close>

record ('f, 'w, 'hw) analog_env =
  fp_float :: "'f \<Rightarrow> 'f"
  fp_double :: "'f \<Rightarrow> 'f"
  v_supply :: 'f
  v_bandgap :: 'f
  v_temperature :: 'f
  boden :: bool   \<comment> \<open>\<open>core->fuses->GetFuseBit(3)\<close>\<close>
  env_ad :: "('f, 'w, 'hw) part_env"
  env_ac :: "('f, 'w, 'hw) part_env"

datatype admux_kind = HWAdmux6 | HWAdmuxM8 | HWAdmuxM16 | HWAdmuxT25

record adc_mux =
  admux_kind :: admux_kind
  mux_ad :: "nat option list"   \<comment> \<open>\<open>ad[0], \<dots>, ad[7]\<close>\<close>
  mux_client :: bool   \<comment> \<open>\<open>notifyClient\<close> is the converter\<close>
  muxSelect :: nat
  numPins :: nat

datatype ref_type = REFTYPE_NOBG | REFTYPE_BG3 | REFTYPE_BG4

datatype adc_ref = HWARefPin nat | HWARef4 ref_type nat | HWARef8 nat

datatype adc_type = AD_4433 | AD_M8 | AD_M16 | AD_M64 | AD_M128 | AD_M48 | AD_M164 | AD_T25

datatype adc_state = IDLE | INIT | RUNNING

record adc =
  adType :: adc_type
  adch :: byte
  adcl :: byte
  adcsra :: byte
  adcsrb :: byte
  admux :: byte
  mux :: adc_mux
  aref :: adc_ref
  ad_irqVec :: nat
  adchLocked :: bool
  adSample :: int
  adMuxConfig :: byte
  ad_prescaler :: nat
  prescalerSelect :: byte
  conversionState :: nat
  firstConversion :: bool
  ad_client :: bool   \<comment> \<open>\<open>notifyClient\<close> is the comparator\<close>
  ad_state :: adc_state
  adts :: "nat option"   \<comment> \<open>a member of the derived class \<open>HWAd_SFIOR\<close>\<close>

record acomp =
  pinAin0 :: pin_at_port
  pinAin1 :: pin_at_port
  useBG :: bool
  acme_sfior :: bool
  ac_enabled :: bool
  acsr :: byte
  ac_irqVec :: nat
  timerA :: "bool option"   \<comment> \<open>what was passed to \<open>SetACIC\<close>; \<open>None\<close> for a missing timer\<close>
  timerB :: "bool option"
  has_ad :: bool
  ac_sfior :: bool   \<comment> \<open>\<open>sfior\<close> is not NULL\<close>

record analog =
  ad :: adc
  ac :: acomp

type_synonym ('f, 'w, 'hw, 'a) asim = "(analog, 'f, 'w, 'hw, 'a) psim"

abbreviation (input) ADEN :: nat where "ADEN \<equiv> 7"
abbreviation (input) BIN :: nat where "BIN \<equiv> 7"
abbreviation (input) ADSC :: nat where "ADSC \<equiv> 6"
abbreviation (input) ACME :: nat where "ACME \<equiv> 6"
abbreviation (input) ADFR :: nat where "ADFR \<equiv> 5"
abbreviation (input) ADATE :: nat where "ADATE \<equiv> 5"
abbreviation (input) ADLAR :: nat where "ADLAR \<equiv> 5"
abbreviation (input) IPR :: nat where "IPR \<equiv> 5"
abbreviation (input) ADIF :: nat where "ADIF \<equiv> 4"
abbreviation (input) ADIE :: nat where "ADIE \<equiv> 3"

abbreviation (input) ACD :: nat where "ACD \<equiv> 7"
abbreviation (input) ACBG :: nat where "ACBG \<equiv> 6"
abbreviation (input) ACO :: nat where "ACO \<equiv> 5"
abbreviation (input) ACI :: nat where "ACI \<equiv> 4"
abbreviation (input) ACIE :: nat where "ACIE \<equiv> 3"
abbreviation (input) ACIC :: nat where "ACIC \<equiv> 2"
abbreviation (input) ACIS1 :: nat where "ACIS1 \<equiv> 1"
abbreviation (input) ACIS0 :: nat where "ACIS0 \<equiv> 0"

abbreviation upd_ad :: "(adc \<Rightarrow> adc) \<Rightarrow> ('f, 'w, 'hw, unit) asim" where
  "upd_ad f \<equiv> upd_part (\<lambda>s. s\<lparr>ad := f (ad s)\<rparr>)"

abbreviation upd_ac :: "(acomp \<Rightarrow> acomp) \<Rightarrow> ('f, 'w, 'hw, unit) asim" where
  "upd_ac f \<equiv> upd_part (\<lambda>s. s\<lparr>ac := f (ac s)\<rparr>)"

text \<open>An expression that may use a null pointer.\<close>

definition value_of :: "'a option \<Rightarrow> ('s, 'a) sim" where
  "value_of x = (case x of None \<Rightarrow> fail UndefinedBehaviour | Some v \<Rightarrow> ret v)"

section \<open>Voltages\<close>

text \<open>A literal of type \<open>double\<close>, and one that is converted to \<open>float\<close>.\<close>

definition dlit :: "('f::floor_ceiling, 'w, 'hw) analog_env \<Rightarrow> rat \<Rightarrow> 'f" where
  "dlit A x = fp_double A (of_rat x)"

definition flit :: "('f::floor_ceiling, 'w, 'hw) analog_env \<Rightarrow> rat \<Rightarrow> 'f" where
  "flit A x = fp_float A (dlit A x)"

definition GetAnalogValue :: "('f::floor_ceiling, 'w, 'hw) analog_env \<Rightarrow> 'f \<Rightarrow> ('f, 'w) board \<Rightarrow> nat \<Rightarrow> 'f" where
  "GetAnalogValue A vcc b i = getA (\<lambda>v. fp_float A (fp_double A (dlit A 0.55 * v))) vcc (analogVal (bpins b i))"

definition PinAtPort_GetAnalogValue :: "('f::floor_ceiling, 'w, 'hw) analog_env \<Rightarrow> 'f \<Rightarrow> ('f, 'w) board \<Rightarrow> pin_at_port \<Rightarrow> 'f" where
  "PinAtPort_GetAnalogValue A vcc b pp = GetAnalogValue A vcc b (portPins (bports b (pa_port pp)) ! pa_pinNo pp)"

definition GetRefValue :: "('f::floor_ceiling, 'w, 'hw) analog_env \<Rightarrow> adc_ref \<Rightarrow> byte \<Rightarrow> 'f \<Rightarrow> ('f, 'w) board \<Rightarrow> 'f" where
  "GetRefValue A r select vcc b = (case r of
       HWARefPin aref_pin \<Rightarrow> GetAnalogValue A vcc b aref_pin
     | HWARef4 refType aref_pin \<Rightarrow>
         (let n = drop_bit 6 select AND 0x3 in
          if n = 0 then GetAnalogValue A vcc b aref_pin
          else if n = 1 then vcc
          else if n = 2 then (if refType \<noteq> REFTYPE_BG3 then 0 else v_bandgap A)
          else (if refType = REFTYPE_BG4 then v_bandgap A else flit A 2.56))
     | HWARef8 aref_pin \<Rightarrow>
         (let n = (drop_bit 6 select AND 0x3) OR (drop_bit 2 select AND 0x4) in
          if n = 0 \<or> n = 4 then vcc
          else if n = 1 \<or> n = 5 then GetAnalogValue A vcc b aref_pin
          else if n = 2 then v_bandgap A
          else if n = 3 then 0
          else flit A 2.56))"

section \<open>Multiplexers\<close>

text \<open>The voltage at channel \<open>k\<close>, and an amplified difference of two.\<close>

definition channel :: "('f::floor_ceiling, 'w, 'hw) analog_env \<Rightarrow> adc_mux \<Rightarrow> 'f \<Rightarrow> ('f, 'w) board \<Rightarrow> nat \<Rightarrow> 'f option" where
  "channel A m vcc b k = map_option (GetAnalogValue A vcc b) (mux_ad m ! k)"

definition difference :: "('f::floor_ceiling, 'w, 'hw) analog_env \<Rightarrow> adc_mux \<Rightarrow> 'f \<Rightarrow> ('f, 'w) board \<Rightarrow> nat \<Rightarrow> nat \<Rightarrow> 'f option" where
  "difference A m vcc b p n =
     (case (channel A m vcc b p, channel A m vcc b n) of (Some x, Some y) \<Rightarrow> Some (fp_float A (x - y)) | _ \<Rightarrow> None)"

definition amplify :: "('f::floor_ceiling, 'w, 'hw) analog_env \<Rightarrow> rat \<Rightarrow> 'f option \<Rightarrow> 'f option" where
  "amplify A g = map_option (\<lambda>v. fp_float A (fp_double A (v * dlit A g)))"

definition GetValue6 :: "('f::floor_ceiling, 'w, 'hw) analog_env \<Rightarrow> adc_mux \<Rightarrow> byte \<Rightarrow> 'f \<Rightarrow> ('f, 'w) board \<Rightarrow> 'f option" where
  "GetValue6 A m select vcc b =
     (if boden A \<and> bit select 6 then Some (flit A 1.22)
      else (let adChannel = unat (select AND 0x07) in
            if numPins m \<le> adChannel then Some 0 else channel A m vcc b adChannel))"

definition GetValueM8 :: "('f::floor_ceiling, 'w, 'hw) analog_env \<Rightarrow> adc_mux \<Rightarrow> byte \<Rightarrow> 'f \<Rightarrow> ('f, 'w) board \<Rightarrow> 'f option" where
  "GetValueM8 A m select vcc b =
     (let adChannel = unat (select AND 0x0f) in
      if adChannel = 15 then Some 0
      else if adChannel = 14 then Some (v_bandgap A)
      else if adChannel = 8 then Some (v_temperature A)
      else if numPins m \<le> adChannel then Some 0
      else channel A m vcc b adChannel)"

definition GetValueM16 :: "('f::floor_ceiling, 'w, 'hw) analog_env \<Rightarrow> adc_mux \<Rightarrow> byte \<Rightarrow> 'f \<Rightarrow> ('f, 'w) board \<Rightarrow> 'f option" where
  "GetValueM16 A m select vcc b =
     (let adChannel = unat (select AND 0x1f); diff = difference A m vcc b in
      if adChannel = 31 then Some 0
      else if adChannel = 30 then Some (v_bandgap A)
      else if adChannel < 8 then channel A m vcc b adChannel
      else if 24 \<le> adChannel then diff (adChannel - 24) 2
      else if 16 \<le> adChannel then diff (adChannel - 16) 1
      else if adChannel = 8 then amplify A 10 (diff 0 0)
      else if adChannel = 9 then amplify A 10 (diff 1 0)
      else if adChannel = 12 then amplify A 10 (diff 2 2)
      else if adChannel = 13 then amplify A 10 (diff 3 2)
      else if adChannel = 10 then amplify A 200 (diff 0 0)
      else if adChannel = 11 then amplify A 200 (diff 1 0)
      else if adChannel = 14 then amplify A 200 (diff 2 2)
      else amplify A 200 (diff 3 2))"

definition GetValueT25 :: "('f::floor_ceiling, 'w, 'hw) analog_env \<Rightarrow> adc_mux \<Rightarrow> byte \<Rightarrow> 'f \<Rightarrow> ('f, 'w) board \<Rightarrow> 'f option" where
  "GetValueT25 A m select vcc b =
     (let adChannel = unat (select AND 0xf); diff = difference A m vcc b in
      if adChannel = 15 then Some (flit A 0.322)
      else if adChannel = 14 then Some 0
      else if adChannel = 13 then Some 0
      else if adChannel = 12 then Some (v_bandgap A)
      else if adChannel < 4 then channel A m vcc b adChannel
      else if adChannel = 4 then amplify A 1 (diff 2 2)
      else if adChannel = 5 then amplify A 20 (diff 2 2)
      else if adChannel = 6 then amplify A 1 (diff 2 3)
      else if adChannel = 7 then amplify A 20 (diff 2 3)
      else if adChannel = 8 then amplify A 1 (diff 0 0)
      else if adChannel = 9 then amplify A 20 (diff 0 0)
      else if adChannel = 10 then amplify A 1 (diff 0 1)
      else amplify A 20 (diff 0 1))"

text \<open>The virtual methods.\<close>

definition GetValue :: "('f::floor_ceiling, 'w, 'hw) analog_env \<Rightarrow> adc_mux \<Rightarrow> byte \<Rightarrow> 'f \<Rightarrow> ('f, 'w) board \<Rightarrow> 'f option" where
  "GetValue A m = (case admux_kind m of HWAdmux6 \<Rightarrow> GetValue6 A m | HWAdmuxM8 \<Rightarrow> GetValueM8 A m
     | HWAdmuxM16 \<Rightarrow> GetValueM16 A m | HWAdmuxT25 \<Rightarrow> GetValueT25 A m)"

definition GetValueAComp :: "('f::floor_ceiling, 'w, 'hw) analog_env \<Rightarrow> adc_mux \<Rightarrow> byte \<Rightarrow> 'f \<Rightarrow> ('f, 'w) board \<Rightarrow> 'f option" where
  "GetValueAComp A m select vcc b =
     (if admux_kind m = HWAdmux6 then Some 0 else channel A m vcc b (unat (select AND 0x07)))"

definition IsDifferenceChannel :: "admux_kind \<Rightarrow> byte \<Rightarrow> bool" where
  "IsDifferenceChannel k select = (case k of
       HWAdmuxM16 \<Rightarrow> (let adChannel = select AND 0x1f in 8 \<le> adChannel \<and> adChannel < 30)
     | HWAdmuxT25 \<Rightarrow> (let adChannel = select AND 0xf in 4 \<le> adChannel \<and> adChannel < 12)
     | _ \<Rightarrow> False)"

text \<open>The constructors register the multiplexer, as listener \<open>l\<close>, on its pins; the others of \<open>ad[8]\<close> are NULL.\<close>

definition HWAdmux :: "admux_kind \<Rightarrow> nat \<Rightarrow> nat list \<Rightarrow> (('f, 'w) board, adc_mux) sim" where
  "HWAdmux k l ps =
     sq (forS (\<lambda>i. modify (RegisterCallback i l)) ps)
     (ret \<lparr>admux_kind = k, mux_ad = map Some ps @ replicate (8 - length ps) None, mux_client = False, muxSelect = 0,
        numPins = length ps\<rparr>)"

section \<open>The comparator\<close>

definition IsADEnabled :: "adc \<Rightarrow> bool" where
  "IsADEnabled a \<longleftrightarrow> bit (adcsra a) ADEN"

definition isSetACME :: "analog \<Rightarrow> bool" where
  "isSetACME s =
     (if has_ad (ac s) \<and> \<not> IsADEnabled (ad s) then
        (if ac_sfior (ac s) then acme_sfior (ac s) else bit (adcsrb (ad s)) ACME)
      else False)"

definition GetIn0 :: "('f::floor_ceiling, 'w, 'hw) analog_env \<Rightarrow> analog \<Rightarrow> ('f, 'w) board \<Rightarrow> 'f" where
  "GetIn0 A s b =
     (if useBG (ac s) \<and> bit (acsr (ac s)) ACBG then v_bandgap A
      else PinAtPort_GetAnalogValue A (v_supply A) b (pinAin0 (ac s)))"

definition GetIn1 :: "('f::floor_ceiling, 'w, 'hw) analog_env \<Rightarrow> analog \<Rightarrow> ('f, 'w) board \<Rightarrow> 'f option" where
  "GetIn1 A s b =
     (let vcc = v_supply A in
      if isSetACME s then GetValueAComp A (mux (ad s)) (admux (ad s)) vcc b
      else Some (PinAtPort_GetAnalogValue A vcc b (pinAin1 (ac s))))"

definition above :: "('f::floor_ceiling, 'w, 'hw) analog_env \<Rightarrow> ('f, 'w, 'hw, bool) asim" where
  "above A =
     bnd (gets (\<lambda>d. (GetIn0 A (part d) (pboard d), GetIn1 A (part d) (pboard d)))) (\<lambda>(in0, in1).
     bnd (value_of in1) (\<lambda>v. ret (in0 > v)))"

definition Acomp_Reset :: "('f::floor_ceiling, 'w, 'hw) analog_env \<Rightarrow> ('f, 'w, 'hw, unit) asim" where
  "Acomp_Reset A =
     sq (upd_ac (\<lambda>c. c\<lparr>acsr := 0, ac_enabled := True, acme_sfior := False\<rparr>))
     (bnd (above A) (\<lambda>b. whenM b (upd_ac (\<lambda>c. c\<lparr>acsr := set_bit ACO (acsr c)\<rparr>))))"

text \<open>An edge in the direction that the mode bits select (\<open>ok\<close>) sets the flag and requests the interrupt.\<close>

definition fire_acomp :: "('f::floor_ceiling, 'w, 'hw) analog_env \<Rightarrow> bool \<Rightarrow> ('f, 'w, 'hw, unit) asim" where
  "fire_acomp A ok =
     whenM ok (sq (upd_ac (\<lambda>c. c\<lparr>acsr := set_bit ACI (acsr c)\<rparr>))
       (bnd (get_part (\<lambda>s. (bit (acsr (ac s)) ACIE, ac_irqVec (ac s)))) (\<lambda>(ie, v). whenM ie (set_irq (env_ac A) v))))"

definition Acomp_PinStateHasChanged :: "('f::floor_ceiling, 'w, 'hw) analog_env \<Rightarrow> ('f, 'w, 'hw, unit) asim" where
  "Acomp_PinStateHasChanged A =
     bnd (get_part (\<lambda>s. (bit (acsr (ac s)) ACO, acsr (ac s) AND 0x03, ac_enabled (ac s)))) (\<lambda>(old, irqmode, enabled).
     whenM enabled
       (bnd (above A) (\<lambda>b.
        if b then
          whenM (\<not> old) (sq (upd_ac (\<lambda>c. c\<lparr>acsr := set_bit ACO (acsr c)\<rparr>)) (fire_acomp A (irqmode = 0 \<or> irqmode = 3)))
        else
          whenM old (sq (upd_ac (\<lambda>c. c\<lparr>acsr := unset_bit ACO (acsr c)\<rparr>)) (fire_acomp A (irqmode = 0 \<or> irqmode = 2))))))"

definition Acomp_NotifySignalChanged :: "('f::floor_ceiling, 'w, 'hw) analog_env \<Rightarrow> ('f, 'w, 'hw, unit) asim" where
  "Acomp_NotifySignalChanged A = bnd (get_part isSetACME) (\<lambda>b. whenM b (Acomp_PinStateHasChanged A))"

text \<open>
  A write to the status register: once the new value is stored, the flag is cleared, the unit switched and the timers
  informed (\<open>acsr_switched\<close>), and the interrupt is requested or withdrawn.
\<close>

definition acsr_switched :: "byte \<Rightarrow> bool \<Rightarrow> acomp \<Rightarrow> acomp" where
  "acsr_switched val old_acic c =
     (let c1 = (if bit val ACI then c\<lparr>acsr := unset_bit ACI (acsr c)\<rparr> else c);
          c2 = c1\<lparr>ac_enabled := \<not> bit (acsr c1) ACD\<rparr>;
          acic = bit (acsr c2) ACIC
      in if acic \<noteq> old_acic then c2\<lparr>timerA := map_option (\<lambda>_. acic) (timerA c2), timerB := map_option (\<lambda>_. acic) (timerB c2)\<rparr> else c2)"

definition acsr_effects :: "('f::floor_ceiling, 'w, 'hw) analog_env \<Rightarrow> byte \<Rightarrow> bool \<Rightarrow> ('f, 'w, 'hw, unit) asim" where
  "acsr_effects A val old_acic =
     sq (upd_ac (acsr_switched val old_acic))
     (bnd (get_part (\<lambda>s. (ac_enabled (ac s), bit (acsr (ac s)) ACI \<and> bit (acsr (ac s)) ACIE, ac_irqVec (ac s)))) (\<lambda>(en, fire, v).
      whenM en (if fire then set_irq (env_ac A) v else clear_irq (env_ac A) v)))"

definition SetAcsr :: "('f::floor_ceiling, 'w, 'hw) analog_env \<Rightarrow> byte \<Rightarrow> ('f, 'w, 'hw, unit) asim" where
  "SetAcsr A val0 =
     bnd (get_part (\<lambda>s. (acsr (ac s) AND 0x30, bit (acsr (ac s)) ACIC, bit (acsr (ac s)) ACBG, useBG (ac s)))) (\<lambda>(old, old_acic, old_bg, bg_ok).
     (let val = (if bg_ok then val0 else unset_bit ACBG val0) in
      sq (upd_ac (\<lambda>c. c\<lparr>acsr := (val AND NOT 0x30) OR old\<rparr>))
      (bnd (get_part (\<lambda>s. bit (acsr (ac s)) ACBG)) (\<lambda>bg.
      sq (whenM (old_bg \<noteq> bg) (Acomp_PinStateHasChanged A)) (acsr_effects A val old_acic)))))"

definition Acomp_ClearIrqFlag :: "('f, 'w, 'hw) analog_env \<Rightarrow> nat \<Rightarrow> ('f, 'w, 'hw, unit) asim" where
  "Acomp_ClearIrqFlag A vector =
     bnd (get_part (\<lambda>s. ac_irqVec (ac s))) (\<lambda>v.
     whenM (vector = v) (sq (upd_ac (\<lambda>c. c\<lparr>acsr := unset_bit ACI (acsr c)\<rparr>)) (clear_irq (env_ac A) v)))"

definition Acomp_set_from_reg :: "('f::floor_ceiling, 'w, 'hw) analog_env \<Rightarrow> byte \<Rightarrow> ('f, 'w, 'hw, byte) asim" where
  "Acomp_set_from_reg A nv =
     sq (upd_ac (\<lambda>c. c\<lparr>acme_sfior := bit nv 3\<rparr>)) (sq (Acomp_PinStateHasChanged A) (ret nv))"

text \<open>The constructor; \<open>l\<close> is the comparator as a listener of its pins.\<close>

definition HWAcomp ::
  "('f::floor_ceiling, 'w, 'hw) analog_env \<Rightarrow> nat \<Rightarrow> pin_at_port \<Rightarrow> pin_at_port \<Rightarrow> nat \<Rightarrow> bool \<Rightarrow> bool option \<Rightarrow> bool \<Rightarrow>
     bool option \<Rightarrow> bool \<Rightarrow> ('f, 'w, 'hw, unit) asim" where
  "HWAcomp A l ain0 ain1 iv has_adc tA has_sfior tB bg =
     sq (upd_ac (\<lambda>c. c\<lparr>pinAin0 := ain0, pinAin1 := ain1, useBG := bg, acme_sfior := False, ac_enabled := True, ac_irqVec := iv,
           timerA := tA, timerB := tB, has_ad := has_adc, ac_sfior := has_sfior\<rparr>))
     (sq (zoom pirq (\<lambda>q d. d\<lparr>pirq := q\<rparr>) (DebugVerifyInterruptVector iv (pe_this (env_ac A))))
     (sq (on_pboard (modify (\<lambda>b. RegisterCallback (portPins (bports b (pa_port ain0)) ! pa_pinNo ain0) l b)))
     (sq (on_pboard (modify (\<lambda>b. RegisterCallback (portPins (bports b (pa_port ain1)) ! pa_pinNo ain1) l b)))
     (sq (whenM has_adc (upd_ad (\<lambda>a. a\<lparr>ad_client := True\<rparr>)))
     (Acomp_Reset A)))))"

section \<open>Registers of the converter\<close>

definition Ad_NotifySignalChanged :: "('f::floor_ceiling, 'w, 'hw) analog_env \<Rightarrow> ('f, 'w, 'hw, unit) asim" where
  "Ad_NotifySignalChanged A =
     bnd (get_part (\<lambda>s. ad_client (ad s) \<and> \<not> IsADEnabled (ad s))) (\<lambda>b. whenM b (Acomp_NotifySignalChanged A))"

definition SetMuxSelect :: "('f::floor_ceiling, 'w, 'hw) analog_env \<Rightarrow> byte \<Rightarrow> ('f, 'w, 'hw, unit) asim" where
  "SetMuxSelect A select =
     bnd (get_part (\<lambda>s. muxSelect (mux (ad s)))) (\<lambda>oldSelect.
     sq (upd_ad (\<lambda>a. a\<lparr>mux := (mux a)\<lparr>muxSelect :=
          (if numPins (mux a) < 6 then unat (select AND 0x7 AND 0x3) else unat (select AND 0x7))\<rparr>\<rparr>))
     (bnd (get_part (\<lambda>s. mux_client (mux (ad s)) \<and> oldSelect \<noteq> muxSelect (mux (ad s)))) (\<lambda>b.
      whenM b (Ad_NotifySignalChanged A))))"

definition Mux_PinStateHasChanged :: "('f::floor_ceiling, 'w, 'hw) analog_env \<Rightarrow> nat \<Rightarrow> ('f, 'w, 'hw, unit) asim" where
  "Mux_PinStateHasChanged A p =
     bnd (get_part (\<lambda>s. let m = mux (ad s) in mux_client m \<and> mux_ad m ! muxSelect m = Some p)) (\<lambda>b.
     whenM b (Ad_NotifySignalChanged A))"

definition Ad_Reset :: "adc \<Rightarrow> adc" where
  "Ad_Reset a = a\<lparr>adcsra := 0, adcsrb := 0, adch := 0, adcl := 0, admux := 0, adMuxConfig := 0, ad_state := IDLE,
     ad_prescaler := 0, prescalerSelect := 0, conversionState := 0, firstConversion := True, adchLocked := False,
     adts := map_option (\<lambda>_. 0) (adts a)\<rparr>"

text \<open>
  The constructor; the virtual \<open>Reset\<close> that it calls is that of the base class, so that \<open>adts\<close> of the
  derived class is set by the constructor of that class only.
\<close>

definition HWAd :: "('f, 'w, 'hw) analog_env \<Rightarrow> adc_type \<Rightarrow> nat \<Rightarrow> adc_mux \<Rightarrow> adc_ref \<Rightarrow> bool \<Rightarrow> ('f, 'w, 'hw, unit) asim" where
  "HWAd A typ iv m r sfior =
     sq (upd_ad (\<lambda>a. a\<lparr>adType := typ, mux := m\<lparr>mux_client := True\<rparr>, aref := r, ad_irqVec := iv, ad_client := False\<rparr>))
     (sq (zoom pirq (\<lambda>q d. d\<lparr>pirq := q\<rparr>) (DebugVerifyInterruptVector iv (pe_this (env_ad A))))
     (upd_ad (\<lambda>a. Ad_Reset (a\<lparr>adts := (if sfior then Some 0 else None)\<rparr>))))"

definition GetAdch :: "adc \<Rightarrow> byte \<times> adc" where
  "GetAdch a = (adch a, a\<lparr>adchLocked := False\<rparr>)"

definition GetAdcl :: "adc \<Rightarrow> byte \<times> adc" where
  "GetAdcl a = (adcl a, a\<lparr>adchLocked := True\<rparr>)"

definition adcsra_stored :: "byte \<Rightarrow> adc \<Rightarrow> adc" where
  "adcsra_stored val a =
     (let val1 = (if bit val ADIF then unset_bit ADIF val else if bit (adcsra a) ADIF then set_bit ADIF val else val);
          val2 = (if bit (adcsra a) ADSC then set_bit ADSC val1 else val1)
      in a\<lparr>adcsra := val2, prescalerSelect := val2 AND 0x07,
           firstConversion := firstConversion a \<or> \<not> bit (adcsra a) ADEN \<and> bit val2 ADEN\<rparr>)"

definition SetAdcsrA :: "('f::floor_ceiling, 'w, 'hw) analog_env \<Rightarrow> byte \<Rightarrow> ('f, 'w, 'hw, unit) asim" where
  "SetAdcsrA A val =
     sq (upd_ad (adcsra_stored val))
     (bnd (get_part (\<lambda>s. (bit (adcsra (ad s)) ADIE \<and> bit (adcsra (ad s)) ADIF, ad_irqVec (ad s)))) (\<lambda>(fire, v).
     sq (if fire then set_irq (env_ad A) v else clear_irq (env_ad A) v)
     (Ad_NotifySignalChanged A)))"

definition SetAdcsrB :: "('f::floor_ceiling, 'w, 'hw) analog_env \<Rightarrow> byte \<Rightarrow> ('f, 'w, 'hw, unit) asim" where
  "SetAdcsrB A val =
     sq (upd_ad (\<lambda>a. a\<lparr>adcsrb := val AND (if adType a = AD_T25 then 0xe7 else if adType a = AD_M64 then 0x07 else 0x47)\<rparr>))
     (Ad_NotifySignalChanged A)"

definition SetAdmux :: "('f::floor_ceiling, 'w, 'hw) analog_env \<Rightarrow> byte \<Rightarrow> ('f, 'w, 'hw, unit) asim" where
  "SetAdmux A val =
     sq (upd_ad (\<lambda>a. a\<lparr>admux := (if adType a = AD_4433 then val AND 0x47
          else if adType a = AD_M8 \<or> adType a = AD_M48 then val AND 0xef else val)\<rparr>))
     (bnd (get_part (\<lambda>s. admux (ad s))) (SetMuxSelect A))"

definition Ad_ClearIrqFlag :: "('f, 'w, 'hw) analog_env \<Rightarrow> nat \<Rightarrow> ('f, 'w, 'hw, unit) asim" where
  "Ad_ClearIrqFlag A vector =
     bnd (get_part (\<lambda>s. ad_irqVec (ad s))) (\<lambda>v.
     whenM (vector = v) (sq (upd_ad (\<lambda>a. a\<lparr>adcsra := unset_bit ADIF (adcsra a)\<rparr>)) (clear_irq (env_ad A) v)))"

definition Ad_set_from_reg :: "byte \<Rightarrow> adc \<Rightarrow> byte \<times> adc" where
  "Ad_set_from_reg nv a = (nv, a\<lparr>adts := Some (unat (drop_bit 5 nv AND 0x7))\<rparr>)"

section \<open>Conversion\<close>

definition prescaler_clock :: "byte \<Rightarrow> nat \<Rightarrow> bool" where
  "prescaler_clock sel p =
     (if sel = 0 \<or> sel = 1 then True
      else if sel = 2 then p mod 2 = 0
      else if sel = 3 then p mod 4 = 0
      else if sel = 4 then p mod 8 = 0
      else if sel = 5 then p mod 16 = 0
      else if sel = 6 then p mod 32 = 0
      else if sel = 7 then p mod 64 = 0
      else False)"

definition IsPrescalerClock :: "adc \<Rightarrow> bool \<times> adc" where
  "IsPrescalerClock a =
     (if \<not> bit (adcsra a) ADEN then (False, a\<lparr>ad_prescaler := 0\<rparr>)
      else (let p = ad_prescaler a + 1; p' = (if 64 \<le> p then 0 else p)
            in (prescaler_clock (prescalerSelect a) p', a\<lparr>ad_prescaler := p'\<rparr>)))"

definition GetTriggerSource :: "adc \<Rightarrow> nat" where
  "GetTriggerSource a = (case adts a of None \<Rightarrow> unat (adcsrb a AND 0x07) | Some n \<Rightarrow> n)"

definition IsFreeRunning :: "adc \<Rightarrow> bool" where
  "IsFreeRunning a =
     (if adType a = AD_4433 \<or> adType a = AD_M8 \<or> adType a = AD_M128 then bit (adcsra a) ADFR
      else if bit (adcsra a) ADATE then GetTriggerSource a = 0
      else False)"

text \<open>The conversion of a \<open>float\<close> to \<open>int\<close> cuts off the fraction.\<close>

definition to_int :: "'f::floor_ceiling \<Rightarrow> int" where
  "to_int x = (if x < 0 then - \<lfloor>- x\<rfloor> else \<lfloor>x\<rfloor>)"

definition scale :: "('f::floor_ceiling, 'w, 'hw) analog_env \<Rightarrow> int \<Rightarrow> 'f \<Rightarrow> 'f \<Rightarrow> int" where
  "scale A n x ref = to_int (fp_float A (fp_float A (x * of_int n) / ref))"

definition ConversionBipolar :: "('f::floor_ceiling, 'w, 'hw) analog_env \<Rightarrow> 'f \<Rightarrow> 'f \<Rightarrow> int" where
  "ConversionBipolar A value ref =
     (let x = (if value > ref then ref else if value < - ref then - ref else value) in
      if ref = 0 then (if x < 0 then - 512 else 511) else scale A 512 x ref AND 0x3ff)"

definition ConversionUnipolar :: "('f::floor_ceiling, 'w, 'hw) analog_env \<Rightarrow> 'f \<Rightarrow> 'f \<Rightarrow> int" where
  "ConversionUnipolar A value ref =
     (let x = (if value > ref then ref else if value < 0 then 0 else value) in
      if ref = 0 then 1023 else scale A 1024 x ref)"

text \<open>The value of \<open>adSample\<close> at the time of sampling.\<close>

definition sample_value :: "('f::floor_ceiling, 'w, 'hw) analog_env \<Rightarrow> adc \<Rightarrow> ('f, 'w) board \<Rightarrow> int option" where
  "sample_value A a b =
     (let vcc = v_supply A; ref = GetRefValue A (aref a) (adMuxConfig a) vcc b in
      map_option (\<lambda>muxval.
        if IsDifferenceChannel (admux_kind (mux a)) (adMuxConfig a) then
          (if adType a = AD_T25 then
             (if bit (adcsrb a) BIN then ConversionBipolar A muxval ref
              else if bit (adcsrb a) IPR then ConversionUnipolar A (- muxval) ref
              else ConversionUnipolar A muxval ref)
           else ConversionBipolar A muxval ref)
        else ConversionUnipolar A muxval ref) (GetValue A (mux a) (adMuxConfig a) vcc b))"

text \<open>The end of a conversion: the result registers and the flag.\<close>

definition store_result :: "adc \<Rightarrow> adc" where
  "store_result a =
     (let s = (if bit (admux a) ADLAR then push_bit 6 (adSample a) else adSample a) in
      a\<lparr>adSample := s, adch := (if adchLocked a then adch a else word_of_int (drop_bit 8 s)), adcl := word_of_int (s AND 0xff),
        adcsra := set_bit ADIF (adcsra a)\<rparr>)"

definition running :: "('f::floor_ceiling, 'w, 'hw) analog_env \<Rightarrow> ('f, 'w, 'hw, unit) asim" where
  "running A =
     bnd (get_part (\<lambda>s. conversionState (ad s))) (\<lambda>n.
     if n = 1 * 2 + 1 then
       bnd (gets (\<lambda>d. sample_value A (ad (part d)) (pboard d))) (\<lambda>x.
       bnd (value_of x) (\<lambda>v. upd_ad (\<lambda>a. a\<lparr>adSample := v\<rparr>)))
     else if n = 13 * 2 then
       sq (upd_ad store_result)
       (bnd (get_part (\<lambda>s. (bit (adcsra (ad s)) ADIE \<and> bit (adcsra (ad s)) ADIF, ad_irqVec (ad s)))) (\<lambda>(fire, v).
       sq (whenM fire (set_irq (env_ad A) v))
       (upd_ad (\<lambda>a. if IsFreeRunning a then a\<lparr>conversionState := 0, adMuxConfig := admux a\<rparr>
                     else a\<lparr>adcsra := unset_bit ADSC (adcsra a)\<rparr>))))
     else whenM (n = 14 * 2) (upd_ad (\<lambda>a. a\<lparr>conversionState := 0, ad_state := IDLE\<rparr>)))"

definition idle :: "adc \<Rightarrow> adc" where
  "idle a0 =
     (let a = a0\<lparr>conversionState := 0\<rparr> in
      if bit (adcsra a) ADSC then
        (let a1 = a\<lparr>adMuxConfig := admux a\<rparr> in
         if firstConversion a1 then a1\<lparr>ad_state := INIT, firstConversion := False\<rparr> else a1\<lparr>ad_state := RUNNING\<rparr>)
      else a)"

definition init :: "adc \<Rightarrow> adc" where
  "init a = (if conversionState a = 13 * 2 then a\<lparr>ad_state := RUNNING, conversionState := 1 * 2\<rparr> else a)"

definition adc_clock :: "('f::floor_ceiling, 'w, 'hw) analog_env \<Rightarrow> ('f, 'w, 'hw, unit) asim" where
  "adc_clock A =
     sq (upd_ad (\<lambda>a. a\<lparr>conversionState := conversionState a + 1\<rparr>))
     (bnd (get_part (\<lambda>s. ad_state (ad s))) (\<lambda>st. case st of
        IDLE \<Rightarrow> upd_ad idle
      | INIT \<Rightarrow> upd_ad init
      | RUNNING \<Rightarrow> running A))"

definition Ad_CpuCycle :: "('f::floor_ceiling, 'w, 'hw) analog_env \<Rightarrow> ('f, 'w, 'hw, unit) asim" where
  "Ad_CpuCycle A =
     bnd (get_part (\<lambda>s. fst (IsPrescalerClock (ad s)))) (\<lambda>c.
     sq (upd_ad (\<lambda>a. snd (IsPrescalerClock a))) (whenM c (adc_clock A)))"

section \<open>Exact arithmetic\<close>

text \<open>An instance of the environment, for the examples.\<close>

definition exact_env :: "(real, unit, char) analog_env" where
  "exact_env = \<lparr>fp_float = id, fp_double = id, v_supply = 5, v_bandgap = 5 / 4, v_temperature = 1, boden = False,
     env_ad = \<lparr>pe_listener = undefined, pe_now = 0, pe_this = CHR ''a''\<rparr>, env_ac = \<lparr>pe_listener = undefined, pe_now = 0, pe_this = CHR ''c''\<rparr>\<rparr>"

end
