(* ===== verification/Avr_AdcRun.thy ===== *)
theory Avr_AdcRun
  imports Avr_Adc
begin

text \<open>
  What the converter computes and when: a clock of the converter as a function, the prescaler, the
  conversion as a whole and the range and the accuracy of its result.
\<close>

section \<open>A clock as a function\<close>

text \<open>\<open>S\<close> is what a sample gives; it looks at the configuration of the converter only.\<close>

definition samples :: "('f::floor_ceiling, 'w, 'hw) analog_env \<Rightarrow> ('f, 'w) board \<Rightarrow> adc \<Rightarrow> int option" where
  "samples A b a = sample_value A a b"

definition finish :: "adc \<Rightarrow> adc" where
  "finish a = (if IsFreeRunning a then a\<lparr>conversionState := 0, adMuxConfig := admux a\<rparr>
     else a\<lparr>adcsra := unset_bit ADSC (adcsra a)\<rparr>)"

definition step_spec :: "(adc \<Rightarrow> int option) \<Rightarrow> adc \<Rightarrow> adc" where
  "step_spec S a = (case ad_state a of
       IDLE \<Rightarrow> idle a
     | INIT \<Rightarrow> init a
     | RUNNING \<Rightarrow>
         (if conversionState a = 3 then a\<lparr>adSample := the (S a)\<rparr>
          else if conversionState a = 26 then finish (store_result a)
          else if conversionState a = 28 then a\<lparr>conversionState := 0, ad_state := IDLE\<rparr>
          else a))"

definition clock_spec :: "(adc \<Rightarrow> int option) \<Rightarrow> adc \<Rightarrow> adc" where
  "clock_spec S a = step_spec S (a\<lparr>conversionState := conversionState a + 1\<rparr>)"

definition cycle_spec :: "(adc \<Rightarrow> int option) \<Rightarrow> adc \<Rightarrow> adc" where
  "cycle_spec S a = (let (c, a') = IsPrescalerClock a in if c then clock_spec S a' else a')"

definition completes :: "adc \<Rightarrow> bool" where
  "completes a \<longleftrightarrow> ad_state a = RUNNING \<and> conversionState a = 25"

definition unsampled :: "adc \<Rightarrow> bool" where
  "unsampled a \<longleftrightarrow> ad_state a = RUNNING \<and> conversionState a = 2"

lemma store_result_simps [simp]:
  "ad_irqVec (store_result a) = ad_irqVec a" "bit (adcsra (store_result a)) ADIF"
  "bit (adcsra (store_result a)) ADIE = bit (adcsra a) ADIE"
  by (simp_all add: store_result_def Let_def bit_simps)

lemma wp_value_of: "x = Some v \<Longrightarrow> wp (value_of x) Q = Q v"
  by (simp add: value_of_def wp_basic)

lemma wp_adc_clock:
  assumes d: "irqs_ok {ad_irqVec (ad (part d))} d" and s: "unsampled (ad (part d)) \<Longrightarrow> samples A (pboard d) ((ad (part d))\<lparr>conversionState := 3\<rparr>) \<noteq> None"
    and post: "\<And>d'. part d' = (part d)\<lparr>ad := clock_spec (samples A (pboard d)) (ad (part d))\<rparr> \<Longrightarrow> pboard d' = pboard d \<Longrightarrow>
      requests d' = requests d \<union> (if completes (ad (part d)) \<and> bit (adcsra (ad (part d))) ADIE then {ad_irqVec (ad (part d))} else {}) \<Longrightarrow>
      irqs_ok {ad_irqVec (ad (part d))} d' \<Longrightarrow> Q () d'"
  shows "wp (adc_clock A) Q d"
proof (cases "ad_state (ad (part d))")
  case IDLE
  then show ?thesis unfolding adc_clock_def
    by (simp add: wp_simps) (rule post, simp_all add: clock_spec_def step_spec_def Let_def completes_def d)
next
  case INIT
  then show ?thesis unfolding adc_clock_def
    by (simp add: wp_simps) (rule post, simp_all add: clock_spec_def step_spec_def Let_def completes_def d)
next
  case RUNNING
  let ?a = "ad (part d)" and ?n = "conversionState (ad (part d)) + 1"
  consider "?n = 3" | "?n = 26" | "?n \<noteq> 3" "?n \<noteq> 26" by blast
  then show ?thesis
  proof cases
    case 1
    then obtain v where v: "sample_value A (?a\<lparr>conversionState := 3\<rparr>) (pboard d) = Some v"
      using s RUNNING by (auto simp: unsampled_def samples_def)
    show ?thesis unfolding adc_clock_def running_def using 1 RUNNING
      by (simp add: wp_simps wp_value_of [OF v])
        (rule post, simp_all add: clock_spec_def step_spec_def Let_def completes_def d samples_def v)
  next
    case 2
    then have n: "conversionState ?a = 25" by simp
    let ?d = "d\<lparr>part := (part d)\<lparr>ad := store_result (?a\<lparr>conversionState := 26\<rparr>)\<rparr>\<rparr>"
    have i: "irqs_ok {ad_irqVec ?a} ?d" using d by simp
    have r: "clock_spec (samples A (pboard d)) ?a = finish (store_result (?a\<lparr>conversionState := 26\<rparr>))"
      using RUNNING n by (simp add: clock_spec_def step_spec_def Let_def)
    show ?thesis unfolding adc_clock_def running_def using RUNNING n
      by (auto simp: wp_simps finish_def [symmetric] intro!: wp_set_irq_irqs [OF i] post)
        (simp_all add: r completes_def d)
  next
    case 3
    then show ?thesis unfolding adc_clock_def running_def using RUNNING
      by (auto simp: wp_simps intro!: post) (auto simp: clock_spec_def step_spec_def Let_def completes_def d)
  qed
qed

lemma IsPrescalerClock_upd: "\<exists>c p. IsPrescalerClock a = (c, a\<lparr>ad_prescaler := p\<rparr>)"
  unfolding IsPrescalerClock_def Let_def by (cases "bit (adcsra a) ADEN") (simp_all del: One_nat_def, blast+)

lemma wp_Ad_CpuCycle:
  assumes d: "irqs_ok {ad_irqVec (ad (part d))} d" "samples A (pboard d) = S"
    and s: "\<And>a. unsampled (ad (part d)) \<Longrightarrow> S ((ad (part d))\<lparr>ad_prescaler := a, conversionState := 3\<rparr>) \<noteq> None"
    and post: "\<And>d'. part d' = (part d)\<lparr>ad := cycle_spec S (ad (part d))\<rparr> \<Longrightarrow> pboard d' = pboard d \<Longrightarrow>
      requests d' = requests d \<union>
        (if fst (IsPrescalerClock (ad (part d))) \<and> completes (ad (part d)) \<and> bit (adcsra (ad (part d))) ADIE then {ad_irqVec (ad (part d))} else {}) \<Longrightarrow>
      irqs_ok {ad_irqVec (ad (part d))} d' \<Longrightarrow> Q () d'"
  shows "wp (Ad_CpuCycle A) Q d"
proof -
  let ?a = "ad (part d)"
  obtain c p where cp: "IsPrescalerClock ?a = (c, ?a\<lparr>ad_prescaler := p\<rparr>)" using IsPrescalerClock_upd by blast
  let ?d = "d\<lparr>part := (part d)\<lparr>ad := ?a\<lparr>ad_prescaler := p\<rparr>\<rparr>\<rparr>"
  show ?thesis unfolding Ad_CpuCycle_def wp_bnd wp_sq wp_basic
  proof (simp add: cp, rule wp_whenI)
    assume c: c
    show "wp (adc_clock A) Q ?d"
    proof (rule wp_adc_clock)
      show "irqs_ok {ad_irqVec (ad (part ?d))} ?d" using d(1) by simp
      show "samples A (pboard ?d) (ad (part ?d)\<lparr>conversionState := 3\<rparr>) \<noteq> None" if "unsampled (ad (part ?d))"
        using s that d(2) by (simp add: unsampled_def)
      show "Q () d'" if "part d' = part ?d\<lparr>ad := clock_spec (samples A (pboard ?d)) (ad (part ?d))\<rparr>" "pboard d' = pboard ?d"
        "requests d' = requests ?d \<union> (if completes (ad (part ?d)) \<and> bit (adcsra (ad (part ?d))) ADIE then {ad_irqVec (ad (part ?d))} else {})"
        "irqs_ok {ad_irqVec (ad (part ?d))} d'" for d'
        using that by (intro post) (simp_all add: cycle_spec_def cp c d(2) completes_def)
    qed
  next
    assume c: "\<not> c"
    show "Q () ?d" by (rule post) (use d(1) c in \<open>simp_all add: cycle_spec_def cp\<close>)
  qed
qed

section \<open>The prescaler\<close>

definition divisor :: "byte \<Rightarrow> nat" where
  "divisor sel = (if sel = 0 then 1 else 2 ^ (unat sel - 1))"

lemma divisor_dvd: "sel < 8 \<Longrightarrow> divisor sel dvd 64 \<and> 0 < divisor sel"
  and clock_divisor: "sel < 8 \<Longrightarrow> prescaler_clock sel p \<longleftrightarrow> divisor sel dvd p"
proof -
  assume "sel < 8"
  then have "unat sel < 8" by (simp add: word_less_nat_alt)
  then have "unat sel \<in> {0, 1, 2, 3, 4, 5, 6, 7}" by auto
  then have "sel \<in> {0, 1, 2, 3, 4, 5, 6, 7}"
    by (simp add: word_unat_eq_iff)
  then show "divisor sel dvd 64 \<and> 0 < divisor sel" "prescaler_clock sel p \<longleftrightarrow> divisor sel dvd p"
    by (auto simp: divisor_def prescaler_clock_def dvd_eq_mod_eq_0)
qed

text \<open>A clock touches neither the prescaler nor the enable bit, and does not depend on the prescaler.\<close>

definition independent :: "(adc \<Rightarrow> int option) \<Rightarrow> bool" where
  "independent S \<longleftrightarrow> (\<forall>a p n v st. S (a\<lparr>ad_prescaler := p\<rparr>) = S a \<and> S (a\<lparr>conversionState := n\<rparr>) = S a \<and>
     S (a\<lparr>adSample := v\<rparr>) = S a \<and> S (a\<lparr>ad_state := st\<rparr>) = S a)"

lemma samples_independent: "independent (samples A b)"
  by (simp add: independent_def samples_def sample_value_def Let_def cong: if_cong)

lemma independentD:
  assumes "independent S"
  shows "S (a\<lparr>ad_prescaler := p\<rparr>) = S a" "S (a\<lparr>conversionState := n\<rparr>) = S a" "S (a\<lparr>adSample := v\<rparr>) = S a"
    "S (a\<lparr>ad_state := st\<rparr>) = S a"
  using assms by (simp_all add: independent_def)

lemma trigger: "IsFreeRunning (a\<lparr>ad_prescaler := p\<rparr>) = IsFreeRunning a"
  by (simp add: IsFreeRunning_def GetTriggerSource_def cong: option.case_cong)

lemma prescaler_commutes:
  "idle (a\<lparr>ad_prescaler := p\<rparr>) = (idle a)\<lparr>ad_prescaler := p\<rparr>"
  "init (a\<lparr>ad_prescaler := p\<rparr>) = (init a)\<lparr>ad_prescaler := p\<rparr>"
  "store_result (a\<lparr>ad_prescaler := p\<rparr>) = (store_result a)\<lparr>ad_prescaler := p\<rparr>"
  "finish (a\<lparr>ad_prescaler := p\<rparr>) = (finish a)\<lparr>ad_prescaler := p\<rparr>"
  by (simp_all add: idle_def init_def store_result_def finish_def Let_def trigger)

lemma clock_keeps:
  "bit (adcsra (idle a)) ADEN = bit (adcsra a) ADEN" "prescalerSelect (idle a) = prescalerSelect a" "ad_prescaler (idle a) = ad_prescaler a"
  "bit (adcsra (init a)) ADEN = bit (adcsra a) ADEN" "prescalerSelect (init a) = prescalerSelect a" "ad_prescaler (init a) = ad_prescaler a"
  "bit (adcsra (store_result a)) ADEN = bit (adcsra a) ADEN" "prescalerSelect (store_result a) = prescalerSelect a"
    "ad_prescaler (store_result a) = ad_prescaler a"
  "bit (adcsra (finish a)) ADEN = bit (adcsra a) ADEN" "prescalerSelect (finish a) = prescalerSelect a" "ad_prescaler (finish a) = ad_prescaler a"
  by (simp_all add: idle_def init_def store_result_def finish_def Let_def bit_simps)

lemma clock_spec_keeps:
  "bit (adcsra (clock_spec S a)) ADEN = bit (adcsra a) ADEN" "prescalerSelect (clock_spec S a) = prescalerSelect a"
  "ad_prescaler (clock_spec S a) = ad_prescaler a"
  by (cases "ad_state a"; simp add: clock_spec_def step_spec_def Let_def clock_keeps)+

lemma step_spec_prescaler:
  assumes "independent S"
  shows "step_spec S (a\<lparr>ad_prescaler := p\<rparr>) = (step_spec S a)\<lparr>ad_prescaler := p\<rparr>"
  by (cases "ad_state a") (simp_all add: step_spec_def prescaler_commutes independentD [OF assms])

lemma clock_spec_prescaler:
  assumes "independent S"
  shows "clock_spec S (a\<lparr>ad_prescaler := p\<rparr>) = (clock_spec S a)\<lparr>ad_prescaler := p\<rparr>"
proof -
  define b where "b = a\<lparr>conversionState := conversionState a + 1\<rparr>"
  have "a\<lparr>ad_prescaler := p, conversionState := conversionState a + 1\<rparr> = b\<lparr>ad_prescaler := p\<rparr>" by (simp add: b_def)
  then show ?thesis by (simp add: clock_spec_def step_spec_prescaler [OF assms] b_def [symmetric] del: add_Suc_right One_nat_def)
qed

lemma IsPrescalerClock_on:
  assumes "bit (adcsra a) ADEN" "(if 64 \<le> x + 1 then 0 else x + 1) = y"
  shows "IsPrescalerClock (a\<lparr>ad_prescaler := x\<rparr>) = (prescaler_clock (prescalerSelect a) y, a\<lparr>ad_prescaler := y\<rparr>)"
  using assms(1) by (simp add: IsPrescalerClock_def assms(2) [symmetric])

lemma IsPrescalerClock_at:
  assumes "bit (adcsra c) ADEN" "prescalerSelect c < 8" "divisor (prescalerSelect c) dvd p"
  shows "IsPrescalerClock (c\<lparr>ad_prescaler := (p + t) mod 64\<rparr>) =
    (divisor (prescalerSelect c) dvd Suc t, c\<lparr>ad_prescaler := (p + Suc t) mod 64\<rparr>)"
proof -
  let ?d = "divisor (prescalerSelect c)" and ?q = "(p + t) mod 64 + 1"
  have lt: "(p + t) mod 64 < 64" by simp
  have q: "(if 64 \<le> ?q then 0 else ?q) = (p + Suc t) mod 64"
    by (simp add: mod_Suc) (use lt in linarith)
  have "?d dvd (p + Suc t) mod 64 \<longleftrightarrow> ?d dvd p + Suc t" using divisor_dvd [OF assms(2)] by (simp add: dvd_mod_iff)
  also have "\<dots> \<longleftrightarrow> ?d dvd Suc t" using assms(3) by (simp add: dvd_add_right_iff del: add_Suc_right)
  finally show ?thesis
    using IsPrescalerClock_on [OF assms(1) q] by (simp add: clock_divisor [OF assms(2)])
qed

lemma clocks_keep:
  "bit (adcsra ((clock_spec S ^^ n) a)) ADEN = bit (adcsra a) ADEN" "prescalerSelect ((clock_spec S ^^ n) a) = prescalerSelect a"
  by (induction n) (simp_all add: clock_spec_keeps)

lemma cycle_ticks:
  assumes "independent S" "bit (adcsra a) ADEN" "prescalerSelect a < 8" "ad_prescaler a < 64" "divisor (prescalerSelect a) dvd ad_prescaler a"
  shows "(cycle_spec S ^^ t) a = ((clock_spec S ^^ (t div divisor (prescalerSelect a))) a)\<lparr>ad_prescaler := (ad_prescaler a + t) mod 64\<rparr>"
proof (induction t)
  case 0
  then show ?case using assms(4) by simp
next
  case (Suc t)
  let ?d = "divisor (prescalerSelect a)" and ?p = "ad_prescaler a"
  let ?c = "(clock_spec S ^^ (t div ?d)) a"
  have at: "IsPrescalerClock (?c\<lparr>ad_prescaler := (?p + t) mod 64\<rparr>) = (?d dvd Suc t, ?c\<lparr>ad_prescaler := (?p + Suc t) mod 64\<rparr>)"
    using IsPrescalerClock_at [of ?c ?p t] assms by (simp only: clocks_keep)
  have div: "Suc t div ?d = (if ?d dvd Suc t then Suc (t div ?d) else t div ?d)"
    by (simp add: div_Suc dvd_eq_mod_eq_0)
  have "(cycle_spec S ^^ Suc t) a = cycle_spec S (?c\<lparr>ad_prescaler := (?p + t) mod 64\<rparr>)" by (simp add: Suc)
  also have "\<dots> = (if ?d dvd Suc t then clock_spec S (?c\<lparr>ad_prescaler := (?p + Suc t) mod 64\<rparr>) else ?c\<lparr>ad_prescaler := (?p + Suc t) mod 64\<rparr>)"
    by (simp only: cycle_spec_def at Let_def prod.case)
  also have "\<dots> = ((clock_spec S ^^ (Suc t div ?d)) a)\<lparr>ad_prescaler := (?p + Suc t) mod 64\<rparr>"
    unfolding div by (simp add: clock_spec_prescaler [OF assms(1)])
  finally show ?case .
qed

section \<open>A conversion\<close>

text \<open>The converter before its first conversion, and in clock \<open>c\<close> of a conversion of the voltage with value \<open>v\<close>.\<close>

definition init_at :: "adc \<Rightarrow> nat \<Rightarrow> adc" where
  "init_at a c = a\<lparr>ad_state := INIT, conversionState := c\<rparr>"

definition conv_at :: "int \<Rightarrow> adc \<Rightarrow> nat \<Rightarrow> adc" where
  "conv_at v a c = a\<lparr>ad_state := RUNNING, conversionState := c, adSample := (if 3 \<le> c then v else adSample a)\<rparr>"

definition started :: "adc \<Rightarrow> adc" where
  "started a = a\<lparr>adMuxConfig := admux a, firstConversion := False\<rparr>"

definition clocks :: "adc \<Rightarrow> nat" where
  "clocks a = (if firstConversion a then 51 else 27)"

lemma independent_at:
  assumes "independent S"
  shows "S (conv_at v a c) = S a" "S (init_at a c) = S a" "S ((conv_at v a c)\<lparr>conversionState := n\<rparr>) = S a"
  unfolding conv_at_def init_at_def by (simp_all only: independentD [OF assms])

lemma conv_next:
  assumes "independent S" "S a = Some v" "c < 25"
  shows "clock_spec S (conv_at v a c) = conv_at v a (Suc c)"
proof -
  have s: "S (a\<lparr>ad_state := RUNNING, conversionState := n, adSample := x\<rparr>) = Some v"
    "S (a\<lparr>ad_state := RUNNING, conversionState := n\<rparr>) = Some v" for n x
    using independentD [OF assms(1)] assms(2) by simp_all
  show ?thesis using assms(3) s
    by (cases "c = 2") (auto simp: clock_spec_def step_spec_def conv_at_def)
qed

lemma conv_end: "clock_spec S (conv_at v a 25) = finish (store_result (conv_at v a 26))"
proof -
  have "(conv_at v a 25)\<lparr>conversionState := 26\<rparr> = conv_at v a 26" "ad_state (conv_at v a c) = RUNNING" "conversionState (conv_at v a c) = c" for c
    by (simp_all add: conv_at_def)
  then show ?thesis by (simp add: clock_spec_def step_spec_def)
qed

lemma init_next: "c < 25 \<Longrightarrow> clock_spec S (init_at a c) = init_at a (Suc c)" "clock_spec S (init_at a 25) = conv_at v a 2"
  by (simp_all add: clock_spec_def step_spec_def init_at_def init_def conv_at_def)

lemma start_clock:
  assumes "ad_state a = IDLE" "bit (adcsra a) ADSC"
  shows "clock_spec S a = (if firstConversion a then init_at (started a) 0 else conv_at v (started a) 0)"
  using assms by (simp add: clock_spec_def step_spec_def idle_def init_at_def conv_at_def started_def Let_def)

definition trajectory :: "int \<Rightarrow> adc \<Rightarrow> nat \<Rightarrow> adc" where
  "trajectory v a k =
     (if k = 0 then a
      else if k = clocks a then finish (store_result (conv_at v (started a) 26))
      else if \<not> firstConversion a then conv_at v (started a) (k - 1)
      else if k \<le> 26 then init_at (started a) (k - 1)
      else conv_at v (started a) (k - 25))"

lemma trajectory_next:
  assumes i: "independent S" "S (started a) = Some v" and a: "ad_state a = IDLE" "bit (adcsra a) ADSC" and k: "k < clocks a"
  shows "clock_spec S (trajectory v a k) = trajectory v a (Suc k)"
proof (cases "k = 0")
  case True
  then show ?thesis using start_clock [OF a, where v = v] by (simp add: trajectory_def clocks_def)
next
  case k0: False
  show ?thesis
  proof (cases "firstConversion a")
    case True
    then consider "k < 26" | "k = 26" | "26 < k" "k < 50" | "k = 50" using k by (fastforce simp: clocks_def)
    then show ?thesis
    proof cases
      case 1
      then have "clock_spec S (init_at (started a) (k - 1)) = init_at (started a) (Suc (k - 1))" by (intro init_next) simp
      then show ?thesis using True k0 1 by (simp add: trajectory_def clocks_def)
    next
      case 2
      then show ?thesis using True init_next(2) [where v = v] by (simp add: trajectory_def clocks_def)
    next
      case 3
      then have "clock_spec S (conv_at v (started a) (k - 25)) = conv_at v (started a) (Suc (k - 25))"
        by (intro conv_next i) simp
      moreover have "Suc (k - 25) = k - 24" using 3 by arith
      ultimately show ?thesis using True 3 by (simp add: trajectory_def clocks_def)
    next
      case 4
      then show ?thesis using True conv_end by (simp add: trajectory_def clocks_def)
    qed
  next
    case F: False
    then consider "k < 26" | "k = 26" using k by (fastforce simp: clocks_def)
    then show ?thesis
    proof cases
      case 1
      then have "clock_spec S (conv_at v (started a) (k - 1)) = conv_at v (started a) (Suc (k - 1))"
        by (intro conv_next i) simp
      then show ?thesis using F k0 1 by (simp add: trajectory_def clocks_def)
    next
      case 2
      then show ?thesis using F conv_end by (simp add: trajectory_def clocks_def)
    qed
  qed
qed

lemma clock_trajectory:
  assumes "independent S" "S (started a) = Some v" "ad_state a = IDLE" "bit (adcsra a) ADSC" "k \<le> clocks a"
  shows "(clock_spec S ^^ k) a = trajectory v a k"
  using assms(5)
proof (induction k)
  case (Suc k)
  then show ?case using trajectory_next [OF assms(1-4), of k] by simp
qed (simp add: trajectory_def)

lemma trajectory_facts:
  assumes "ad_state a = IDLE" "k < clocks a"
  shows "completes (trajectory v a k) \<longleftrightarrow> Suc k = clocks a" "adcsra (trajectory v a k) = adcsra a"
    "adch (trajectory v a k) = adch a" "adcl (trajectory v a k) = adcl a" "ad_irqVec (trajectory v a k) = ad_irqVec a"
    "independent S \<Longrightarrow> unsampled (trajectory v a k) \<Longrightarrow> S (trajectory v a k) = S (started a)"
proof -
  show "completes (trajectory v a k) \<longleftrightarrow> Suc k = clocks a"
    using assms by (auto simp: trajectory_def completes_def clocks_def conv_at_def init_at_def split: if_splits)
  show "adcsra (trajectory v a k) = adcsra a" "adch (trajectory v a k) = adch a" "adcl (trajectory v a k) = adcl a"
    "ad_irqVec (trajectory v a k) = ad_irqVec a"
    using assms(2) by (simp_all add: trajectory_def conv_at_def init_at_def started_def)
  assume "independent S" "unsampled (trajectory v a k)"
  then show "S (trajectory v a k) = S (started a)"
    using assms by (cases "k = 0") (auto simp: trajectory_def unsampled_def independent_at)
qed

section \<open>The converter in time\<close>

primrec ad_cycles :: "('f::floor_ceiling, 'w, 'hw) analog_env \<Rightarrow> nat \<Rightarrow> ('f, 'w, 'hw, unit) asim" where
  "ad_cycles A 0 = ret ()"
| "ad_cycles A (Suc n) = sq (ad_cycles A n) (Ad_CpuCycle A)"

text \<open>The conditions under which a conversion starts: the converter is on, idle, and has been asked to convert.\<close>

definition ad_ready :: "adc \<Rightarrow> bool" where
  "ad_ready a \<longleftrightarrow> bit (adcsra a) ADEN \<and> bit (adcsra a) ADSC \<and> ad_state a = IDLE \<and> prescalerSelect a < 8 \<and>
     ad_prescaler a < 64 \<and> divisor (prescalerSelect a) dvd ad_prescaler a"

definition ad_duration :: "adc \<Rightarrow> nat" where
  "ad_duration a = divisor (prescalerSelect a) * clocks a"

lemma cycles_trajectory:
  assumes "independent S" "ad_ready a" "S (started a) = Some v" "n \<le> ad_duration a"
  shows "(cycle_spec S ^^ n) a =
    (trajectory v a (n div divisor (prescalerSelect a)))\<lparr>ad_prescaler := (ad_prescaler a + n) mod 64\<rparr>"
proof -
  have "n div divisor (prescalerSelect a) \<le> clocks a"
    using assms(2,4) divisor_dvd [of "prescalerSelect a"] by (auto simp: ad_duration_def ad_ready_def dest: div_le_mono [where k = "divisor (prescalerSelect a)"])
  then show ?thesis using assms by (simp add: cycle_ticks ad_ready_def clock_trajectory)
qed

lemma trajectory_selects:
  assumes "k < clocks a"
  shows "prescalerSelect (trajectory v a k) = prescalerSelect a"
  using assms by (simp add: trajectory_def conv_at_def init_at_def started_def)

lemma wp_ad_cycles:
  fixes A :: "('f::floor_ceiling, 'w, 'hw) analog_env"
  assumes d: "irqs_ok {ad_irqVec a} d" "a = ad (part d)" "S = samples A (pboard d)" and a: "ad_ready a" "S (started a) = Some v"
    and n: "n \<le> ad_duration a"
  shows "wp (ad_cycles A n) (\<lambda>_ d'. part d' = (part d)\<lparr>ad := (cycle_spec S ^^ n) a\<rparr> \<and> pboard d' = pboard d \<and>
     irqs_ok {ad_irqVec a} d' \<and>
     requests d' = requests d \<union> (if n = ad_duration a \<and> bit (adcsra a) ADIE then {ad_irqVec a} else {})) d"
  using n
proof (induction n)
  case 0
  have "ad_duration a \<noteq> 0" using divisor_dvd a(1) by (simp add: ad_duration_def ad_ready_def clocks_def)
  then show ?case using d by (simp add: wp_def ret_def)
next
  case (Suc n)
  let ?d = "divisor (prescalerSelect a)"
  let ?k = "n div ?d"
  let ?b = "(cycle_spec S ^^ n) a"
  have i: "independent S" unfolding d(3) by (rule samples_independent)
  have dd: "0 < ?d" using divisor_dvd a(1) by (simp add: ad_ready_def)
  have k: "?k < clocks a" using Suc.prems dd by (simp add: ad_duration_def less_mult_imp_div_less mult.commute)
  have b: "?b = (trajectory v a ?k)\<lparr>ad_prescaler := (ad_prescaler a + n) mod 64\<rparr>"
    by (rule cycles_trajectory [OF i a]) (use Suc.prems in simp)
  note t = trajectory_facts [OF _ k, where v = v]
  have idle: "ad_state a = IDLE" using a(1) by (simp add: ad_ready_def)
  have tick: "fst (IsPrescalerClock ?b) \<longleftrightarrow> ?d dvd Suc n"
    unfolding b using IsPrescalerClock_at [of "trajectory v a ?k" "ad_prescaler a" n] a(1)
    by (simp add: ad_ready_def t(2) [OF idle] trajectory_selects [OF k])
  have comp: "completes ?b \<longleftrightarrow> Suc ?k = clocks a" using t(1) [OF idle] by (simp add: b completes_def)
  have div: "?d dvd Suc n \<longleftrightarrow> Suc n = ?d * Suc ?k"
  proof
    assume "?d dvd Suc n"
    then have "Suc n mod ?d = 0" by simp
    then have "Suc n div ?d = Suc ?k" by (simp add: div_Suc)
    then show "Suc n = ?d * Suc ?k" using \<open>?d dvd Suc n\<close> by (metis dvd_mult_div_cancel)
  qed (metis dvd_triv_left)
  have fin: "?d dvd Suc n \<and> Suc ?k = clocks a \<longleftrightarrow> Suc n = ad_duration a"
  proof
    assume "Suc n = ad_duration a"
    then have "Suc n = ?d * clocks a" "?d dvd Suc n" by (simp_all add: ad_duration_def)
    then have "?d * Suc ?k = ?d * clocks a" using div by metis
    then show "?d dvd Suc n \<and> Suc ?k = clocks a" using \<open>?d dvd Suc n\<close> dd by (metis mult_left_cancel neq0_conv)
  qed (use div in \<open>auto simp: ad_duration_def\<close>)
  then have fins: "?d dvd Suc n \<and> Suc ?k = clocks a \<and> X \<longleftrightarrow> Suc n = ad_duration a \<and> X" for X by blast
  have vec: "ad_irqVec ?b = ad_irqVec a" "adcsra ?b = adcsra a" by (simp_all add: b t [OF idle])
  have sampled: "S (?b\<lparr>ad_prescaler := p, conversionState := 3\<rparr>) \<noteq> None" if "unsampled ?b" for p
    using that t(6) [OF idle, of S] i a(2) by (simp add: b unsampled_def independentD [OF i])
  show ?case unfolding ad_cycles.simps wp_sq
  proof (rule wp_mono [OF Suc.IH])
    show "n \<le> ad_duration a" using Suc.prems by simp
    fix x and d1 :: "(analog, 'f, 'w, 'hw) part_dev"
    assume h: "part d1 = (part d)\<lparr>ad := ?b\<rparr> \<and> pboard d1 = pboard d \<and> irqs_ok {ad_irqVec a} d1 \<and>
      requests d1 = requests d \<union> (if n = ad_duration a \<and> bit (adcsra a) ADIE then {ad_irqVec a} else {})"
    show "wp (Ad_CpuCycle A) (\<lambda>_ d'. part d' = (part d)\<lparr>ad := (cycle_spec S ^^ Suc n) a\<rparr> \<and> pboard d' = pboard d \<and>
       irqs_ok {ad_irqVec a} d' \<and>
       requests d' = requests d \<union> (if Suc n = ad_duration a \<and> bit (adcsra a) ADIE then {ad_irqVec a} else {})) d1"
      by (rule wp_Ad_CpuCycle [where S = S])
        (use h d(3) [symmetric] sampled Suc.prems in \<open>simp_all add: vec tick comp fins\<close>)
  qed
qed

section \<open>The result of a conversion\<close>

text \<open>The two result registers as one number.\<close>

definition ad_result :: "adc \<Rightarrow> 16 word" where
  "ad_result a = word_cat (adch a) (adcl a)"

lemma halves: "word_cat (word_of_int (drop_bit 8 s) :: byte) (word_of_int (s AND 0xff) :: byte) = (word_of_int s :: 16 word)"
proof (rule bit_word_eqI)
  fix n :: nat
  assume n: "n < LENGTH(16)"
  have m: "s AND 0xff = take_bit 8 s" by (simp add: take_bit_eq_mask mask_eq_exp_minus_1)
  show "bit (word_cat (word_of_int (drop_bit 8 s) :: byte) (word_of_int (s AND 0xff) :: byte) :: 16 word) n = bit (word_of_int s :: 16 word) n"
  proof (cases "n < 8")
    case True
    then show ?thesis unfolding m by (simp add: bit_word_cat_iff bit_word_of_int_iff bit_take_bit_iff)
  next
    case False
    then have "8 + (n - 8) = n" "n - 8 < 8" using n by simp_all
    then show ?thesis using n False unfolding m by (simp add: bit_word_cat_iff bit_word_of_int_iff bit_drop_bit_eq)
  qed
qed

lemma free_running_final:
  "IsFreeRunning (store_result (conv_at v (started a) n)) = IsFreeRunning a"
  by (simp add: IsFreeRunning_def GetTriggerSource_def store_result_def conv_at_def started_def Let_def bit_simps cong: option.case_cong)

lemma final_result:
  assumes "\<not> adchLocked a"
  shows "ad_result (finish (store_result (conv_at v (started a) 26))) = (if bit (admux a) ADLAR then push_bit 6 (word_of_int v) else word_of_int v)"
proof -
  have "ad_result (finish b) = ad_result b" for b by (simp add: ad_result_def finish_def)
  moreover have "word_of_int (push_bit 6 v) = (push_bit 6 (word_of_int v) :: 16 word)"
    by (simp add: push_bit_eq_mult)
  ultimately show ?thesis using assms
    by (simp add: ad_result_def store_result_def conv_at_def started_def Let_def halves)
qed

text \<open>
  C27. A conversion takes 27 clocks of the converter, the first one 51, and a clock is the number of cycles
  that the prescaler says. Up to the last cycle the result registers, the status register and the
  requests are as before. In the last one the result registers get the value of the sample,
  shifted to the left if asked for, the flag is set, the interrupt is requested if it is enabled, and the start bit is
  cleared unless the converter runs freely. The sample is that of the channel and the reference
  which the multiplexer register selects at the start.
\<close>

theorem adc_conversion:
  fixes A :: "('f::floor_ceiling, 'w, 'hw) analog_env"
  assumes "irqs_ok {ad_irqVec a} d" "a = ad (part d)" "ad_ready a" "sample_value A (started a) (pboard d) = Some v"
    and "n \<le> ad_duration a" "\<not> adchLocked a"
  shows "wp (ad_cycles A n) (\<lambda>_ d'. let c = ad (part d') in pboard d' = pboard d \<and>
     (if n < ad_duration a
      then ad_result c = ad_result a \<and> adcsra c = adcsra a \<and> requests d' = requests d
      else ad_result c = (if bit (admux a) ADLAR then push_bit 6 (word_of_int v) else word_of_int v) \<and>
        bit (adcsra c) ADIF \<and> (bit (adcsra c) ADSC \<longleftrightarrow> IsFreeRunning a) \<and>
        requests d' = requests d \<union> (if bit (adcsra a) ADIE then {ad_irqVec a} else {}))) d"
proof -
  let ?S = "samples A (pboard d)" and ?D = "divisor (prescalerSelect a)"
  have S: "?S (started a) = Some v" using assms(4) by (simp add: samples_def)
  have dd: "0 < ?D" using divisor_dvd assms(3) by (simp add: ad_ready_def)
  have idle: "ad_state a = IDLE" "bit (adcsra a) ADSC" using assms(3) by (simp_all add: ad_ready_def)
  note traj = cycles_trajectory [OF samples_independent assms(3) S assms(5)]
  show ?thesis
  proof (rule wp_mono [OF wp_ad_cycles [OF assms(1,2) refl assms(3) S assms(5)]], unfold Let_def, intro conjI)
    fix x and d' :: "(analog, 'f, 'w, 'hw) part_dev"
    let ?c = "(cycle_spec ?S ^^ n) a"
    assume h: "part d' = (part d)\<lparr>ad := ?c\<rparr> \<and> pboard d' = pboard d \<and> irqs_ok {ad_irqVec a} d' \<and>
      requests d' = requests d \<union> (if n = ad_duration a \<and> bit (adcsra a) ADIE then {ad_irqVec a} else {})"
    show "pboard d' = pboard d" using h by simp
    show "if n < ad_duration a
      then ad_result (ad (part d')) = ad_result a \<and> adcsra (ad (part d')) = adcsra a \<and> requests d' = requests d
      else ad_result (ad (part d')) = (if bit (admux a) ADLAR then push_bit 6 (word_of_int v) else word_of_int v) \<and>
        bit (adcsra (ad (part d'))) ADIF \<and> (bit (adcsra (ad (part d'))) ADSC \<longleftrightarrow> IsFreeRunning a) \<and>
        requests d' = requests d \<union> (if bit (adcsra a) ADIE then {ad_irqVec a} else {})"
    proof (cases "n < ad_duration a")
      case True
      then have k: "n div ?D < clocks a" using dd by (simp add: ad_duration_def less_mult_imp_div_less mult.commute)
      show ?thesis using True h trajectory_facts(2-4) [OF idle(1) k, of v] by (simp add: ad_result_def traj)
    next
      case False
      then have n: "n = ad_duration a" using assms(5) by simp
      then have "n div ?D = clocks a" using dd by (simp add: ad_duration_def)
      moreover have "clocks a \<noteq> 0" by (simp add: clocks_def)
      ultimately have "ad (part d') = (finish (store_result (conv_at v (started a) 26)))\<lparr>ad_prescaler := (ad_prescaler a + n) mod 64\<rparr>"
        using h by (simp add: traj trajectory_def)
      moreover have "bit (adcsra (finish b)) ADSC \<longleftrightarrow> IsFreeRunning b \<and> bit (adcsra b) ADSC" "adcsra (finish b) = adcsra b \<or> adcsra (finish b) = unset_bit ADSC (adcsra b)" for b
        by (simp_all add: finish_def bit_simps)
      moreover have "bit (adcsra (store_result (conv_at v (started a) 26))) ADSC"
        using idle by (simp add: store_result_def conv_at_def started_def Let_def bit_simps)
      moreover have "bit (adcsra (finish (store_result b))) ADIF" for b by (simp add: finish_def bit_simps)
      moreover have "ad_result (b\<lparr>ad_prescaler := p\<rparr>) = ad_result b" for b p by (simp add: ad_result_def)
      ultimately show ?thesis using False n h final_result [OF assms(6), of v] by (simp add: free_running_final)
    qed
  qed
qed

section \<open>An example\<close>

text \<open>A first conversion of the bandgap voltage against the supply, left adjusted and with the interrupt.\<close>

definition sample_adc :: adc where
  "sample_adc = \<lparr>adType = AD_M8, adch = 0, adcl = 0, adcsra = 0xC8, adcsrb = 0, admux = 0x6E,
     mux = \<lparr>admux_kind = HWAdmuxM8, mux_ad = replicate 8 None, mux_client = False, muxSelect = 6, numPins = 4\<rparr>,
     aref = HWARef4 REFTYPE_NOBG 0, ad_irqVec = 14, adchLocked = False, adSample = 0, adMuxConfig = 0, ad_prescaler = 0,
     prescalerSelect = 0, conversionState = 0, firstConversion = True, ad_client = False, ad_state = IDLE, adts = None\<rparr>"

definition sample_analog :: "(analog, real, unit, char) part_dev" where
  "sample_analog = \<lparr>part = \<lparr>ad = sample_adc, ac = undefined\<rparr>, pirq = HWIrqSystem 2 20,
     pboard = \<lparr>bpins = undefined, bnets = undefined, bports = undefined, bworld = ()\<rparr>\<rparr>"

lemma sample_analog_ok: "irqs_ok {ad_irqVec sample_adc} sample_analog" "requests sample_analog = {}"
  by (simp_all add: irqs_ok_def irq_ok_def table_ok_def HWIrqSystem_def sample_analog_def sample_adc_def requests_def)

lemma sample_adc_ready: "ad_ready sample_adc" "ad_duration sample_adc = 51"
  by (simp_all add: ad_ready_def sample_adc_def divisor_def ad_duration_def clocks_def)

lemma sample_adc_value: "sample_value exact_env (started sample_adc) (pboard sample_analog) = Some 256"
  by (simp add: sample_value_def exact_env_def started_def sample_adc_def IsDifferenceChannel_def GetValue_def
      GetValueM8_def GetRefValue_def ConversionUnipolar_def scale_def to_int_def Let_def)

theorem adc_conversion_witness:
  "(\<exists>d'. ad_cycles exact_env 50 sample_analog = Inr ((), d') \<and> requests d' = {} \<and> ad_result (ad (part d')) = 0) \<and>
   (\<exists>d'. ad_cycles exact_env 51 sample_analog = Inr ((), d') \<and> requests d' = {14} \<and> ad_result (ad (part d')) = 0x4000)"
  (is "?A \<and> ?B")
proof -
  have p: "sample_adc = ad (part sample_analog)" by (simp add: sample_analog_def)
  have f: "\<not> adchLocked sample_adc" "ad_irqVec sample_adc = 14" "bit (adcsra sample_adc) ADIE" "bit (admux sample_adc) ADLAR"
    "ad_result sample_adc = 0" by (simp_all add: sample_adc_def ad_result_def)
  note w = adc_conversion [OF sample_analog_ok(1) p sample_adc_ready(1) sample_adc_value _ f(1)]
  have "?A" by (rule wpE [OF w [of 50]]) (simp_all add: sample_adc_ready(2) f sample_analog_ok(2) Let_def)
  moreover have "?B" by (rule wpE [OF w [of 51]]) (simp_all add: sample_adc_ready(2) f sample_analog_ok(2) Let_def)
  ultimately show ?thesis ..
qed

end
