(* ===== verification/Avr_AdcValue.thy ===== *)
theory Avr_AdcValue
  imports Avr_AdcRun
begin

text \<open>
  The two conversions of a voltage into a number: their range, their accuracy, and what happens at
  the ends of the range.
\<close>

section \<open>Rounding\<close>

text \<open>
  What is needed of the rounding to \<open>float\<close>: it is monotone, keeps the integers of the range and the product of
  the reference with a power of two (which only changes the exponent).
\<close>

definition sound_rounding :: "('f::floor_ceiling, 'w, 'hw) analog_env \<Rightarrow> 'f \<Rightarrow> bool" where
  "sound_rounding A ref \<longleftrightarrow> mono (fp_float A) \<and> (\<forall>n \<in> {- 1024..1024}. fp_float A (of_int n) = of_int n) \<and>
     (\<forall>n \<in> {- 512, 0, 512, 1024}. fp_float A (ref * of_int n) = ref * of_int n)"

lemma sound_roundingD:
  assumes "sound_rounding A ref"
  shows "x \<le> y \<Longrightarrow> fp_float A x \<le> fp_float A y" "n \<in> {- 1024..1024} \<Longrightarrow> fp_float A (of_int n) = of_int n"
    "n \<in> {- 512, 0, 512, 1024} \<Longrightarrow> fp_float A (ref * of_int n) = ref * of_int n"
  using assms by (auto simp: sound_rounding_def mono_def)

lemma to_int_mono: "x \<le> y \<Longrightarrow> to_int x \<le> to_int y"
proof -
  assume le: "x \<le> y"
  consider "0 \<le> x" | "x < 0" "0 \<le> y" | "y < 0" by linarith
  then show ?thesis
  proof cases
    case 2
    then have "0 \<le> \<lfloor>- x\<rfloor>" "0 \<le> \<lfloor>y\<rfloor>" by simp_all
    then have "- \<lfloor>- x\<rfloor> \<le> \<lfloor>y\<rfloor>" by linarith
    then show ?thesis using 2 by (simp add: to_int_def)
  qed (use le in \<open>simp_all add: to_int_def floor_mono\<close>)
qed

lemma to_int_of_int [simp]: "to_int (of_int n) = n"
  by (simp add: to_int_def flip: of_int_minus)

text \<open>Scaling is monotone and exact at the multiples of the reference.\<close>

lemma scale_mono:
  assumes "sound_rounding A ref" "0 < ref" "0 \<le> n" "x \<le> y"
  shows "scale A n x ref \<le> scale A n y ref"
proof -
  have "x * of_int n \<le> y * of_int n" using assms(3,4) by (simp add: mult_right_mono)
  then show ?thesis unfolding scale_def
    using assms(2) by (intro to_int_mono sound_roundingD(1) [OF assms(1)] divide_right_mono) simp_all
qed

lemma scale_at:
  assumes "sound_rounding A ref" "0 < ref" "k * n \<in> {- 512, 0, 512, 1024}"
  shows "scale A n (ref * of_int k) ref = k * n"
proof -
  have "fp_float A (ref * of_int (k * n)) = ref * of_int (k * n)" by (rule sound_roundingD(3) [OF assms(1,3)])
  then have "fp_float A (ref * of_int k * of_int n) / ref = of_int (k * n)" using assms(2) by (simp add: ac_simps)
  moreover have "k * n \<in> {- 1024..1024}" using assms(3) by auto
  ultimately show ?thesis using sound_roundingD(2) [OF assms(1)] by (simp add: scale_def del: of_int_mult)
qed

section \<open>The range of a result\<close>

definition clip :: "'f::linorder \<Rightarrow> 'f \<Rightarrow> 'f \<Rightarrow> 'f" where
  "clip lo hi x = (if x > hi then hi else if x < lo then lo else x)"

lemma clip_bounds: "lo \<le> hi \<Longrightarrow> lo \<le> clip lo hi x \<and> clip lo hi x \<le> hi"
  and clip_mono: "lo \<le> hi \<Longrightarrow> x \<le> y \<Longrightarrow> clip lo hi x \<le> clip lo hi y"
  by (auto simp: clip_def)

lemma unipolar: "0 < ref \<Longrightarrow> ConversionUnipolar A x ref = scale A 1024 (clip 0 ref x) ref"
  and bipolar: "0 < ref \<Longrightarrow> ConversionBipolar A x ref = scale A 512 (clip (- ref) ref x) ref mod 1024"
proof -
  have m: "s AND 0x3ff = s mod 1024" for s :: int
    using take_bit_eq_mask [of 10 s] by (simp add: take_bit_eq_mod mask_eq_exp_minus_1)
  show "0 < ref \<Longrightarrow> ConversionUnipolar A x ref = scale A 1024 (clip 0 ref x) ref"
    "0 < ref \<Longrightarrow> ConversionBipolar A x ref = scale A 512 (clip (- ref) ref x) ref mod 1024"
    by (simp_all add: ConversionUnipolar_def ConversionBipolar_def clip_def m Let_def)
qed

lemma unipolar_bounds:
  assumes "sound_rounding A ref" "0 < ref"
  shows "0 \<le> scale A 1024 (clip 0 ref x) ref" "scale A 1024 (clip 0 ref x) ref \<le> 1024"
    "x \<le> y \<Longrightarrow> scale A 1024 (clip 0 ref x) ref \<le> scale A 1024 (clip 0 ref y) ref"
    "x \<le> 0 \<Longrightarrow> scale A 1024 (clip 0 ref x) ref = 0" "ref \<le> x \<Longrightarrow> scale A 1024 (clip 0 ref x) ref = 1024"
proof -
  have c: "0 \<le> clip 0 ref x" "clip 0 ref x \<le> ref" using clip_bounds [of 0 ref x] assms(2) by simp_all
  note s = scale_at [OF assms, of 0 1024, simplified] scale_at [OF assms, of 1 1024, simplified]
  note m = scale_mono [OF assms, of 1024, simplified]
  show "0 \<le> scale A 1024 (clip 0 ref x) ref" "scale A 1024 (clip 0 ref x) ref \<le> 1024" using m [OF c(1)] m [OF c(2)] s by simp_all
  show "x \<le> y \<Longrightarrow> scale A 1024 (clip 0 ref x) ref \<le> scale A 1024 (clip 0 ref y) ref"
    using assms(2) by (intro m clip_mono) simp_all
  have "x \<le> 0 \<Longrightarrow> clip 0 ref x = 0" "ref \<le> x \<Longrightarrow> clip 0 ref x = ref" using assms(2) by (auto simp: clip_def)
  then show "x \<le> 0 \<Longrightarrow> scale A 1024 (clip 0 ref x) ref = 0" "ref \<le> x \<Longrightarrow> scale A 1024 (clip 0 ref x) ref = 1024"
    by (simp_all add: s)
qed

lemma bipolar_bounds:
  assumes "sound_rounding A ref" "0 < ref"
  shows "scale A 512 (clip (- ref) ref x) ref \<in> {- 512..512}"
    "x \<le> y \<Longrightarrow> scale A 512 (clip (- ref) ref x) ref \<le> scale A 512 (clip (- ref) ref y) ref"
    "x \<le> - ref \<Longrightarrow> scale A 512 (clip (- ref) ref x) ref = - 512" "ref \<le> x \<Longrightarrow> scale A 512 (clip (- ref) ref x) ref = 512"
proof -
  have c: "- ref \<le> clip (- ref) ref x" "clip (- ref) ref x \<le> ref" using clip_bounds [of "- ref" ref x] assms(2) by simp_all
  note s = scale_at [OF assms, of "- 1" 512, simplified] scale_at [OF assms, of 1 512, simplified]
  note m = scale_mono [OF assms, of 512, simplified]
  show "scale A 512 (clip (- ref) ref x) ref \<in> {- 512..512}" using m [OF c(1)] m [OF c(2)] s by simp
  show "x \<le> y \<Longrightarrow> scale A 512 (clip (- ref) ref x) ref \<le> scale A 512 (clip (- ref) ref y) ref"
    using assms(2) by (intro m clip_mono) simp_all
  have "x \<le> - ref \<Longrightarrow> clip (- ref) ref x = - ref" "ref \<le> x \<Longrightarrow> clip (- ref) ref x = ref" using assms(2) by (auto simp: clip_def)
  then show "x \<le> - ref \<Longrightarrow> scale A 512 (clip (- ref) ref x) ref = - 512" "ref \<le> x \<Longrightarrow> scale A 512 (clip (- ref) ref x) ref = 512"
    by (simp_all add: s)
qed

text \<open>
  C38. With a positive reference and sound rounding, the conversion of a single voltage is monotone, is zero for
  a voltage that is not positive, and, if the arithmetic is exact, the quotient rounded down, at most 1023, below
  the reference. At the reference and above it is 1024, one more than ten bits hold:
  read left adjusted the result is then zero. The conversion of a difference, read as a ten bit number with
  sign, is monotone below the positive reference if the arithmetic is exact; from there on the result is
  the same as at the negative reference.
\<close>

theorem adc_range:
  fixes ref :: "'f::floor_ceiling"
  assumes "sound_rounding A ref" "0 < ref"
  shows "0 \<le> ConversionUnipolar A x ref \<and> ConversionUnipolar A x ref \<le> 1024 \<and>
     (x \<le> y \<longrightarrow> ConversionUnipolar A x ref \<le> ConversionUnipolar A y ref) \<and>
     (x \<le> 0 \<longrightarrow> ConversionUnipolar A x ref = 0) \<and>
     (ref \<le> x \<longrightarrow> ConversionUnipolar A x ref = 1024 \<and> (push_bit 6 (word_of_int (ConversionUnipolar A x ref)) :: 16 word) = 0) \<and>
     (fp_float A = id \<and> 0 \<le> x \<and> x < ref \<longrightarrow> ConversionUnipolar A x ref = \<lfloor>x * 1024 / ref\<rfloor> \<and> ConversionUnipolar A x ref < 1024) \<and>
     (ref \<le> x \<longrightarrow> ConversionBipolar A x ref = ConversionBipolar A (- ref) ref) \<and>
     (fp_float A = id \<and> x \<le> y \<and> y < ref \<longrightarrow>
        signed_take_bit 9 (ConversionBipolar A x ref) \<le> signed_take_bit 9 (ConversionBipolar A y ref))"
proof -
  let ?u = "\<lambda>x. scale A 1024 (clip 0 ref x) ref" and ?b = "\<lambda>x. scale A 512 (clip (- ref) ref x) ref"
  note u = unipolar_bounds [OF assms] and b = bipolar_bounds [OF assms]
  have full: "(push_bit 6 (word_of_int 1024) :: 16 word) = 0" by (simp add: push_bit_eq_mult)
  have lt: "x < ref \<Longrightarrow> x * 1024 / ref < 1024" using assms(2) by (simp add: divide_less_eq)
  have exact: "?u x = \<lfloor>x * 1024 / ref\<rfloor> \<and> ?u x < 1024" if "fp_float A = id" "0 \<le> x" "x < ref"
  proof -
    have "clip 0 ref x = x" using that by (simp add: clip_def)
    moreover have "\<not> x * 1024 / ref < 0" using that assms(2) by (simp add: not_less)
    ultimately show ?thesis using that lt by (simp add: scale_def to_int_def floor_less_iff)
  qed
  have signed: "signed_take_bit 9 (n mod 1024) = n" if "- 512 \<le> n" "n < 512" for n :: int
  proof -
    have "signed_take_bit 9 (n mod 1024) = signed_take_bit 9 (take_bit 10 n)" by (simp add: take_bit_eq_mod)
    also have "\<dots> = signed_take_bit 9 n" by (simp add: signed_take_bit_take_bit)
    also have "\<dots> = n" by (rule signed_take_bit_int_eq_self) (use that in simp_all)
    finally show ?thesis .
  qed
  have below: "?b z < 512" if "fp_float A = id" "z < ref" for z
  proof -
    have "clip (- ref) ref z < ref" using that assms(2) by (simp add: clip_def)
    then have "clip (- ref) ref z * 512 / ref < 512" using assms(2) by (simp add: divide_less_eq)
    moreover have "to_int q < 512" if "q < 512" for q :: 'f
    proof (cases "q < 0")
      case True
      then have "0 \<le> \<lfloor>- q\<rfloor>" by simp
      then have "- \<lfloor>- q\<rfloor> < 512" by linarith
      then show ?thesis using True by (simp add: to_int_def)
    qed (use that in \<open>simp add: to_int_def floor_less_iff\<close>)
    ultimately have "to_int (clip (- ref) ref z * 512 / ref) < 512" by blast
    then show ?thesis using that(1) by (simp add: scale_def)
  qed
  have "- 512 \<le> ?b z" for z using b(1) [of z] by simp
  then have mono: "signed_take_bit 9 (?b x mod 1024) \<le> signed_take_bit 9 (?b y mod 1024)" if "fp_float A = id" "x \<le> y" "y < ref"
    using signed below [OF that(1)] b(2) [OF that(2)] that(2,3) by simp
  have ends: "ref \<le> x \<Longrightarrow> ?b x mod 1024 = ?b (- ref) mod 1024" using b(3) [of "- ref"] b(4) [of x] by simp
  show ?thesis unfolding unipolar [OF assms(2)] bipolar [OF assms(2)]
    using u exact full mono ends lt by (intro conjI impI) simp_all
qed

section \<open>Examples\<close>

lemma exact_env_sound: "sound_rounding exact_env 5"
  by (simp add: sound_rounding_def exact_env_def mono_def)

theorem adc_range_witness:
  "ConversionUnipolar exact_env (5 / 4) 5 = 256 \<and> ConversionUnipolar exact_env 6 5 = 1024"
proof -
  have "fp_float exact_env = id" by (simp add: exact_env_def)
  then show ?thesis
    using adc_range [OF exact_env_sound, of "5 / 4" 6] adc_range [OF exact_env_sound, of 6 6] by simp
qed

end
