(* ===== verification/Avr_Acomp.thy ===== *)
theory Avr_Acomp
  imports Avr_Adc
begin

text \<open>
  The comparator: its output, its edges, and which operations of the comparator, of the multiplexer and
  of the converter leave it up to date.
\<close>

section \<open>The output\<close>

text \<open>The comparator is up to date if its output bit says which of its inputs is higher.\<close>

definition input_above :: "('f::floor_ceiling, 'w, 'hw) analog_env \<Rightarrow> analog \<Rightarrow> ('f, 'w) board \<Rightarrow> bool option" where
  "input_above A s b = map_option (\<lambda>v. GetIn0 A s b > v) (GetIn1 A s b)"

definition up_to_date :: "('f::floor_ceiling, 'w, 'hw) analog_env \<Rightarrow> analog \<Rightarrow> ('f, 'w) board \<Rightarrow> bool" where
  "up_to_date A s b \<longleftrightarrow> (ac_enabled (ac s) \<longrightarrow> input_above A s b = Some (bit (acsr (ac s)) ACO))"

text \<open>The inputs depend on a few fields only.\<close>

definition same_inputs :: "analog \<Rightarrow> analog \<Rightarrow> bool" where
  "same_inputs s t \<longleftrightarrow> useBG (ac s) = useBG (ac t) \<and> bit (acsr (ac s)) ACBG = bit (acsr (ac t)) ACBG \<and>
     pinAin0 (ac s) = pinAin0 (ac t) \<and> pinAin1 (ac s) = pinAin1 (ac t) \<and> isSetACME s = isSetACME t \<and>
     (isSetACME s \<longrightarrow> admux_kind (mux (ad s)) = admux_kind (mux (ad t)) \<and> mux_ad (mux (ad s)) = mux_ad (mux (ad t)) \<and>
        admux (ad s) AND 7 = admux (ad t) AND 7)"

lemma same_inputs: "same_inputs s t \<Longrightarrow> input_above A s b = input_above A t b"
proof -
  assume s: "same_inputs s t"
  then have "GetIn0 A s b = GetIn0 A t b" by (simp add: same_inputs_def GetIn0_def)
  moreover have "GetIn1 A s b = GetIn1 A t b" using s by (auto simp: same_inputs_def GetIn1_def GetValueAComp_def channel_def Let_def)
  ultimately show ?thesis by (simp add: input_above_def)
qed

lemma same_inputs_sym: "same_inputs s t \<Longrightarrow> same_inputs t s"
  by (auto simp: same_inputs_def)

lemma same_inputs_acsr:
  assumes "bit x ACBG = bit (acsr (ac s)) ACBG"
  shows "same_inputs s (s\<lparr>ac := (ac s)\<lparr>acsr := x\<rparr>\<rparr>)"
  using assms by (simp add: same_inputs_def isSetACME_def)

lemma wp_above: "input_above A (part d) (pboard d) = Some h \<Longrightarrow> wp (above A) Q d = Q h d"
  by (auto simp: above_def input_above_def value_of_def wp_simps)

text \<open>The comparator with a new output \<open>h\<close>: an edge in the selected direction sets the flag.\<close>

definition ac_edge :: "acomp \<Rightarrow> bool \<Rightarrow> bool" where
  "ac_edge c h \<longleftrightarrow> h \<noteq> bit (acsr c) ACO \<and> (let m = acsr c AND 3 in m = 0 \<or> m = (if h then 3 else 2))"

definition ac_output :: "acomp \<Rightarrow> bool \<Rightarrow> acomp" where
  "ac_output c h =
     (if h = bit (acsr c) ACO then c
      else (let x = (if h then set_bit ACO (acsr c) else unset_bit ACO (acsr c))
            in c\<lparr>acsr := (if ac_edge c h then set_bit ACI x else x)\<rparr>))"

lemma ac_output_simps [simp]:
  "bit (acsr (ac_output c h)) ACO = h" "ac_enabled (ac_output c h) = ac_enabled c" "ac_irqVec (ac_output c h) = ac_irqVec c"
  "bit (acsr (ac_output c h)) ACI \<longleftrightarrow> bit (acsr c) ACI \<or> ac_edge c h" "bit (acsr (ac_output c h)) ACIE = bit (acsr c) ACIE"
  "bit (acsr (ac_output c h)) ACBG = bit (acsr c) ACBG" "bit (acsr (ac_output c h)) ACD = bit (acsr c) ACD"
  by (auto simp: ac_output_def ac_edge_def Let_def bit_simps)

lemma ac_output_only: "\<exists>x. ac_output c h = c\<lparr>acsr := x\<rparr>"
  by (cases "h = bit (acsr c) ACO") (auto simp: ac_output_def Let_def intro: exI [of _ "acsr c"])

lemma same_inputs_output: "same_inputs (s\<lparr>ac := ac_output (ac s) h\<rparr>) s"
proof -
  obtain x where x: "ac_output (ac s) h = (ac s)\<lparr>acsr := x\<rparr>" using ac_output_only by blast
  then have "bit x ACBG = bit (acsr (ac s)) ACBG" using ac_output_simps(6) [of "ac s" h] by simp
  then show ?thesis unfolding x by (rule same_inputs_sym [OF same_inputs_acsr])
qed

lemma wp_fire_acomp:
  assumes d: "irqs_ok V d" "ac_irqVec (ac (part d)) \<in> V"
    and post: "\<And>d'. irqs_ok V d' \<Longrightarrow> pboard d' = pboard d \<Longrightarrow>
      part d' = (part d)\<lparr>ac := (if ok then (ac (part d))\<lparr>acsr := set_bit ACI (acsr (ac (part d)))\<rparr> else ac (part d))\<rparr> \<Longrightarrow>
      requests d' = requests d \<union> (if ok \<and> bit (acsr (ac (part d))) ACIE then {ac_irqVec (ac (part d))} else {}) \<Longrightarrow> Q () d'"
  shows "wp (fire_acomp A ok) Q d"
proof (cases ok)
  case True
  let ?d = "d\<lparr>part := (part d)\<lparr>ac := (ac (part d))\<lparr>acsr := set_bit ACI (acsr (ac (part d)))\<rparr>\<rparr>\<rparr>"
  have i: "irqs_ok V ?d" using d by simp
  show ?thesis
  proof (cases "bit (acsr (ac (part d))) ACIE")
    case ie: True
    have "wp (set_irq (env_ac A) (ac_irqVec (ac (part d)))) Q ?d"
      by (rule wp_set_irq_irqs [OF i]) (use True ie d(2) in \<open>simp_all add: post\<close>)
    then show ?thesis using True ie by (simp add: fire_acomp_def wp_simps bit_simps)
  next
    case False
    then have "Q () ?d" using True d by (intro post) simp_all
    then show ?thesis using True False by (simp add: fire_acomp_def wp_simps bit_simps)
  qed
next
  case False
  then show ?thesis unfolding fire_acomp_def by (simp add: wp_simps) (rule post, simp_all add: d)
qed

lemma wp_Acomp_PinStateHasChanged:
  assumes d: "irqs_ok V d" "ac_irqVec (ac (part d)) \<in> V" and h: "ac_enabled (ac (part d)) \<Longrightarrow> input_above A (part d) (pboard d) = Some h"
    and post: "\<And>d'. irqs_ok V d' \<Longrightarrow> pboard d' = pboard d \<Longrightarrow>
      part d' = (part d)\<lparr>ac := (if ac_enabled (ac (part d)) then ac_output (ac (part d)) h else ac (part d))\<rparr> \<Longrightarrow>
      requests d' = requests d \<union> (if ac_enabled (ac (part d)) \<and> ac_edge (ac (part d)) h \<and> bit (acsr (ac (part d))) ACIE
        then {ac_irqVec (ac (part d))} else {}) \<Longrightarrow> Q () d'"
  shows "wp (Acomp_PinStateHasChanged A) Q d"
proof (cases "ac_enabled (ac (part d))")
  case False
  then show ?thesis unfolding Acomp_PinStateHasChanged_def by (simp add: wp_simps) (rule post, simp_all add: d)
next
  case en: True
  show ?thesis
  proof (cases "h = bit (acsr (ac (part d))) ACO")
    case True
    then show ?thesis unfolding Acomp_PinStateHasChanged_def using en
      by (simp add: wp_simps wp_above [OF h [OF en]] d ac_output_def ac_edge_def post)
  next
    case False
    let ?x = "if h then set_bit ACO (acsr (ac (part d))) else unset_bit ACO (acsr (ac (part d)))"
    let ?d = "d\<lparr>part := (part d)\<lparr>ac := (ac (part d))\<lparr>acsr := ?x\<rparr>\<rparr>\<rparr>"
    let ?m = "acsr (ac (part d)) AND 3"
    have "wp (fire_acomp A (?m = 0 \<or> ?m = (if h then 3 else 2))) Q ?d"
    proof (rule wp_fire_acomp)
      show "irqs_ok V ?d" "ac_irqVec (ac (part ?d)) \<in> V" using d by simp_all
      show "Q () d'" if "irqs_ok V d'" "pboard d' = pboard ?d"
        "part d' = part ?d\<lparr>ac := (if ?m = 0 \<or> ?m = (if h then 3 else 2) then (ac (part ?d))\<lparr>acsr := set_bit ACI (acsr (ac (part ?d)))\<rparr> else ac (part ?d))\<rparr>"
        "requests d' = requests ?d \<union> (if (?m = 0 \<or> ?m = (if h then 3 else 2)) \<and> bit (acsr (ac (part ?d))) ACIE then {ac_irqVec (ac (part ?d))} else {})" for d'
        using that False en
        by (intro post) (simp_all add: ac_output_def ac_edge_def Let_def bit_simps)
    qed
    then show ?thesis unfolding Acomp_PinStateHasChanged_def using en False
      by (cases h) (simp_all add: wp_simps wp_above [OF h [OF en]])
  qed
qed

text \<open>
  When a signal has changed, an enabled comparator is brought up to date; if its output changes, in the direction
  that the mode selects (0 both, 2 falling, 3 rising), the flag is set and, if enabled, the interrupt requested; mode 1 selects
  nothing. A comparator that is switched off does not change.
\<close>

theorem comparator_output:
  assumes "irqs_ok V d" "ac_irqVec (ac (part d)) \<in> V" "input_above A (part d) (pboard d) = Some h" "c = ac (part d)"
  shows "wp (Acomp_PinStateHasChanged A) (\<lambda>_ d'. let c' = ac (part d'); mode = acsr c AND 3;
       fire = (ac_enabled c \<and> h \<noteq> bit (acsr c) ACO \<and> (mode = 0 \<or> mode = (if h then 3 else 2)))
     in up_to_date A (part d') (pboard d') \<and> pboard d' = pboard d \<and> ad (part d') = ad (part d) \<and>
       (bit (acsr c') ACI \<longleftrightarrow> bit (acsr c) ACI \<or> fire) \<and> (\<not> ac_enabled c \<longrightarrow> c' = c) \<and>
       requests d' = requests d \<union> (if fire \<and> bit (acsr c) ACIE then {ac_irqVec c} else {})) d"
proof (rule wp_Acomp_PinStateHasChanged [OF assms(1-3)])
  fix d'
  let ?c = "ac (part d)"
  assume d': "pboard d' = pboard d" "part d' = (part d)\<lparr>ac := (if ac_enabled ?c then ac_output ?c h else ?c)\<rparr>"
    "requests d' = requests d \<union> (if ac_enabled ?c \<and> ac_edge ?c h \<and> bit (acsr ?c) ACIE then {ac_irqVec ?c} else {})"
  have u: "up_to_date A (part d') (pboard d')"
    using assms(3) d' same_inputs [OF same_inputs_output [of "part d" h], of A "pboard d"] by (simp add: up_to_date_def)
  show "let c' = ac (part d'); mode = acsr c AND 3;
       fire = (ac_enabled c \<and> h \<noteq> bit (acsr c) ACO \<and> (mode = 0 \<or> mode = (if h then 3 else 2)))
     in up_to_date A (part d') (pboard d') \<and> pboard d' = pboard d \<and> ad (part d') = ad (part d) \<and>
       (bit (acsr c') ACI \<longleftrightarrow> bit (acsr c) ACI \<or> fire) \<and> (\<not> ac_enabled c \<longrightarrow> c' = c) \<and>
       requests d' = requests d \<union> (if fire \<and> bit (acsr c) ACIE then {ac_irqVec c} else {})"
    unfolding Let_def using u d' assms(4) by (cases "ac_enabled ?c") (simp_all add: ac_edge_def Let_def)
qed

section \<open>Writes\<close>

text \<open>The comparator with the converter that it shares the multiplexer with, all of whose eight channels are connected.\<close>

definition linked :: "analog \<Rightarrow> bool" where
  "linked s \<longleftrightarrow> has_ad (ac s) \<and> ad_client (ad s) \<and> mux_client (mux (ad s)) \<and> numPins (mux (ad s)) = 8 \<and>
     length (mux_ad (mux (ad s))) = 8 \<and> None \<notin> set (mux_ad (mux (ad s))) \<and> muxSelect (mux (ad s)) = unat (admux (ad s) AND 7)"

lemma linked_input: "linked s \<Longrightarrow> \<exists>h. input_above A s b = Some h"
proof -
  assume s: "linked s"
  have "unat (admux (ad s) AND 7) < 8" using word_and_le1 [of "admux (ad s)" 7] by (simp add: word_le_nat_alt)
  then have "mux_ad (mux (ad s)) ! unat (admux (ad s) AND 7) \<in> set (mux_ad (mux (ad s)))" using s by (simp add: linked_def)
  then have "mux_ad (mux (ad s)) ! unat (admux (ad s) AND 7) \<noteq> None" using s by (metis linked_def)
  then show ?thesis by (auto simp: input_above_def GetIn1_def GetValueAComp_def channel_def Let_def)
qed

definition analog_irqs :: "(analog, 'f, 'w, 'hw) part_dev \<Rightarrow> bool" where
  "analog_irqs d \<longleftrightarrow> irqs_ok {ac_irqVec (ac (part d)), ad_irqVec (ad (part d))} d"

datatype analog_write = Write_ACSR byte | Write_ADMUX byte | Write_ADCSRA byte | Write_ADCSRB byte | Write_SFIOR byte

definition analog_write :: "('f::floor_ceiling, 'w, 'hw) analog_env \<Rightarrow> analog_write \<Rightarrow> ('f, 'w, 'hw, unit) asim" where
  "analog_write A w = (case w of Write_ACSR v \<Rightarrow> SetAcsr A v | Write_ADMUX v \<Rightarrow> SetAdmux A v | Write_ADCSRA v \<Rightarrow> SetAdcsrA A v
     | Write_ADCSRB v \<Rightarrow> SetAdcsrB A v | Write_SFIOR v \<Rightarrow> bnd (Acomp_set_from_reg A v) (\<lambda>_. ret ()))"

text \<open>The writes which the comparator does not notice: it is switched on, or it loses the multiplexer.\<close>

definition unnoticed :: "analog \<Rightarrow> analog_write \<Rightarrow> bool" where
  "unnoticed s w = (case w of
       Write_ACSR v \<Rightarrow> \<not> ac_enabled (ac s) \<and> \<not> bit v ACD
     | Write_ADCSRA v \<Rightarrow> isSetACME s \<and> bit v ADEN
     | Write_ADCSRB v \<Rightarrow> isSetACME s \<and> \<not> ac_sfior (ac s) \<and> (\<not> bit v ACME \<or> adType (ad s) = AD_M64)
     | _ \<Rightarrow> False)"

text \<open>A change of the status register that keeps the inputs keeps the links, and leaves the comparator up to date if the output stays.\<close>

lemma linked_acsr [simp]: "linked (s\<lparr>ac := (ac s)\<lparr>acsr := x\<rparr>\<rparr>) = linked s"
  by (simp add: linked_def)

lemma up_to_date_acsr:
  assumes "up_to_date A s b" "bit x ACBG = bit (acsr (ac s)) ACBG" "bit x ACO = bit (acsr (ac s)) ACO"
  shows "up_to_date A (s\<lparr>ac := (ac s)\<lparr>acsr := x\<rparr>\<rparr>) b"
  using assms same_inputs [OF same_inputs_acsr [OF assms(2)], of A b] by (simp add: up_to_date_def)

lemma up_to_date_inputs:
  assumes "up_to_date A s b" "same_inputs s t" "bit (acsr (ac t)) ACO = bit (acsr (ac s)) ACO" "ac_enabled (ac t) \<Longrightarrow> ac_enabled (ac s)"
  shows "up_to_date A t b"
  using assms same_inputs [OF assms(2), of A b] by (simp add: up_to_date_def)

lemma wp_recompute:
  fixes A :: "('f::floor_ceiling, 'w, 'hw) analog_env"
  assumes "irqs_ok V d" "ac_irqVec (ac (part d)) \<in> V" "linked (part d)"
    and post: "\<And>d' x. irqs_ok V d' \<Longrightarrow> pboard d' = pboard d \<Longrightarrow> part d' = (part d)\<lparr>ac := (ac (part d))\<lparr>acsr := x\<rparr>\<rparr> \<Longrightarrow>
      bit x ACBG = bit (acsr (ac (part d))) ACBG \<Longrightarrow> bit x ACD = bit (acsr (ac (part d))) ACD \<Longrightarrow> (\<not> ac_enabled (ac (part d)) \<Longrightarrow> x = acsr (ac (part d))) \<Longrightarrow>
      up_to_date A (part d') (pboard d') \<Longrightarrow> Q () d'"
  shows "wp (Acomp_PinStateHasChanged A) Q d"
proof -
  obtain h where h: "input_above A (part d) (pboard d) = Some h" using linked_input [OF assms(3)] by blast
  obtain x where x: "ac_output (ac (part d)) h = (ac (part d))\<lparr>acsr := x\<rparr>" using ac_output_only by blast
  have b: "bit x ACBG = bit (acsr (ac (part d))) ACBG" "bit x ACD = bit (acsr (ac (part d))) ACD"
    using ac_output_simps(6,7) [of "ac (part d)" h] by (simp_all add: x)
  show ?thesis
  proof (rule wp_Acomp_PinStateHasChanged [OF assms(1,2) h])
    fix d' :: "(analog, 'f, 'w, 'hw) part_dev"
    assume d': "irqs_ok V d'" "pboard d' = pboard d"
      "part d' = (part d)\<lparr>ac := (if ac_enabled (ac (part d)) then ac_output (ac (part d)) h else ac (part d))\<rparr>"
    have u: "up_to_date A (part d') (pboard d')"
      using h d'(2,3) same_inputs [OF same_inputs_output [of "part d" h], of A "pboard d"] by (simp add: up_to_date_def)
    let ?y = "if ac_enabled (ac (part d)) then x else acsr (ac (part d))"
    show "Q () d'" by (rule post [where x = ?y]) (use d' u b in \<open>simp_all add: x\<close>)
  qed
qed

text \<open>A notification from the multiplexer reaches the comparator exactly if it uses the multiplexer.\<close>

lemma Ad_notify: "linked (part d) \<Longrightarrow>
  wp (Ad_NotifySignalChanged A) Q d = wp (whenM (isSetACME (part d)) (Acomp_PinStateHasChanged A)) Q d"
  by (auto simp: Ad_NotifySignalChanged_def Acomp_NotifySignalChanged_def wp_simps linked_def isSetACME_def)

lemma wp_notify:
  assumes "irqs_ok V d" "ac_irqVec (ac (part d)) \<in> V" "linked (part d)"
    and post: "\<And>d' x. irqs_ok V d' \<Longrightarrow> pboard d' = pboard d \<Longrightarrow> part d' = (part d)\<lparr>ac := (ac (part d))\<lparr>acsr := x\<rparr>\<rparr> \<Longrightarrow>
      (if isSetACME (part d) then up_to_date A (part d') (pboard d') else x = acsr (ac (part d))) \<Longrightarrow> Q () d'"
  shows "wp (Ad_NotifySignalChanged A) Q d"
proof (cases "isSetACME (part d)")
  case True
  then have "wp (Acomp_PinStateHasChanged A) Q d"
    by (intro wp_recompute [OF assms(1-3)]) (auto intro: post)
  then show ?thesis using True by (simp add: Ad_notify [OF assms(3)] wp_simps)
next
  case False
  then have "Q () d" by (intro post [where x = "acsr (ac (part d))"]) (use assms(1) in simp_all)
  then show ?thesis using False by (simp add: Ad_notify [OF assms(3)] wp_simps)
qed

section \<open>The single writes\<close>

text \<open>What a write has to give: the links are kept; the comparator is up to date unless the write goes unnoticed, and then its output stays.\<close>

definition written :: "('f::floor_ceiling, 'w, 'hw) analog_env \<Rightarrow> nat set \<Rightarrow> bool \<Rightarrow> bool \<Rightarrow> unit \<Rightarrow> (analog, 'f, 'w, 'hw) part_dev \<Rightarrow> bool" where
  "written A V miss out u d \<longleftrightarrow> irqs_ok V d \<and> linked (part d) \<and>
     (if miss then bit (acsr (ac (part d))) ACO = out else up_to_date A (part d) (pboard d))"

lemma write_SFIOR:
  assumes "irqs_ok V d" "ac_irqVec (ac (part d)) \<in> V" "linked (part d)"
  shows "wp (Acomp_set_from_reg A v) (\<lambda>_. written A V False out u) d"
proof -
  let ?d = "d\<lparr>part := (part d)\<lparr>ac := (ac (part d))\<lparr>acme_sfior := bit v 3\<rparr>\<rparr>\<rparr>"
  have l: "linked (part ?d)" using assms(3) by (simp add: linked_def)
  have "wp (Acomp_PinStateHasChanged A) (\<lambda>_. written A V False out u) ?d"
    by (rule wp_recompute [OF _ _ l]) (use assms in \<open>simp_all add: written_def linked_def\<close>)
  then show ?thesis unfolding Acomp_set_from_reg_def by (simp add: wp_simps)
qed

lemma isSetACME_simps [simp]:
  "isSetACME (s\<lparr>ad := (ad s)\<lparr>admux := w, mux := m\<rparr>\<rparr>) = isSetACME s" "isSetACME (s\<lparr>ac := (ac s)\<lparr>acsr := x\<rparr>\<rparr>) = isSetACME s"
  by (simp_all add: isSetACME_def IsADEnabled_def)

lemma select_mux:
  fixes A :: "('f::floor_ceiling, 'w, 'hw) analog_env"
  assumes "irqs_ok V d" "ac_irqVec (ac (part d)) \<in> V" "linked (part d)" "up_to_date A (part d) (pboard d)"
    and s: "s = (part d)\<lparr>ad := (ad (part d))\<lparr>admux := w, mux := (mux (ad (part d)))\<lparr>muxSelect := unat (w AND 7)\<rparr>\<rparr>\<rparr>"
  shows "wp (Ad_NotifySignalChanged A) (written A V False out) (d\<lparr>part := s\<rparr>)"
    "muxSelect (mux (ad (part d))) = unat (w AND 7) \<Longrightarrow> written A V False out () (d\<lparr>part := s\<rparr>)"
proof -
  have l: "linked s" using assms(3) by (simp add: linked_def s)
  have i: "isSetACME s = isSetACME (part d)" by (simp add: s)
  have o: "same_inputs (part d) s" if "\<not> isSetACME s \<or> w AND 7 = admux (ad (part d)) AND 7"
    using that by (auto simp: same_inputs_def s)
  have e: "acsr (ac s) = acsr (ac (part d))" "ac_enabled (ac s) = ac_enabled (ac (part d))" by (simp_all add: s)
  have u: "up_to_date A s (pboard d)" if "\<not> isSetACME s \<or> w AND 7 = admux (ad (part d)) AND 7"
    by (rule up_to_date_inputs [OF assms(4) o [OF that]]) (simp_all add: e)
  show "wp (Ad_NotifySignalChanged A) (written A V False out) (d\<lparr>part := s\<rparr>)"
  proof (rule wp_notify [where V = V])
    fix x and d' :: "(analog, 'f, 'w, 'hw) part_dev"
    assume h: "irqs_ok V d'" "pboard d' = pboard (d\<lparr>part := s\<rparr>)" "part d' = (part (d\<lparr>part := s\<rparr>))\<lparr>ac := (ac (part (d\<lparr>part := s\<rparr>)))\<lparr>acsr := x\<rparr>\<rparr>"
      "if isSetACME (part (d\<lparr>part := s\<rparr>)) then up_to_date A (part d') (pboard d') else x = acsr (ac (part (d\<lparr>part := s\<rparr>)))"
    have "up_to_date A (part d') (pboard d')"
    proof (cases "isSetACME s")
      case False
      then have "part d' = s" using h by simp
      then show ?thesis using False h(2) u by simp
    qed (use h in simp)
    then show "written A V False out () d'" using h l by (simp add: written_def)
  qed (use assms(1,2) l in \<open>simp_all add: s\<close>)
  assume "muxSelect (mux (ad (part d))) = unat (w AND 7)"
  then have "unat (admux (ad (part d)) AND 7) = unat (w AND 7)" using assms(3) by (simp add: linked_def)
  then have "w AND 7 = admux (ad (part d)) AND 7" by (simp only: word_unat_eq_iff)
  then have "up_to_date A s (pboard d)" using u by simp
  then show "written A V False out () (d\<lparr>part := s\<rparr>)" using assms(1) l by (simp add: written_def)
qed

lemma write_ADMUX:
  assumes "irqs_ok V d" "ac_irqVec (ac (part d)) \<in> V" "linked (part d)" "up_to_date A (part d) (pboard d)"
  shows "wp (SetAdmux A v) (written A V False out) d"
proof -
  let ?a = "ad (part d)"
  define w where "w = (if adType ?a = AD_4433 then v AND 0x47 else if adType ?a = AD_M8 \<or> adType ?a = AD_M48 then v AND 0xef else v)"
  have m: "mux_client (mux ?a)" "numPins (mux ?a) = 8" using assms(3) by (simp_all add: linked_def)
  show ?thesis unfolding SetAdmux_def SetMuxSelect_def wp_sq wp_bnd wp_basic
    by (simp add: w_def [symmetric] m, rule wp_whenI)
      (use select_mux [OF assms refl, where w = w and out = out] in simp_all)
qed

lemma isSetACME_off: "isSetACME s \<Longrightarrow> \<not> IsADEnabled (ad s)"
  by (simp add: isSetACME_def split: if_splits)

text \<open>A change of the converter, after which it informs the comparator.\<close>

lemma write_ad:
  fixes A :: "('f::floor_ceiling, 'w, 'hw) analog_env"
  assumes "irqs_ok V d" "ac_irqVec (ac (part d)) \<in> V" "linked (part d)" "up_to_date A (part d) (pboard d)"
    and s: "s = (part d)\<lparr>ad := f (ad (part d))\<rparr>" "\<And>a. admux (f a) = admux a \<and> mux (f a) = mux a \<and> ad_client (f a) = ad_client a"
    and p: "irqs_ok V e" "part e = s" "pboard e = pboard d"
  shows "wp (Ad_NotifySignalChanged A) (written A V (isSetACME (part d) \<and> \<not> isSetACME s) (bit (acsr (ac (part d))) ACO)) e"
proof -
  have l: "linked s" using assms(3) s(2) by (simp add: linked_def s(1))
  have e: "acsr (ac s) = acsr (ac (part d))" "ac s = ac (part d)" by (simp_all add: s(1))
  have o: "same_inputs (part d) s" if "\<not> isSetACME s" "\<not> isSetACME (part d)"
    using that s(2) by (simp add: same_inputs_def e)
  show ?thesis
  proof (rule wp_notify [where V = V])
    fix x and d' :: "(analog, 'f, 'w, 'hw) part_dev"
    assume h: "irqs_ok V d'" "pboard d' = pboard e" "part d' = (part e)\<lparr>ac := (ac (part e))\<lparr>acsr := x\<rparr>\<rparr>"
      "if isSetACME (part e) then up_to_date A (part d') (pboard d') else x = acsr (ac (part e))"
    show "written A V (isSetACME (part d) \<and> \<not> isSetACME s) (bit (acsr (ac (part d))) ACO) () d'"
    proof (cases "isSetACME s")
      case True
      then show ?thesis using h l by (simp add: written_def p)
    next
      case False
      then have d': "part d' = s" using h(3,4) p by simp
      moreover have "up_to_date A s (pboard d)" if "\<not> isSetACME (part d)"
        by (rule up_to_date_inputs [OF assms(4) o [OF False that]]) (simp_all add: e)
      ultimately show ?thesis using h(1,2) l p False by (simp add: written_def e)
    qed
  qed (use assms(1,2) l p in \<open>simp_all add: e\<close>)
qed

lemma write_ADCSRB:
  assumes "irqs_ok V d" "ac_irqVec (ac (part d)) \<in> V" "linked (part d)" "up_to_date A (part d) (pboard d)"
  shows "wp (SetAdcsrB A v) (written A V (unnoticed (part d) (Write_ADCSRB v)) (bit (acsr (ac (part d))) ACO)) d"
proof -
  let ?f = "\<lambda>a. a\<lparr>adcsrb := v AND (if adType a = AD_T25 then 0xe7 else if adType a = AD_M64 then 0x07 else 0x47)\<rparr>"
  let ?s = "(part d)\<lparr>ad := ?f (ad (part d))\<rparr>"
  have m: "isSetACME (part d) \<and> \<not> isSetACME ?s \<longleftrightarrow> unnoticed (part d) (Write_ADCSRB v)"
    by (auto simp: isSetACME_def unnoticed_def IsADEnabled_def bit_and_iff)
  have "wp (Ad_NotifySignalChanged A) (written A V (isSetACME (part d) \<and> \<not> isSetACME ?s) (bit (acsr (ac (part d))) ACO)) (d\<lparr>part := ?s\<rparr>)"
    by (rule write_ad [OF assms, of ?s ?f]) (use assms(1) in simp_all)
  then show ?thesis unfolding m by (simp add: SetAdcsrB_def wp_simps)
qed

lemma write_ADCSRA:
  fixes A :: "('f::floor_ceiling, 'w, 'hw) analog_env"
  assumes "irqs_ok V d" "ac_irqVec (ac (part d)) \<in> V" "linked (part d)" "up_to_date A (part d) (pboard d)" "ad_irqVec (ad (part d)) \<in> V"
  shows "wp (SetAdcsrA A v) (written A V (unnoticed (part d) (Write_ADCSRA v)) (bit (acsr (ac (part d))) ACO)) d"
proof -
  let ?f = "adcsra_stored v"
  let ?s = "(part d)\<lparr>ad := ?f (ad (part d))\<rparr>"
  let ?d = "d\<lparr>part := ?s\<rparr>"
  let ?Q = "written A V (isSetACME (part d) \<and> \<not> isSetACME ?s) (bit (acsr (ac (part d))) ACO)"
  have en: "IsADEnabled (?f a) = bit v ADEN" "adcsrb (?f a) = adcsrb a" for a
    by (simp_all add: adcsra_stored_def IsADEnabled_def Let_def bit_simps)
  have f [simp]: "admux (?f a) = admux a \<and> mux (?f a) = mux a \<and> ad_client (?f a) = ad_client a" "ad_irqVec (?f a) = ad_irqVec a" for a
    by (simp_all add: adcsra_stored_def Let_def)
  have m: "isSetACME (part d) \<and> \<not> isSetACME ?s \<longleftrightarrow> unnoticed (part d) (Write_ADCSRA v)"
    by (auto simp: isSetACME_def unnoticed_def en)
  have rest: "wp (Ad_NotifySignalChanged A) ?Q e" if "irqs_ok V e" "part e = ?s" "pboard e = pboard d" for e :: "(analog, 'f, 'w, 'hw) part_dev"
    by (rule write_ad [OF assms(1-4) refl f(1) that])
  have i: "irqs_ok V ?d" using assms(1) by simp
  have set: "wp (set_irq (env_ad A) (ad_irqVec (ad (part d)))) (\<lambda>_. wp (Ad_NotifySignalChanged A) ?Q) ?d"
    by (rule wp_set_irq_irqs [OF i assms(5)]) (rule rest, simp_all)
  have clear: "wp (clear_irq (env_ad A) (ad_irqVec (ad (part d)))) (\<lambda>_. wp (Ad_NotifySignalChanged A) ?Q) ?d"
    by (rule wp_clear_irq_irqs [OF i]) (rule rest, simp_all)
  show ?thesis unfolding SetAdcsrA_def m [symmetric] using set clear by (simp add: wp_simps)
qed

text \<open>The effects of a write to the status register switch the comparator on or off, and keep its output and inputs.\<close>

lemma wp_acsr_effects:
  assumes "irqs_ok V d" "ac_irqVec (ac (part d)) \<in> V" "linked (part d)"
    and post: "\<And>d'. irqs_ok V d' \<Longrightarrow> pboard d' = pboard d \<Longrightarrow> linked (part d') \<Longrightarrow> same_inputs (part d) (part d') \<Longrightarrow>
      bit (acsr (ac (part d'))) ACO = bit (acsr (ac (part d))) ACO \<Longrightarrow>
      (ac_enabled (ac (part d')) \<longleftrightarrow> \<not> bit (acsr (ac (part d))) ACD) \<Longrightarrow> Q () d'"
  shows "wp (acsr_effects A val acic) Q d"
proof -
  let ?c = "acsr_switched val acic (ac (part d))"
  let ?d = "d\<lparr>part := (part d)\<lparr>ac := ?c\<rparr>\<rparr>"
  have c: "bit (acsr ?c) n = (bit (acsr (ac (part d))) n \<and> (n = ACI \<longrightarrow> \<not> bit val ACI))" "ac_enabled ?c = (\<not> bit (acsr (ac (part d))) ACD)"
    "ac_irqVec ?c = ac_irqVec (ac (part d))"
    "has_ad ?c = has_ad (ac (part d))" "useBG ?c = useBG (ac (part d))" "pinAin0 ?c = pinAin0 (ac (part d))" "pinAin1 ?c = pinAin1 (ac (part d))"
    "ac_sfior ?c = ac_sfior (ac (part d))" "acme_sfior ?c = acme_sfior (ac (part d))" for n
    by (auto simp: acsr_switched_def Let_def bit_simps)
  have last: "Q () e" if "irqs_ok V e" "part e = part ?d" "pboard e = pboard d" for e
    by (rule post) (use that assms(3) in \<open>simp_all add: c linked_def same_inputs_def isSetACME_def bit_simps\<close>)
  have i: "irqs_ok V ?d" "ac_irqVec (ac (part d)) \<in> V" using assms by simp_all
  have s: "wp (set_irq (env_ac A) (ac_irqVec (ac (part d)))) Q ?d"
    by (rule wp_set_irq_irqs [OF i]) (rule last, simp_all)
  have r: "wp (clear_irq (env_ac A) (ac_irqVec (ac (part d)))) Q ?d"
    by (rule wp_clear_irq_irqs [OF i(1)]) (rule last, simp_all)
  have n: "Q () ?d" by (rule last) (use i in simp_all)
  show ?thesis unfolding acsr_effects_def using s r n by (simp add: wp_simps c)
qed

lemma write_ACSR:
  fixes A :: "('f::floor_ceiling, 'w, 'hw) analog_env"
  assumes "irqs_ok V d" "ac_irqVec (ac (part d)) \<in> V" "linked (part d)" "up_to_date A (part d) (pboard d)"
  shows "wp (SetAcsr A v) (written A V (unnoticed (part d) (Write_ACSR v)) (bit (acsr (ac (part d))) ACO)) d"
proof -
  let ?c = "ac (part d)"
  let ?Q = "written A V (unnoticed (part d) (Write_ACSR v)) (bit (acsr ?c) ACO)"
  define val where "val = (if useBG ?c then v else unset_bit ACBG v)"
  define x0 where "x0 = (val AND NOT 0x30) OR (acsr ?c AND 0x30)"
  let ?s = "(part d)\<lparr>ac := ?c\<lparr>acsr := x0\<rparr>\<rparr>"
  let ?d = "d\<lparr>part := ?s\<rparr>"
  have fold_x0: "(val AND - 49) OR (acsr ?c AND 48) = x0" by (simp add: x0_def)
  have x0: "bit x0 ACO = bit (acsr ?c) ACO" "bit x0 ACD = bit v ACD"
    by (simp_all add: x0_def val_def bit_simps)
  have effects: "wp (acsr_effects A val oc) ?Q e"
    if e: "irqs_ok V e" "linked (part e)" "ac_irqVec (ac (part e)) \<in> V" "bit (acsr (ac (part e))) ACD = bit v ACD"
      "ac_enabled ?c \<Longrightarrow> up_to_date A (part e) (pboard e) \<and> ac_enabled (ac (part e))"
      "\<not> ac_enabled ?c \<Longrightarrow> bit (acsr (ac (part e))) ACO = bit (acsr ?c) ACO" for e :: "(analog, 'f, 'w, 'hw) part_dev" and oc
  proof (rule wp_acsr_effects [OF e(1,3,2)])
    fix d' :: "(analog, 'f, 'w, 'hw) part_dev"
    assume h: "irqs_ok V d'" "pboard d' = pboard e" "linked (part d')" "same_inputs (part e) (part d')"
      "bit (acsr (ac (part d'))) ACO = bit (acsr (ac (part e))) ACO" "ac_enabled (ac (part d')) \<longleftrightarrow> \<not> bit (acsr (ac (part e))) ACD"
    show "?Q () d'"
    proof (cases "ac_enabled ?c")
      case True
      then have "up_to_date A (part d') (pboard e)"
        using e(5) by (intro up_to_date_inputs [OF _ h(4,5)]) simp_all
      then show ?thesis using True h by (simp add: written_def unnoticed_def)
    next
      case False
      then show ?thesis using h e(4,6) by (simp add: written_def unnoticed_def up_to_date_def)
    qed
  qed
  have l: "linked (part ?d)" using assms(3) by simp
  have changed: "wp (Acomp_PinStateHasChanged A) (\<lambda>_. wp (acsr_effects A val oc) ?Q) ?d" for oc
    by (rule wp_recompute [OF _ _ l]) (use assms(1,2) l x0 in \<open>auto intro!: effects\<close>)
  have same: "wp (acsr_effects A val oc) ?Q ?d" if "bit (acsr ?c) ACBG = bit x0 ACBG" for oc
    by (rule effects) (use assms(1,2) l x0 that in \<open>simp_all add: up_to_date_acsr [OF assms(4)]\<close>)
  show ?thesis unfolding SetAcsr_def Let_def wp_bnd wp_basic prod.case val_def [symmetric] wp_sq
    using changed same by (simp add: fold_x0 wp_simps)
qed

text \<open>
  C35. Whatever is written to the registers of the comparator, of the multiplexer and of the converter, the output of an
  enabled comparator stays up to date, except after the writes that it does not notice: switching the comparator on, and taking
  the multiplexer away from it, by enabling the converter or by clearing the bit that gives it the
  multiplexer in the second status register; after these the output bit is the old one.
\<close>

theorem comparator_writes:
  assumes "irqs_ok V d" "{ac_irqVec (ac (part d)), ad_irqVec (ad (part d))} \<subseteq> V" "linked (part d)" "up_to_date A (part d) (pboard d)"
  shows "wp (analog_write A w) (\<lambda>_ d'. irqs_ok V d' \<and> linked (part d') \<and>
     (if unnoticed (part d) w then bit (acsr (ac (part d'))) ACO = bit (acsr (ac (part d))) ACO
      else up_to_date A (part d') (pboard d'))) d"
proof -
  have v: "ac_irqVec (ac (part d)) \<in> V" "ad_irqVec (ad (part d)) \<in> V" using assms(2) by simp_all
  note w = write_ACSR write_ADCSRB write_ADCSRA [OF _ _ _ _ v(2)] write_ADMUX [where out = "bit (acsr (ac (part d))) ACO"]
  have "wp (analog_write A w) (written A V (unnoticed (part d) w) (bit (acsr (ac (part d))) ACO)) d"
  proof (cases w)
    case (Write_SFIOR v)
    then show ?thesis using write_SFIOR [OF assms(1) v(1) assms(3)] by (simp add: analog_write_def wp_simps unnoticed_def)
  qed (use w [OF assms(1) v(1) assms(3,4)] in \<open>simp_all add: analog_write_def unnoticed_def\<close>)
  then show ?thesis by (simp add: written_def [abs_def])
qed

section \<open>Examples\<close>

text \<open>Three volts at the first input and one at the second; the pins that the multiplexer selects from have four.\<close>

definition volts_board :: "(real, unit) board" where
  "volts_board = \<lparr>bpins = (\<lambda>i. undefined\<lparr>analogVal := setA (if i = 0 then 3 else if i = 1 then 1 else 4)\<rparr>),
     bnets = undefined, bports = (\<lambda>_. undefined\<lparr>portPins := [0, 1]\<rparr>), bworld = ()\<rparr>"

definition volts_adc :: "byte \<Rightarrow> adc" where
  "volts_adc b = \<lparr>adType = AD_M16, adch = 0, adcl = 0, adcsra = 0, adcsrb = b, admux = 0,
     mux = \<lparr>admux_kind = HWAdmuxM16, mux_ad = map Some [2, 3, 4, 5, 6, 7, 8, 9], mux_client = True, muxSelect = 0, numPins = 8\<rparr>,
     aref = HWARefPin 10, ad_irqVec = 14, adchLocked = False, adSample = 0, adMuxConfig = 0, ad_prescaler = 0,
     prescalerSelect = 0, conversionState = 0, firstConversion = True, ad_client = True, ad_state = IDLE, adts = None\<rparr>"

definition volts_acomp :: "byte \<Rightarrow> acomp" where
  "volts_acomp x = \<lparr>pinAin0 = \<lparr>pa_port = 0, pa_pinNo = 0\<rparr>, pinAin1 = \<lparr>pa_port = 0, pa_pinNo = 1\<rparr>, useBG = True, acme_sfior = False,
     ac_enabled = True, acsr = x, ac_irqVec = 16, timerA = None, timerB = None, has_ad = True, ac_sfior = False\<rparr>"

definition volts :: "byte \<Rightarrow> byte \<Rightarrow> (analog, real, unit, char) part_dev" where
  "volts x b = \<lparr>part = \<lparr>ad = volts_adc b, ac = volts_acomp x\<rparr>, pirq = HWIrqSystem 2 20, pboard = volts_board\<rparr>"

lemma volts_ok: "irqs_ok {14, 16} (volts x b)" "requests (volts x b) = {}"
  by (simp_all add: irqs_ok_def irq_ok_def table_ok_def HWIrqSystem_def volts_def requests_def)

lemma volts_inputs:
  "input_above exact_env (part (volts 0x08 0)) volts_board = Some True"
  "input_above exact_env (part (volts 0x08 0x40)) volts_board = Some False"
  by (simp_all add: input_above_def GetIn0_def GetIn1_def isSetACME_def IsADEnabled_def GetValueAComp_def channel_def volts_def volts_adc_def
      volts_acomp_def exact_env_def volts_board_def PinAtPort_GetAnalogValue_def GetAnalogValue_def getA_def setA_def Let_def)

theorem comparator_output_witness:
  "\<exists>d'. Acomp_PinStateHasChanged exact_env (volts 0x08 0) = Inr ((), d') \<and> requests d' = {16} \<and> bit (acsr (ac (part d'))) ACI"
proof -
  let ?d = "volts 0x08 0"
  have v: "ac (part ?d) = volts_acomp 0x08" "pboard ?d = volts_board" by (simp_all add: volts_def)
  have m: "ac_irqVec (ac (part ?d)) \<in> {14, 16}" "input_above exact_env (part ?d) (pboard ?d) = Some True"
    by (simp_all add: v volts_inputs) (simp add: volts_acomp_def)
  show ?thesis
    by (rule wpE [OF comparator_output [OF volts_ok(1) m refl]]) (simp add: v volts_ok(2) volts_acomp_def Let_def)
qed

text \<open>The second status register gives the comparator the multiplexer, and takes it away again unnoticed.\<close>

theorem comparator_writes_witness:
  "(\<exists>d'. analog_write exact_env (Write_ADMUX 3) (volts 0x08 0x40) = Inr ((), d') \<and> up_to_date exact_env (part d') (pboard d')) \<and>
   (\<exists>d'. analog_write exact_env (Write_ADCSRB 0) (volts 0x08 0x40) = Inr ((), d') \<and> \<not> bit (acsr (ac (part d'))) ACO)"
  (is "?A \<and> ?B")
proof -
  let ?d = "volts 0x08 0x40"
  have l: "linked (part ?d)" by (simp add: linked_def volts_def volts_adc_def volts_acomp_def)
  have p: "pboard ?d = volts_board" "acsr (ac (part ?d)) = 0x08" "ac_enabled (ac (part ?d))" "isSetACME (part ?d)" "ac_sfior (ac (part ?d)) = False"
    "{ac_irqVec (ac (part ?d)), ad_irqVec (ad (part ?d))} \<subseteq> {14, 16}"
    by (simp_all add: volts_def volts_acomp_def volts_adc_def isSetACME_def IsADEnabled_def)
  have u: "up_to_date exact_env (part ?d) (pboard ?d)" by (simp add: up_to_date_def p volts_inputs)
  note w = comparator_writes [OF volts_ok(1) p(6) l u]
  have n: "\<not> unnoticed (part ?d) (Write_ADMUX 3)" "unnoticed (part ?d) (Write_ADCSRB 0)" by (simp_all add: unnoticed_def p)
  have ?A by (rule wpE [OF w [of "Write_ADMUX 3"]]) (simp add: n)
  moreover have ?B by (rule wpE [OF w [of "Write_ADCSRB 0"]]) (simp add: n p)
  ultimately show ?thesis ..
qed

end
