(* ===== verification/Avr_TimerTiny.thy ===== *)
theory Avr_TimerTiny
  imports Avr_Part Avr_TimerIrq
begin

text \<open>
  Timer 1 of the ATtiny25/45/85 (\<open>HWTimerTinyX5\<close> of \<^verbatim>\<open>hwtimer.cpp\<close>): a counter that runs with the system
  clock or with a clock of its own, and two output units with a dead time generator.

  The system clock calls \<open>Step\<close> while the timer is in its table; \<open>members\<close> counts how often it is
  in there. The number that \<open>rand\<close> gives is an argument.
\<close>

unbundle bit_operations_syntax

section \<open>State\<close>

record tiny_ocr =
  outPin :: pin_at_port
  outPinInv :: pin_at_port
  ocrComMode :: nat
  ocrPWM :: bool
  ocrOut :: bool
  dtHigh :: nat
  dtLow :: nat
  dtCounter :: nat

record sync_reg =
  inValue :: byte
  regValue :: byte

record tinyx5 =
  tcounter :: nat
  tprescaler :: nat
  dtprescaler :: nat
  tccr_inout_val :: sync_reg
  ocra_inout_val :: sync_reg
  ocrb_inout_val :: sync_reg
  ocrc_inout_val :: sync_reg
  gtccr_in_val :: sync_reg
  dtps1_inout_val :: byte
  dt1a_inout_val :: sync_reg
  dt1b_inout_val :: sync_reg
  tcnt_out_val :: byte
  tcnt_out_async_tmp :: byte
  tcnt_in_val :: byte
  tcnt_set_flag :: bool
  tov_internal_flag :: bool
  tocra_internal_flag :: bool
  tocrb_internal_flag :: bool
  ocra_internal_val :: byte
  ocra_compare :: nat
  ocra_unit :: tiny_ocr
  ocrb_internal_val :: byte
  ocrb_compare :: nat
  ocrb_unit :: tiny_ocr
  cfg_prescaler :: nat
  cfg_dtprescaler :: nat
  pwma_mode :: bool   \<comment> \<open>\<open>TMODE_PWMA\<close> in \<open>cfg_mode\<close>\<close>
  pwmb_mode :: bool   \<comment> \<open>\<open>TMODE_PWMB\<close> in \<open>cfg_mode\<close>\<close>
  cfg_ctc :: bool
  cfg_com_a :: nat
  cfg_com_b :: nat
  asyncClock_step :: int
  asyncClock_async :: bool
  asyncClock_lsm :: bool
  asyncClock_pll :: bool
  asyncClock_plllock :: bool
  asyncClock_locktime :: int
  gtccrRegister :: nat
  pllcsrRegister :: nat
  timerOverflowInt :: "nat option"
  timerOCRAInt :: "nat option"
  timerOCRBInt :: "nat option"
  members :: nat
  tirq :: timer_irq

type_synonym ('f, 'w, 'hw, 'a) ocr_sim = "(tiny_ocr, 'f, 'w, 'hw, 'a) psim"
type_synonym ('f, 'w, 'hw, 'a) tiny_sim = "(tinyx5, 'f, 'w, 'hw, 'a) psim"

section \<open>An output unit\<close>

definition PinAtPort_GetPort :: "pin_at_port \<Rightarrow> ('f, 'w) board \<Rightarrow> bool" where
  "PinAtPort_GetPort pp b = bit (port (bports b (pa_port pp))) (pa_pinNo pp)"

definition set_out :: "('f::zero, 'w, 'hw) part_env \<Rightarrow> (tiny_ocr \<Rightarrow> pin_at_port) \<Rightarrow> bool \<Rightarrow> ('f, 'w, 'hw, unit) ocr_sim" where
  "set_out E p v = bnd (get_part p) (\<lambda>pp. on_pboard (SetAlternatePort (pe_listener E) pp v))"

definition use_out :: "('f::zero, 'w, 'hw) part_env \<Rightarrow> (tiny_ocr \<Rightarrow> pin_at_port) \<Rightarrow> bool \<Rightarrow> ('f, 'w, 'hw, unit) ocr_sim" where
  "use_out E p v = bnd (get_part p) (\<lambda>pp. on_pboard (SetUseAlternatePortIfDdrSet (pe_listener E) pp v))"

definition TinyOCR_Reset :: "tiny_ocr \<Rightarrow> tiny_ocr" where
  "TinyOCR_Reset u = u\<lparr>ocrComMode := 0, ocrPWM := False, ocrOut := False, dtHigh := 0, dtLow := 0, dtCounter := 0\<rparr>"

definition TimerTinyX5_OCR :: "pin_at_port \<Rightarrow> pin_at_port \<Rightarrow> tiny_ocr" where
  "TimerTinyX5_OCR out inverted = TinyOCR_Reset \<lparr>outPin = out, outPinInv = inverted, ocrComMode = 0, ocrPWM = False, ocrOut = False,
     dtHigh = 0, dtLow = 0, dtCounter = 0\<rparr>"

definition DTClockCycle :: "('f::zero, 'w, 'hw) part_env \<Rightarrow> ('f, 'w, 'hw, unit) ocr_sim" where
  "DTClockCycle E =
     bnd (get_part (\<lambda>u. 0 < dtCounter u)) (\<lambda>run. whenM run
       (sq (upd_part (\<lambda>u. u\<lparr>dtCounter := dtCounter u - 1\<rparr>))
       (bnd (get_part (\<lambda>u. (dtCounter u = 0, ocrOut u))) (\<lambda>(arrived, out). whenM arrived
         (if out then set_out E outPin out else set_out E outPinInv (\<not> out))))))"

definition SetOCRMode :: "('f::zero, 'w, 'hw) part_env \<Rightarrow> bool \<Rightarrow> nat \<Rightarrow> ('f, 'w, 'hw, unit) ocr_sim" where
  "SetOCRMode E isPWM comMode =
     sq (bnd (gets (\<lambda>d. (ocrComMode (part d) = 0 \<and> comMode \<noteq> 0, PinAtPort_GetPort (outPin (part d)) (pboard d)))) (\<lambda>(on, v).
           whenM on (upd_part (\<lambda>u. u\<lparr>ocrOut := v\<rparr>))))
     (sq (bnd (get_part (\<lambda>u. (ocrComMode u \<noteq> comMode, ocrOut u))) (\<lambda>(ch, out). whenM ch
           (if 0 < comMode then
              sq (use_out E outPin True) (sq (set_out E outPin out)
              (whenM (isPWM \<and> comMode = 1) (sq (use_out E outPinInv True) (set_out E outPinInv (\<not> out)))))
            else sq (use_out E outPin False) (use_out E outPinInv False))))
     (upd_part (\<lambda>u. u\<lparr>ocrComMode := comMode, ocrPWM := isPWM\<rparr>)))"

text \<open>The dead time generator; \<open>edge_out\<close> switches on pin \<open>p\<close> after the dead time \<open>dt\<close> and pin \<open>q\<close> off at once.\<close>

definition edge_out ::
  "('f::zero, 'w, 'hw) part_env \<Rightarrow> (tiny_ocr \<Rightarrow> nat) \<Rightarrow> (tiny_ocr \<Rightarrow> pin_at_port) \<Rightarrow> (tiny_ocr \<Rightarrow> pin_at_port) \<Rightarrow> ('f, 'w, 'hw, unit) ocr_sim" where
  "edge_out E dt p q =
     sq (bnd (get_part dt) (\<lambda>n. if 0 < n then upd_part (\<lambda>u. u\<lparr>dtCounter := n + 1\<rparr>) else set_out E p True)) (set_out E q False)"

definition SetDeadTime :: "('f::zero, 'w, 'hw) part_env \<Rightarrow> bool \<Rightarrow> ('f, 'w, 'hw, unit) ocr_sim" where
  "SetDeadTime E pwmValue =
     sq (bnd (get_part (\<lambda>u. (ocrComMode u = 1 \<and> ocrPWM u, ocrOut u))) (\<lambda>(dead, out).
        if dead then
          (if pwmValue \<and> \<not> out then edge_out E dtHigh outPin outPinInv
           else whenM (\<not> pwmValue \<and> out) (edge_out E dtLow outPinInv outPin))
        else set_out E outPin pwmValue))
     (upd_part (\<lambda>u. u\<lparr>ocrOut := pwmValue\<rparr>))"

definition pwm_value :: "bool \<Rightarrow> tiny_ocr \<Rightarrow> bool" where
  "pwm_value isCompareEvent u =
     (let out = ocrOut u; m = ocrComMode u in
      if ocrPWM u then
        (if isCompareEvent then
           (if m = 1 \<or> m = 2 then False else if m = 3 then True else out)
         else
           (if m = 1 \<or> m = 2 then True else if m = 3 then False else out))
      else (if m = 1 then \<not> out else if m = 2 then False else if m = 3 then True else out))"

definition SetPWM :: "('f::zero, 'w, 'hw) part_env \<Rightarrow> bool \<Rightarrow> ('f, 'w, 'hw, unit) ocr_sim" where
  "SetPWM E isCompareEvent =
     bnd (get_part (\<lambda>u. (ocrPWM u \<or> isCompareEvent, pwm_value isCompareEvent u))) (\<lambda>(act, out). whenM act (SetDeadTime E out))"

definition ForceEvent :: "('f::zero, 'w, 'hw) part_env \<Rightarrow> ('f, 'w, 'hw, unit) ocr_sim" where
  "ForceEvent E = bnd (get_part (\<lambda>u. \<not> ocrPWM u)) (\<lambda>b. whenM b (SetPWM E True))"

definition SetDeadTimes :: "nat \<Rightarrow> nat \<Rightarrow> tiny_ocr \<Rightarrow> tiny_ocr" where
  "SetDeadTimes highTime lowTime u = u\<lparr>dtHigh := highTime, dtLow := lowTime\<rparr>"

text \<open>The operations of the two units as operations of the timer.\<close>

definition on_unit :: "(tinyx5 \<Rightarrow> tiny_ocr) \<Rightarrow> (tiny_ocr \<Rightarrow> tinyx5 \<Rightarrow> tinyx5) \<Rightarrow> ('f, 'w, 'hw, 'a) ocr_sim \<Rightarrow> ('f, 'w, 'hw, 'a) tiny_sim" where
  "on_unit get put =
     zoom (\<lambda>d. \<lparr>part = get (part d), pirq = pirq d, pboard = pboard d\<rparr>)
          (\<lambda>u d. d\<lparr>part := put (part u) (part d), pirq := pirq u, pboard := pboard u\<rparr>)"

abbreviation on_a :: "('f, 'w, 'hw, 'a) ocr_sim \<Rightarrow> ('f, 'w, 'hw, 'a) tiny_sim" where
  "on_a \<equiv> on_unit ocra_unit (\<lambda>u t. t\<lparr>ocra_unit := u\<rparr>)"

abbreviation on_b :: "('f, 'w, 'hw, 'a) ocr_sim \<Rightarrow> ('f, 'w, 'hw, 'a) tiny_sim" where
  "on_b \<equiv> on_unit ocrb_unit (\<lambda>u t. t\<lparr>ocrb_unit := u\<rparr>)"

section \<open>Registers between two clock domains\<close>

definition sync_Reset :: "byte \<Rightarrow> sync_reg" where
  "sync_Reset v = \<lparr>inValue = v, regValue = v\<rparr>"

definition sync_assign :: "byte \<Rightarrow> sync_reg \<Rightarrow> sync_reg" where
  "sync_assign v r = r\<lparr>inValue := v\<rparr>"

definition ClockAndChanged :: "sync_reg \<Rightarrow> bool \<times> sync_reg" where
  "ClockAndChanged r = (if inValue r \<noteq> regValue r then (True, r\<lparr>regValue := inValue r\<rparr>) else (False, r))"

definition MaskOutSync :: "byte \<Rightarrow> sync_reg \<Rightarrow> sync_reg" where
  "MaskOutSync m r = (let v = inValue r AND NOT m in r\<lparr>inValue := v, regValue := v\<rparr>)"

definition clock_in :: "(tinyx5 \<Rightarrow> sync_reg) \<Rightarrow> (sync_reg \<Rightarrow> tinyx5 \<Rightarrow> tinyx5) \<Rightarrow> ('f, 'w, 'hw, unit) tiny_sim \<Rightarrow> ('f, 'w, 'hw, unit) tiny_sim" where
  "clock_in get put changed =
     bnd (get_part (\<lambda>t. ClockAndChanged (get t))) (\<lambda>(ch, r). sq (upd_part (put r)) (whenM ch changed))"

section \<open>The counter\<close>

definition tap :: "nat \<Rightarrow> nat \<Rightarrow> bool" where
  "tap cfg p =
     (if cfg = 0 then False
      else if cfg = 1 then True
      else if cfg = 2 then p mod 2 = 0
      else if cfg = 3 then p mod 4 = 0
      else if cfg = 4 then p mod 8 = 0
      else if cfg = 5 then p mod 16 = 0
      else if cfg = 6 then p mod 32 = 0
      else if cfg = 7 then p mod 64 = 0
      else if cfg = 8 then p mod 128 = 0
      else if cfg = 9 then p mod 256 = 0
      else if cfg = 10 then p mod 512 = 0
      else if cfg = 11 then p mod 1024 = 0
      else if cfg = 12 then p mod 2048 = 0
      else if cfg = 13 then p mod 4096 = 0
      else if cfg = 14 then p mod 8192 = 0
      else if cfg = 15 then p mod 16384 = 0
      else False)"

definition PrescalerMux :: "tinyx5 \<Rightarrow> bool \<times> tinyx5" where
  "PrescalerMux t =
     (let p = tprescaler t + 1; p' = (if p = 0x4000 then 0 else p) in (tap (cfg_prescaler t) p', t\<lparr>tprescaler := p'\<rparr>))"

definition DeadTimePrescalerMux :: "tinyx5 \<Rightarrow> bool \<times> tinyx5" where
  "DeadTimePrescalerMux t =
     (let p = dtprescaler t + 1; p' = (if p = 8 then 0 else p); c = cfg_dtprescaler t
      in (if c = 0 then True else if c = 1 then p' mod 2 = 0 else if c = 2 then p' mod 4 = 0 else if c = 3 then p' mod 8 = 0 else False,
          t\<lparr>dtprescaler := p'\<rparr>))"

abbreviation pwm_mode :: "tinyx5 \<Rightarrow> bool" where
  "pwm_mode t \<equiv> pwma_mode t \<or> pwmb_mode t"

text \<open>The counter starts again: at 0x100, or after the value of OCR1C.\<close>

definition overflow :: "tinyx5 \<Rightarrow> bool" where
  "overflow t \<longleftrightarrow> 0xff < tcounter t \<or> (pwm_mode t \<or> cfg_ctc t) \<and> tcounter t - 1 = unat (regValue (ocrc_inout_val t))"

definition restart :: "tinyx5 \<Rightarrow> tinyx5" where
  "restart t =
     (let t1 = t\<lparr>tcounter := 0\<rparr>;
          t2 = (if pwm_mode t1 \<or> \<not> cfg_ctc t1 then t1\<lparr>tov_internal_flag := True\<rparr> else t1)
      in if pwm_mode t2 then t2\<lparr>ocra_compare := unat (ocra_internal_val t2), ocrb_compare := unat (ocrb_internal_val t2)\<rparr> else t2)"

definition count :: "('f::zero, 'w, 'hw) part_env \<Rightarrow> ('f, 'w, 'hw, unit) tiny_sim" where
  "count E =
     sq (upd_part (\<lambda>t. t\<lparr>tcounter := tcounter t + 1\<rparr>))
     (sq (bnd (get_part overflow) (\<lambda>o'. whenM o' (sq (upd_part restart) (sq (on_a (SetPWM E False)) (on_b (SetPWM E False))))))
     (sq (bnd (get_part (\<lambda>t. tcounter t = ocra_compare t)) (\<lambda>hit. whenM hit
            (sq (upd_part (\<lambda>t. t\<lparr>tocra_internal_flag := True\<rparr>))
            (bnd (get_part (\<lambda>t. \<not> pwma_mode t \<or> ocra_compare t < unat (regValue (ocrc_inout_val t)))) (\<lambda>b. whenM b (on_a (SetPWM E True)))))))
     (bnd (get_part (\<lambda>t. tcounter t = ocrb_compare t)) (\<lambda>hit. whenM hit
            (sq (upd_part (\<lambda>t. t\<lparr>tocrb_internal_flag := True\<rparr>))
            (bnd (get_part (\<lambda>t. \<not> pwmb_mode t \<or> ocrb_compare t < unat (regValue (ocrc_inout_val t)))) (\<lambda>b. whenM b (on_b (SetPWM E True)))))))))"

definition TimerCounter :: "('f::zero, 'w, 'hw) part_env \<Rightarrow> ('f, 'w, 'hw, unit) tiny_sim" where
  "TimerCounter E =
     bnd (get_part PrescalerMux) (\<lambda>(tick, t1). sq (upd_part (\<lambda>_. t1)) (sq (whenM tick (count E))
     (bnd (get_part DeadTimePrescalerMux) (\<lambda>(dt, t2). sq (upd_part (\<lambda>_. t2))
       (whenM dt (sq (on_a (DTClockCycle E)) (on_b (DTClockCycle E))))))))"

section \<open>Transfer between the registers and the timer\<close>

definition transfer_tccr :: "('f::zero, 'w, 'hw) part_env \<Rightarrow> ('f, 'w, 'hw, unit) tiny_sim" where
  "transfer_tccr E = clock_in tccr_inout_val (\<lambda>r t. t\<lparr>tccr_inout_val := r\<rparr>)
     (bnd (get_part (\<lambda>t. regValue (tccr_inout_val t))) (\<lambda>v.
      let com = unat (drop_bit 4 v AND 0x3) in
      sq (upd_part (\<lambda>t. t\<lparr>cfg_prescaler := unat (v AND 0x0f), pwma_mode := bit v 6, cfg_com_a := com\<rparr>))
      (sq (on_a (SetOCRMode E (bit v 6) com))
      (upd_part (\<lambda>t. t\<lparr>cfg_ctc := bit v 7\<rparr>)))))"

definition transfer_gtccr :: "('f::zero, 'w, 'hw) part_env \<Rightarrow> ('f, 'w, 'hw, unit) tiny_sim" where
  "transfer_gtccr E = clock_in gtccr_in_val (\<lambda>r t. t\<lparr>gtccr_in_val := r\<rparr>)
     (bnd (get_part (\<lambda>t. regValue (gtccr_in_val t))) (\<lambda>v.
      let com = unat (drop_bit 4 v AND 0x3) in
      sq (upd_part (\<lambda>t. t\<lparr>cfg_com_b := com, pwmb_mode := bit v 6\<rparr>))
      (sq (on_b (SetOCRMode E (bit v 6) com))
      (sq (bnd (get_part (\<lambda>t. bit (regValue (gtccr_in_val t)) 2)) (\<lambda>f. whenM f
             (sq (on_a (ForceEvent E)) (upd_part (\<lambda>t. t\<lparr>gtccr_in_val := MaskOutSync 0x04 (gtccr_in_val t)\<rparr>)))))
      (bnd (get_part (\<lambda>t. bit (regValue (gtccr_in_val t)) 3)) (\<lambda>f. whenM f
             (sq (on_b (ForceEvent E)) (upd_part (\<lambda>t. t\<lparr>gtccr_in_val := MaskOutSync 0x08 (gtccr_in_val t)\<rparr>)))))))))"

definition transfer_ocr :: "('f, 'w, 'hw, unit) tiny_sim" where
  "transfer_ocr =
     sq (clock_in ocra_inout_val (\<lambda>r t. t\<lparr>ocra_inout_val := r\<rparr>)
           (upd_part (\<lambda>t. if pwm_mode t then t\<lparr>ocra_internal_val := regValue (ocra_inout_val t)\<rparr>
                           else t\<lparr>ocra_compare := unat (regValue (ocra_inout_val t))\<rparr>)))
     (sq (clock_in ocrb_inout_val (\<lambda>r t. t\<lparr>ocrb_inout_val := r\<rparr>)
           (upd_part (\<lambda>t. if pwm_mode t then t\<lparr>ocrb_internal_val := regValue (ocrb_inout_val t)\<rparr>
                           else t\<lparr>ocrb_compare := unat (regValue (ocrb_inout_val t))\<rparr>)))
     (clock_in ocrc_inout_val (\<lambda>r t. t\<lparr>ocrc_inout_val := r\<rparr>) (ret ())))"

definition dead_times :: "byte \<Rightarrow> tiny_ocr \<Rightarrow> tiny_ocr" where
  "dead_times v = SetDeadTimes (unat (drop_bit 4 v AND 0x0f)) (unat (v AND 0x0f))"

definition TransferInputValues :: "('f::zero, 'w, 'hw) part_env \<Rightarrow> ('f, 'w, 'hw, unit) tiny_sim" where
  "TransferInputValues E =
     sq (transfer_tccr E) (sq (transfer_gtccr E) (sq transfer_ocr
     (sq (upd_part (\<lambda>t. let t1 = (if tcnt_set_flag t then t\<lparr>tcounter := unat (tcnt_in_val t), tcnt_set_flag := False\<rparr> else t)
            in t1\<lparr>cfg_dtprescaler := unat (dtps1_inout_val t1 AND 0x03)\<rparr>))
     (sq (clock_in dt1a_inout_val (\<lambda>r t. t\<lparr>dt1a_inout_val := r\<rparr>)
            (upd_part (\<lambda>t. t\<lparr>ocra_unit := dead_times (regValue (dt1a_inout_val t)) (ocra_unit t)\<rparr>)))
     (clock_in dt1b_inout_val (\<lambda>r t. t\<lparr>dt1b_inout_val := r\<rparr>)
            (upd_part (\<lambda>t. t\<lparr>ocrb_unit := dead_times (regValue (dt1b_inout_val t)) (ocrb_unit t)\<rparr>)))))))"

text \<open>\<open>line->fireInterrupt()\<close>, as for the other timers.\<close>

definition tiny_fire :: "('f, 'w, 'hw) part_env \<Rightarrow> nat option \<Rightarrow> ('f, 'w, 'hw, unit) tiny_sim" where
  "tiny_fire E line = (case line of
       None \<Rightarrow> fail UndefinedBehaviour
     | Some v \<Rightarrow> bnd (get_part (\<lambda>t. vector2line (tirq t) v \<noteq> None)) (\<lambda>irqreg. whenM irqreg
         (zoom (\<lambda>d. (tirq (part d), pirq d)) (\<lambda>(t, q) d. d\<lparr>part := (part d)\<lparr>tirq := t\<rparr>, pirq := q\<rparr>)
           (fireInterrupt (pe_now E) (pe_this E) v))))"

definition TransferOutputValues :: "('f, 'w, 'hw) part_env \<Rightarrow> ('f, 'w, 'hw, unit) tiny_sim" where
  "TransferOutputValues E =
     sq (upd_part (\<lambda>t. t\<lparr>tcnt_out_val := (if asyncClock_step t = - 1 then word_of_nat (tcounter t) else tcnt_out_async_tmp t),
           tcnt_out_async_tmp := word_of_nat (tcounter t)\<rparr>))
     (sq (bnd (get_part (\<lambda>t. (tov_internal_flag t, timerOverflowInt t))) (\<lambda>(f, l). whenM f
            (sq (upd_part (\<lambda>t. t\<lparr>tov_internal_flag := False\<rparr>)) (tiny_fire E l))))
     (sq (bnd (get_part (\<lambda>t. (tocra_internal_flag t, timerOCRAInt t))) (\<lambda>(f, l). whenM f
            (sq (upd_part (\<lambda>t. t\<lparr>tocra_internal_flag := False\<rparr>)) (tiny_fire E l))))
     (bnd (get_part (\<lambda>t. (tocrb_internal_flag t, timerOCRBInt t))) (\<lambda>(f, l). whenM f
            (sq (upd_part (\<lambda>t. t\<lparr>tocrb_internal_flag := False\<rparr>)) (tiny_fire E l))))))"

section \<open>Clocks\<close>

definition HWTimerTinyX5_nextdelay :: "int list" where
  "HWTimerTinyX5_nextdelay = [16, 15, 16, 16, 15, 16, 15, 16]"

text \<open>\<open>*nextStepIn_ns = HWTimerTinyX5_nextdelay[asyncClock_step]; asyncClock_step++\<close>\<close>

definition next_delay :: "('f, 'w, 'hw, int) tiny_sim" where
  "next_delay =
     bnd (get_part asyncClock_step) (\<lambda>n.
     if 0 \<le> n \<and> n < 8 then sq (upd_part (\<lambda>t. t\<lparr>asyncClock_step := n + 1\<rparr>)) (ret (HWTimerTinyX5_nextdelay ! nat n))
     else fail UndefinedBehaviour)"

text \<open>The delay to the next step; -1 takes the timer out of the table of the system clock.\<close>

definition TinyX5_Step :: "('f::zero, 'w, 'hw) part_env \<Rightarrow> ('f, 'w, 'hw, int) tiny_sim" where
  "TinyX5_Step E =
     bnd (get_part asyncClock_async) (\<lambda>async.
     if async then
       bnd next_delay (\<lambda>n1.
       bnd (get_part asyncClock_lsm) (\<lambda>lsm.
       bnd (if lsm then next_delay else ret 0) (\<lambda>n2.
       sq (upd_part (\<lambda>t. if asyncClock_step t = 8 then t\<lparr>asyncClock_step := 0\<rparr> else t))
       (sq (TimerCounter E) (sq (TransferInputValues E) (ret (n1 + n2)))))))
     else sq (upd_part (\<lambda>t. t\<lparr>asyncClock_step := - 1, members := members t - 1\<rparr>)) (ret (- 1)))"

definition TinyX5_CpuCycle :: "('f::zero, 'w, 'hw) part_env \<Rightarrow> ('f, 'w, 'hw, unit) tiny_sim" where
  "TinyX5_CpuCycle E =
     sq (TransferOutputValues E)
     (sq (bnd (get_part (\<lambda>t. asyncClock_step t = - 1)) (\<lambda>sync. whenM sync (sq (TransferInputValues E) (TimerCounter E))))
     (upd_part (\<lambda>t. if asyncClock_pll t \<and> \<not> asyncClock_plllock t \<and> asyncClock_locktime t \<le> pe_now E
        then t\<lparr>asyncClock_plllock := True\<rparr> else t)))"

definition SetPrescalerClock :: "bool \<Rightarrow> tinyx5 \<Rightarrow> tinyx5" where
  "SetPrescalerClock pcke t =
     (if pcke then
        (if \<not> asyncClock_async t then t\<lparr>asyncClock_async := True, asyncClock_step := 0, members := members t + 1\<rparr>
         else if asyncClock_lsm t then t\<lparr>asyncClock_step := asyncClock_step t AND NOT 1\<rparr>
         else t)
      else (if 0 \<le> asyncClock_step t then t\<lparr>asyncClock_async := False\<rparr> else t))"

section \<open>Register accesses\<close>

definition TinyX5_set_from_reg :: "int \<Rightarrow> int \<Rightarrow> nat \<Rightarrow> byte \<Rightarrow> tinyx5 \<Rightarrow> byte \<times> tinyx5" where
  "TinyX5_set_from_reg now random reg nv t =
     (if reg = gtccrRegister t then
        (let nv' = (if bit nv 1 then unset_bit 1 nv else nv); t1 = (if bit nv 1 then t\<lparr>tprescaler := 0\<rparr> else t)
         in (nv', t1\<lparr>gtccr_in_val := sync_assign nv' (gtccr_in_val t1)\<rparr>))
      else if reg = pllcsrRegister t then
        (let pll = bit nv 1;
             t1 = (if asyncClock_pll t then
                     (if \<not> pll then t\<lparr>asyncClock_pll := False, asyncClock_plllock := False\<rparr> else t)
                   else
                     (if pll then t\<lparr>asyncClock_pll := True, asyncClock_plllock := False,
                        asyncClock_locktime := now + (100000 + random mod 2000 - 1000)\<rparr> else t))
         in (nv, SetPrescalerClock (bit nv 2) (t1\<lparr>asyncClock_lsm := bit nv 7\<rparr>)))
      else (nv, t))"

definition TinyX5_get_from_client :: "nat \<Rightarrow> byte \<Rightarrow> tinyx5 \<Rightarrow> byte" where
  "TinyX5_get_from_client reg v t =
     (let v1 = (if reg = pllcsrRegister t then (if asyncClock_plllock t then set_bit 0 v else unset_bit 0 v) else v)
      in if reg = gtccrRegister t then v1 AND NOT 0x0c else v1)"

definition TinyX5_Set_TCNT :: "byte \<Rightarrow> tinyx5 \<Rightarrow> tinyx5" where
  "TinyX5_Set_TCNT val t = t\<lparr>tcnt_in_val := val, tcnt_set_flag := True\<rparr>"

definition TinyX5_Set_TCCR :: "byte \<Rightarrow> tinyx5 \<Rightarrow> tinyx5" where
  "TinyX5_Set_TCCR val t = t\<lparr>tccr_inout_val := sync_assign val (tccr_inout_val t)\<rparr>"

definition TinyX5_Set_OCRA :: "byte \<Rightarrow> tinyx5 \<Rightarrow> tinyx5" where
  "TinyX5_Set_OCRA val t = t\<lparr>ocra_inout_val := sync_assign val (ocra_inout_val t)\<rparr>"

definition TinyX5_Set_OCRB :: "byte \<Rightarrow> tinyx5 \<Rightarrow> tinyx5" where
  "TinyX5_Set_OCRB val t = t\<lparr>ocrb_inout_val := sync_assign val (ocrb_inout_val t)\<rparr>"

definition TinyX5_Set_OCRC :: "byte \<Rightarrow> tinyx5 \<Rightarrow> tinyx5" where
  "TinyX5_Set_OCRC val t = t\<lparr>ocrc_inout_val := sync_assign val (ocrc_inout_val t)\<rparr>"

definition TinyX5_Set_DTPS1 :: "byte \<Rightarrow> tinyx5 \<Rightarrow> tinyx5" where
  "TinyX5_Set_DTPS1 val t = t\<lparr>dtps1_inout_val := val\<rparr>"

definition TinyX5_Set_DT1A :: "byte \<Rightarrow> tinyx5 \<Rightarrow> tinyx5" where
  "TinyX5_Set_DT1A val t = t\<lparr>dt1a_inout_val := sync_assign val (dt1a_inout_val t)\<rparr>"

definition TinyX5_Set_DT1B :: "byte \<Rightarrow> tinyx5 \<Rightarrow> tinyx5" where
  "TinyX5_Set_DT1B val t = t\<lparr>dt1b_inout_val := sync_assign val (dt1b_inout_val t)\<rparr>"

section \<open>Reset and construction\<close>

text \<open>\<open>Reset\<close> keeps \<open>ocra_compare\<close> and \<open>ocrb_compare\<close>.\<close>

definition TinyX5_Reset :: "tinyx5 \<Rightarrow> tinyx5" where
  "TinyX5_Reset t = SetPrescalerClock False (t\<lparr>tcounter := 0, tcnt_out_val := 0, tcnt_in_val := 0, tov_internal_flag := False,
     tocra_internal_flag := False, tocrb_internal_flag := False, tprescaler := 0, dtprescaler := 0, tccr_inout_val := sync_Reset 0,
     cfg_prescaler := 0, pwma_mode := False, pwmb_mode := False, cfg_com_a := 0, cfg_com_b := 0, cfg_ctc := False,
     ocra_inout_val := sync_Reset 0, ocra_internal_val := 0, ocrb_inout_val := sync_Reset 0, ocrb_internal_val := 0,
     ocrc_inout_val := sync_Reset 0xff, dtps1_inout_val := 0, dt1a_inout_val := sync_Reset 0, dt1b_inout_val := sync_Reset 0,
     gtccr_in_val := sync_Reset 0, asyncClock_pll := False, asyncClock_plllock := False,
     ocra_unit := TinyOCR_Reset (ocra_unit t), ocrb_unit := TinyOCR_Reset (ocrb_unit t)\<rparr>)"

text \<open>The constructor; \<open>t\<close> holds the members that it leaves uninitialised.\<close>

definition HWTimerTinyX5 ::
  "nat \<Rightarrow> nat \<Rightarrow> nat option \<Rightarrow> nat option \<Rightarrow> pin_at_port \<Rightarrow> pin_at_port \<Rightarrow> nat option \<Rightarrow> pin_at_port \<Rightarrow> pin_at_port \<Rightarrow> tinyx5 \<Rightarrow> tinyx5" where
  "HWTimerTinyX5 gtccr pllcsr tov tocra a_out a_outinv tocrb b_out b_outinv t =
     TinyX5_Reset (t\<lparr>ocra_unit := TimerTinyX5_OCR a_out a_outinv, ocrb_unit := TimerTinyX5_OCR b_out b_outinv,
       timerOverflowInt := tov, timerOCRAInt := tocra, timerOCRBInt := tocrb, gtccrRegister := gtccr, pllcsrRegister := pllcsr,
       asyncClock_async := False, asyncClock_step := - 1\<rparr>)"

end
