(* ===== verification/Avr_TinyDead.thy ===== *)
theory Avr_TinyDead
  imports Avr_TimerTiny Avr_Level
begin

text \<open>
  The output units of timer 1 of the ATtiny25/45/85: what they do to the levels of their two pins, and
  the dead time between the edges.
\<close>

lemma wp_ex: "wp m Q d \<Longrightarrow> (\<And>d'. Q () d' \<Longrightarrow> R d') \<Longrightarrow> \<exists>d'. m d = Inr ((), d') \<and> R d'"
  by (auto simp: wp_def)

section \<open>A unit and the levels of its pins\<close>

text \<open>Both pins are outputs of their ports, driven by the alternate function, and not the same.\<close>

definition unit_wired :: "(tiny_ocr, 'f, 'w, 'hw) part_dev \<Rightarrow> bool" where
  "unit_wired d \<longleftrightarrow> settled (pboard d) \<and> outPin (part d) \<noteq> outPinInv (part d) \<and>
     on_port (pboard d) (outPin (part d)) \<and> on_port (pboard d) (outPinInv (part d)) \<and>
     drives_pin (pboard d) (outPin (part d)) \<and> drives_pin (pboard d) (outPinInv (part d))"

definition unit_view :: "(tiny_ocr, 'f, 'w, 'hw) part_dev \<Rightarrow> tiny_ocr \<times> bool \<times> bool" where
  "unit_view d = (part d, PinAtPort_bool (outPin (part d)) (pboard d), PinAtPort_bool (outPinInv (part d)) (pboard d))"

lemma wired_part [simp]:
  "outPin u = outPin (part d) \<Longrightarrow> outPinInv u = outPinInv (part d) \<Longrightarrow> unit_wired (d\<lparr>part := u\<rparr>) = unit_wired d"
  "outPin u = outPin (part d) \<Longrightarrow> outPinInv u = outPinInv (part d) \<Longrightarrow> unit_view (d\<lparr>part := u\<rparr>) = (u, snd (unit_view d))"
  by (simp_all add: unit_wired_def unit_view_def)

lemma wp_set_out:
  assumes w: "unit_wired d"
    and post: "\<And>b. unit_wired (d\<lparr>pboard := b\<rparr>) \<Longrightarrow> unit_view (d\<lparr>pboard := b\<rparr>) = (part d, if inverted then fst (snd (unit_view d)) else v, if inverted then v else snd (snd (unit_view d))) \<Longrightarrow>
      Q () (d\<lparr>pboard := b\<rparr>)"
  shows "wp (set_out E (if inverted then outPinInv else outPin) v) Q d"
proof -
  let ?u = "part d"
  let ?p = "if inverted then outPinInv ?u else outPin ?u" and ?q = "if inverted then outPin ?u else outPinInv ?u"
  have o: "settled (pboard d)" "on_port (pboard d) ?p" "on_port (pboard d) ?q" "?q \<noteq> ?p" "drives_pin (pboard d) ?p" "drives_pin (pboard d) ?q"
    using w by (auto simp: unit_wired_def)
  have "wp (on_pboard (SetAlternatePort (pe_listener E) ?p v)) Q d"
  proof (rule wp_SetAlternatePort [OF o(1,2)])
    fix b
    assume b: "settled b" "same_wiring (pboard d) b"
      "\<And>q. on_port (pboard d) q \<Longrightarrow> q \<noteq> ?p \<Longrightarrow> PinAtPort_bool q b = PinAtPort_bool q (pboard d)"
      "drives_pin (pboard d) ?p \<Longrightarrow> PinAtPort_bool ?p b = v"
    have l: "PinAtPort_bool ?p b = v" "PinAtPort_bool ?q b = PinAtPort_bool ?q (pboard d)"
      using b(4) [OF o(5)] b(3) [OF o(3,4)] by simp_all
    show "Q () (d\<lparr>pboard := b\<rparr>)"
    proof (rule post)
      show "unit_wired (d\<lparr>pboard := b\<rparr>)" using w b(1) by (simp add: unit_wired_def same_wiring_simps [OF b(2)])
      show "unit_view (d\<lparr>pboard := b\<rparr>) = (part d, if inverted then fst (snd (unit_view d)) else v, if inverted then v else snd (snd (unit_view d)))"
        using l by (cases inverted) (simp_all add: unit_view_def)
    qed
  qed
  then show ?thesis by (cases inverted) (simp_all add: set_out_def wp_simps)
qed

lemmas wp_out = wp_set_out [where inverted = False, simplified] wp_set_out [where inverted = True, simplified]

section \<open>The operations on the levels\<close>

definition v_clock :: "tiny_ocr \<times> bool \<times> bool \<Rightarrow> tiny_ocr \<times> bool \<times> bool" where
  "v_clock = (\<lambda>(u, a, b). if dtCounter u = 0 then (u, a, b)
     else (u\<lparr>dtCounter := dtCounter u - 1\<rparr>, a \<or> dtCounter u = 1 \<and> ocrOut u, b \<or> dtCounter u = 1 \<and> \<not> ocrOut u))"

definition v_dead :: "bool \<Rightarrow> tiny_ocr \<times> bool \<times> bool \<Rightarrow> tiny_ocr \<times> bool \<times> bool" where
  "v_dead v = (\<lambda>(u, a, b).
     if ocrComMode u = 1 \<and> ocrPWM u then
       (if v = ocrOut u then (u, a, b)
        else (let dt = (if v then dtHigh u else dtLow u)
              in (u\<lparr>ocrOut := v, dtCounter := (if 0 < dt then dt + 1 else dtCounter u)\<rparr>,
                  v \<and> (a \<or> dt = 0), \<not> v \<and> (b \<or> dt = 0))))
     else (u\<lparr>ocrOut := v\<rparr>, v, b))"

lemma wp_DTClockCycle:
  assumes "unit_wired d" and "\<And>d'. unit_wired d' \<Longrightarrow> unit_view d' = v_clock (unit_view d) \<Longrightarrow> Q () d'"
  shows "wp (DTClockCycle E) Q d"
proof (cases "dtCounter (part d) = 0")
  case True
  then show ?thesis using assms by (simp add: DTClockCycle_def wp_simps v_clock_def unit_view_def)
next
  case False
  let ?d = "d\<lparr>part := (part d)\<lparr>dtCounter := dtCounter (part d) - 1\<rparr>\<rparr>"
  have w: "unit_wired ?d" using assms(1) by simp
  show ?thesis
  proof (cases "dtCounter (part d) = 1")
    case True
    have "ocrOut (part d) \<Longrightarrow> wp (set_out E outPin True) Q ?d"
      by (rule wp_out(1) [OF w], rule assms(2)) (use True in \<open>simp_all add: v_clock_def unit_view_def\<close>)
    moreover have "\<not> ocrOut (part d) \<Longrightarrow> wp (set_out E outPinInv True) Q ?d"
      by (rule wp_out(2) [OF w], rule assms(2)) (use True in \<open>simp_all add: v_clock_def unit_view_def\<close>)
    ultimately show ?thesis using True by (cases "ocrOut (part d)") (simp_all add: DTClockCycle_def wp_simps)
  next
    case n: False
    have "Q () ?d" by (rule assms(2) [OF w]) (use n False in \<open>simp add: v_clock_def unit_view_def\<close>)
    then show ?thesis using n False by (simp add: DTClockCycle_def wp_simps)
  qed
qed

lemma wp_edge_out:
  assumes w: "unit_wired d"
    and post: "\<And>d'. unit_wired d' \<Longrightarrow> part d' = (part d)\<lparr>dtCounter := (if 0 < dt (part d) then dt (part d) + 1 else dtCounter (part d))\<rparr> \<Longrightarrow>
      snd (unit_view d') = (if inverted then (False, snd (snd (unit_view d)) \<or> dt (part d) = 0) else (fst (snd (unit_view d)) \<or> dt (part d) = 0, False)) \<Longrightarrow> Q () d'"
  shows "wp (edge_out E dt (if inverted then outPinInv else outPin) (if inverted then outPin else outPinInv)) Q d"
proof (cases "0 < dt (part d)")
  case True
  let ?d = "d\<lparr>part := (part d)\<lparr>dtCounter := dt (part d) + 1\<rparr>\<rparr>"
  have w': "unit_wired ?d" using w by simp
  have "inverted \<Longrightarrow> wp (set_out E outPin False) Q ?d"
    by (rule wp_out(1) [OF w'], rule post) (use True in \<open>simp_all add: unit_view_def\<close>)
  moreover have "\<not> inverted \<Longrightarrow> wp (set_out E outPinInv False) Q ?d"
    by (rule wp_out(2) [OF w'], rule post) (use True in \<open>simp_all add: unit_view_def\<close>)
  ultimately show ?thesis using True by (cases inverted) (simp_all add: edge_out_def wp_simps)
next
  case False
  have "inverted \<Longrightarrow> wp (set_out E outPinInv True) (\<lambda>_. wp (set_out E outPin False) Q) d"
    by (rule wp_out(2) [OF w], rule wp_out(1), assumption, rule post) (use False in \<open>auto simp: unit_view_def\<close>)
  moreover have "\<not> inverted \<Longrightarrow> wp (set_out E outPin True) (\<lambda>_. wp (set_out E outPinInv False) Q) d"
    by (rule wp_out(1) [OF w], rule wp_out(2), assumption, rule post) (use False in \<open>auto simp: unit_view_def\<close>)
  ultimately show ?thesis using False by (cases inverted) (simp_all add: edge_out_def wp_simps)
qed

lemmas wp_edges = wp_edge_out [where inverted = False, simplified] wp_edge_out [where inverted = True, simplified]

lemma wp_SetDeadTime:
  assumes w: "unit_wired d" and post: "\<And>d'. unit_wired d' \<Longrightarrow> unit_view d' = v_dead v (unit_view d) \<Longrightarrow> Q () d'"
  shows "wp (SetDeadTime E v) Q d"
proof -
  let ?u = "part d"
  have last: "Q () (e\<lparr>part := (part e)\<lparr>ocrOut := v\<rparr>\<rparr>)" if "unit_wired e" "((part e)\<lparr>ocrOut := v\<rparr>, snd (unit_view e)) = v_dead v (unit_view d)" for e
    by (rule post) (use that in simp_all)
  consider "ocrComMode ?u = 1" "ocrPWM ?u" "v" "\<not> ocrOut ?u" | "ocrComMode ?u = 1" "ocrPWM ?u" "\<not> v" "ocrOut ?u"
    | "ocrComMode ?u = 1" "ocrPWM ?u" "v = ocrOut ?u" | "\<not> (ocrComMode ?u = 1 \<and> ocrPWM ?u)" by blast
  then show ?thesis
  proof cases
    case 1
    have "wp (edge_out E dtHigh outPin outPinInv) (\<lambda>_ e. Q () (e\<lparr>part := (part e)\<lparr>ocrOut := v\<rparr>\<rparr>)) d"
      by (rule wp_edges(1) [OF w], rule last) (use 1 in \<open>simp_all add: v_dead_def unit_view_def Let_def\<close>)
    then show ?thesis using 1 by (simp add: SetDeadTime_def wp_simps)
  next
    case 2
    have "wp (edge_out E dtLow outPinInv outPin) (\<lambda>_ e. Q () (e\<lparr>part := (part e)\<lparr>ocrOut := v\<rparr>\<rparr>)) d"
      by (rule wp_edges(2) [OF w], rule last) (use 2 in \<open>simp_all add: v_dead_def unit_view_def Let_def\<close>)
    then show ?thesis using 2 by (simp add: SetDeadTime_def wp_simps)
  next
    case 3
    have "Q () (d\<lparr>part := (part d)\<lparr>ocrOut := v\<rparr>\<rparr>)" by (rule last [OF w]) (use 3 in \<open>simp add: v_dead_def unit_view_def\<close>)
    then show ?thesis using 3 by (simp add: SetDeadTime_def wp_simps)
  next
    case 4
    have "wp (set_out E outPin v) (\<lambda>_ e. Q () (e\<lparr>part := (part e)\<lparr>ocrOut := v\<rparr>\<rparr>)) d"
      by (rule wp_out(1) [OF w], rule last) (use 4 in \<open>auto simp: v_dead_def unit_view_def\<close>)
    then show ?thesis using 4 by (auto simp: SetDeadTime_def wp_simps)
  qed
qed

section \<open>Sequences of events\<close>

datatype ocr_event = Dead_clock | Timer_event bool | Force_event | Dead_times nat nat

definition ocr_event :: "('f::zero, 'w, 'hw) part_env \<Rightarrow> ocr_event \<Rightarrow> ('f, 'w, 'hw, unit) ocr_sim" where
  "ocr_event E e = (case e of Dead_clock \<Rightarrow> DTClockCycle E | Timer_event b \<Rightarrow> SetPWM E b | Force_event \<Rightarrow> ForceEvent E
     | Dead_times h l \<Rightarrow> upd_part (SetDeadTimes h l))"

definition v_pwm :: "bool \<Rightarrow> tiny_ocr \<times> bool \<times> bool \<Rightarrow> tiny_ocr \<times> bool \<times> bool" where
  "v_pwm b x = (if ocrPWM (fst x) \<or> b then v_dead (pwm_value b (fst x)) x else x)"

definition v_event :: "ocr_event \<Rightarrow> tiny_ocr \<times> bool \<times> bool \<Rightarrow> tiny_ocr \<times> bool \<times> bool" where
  "v_event e x = (case e of Dead_clock \<Rightarrow> v_clock x | Timer_event b \<Rightarrow> v_pwm b x
     | Force_event \<Rightarrow> (if ocrPWM (fst x) then x else v_pwm True x)
     | Dead_times h l \<Rightarrow> (SetDeadTimes h l (fst x), snd x))"

lemma unit_view_part: "fst (unit_view d) = part d"
  by (simp add: unit_view_def)

lemma wp_unit_SetPWM:
  assumes "unit_wired d" and "\<And>d'. unit_wired d' \<Longrightarrow> unit_view d' = v_pwm b (unit_view d) \<Longrightarrow> Q () d'"
  shows "wp (SetPWM E b) Q d"
proof (cases "ocrPWM (part d) \<or> b")
  case True
  have "wp (SetDeadTime E (pwm_value b (part d))) Q d"
    by (rule wp_SetDeadTime [OF assms(1)], rule assms(2)) (use True in \<open>simp_all add: v_pwm_def unit_view_part\<close>)
  then show ?thesis using True by (simp add: SetPWM_def wp_simps)
next
  case False
  then have "Q () d" by (intro assms) (simp add: v_pwm_def unit_view_part)
  then show ?thesis using False by (simp add: SetPWM_def wp_simps)
qed

lemma wp_ocr_event:
  assumes "unit_wired d" and "\<And>d'. unit_wired d' \<Longrightarrow> unit_view d' = v_event e (unit_view d) \<Longrightarrow> Q () d'"
  shows "wp (ocr_event E e) Q d"
proof (cases e)
  case Dead_clock
  then show ?thesis using assms by (auto simp: ocr_event_def v_event_def intro: wp_DTClockCycle)
next
  case (Timer_event b)
  then show ?thesis using assms by (auto simp: ocr_event_def v_event_def intro: wp_unit_SetPWM)
next
  case Force_event
  have "wp (SetPWM E True) Q d" if "\<not> ocrPWM (part d)"
    by (rule wp_unit_SetPWM [OF assms(1)], rule assms(2)) (use Force_event that in \<open>simp_all add: v_event_def unit_view_part\<close>)
  moreover have "Q () d" if "ocrPWM (part d)"
    by (rule assms(2) [OF assms(1)]) (use Force_event that in \<open>simp add: v_event_def unit_view_part\<close>)
  ultimately show ?thesis using Force_event by (auto simp: ocr_event_def ForceEvent_def wp_simps)
next
  case (Dead_times h l)
  have "Q () (d\<lparr>part := SetDeadTimes h l (part d)\<rparr>)"
    by (rule assms(2)) (use Dead_times assms(1) in \<open>simp_all add: v_event_def unit_view_part SetDeadTimes_def\<close>)
  then show ?thesis using Dead_times by (simp add: ocr_event_def wp_simps)
qed

lemma wp_ocr_events:
  fixes E :: "('f::zero, 'w, 'hw) part_env"
  assumes "unit_wired d"
  shows "wp (forS (ocr_event E) es) (\<lambda>_ d'. unit_wired d' \<and> unit_view d' = fold v_event es (unit_view d)) d"
  using assms
proof (induction es arbitrary: d)
  case (Cons e es)
  have "wp (ocr_event E e) (\<lambda>_. wp (forS (ocr_event E) es) (\<lambda>_ d'. unit_wired d' \<and> unit_view d' = fold v_event (e # es) (unit_view d))) d"
  proof (rule wp_ocr_event [OF Cons.prems])
    fix d' :: "(tiny_ocr, 'f, 'w, 'hw) part_dev"
    assume h: "unit_wired d'" "unit_view d' = v_event e (unit_view d)"
    show "wp (forS (ocr_event E) es) (\<lambda>_ d'. unit_wired d' \<and> unit_view d' = fold v_event (e # es) (unit_view d)) d'"
      using Cons.IH [OF h(1)] h(2) by simp
  qed
  then show ?case by (simp only: wp_forS)
qed (simp add: wp_simps)

section \<open>The dead time\<close>

text \<open>The pin that is not to be on is off.\<close>

definition no_overlap :: "tiny_ocr \<times> bool \<times> bool \<Rightarrow> bool" where
  "no_overlap x \<longleftrightarrow> ocrComMode (fst x) = 1 \<and> ocrPWM (fst x) \<and> (if ocrOut (fst x) then \<not> snd (snd x) else \<not> fst (snd x))"

lemma no_overlap_events: "no_overlap x \<Longrightarrow> no_overlap (fold v_event es x)"
proof (induction es arbitrary: x)
  case (Cons e es)
  have "no_overlap (v_event e x)" using Cons.prems
    by (cases x; cases e) (auto simp: v_event_def v_clock_def v_pwm_def v_dead_def no_overlap_def SetDeadTimes_def Let_def)
  then show ?case using Cons.IH by simp
qed simp

lemma v_clocks:
  "(v_event Dead_clock ^^ n) (u, a, b) =
     (u\<lparr>dtCounter := dtCounter u - n\<rparr>, a \<or> (0 < dtCounter u \<and> dtCounter u \<le> n \<and> ocrOut u), b \<or> (0 < dtCounter u \<and> dtCounter u \<le> n \<and> \<not> ocrOut u))"
proof (induction n)
  case (Suc n)
  then show ?case by (auto simp: v_event_def v_clock_def)
qed auto

text \<open>
  C29. With the dead time generator on, the two pins of a unit are never high at the same time, whatever happens to the unit. At an
  edge of the output the pin that was on goes off at once, and the other one goes on when as many clocks of the dead time
  prescaler as its dead time says have passed and another one comes, at once if the dead time is zero.
\<close>

theorem dead_time:
  assumes "unit_wired d" "unit_view d = (u, a, b)" "ocrComMode u = 1" "ocrPWM u" "if ocrOut u then \<not> b else \<not> a"
  shows "wp (forS (ocr_event E) es) (\<lambda>_ d'. case unit_view d' of (u', a', b') \<Rightarrow> \<not> (a' \<and> b')) d \<and>
    wp (forS (ocr_event E) (Timer_event (ocrOut u) # replicate n Dead_clock)) (\<lambda>_ d'. case unit_view d' of (u', a', b') \<Rightarrow>
      (ocrOut u' \<longleftrightarrow> \<not> ocrOut u) \<and>
      (if ocrOut u then \<not> a' \<and> (b' \<longleftrightarrow> dtLow u = 0 \<or> dtLow u < n) else \<not> b' \<and> (a' \<longleftrightarrow> dtHigh u = 0 \<or> dtHigh u < n))) d"
proof (intro conjI)
  have "no_overlap (u, a, b)" using assms(3-5) by (simp add: no_overlap_def)
  then have "no_overlap (fold v_event es (unit_view d))" unfolding assms(2) by (rule no_overlap_events)
  then show "wp (forS (ocr_event E) es) (\<lambda>_ d'. case unit_view d' of (u', a', b') \<Rightarrow> \<not> (a' \<and> b')) d"
    by (intro wp_mono [OF wp_ocr_events [OF assms(1)]]) (auto simp: no_overlap_def split: prod.splits if_splits)
  have e: "v_event (Timer_event (ocrOut u)) (unit_view d) = v_dead (\<not> ocrOut u) (u, a, b)"
    using assms(3,4) by (simp add: assms(2) v_event_def v_pwm_def pwm_value_def)
  show "wp (forS (ocr_event E) (Timer_event (ocrOut u) # replicate n Dead_clock)) (\<lambda>_ d'. case unit_view d' of (u', a', b') \<Rightarrow>
      (ocrOut u' \<longleftrightarrow> \<not> ocrOut u) \<and>
      (if ocrOut u then \<not> a' \<and> (b' \<longleftrightarrow> dtLow u = 0 \<or> dtLow u < n) else \<not> b' \<and> (a' \<longleftrightarrow> dtHigh u = 0 \<or> dtHigh u < n))) d"
    using assms(3-5)
    by (intro wp_mono [OF wp_ocr_events [OF assms(1)]]) (auto simp: e v_dead_def v_clocks Let_def)
qed

section \<open>An example\<close>

definition sample_unit :: "(tiny_ocr, int, unit, char) part_dev" where
  "sample_unit = \<lparr>part = \<lparr>outPin = \<lparr>pa_port = 0, pa_pinNo = 0\<rparr>, outPinInv = \<lparr>pa_port = 0, pa_pinNo = 1\<rparr>, ocrComMode = 1, ocrPWM = True,
     ocrOut = False, dtHigh = 2, dtLow = 0, dtCounter = 0\<rparr>, pirq = HWIrqSystem 2 20, pboard = sample_board 3\<rparr>"

theorem dead_time_witness:
  "\<forall>E. (\<exists>d'. forS (ocr_event E) [Timer_event False, Dead_clock, Dead_clock] sample_unit = Inr ((), d') \<and> snd (unit_view d') = (False, False)) \<and>
     (\<exists>d'. forS (ocr_event E) [Timer_event False, Dead_clock, Dead_clock, Dead_clock] sample_unit = Inr ((), d') \<and> snd (unit_view d') = (True, False))"
proof (intro allI conjI)
  fix E
  let ?u = "part sample_unit"
  have w: "unit_wired sample_unit" using sample_settled [of 3]
    by (simp add: unit_wired_def sample_unit_def on_port_def drives_pin_def sample_board_def)
  have v: "unit_view sample_unit = (?u, False, False)" by (simp add: unit_view_def sample_unit_def sample_board_def PinAtPort_bool_def)
  have u: "ocrComMode ?u = 1" "ocrPWM ?u" "if ocrOut ?u then \<not> False else \<not> False" "\<not> ocrOut ?u" "dtHigh ?u = 2"
    by (simp_all add: sample_unit_def)
  note t = dead_time [OF w v u(1-3), THEN conjunct2]
  have r: "[Timer_event False, Dead_clock, Dead_clock] = Timer_event (ocrOut ?u) # replicate 2 Dead_clock"
    "[Timer_event False, Dead_clock, Dead_clock, Dead_clock] = Timer_event (ocrOut ?u) # replicate 3 Dead_clock"
    using u(4) by (simp_all add: eval_nat_numeral)
  show "\<exists>d'. forS (ocr_event E) [Timer_event False, Dead_clock, Dead_clock] sample_unit = Inr ((), d') \<and> snd (unit_view d') = (False, False)"
    unfolding r by (rule wp_ex [OF t]) (use u in \<open>auto split: prod.splits\<close>)
  show "\<exists>d'. forS (ocr_event E) [Timer_event False, Dead_clock, Dead_clock, Dead_clock] sample_unit = Inr ((), d') \<and> snd (unit_view d') = (True, False)"
    unfolding r by (rule wp_ex [OF t]) (use u in \<open>auto split: prod.splits\<close>)
qed

end
