(* ===== verification/Avr_TinyCount.thy ===== *)
theory Avr_TinyCount
  imports Avr_TinyDead
begin

text \<open>
  The counter of timer 1 of the ATtiny25/45/85: period, overflow and compare flags, as a function of the
  number of clocks and independently of what the output units do.
\<close>

section \<open>The output units do not interfere\<close>

definition unit_op :: "('f, 'w, 'hw, unit) ocr_sim \<Rightarrow> bool" where
  "unit_op m \<longleftrightarrow> (\<forall>d. board_free (pboard d) \<longrightarrow> wp m (\<lambda>_ d'. board_free (pboard d')) d)"

lemma unit_opD: "unit_op m \<Longrightarrow> board_free (pboard d) \<Longrightarrow> wp m (\<lambda>_ d'. board_free (pboard d')) d"
  by (simp add: unit_op_def)

lemma unit_op_basic: "unit_op (ret ())" "unit_op (upd_part f)"
  by (simp_all add: unit_op_def wp_simps)

lemma unit_op_sq: "unit_op m \<Longrightarrow> unit_op n \<Longrightarrow> unit_op (sq m n)"
  by (auto simp: unit_op_def wp_sq elim!: wp_mono)

lemma unit_op_bnd: "(\<And>x. unit_op (f x)) \<Longrightarrow> unit_op (bnd (gets g) f)"
  by (simp add: unit_op_def wp_simps)

lemma unit_op_when: "unit_op m \<Longrightarrow> unit_op (whenM b m)"
  by (simp add: unit_op_def wp_whenM)

lemma unit_op_out: "unit_op (set_out E p v)" "unit_op (use_out E p v)"
proof -
  have "\<exists>b'. SetAlternatePort L pp v b = Inr ((), b') \<and> board_free b'" "\<exists>b'. SetUseAlternatePortIfDdrSet L pp v b = Inr ((), b') \<and> board_free b'"
    if "board_free b" for b :: "('a, 'b) board" and L pp
    using alternate_free [OF that] by blast+
  then show "unit_op (set_out E p v)" "unit_op (use_out E p v)"
    by (auto simp: unit_op_def set_out_def use_out_def wp_simps) (fastforce intro: wpI)+
qed

lemmas unit_op_intros = unit_op_basic unit_op_sq unit_op_bnd unit_op_when unit_op_out

lemma unit_op_SetDeadTime: "unit_op (SetDeadTime E v)"
  unfolding SetDeadTime_def edge_out_def by (intro unit_op_intros) (auto intro!: unit_op_intros split: prod.split)

lemma unit_op_SetPWM: "unit_op (SetPWM E b)"
  unfolding SetPWM_def by (intro unit_op_intros) (auto intro!: unit_op_intros unit_op_SetDeadTime split: prod.split)

lemma unit_op_DTClockCycle: "unit_op (DTClockCycle E)"
  unfolding DTClockCycle_def by (intro unit_op_intros) (auto intro!: unit_op_intros split: prod.split)

text \<open>Two timers that differ in their units only.\<close>

definition but_units :: "tinyx5 \<Rightarrow> tinyx5 \<Rightarrow> bool" where
  "but_units t t' \<longleftrightarrow> (\<exists>a b. t' = t\<lparr>ocra_unit := a, ocrb_unit := b\<rparr>)"

lemma but_units_refl: "but_units t t"
proof -
  have "t = t\<lparr>ocra_unit := ocra_unit t, ocrb_unit := ocrb_unit t\<rparr>" by simp
  then show ?thesis unfolding but_units_def by blast
qed

lemma wp_on_unit:
  assumes "unit_op m" "board_free (pboard d)" "but_units t (part d)"
    and "\<And>d'. board_free (pboard d') \<Longrightarrow> but_units t (part d') \<Longrightarrow> Q () d'"
  shows "wp (on_a m) Q d" "wp (on_b m) Q d"
proof -
  have u: "but_units t (s\<lparr>ocra_unit := a\<rparr>)" "but_units t (s\<lparr>ocrb_unit := b\<rparr>)" if h: "but_units t s" for s a b
  proof -
    obtain x y where "s = t\<lparr>ocra_unit := x, ocrb_unit := y\<rparr>" using h by (auto simp: but_units_def)
    then have "s\<lparr>ocra_unit := a\<rparr> = t\<lparr>ocra_unit := a, ocrb_unit := y\<rparr>" "s\<lparr>ocrb_unit := b\<rparr> = t\<lparr>ocra_unit := x, ocrb_unit := b\<rparr>" by simp_all
    then show "but_units t (s\<lparr>ocra_unit := a\<rparr>)" "but_units t (s\<lparr>ocrb_unit := b\<rparr>)" unfolding but_units_def by blast+
  qed
  show "wp (on_a m) Q d" unfolding on_unit_def wp_zoom
    by (rule wp_mono [OF unit_opD [OF assms(1)]]) (use assms u in simp_all)
  show "wp (on_b m) Q d" unfolding on_unit_def wp_zoom
    by (rule wp_mono [OF unit_opD [OF assms(1)]]) (use assms u in simp_all)
qed

section \<open>A clock as a function\<close>

definition tick_spec :: "tinyx5 \<Rightarrow> tinyx5" where
  "tick_spec t =
     (let t1 = t\<lparr>tcounter := tcounter t + 1\<rparr>;
          t2 = (if overflow t1 then restart t1 else t1);
          t3 = (if tcounter t2 = ocra_compare t2 then t2\<lparr>tocra_internal_flag := True\<rparr> else t2)
      in if tcounter t3 = ocrb_compare t3 then t3\<lparr>tocrb_internal_flag := True\<rparr> else t3)"

definition timer_spec :: "tinyx5 \<Rightarrow> tinyx5" where
  "timer_spec t = (let (tick, t1) = PrescalerMux t in snd (DeadTimePrescalerMux (if tick then tick_spec t1 else t1)))"

lemma but_units_selects:
  assumes "but_units t t'"
  shows "tcounter t' = tcounter t" "overflow t' = overflow t" "ocra_compare t' = ocra_compare t" "ocrb_compare t' = ocrb_compare t"
    "but_units (restart t) (restart t')" "but_units (t\<lparr>tocra_internal_flag := f\<rparr>) (t'\<lparr>tocra_internal_flag := f\<rparr>)"
    "but_units (t\<lparr>tocrb_internal_flag := f\<rparr>) (t'\<lparr>tocrb_internal_flag := f\<rparr>)" "but_units (t\<lparr>tcounter := c\<rparr>) (t'\<lparr>tcounter := c\<rparr>)"
    "fst (PrescalerMux t') = fst (PrescalerMux t)" "but_units (snd (PrescalerMux t)) (snd (PrescalerMux t'))"
    "fst (DeadTimePrescalerMux t') = fst (DeadTimePrescalerMux t)" "but_units (snd (DeadTimePrescalerMux t)) (snd (DeadTimePrescalerMux t'))"
proof -
  obtain a b where t': "t' = t\<lparr>ocra_unit := a, ocrb_unit := b\<rparr>" using assms by (auto simp: but_units_def)
  show "tcounter t' = tcounter t" "overflow t' = overflow t" "ocra_compare t' = ocra_compare t" "ocrb_compare t' = ocrb_compare t"
    "fst (PrescalerMux t') = fst (PrescalerMux t)" "fst (DeadTimePrescalerMux t') = fst (DeadTimePrescalerMux t)"
    by (simp_all add: t' overflow_def PrescalerMux_def DeadTimePrescalerMux_def Let_def)
  have i: "s' = s\<lparr>ocra_unit := a, ocrb_unit := b\<rparr> \<Longrightarrow> but_units s s'" for s s' by (auto simp: but_units_def)
  show "but_units (restart t) (restart t')" "but_units (t\<lparr>tocra_internal_flag := f\<rparr>) (t'\<lparr>tocra_internal_flag := f\<rparr>)"
    "but_units (t\<lparr>tocrb_internal_flag := f\<rparr>) (t'\<lparr>tocrb_internal_flag := f\<rparr>)" "but_units (t\<lparr>tcounter := c\<rparr>) (t'\<lparr>tcounter := c\<rparr>)"
    "but_units (snd (PrescalerMux t)) (snd (PrescalerMux t'))" "but_units (snd (DeadTimePrescalerMux t)) (snd (DeadTimePrescalerMux t'))"
    by (rule i, simp add: t' restart_def PrescalerMux_def DeadTimePrescalerMux_def Let_def)+
qed

text \<open>The parts of \<open>count\<close>.\<close>

lemma wp_restart:
  assumes "board_free (pboard d)" "but_units t (part d)"
    and "\<And>d'. board_free (pboard d') \<Longrightarrow> but_units (if overflow t then restart t else t) (part d') \<Longrightarrow> Q () d'"
  shows "wp (bnd (get_part overflow) (\<lambda>o'. whenM o' (sq (upd_part restart) (sq (on_a (SetPWM E False)) (on_b (SetPWM E False)))))) Q d"
proof (rule wp_getsI, rule wp_whenI, unfold wp_sq wp_basic)
  assume o: "overflow (part d)"
  show "wp (on_a (SetPWM E False)) (\<lambda>_. wp (on_b (SetPWM E False)) Q) (d\<lparr>part := restart (part d)\<rparr>)"
    by (rule wp_on_unit(1) [where t = "restart t", OF unit_op_SetPWM], simp_all add: assms(1) but_units_selects(5) [OF assms(2)])
      (rule wp_on_unit(2) [where t = "restart t", OF unit_op_SetPWM], simp_all add: assms(3) o but_units_selects(2) [OF assms(2), symmetric])
next
  assume o: "\<not> overflow (part d)"
  show "Q () d" by (rule assms(3)) (use o assms(1,2) but_units_selects(2) [OF assms(2)] in simp_all)
qed

lemma wp_hit_a:
  assumes "board_free (pboard d)" "but_units t (part d)"
    and "\<And>d'. board_free (pboard d') \<Longrightarrow> but_units (if tcounter t = ocra_compare t then t\<lparr>tocra_internal_flag := True\<rparr> else t) (part d') \<Longrightarrow> Q () d'"
  shows "wp (bnd (get_part (\<lambda>t. tcounter t = ocra_compare t)) (\<lambda>hit. whenM hit
            (sq (upd_part (\<lambda>t. t\<lparr>tocra_internal_flag := True\<rparr>)) (bnd (get_part P) (\<lambda>b. whenM b (on_a (SetPWM E True))))))) Q d"
proof (rule wp_getsI, rule wp_whenI, unfold wp_sq wp_basic)
  let ?d = "d\<lparr>part := (part d)\<lparr>tocra_internal_flag := True\<rparr>\<rparr>"
  assume h: "tcounter (part d) = ocra_compare (part d)"
  then have t: "tcounter t = ocra_compare t" using but_units_selects(1,3) [OF assms(2)] by simp
  have s: "but_units (t\<lparr>tocra_internal_flag := True\<rparr>) (part ?d)" using but_units_selects(6) [OF assms(2)] by simp
  show "wp (bnd (get_part P) (\<lambda>b. whenM b (on_a (SetPWM E True)))) Q ?d"
    by (rule wp_getsI, rule wp_whenI, rule wp_on_unit(1) [OF unit_op_SetPWM _ s]) (use assms(1,3) s t in simp_all)
next
  assume "tcounter (part d) \<noteq> ocra_compare (part d)"
  then show "Q () d" using assms but_units_selects(1,3) [OF assms(2)] by simp
qed

lemma wp_hit_b:
  assumes "board_free (pboard d)" "but_units t (part d)"
    and "\<And>d'. board_free (pboard d') \<Longrightarrow> but_units (if tcounter t = ocrb_compare t then t\<lparr>tocrb_internal_flag := True\<rparr> else t) (part d') \<Longrightarrow> Q () d'"
  shows "wp (bnd (get_part (\<lambda>t. tcounter t = ocrb_compare t)) (\<lambda>hit. whenM hit
            (sq (upd_part (\<lambda>t. t\<lparr>tocrb_internal_flag := True\<rparr>)) (bnd (get_part P) (\<lambda>b. whenM b (on_b (SetPWM E True))))))) Q d"
proof (rule wp_getsI, rule wp_whenI, unfold wp_sq wp_basic)
  let ?d = "d\<lparr>part := (part d)\<lparr>tocrb_internal_flag := True\<rparr>\<rparr>"
  assume h: "tcounter (part d) = ocrb_compare (part d)"
  then have t: "tcounter t = ocrb_compare t" using but_units_selects(1,4) [OF assms(2)] by simp
  have s: "but_units (t\<lparr>tocrb_internal_flag := True\<rparr>) (part ?d)" using but_units_selects(7) [OF assms(2)] by simp
  show "wp (bnd (get_part P) (\<lambda>b. whenM b (on_b (SetPWM E True)))) Q ?d"
    by (rule wp_getsI, rule wp_whenI, rule wp_on_unit(2) [OF unit_op_SetPWM _ s]) (use assms(1,3) s t in simp_all)
next
  assume "tcounter (part d) \<noteq> ocrb_compare (part d)"
  then show "Q () d" using assms but_units_selects(1,4) [OF assms(2)] by simp
qed

lemma wp_count:
  assumes "board_free (pboard d)" "but_units t (part d)"
    and "\<And>d'. board_free (pboard d') \<Longrightarrow> but_units (tick_spec t) (part d') \<Longrightarrow> Q () d'"
  shows "wp (count E) Q d"
proof -
  define t1 where "t1 = t\<lparr>tcounter := tcounter t + 1\<rparr>"
  define t2 where "t2 = (if overflow t1 then restart t1 else t1)"
  define t3 where "t3 = (if tcounter t2 = ocra_compare t2 then t2\<lparr>tocra_internal_flag := True\<rparr> else t2)"
  have t4: "tick_spec t = (if tcounter t3 = ocrb_compare t3 then t3\<lparr>tocrb_internal_flag := True\<rparr> else t3)"
    unfolding tick_spec_def Let_def t3_def t2_def t1_def ..
  have u: "but_units t1 ((part d)\<lparr>tcounter := tcounter (part d) + 1\<rparr>)"
    unfolding t1_def but_units_selects(1) [OF assms(2)] by (rule but_units_selects(8) [OF assms(2)])
  show ?thesis unfolding count_def wp_sq wp_basic
  proof (rule wp_restart [where t = t1])
    show "board_free (pboard (d\<lparr>part := (part d)\<lparr>tcounter := tcounter (part d) + 1\<rparr>\<rparr>))" using assms(1) by simp
    show "but_units t1 (part (d\<lparr>part := (part d)\<lparr>tcounter := tcounter (part d) + 1\<rparr>\<rparr>))" using u by simp
  qed (fold t2_def, rule wp_hit_a, assumption, assumption, fold t3_def, rule wp_hit_b, assumption, assumption, fold t4, rule assms(3))
qed

lemma wp_TimerCounter:
  assumes "board_free (pboard d)" "but_units t (part d)"
    and "\<And>d'. board_free (pboard d') \<Longrightarrow> but_units (timer_spec t) (part d') \<Longrightarrow> Q () d'"
  shows "wp (TimerCounter E) Q d"
proof -
  let ?t1 = "snd (PrescalerMux t)"
  let ?t2 = "if fst (PrescalerMux t) then tick_spec ?t1 else ?t1"
  have rest: "wp (bnd (get_part DeadTimePrescalerMux) (\<lambda>(dt, t2). sq (upd_part (\<lambda>_. t2))
       (whenM dt (sq (on_a (DTClockCycle E)) (on_b (DTClockCycle E)))))) Q e"
    if e: "board_free (pboard e)" "but_units ?t2 (part e)" for e
  proof -
    let ?t3 = "snd (DeadTimePrescalerMux ?t2)"
    have s: "timer_spec t = ?t3" by (simp add: timer_spec_def split: prod.split)
    have u: "but_units ?t3 (snd (DeadTimePrescalerMux (part e)))" by (rule but_units_selects(12) [OF e(2)])
    have "wp (on_a (DTClockCycle E)) (\<lambda>_. wp (on_b (DTClockCycle E)) Q) (e\<lparr>part := snd (DeadTimePrescalerMux (part e))\<rparr>)"
      by (rule wp_on_unit(1) [OF unit_op_DTClockCycle], use e(1) in simp, use u in simp,
          rule wp_on_unit(2) [OF unit_op_DTClockCycle], assumption, assumption, rule assms(3), assumption) (simp add: s)
    moreover have "Q () (e\<lparr>part := snd (DeadTimePrescalerMux (part e))\<rparr>)" by (rule assms(3)) (use e(1) u s in simp_all)
    ultimately show ?thesis by (cases "DeadTimePrescalerMux (part e)") (simp add: wp_simps)
  qed
  let ?d = "d\<lparr>part := snd (PrescalerMux (part d))\<rparr>"
  have u: "but_units ?t1 (part ?d)" using but_units_selects(10) [OF assms(2)] by simp
  have f: "fst (PrescalerMux (part d)) = fst (PrescalerMux t)" by (rule but_units_selects(9) [OF assms(2)])
  have "wp (whenM (fst (PrescalerMux t)) (count E)) (\<lambda>_. wp (bnd (get_part DeadTimePrescalerMux) (\<lambda>(dt, t2). sq (upd_part (\<lambda>_. t2))
       (whenM dt (sq (on_a (DTClockCycle E)) (on_b (DTClockCycle E)))))) Q) ?d"
    by (rule wp_whenI, rule wp_count [OF _ u]) (use assms(1) rest u in simp_all)
  then show ?thesis unfolding TimerCounter_def
    using f by (cases "PrescalerMux (part d)") (simp add: wp_bnd wp_basic wp_sq)
qed

section \<open>Many clocks\<close>

definition tiny_top :: "tinyx5 \<Rightarrow> nat" where
  "tiny_top t = (if pwm_mode t \<or> cfg_ctc t then unat (regValue (ocrc_inout_val t)) else 255)"

definition divider :: "nat \<Rightarrow> nat" where
  "divider cfg = 2 ^ (cfg - 1)"

text \<open>In the modes that load the compare values at an overflow, they are already loaded.\<close>

definition loaded :: "tinyx5 \<Rightarrow> bool" where
  "loaded t \<longleftrightarrow> (pwm_mode t \<longrightarrow> ocra_compare t = unat (ocra_internal_val t) \<and> ocrb_compare t = unat (ocrb_internal_val t))"

text \<open>A timer with its counter and flags after some clocks.\<close>

definition counted :: "nat \<Rightarrow> bool \<Rightarrow> bool \<Rightarrow> bool \<Rightarrow> tinyx5 \<Rightarrow> tinyx5" where
  "counted c v a b t = t\<lparr>tcounter := c, tov_internal_flag := v, tocra_internal_flag := a, tocrb_internal_flag := b\<rparr>"

lemma counted_selects [simp]:
  "pwm_mode (counted c v a b t) = pwm_mode t" "cfg_ctc (counted c v a b t) = cfg_ctc t" "tiny_top (counted c v a b t) = tiny_top t"
  "ocra_compare (counted c v a b t) = ocra_compare t" "ocrb_compare (counted c v a b t) = ocrb_compare t"
  "loaded (counted c v a b t) = loaded t" "tcounter (counted c v a b t) = c"
  "pwma_mode (counted c v a b t) = pwma_mode t" "pwmb_mode (counted c v a b t) = pwmb_mode t"
  by (simp_all add: counted_def tiny_top_def loaded_def)

lemma counted_updates:
  "(counted c v a b t)\<lparr>tcounter := c'\<rparr> = counted c' v a b t"
  "(counted c v a b t)\<lparr>tocra_internal_flag := f\<rparr> = counted c v f b t" "(counted c v a b t)\<lparr>tocrb_internal_flag := f\<rparr> = counted c v a f t"
  "(counted c v a b t)\<lparr>tov_internal_flag := f\<rparr> = counted c f a b t"
  by (simp_all add: counted_def)

lemma overflow_counted:
  assumes "c \<le> tiny_top t"
  shows "overflow (counted (c + 1) v a b t) \<longleftrightarrow> c = tiny_top t"
proof -
  have "unat (regValue (ocrc_inout_val t)) < 256" using unsigned_less [of "regValue (ocrc_inout_val t)", where 'a = nat] by simp
  then show ?thesis using assms by (auto simp: overflow_def tiny_top_def counted_def split: if_splits)
qed

lemma restart_counted:
  assumes "loaded t"
  shows "restart (counted c v a b t) = counted 0 (v \<or> pwm_mode t \<or> \<not> cfg_ctc t) a b t"
proof -
  have l: "(counted 0 v a b t)\<lparr>ocra_compare := unat (ocra_internal_val t), ocrb_compare := unat (ocrb_internal_val t)\<rparr> = counted 0 v a b t"
    if "pwm_mode t" for v
  proof -
    have "unat (ocra_internal_val t) = ocra_compare (counted 0 v a b t)" "unat (ocrb_internal_val t) = ocrb_compare (counted 0 v a b t)"
      using assms that by (simp_all add: loaded_def)
    then show ?thesis by (simp only:) simp
  qed
  have i: "ocra_internal_val (counted x v a b t) = ocra_internal_val t" "ocrb_internal_val (counted x v a b t) = ocrb_internal_val t" for x v
    by (simp_all add: counted_def)
  show ?thesis
  proof (cases "pwm_mode t")
    case True
    then show ?thesis by (auto simp: restart_def counted_updates l i Let_def)
  next
    case False
    then show ?thesis by (simp add: restart_def counted_updates Let_def)
  qed
qed

lemma tick_counted:
  assumes "loaded t" "c \<le> tiny_top t"
  shows "tick_spec (counted c v a b t) = (let c' = (if c = tiny_top t then 0 else c + 1) in
     counted c' (v \<or> c = tiny_top t \<and> (pwm_mode t \<or> \<not> cfg_ctc t)) (a \<or> c' = ocra_compare t) (b \<or> c' = ocrb_compare t) t)"
proof -
  let ?c = "if c = tiny_top t then 0 else c + 1" and ?v = "v \<or> c = tiny_top t \<and> (pwm_mode t \<or> \<not> cfg_ctc t)"
  have 1: "(if overflow (counted (c + 1) v a b t) then restart (counted (c + 1) v a b t) else counted (c + 1) v a b t) = counted ?c ?v a b t"
    by (simp only: overflow_counted [OF assms(2)] restart_counted [OF assms(1)]) simp
  have 2: "(if tcounter (counted x y a b t) = ocra_compare (counted x y a b t) then (counted x y a b t)\<lparr>tocra_internal_flag := True\<rparr> else counted x y a b t) =
      counted x y (a \<or> x = ocra_compare t) b t"
    "(if tcounter (counted x y z b t) = ocrb_compare (counted x y z b t) then (counted x y z b t)\<lparr>tocrb_internal_flag := True\<rparr> else counted x y z b t) =
      counted x y z (b \<or> x = ocrb_compare t) t" for x y z
    by (simp_all add: counted_updates)
  have t: "tick_spec (counted c v a b t) =
      (let t2 = counted ?c ?v a b t; t3 = (if tcounter t2 = ocra_compare t2 then t2\<lparr>tocra_internal_flag := True\<rparr> else t2)
       in if tcounter t3 = ocrb_compare t3 then t3\<lparr>tocrb_internal_flag := True\<rparr> else t3)"
    unfolding tick_spec_def counted_updates(1) counted_selects(7) Let_def 1 ..
  show ?thesis unfolding t unfolding Let_def unfolding 2(1) unfolding 2(2) ..
qed

lemma ticks_counted:
  assumes "loaded t" "c \<le> tiny_top t"
  shows "(tick_spec ^^ k) (counted c v a b t) = counted ((c + k) mod (tiny_top t + 1))
     (v \<or> tiny_top t < c + k \<and> (pwm_mode t \<or> \<not> cfg_ctc t))
     (a \<or> (\<exists>j \<in> {1..k}. (c + j) mod (tiny_top t + 1) = ocra_compare t))
     (b \<or> (\<exists>j \<in> {1..k}. (c + j) mod (tiny_top t + 1) = ocrb_compare t)) t"
proof (induction k)
  case 0
  then show ?case using assms(2) by simp
next
  case (Suc k)
  let ?m = "tiny_top t + 1"
  have le: "(c + k) mod ?m \<le> tiny_top t" using mod_less_divisor [of ?m "c + k"] by simp
  have nxt: "(if (c + k) mod ?m = tiny_top t then 0 else (c + k) mod ?m + 1) = (c + Suc k) mod ?m"
    by (simp add: mod_Suc)
  have full: "tiny_top t < c + k \<or> (c + k) mod ?m = tiny_top t \<longleftrightarrow> tiny_top t < c + Suc k"
  proof
    assume "tiny_top t < c + k \<or> (c + k) mod ?m = tiny_top t"
    moreover have "(c + k) mod ?m \<le> c + k" by (rule mod_less_eq_dividend)
    ultimately show "tiny_top t < c + Suc k" by linarith
  next
    assume "tiny_top t < c + Suc k"
    then show "tiny_top t < c + k \<or> (c + k) mod ?m = tiny_top t" by (cases "c + k = tiny_top t") auto
  qed
  have set: "{1..Suc k} = insert (Suc k) {1..k}" by (simp add: atLeastAtMostSuc_conv)
  have flag: "(f \<or> (\<exists>j \<in> {1..k}. P j)) \<or> P (Suc k) \<longleftrightarrow> f \<or> (\<exists>j \<in> {1..Suc k}. P j)" for f and P :: "nat \<Rightarrow> bool"
    unfolding set by blast
  have over: "(v \<or> tiny_top t < c + k \<and> R) \<or> (c + k) mod ?m = tiny_top t \<and> R \<longleftrightarrow> v \<or> tiny_top t < c + Suc k \<and> R" for R
    using full by blast
  show ?case unfolding funpow.simps o_apply Suc tick_counted [OF assms(1) le] Let_def nxt over
    flag [of a "\<lambda>j. (c + j) mod ?m = ocra_compare t"] flag [of b "\<lambda>j. (c + j) mod ?m = ocrb_compare t"] ..
qed

text \<open>The prescalers.\<close>

definition prescaled :: "nat \<Rightarrow> nat \<Rightarrow> tinyx5 \<Rightarrow> tinyx5" where
  "prescaled p q t = t\<lparr>tprescaler := p, dtprescaler := q\<rparr>"

lemma tick_prescaled: "tick_spec (prescaled p q t) = prescaled p q (tick_spec t)"
proof -
  have "overflow (prescaled p q s) = overflow s" "restart (prescaled p q s) = prescaled p q (restart s)"
    "tcounter (prescaled p q s) = tcounter s" "ocra_compare (prescaled p q s) = ocra_compare s" "ocrb_compare (prescaled p q s) = ocrb_compare s"
    "(prescaled p q s)\<lparr>tcounter := c\<rparr> = prescaled p q (s\<lparr>tcounter := c\<rparr>)"
    "(prescaled p q s)\<lparr>tocra_internal_flag := f\<rparr> = prescaled p q (s\<lparr>tocra_internal_flag := f\<rparr>)"
    "(prescaled p q s)\<lparr>tocrb_internal_flag := f\<rparr> = prescaled p q (s\<lparr>tocrb_internal_flag := f\<rparr>)" for s c f
    by (simp_all add: prescaled_def overflow_def restart_def Let_def)
  then show ?thesis unfolding tick_spec_def Let_def by (simp only: if_distrib [of "prescaled p q", symmetric])
qed

lemma tap_divider: "1 \<le> c \<Longrightarrow> c \<le> 15 \<Longrightarrow> tap c p \<longleftrightarrow> divider c dvd p"
proof -
  assume "1 \<le> c" "c \<le> 15"
  then have "c = 1 \<or> c = 2 \<or> c = 3 \<or> c = 4 \<or> c = 5 \<or> c = 6 \<or> c = 7 \<or> c = 8 \<or> c = 9 \<or> c = 10 \<or> c = 11 \<or> c = 12 \<or> c = 13 \<or> c = 14 \<or> c = 15"
    by presburger
  then show ?thesis by (elim disjE) (simp_all add: tap_def divider_def dvd_eq_mod_eq_0)
qed

lemma tick_config [simp]: "cfg_prescaler (tick_spec t) = cfg_prescaler t" "cfg_dtprescaler (tick_spec t) = cfg_dtprescaler t"
  by (simp_all add: tick_spec_def restart_def Let_def)

lemma ticks_config [simp]: "cfg_prescaler ((tick_spec ^^ k) t) = cfg_prescaler t"
  by (induction k) simp_all

lemma timer_prescaled:
  assumes "p < 16384" "q < 8"
  shows "timer_spec (prescaled p q t) = prescaled ((p + 1) mod 16384) ((q + 1) mod 8) (if tap (cfg_prescaler t) ((p + 1) mod 16384) then tick_spec t else t)"
proof -
  have m: "(if p + 1 = 0x4000 then 0 else p + 1) = (p + 1) mod 16384" "(if q + 1 = 8 then 0 else q + 1) = (q + 1) mod 8"
    using assms by auto
  have s: "tprescaler (prescaled x y s) = x" "dtprescaler (prescaled x y s) = y" "cfg_prescaler (prescaled x y s) = cfg_prescaler s"
    "(prescaled x y s)\<lparr>tprescaler := z\<rparr> = prescaled z y s" "(prescaled x y s)\<lparr>dtprescaler := z\<rparr> = prescaled x z s" for x y z s
    by (simp_all add: prescaled_def)
  have P: "PrescalerMux (prescaled p q t) = (tap (cfg_prescaler t) ((p + 1) mod 16384), prescaled ((p + 1) mod 16384) q t)"
    "snd (DeadTimePrescalerMux (prescaled x q s)) = prescaled x ((q + 1) mod 8) s" for x s
    by (simp_all only: PrescalerMux_def DeadTimePrescalerMux_def s m Let_def snd_conv)
  show ?thesis by (simp add: timer_spec_def P tick_prescaled)
qed

lemma timer_clocks:
  assumes "1 \<le> cfg_prescaler t" "cfg_prescaler t \<le> 15" "divider (cfg_prescaler t) dvd p" "p < 16384" "q < 8"
  shows "(timer_spec ^^ n) (prescaled p q t) =
     prescaled ((p + n) mod 16384) ((q + n) mod 8) ((tick_spec ^^ (n div divider (cfg_prescaler t))) t)"
proof (induction n)
  case 0
  then show ?case using assms(4,5) by simp
next
  case (Suc n)
  let ?d = "divider (cfg_prescaler t)" and ?t = "(tick_spec ^^ (n div divider (cfg_prescaler t))) t"
  have "cfg_prescaler t - 1 \<le> 14" using assms(2) by simp
  then have d: "?d dvd 16384" using le_imp_power_dvd [of "cfg_prescaler t - 1" 14 "2 :: nat"] by (simp add: divider_def)
  have "?d dvd (p + Suc n) mod 16384 \<longleftrightarrow> ?d dvd p + Suc n" using d by (simp add: dvd_mod_iff)
  also have "\<dots> \<longleftrightarrow> ?d dvd Suc n" using assms(3) by (simp add: dvd_add_right_iff del: add_Suc_right)
  finally have tick: "tap (cfg_prescaler ?t) ((p + Suc n) mod 16384) \<longleftrightarrow> ?d dvd Suc n"
    by (simp add: tap_divider [OF assms(1,2)])
  have div: "Suc n div ?d = (if ?d dvd Suc n then Suc (n div ?d) else n div ?d)"
    by (simp add: div_Suc dvd_eq_mod_eq_0)
  have m: "((p + n) mod 16384 + 1) mod 16384 = (p + Suc n) mod 16384" "((q + n) mod 8 + 1) mod 8 = (q + Suc n) mod 8"
    by (simp_all add: mod_Suc_eq)
  show ?case unfolding funpow.simps o_apply Suc div
    by (subst timer_prescaled) (simp_all only: m tick mod_less_divisor zero_less_numeral if_distrib [of "\<lambda>k. (tick_spec ^^ k) t"] funpow.simps o_apply)
qed

lemma wp_timer_clocks:
  assumes "board_free (pboard d)" "but_units t (part d)"
  shows "wp (forS (\<lambda>_. TimerCounter E) xs) (\<lambda>_ d'. board_free (pboard d') \<and> but_units ((timer_spec ^^ length xs) t) (part d')) d"
  using assms
proof (induction xs arbitrary: d t)
  case (Cons x xs)
  have "wp (TimerCounter E) (\<lambda>_. wp (forS (\<lambda>_. TimerCounter E) xs)
      (\<lambda>_ d'. board_free (pboard d') \<and> but_units ((timer_spec ^^ length (x # xs)) t) (part d'))) d"
  proof (rule wp_TimerCounter [OF Cons.prems])
    fix d' :: "(tinyx5, 'a, 'b, 'c) part_dev"
    assume "board_free (pboard d')" "but_units (timer_spec t) (part d')"
    from Cons.IH [OF this] show "wp (forS (\<lambda>_. TimerCounter E) xs)
      (\<lambda>_ d'. board_free (pboard d') \<and> but_units ((timer_spec ^^ length (x # xs)) t) (part d')) d'"
      by (simp add: funpow_swap1)
  qed
  then show ?case by (simp only: wp_forS)
qed (simp add: wp_simps)

text \<open>
  C30. With the prescaler set to \<open>c\<close>, from 1 to 15, the counter is clocked in every \<open>2 ^ (c - 1)\<close>-th clock of the timer. It counts from 0 to
  its top, which is OCR1C in the PWM and CTC modes and 255 otherwise, and starts again; doing so it sets the overflow flag,
  except in CTC mode; and the compare flags are set when the counter comes to the compare values.
\<close>

theorem tiny_counts:
  assumes "board_free (pboard d)" "t = part d" "1 \<le> cfg_prescaler t" "cfg_prescaler t \<le> 15"
    and "divider (cfg_prescaler t) dvd tprescaler t" "tprescaler t < 16384" "dtprescaler t < 8"
    and "tcounter t \<le> tiny_top t" "loaded t"
  shows "wp (forS (\<lambda>_. TimerCounter E) [0..<n]) (\<lambda>_ d'. let t' = part d'; k = n div divider (cfg_prescaler t); m = tiny_top t + 1 in
     tcounter t' = (tcounter t + k) mod m \<and>
     (tov_internal_flag t' \<longleftrightarrow> tov_internal_flag t \<or> m \<le> tcounter t + k \<and> (pwm_mode t \<or> \<not> cfg_ctc t)) \<and>
     (tocra_internal_flag t' \<longleftrightarrow> tocra_internal_flag t \<or> (\<exists>j \<in> {1..k}. (tcounter t + j) mod m = ocra_compare t)) \<and>
     (tocrb_internal_flag t' \<longleftrightarrow> tocrb_internal_flag t \<or> (\<exists>j \<in> {1..k}. (tcounter t + j) mod m = ocrb_compare t))) d"
proof (rule wp_mono [OF wp_timer_clocks [OF assms(1) but_units_refl]])
  fix x and d' :: "(tinyx5, 'a, 'b, 'c) part_dev"
  let ?k = "n div divider (cfg_prescaler t)" and ?c = "tcounter t"
  let ?v = "tov_internal_flag t" and ?a = "tocra_internal_flag t" and ?b = "tocrb_internal_flag t"
  have t: "t = prescaled (tprescaler t) (dtprescaler t) t" "t = counted ?c ?v ?a ?b t" by (simp_all add: prescaled_def counted_def)
  have k: "(timer_spec ^^ n) t = prescaled ((tprescaler t + n) mod 16384) ((dtprescaler t + n) mod 8) ((tick_spec ^^ ?k) t)"
    using timer_clocks [OF assms(3-7), of n] t(1) by simp
  assume "board_free (pboard d') \<and> but_units ((timer_spec ^^ length [0..<n]) (part d)) (part d')"
  then obtain u w where "part d' = ((timer_spec ^^ n) t)\<lparr>ocra_unit := u, ocrb_unit := w\<rparr>"
    using assms(2) by (auto simp: but_units_def)
  moreover have "(tick_spec ^^ ?k) t = (tick_spec ^^ ?k) (counted ?c ?v ?a ?b t)" using t(2) by simp
  ultimately have p: "part d' = (prescaled ((tprescaler t + n) mod 16384) ((dtprescaler t + n) mod 8) ((tick_spec ^^ ?k) (counted ?c ?v ?a ?b t)))
      \<lparr>ocra_unit := u, ocrb_unit := w\<rparr>" using k by simp
  show "let t' = part d'; k = ?k; m = tiny_top t + 1 in
     tcounter t' = (tcounter t + k) mod m \<and>
     (tov_internal_flag t' \<longleftrightarrow> ?v \<or> m \<le> tcounter t + k \<and> (pwm_mode t \<or> \<not> cfg_ctc t)) \<and>
     (tocra_internal_flag t' \<longleftrightarrow> ?a \<or> (\<exists>j \<in> {1..k}. (tcounter t + j) mod m = ocra_compare t)) \<and>
     (tocrb_internal_flag t' \<longleftrightarrow> ?b \<or> (\<exists>j \<in> {1..k}. (tcounter t + j) mod m = ocrb_compare t))"
    unfolding p ticks_counted [OF assms(9,8)] Let_def by (simp add: prescaled_def counted_def less_eq_Suc_le)
qed

section \<open>An example\<close>

text \<open>CTC mode with a top of 9 and a prescaler of 2.\<close>

definition sample_tiny :: tinyx5 where
  "sample_tiny = (HWTimerTinyX5 0 1 (Some 3) (Some 4) \<lparr>pa_port = 0, pa_pinNo = 0\<rparr> \<lparr>pa_port = 0, pa_pinNo = 1\<rparr> (Some 5)
     \<lparr>pa_port = 0, pa_pinNo = 2\<rparr> \<lparr>pa_port = 0, pa_pinNo = 3\<rparr> undefined)
     \<lparr>cfg_prescaler := 2, cfg_ctc := True, ocrc_inout_val := sync_Reset 9, ocra_compare := 4, ocrb_compare := 20\<rparr>"

definition sample_tiny_dev :: "(tinyx5, int, unit, char) part_dev" where
  "sample_tiny_dev = \<lparr>part = sample_tiny, pirq = HWIrqSystem 2 20, pboard = sample_board 3\<rparr>"

lemma sample_tiny_simps:
  "part sample_tiny_dev = sample_tiny" "cfg_prescaler sample_tiny = 2" "pwma_mode sample_tiny = False" "pwmb_mode sample_tiny = False"
  "cfg_ctc sample_tiny" "tprescaler sample_tiny = 0" "dtprescaler sample_tiny = 0" "tcounter sample_tiny = 0" "tiny_top sample_tiny = 9"
  "ocra_compare sample_tiny = 4" "ocrb_compare sample_tiny = 20" "loaded sample_tiny" "\<not> tocra_internal_flag sample_tiny"
  "\<not> tocrb_internal_flag sample_tiny" "\<not> tov_internal_flag sample_tiny"
  by (simp_all add: sample_tiny_dev_def sample_tiny_def HWTimerTinyX5_def TinyX5_Reset_def SetPrescalerClock_def tiny_top_def loaded_def sync_Reset_def)

theorem tiny_counts_witness:
  "\<forall>E. \<exists>d'. forS (\<lambda>_. TimerCounter E) [0..<30] sample_tiny_dev = Inr ((), d') \<and> tcounter (part d') = 5 \<and>
     tocra_internal_flag (part d') \<and> \<not> tov_internal_flag (part d')"
proof
  fix E
  have b: "board_free (pboard sample_tiny_dev)" using sample_settled [of 3] by (simp add: sample_tiny_dev_def settled_def)
  have a: "1 \<le> cfg_prescaler sample_tiny" "cfg_prescaler sample_tiny \<le> 15" "divider (cfg_prescaler sample_tiny) dvd tprescaler sample_tiny"
    "tprescaler sample_tiny < 16384" "dtprescaler sample_tiny < 8" "tcounter sample_tiny \<le> tiny_top sample_tiny" "loaded sample_tiny"
    by (simp_all add: sample_tiny_simps)
  have d: "30 div divider 2 = 15" by (simp add: divider_def)
  have h: "\<exists>j \<in> {1..15 :: nat}. j mod 10 = 4" by (rule bexI [of _ 4]) simp_all
  show "\<exists>d'. forS (\<lambda>_. TimerCounter E) [0..<30] sample_tiny_dev = Inr ((), d') \<and> tcounter (part d') = 5 \<and>
     tocra_internal_flag (part d') \<and> \<not> tov_internal_flag (part d')"
    by (rule wp_ex [OF tiny_counts [OF b sample_tiny_simps(1) [symmetric] a, where n = 30]])
      (use h in \<open>simp add: sample_tiny_simps d Let_def\<close>)
qed

end
