(* ===== verification/Avr_TinyClock.thy ===== *)
theory Avr_TinyClock
  imports Avr_TinyCount
begin

text \<open>
  The clock of its own that timer 1 of the ATtiny25/45/85 can have: the delays that it asks the system clock
  for.
\<close>

section \<open>What leaves the clock alone\<close>

definition clock_state :: "tinyx5 \<Rightarrow> int \<times> bool \<times> bool \<times> nat" where
  "clock_state t = (asyncClock_step t, asyncClock_async t, asyncClock_lsm t, members t)"

definition keeps :: "('f, 'w, 'hw, unit) tiny_sim \<Rightarrow> bool" where
  "keeps m \<longleftrightarrow> (\<forall>d. board_free (pboard d) \<longrightarrow> wp m (\<lambda>_ d'. board_free (pboard d') \<and> clock_state (part d') = clock_state (part d)) d)"

lemma keeps_basic: "keeps (ret ())" "(\<And>t. clock_state (f t) = clock_state t) \<Longrightarrow> keeps (upd_part f)"
  by (simp_all add: keeps_def wp_simps)

lemma clock_keeps_sq: "keeps m \<Longrightarrow> keeps n \<Longrightarrow> keeps (sq m n)"
  unfolding keeps_def wp_sq
proof (intro allI impI)
  fix d :: "(tinyx5, 'a, 'b, 'c) part_dev"
  assume m: "\<forall>d. board_free (pboard d) \<longrightarrow> wp m (\<lambda>_ d'. board_free (pboard d') \<and> clock_state (part d') = clock_state (part d)) d"
    and n: "\<forall>d. board_free (pboard d) \<longrightarrow> wp n (\<lambda>_ d'. board_free (pboard d') \<and> clock_state (part d') = clock_state (part d)) d"
    and d: "board_free (pboard d)"
  show "wp m (\<lambda>_. wp n (\<lambda>_ d'. board_free (pboard d') \<and> clock_state (part d') = clock_state (part d))) d"
    by (rule wp_mono [OF m [rule_format, OF d]]) (use n in fastforce)
qed

lemma keeps_when: "keeps m \<Longrightarrow> keeps (whenM b m)"
  by (simp add: keeps_def wp_whenM)

lemma clock_keeps_bnd: "(\<And>x. keeps (f x)) \<Longrightarrow> keeps (bnd (gets g) f)"
  by (simp add: keeps_def wp_simps)

lemma keeps_unit: "unit_op m \<Longrightarrow> keeps (on_a m)" "unit_op m \<Longrightarrow> keeps (on_b m)"
  unfolding keeps_def on_unit_def wp_zoom by (auto simp: clock_state_def unit_op_def)

lemma unit_op_mode: "unit_op (SetOCRMode E b c)" "unit_op (ForceEvent E)"
  unfolding SetOCRMode_def ForceEvent_def
  by (intro unit_op_intros; auto intro!: unit_op_intros unit_op_SetPWM split: prod.split)+

lemmas keeps_intros = clock_keeps_sq keeps_when clock_keeps_bnd keeps_unit keeps_basic

lemma keeps_clock_in:
  assumes "\<And>r t. clock_state (put r t) = clock_state t" "keeps m"
  shows "keeps (clock_in get put m)"
  unfolding clock_in_def by (intro clock_keeps_bnd) (use assms in \<open>auto intro!: keeps_intros split: prod.split\<close>)

lemma timer_spec_clock: "clock_state (timer_spec t) = clock_state t"
  by (simp add: timer_spec_def tick_spec_def PrescalerMux_def DeadTimePrescalerMux_def restart_def clock_state_def Let_def)

lemma keeps_TimerCounter: "keeps (TimerCounter E)"
  unfolding keeps_def
proof (intro allI impI)
  fix d :: "(tinyx5, 'a, 'b, 'c) part_dev"
  assume b: "board_free (pboard d)"
  show "wp (TimerCounter E) (\<lambda>_ d'. board_free (pboard d') \<and> clock_state (part d') = clock_state (part d)) d"
  proof (rule wp_TimerCounter [OF b but_units_refl], rule conjI)
    fix d' :: "(tinyx5, 'a, 'b, 'c) part_dev"
    assume "but_units (timer_spec (part d)) (part d')"
    then obtain x y where "part d' = (timer_spec (part d))\<lparr>ocra_unit := x, ocrb_unit := y\<rparr>" by (auto simp: but_units_def)
    then show "clock_state (part d') = clock_state (part d)" using timer_spec_clock [of "part d"] by (simp add: clock_state_def)
  qed
qed

lemma keeps_Transfer: "keeps (TransferInputValues E)"
proof -
  have "keeps (transfer_tccr E)" unfolding transfer_tccr_def Let_def
    by (intro keeps_clock_in keeps_intros unit_op_mode) (simp_all add: clock_state_def)
  moreover have "keeps (transfer_gtccr E)" unfolding transfer_gtccr_def Let_def
    by (intro keeps_clock_in keeps_intros unit_op_mode) (simp_all add: clock_state_def)
  moreover have "keeps (transfer_ocr :: ('a, 'b, 'c, unit) tiny_sim)" unfolding transfer_ocr_def
    by (intro keeps_clock_in keeps_intros) (simp_all add: clock_state_def)
  moreover have "keeps (sq (upd_part (\<lambda>t. let t1 = (if tcnt_set_flag t then t\<lparr>tcounter := unat (tcnt_in_val t), tcnt_set_flag := False\<rparr> else t)
            in t1\<lparr>cfg_dtprescaler := unat (dtps1_inout_val t1 AND 0x03)\<rparr>))
     (sq (clock_in dt1a_inout_val (\<lambda>r t. t\<lparr>dt1a_inout_val := r\<rparr>)
            (upd_part (\<lambda>t. t\<lparr>ocra_unit := dead_times (regValue (dt1a_inout_val t)) (ocra_unit t)\<rparr>)))
     (clock_in dt1b_inout_val (\<lambda>r t. t\<lparr>dt1b_inout_val := r\<rparr>)
            (upd_part (\<lambda>t. t\<lparr>ocrb_unit := dead_times (regValue (dt1b_inout_val t)) (ocrb_unit t)\<rparr>)))) :: ('a, 'b, 'c, unit) tiny_sim)"
    by (intro keeps_clock_in keeps_intros) (simp_all add: clock_state_def Let_def)
  ultimately show ?thesis unfolding TransferInputValues_def by (blast intro: clock_keeps_sq)
qed

section \<open>The delays\<close>

text \<open>
  Off, on, or switched off with the last \<open>Step\<close> still to come. The timer is in the table of the system clock exactly
  if it is not off, and then once. On, it takes all eight steps, or every second one at half the speed.
\<close>

definition clock_off :: "tinyx5 \<Rightarrow> bool" where
  "clock_off t \<longleftrightarrow> \<not> asyncClock_async t \<and> asyncClock_step t = - 1 \<and> members t = 0"

definition clock_on :: "tinyx5 \<Rightarrow> bool" where
  "clock_on t \<longleftrightarrow> asyncClock_async t \<and> 0 \<le> asyncClock_step t \<and> asyncClock_step t < 8 \<and>
     (asyncClock_lsm t \<longrightarrow> even (asyncClock_step t)) \<and> members t = 1"

definition clock_stopping :: "tinyx5 \<Rightarrow> bool" where
  "clock_stopping t \<longleftrightarrow> \<not> asyncClock_async t \<and> 0 \<le> asyncClock_step t \<and> asyncClock_step t < 8 \<and> members t = 1"

definition clock_ok :: "tinyx5 \<Rightarrow> bool" where
  "clock_ok t \<longleftrightarrow> clock_off t \<or> clock_on t \<or> clock_stopping t"

definition next_step :: "bool \<Rightarrow> int \<Rightarrow> int" where
  "next_step lsm n = (n + (if lsm then 2 else 1)) mod 8"

definition step_delay :: "bool \<Rightarrow> int \<Rightarrow> int" where
  "step_delay lsm n = HWTimerTinyX5_nextdelay ! nat n + (if lsm then HWTimerTinyX5_nextdelay ! nat (n + 1) else 0)"

lemma wp_TinyX5_Step:
  assumes "board_free (pboard d)" "clock_state (part d) = (n, True, lsm, m)" "0 \<le> n" "n < 8" "lsm \<Longrightarrow> even n"
    and "\<And>d'. board_free (pboard d') \<Longrightarrow> clock_state (part d') = (next_step lsm n, True, lsm, m) \<Longrightarrow> Q (step_delay lsm n) d'"
  shows "wp (TinyX5_Step E) Q d"
proof -
  have c: "asyncClock_step (part d) = n" "asyncClock_async (part d)" "asyncClock_lsm (part d) = lsm" "members (part d) = m"
    using assms(2) by (simp_all add: clock_state_def)
  let ?s = "n + (if lsm then 2 else 1)"
  let ?t = "(part d)\<lparr>asyncClock_step := ?s\<rparr>"
  let ?d = "d\<lparr>part := if asyncClock_step ?t = 8 then ?t\<lparr>asyncClock_step := 0\<rparr> else ?t\<rparr>"
  have n1: "n + 1 < 8" if lsm
  proof -
    have "even n" using assms(5) that by simp
    then have "n \<noteq> 7" by auto
    then show ?thesis using assms(4) by simp
  qed
  then have s: "?s \<le> 8" using assms(4) by (auto split: if_splits)
  then have "(if ?s = 8 then 0 else ?s) = next_step lsm n" using assms(3) by (auto simp: next_step_def split: if_splits)
  then have st: "clock_state (part ?d) = (next_step lsm n, True, lsm, m)" using c by (auto simp: clock_state_def split: if_splits)
  have b: "board_free (pboard ?d)" using assms(1) by simp
  have k: "keeps (sq (TimerCounter E) (TransferInputValues E))" by (intro clock_keeps_sq keeps_TimerCounter keeps_Transfer)
  have "wp (sq (TimerCounter E) (TransferInputValues E)) (\<lambda>_ d'. Q (step_delay lsm n) d') ?d"
    by (rule wp_mono [OF k [unfolded keeps_def, rule_format, OF b]]) (use st assms(6) in auto)
  then have r: "wp (TimerCounter E) (\<lambda>_. wp (TransferInputValues E) (\<lambda>_ d'. Q (step_delay lsm n) d')) ?d" by (simp only: wp_sq)
  show ?thesis
  proof (cases lsm)
    case True
    have d: "d\<lparr>part := (part d)\<lparr>asyncClock_step := n + 1 + 1\<rparr>\<rparr> = d\<lparr>part := (part d)\<lparr>asyncClock_step := n + 2\<rparr>\<rparr>" by simp
    show ?thesis unfolding TinyX5_Step_def next_delay_def using True r assms(3,4) n1 c
      by (simp add: wp_simps step_delay_def ac_simps cong: if_cong)
  next
    case False
    then show ?thesis unfolding TinyX5_Step_def next_delay_def using r assms(3,4) c
      by (simp add: wp_simps step_delay_def cong: if_cong)
  qed
qed

primrec tiny_steps :: "('f::zero, 'w, 'hw) part_env \<Rightarrow> nat \<Rightarrow> ('f, 'w, 'hw, int list) tiny_sim" where
  "tiny_steps E 0 = ret []"
| "tiny_steps E (Suc k) = bnd (TinyX5_Step E) (\<lambda>n. bnd (tiny_steps E k) (\<lambda>ns. ret (n # ns)))"

fun delays :: "bool \<Rightarrow> int \<Rightarrow> nat \<Rightarrow> int list" where
  "delays lsm n 0 = []"
| "delays lsm n (Suc k) = step_delay lsm n # delays lsm (next_step lsm n) k"

lemma next_step_ok:
  assumes "lsm \<Longrightarrow> even n"
  shows "0 \<le> next_step lsm n" "next_step lsm n < 8" "lsm \<Longrightarrow> even (next_step lsm n)"
  using assms by (auto simp: next_step_def dvd_mod_iff)

lemma wp_tiny_steps:
  assumes "board_free (pboard d)" "clock_state (part d) = (n, True, lsm, m)" "0 \<le> n" "n < 8" "lsm \<Longrightarrow> even n"
  shows "wp (tiny_steps E k) (\<lambda>ns d'. ns = delays lsm n k \<and> clock_state (part d') = ((next_step lsm ^^ k) n, True, lsm, m)) d"
  using assms
proof (induction k arbitrary: d n)
  case 0
  then show ?case by (simp add: wp_def ret_def)
next
  case (Suc k)
  note ok = next_step_ok [of lsm n, OF Suc.prems(5)]
  show ?case unfolding tiny_steps.simps wp_bnd wp_basic
    by (rule wp_TinyX5_Step [OF Suc.prems], assumption, rule wp_mono [OF Suc.IH])
      (use ok in \<open>auto simp: funpow_swap1\<close>)
qed

lemma delays_full:
  assumes "0 \<le> n" "n < 8"
  shows "sum_list (delays False n 8) = 125 \<and> set (delays False n 8) = {15, 16} \<and> (next_step False ^^ 8) n = n"
    "even n \<Longrightarrow> sum_list (delays True n 4) = 125 \<and> set (delays True n 4) = {31, 32} \<and> (next_step True ^^ 4) n = n"
proof -
  have n: "n = 0 \<or> n = 1 \<or> n = 2 \<or> n = 3 \<or> n = 4 \<or> n = 5 \<or> n = 6 \<or> n = 7" using assms by presburger
  then show "sum_list (delays False n 8) = 125 \<and> set (delays False n 8) = {15, 16} \<and> (next_step False ^^ 8) n = n"
    by (elim disjE) (simp_all add: eval_nat_numeral step_delay_def next_step_def HWTimerTinyX5_nextdelay_def insert_commute)
  show "even n \<Longrightarrow> sum_list (delays True n 4) = 125 \<and> set (delays True n 4) = {31, 32} \<and> (next_step True ^^ 4) n = n"
    using n by (elim disjE) (simp_all add: eval_nat_numeral step_delay_def next_step_def HWTimerTinyX5_nextdelay_def insert_commute)
qed

section \<open>The control registers, Reset and the clock of the core\<close>

lemma SetPrescalerClock_cases:
  "clock_off t \<Longrightarrow> if pcke then clock_on (SetPrescalerClock pcke t) else clock_off (SetPrescalerClock pcke t)"
  "clock_on (t\<lparr>asyncClock_lsm := l\<rparr>) \<Longrightarrow>
     if pcke then clock_on (SetPrescalerClock pcke t) else clock_stopping (SetPrescalerClock pcke t)"
  "clock_stopping t \<Longrightarrow>
     if pcke then asyncClock_async (SetPrescalerClock pcke t) \<and> members (SetPrescalerClock pcke t) = 2
     else clock_stopping (SetPrescalerClock pcke t)"
proof -
  assume on: "clock_on (t\<lparr>asyncClock_lsm := l\<rparr>)"
  have "n = 0 \<or> n = 1 \<or> n = 2 \<or> n = 3 \<or> n = 4 \<or> n = 5 \<or> n = 6 \<or> n = 7" if "0 \<le> n" "n < 8" for n :: int using that by presburger
  then have "0 \<le> n AND NOT 1 \<and> n AND NOT 1 < 8 \<and> even (n AND NOT 1)" if "0 \<le> n" "n < 8" for n :: int using that by fastforce
  with on show "if pcke then clock_on (SetPrescalerClock pcke t) else clock_stopping (SetPrescalerClock pcke t)"
    by (simp add: clock_on_def clock_stopping_def SetPrescalerClock_def)
qed (auto simp: clock_off_def clock_on_def clock_stopping_def SetPrescalerClock_def)

lemma write_other: "reg \<noteq> pllcsrRegister t \<or> reg = gtccrRegister t \<Longrightarrow> clock_state (snd (TinyX5_set_from_reg now r reg v t)) = clock_state t"
  by (auto simp: TinyX5_set_from_reg_def clock_state_def Let_def)

lemma write_pllcsr:
  assumes "reg = pllcsrRegister t" "reg \<noteq> gtccrRegister t"
  obtains u where "snd (TinyX5_set_from_reg now r reg v t) = SetPrescalerClock (bit v 2) u"
    "clock_state u = (asyncClock_step t, asyncClock_async t, bit v 7, members t)"
  using assms by (auto simp: TinyX5_set_from_reg_def clock_state_def Let_def)

text \<open>A clock cycle of the core, if it returns.\<close>

definition leaves :: "('f, 'w, 'hw, unit) tiny_sim \<Rightarrow> bool" where
  "leaves m \<longleftrightarrow> (\<forall>d d'. board_free (pboard d) \<longrightarrow> m d = Inr ((), d') \<longrightarrow>
     board_free (pboard d') \<and> clock_state (part d') = clock_state (part d))"

lemma keeps_leaves: "keeps m \<Longrightarrow> leaves m"
  unfolding keeps_def leaves_def wp_def by fastforce

lemma leaves_intros:
  "leaves m \<Longrightarrow> leaves n \<Longrightarrow> leaves (sq m n)"
  "leaves m \<Longrightarrow> leaves (whenM b m)"
  "(\<And>x. leaves (f x)) \<Longrightarrow> leaves (bnd (gets g) f)"
  "(\<And>t. clock_state (h t) = clock_state t) \<Longrightarrow> leaves (upd_part h)"
  "leaves (fail e)"
proof -
  assume m: "leaves m" and n: "leaves n"
  show "leaves (sq m n)" unfolding leaves_def
  proof (intro allI impI)
    fix d d' :: "(tinyx5, 'a, 'b, 'c) part_dev" assume d: "board_free (pboard d)" "sq m n d = Inr ((), d')"
    then obtain e where "m d = Inr ((), e)" "n e = Inr ((), d')" by (auto simp: sq_def bnd_def split: sum.splits)
    with m n d show "board_free (pboard d') \<and> clock_state (part d') = clock_state (part d)" unfolding leaves_def by metis
  qed
qed (auto simp: leaves_def whenM_def ret_def bnd_def gets_def fail_def modify_def)

lemma leaves_fire: "leaves (tiny_fire E l)"
proof (cases l)
  case (Some v)
  have "leaves (zoom (\<lambda>d. (tirq (part d), pirq d)) (\<lambda>(t, q) d. d\<lparr>part := (part d)\<lparr>tirq := t\<rparr>, pirq := q\<rparr>) m)" for m
    by (auto simp: leaves_def zoom_def clock_state_def split: sum.splits prod.splits)
  then show ?thesis unfolding tiny_fire_def Some option.case by (intro leaves_intros)
qed (simp add: tiny_fire_def leaves_intros)

lemma CpuCycle_clock: "leaves (TinyX5_CpuCycle E)"
  unfolding TinyX5_CpuCycle_def TransferOutputValues_def prod.case
  by (intro leaves_intros leaves_fire keeps_leaves [OF keeps_Transfer] keeps_leaves [OF keeps_TimerCounter])
    (auto simp: clock_state_def split: prod.split intro!: leaves_intros leaves_fire)

lemma Reset_clock:
  assumes "clock_ok t"
  shows "if clock_off t then clock_off (TinyX5_Reset t) else clock_stopping (TinyX5_Reset t)"
  using assms by (auto simp: TinyX5_Reset_def SetPrescalerClock_def clock_ok_def clock_off_def clock_on_def clock_stopping_def)

text \<open>The constructor leaves the clock off, for a timer that is not yet in the table.\<close>

lemma constructor_clock: "members t = 0 \<Longrightarrow> clock_off (HWTimerTinyX5 g p tov tocra a ai tocrb b bi t)"
  by (simp add: HWTimerTinyX5_def TinyX5_Reset_def SetPrescalerClock_def clock_off_def)

lemma clock_state_lsm:
  assumes "clock_state u = (asyncClock_step t, asyncClock_async t, l, members t)"
  shows "clock_off u = clock_off t" "clock_stopping u = clock_stopping t" "clock_on (u\<lparr>asyncClock_lsm := asyncClock_lsm t\<rparr>) = clock_on t"
  using assms by (auto simp: clock_state_def clock_off_def clock_on_def clock_stopping_def)

lemma write_pllcsr_clock:
  assumes "clock_ok t" "reg = pllcsrRegister t" "reg \<noteq> gtccrRegister t" "t' = snd (TinyX5_set_from_reg now r reg v t)"
  shows "if bit v 2 then (if clock_stopping t then asyncClock_async t' \<and> members t' = 2 else clock_on t')
       else (if clock_off t then clock_off t' else clock_stopping t')"
proof -
  obtain u where u: "t' = SetPrescalerClock (bit v 2) u" "clock_state u = (asyncClock_step t, asyncClock_async t, bit v 7, members t)"
    using write_pllcsr [OF assms(2,3)] assms(4) by metis
  note s = clock_state_lsm [OF u(2)]
  have ex: "clock_stopping t \<Longrightarrow> \<not> clock_off t \<and> \<not> clock_on t" "clock_on t \<Longrightarrow> \<not> clock_off t"
    by (auto simp: clock_off_def clock_on_def clock_stopping_def)
  from assms(1) [unfolded clock_ok_def] show ?thesis
  proof (elim disjE)
    assume "clock_off t"
    with s(1) SetPrescalerClock_cases(1) [where t = u and pcke = "bit v 2"] ex show ?thesis unfolding u(1) by (auto split: if_splits)
  next
    assume "clock_on t"
    with s(3) SetPrescalerClock_cases(2) [where t = u and l = "asyncClock_lsm t" and pcke = "bit v 2"] ex show ?thesis unfolding u(1) by (auto split: if_splits)
  next
    assume "clock_stopping t"
    with s(2) SetPrescalerClock_cases(3) [where t = u and pcke = "bit v 2"] ex show ?thesis unfolding u(1) by (auto split: if_splits)
  qed
qed

text \<open>
  C31. The clock of its own that timer 1 of the ATtiny25/45/85 can have is off, on, or switched off with the last step still to
  come, and it is in the table of the system clock not at all, once and once. While it is on, the timer never reads its table of
  delays out of bounds: eight steps in the fast mode, four in the slow mode, take 125 ns together, each of
  them 15 or 16 ns and 31 or 32 ns; then the table starts again. The first step after it is
  switched off takes the timer out of the table of the system clock. Clock cycles of the core and \<open>Reset\<close> keep this, and of
  the writes to PLLCSR and GTCCR only one does not: PLLCSR with PCKE set while the last step is still to come enters the timer
  into the table of the system clock a second time.
\<close>

theorem tiny_async_period:
  assumes "board_free (pboard d)" "clock_ok (part d)" "lsm = asyncClock_lsm (part d)"
    and "t' = snd (TinyX5_set_from_reg now r reg v (part d))"
  shows "(clock_on (part d) \<longrightarrow>
      wp (tiny_steps E (if lsm then 4 else 8)) (\<lambda>ns d'. sum_list ns = 125 \<and> set ns = (if lsm then {31, 32} else {15, 16}) \<and>
        clock_state (part d') = clock_state (part d)) d) \<and>
    (clock_stopping (part d) \<longrightarrow> wp (TinyX5_Step E) (\<lambda>n d'. n = - 1 \<and> clock_off (part d')) d) \<and>
    (\<forall>d'. TinyX5_CpuCycle E d = Inr ((), d') \<longrightarrow> clock_state (part d') = clock_state (part d)) \<and>
    (if clock_off (part d) then clock_off (TinyX5_Reset (part d)) else clock_stopping (TinyX5_Reset (part d))) \<and>
    (reg \<noteq> pllcsrRegister (part d) \<or> reg = gtccrRegister (part d) \<longrightarrow> clock_state t' = clock_state (part d)) \<and>
    (reg = pllcsrRegister (part d) \<and> reg \<noteq> gtccrRegister (part d) \<longrightarrow>
      (if bit v 2 then (if clock_stopping (part d) then asyncClock_async t' \<and> members t' = 2 else clock_on t')
       else (if clock_off (part d) then clock_off t' else clock_stopping t')))"
proof (intro conjI impI allI)
  let ?n = "asyncClock_step (part d)" and ?m = "members (part d)"
  assume "clock_on (part d)"
  then have n: "0 \<le> ?n" "?n < 8" "lsm \<Longrightarrow> even ?n" and c: "clock_state (part d) = (?n, True, lsm, ?m)"
    using assms(3) by (simp_all add: clock_on_def clock_state_def)
  show "wp (tiny_steps E (if lsm then 4 else 8)) (\<lambda>ns d'. sum_list ns = 125 \<and> set ns = (if lsm then {31, 32} else {15, 16}) \<and>
        clock_state (part d') = clock_state (part d)) d"
    by (rule wp_mono [OF wp_tiny_steps [OF assms(1) c n]]) (use delays_full [OF n(1,2)] n(3) c in \<open>auto split: if_splits\<close>)
next
  assume "clock_stopping (part d)"
  then show "wp (TinyX5_Step E) (\<lambda>n d'. n = - 1 \<and> clock_off (part d')) d"
    by (simp add: TinyX5_Step_def wp_simps clock_stopping_def clock_off_def)
next
  fix d' assume "TinyX5_CpuCycle E d = Inr ((), d')"
  then show "clock_state (part d') = clock_state (part d)"
    using CpuCycle_clock [of E] assms(1) by (simp add: leaves_def)
next
  show "if clock_off (part d) then clock_off (TinyX5_Reset (part d)) else clock_stopping (TinyX5_Reset (part d))"
    by (rule Reset_clock [OF assms(2)])
next
  assume "reg \<noteq> pllcsrRegister (part d) \<or> reg = gtccrRegister (part d)"
  then show "clock_state t' = clock_state (part d)" unfolding assms(4) by (rule write_other)
next
  assume "reg = pllcsrRegister (part d) \<and> reg \<noteq> gtccrRegister (part d)"
  then have "reg = pllcsrRegister (part d)" "reg \<noteq> gtccrRegister (part d)" by simp_all
  from write_pllcsr_clock [OF assms(2) this assms(4)] show "if bit v 2 then (if clock_stopping (part d) then asyncClock_async t' \<and> members t' = 2 else clock_on t')
       else (if clock_off (part d) then clock_off t' else clock_stopping t')" .
qed

section \<open>An example\<close>

text \<open>Switched on by a write to PLLCSR; switched off and on again before the next step.\<close>

definition pllcsr_write :: "byte \<Rightarrow> tinyx5 \<Rightarrow> tinyx5" where
  "pllcsr_write v t = snd (TinyX5_set_from_reg 0 0 (pllcsrRegister t) v t)"

theorem tiny_async_period_witness:
  "\<forall>E. (\<exists>ns d'. tiny_steps E 8 (sample_tiny_dev\<lparr>part := pllcsr_write 4 (sample_tiny\<lparr>members := 0\<rparr>)\<rparr>) = Inr (ns, d') \<and> sum_list ns = 125) \<and>
     members (pllcsr_write 4 (pllcsr_write 0 (pllcsr_write 4 (sample_tiny\<lparr>members := 0\<rparr>)))) = 2"
proof
  fix E
  let ?s = "sample_tiny\<lparr>members := 0\<rparr>"
  let ?t = "pllcsr_write 4 ?s" and ?u = "pllcsr_write 0 (pllcsr_write 4 ?s)"
  have r: "pllcsrRegister ?s = 1" "gtccrRegister ?s = 0" "clock_off ?s"
    by (simp_all add: sample_tiny_def HWTimerTinyX5_def TinyX5_Reset_def SetPrescalerClock_def clock_off_def)
  have p: "pllcsrRegister (pllcsr_write v t) = pllcsrRegister t" "gtccrRegister (pllcsr_write v t) = gtccrRegister t"
    "pllcsrRegister t \<noteq> gtccrRegister t \<Longrightarrow> asyncClock_lsm (pllcsr_write v t) = bit v 7" for v t
    by (simp_all add: pllcsr_write_def TinyX5_set_from_reg_def SetPrescalerClock_def Let_def)
  have b: "board_free (pboard (sample_tiny_dev\<lparr>part := t\<rparr>))" for t
    using sample_settled [of 3] by (simp add: sample_tiny_dev_def settled_def)
  have on: "clock_on ?t" using write_pllcsr_clock [of ?s 1 ?t 0 0 4] r by (auto simp: clock_ok_def pllcsr_write_def clock_off_def clock_stopping_def)
  then have st: "clock_stopping ?u"
    using write_pllcsr_clock [of ?t 1 ?u 0 0 0] r by (auto simp: p clock_ok_def pllcsr_write_def [of 0] clock_on_def clock_off_def)
  have l: "False = asyncClock_lsm (part (sample_tiny_dev\<lparr>part := ?t\<rparr>))" using p(3) [of ?s 4] r by simp
  have ok: "clock_ok (part (sample_tiny_dev\<lparr>part := ?t\<rparr>))" "clock_ok (part (sample_tiny_dev\<lparr>part := ?u\<rparr>))"
    using on st by (simp_all add: clock_ok_def)
  have "wp (tiny_steps E 8) (\<lambda>ns d'. sum_list ns = 125) (sample_tiny_dev\<lparr>part := ?t\<rparr>)"
    by (rule wp_mono [OF mp [OF conjunct1 [OF tiny_async_period [OF b ok(1) l refl, of E], unfolded if_False]]]) (use on in auto)
  moreover have "members (pllcsr_write 4 ?u) = 2"
    using tiny_async_period [where reg = 1 and v = 4 and now = 0 and r = 0, OF b ok(2) refl refl,
        THEN conjunct2, THEN conjunct2, THEN conjunct2, THEN conjunct2, THEN conjunct2] st r
    by (simp add: p pllcsr_write_def [of 4 ?u])
  ultimately show "(\<exists>ns d'. tiny_steps E 8 (sample_tiny_dev\<lparr>part := ?t\<rparr>) = Inr (ns, d') \<and> sum_list ns = 125) \<and> members (pllcsr_write 4 ?u) = 2"
    by (auto elim: wpE)
qed

end
