(* ===== verification/Spec2Isabelle.thy ===== *)
theory Spec2Isabelle
  imports Avr_Encoding Avr_SystemClock Avr_Interrupt Avr_TimerWave Avr_UartFrame Avr_ExternalIrq Avr_SpiSetup Avr_WatchDog Avr_AdcValue Avr_Acomp Avr_TinyClock
begin

text \<open>
  \<^bold>\<open>simulavr, a simulator for AVR microcontrollers.\<close>

  This development models the core of the simulator under \<^verbatim>\<open>src/src\<close>: everything that decides
  what a program running on a simulated AVR does to registers, memories, stack, interrupts and
  time. It is a shallow embedding: every class is a record or a datatype and every method is a
  function on it, with the guards, the order of effects and the error exits of the C++ code.

  \<^bold>\<open>How the program works.\<close> \<^verbatim>\<open>SystemClock\<close> keeps a table of simulation members ordered by the
  time of their next step and calls \<open>Step\<close> of the first one. The member that matters is
  \<^verbatim>\<open>AvrDevice\<close>: its \<open>Step\<close> clocks every peripheral in \<open>hwCycleList\<close>, then enters an interrupt
  that \<^verbatim>\<open>HWIrqSystem\<close> offers, or fetches a decoded instruction from \<^verbatim>\<open>AvrFlash\<close> and executes it.
  Instructions see registers, I/O registers and SRAM as one array \<open>rw\<close> of cells, some of which
  are registers of peripherals. The stack is a \<^verbatim>\<open>HWStack\<close>, either in SRAM or in three hardware
  levels. Self programming and the EEPROM are state machines that run beside the program.

  \<^bold>\<open>Theories and the code they model.\<close>

  \<^item> \<open>Avr_Prelude\<close>: machine integers, errors as values, state passing, lemmas on words.
  \<^item> \<open>Avr_Decoder\<close>, \<open>Avr_Encoding\<close>: \<open>lookup_opcode\<close> and the operand extraction of
    \<^verbatim>\<open>decoder.cpp\<close>, against the bit patterns that \<^verbatim>\<open>decoder.h\<close> documents.
  \<^item> \<open>Avr_MinHeap\<close>, \<open>Avr_SystemClock\<close>: \<^verbatim>\<open>systemclock.h\<close> and \<^verbatim>\<open>systemclock.cpp\<close>.
  \<^item> \<open>Avr_Sreg\<close>, \<open>Avr_Alu\<close>: \<^verbatim>\<open>hwsreg.h\<close>, \<^verbatim>\<open>hwsreg.cpp\<close> and the flag formulas of
    \<^verbatim>\<open>decoder.cpp\<close>.
  \<^item> \<open>Avr_Flash\<close>, \<open>Avr_FlashProg\<close>: \<^verbatim>\<open>flash.cpp\<close>, \<^verbatim>\<open>flashprog.cpp\<close> and their headers.
  \<^item> \<open>Avr_Irq\<close>: \<^verbatim>\<open>irqsystem.cpp\<close> without \<open>GetNewPc\<close>.
  \<^item> \<open>Avr_Device\<close>: the state of \<^verbatim>\<open>avrdevice.h\<close>, the memory cells of \<^verbatim>\<open>rwmem.cpp\<close>,
    \<^verbatim>\<open>hwstack.cpp\<close>, \<^verbatim>\<open>hwwado.cpp\<close>, \<^verbatim>\<open>ioregs.h\<close>, \<open>Reset\<close> and \<open>GetNewPc\<close>.
  \<^item> \<open>Avr_Exec\<close>: the \<open>operator()\<close> of every instruction class of \<^verbatim>\<open>decoder.cpp\<close>.
  \<^item> \<open>Avr_Step\<close>: \<open>AvrDevice::Step\<close> and \<open>opIsCli\<close> of \<^verbatim>\<open>avrdevice.cpp\<close>.
  \<^item> \<open>Avr_Eeprom\<close>: \<^verbatim>\<open>hweeprom.cpp\<close>.
  \<^item> \<open>Avr_Pin\<close>: pins, nets and ports of \<^verbatim>\<open>pin.cpp\<close>, \<^verbatim>\<open>net.cpp\<close>, \<^verbatim>\<open>hwport.cpp\<close> and
    \<^verbatim>\<open>pinatport.cpp\<close>. Pins and nets are numbers in a record \<open>board\<close>; the listeners of a pin
    are a parameter, since they are objects of the user of the pin.
  \<^item> \<open>Avr_TimerIrq\<close>: the special registers of \<^verbatim>\<open>rwmem.cpp\<close> and, of \<^verbatim>\<open>hwtimer\<close>, the prescalers
    (\<^verbatim>\<open>timerprescaler.cpp\<close>), the clock selectors (\<^verbatim>\<open>prescalermux.cpp\<close>) and the flag and mask
    registers (\<^verbatim>\<open>timerirq.cpp\<close>).
  \<^item> \<open>Avr_Timer\<close>: \<^verbatim>\<open>hwtimer.cpp\<close> without the timer of the ATtiny25/45/85, and
    \<^verbatim>\<open>icapturesrc.cpp\<close>. A timer, its interrupt register and the board form one record.
  \<^item> \<open>Avr_TimerTiny\<close>: the rest of \<^verbatim>\<open>hwtimer.cpp\<close>, timer 1 of the ATtiny25/45/85 with its output
    units, its registers between two clock domains and its own clock.
  \<^item> \<open>Avr_Part\<close>: what a peripheral has in common with others: its own state beside the interrupt
    system and the board, the calls it makes there.
  \<^item> \<open>Avr_Uart\<close>: \<^verbatim>\<open>hwuart.cpp\<close>; \<open>rx_step\<close> and \<open>tx_step\<close> are the two state machines.
  \<^item> \<open>Avr_ExternalIrq\<close>: \<^verbatim>\<open>externalirq.cpp\<close>, the handler with its sources and the listener that
    each source is on its pins.
  \<^item> \<open>Avr_Spi\<close>: \<^verbatim>\<open>hwspi.cpp\<close>; \<open>master_cycle\<close> and \<open>slave_cycle\<close> are the two halves of \<open>CpuCycle\<close>.
  \<^item> \<open>Avr_WatchDog\<close>: \<^verbatim>\<open>watchdog.cpp\<close>, the watchdog with an interrupt.
  \<^item> \<open>Avr_Adc\<close>: \<^verbatim>\<open>hwad.cpp\<close> and \<^verbatim>\<open>hwacomp.cpp\<close>; voltages are elements of an ordered field, and a
    floating point operation is the exact one followed by a rounding that is a parameter.
  \<^item> \<open>Avr_Invariant\<close>, \<open>Avr_Stack\<close>, \<open>Avr_Isa\<close>, \<open>Avr_Flow\<close>, \<open>Avr_Interrupt\<close>: no new code, the
    theorems about the device as a whole.
  \<^item> \<open>Avr_TimerMode\<close>, \<open>Avr_TimerWave\<close>: no new code, the theorems about the timers.
  \<^item> \<open>Avr_UartLine\<close>, \<open>Avr_UartFrame\<close>: no new code, the interrupts of the serial interface and the
    frames it sends and receives.
  \<^item> \<open>Avr_Level\<close>, \<open>Avr_SpiLink\<close>, \<open>Avr_SpiBus\<close>, \<open>Avr_SpiSetup\<close>: no new code, the levels of port pins
    under changes of alternate functions, the exchange of bytes by two linked shift registers, the
    same on boards, and what the control register makes of the pins.
  \<^item> \<open>Avr_TinyDead\<close>, \<open>Avr_TinyCount\<close>, \<open>Avr_TinyClock\<close>: no new code, the dead time of the output
    units, the counter, and the delays of the clock of that timer.
  \<^item> \<open>Avr_AdcRun\<close>, \<open>Avr_AdcValue\<close>, \<open>Avr_Acomp\<close>: no new code, the course of a conversion, the range of
    its result, and when the output of the comparator is up to date.

  \<^bold>\<open>What is shown.\<close>

  \<^item> Decoder: decoding and the documented encoding are inverse, operands are in range.
  \<^item> Clock: the array heap refines a priority queue with insertion, removal and replacement of the minimum, and
    what replacement at a position does; time never runs backwards, \<open>Run\<close> returns.
  \<^item> Flash and SPM: the cache of decoded instructions always agrees with the stored bytes; the
    SPM engine is armed for four cycles and a page write changes that page only.
  \<^item> Instructions: results and flags are those of the exact integer results, alone and in the
    usual 16 bit sequences; stores and loads, calls and returns, skips and errors.
  \<^item> Stack and interrupts: last in first out, the lowest vector first, entry and RETI are inverse.
  \<^item> Device: a step branch by branch, timing, and an invariant of all reachable states. The
    contract of a peripheral is the locale of \<open>Avr_Invariant\<close>; it is interpreted for the parts
    modelled here.
  \<^item> EEPROM: programming and reading back, no change without a started operation.
  \<^item> Pins and ports: the level of a net, PIN reads back what PORT and DDR drive.
  \<^item> Timers: prescaler taps, flags and requests, the period of the counter, duty cycles in fast
    and phase correct PWM, access to 16 bit registers in two bytes; the dead time between two outputs,
    the asynchronous clock, its place in the table of the system clock and the one register write that enters it twice.
  \<^item> Serial interface: which operations keep the requests in step with the flags and how writes to USR and \<open>Reset\<close>
    do not, a frame on the line is received, a byte that one
    interface sends arrives at another.
  \<^item> External interrupts: which edges and levels on the net of a pin fire, the mask and flag registers.
  \<^item> SPI: a cycle is a step on the levels of the four pins and touches no other pin, master and slave
    exchange their bytes in 16 half periods, the control register sets up the pins.
  \<^item> Watchdog: what happens when the time is over, the gate of four cycles for changes.
  \<^item> Analog parts: the timing and the result of a conversion, its range and monotonicity, edges of the
    comparator, and the register writes that keep its output up to date.

  \<^bold>\<open>Loops.\<close> Loops over a fixed range are structural recursion. The loop of \<open>AvrDevice::Step\<close> over the
  clocked parts has fuel \<open>length hwResetList + length hwCycleList + 1\<close>, since a part may add or
  remove itself but no part is in the list twice; \<open>clock_parts_returns\<close> shows that this is
  enough. The loops of \<open>SystemClock::Run\<close> and its variants may run forever and are partial
  functions into \<open>option\<close>; \<open>Run_returns\<close> shows when they end.

  \<^bold>\<open>Simplifications.\<close> Simulation time (64 bit), the offsets and sizes given to \<open>Flash.WriteMem\<close> and the clock
  counters are unbounded numbers. The only watchdog that the instruction WDR restarts is the one of \<^verbatim>\<open>hwwado.cpp\<close>; the watchdog with
  an interrupt is modelled as a part of its own.

  \<^bold>\<open>Not modelled.\<close> \<^verbatim>\<open>hwpinchange.cpp\<close> is dead code (its constructors end in \<open>assert(false)\<close>). The constructors of the
  device types only place parts at addresses. The GDB server, the user interface, network chips, voltages
  read from files of the host (\<^verbatim>\<open>adcpin.cpp\<close>), ELF loading, tracing, symbol names and messages are
  input and output of the host and have no influence on the simulated state.
\<close>

end
